(* ===== verification/Py_Prelude.thy ===== *)
theory Py_Prelude
  imports Complex_Main "HOL-Library.AList" "HOL-Library.Sublist"
begin

text \<open>
  The Python vocabulary the components share: strings and their methods, integers
  in decimal, insertion-ordered dictionaries, and the generic lemmas about them.

  A Python \<open>str\<close> is a \<^typ>\<open>string\<close>, a character standing for the code point of the same
  number (0 to 255); a \<open>bytes\<close> value is a \<^typ>\<open>string\<close> as well, one character per byte.
  A finite Python float is a \<^typ>\<open>rat\<close>. A \<open>dict\<close> is an association list in insertion
  order: assignment to a present key keeps the position, a new key goes to the end
  (\<^const>\<open>AList.update\<close>), and \<open>pop\<close> is \<^const>\<open>AList.delete\<close>.
\<close>

named_theorems py_simps \<open>unfolding facts for the string methods\<close>

type_synonym bytestr = string
type_synonym ('k, 'v) dict = "('k \<times> 'v) list"

abbreviation nl :: char where "nl \<equiv> CHR 0x0A"
abbreviation cr :: char where "cr \<equiv> CHR 0x0D"
abbreviation tab :: char where "tab \<equiv> CHR 0x09"
abbreviation esc :: char where "esc \<equiv> CHR 0x1B"
abbreviation bslash :: char where "bslash \<equiv> CHR 0x5C"
abbreviation dquote :: char where "dquote \<equiv> CHR 0x22"
abbreviation squote :: char where "squote \<equiv> CHR 0x27"
abbreviation bquote :: char where "bquote \<equiv> CHR 0x60"

abbreviation ord :: "char \<Rightarrow> nat" where "ord \<equiv> of_char"

section \<open>Character classes\<close>

text \<open>\<open>str.isspace\<close> on the code points below 256.\<close>

definition is_space :: "char \<Rightarrow> bool" where
  "is_space c \<longleftrightarrow> c = CHR '' '' \<or> (9 \<le> ord c \<and> ord c \<le> 13) \<or> (28 \<le> ord c \<and> ord c \<le> 31)
     \<or> ord c = 133 \<or> ord c = 160"

definition is_digit :: "char \<Rightarrow> bool" where
  "is_digit c \<longleftrightarrow> 48 \<le> ord c \<and> ord c \<le> 57"

definition is_upper :: "char \<Rightarrow> bool" where
  "is_upper c \<longleftrightarrow> 65 \<le> ord c \<and> ord c \<le> 90"

definition is_lower :: "char \<Rightarrow> bool" where
  "is_lower c \<longleftrightarrow> 97 \<le> ord c \<and> ord c \<le> 122"

text \<open>The regular-expression class \<open>\w\<close> on the code points below 256.\<close>

definition is_word :: "char \<Rightarrow> bool" where
  "is_word c \<longleftrightarrow> is_digit c \<or> is_upper c \<or> is_lower c \<or> c = CHR ''_''
     \<or> ord c \<in> {170, 178, 179, 181, 185, 186, 188, 189, 190}
     \<or> (192 \<le> ord c \<and> ord c \<noteq> 215 \<and> ord c \<noteq> 247)"

text \<open>\<open>str.isprintable\<close> on a one-byte UTF-8 character.\<close>

definition is_printable_ascii :: "char \<Rightarrow> bool" where
  "is_printable_ascii c \<longleftrightarrow> 32 \<le> ord c \<and> ord c \<le> 126"

definition lower_char :: "char \<Rightarrow> char" where
  "lower_char c = (if is_upper c \<or> (192 \<le> ord c \<and> ord c \<le> 222 \<and> ord c \<noteq> 215)
                   then char_of (ord c + 32) else c)"

definition upper_char :: "char \<Rightarrow> char" where
  "upper_char c = (if is_lower c \<or> (224 \<le> ord c \<and> ord c \<le> 254 \<and> ord c \<noteq> 247)
                   then char_of (ord c - 32) else c)"

definition py_lower :: "string \<Rightarrow> string" where
  "py_lower s = map lower_char s"

section \<open>Stripping and splitting\<close>

definition lstrip_by :: "(char \<Rightarrow> bool) \<Rightarrow> string \<Rightarrow> string" where
  "lstrip_by P s = dropWhile P s"

definition rstrip_by :: "(char \<Rightarrow> bool) \<Rightarrow> string \<Rightarrow> string" where
  "rstrip_by P s = rev (dropWhile P (rev s))"

definition strip_by :: "(char \<Rightarrow> bool) \<Rightarrow> string \<Rightarrow> string" where
  "strip_by P s = rstrip_by P (lstrip_by P s)"

abbreviation py_strip :: "string \<Rightarrow> string" where "py_strip \<equiv> strip_by is_space"
abbreviation py_rstrip :: "string \<Rightarrow> string" where "py_rstrip \<equiv> rstrip_by is_space"

lemma length_dropWhile_less:
  assumes "dropWhile Q s \<noteq> []"
  shows "length (dropWhile (\<lambda>c. \<not> Q c) (dropWhile Q s)) < length s"
proof -
  obtain x xs where x: "dropWhile Q s = x # xs" using assms by (cases "dropWhile Q s") auto
  then have "\<not> Q x" by (metis hd_dropWhile list.distinct(1) list.sel(1))
  then have "length (dropWhile (\<lambda>c. \<not> Q c) (dropWhile Q s)) \<le> length xs"
    by (simp add: x length_dropWhile_le)
  moreover have "length (x # xs) \<le> length s" by (metis x length_dropWhile_le)
  ultimately show ?thesis by simp
qed

text \<open>\<open>s.split()\<close>: maximal runs of non-space characters.\<close>

function split_ws :: "string \<Rightarrow> string list" where
  "split_ws s =
     (let t = dropWhile is_space s in
      if t = [] then []
      else takeWhile (\<lambda>c. \<not> is_space c) t # split_ws (dropWhile (\<lambda>c. \<not> is_space c) t))"
  by pat_completeness auto
termination
  by (relation "measure length") (auto simp: length_dropWhile_less)

declare split_ws.simps [simp del]

text \<open>\<open>s.split(None, 1)\<close>: the first word and the rest, leading spaces of the rest dropped.\<close>

definition split_ws1 :: "string \<Rightarrow> string list" where
  "split_ws1 s =
     (let t = dropWhile is_space s in
      if t = [] then []
      else let r = dropWhile is_space (dropWhile (\<lambda>c. \<not> is_space c) t) in
        takeWhile (\<lambda>c. \<not> is_space c) t # (if r = [] then [] else [r]))"


text \<open>\<open>s.split(c)\<close> for a one-character separator.\<close>

fun split_on :: "char \<Rightarrow> string \<Rightarrow> string list" where
  "split_on c [] = [[]]"
| "split_on c (x # xs) =
     (if x = c then [] # split_on c xs
      else (case split_on c xs of [] \<Rightarrow> [[x]] | w # ws \<Rightarrow> (x # w) # ws))"

text \<open>\<open>s.split(c, 1)[0]\<close> and, where \<open>c\<close> occurs, \<open>s.split(c, 1)[1]\<close>.\<close>

definition before_first :: "char \<Rightarrow> string \<Rightarrow> string" where
  "before_first c s = takeWhile (\<lambda>x. x \<noteq> c) s"

definition after_first :: "char \<Rightarrow> string \<Rightarrow> string" where
  "after_first c s = drop 1 (dropWhile (\<lambda>x. x \<noteq> c) s)"

text \<open>\<open>s.rsplit(c, 1)[-1]\<close> and the part before the last \<open>c\<close> as \<open>rpartition\<close> gives it.\<close>

definition after_last :: "char \<Rightarrow> string \<Rightarrow> string" where
  "after_last c s = rev (takeWhile (\<lambda>x. x \<noteq> c) (rev s))"

definition before_last :: "char \<Rightarrow> string \<Rightarrow> string" where
  "before_last c s = rev (drop 1 (dropWhile (\<lambda>x. x \<noteq> c) (rev s)))"

section \<open>Searching, replacing, joining\<close>

abbreviation startswith :: "string \<Rightarrow> string \<Rightarrow> bool" where
  "startswith s p \<equiv> prefix p s"

abbreviation endswith :: "string \<Rightarrow> string \<Rightarrow> bool" where
  "endswith s p \<equiv> suffix p s"

text \<open>\<open>p in s\<close> for strings.\<close>

fun str_in :: "string \<Rightarrow> string \<Rightarrow> bool" where
  "str_in p [] = (p = [])"
| "str_in p (x # xs) = (prefix p (x # xs) \<or> str_in p xs)"

text \<open>\<open>s.find(p)\<close>, with \<^const>\<open>None\<close> for \<open>-1\<close>.\<close>

fun str_find :: "string \<Rightarrow> string \<Rightarrow> nat option" where
  "str_find p [] = (if p = [] then Some 0 else None)"
| "str_find p (x # xs) =
     (if prefix p (x # xs) then Some 0 else map_option Suc (str_find p xs))"

text \<open>\<open>s.count(p)\<close> and \<open>s.replace(p, q)\<close> for a non-empty \<open>p\<close>: left to right, not overlapping.\<close>

function str_count :: "string \<Rightarrow> string \<Rightarrow> nat" where
  "str_count p s =
     (if p = [] then Suc (length s)
      else case s of [] \<Rightarrow> 0
       | x # xs \<Rightarrow> (if prefix p s then Suc (str_count p (drop (length p) s)) else str_count p xs))"
  by pat_completeness auto
termination
  by (relation "measure (\<lambda>(p, s). length s)") auto

function str_replace :: "string \<Rightarrow> string \<Rightarrow> string \<Rightarrow> string" where
  "str_replace p q s =
     (if p = [] then q @ concat (map (\<lambda>c. c # q) s)
      else case s of [] \<Rightarrow> []
       | x # xs \<Rightarrow> (if prefix p s then q @ str_replace p q (drop (length p) s)
                    else x # str_replace p q xs))"
  by pat_completeness auto
termination
  by (relation "measure (\<lambda>(p, q, s). length s)") auto

declare str_count.simps [simp del] str_replace.simps [simp del]

text \<open>\<open>sep.join(xs)\<close>.\<close>

fun py_join :: "string \<Rightarrow> string list \<Rightarrow> string" where
  "py_join sep [] = []"
| "py_join sep [x] = x"
| "py_join sep (x # y # xs) = x @ sep @ py_join sep (y # xs)"

text \<open>\<open>s.splitlines()\<close>; carriage return and line feed together are one boundary.\<close>

definition is_linebreak :: "char \<Rightarrow> bool" where
  "is_linebreak c \<longleftrightarrow> (10 \<le> ord c \<and> ord c \<le> 13) \<or> (28 \<le> ord c \<and> ord c \<le> 30) \<or> ord c = 133"

fun splitlines_aux :: "string \<Rightarrow> string \<Rightarrow> string list" where
  "splitlines_aux cur [] = (if cur = [] then [] else [rev cur])"
| "splitlines_aux cur [x] = (if is_linebreak x then [rev cur] else [rev (x # cur)])"
| "splitlines_aux cur (x # y # xs) =
     (if is_linebreak x
      then rev cur # (if x = cr \<and> y = nl then splitlines_aux [] xs else splitlines_aux [] (y # xs))
      else splitlines_aux (x # cur) (y # xs))"

definition splitlines :: "string \<Rightarrow> string list" where
  "splitlines s = splitlines_aux [] s"

section \<open>Numbers as text\<close>

definition digit_char :: "nat \<Rightarrow> char" where
  "digit_char d = char_of (48 + d)"

fun str_of_nat :: "nat \<Rightarrow> string" where
  "str_of_nat n = (if n < 10 then [digit_char n] else str_of_nat (n div 10) @ [digit_char (n mod 10)])"

declare str_of_nat.simps [simp del]

definition str_of_int :: "int \<Rightarrow> string" where
  "str_of_int i = (if i < 0 then CHR ''-'' # str_of_nat (nat (- i)) else str_of_nat (nat i))"

definition digit_val :: "char \<Rightarrow> nat" where
  "digit_val c = ord c - 48"

definition nat_of_digits :: "string \<Rightarrow> nat" where
  "nat_of_digits s = fold (\<lambda>c n. 10 * n + digit_val c) s 0"

text \<open>
  \<open>int(s)\<close> on a string: surrounding space and a sign are allowed, a single underscore may
  stand between two digits, and the interpreter refuses more than 4300 digits. \<^const>\<open>None\<close>
  is the \<open>ValueError\<close>.
\<close>

fun digits_ok :: "string \<Rightarrow> bool" where
  "digits_ok [] = False"
| "digits_ok [c] = is_digit c"
| "digits_ok (c # d # s) =
     (is_digit c \<and> (if d = CHR ''_'' then digits_ok s else digits_ok (d # s)))"

definition py_int_unsigned :: "string \<Rightarrow> nat option" where
  "py_int_unsigned s =
     (if digits_ok s \<and> length (filter is_digit s) \<le> 4300
      then Some (nat_of_digits (filter is_digit s)) else None)"

definition py_int :: "string \<Rightarrow> int option" where
  "py_int s =
     (case py_strip s of
        [] \<Rightarrow> None
      | c # t \<Rightarrow>
          if c = CHR ''-'' then map_option (\<lambda>n. - int n) (py_int_unsigned t)
          else if c = CHR ''+'' then map_option int (py_int_unsigned t)
          else map_option int (py_int_unsigned (c # t)))"

text \<open>The format specifications \<open>:>n\<close>, \<open>:<n\<close> and \<open>:0n\<close>.\<close>

definition rjust :: "nat \<Rightarrow> string \<Rightarrow> string" where
  "rjust n s = replicate (n - length s) (CHR '' '') @ s"

definition ljust :: "nat \<Rightarrow> string \<Rightarrow> string" where
  "ljust n s = s @ replicate (n - length s) (CHR '' '')"

definition zfill :: "nat \<Rightarrow> string \<Rightarrow> string" where
  "zfill n s = replicate (n - length s) (CHR ''0'') @ s"

text \<open>\<open>len(s.encode("utf-8"))\<close>.\<close>

definition utf8_len :: "string \<Rightarrow> nat" where
  "utf8_len s = sum_list (map (\<lambda>c. if ord c < 128 then 1 else 2) s)"


section \<open>Lemmas\<close>

subsection \<open>Stripping\<close>

lemma lstrip_by_id: "s \<noteq> [] \<Longrightarrow> \<not> P (hd s) \<Longrightarrow> lstrip_by P s = s"
  by (cases s) (auto simp: lstrip_by_def)

lemma rstrip_by_id: "s \<noteq> [] \<Longrightarrow> \<not> P (last s) \<Longrightarrow> rstrip_by P s = s"
  by (cases s rule: rev_cases) (auto simp: rstrip_by_def)

lemma strip_by_id: "s \<noteq> [] \<Longrightarrow> \<not> P (hd s) \<Longrightarrow> \<not> P (last s) \<Longrightarrow> strip_by P s = s"
  by (simp add: strip_by_def lstrip_by_id rstrip_by_id)

lemma strip_by_Nil [simp]: "strip_by P [] = []" "rstrip_by P [] = []" "lstrip_by P [] = []"
  by (simp_all add: strip_by_def rstrip_by_def lstrip_by_def)

lemma rstrip_by_snoc: "rstrip_by P (s @ [c]) = (if P c then rstrip_by P s else s @ [c])"
  by (simp add: rstrip_by_def)

lemma strip_by_snoc: "P c \<Longrightarrow> strip_by P (s @ [c]) = strip_by P s"
proof (cases "\<forall>x\<in>set s. P x")
  case True
  assume "P c"
  with True have "dropWhile P (s @ [c]) = []" "dropWhile P s = []" by auto
  then show ?thesis unfolding strip_by_def lstrip_by_def by metis
next
  case False
  assume "P c"
  with False show ?thesis by (auto simp: strip_by_def lstrip_by_def dropWhile_append rstrip_by_snoc)
qed

lemma strip_by_Cons: "P c \<Longrightarrow> strip_by P (c # s) = strip_by P s"
  by (simp add: strip_by_def lstrip_by_def)

lemma rstrip_by_prefix: "prefix (rstrip_by P s) s"
proof -
  have "s = rev (dropWhile P (rev s)) @ rev (takeWhile P (rev s))"
    by (metis rev_append rev_rev_ident takeWhile_dropWhile_id)
  then show ?thesis unfolding rstrip_by_def prefix_def by blast
qed

lemma strip_by_decomp:
  obtains u v where "s = u @ strip_by P s @ v" "\<forall>c\<in>set u. P c" "\<forall>c\<in>set v. P c"
proof -
  let ?t = "dropWhile P s"
  have "s = takeWhile P s @ ?t" by simp
  moreover have "?t = rev (dropWhile P (rev ?t)) @ rev (takeWhile P (rev ?t))"
    by (metis rev_append rev_rev_ident takeWhile_dropWhile_id)
  ultimately have "s = takeWhile P s @ strip_by P s @ rev (takeWhile P (rev ?t))"
    by (simp add: strip_by_def rstrip_by_def lstrip_by_def)
  moreover have "\<forall>c\<in>set (takeWhile P s). P c" "\<forall>c\<in>set (rev (takeWhile P (rev ?t))). P c"
    by (auto dest: set_takeWhileD)
  ultimately show ?thesis using that by blast
qed

lemma set_strip_by: "set (strip_by P s) \<subseteq> set s"
  by (rule strip_by_decomp [of s P]) (metis Un_iff set_append subsetI)

lemma strip_by_eq_Nil: "strip_by P s = [] \<longleftrightarrow> (\<forall>c\<in>set s. P c)"
proof
  assume "strip_by P s = []"
  then show "\<forall>c\<in>set s. P c" by (rule_tac strip_by_decomp [of s P]) auto
next
  assume "\<forall>c\<in>set s. P c"
  then have "dropWhile P s = []" by simp
  then show "strip_by P s = []" by (simp only: strip_by_def lstrip_by_def strip_by_Nil)
qed

lemma hd_strip_by: "strip_by P s \<noteq> [] \<Longrightarrow> \<not> P (hd (strip_by P s))"
proof -
  assume ne: "strip_by P s \<noteq> []"
  then have d: "dropWhile P s \<noteq> []" by (metis strip_by_def lstrip_by_def strip_by_Nil(2))
  obtain v where "dropWhile P s = strip_by P s @ v"
    using rstrip_by_prefix [of P "dropWhile P s"] by (auto simp: strip_by_def lstrip_by_def prefix_def)
  then have "hd (strip_by P s) = hd (dropWhile P s)" using ne by (metis hd_append2)
  then show ?thesis using hd_dropWhile [OF d] by simp
qed

lemma last_rstrip_by: "rstrip_by P s \<noteq> [] \<Longrightarrow> \<not> P (last (rstrip_by P s))"
  by (simp add: rstrip_by_def last_rev hd_dropWhile)

lemma last_strip_by: "strip_by P s \<noteq> [] \<Longrightarrow> \<not> P (last (strip_by P s))"
  by (simp add: strip_by_def last_rstrip_by)

lemma strip_by_idem [simp]: "strip_by P (strip_by P s) = strip_by P s"
  by (cases "strip_by P s = []") (simp_all add: strip_by_id hd_strip_by last_strip_by)

subsection \<open>Splitting and joining\<close>

lemma split_on_not_Nil [simp]: "split_on c s \<noteq> []"
  by (induction s) (auto split: list.splits)

lemma py_join_Cons: "xs \<noteq> [] \<Longrightarrow> py_join sep (x # xs) = x @ sep @ py_join sep xs"
  by (cases xs) auto

lemma py_join_append:
  "xs \<noteq> [] \<Longrightarrow> ys \<noteq> [] \<Longrightarrow> py_join sep (xs @ ys) = py_join sep xs @ sep @ py_join sep ys"
proof (induction xs)
  case (Cons x xs)
  then show ?case by (cases "xs = []") (simp_all add: py_join_Cons)
qed simp

lemma set_py_join: "set (py_join sep xs) \<subseteq> set sep \<union> \<Union> (set ` set xs)"
  by (induction sep xs rule: py_join.induct) auto

lemma py_join_head: "py_join sep ((x # w) # ws) = x # py_join sep (w # ws)"
  by (cases ws) auto

lemma py_join_split_on: "py_join [c] (split_on c s) = s"
proof (induction s)
  case (Cons x xs)
  obtain w ws where w: "split_on c xs = w # ws" by (cases "split_on c xs") auto
  show ?case
  proof (cases "x = c")
    case True
    then show ?thesis using Cons by (simp add: py_join_Cons)
  next
    case False
    then show ?thesis using Cons by (simp add: w py_join_head)
  qed
qed simp

lemma split_on_no_sep: "c \<notin> set s \<Longrightarrow> split_on c s = [s]"
  by (induction s) auto

lemma split_on_append: "c \<notin> set x \<Longrightarrow> split_on c (x @ c # s) = x # split_on c s"
  by (induction x) auto

lemma split_on_join:
  "xs \<noteq> [] \<Longrightarrow> \<forall>x\<in>set xs. c \<notin> set x \<Longrightarrow> split_on c (py_join [c] xs) = xs"
  by (induction "[c]" xs rule: py_join.induct) (auto simp: split_on_no_sep split_on_append)

lemma split_on_parts: "x \<in> set (split_on c s) \<Longrightarrow> c \<notin> set x"
  by (induction s arbitrary: x) (auto split: if_splits list.splits)

lemma split_on_subset: "x \<in> set (split_on c s) \<Longrightarrow> set x \<subseteq> set s"
  by (induction s arbitrary: x) (fastforce split: if_splits list.splits)+

lemma split_on_parts_in:
  "split_on c s = w # ws \<Longrightarrow> set w \<subseteq> set s"
  by (rule split_on_subset [of w c]) simp

lemma before_first_append: "c \<notin> set u \<Longrightarrow> before_first c (u @ c # v) = u"
  by (induction u) (auto simp: before_first_def)

lemma before_first_absent: "c \<notin> set u \<Longrightarrow> before_first c u = u"
  by (auto simp: before_first_def)

lemma split_ws_step:
  "dropWhile is_space s = t \<Longrightarrow> t \<noteq> [] \<Longrightarrow>
   split_ws s = takeWhile (\<lambda>c. \<not> is_space c) t # split_ws (dropWhile (\<lambda>c. \<not> is_space c) t)"
  by (subst split_ws.simps) (simp only: Let_def if_False)

lemma split_ws_blank: "\<forall>c\<in>set s. is_space c \<Longrightarrow> split_ws s = []"
  by (subst split_ws.simps) simp

lemma split_ws_Nil [simp]: "split_ws [] = []"
  by (simp add: split_ws_blank)

lemma split_ws_words: "w \<in> set (split_ws s) \<Longrightarrow> w \<noteq> [] \<and> (\<forall>c\<in>set w. \<not> is_space c)"
proof (induction s arbitrary: w rule: split_ws.induct)
  case (1 s)
  let ?t = "dropWhile is_space s"
  from "1.prems" have ne: "?t \<noteq> []" using split_ws_blank [of s] by fastforce
  from "1.prems" consider "w = takeWhile (\<lambda>c. \<not> is_space c) ?t"
    | "w \<in> set (split_ws (dropWhile (\<lambda>c. \<not> is_space c) ?t))"
    unfolding split_ws_step [OF refl ne] by (metis set_ConsD)
  then show ?case
  proof cases
    case 1
    have "\<not> is_space (hd ?t)" using ne by (rule hd_dropWhile)
    then show ?thesis using 1 ne by (cases ?t) (auto dest: set_takeWhileD)
  next
    case 2
    then show ?thesis using "1.IH" [OF refl ne] by blast
  qed
qed

lemma split_ws_single: "s \<noteq> [] \<Longrightarrow> \<forall>c\<in>set s. \<not> is_space c \<Longrightarrow> split_ws s = [s]"
proof -
  assume ne: "s \<noteq> []" and w: "\<forall>c\<in>set s. \<not> is_space c"
  have d: "dropWhile is_space s = s" using ne w by (cases s) auto
  have "takeWhile (\<lambda>c. \<not> is_space c) s = s" "dropWhile (\<lambda>c. \<not> is_space c) s = []" using w by auto
  then show ?thesis using split_ws_step [OF d ne] by (simp only: split_ws_Nil)
qed

subsection \<open>Substrings and replacement\<close>

lemma str_in_iff: "str_in p s \<longleftrightarrow> sublist p s"
  by (induction s) (auto simp: sublist_Cons_right)

lemma str_in_decomp: "str_in p s \<longleftrightarrow> (\<exists>u v. s = u @ p @ v)"
  by (simp add: str_in_iff sublist_def)

lemma str_in_single: "str_in [c] s \<longleftrightarrow> c \<in> set s"
  by (induction s) auto

lemma str_find_Some: "str_find p s = Some i \<Longrightarrow> i \<le> length s \<and> prefix p (drop i s) \<and>
    (\<forall>j<i. \<not> prefix p (drop j s))"
proof (induction s arbitrary: i)
  case (Cons x xs)
  show ?case
  proof (cases "prefix p (x # xs)")
    case False
    then obtain j where j: "str_find p xs = Some j" "i = Suc j" using Cons.prems by auto
    then show ?thesis using Cons.IH [OF j(1)] False by (auto simp: less_Suc_eq_0_disj)
  qed (use Cons.prems in auto)
qed (auto split: if_splits)

lemma str_find_None: "str_find p s = None \<longleftrightarrow> \<not> str_in p s"
  by (induction s) auto

lemma str_replace_absent: "p \<noteq> [] \<Longrightarrow> \<not> str_in p s \<Longrightarrow> str_replace p q s = s"
  by (induction s) (simp_all add: str_replace.simps)

lemma str_replace_char: "str_replace [c] q s = concat (map (\<lambda>x. if x = c then q else [x]) s)"
  by (induction s) (auto simp: str_replace.simps)

subsection \<open>Lines\<close>

lemma splitlines_aux_no_break:
  "\<forall>l\<in>set ls. \<forall>c\<in>set l. \<not> is_linebreak c \<Longrightarrow> \<forall>c\<in>set w. \<not> is_linebreak c \<Longrightarrow>
   splitlines_aux cur (w @ nl # concat (map (\<lambda>l. l @ [nl]) ls)) =
     (rev cur @ w) # splitlines_aux [] (concat (map (\<lambda>l. l @ [nl]) ls))"
proof (induction w arbitrary: cur)
  case Nil
  have "is_linebreak nl" by (simp add: is_linebreak_def)
  then show ?case by (cases "concat (map (\<lambda>l. l @ [nl]) ls)") auto
next
  case (Cons x xs)
  then show ?case by (cases xs) auto
qed

text \<open>Lines that hold no line break survive being joined with line feeds and split again.\<close>

lemma splitlines_concat:
  "\<forall>l\<in>set ls. \<forall>c\<in>set l. \<not> is_linebreak c \<Longrightarrow> splitlines (concat (map (\<lambda>l. l @ [nl]) ls)) = ls"
proof (induction ls)
  case (Cons l ls)
  then have "splitlines (concat (map (\<lambda>l. l @ [nl]) ls)) = ls" by simp
  then show ?case
    using splitlines_aux_no_break [of ls l "[]"] Cons.prems by (simp add: splitlines_def)
qed (simp add: splitlines_def)

lemma join_nl_concat: "ls \<noteq> [] \<Longrightarrow> py_join [nl] ls @ [nl] = concat (map (\<lambda>l. l @ [nl]) ls)"
  by (induction "[nl]" ls rule: py_join.induct) auto

lemma splitlines_aux_clean:
  "\<forall>c\<in>set cur. \<not> is_linebreak c \<Longrightarrow> l \<in> set (splitlines_aux cur s) \<Longrightarrow> \<forall>c\<in>set l. \<not> is_linebreak c"
proof (induction cur s arbitrary: l rule: splitlines_aux.induct)
  case (1 cur)
  then show ?case by (simp split: if_splits)
next
  case (2 cur x)
  then show ?case by (simp split: if_splits)
next
  case (3 cur x y xs)
  show ?case
  proof (cases "is_linebreak x")
    case brk: True
    show ?thesis
    proof (cases "l = rev cur")
      case True
      then show ?thesis using "3.prems"(1) by simp
    next
      case False
      have eq: "splitlines_aux cur (x # y # xs) = rev cur #
          (if x = cr \<and> y = nl then splitlines_aux [] xs else splitlines_aux [] (y # xs))"
        using brk by (simp only: splitlines_aux.simps if_True)
      show ?thesis
      proof (cases "x = cr \<and> y = nl")
        case True
        then have "l \<in> set (splitlines_aux [] xs)" using "3.prems"(2) False unfolding eq if_P [OF True] by (metis set_ConsD)
        then show ?thesis by (rule "3.IH"(1) [OF brk True, rotated]) simp
      next
        case nocrlf: False
        then have "l \<in> set (splitlines_aux [] (y # xs))"
          using "3.prems"(2) False unfolding eq if_not_P [OF nocrlf] by (metis set_ConsD)
        then show ?thesis by (rule "3.IH"(2) [OF brk nocrlf, rotated]) simp
      qed
    qed
  next
    case False
    have "splitlines_aux cur (x # y # xs) = splitlines_aux (x # cur) (y # xs)"
      using False by (simp only: splitlines_aux.simps if_False)
    moreover have "\<forall>c\<in>set (x # cur). \<not> is_linebreak c" using False "3.prems"(1) by simp
    ultimately show ?thesis using "3.IH"(3) [OF False] "3.prems"(2) by metis
  qed
qed

lemma splitlines_clean: "l \<in> set (splitlines s) \<Longrightarrow> c \<in> set l \<Longrightarrow> \<not> is_linebreak c"
  using splitlines_aux_clean [of "[]" l s] by (auto simp: splitlines_def)

subsection \<open>Numbers\<close>

lemma of_char_digit [simp]: "d < 10 \<Longrightarrow> ord (digit_char d) = 48 + d"
  by (simp add: digit_char_def)

lemma is_digit_digit_char [simp]: "d < 10 \<Longrightarrow> is_digit (digit_char d)"
  by (simp add: is_digit_def)

lemma digit_val_digit_char [simp]: "d < 10 \<Longrightarrow> digit_val (digit_char d) = d"
  by (simp add: digit_val_def)

lemma str_of_nat_not_Nil [simp]: "str_of_nat n \<noteq> []"
  by (subst str_of_nat.simps) simp

lemma str_of_nat_digits: "\<forall>c\<in>set (str_of_nat n). is_digit c"
proof (induction n rule: str_of_nat.induct)
  case (1 n)
  show ?case
  proof (cases "n < 10")
    case True
    then show ?thesis by (simp add: str_of_nat.simps [of n])
  next
    case False
    then show ?thesis using 1 by (simp add: str_of_nat.simps [of n])
  qed
qed

lemma nat_of_digits_snoc: "nat_of_digits (s @ [c]) = 10 * nat_of_digits s + digit_val c"
  by (simp add: nat_of_digits_def)

lemma nat_of_digits_str_of_nat: "nat_of_digits (str_of_nat n) = n"
proof (induction n rule: str_of_nat.induct)
  case (1 n)
  show ?case
  proof (cases "n < 10")
    case True
    then show ?thesis by (simp add: str_of_nat.simps [of n] nat_of_digits_def)
  next
    case False
    then show ?thesis using 1 by (simp add: str_of_nat.simps [of n] nat_of_digits_snoc)
  qed
qed

lemma digits_ok_all_digits: "s \<noteq> [] \<Longrightarrow> \<forall>c\<in>set s. is_digit c \<Longrightarrow> digits_ok s"
proof (induction s rule: digits_ok.induct)
  case (3 c d s)
  then have "d \<noteq> CHR ''_''" by (auto simp: is_digit_def)
  then show ?case using 3 by simp
qed simp_all

lemma is_digit_not_space: "is_digit c \<Longrightarrow> \<not> is_space c"
  by (auto simp: is_digit_def is_space_def)

lemma strip_digits: "\<forall>c\<in>set s. is_digit c \<Longrightarrow> py_strip s = s"
  by (cases "s = []") (auto intro!: strip_by_id simp: is_digit_not_space)

text \<open>Printing a number in decimal and reading it back with \<open>int()\<close> gives the number.\<close>

lemma py_int_str_of_nat: "length (str_of_nat n) \<le> 4300 \<Longrightarrow> py_int (str_of_nat n) = Some (int n)"
proof -
  assume len: "length (str_of_nat n) \<le> 4300"
  obtain c t where ct: "str_of_nat n = c # t" by (cases "str_of_nat n") auto
  have d: "\<forall>x\<in>set (c # t). is_digit x" using str_of_nat_digits [of n] ct by simp
  then have "c \<noteq> CHR ''-''" "c \<noteq> CHR ''+''" by (auto simp: is_digit_def)
  moreover have "py_int_unsigned (c # t) = Some n"
    using d len digits_ok_all_digits [of "c # t"] nat_of_digits_str_of_nat [of n]
    by (simp add: py_int_unsigned_def ct filter_id_conv)
  ultimately show ?thesis using strip_digits [OF d] by (simp add: py_int_def ct)
qed

lemma length_rjust [simp]: "length (rjust n s) = max n (length s)"
  by (simp add: rjust_def)

lemma length_ljust [simp]: "length (ljust n s) = max n (length s)"
  by (simp add: ljust_def)

lemma utf8_len_ge: "length s \<le> utf8_len s"
  by (induction s) (auto simp: utf8_len_def)

lemma utf8_len_append [simp]: "utf8_len (s @ t) = utf8_len s + utf8_len t"
  by (simp add: utf8_len_def)

lemma utf8_len_ascii: "\<forall>c\<in>set s. ord c < 128 \<Longrightarrow> utf8_len s = length s"
  by (induction s) (auto simp: utf8_len_def)

end
