(* ===== verification/Cmdchain.thy ===== *)
theory Cmdchain
  imports Py_Prelude
begin

text \<open>
  \<open>src/cowrie/llm/cmdchain.py\<close>: splitting an input line on the shell's joining operators,
  and the rule that decides whether a segment of the chain runs.
\<close>

section \<open>The code\<close>

definition UNSUPPORTED :: "string list" where
  "UNSUPPORTED = [''$('', [bquote], ''>'', ''<'', [nl]]"

definition OPERATORS :: "string list" where
  "OPERATORS = [''&&'', ''||'', '';'']"

definition MAX_SEGMENTS :: nat where
  "MAX_SEGMENTS = 8"

text \<open>The local variables of the scanning loop; the index is the part of the line not yet read.\<close>

record chain_state =
  segments :: "(string \<times> string) list"
  current :: string
  operator :: string
  quote :: "char option"

definition chain_init :: chain_state where
  "chain_init = \<lparr>segments = [], current = [], operator = [], quote = None\<rparr>"

definition push :: "string \<Rightarrow> chain_state \<Rightarrow> chain_state" where
  "push t st = st\<lparr>current := current st @ t\<rparr>"

definition close_segment :: "string \<Rightarrow> chain_state \<Rightarrow> chain_state" where
  "close_segment op st =
     st\<lparr>segments := segments st @ [(operator st, py_strip (current st))],
        operator := op, current := []\<rparr>"

definition matched_op :: "string \<Rightarrow> string option" where
  "matched_op rest = List.find (\<lambda>op. startswith rest op) OPERATORS"

text \<open>The loop; \<^const>\<open>None\<close> is the early return on a lone ampersand.\<close>

function chain_loop :: "chain_state \<Rightarrow> string \<Rightarrow> chain_state option" where
  "chain_loop st [] = Some st"
| "chain_loop st (ch # rest) =
     (case quote st of
        Some q \<Rightarrow> chain_loop (push [ch] st\<lparr>quote := if ch = q then None else Some q\<rparr>) rest
      | None \<Rightarrow>
          if ch = squote \<or> ch = dquote then chain_loop (push [ch] st\<lparr>quote := Some ch\<rparr>) rest
          else if ch = bslash \<and> rest \<noteq> [] then chain_loop (push [ch, hd rest] st) (tl rest)
          else (case matched_op (ch # rest) of
                  Some op \<Rightarrow> chain_loop (close_segment op st) (drop (length op - 1) rest)
                | None \<Rightarrow> if ch = CHR ''&'' then None else chain_loop (push [ch] st) rest))"
  by pat_completeness auto
termination
  by (relation "measure (\<lambda>(st, s). length s)") auto

definition split_chain :: "string \<Rightarrow> (string \<times> string) list option" where
  "split_chain line =
     (if line = [] \<or> py_strip line = [] then None
      else case chain_loop chain_init line of
        None \<Rightarrow> None
      | Some st \<Rightarrow>
          if quote st \<noteq> None then None
          else let segs = segments st @ [(operator st, py_strip (current st))] in
            if list_ex (\<lambda>(_, cmd). cmd = []) segs then None
            else if length segs > MAX_SEGMENTS then None
            else Some segs)"

definition should_run :: "string \<Rightarrow> bool \<Rightarrow> bool" where
  "should_run op previous_succeeded =
     (if op = ''&&'' then previous_succeeded
      else if op = ''||'' then \<not> previous_succeeded
      else True)"

definition is_simple :: "string \<Rightarrow> bool" where
  "is_simple command \<longleftrightarrow> command \<noteq> [] \<and> \<not> list_ex (\<lambda>u. str_in u command) UNSUPPORTED"

section \<open>Properties\<close>

text \<open>Characters the scanner copies without looking further.\<close>

definition chain_plain :: "char \<Rightarrow> bool" where
  "chain_plain c \<longleftrightarrow> c \<notin> {squote, dquote, bslash, CHR ''&'', CHR ''|'', CHR '';''}"

definition plain_command :: "string \<Rightarrow> bool" where
  "plain_command cmd \<longleftrightarrow> cmd \<noteq> [] \<and> py_strip cmd = cmd \<and> (\<forall>c\<in>set cmd. chain_plain c)"

text \<open>How the dispatcher spells a chain again: \<open>f" {op} {cmd}"\<close> per segment.\<close>

fun render_tail :: "(string \<times> string) list \<Rightarrow> string" where
  "render_tail [] = []"
| "render_tail ((op, cmd) # segs) = '' '' @ op @ '' '' @ cmd @ render_tail segs"

lemma push_simps [simp]:
  "segments (push t st) = segments st" "current (push t st) = current st @ t"
  "operator (push t st) = operator st" "quote (push t st) = quote st"
  by (simp_all add: push_def)

lemma push_push: "push u (push t st) = push (t @ u) st" "push t (st\<lparr>quote := q\<rparr>) = (push t st)\<lparr>quote := q\<rparr>"
  by (simp_all add: push_def)

lemma close_segment_simps [simp]:
  "segments (close_segment op st) = segments st @ [(operator st, py_strip (current st))]"
  "current (close_segment op st) = []" "operator (close_segment op st) = op"
  "quote (close_segment op st) = quote st"
  by (simp_all add: close_segment_def)

lemma matched_op_plain: "chain_plain c \<Longrightarrow> matched_op (c # s) = None"
  by (auto simp: matched_op_def OPERATORS_def chain_plain_def)

lemma matched_op_ops: "op \<in> set OPERATORS \<Longrightarrow> matched_op (op @ s) = Some op"
  by (auto simp: matched_op_def OPERATORS_def)

lemma matched_op_in: "matched_op s = Some op \<Longrightarrow> op \<in> set OPERATORS"
  by (auto simp: matched_op_def OPERATORS_def split: if_splits)

lemma chain_loop_plain:
  "quote st = None \<Longrightarrow> \<forall>c\<in>set w. chain_plain c \<Longrightarrow> chain_loop st (w @ rest) = chain_loop (push w st) rest"
proof (induction w arbitrary: st)
  case (Cons c w)
  then have "chain_loop st (c # w @ rest) = chain_loop (push [c] st) (w @ rest)"
    by (auto simp: matched_op_plain chain_plain_def)
  moreover have "push w (push [c] st) = push (c # w) st" by (simp add: push_def)
  ultimately show ?case using Cons by simp
qed (simp add: push_def)

lemma chain_loop_quoted:
  "quote st = Some q \<Longrightarrow> q \<notin> set w \<Longrightarrow>
   chain_loop st (w @ q # rest) = chain_loop (push (w @ [q]) st\<lparr>quote := None\<rparr>) rest"
proof (induction w arbitrary: st)
  case Nil
  then show ?case by simp
next
  case (Cons c w)
  then have "chain_loop st ((c # w) @ q # rest) = chain_loop (push [c] st) (w @ q # rest)"
    by (auto simp: push_def)
  then show ?case using Cons.IH [of "push [c] st"] Cons.prems by (simp add: push_push)
qed

lemma chain_loop_op:
  assumes "quote st = None" "op \<in> set OPERATORS"
  shows "chain_loop st (op @ rest) = chain_loop (close_segment op st) rest"
proof -
  obtain c o' where op: "op = c # o'" and c: "c \<notin> {squote, dquote, bslash}"
    using assms(2) by (auto simp: OPERATORS_def)
  have "matched_op (c # o' @ rest) = Some op" using matched_op_ops [OF assms(2)] by (simp add: op)
  then show ?thesis using assms(1) c by (simp add: op)
qed

text \<open>The segments the loop has closed carry one of the operators, and only the first may carry none.\<close>

definition ops_wf :: "chain_state \<Rightarrow> bool" where
  "ops_wf st \<longleftrightarrow> (let ops = map fst (segments st) @ [operator st] in
     hd ops = [] \<and> (\<forall>op\<in>set (tl ops). op \<in> set OPERATORS))"

lemma ops_wf_push [simp]: "ops_wf (push t st) = ops_wf st"
  by (simp add: ops_wf_def)

lemma ops_wf_quote [simp]: "ops_wf (st\<lparr>quote := q\<rparr>) = ops_wf st"
  by (simp add: ops_wf_def)

lemma ops_wf_close: "ops_wf st \<Longrightarrow> op \<in> set OPERATORS \<Longrightarrow> ops_wf (close_segment op st)"
  by (cases "segments st") (auto simp: ops_wf_def Let_def)

lemma chain_loop_ops_wf: "chain_loop st s = Some st' \<Longrightarrow> ops_wf st \<Longrightarrow> ops_wf st'"
proof (induction st s rule: chain_loop.induct)
  case (2 st ch rest)
  show ?case
  proof (cases "quote st")
    case None
    then show ?thesis using 2
      by (auto split: if_splits option.splits intro: ops_wf_close dest: matched_op_in)
  next
    case (Some q)
    then show ?thesis using 2 by auto
  qed
qed simp

lemma ops_wf_init: "ops_wf chain_init"
  by (simp add: ops_wf_def chain_init_def)


lemma split_chain_Some:
  assumes "split_chain line = Some segs"
  obtains st where "chain_loop chain_init line = Some st" "quote st = None"
    "segs = segments st @ [(operator st, py_strip (current st))]"
    "\<forall>(op, cmd)\<in>set segs. cmd \<noteq> []" "length segs \<le> MAX_SEGMENTS"
  using assms by (auto simp: split_chain_def Let_def list_ex_iff split: if_splits option.splits)

lemma chain_loop_stripped:
  "chain_loop st s = Some st' \<Longrightarrow> \<forall>(op, cmd)\<in>set (segments st). py_strip cmd = cmd \<Longrightarrow>
   \<forall>(op, cmd)\<in>set (segments st'). py_strip cmd = cmd"
proof (induction st s rule: chain_loop.induct)
  case (2 st ch rest)
  show ?case
  proof (cases "quote st")
    case None
    then show ?thesis using 2 by (auto split: if_splits option.splits)
  next
    case (Some q)
    then show ?thesis using 2 by auto
  qed
qed simp

lemma chain_loop_render:
  "quote st = None \<Longrightarrow> \<forall>(op, cmd)\<in>set segs. op \<in> set OPERATORS \<and> plain_command cmd \<Longrightarrow>
   plain_command (py_strip (current st)) \<Longrightarrow>
   \<exists>st'. chain_loop st (render_tail segs) = Some st' \<and> quote st' = None \<and>
     segments st' @ [(operator st', py_strip (current st'))] =
       segments st @ [(operator st, py_strip (current st))] @ segs"
proof (induction segs arbitrary: st)
  case (Cons seg segs)
  obtain op cmd where seg: "seg = (op, cmd)" by (cases seg)
  with Cons.prems have op: "op \<in> set OPERATORS" and cmd: "plain_command cmd" by auto
  let ?st1 = "push '' '' st"
  let ?st2 = "push ('' '' @ cmd) (close_segment op ?st1)"
  have sp: "chain_plain (CHR '' '')" by (simp add: chain_plain_def)
  have strip1: "py_strip (current ?st1) = py_strip (current st)"
    by (simp add: strip_by_snoc is_space_def)
  have strip2: "py_strip (current ?st2) = cmd"
    using cmd by (simp add: plain_command_def strip_by_def lstrip_by_def is_space_def)
  have "chain_loop st (render_tail (seg # segs)) = chain_loop ?st1 (op @ ('' '' @ cmd) @ render_tail segs)"
    using chain_loop_plain [of st "'' ''" "op @ '' '' @ cmd @ render_tail segs"] Cons.prems(1) sp
    by (simp add: seg)
  also have "\<dots> = chain_loop (close_segment op ?st1) (('' '' @ cmd) @ render_tail segs)"
    by (rule chain_loop_op) (use Cons.prems(1) op in simp_all)
  also have "\<dots> = chain_loop ?st2 (render_tail segs)"
    by (rule chain_loop_plain) (use Cons.prems(1) cmd sp in \<open>auto simp: plain_command_def\<close>)
  finally have step: "chain_loop st (render_tail (seg # segs)) = chain_loop ?st2 (render_tail segs)" .
  have "\<exists>st'. chain_loop ?st2 (render_tail segs) = Some st' \<and> quote st' = None \<and>
      segments st' @ [(operator st', py_strip (current st'))] =
      segments ?st2 @ [(operator ?st2, py_strip (current ?st2))] @ segs"
    by (rule Cons.IH) (use Cons.prems cmd strip2 in \<open>auto simp: plain_command_def\<close>)
  then show ?case using step strip1 strip2 by (simp add: seg)
qed simp


lemma split_chain_segments:
  assumes "split_chain line = Some segs"
  shows "segs \<noteq> [] \<and> length segs \<le> MAX_SEGMENTS \<and> fst (hd segs) = [] \<and>
    (\<forall>seg\<in>set (tl segs). fst seg \<in> set OPERATORS) \<and>
    (\<forall>seg\<in>set segs. snd seg \<noteq> [] \<and> py_strip (snd seg) = snd seg)"
proof -
  obtain st where st: "chain_loop chain_init line = Some st" "quote st = None"
    "segs = segments st @ [(operator st, py_strip (current st))]"
    "\<forall>(op, cmd)\<in>set segs. cmd \<noteq> []" "length segs \<le> MAX_SEGMENTS"
    using split_chain_Some [OF assms] by metis
  have "ops_wf st" using chain_loop_ops_wf [OF st(1) ops_wf_init] .
  then have ops: "fst (hd segs) = [] \<and> (\<forall>seg\<in>set (tl segs). fst seg \<in> set OPERATORS)"
    unfolding st(3) ops_wf_def by (cases "segments st") (auto simp: Let_def)
  have "\<forall>(op, cmd)\<in>set (segments st). py_strip cmd = cmd"
    by (rule chain_loop_stripped [OF st(1)]) (simp add: chain_init_def)
  then have "\<forall>seg\<in>set segs. py_strip (snd seg) = snd seg" unfolding st(3) by auto
  then show ?thesis using ops st(3-5) by auto
qed

section \<open>Theorems\<close>

text \<open>What \<^const>\<open>split_chain\<close> returns is a well-formed chain: between one and eight segments,
  the first joined by nothing and every later one by \<open>&&\<close>, \<open>||\<close> or \<open>;\<close>, and no segment
  empty or padded with white space.\<close>

lemma split_chain_wellformed:
  assumes "split_chain line = Some segs"
  shows "1 \<le> length segs \<and> length segs \<le> MAX_SEGMENTS \<and> fst (hd segs) = [] \<and>
    (\<forall>seg\<in>set (tl segs). fst seg \<in> set OPERATORS) \<and>
    (\<forall>seg\<in>set segs. snd seg \<noteq> [] \<and> py_strip (snd seg) = snd seg)"
  using split_chain_segments [OF assms] by (simp add: Suc_leI)


text \<open>Round trip. A chain of plain commands, spelled the way the dispatcher spells the rest of
  a line it hands over (\<open>cmd op cmd ...\<close>), is split back into exactly the same segments.\<close>

lemma split_chain_render:
  assumes "plain_command cmd"
    and "\<forall>(op, c)\<in>set segs. op \<in> set OPERATORS \<and> plain_command c"
    and "length segs < MAX_SEGMENTS"
  shows "split_chain (cmd @ render_tail segs) = Some (([], cmd) # segs)"
proof -
  let ?st = "push cmd chain_init"
  have cmd: "cmd \<noteq> []" "py_strip cmd = cmd" "\<forall>c\<in>set cmd. chain_plain c"
    using assms(1) by (auto simp: plain_command_def)
  have "\<exists>st'. chain_loop ?st (render_tail segs) = Some st' \<and> quote st' = None \<and>
      segments st' @ [(operator st', py_strip (current st'))] =
      segments ?st @ [(operator ?st, py_strip (current ?st))] @ segs"
    by (rule chain_loop_render) (use assms cmd in \<open>auto simp: chain_init_def\<close>)
  then obtain st' where st': "chain_loop ?st (render_tail segs) = Some st'" "quote st' = None"
    "segments st' @ [(operator st', py_strip (current st'))] = ([], cmd) # segs"
    using cmd(2) by (auto simp: chain_init_def)
  have loop: "chain_loop chain_init (cmd @ render_tail segs) = Some st'"
    using chain_loop_plain [of chain_init cmd] cmd(3) st'(1) by (simp add: chain_init_def)
  have "\<not> is_space (hd cmd)" using cmd(1,2) hd_strip_by [of is_space cmd] by simp
  then have "py_strip (cmd @ render_tail segs) \<noteq> []"
    using cmd(1) by (metis hd_in_set strip_by_eq_Nil Un_iff set_append)
  moreover have "\<not> list_ex (\<lambda>(_, cmd). cmd = []) (([], cmd) # segs)"
    using assms(2) cmd(1) by (auto simp: list_ex_iff plain_command_def)
  ultimately show ?thesis using cmd(1) st'(2,3) assms(3) loop
    by (simp add: split_chain_def Let_def)
qed


text \<open>C3: Quotation hides operators: a command followed by a double-quoted argument is one
  segment, whatever the argument holds, operators and a lone ampersand included.\<close>

theorem split_chain_quoted:
  assumes "plain_command cmd" and "dquote \<notin> set arg"
  shows "split_chain (cmd @ '' '' @ [dquote] @ arg @ [dquote]) =
           Some [([], cmd @ '' '' @ [dquote] @ arg @ [dquote])]"
proof -
  let ?line = "cmd @ '' '' @ [dquote] @ arg @ [dquote]"
  have cmd: "cmd \<noteq> []" "py_strip cmd = cmd" "\<forall>c\<in>set cmd. chain_plain c"
    using assms(1) by (auto simp: plain_command_def)
  have "chain_loop chain_init ((cmd @ '' '') @ dquote # arg @ [dquote]) =
      chain_loop (push (cmd @ '' '') chain_init) (dquote # arg @ [dquote])"
    by (rule chain_loop_plain) (use cmd(3) in \<open>auto simp: chain_init_def chain_plain_def\<close>)
  also have "\<dots> = chain_loop (push (cmd @ '' '' @ [dquote]) (chain_init\<lparr>quote := Some dquote\<rparr>)) (arg @ [dquote])"
    by (simp add: chain_init_def push_def)
  also have "\<dots> = Some (push ?line chain_init)"
    using assms(2) chain_loop_quoted [of _ dquote arg "[]"] by (simp add: chain_init_def push_def)
  finally have loop: "chain_loop chain_init ?line = Some (push ?line chain_init)" by simp
  have strip: "py_strip ?line = ?line"
    by (rule strip_by_id) (use cmd hd_strip_by [of is_space cmd] in \<open>auto simp: is_space_def\<close>)
  show ?thesis using strip loop cmd(1)
    by (simp add: split_chain_def MAX_SEGMENTS_def chain_init_def)
qed

theorem split_chain_quoted_witness:
  "split_chain (''echo'' @ '' '' @ [dquote] @ ''a && b & c'' @ [dquote]) =
     Some [([], ''echo'' @ '' '' @ [dquote] @ ''a && b & c'' @ [dquote])]"
  by (rule split_chain_quoted; code_simp)

end
