(* ===== verification/Py_Shlex.thy ===== *)
theory Py_Shlex
  imports Py_Prelude
begin

text \<open>
  \<open>shlex.split(s)\<close> of the Python library in its POSIX mode, which the honeypot uses to tokenise
  attacker input: the character automaton of \<open>shlex.read_token\<close> with \<open>whitespace_split\<close> on
  and no comment characters. \<^const>\<open>None\<close> is the \<open>ValueError\<close> of an unclosed quotation or a
  trailing escape. \<open>LEscape None\<close> returns to the word, \<open>LEscape (Some q)\<close> to the
  quotation \<open>q\<close>.
\<close>

datatype lex_state = LSpace | LWord | LQuote char | LEscape "char option"

definition lex_space :: "char \<Rightarrow> bool" where
  "lex_space c \<longleftrightarrow> c = CHR '' '' \<or> c = tab \<or> c = cr \<or> c = nl"

definition lex_quote :: "char \<Rightarrow> bool" where
  "lex_quote c \<longleftrightarrow> c = squote \<or> c = dquote"

definition lex_emit :: "string \<Rightarrow> bool \<Rightarrow> string list \<Rightarrow> string list" where
  "lex_emit tok quoted ts = (if tok = [] \<and> \<not> quoted then ts else tok # ts)"

fun lex_run :: "lex_state \<Rightarrow> string \<Rightarrow> bool \<Rightarrow> string \<Rightarrow> string list option" where
  "lex_run LSpace tok quoted [] = Some []"
| "lex_run LSpace tok quoted (c # cs) =
     (if lex_space c then lex_run LSpace [] False cs
      else if c = bslash then lex_run (LEscape None) [] False cs
      else if lex_quote c then lex_run (LQuote c) [] False cs
      else lex_run LWord [c] False cs)"
| "lex_run LWord tok quoted [] = Some (lex_emit tok quoted [])"
| "lex_run LWord tok quoted (c # cs) =
     (if lex_space c then map_option (lex_emit tok quoted) (lex_run LSpace [] False cs)
      else if lex_quote c then lex_run (LQuote c) tok quoted cs
      else if c = bslash then lex_run (LEscape None) tok quoted cs
      else lex_run LWord (tok @ [c]) quoted cs)"
| "lex_run (LQuote d) tok quoted [] = None"
| "lex_run (LQuote d) tok quoted (c # cs) =
     (if c = d then lex_run LWord tok True cs
      else if c = bslash \<and> d = dquote then lex_run (LEscape (Some d)) tok True cs
      else lex_run (LQuote d) (tok @ [c]) True cs)"
| "lex_run (LEscape e) tok quoted [] = None"
| "lex_run (LEscape e) tok quoted (c # cs) =
     (case e of
        None \<Rightarrow> lex_run LWord (tok @ [c]) quoted cs
      | Some q \<Rightarrow>
          lex_run (LQuote q) (tok @ (if c \<noteq> bslash \<and> c \<noteq> q then [bslash] else []) @ [c]) quoted cs)"

definition shlex_split :: "string \<Rightarrow> string list option" where
  "shlex_split s = lex_run LSpace [] False s"

text \<open>\<open>shlex.split\<close> with the fallback \<open>s.split()\<close> that several callers use on \<open>ValueError\<close>.\<close>

definition shlex_or_split :: "string \<Rightarrow> string list" where
  "shlex_or_split s = (case shlex_split s of Some ts \<Rightarrow> ts | None \<Rightarrow> split_ws s)"

text \<open>Characters with no meaning of their own to the automaton.\<close>

definition lex_plain :: "char \<Rightarrow> bool" where
  "lex_plain c \<longleftrightarrow> \<not> lex_space c \<and> \<not> lex_quote c \<and> c \<noteq> bslash"

lemma lex_run_word_plain:
  "\<forall>c\<in>set w. lex_plain c \<Longrightarrow> lex_run LWord tok q (w @ rest) = lex_run LWord (tok @ w) q rest"
  by (induction w arbitrary: tok) (auto simp: lex_plain_def)

lemma lex_run_space_plain:
  assumes "w \<noteq> []" "\<forall>c\<in>set w. lex_plain c"
  shows "lex_run LSpace [] False (w @ rest) = lex_run LWord w False rest"
proof -
  obtain c v where w: "w = c # v" using assms(1) by (cases w) auto
  then have "lex_run LSpace [] False (w @ rest) = lex_run LWord [c] False (v @ rest)"
    using assms(2) by (simp add: lex_plain_def)
  then show ?thesis using assms(2) lex_run_word_plain [of v "[c]" False rest] by (simp add: w)
qed

lemma lex_run_spaces: "\<forall>c\<in>set u. lex_space c \<Longrightarrow> lex_run LSpace [] False (u @ rest) = lex_run LSpace [] False rest"
  by (induction u) auto

lemma lex_run_squoted:
  "squote \<notin> set w \<Longrightarrow> lex_run (LQuote squote) tok q (w @ squote # rest) = lex_run LWord (tok @ w) True rest"
  by (induction w arbitrary: tok q) auto

text \<open>A single-quoted text is one token, its content taken literally.\<close>

lemma shlex_split_squoted: "squote \<notin> set w \<Longrightarrow> shlex_split (squote # w @ [squote]) = Some [w]"
  using lex_run_squoted [of w "[]" False "[]"]
  by (simp add: shlex_split_def lex_space_def lex_quote_def lex_emit_def)

text \<open>Words of plain characters joined by single spaces are split back into the words.\<close>

lemma shlex_split_words:
  "\<forall>w\<in>set ws. w \<noteq> [] \<and> (\<forall>c\<in>set w. lex_plain c) \<Longrightarrow> shlex_split (py_join '' '' ws) = Some ws"
proof (induction "'' ''" ws rule: py_join.induct)
  case (2 x)
  then show ?case using lex_run_space_plain [of x "[]"] by (simp add: shlex_split_def lex_emit_def)
next
  case (3 x y xs)
  then have "shlex_split (py_join '' '' (y # xs)) = Some (y # xs)" by simp
  then show ?case using 3(2) lex_run_space_plain [of x "'' '' @ py_join '' '' (y # xs)"]
    by (simp add: shlex_split_def lex_emit_def lex_space_def)
qed (simp add: shlex_split_def)

lemma shlex_split_single: "w \<noteq> [] \<Longrightarrow> \<forall>c\<in>set w. lex_plain c \<Longrightarrow> shlex_split w = Some [w]"
  using shlex_split_words [of "[w]"] by simp

lemma shlex_split_pair:
  "v \<noteq> [] \<Longrightarrow> \<forall>c\<in>set v. lex_plain c \<Longrightarrow> w \<noteq> [] \<Longrightarrow> \<forall>c\<in>set w. lex_plain c \<Longrightarrow>
   shlex_split (v @ CHR '' '' # w) = Some [v, w]"
  using shlex_split_words [of "[v, w]"] by simp

text \<open>The first token of a line that starts with a plain word and a space is that word.\<close>

lemma shlex_split_first_word:
  assumes "w \<noteq> []" "\<forall>c\<in>set w. lex_plain c" "shlex_split (w @ CHR '' '' # rest) = Some ts"
  shows "\<exists>us. ts = w # us \<and> shlex_split rest = Some us"
  using lex_run_space_plain [OF assms(1,2), of "CHR '' '' # rest"] assms
  by (auto simp: shlex_split_def lex_emit_def lex_space_def)

lemma lex_emit_append: "lex_emit tok q ts = lex_emit tok q [] @ ts"
  by (simp add: lex_emit_def)

lemma shlex_split_blank: "\<forall>c\<in>set s. lex_space c \<Longrightarrow> shlex_split s = Some []"
  using lex_run_spaces [of s "[]"] by (simp add: shlex_split_def)

text \<open>Every token of a line without quotation marks and escapes is non-empty.\<close>

lemma lex_run_tokens_nonempty:
  "lex_run st tok q s = Some ts \<Longrightarrow> \<forall>c\<in>set s. \<not> lex_quote c \<Longrightarrow> \<not> q \<Longrightarrow>
   (\<forall>d. st \<noteq> LQuote d) \<Longrightarrow> (\<forall>d. st \<noteq> LEscape (Some d)) \<Longrightarrow> [] \<notin> set ts"
  by (induction st tok q s arbitrary: ts rule: lex_run.induct)
     (auto simp: lex_emit_def split: if_splits option.splits)

end
