(* ===== verification/Py_Regex.thy ===== *)
theory Py_Regex
  imports Py_Prelude
begin

text \<open>
  Python's \<open>re\<close> as far as the honeypot's patterns use it: a backtracking matcher in
  continuation-passing style. The continuation stands for the rest of the pattern; an
  alternative or a repetition is tried in the order the engine tries it, and the first way
  for which the continuation succeeds is the result, so greedy and lazy repetition and the
  captured groups are the engine's. A position carries the characters behind it (nearest first,
  for \<open>\b\<close> and \<open>^\<close>), the characters ahead, and the groups captured so far.
\<close>

record pos =
  behind :: string
  ahead :: string
  caps :: "(nat \<times> string) list"

datatype regex =
    REps
  | RCls "char \<Rightarrow> bool"
  | RSeq regex regex
  | RAlt regex regex
  | RStar regex
  | RLazy regex
  | RBos
  | REos
  | RWordB
  | RGroup nat regex
  | RLook regex

text \<open>A pattern that is only looked for, \<open>(?=r)\<close>, has no groups. One step over the next character.\<close>

definition advance :: "pos \<Rightarrow> pos" where
  "advance p = p\<lparr>behind := hd (ahead p) # behind p, ahead := tl (ahead p)\<rparr>"

text \<open>
  Repetition of a sub-matcher, greedy (another round before the continuation) and lazy
  (the continuation before another round). A round that consumes nothing is not repeated.
\<close>

function star_greedy ::
  "((pos \<Rightarrow> 'a option) \<Rightarrow> pos \<Rightarrow> 'a option) \<Rightarrow> (pos \<Rightarrow> 'a option) \<Rightarrow> pos \<Rightarrow> 'a option" where
  "star_greedy m k p =
     (case m (\<lambda>p'. if length (ahead p') < length (ahead p) then star_greedy m k p' else None) p of
        Some x \<Rightarrow> Some x
      | None \<Rightarrow> k p)"
  by pat_completeness auto
termination
  by (relation "measure (\<lambda>(m, k, p). length (ahead p))") auto

function star_lazy ::
  "((pos \<Rightarrow> 'a option) \<Rightarrow> pos \<Rightarrow> 'a option) \<Rightarrow> (pos \<Rightarrow> 'a option) \<Rightarrow> pos \<Rightarrow> 'a option" where
  "star_lazy m k p =
     (case k p of
        Some x \<Rightarrow> Some x
      | None \<Rightarrow> m (\<lambda>p'. if length (ahead p') < length (ahead p) then star_lazy m k p' else None) p)"
  by pat_completeness auto
termination
  by (relation "measure (\<lambda>(m, k, p). length (ahead p))") auto

declare star_greedy.simps [simp del] star_lazy.simps [simp del]

definition word_before :: "pos \<Rightarrow> bool" where
  "word_before p = (case behind p of [] \<Rightarrow> False | c # _ \<Rightarrow> is_word c)"

definition word_after :: "pos \<Rightarrow> bool" where
  "word_after p = (case ahead p of [] \<Rightarrow> False | c # _ \<Rightarrow> is_word c)"

definition capture :: "nat \<Rightarrow> pos \<Rightarrow> pos \<Rightarrow> pos" where
  "capture g p p' = p'\<lparr>caps := (g, take (length (ahead p) - length (ahead p')) (ahead p)) # caps p'\<rparr>"

primrec rmatch :: "regex \<Rightarrow> (pos \<Rightarrow> 'a option) \<Rightarrow> pos \<Rightarrow> 'a option" where
  "rmatch REps k p = k p"
| "rmatch (RCls P) k p = (case ahead p of [] \<Rightarrow> None | c # cs \<Rightarrow> if P c then k (advance p) else None)"
| "rmatch (RSeq r s) k p = rmatch r (rmatch s k) p"
| "rmatch (RAlt r s) k p = (case rmatch r k p of Some x \<Rightarrow> Some x | None \<Rightarrow> rmatch s k p)"
| "rmatch (RStar r) k p = star_greedy (rmatch r) k p"
| "rmatch (RLazy r) k p = star_lazy (rmatch r) k p"
| "rmatch RBos k p = (if behind p = [] then k p else None)"
| "rmatch REos k p = (if ahead p = [] \<or> ahead p = [nl] then k p else None)"
| "rmatch RWordB k p = (if word_before p \<noteq> word_after p then k p else None)"
| "rmatch (RGroup g r) k p = rmatch r (\<lambda>p'. k (capture g p p')) p"
| "rmatch (RLook r) k p = rmatch r (\<lambda>_. k p) p"

section \<open>Pattern building blocks\<close>

fun rlit :: "string \<Rightarrow> regex" where
  "rlit [] = REps"
| "rlit [c] = RCls (\<lambda>x. x = c)"
| "rlit (c # d # s) = RSeq (RCls (\<lambda>x. x = c)) (rlit (d # s))"

fun rseq :: "regex list \<Rightarrow> regex" where
  "rseq [] = REps"
| "rseq [r] = r"
| "rseq (r # s # rs) = RSeq r (rseq (s # rs))"

fun ralt :: "regex list \<Rightarrow> regex" where
  "ralt [] = RCls (\<lambda>_. False)"
| "ralt [r] = r"
| "ralt (r # s # rs) = RAlt r (ralt (s # rs))"

definition ropt :: "regex \<Rightarrow> regex" where "ropt r = RAlt r REps"
definition rplus :: "regex \<Rightarrow> regex" where "rplus r = RSeq r (RStar r)"

text \<open>\<open>r{m,n}\<close>, greedy.\<close>

fun rrep :: "nat \<Rightarrow> nat \<Rightarrow> regex \<Rightarrow> regex" where
  "rrep 0 0 r = REps"
| "rrep 0 (Suc n) r = ropt (RSeq r (rrep 0 n r))"
| "rrep (Suc m) n r = RSeq r (rrep m (n - 1) r)"

definition rspace :: regex where "rspace = RCls is_space"
definition rnonspace :: regex where "rnonspace = RCls (\<lambda>c. \<not> is_space c)"
definition rword :: regex where "rword = RCls is_word"
definition rdigit :: regex where "rdigit = RCls is_digit"
definition rdot :: regex where "rdot = RCls (\<lambda>c. c \<noteq> nl)"
definition rany :: regex where "rany = RCls (\<lambda>_. True)"

text \<open>\<open>\bw\b\<close>.\<close>

definition wordb :: "string \<Rightarrow> regex" where
  "wordb w = rseq [RWordB, rlit w, RWordB]"

text \<open>The flag \<open>re.IGNORECASE\<close>.\<close>

primrec icase :: "regex \<Rightarrow> regex" where
  "icase REps = REps"
| "icase (RCls P) = RCls (\<lambda>c. P (lower_char c) \<or> P (upper_char c) \<or> P c)"
| "icase (RSeq r s) = RSeq (icase r) (icase s)"
| "icase (RAlt r s) = RAlt (icase r) (icase s)"
| "icase (RStar r) = RStar (icase r)"
| "icase (RLazy r) = RLazy (icase r)"
| "icase RBos = RBos"
| "icase REos = REos"
| "icase RWordB = RWordB"
| "icase (RGroup g r) = RGroup g (icase r)"
| "icase (RLook r) = RLook (icase r)"

section \<open>The functions of the module\<close>

definition start_pos :: "string \<Rightarrow> pos" where
  "start_pos s = \<lparr>behind = [], ahead = s, caps = []\<rparr>"

text \<open>\<open>pattern.match(s)\<close>, \<open>pattern.fullmatch(s)\<close> and \<open>pattern.search(s)\<close>.\<close>

definition re_match :: "regex \<Rightarrow> string \<Rightarrow> pos option" where
  "re_match r s = rmatch r Some (start_pos s)"

definition re_fullmatch :: "regex \<Rightarrow> string \<Rightarrow> pos option" where
  "re_fullmatch r s = rmatch r (\<lambda>p. if ahead p = [] then Some p else None) (start_pos s)"

function search_from :: "regex \<Rightarrow> pos \<Rightarrow> (pos \<times> pos) option" where
  "search_from r p =
     (case rmatch r Some p of
        Some p' \<Rightarrow> Some (p, p')
      | None \<Rightarrow> if ahead p = [] then None else search_from r (advance p))"
  by pat_completeness auto
termination
  by (relation "measure (\<lambda>(r, p). length (ahead p))") (auto simp: advance_def)

declare search_from.simps [simp del]

definition re_search :: "regex \<Rightarrow> string \<Rightarrow> bool" where
  "re_search r s \<longleftrightarrow> search_from r (start_pos s) \<noteq> None"

text \<open>\<open>m.group(g)\<close> of a group that took part, \<^const>\<open>None\<close> for one that did not.\<close>

definition group_opt :: "pos \<Rightarrow> nat \<Rightarrow> string option" where
  "group_opt p g = map_of (caps p) g"

definition group :: "pos \<Rightarrow> nat \<Rightarrow> string" where
  "group p g = (case map_of (caps p) g of None \<Rightarrow> [] | Some s \<Rightarrow> s)"

text \<open>
  \<open>re.sub(pattern, f, s)\<close>: the text between matches is kept, each match is replaced by
  \<open>f\<close> of its captures. After an empty match one character is copied.
\<close>

function sub_from :: "regex \<Rightarrow> (pos \<Rightarrow> string) \<Rightarrow> pos \<Rightarrow> string" where
  "sub_from r f p =
     (case rmatch r Some (p\<lparr>caps := []\<rparr>) of
        Some p' \<Rightarrow>
          if length (ahead p') < length (ahead p) then f p' @ sub_from r f p'
          else f p' @ (case ahead p of [] \<Rightarrow> [] | c # _ \<Rightarrow> c # sub_from r f (advance p))
      | None \<Rightarrow> (case ahead p of [] \<Rightarrow> [] | c # _ \<Rightarrow> c # sub_from r f (advance p)))"
  by pat_completeness auto
termination
  by (relation "measure (\<lambda>(r, f, p). length (ahead p))") (auto simp: advance_def)

declare sub_from.simps [simp del]

definition re_sub :: "regex \<Rightarrow> (pos \<Rightarrow> string) \<Rightarrow> string \<Rightarrow> string" where
  "re_sub r f s = sub_from r f (start_pos s)"


section \<open>Lemmas\<close>

text \<open>Moving \<open>n\<close> characters ahead.\<close>

definition skip :: "nat \<Rightarrow> pos \<Rightarrow> pos" where
  "skip n p = p\<lparr>behind := rev (take n (ahead p)) @ behind p, ahead := drop n (ahead p)\<rparr>"

lemma ahead_skip [simp]: "ahead (skip n p) = drop n (ahead p)"
  by (simp add: skip_def)

lemma behind_skip [simp]: "behind (skip n p) = rev (take n (ahead p)) @ behind p"
  by (simp add: skip_def)

lemma caps_skip [simp]: "caps (skip n p) = caps p"
  by (simp add: skip_def)

lemma skip_0 [simp]: "skip 0 p = p"
  by (simp add: skip_def)

lemma skip_skip [simp]: "skip n (skip m p) = skip (m + n) p"
  by (simp add: skip_def take_add add.commute)

lemma advance_skip: "ahead p \<noteq> [] \<Longrightarrow> advance p = skip 1 p"
  by (cases "ahead p") (simp_all add: advance_def skip_def)

lemma ahead_start [simp]: "ahead (start_pos s) = s" "behind (start_pos s) = []" "caps (start_pos s) = []"
  by (simp_all add: start_pos_def)

lemma rmatch_cls:
  "rmatch (RCls P) k p = (if ahead p \<noteq> [] \<and> P (hd (ahead p)) then k (skip 1 p) else None)"
  by (cases "ahead p") (simp_all add: advance_skip)

declare rmatch.simps(2) [simp del]

lemma rmatch_lit: "rmatch (rlit w) k p = (if prefix w (ahead p) then k (skip (length w) p) else None)"
proof (induction w arbitrary: p rule: rlit.induct)
  case (2 c)
  then show ?case by (cases "ahead p") (auto simp: rmatch_cls)
next
  case (3 c d s)
  show ?case
  proof (cases "ahead p")
    case (Cons x xs)
    then show ?thesis using 3 [of "skip 1 p"] by (auto simp: rmatch_cls)
  qed (simp add: rmatch_cls)
qed simp

text \<open>
  Where the matcher succeeds, the continuation succeeded at a position further along the same
  text; the groups are the only other thing that can have changed.
\<close>

definition pos_le :: "pos \<Rightarrow> pos \<Rightarrow> bool" where
  "pos_le p p' \<longleftrightarrow> (\<exists>n \<le> length (ahead p). ahead p' = drop n (ahead p) \<and>
     behind p' = rev (take n (ahead p)) @ behind p)"

lemma pos_le_refl [simp]: "pos_le p p"
  by (auto simp: pos_le_def intro: exI [of _ 0])

lemma pos_le_trans: "pos_le p q \<Longrightarrow> pos_le q r \<Longrightarrow> pos_le p r"
proof -
  assume "pos_le p q" "pos_le q r"
  then obtain m n where m: "m \<le> length (ahead p)" "ahead q = drop m (ahead p)"
      "behind q = rev (take m (ahead p)) @ behind p"
    and n: "n \<le> length (ahead q)" "ahead r = drop n (ahead q)" "behind r = rev (take n (ahead q)) @ behind q"
    by (auto simp: pos_le_def)
  then show ?thesis
    by (auto simp: pos_le_def take_add add.commute intro!: exI [of _ "m + n"])
qed

lemma pos_le_skip: "pos_le p (skip n p)"
proof (cases "n \<le> length (ahead p)")
  case True
  then show ?thesis by (auto simp: pos_le_def)
next
  case False
  then show ?thesis by (auto simp: pos_le_def intro!: exI [of _ "length (ahead p)"])
qed

lemma pos_le_capture: "pos_le p q \<Longrightarrow> pos_le p (capture g p q)"
  by (simp add: pos_le_def capture_def)

lemma pos_le_split: "pos_le p p' \<Longrightarrow> \<exists>w. ahead p = w @ ahead p'"
  by (metis pos_le_def append_take_drop_id)

definition sound_matcher :: "((pos \<Rightarrow> 'a option) \<Rightarrow> pos \<Rightarrow> 'a option) \<Rightarrow> bool" where
  "sound_matcher m \<longleftrightarrow> (\<forall>k p x. m k p = Some x \<longrightarrow> (\<exists>p'. pos_le p p' \<and> k p' = Some x))"

lemma sound_matcherD: "sound_matcher m \<Longrightarrow> m k p = Some x \<Longrightarrow> \<exists>p'. pos_le p p' \<and> k p' = Some x"
  by (auto simp: sound_matcher_def)

lemma star_greedy_sound:
  "sound_matcher m \<Longrightarrow> star_greedy m k p = Some x \<Longrightarrow> \<exists>p'. pos_le p p' \<and> k p' = Some x"
proof (induction m k p rule: star_greedy.induct)
  case (1 m k p)
  let ?k = "\<lambda>p'. if length (ahead p') < length (ahead p) then star_greedy m k p' else None"
  show ?case
  proof (cases "m ?k p")
    case None
    then have "k p = Some x" using "1.prems"(2) by (simp add: star_greedy.simps [of m k p])
    then show ?thesis using pos_le_refl by blast
  next
    case (Some y)
    then have "m ?k p = Some x" using "1.prems"(2) by (simp add: star_greedy.simps [of m k p])
    from sound_matcherD [OF "1.prems"(1) this] obtain q
      where q: "pos_le p q" "length (ahead q) < length (ahead p)" "star_greedy m k q = Some x"
      by (auto split: if_splits)
    from "1.IH" [OF q(2) "1.prems"(1) q(3)] show ?thesis using pos_le_trans [OF q(1)] by blast
  qed
qed

lemma star_lazy_sound:
  "sound_matcher m \<Longrightarrow> star_lazy m k p = Some x \<Longrightarrow> \<exists>p'. pos_le p p' \<and> k p' = Some x"
proof (induction m k p rule: star_lazy.induct)
  case (1 m k p)
  let ?k = "\<lambda>p'. if length (ahead p') < length (ahead p) then star_lazy m k p' else None"
  show ?case
  proof (cases "k p")
    case None
    then have "m ?k p = Some x" using "1.prems"(2) by (simp add: star_lazy.simps [of m k p])
    from sound_matcherD [OF "1.prems"(1) this] obtain q
      where q: "pos_le p q" "length (ahead q) < length (ahead p)" "star_lazy m k q = Some x"
      by (auto split: if_splits)
    from "1.IH" [OF None q(2) "1.prems"(1) q(3)] show ?thesis using pos_le_trans [OF q(1)] by blast
  next
    case (Some y)
    then have "k p = Some x" using "1.prems"(2) by (simp add: star_lazy.simps [of m k p])
    then show ?thesis using pos_le_refl by blast
  qed
qed

lemma rmatch_sound_matcher: "sound_matcher (rmatch r)"
proof (induction r)
  case (RSeq r s)
  then show ?case unfolding sound_matcher_def by (simp) (meson pos_le_trans)
next
  case (RAlt r s)
  then show ?case unfolding sound_matcher_def by (fastforce split: option.splits)
next
  case (RStar r)
  then show ?case unfolding sound_matcher_def [of "rmatch (RStar r)"]
    by (simp add: star_greedy_sound)
next
  case (RLazy r)
  then show ?case unfolding sound_matcher_def [of "rmatch (RLazy r)"]
    by (simp add: star_lazy_sound)
next
  case (RGroup g r)
  show ?case unfolding sound_matcher_def
  proof (intro allI impI)
    fix k :: "pos \<Rightarrow> 'a option" and p x
    assume "rmatch (RGroup g r) k p = Some x"
    then obtain q where "pos_le p q" "k (capture g p q) = Some x"
      using sound_matcherD [OF RGroup] by (metis rmatch.simps(10))
    then show "\<exists>p'. pos_le p p' \<and> k p' = Some x" using pos_le_capture by blast
  qed
next
  case (RLook r)
  show ?case unfolding sound_matcher_def
  proof (intro allI impI)
    fix k :: "pos \<Rightarrow> 'a option" and p x
    assume "rmatch (RLook r) k p = Some x"
    then have "k p = Some x" using sound_matcherD [OF RLook] by fastforce
    then show "\<exists>p'. pos_le p p' \<and> k p' = Some x" using pos_le_refl by blast
  qed
next
  case (RCls P)
  then show ?case by (auto simp: sound_matcher_def rmatch_cls split: if_splits intro: pos_le_skip)
qed (force simp: sound_matcher_def split: if_splits intro: pos_le_refl)+

lemmas rmatch_sound = rmatch_sound_matcher [THEN sound_matcherD]

subsection \<open>Repetition over a character class\<close>

text \<open>The greedy run over a class takes as much as it can when the rest then matches.\<close>

lemma star_cls_longest:
  "k (skip (length (takeWhile P (ahead p))) p) = Some x \<Longrightarrow> rmatch (RStar (RCls P)) k p = Some x"
proof (induction "ahead p" arbitrary: p)
  case Nil
  then show ?case by (simp add: star_greedy.simps rmatch_cls)
next
  case (Cons c cs)
  note a = Cons.hyps(2) [symmetric]
  show ?case
  proof (cases "P c")
    case True
    have "rmatch (RStar (RCls P)) k (skip 1 p) = Some x"
      by (rule Cons.hyps(1)) (use Cons.prems True in \<open>simp_all add: a\<close>)
    then show ?thesis using True by (simp add: star_greedy.simps [of _ _ p] rmatch_cls a)
  next
    case False
    then show ?thesis using Cons.prems by (simp add: star_greedy.simps [of _ _ p] rmatch_cls a)
  qed
qed

text \<open>Failing at every length is failing.\<close>

lemma star_cls_none:
  "\<forall>n \<le> length (takeWhile P (ahead p)). k (skip n p) = None \<Longrightarrow> rmatch (RStar (RCls P)) k p = None"
proof (induction "ahead p" arbitrary: p)
  case Nil
  then show ?case by (simp add: star_greedy.simps rmatch_cls)
next
  case (Cons c cs)
  note a = Cons.hyps(2) [symmetric]
  have k0: "k p = None" using Cons.prems by (metis le0 skip_0)
  show ?case
  proof (cases "P c")
    case True
    have "\<forall>n \<le> length (takeWhile P (ahead (skip 1 p))). k (skip n (skip 1 p)) = None"
      using Cons.prems True by (simp add: a)
    then have "rmatch (RStar (RCls P)) k (skip 1 p) = None"
      by (intro Cons.hyps(1)) (simp_all add: a)
    then show ?thesis using True k0 by (simp add: star_greedy.simps [of _ _ p] rmatch_cls a)
  next
    case False
    then show ?thesis using k0 by (simp add: star_greedy.simps [of _ _ p] rmatch_cls a)
  qed
qed

text \<open>The lazy run over a class stops at the first position from which the rest matches.\<close>

lemma lazy_cls_first:
  "n \<le> length (takeWhile P (ahead p)) \<Longrightarrow> \<forall>m<n. k (skip m p) = None \<Longrightarrow> k (skip n p) = Some x \<Longrightarrow>
   rmatch (RLazy (RCls P)) k p = Some x"
proof (induction n arbitrary: p)
  case 0
  then show ?case by (simp add: star_lazy.simps)
next
  case (Suc n)
  have k0: "k p = None" using Suc.prems(2) by (metis skip_0 zero_less_Suc)
  obtain c cs where a: "ahead p = c # cs" "P c"
    using Suc.prems(1) by (cases "ahead p") (auto split: if_splits)
  have "\<forall>m<n. k (skip m (skip 1 p)) = None" using Suc.prems(2) by simp
  moreover have "n \<le> length (takeWhile P (ahead (skip 1 p)))" using Suc.prems(1) a by simp
  ultimately have "rmatch (RLazy (RCls P)) k (skip 1 p) = Some x"
    using Suc.IH [of "skip 1 p"] Suc.prems(3) by simp
  then show ?case using k0 a by (simp add: star_lazy.simps [of _ _ p] rmatch_cls)
qed

lemma rplus_cls_longest:
  "ahead p \<noteq> [] \<Longrightarrow> P (hd (ahead p)) \<Longrightarrow> k (skip (length (takeWhile P (ahead p))) p) = Some x \<Longrightarrow>
   rmatch (rplus (RCls P)) k p = Some x"
  by (cases "ahead p") (auto simp: rplus_def rmatch_cls intro!: star_cls_longest simp del: rmatch.simps(5))

text \<open>The same with the text cut where the run ends, and inside a group.\<close>

lemma takeWhile_cut: "\<forall>c\<in>set u. P c \<Longrightarrow> v = [] \<or> \<not> P (hd v) \<Longrightarrow> takeWhile P (u @ v) = u"
  by (cases v) simp_all

lemma rplus_run:
  "ahead p = u @ v \<Longrightarrow> u \<noteq> [] \<Longrightarrow> \<forall>c\<in>set u. P c \<Longrightarrow> v = [] \<or> \<not> P (hd v) \<Longrightarrow>
   k (skip (length u) p) = Some x \<Longrightarrow> rmatch (rplus (RCls P)) k p = Some x"
  using takeWhile_cut [of u P v] by (intro rplus_cls_longest) auto

lemma star_run:
  "ahead p = u @ v \<Longrightarrow> \<forall>c\<in>set u. P c \<Longrightarrow> v = [] \<or> \<not> P (hd v) \<Longrightarrow>
   k (skip (length u) p) = Some x \<Longrightarrow> rmatch (RStar (RCls P)) k p = Some x"
  using takeWhile_cut [of u P v] by (intro star_cls_longest) auto

lemma group_rplus_run:
  "ahead p = u @ v \<Longrightarrow> u \<noteq> [] \<Longrightarrow> \<forall>c\<in>set u. P c \<Longrightarrow> v = [] \<or> \<not> P (hd v) \<Longrightarrow>
   k ((skip (length u) p)\<lparr>caps := (g, u) # caps p\<rparr>) = Some x \<Longrightarrow>
   rmatch (RGroup g (rplus (RCls P))) k p = Some x"
  by (simp add: capture_def rplus_run del: caps_skip) (rule rplus_run, auto simp: capture_def)

subsection \<open>Searching\<close>

lemma search_from_iff:
  "search_from r p \<noteq> None \<longleftrightarrow> (\<exists>n \<le> length (ahead p). rmatch r Some (skip n p) \<noteq> None)"
proof (induction r p rule: search_from.induct)
  case (1 r p)
  show ?case
  proof (cases "rmatch r Some p")
    case None
    show ?thesis
    proof (cases "ahead p")
      case Nil
      then show ?thesis using None by (simp add: search_from.simps [of r p])
    next
      case (Cons c cs)
      have "search_from r p = search_from r (skip 1 p)"
        using None Cons by (simp add: search_from.simps [of r p] advance_skip)
      also have "(\<dots> \<noteq> None) = (\<exists>n \<le> length cs. rmatch r Some (skip (Suc n) p) \<noteq> None)"
        using "1" [OF None] Cons by (simp add: advance_skip)
      also have "\<dots> = (\<exists>n \<le> length (ahead p). rmatch r Some (skip n p) \<noteq> None)"
      proof
        assume "\<exists>n \<le> length (ahead p). rmatch r Some (skip n p) \<noteq> None"
        then obtain n where n: "n \<le> length (ahead p)" "rmatch r Some (skip n p) \<noteq> None" by blast
        then obtain m where "n = Suc m" using None by (cases n) auto
        then show "\<exists>n \<le> length cs. rmatch r Some (skip (Suc n) p) \<noteq> None" using n Cons by auto
      qed (use Cons in \<open>auto intro: Suc_leI\<close>)
      finally show ?thesis .
    qed
  next
    case (Some q)
    then show ?thesis by (auto simp: search_from.simps [of r p] intro: exI [of _ 0])
  qed
qed

lemma re_search_iff: "re_search r s \<longleftrightarrow> (\<exists>n \<le> length s. rmatch r Some (skip n (start_pos s)) \<noteq> None)"
  unfolding re_search_def search_from_iff by simp

lemma rmatch_ralt: "rmatch (ralt rs) k p \<noteq> None \<longleftrightarrow> (\<exists>r\<in>set rs. rmatch r k p \<noteq> None)"
proof (induction rs rule: ralt.induct)
  case 1
  then show ?case by (simp add: rmatch_cls)
next
  case (3 r s rs)
  then show ?case by (cases "rmatch r k p") simp_all
qed simp

text \<open>Searching for an alternation is searching for one of its branches.\<close>

lemma re_search_ralt: "re_search (ralt rs) s \<longleftrightarrow> (\<exists>r\<in>set rs. re_search r s)"
  unfolding re_search_iff rmatch_ralt by blast

text \<open>Searching for a literal is the substring test.\<close>

lemma re_search_lit: "re_search (rlit w) s \<longleftrightarrow> str_in w s"
proof -
  have "re_search (rlit w) s \<longleftrightarrow> (\<exists>n \<le> length s. prefix w (drop n s))"
    unfolding re_search_iff rmatch_lit by auto
  also have "\<dots> \<longleftrightarrow> str_in w s"
  proof
    assume "\<exists>n \<le> length s. prefix w (drop n s)"
    then obtain n v where "drop n s = w @ v" by (auto simp: prefix_def)
    then have "s = take n s @ w @ v" by (metis append_take_drop_id)
    then show "str_in w s" by (auto simp: str_in_decomp)
  next
    assume "str_in w s"
    then obtain u v where "s = u @ w @ v" by (auto simp: str_in_decomp)
    then show "\<exists>n \<le> length s. prefix w (drop n s)" by (intro exI [of _ "length u"]) simp
  qed
  finally show ?thesis .
qed

subsection \<open>Whole words\<close>

lemma word_before_hd: "word_before p \<longleftrightarrow> behind p \<noteq> [] \<and> is_word (hd (behind p))"
  by (cases "behind p") (simp_all add: word_before_def)

lemma word_after_hd: "word_after p \<longleftrightarrow> ahead p \<noteq> [] \<and> is_word (hd (ahead p))"
  by (cases "ahead p") (simp_all add: word_after_def)

lemma wordb_found:
  assumes "ahead p = w @ v" "w \<noteq> []" "is_word (hd w)" "is_word (last w)"
    and "behind p = [] \<or> \<not> is_word (hd (behind p))" "v = [] \<or> \<not> is_word (hd v)"
  shows "rmatch (wordb w) Some p \<noteq> None"
proof -
  have "word_before p \<noteq> word_after p" using assms by (auto simp: word_before_hd word_after_hd)
  moreover have "word_before (skip (length w) p) \<noteq> word_after (skip (length w) p)"
    using assms by (auto simp: word_before_hd word_after_hd hd_rev)
  ultimately show ?thesis by (simp add: wordb_def rmatch_lit assms(1))
qed

lemma re_match_rest: "re_match r s = Some p \<Longrightarrow> \<exists>w. s = w @ ahead p"
  using rmatch_sound [of r Some "start_pos s" p] pos_le_split [of "start_pos s" p]
  by (auto simp: re_match_def)

end
