(* ===== verification/Worldstate.thy ===== *)
theory Worldstate
  imports Py_Prelude
begin

text \<open>
  \<open>src/cowrie/llm/worldstate.py\<close>: the per-session shadow state (files, environment,
  processes, answers already given, the stack of effective users) and its rendering into the
  model's prompt. The clock is an argument of the operations that read it.
\<close>

section \<open>Data\<close>

datatype file_source = Downloaded | Created | Edited

record file_fact =
  ff_path :: string
  size_bytes :: nat
  sha256 :: "string option"
  mtime :: rat
  ff_source :: file_source
  source_url :: "string option"
  content_snippet :: "string option"

record process_fact =
  pf_pid :: nat
  pf_command :: string
  pf_user :: string
  pf_started_at :: rat

record claim_fact =
  cf_key :: string
  excerpt :: string
  turn :: nat
  cf_source :: string
  cf_command :: string

definition needs_replay :: "claim_fact \<Rightarrow> bool" where
  "needs_replay c \<longleftrightarrow> cf_source c = ''llm''"

record world =
  files :: "(string, file_fact) dict"
  env_vars :: "(string, string) dict"
  processes :: "(nat, process_fact) dict"
  told_facts :: "(string, claim_fact) dict"
  bg_pids :: "nat list"
  user_stack :: "string list"
  next_pid :: nat
  max_facts :: nat

definition MAX_FILES_IN_PROMPT :: nat where "MAX_FILES_IN_PROMPT = 20"
definition MAX_PROCS_IN_PROMPT :: nat where "MAX_PROCS_IN_PROMPT = 20"
definition MAX_FACTS_IN_PROMPT :: nat where "MAX_FACTS_IN_PROMPT = 12"
definition MAX_FACT_EXCERPT :: nat where "MAX_FACT_EXCERPT = 200"

definition new_world :: world where
  "new_world = \<lparr>files = [], env_vars = [], processes = [], told_facts = [], bg_pids = [],
     user_stack = [], next_pid = 17000, max_facts = MAX_FACTS_IN_PROMPT\<rparr>"

section \<open>Operations\<close>

text \<open>The code points U+2026, U+23CE and U+2014 of the module's literals, as their UTF-8 bytes.\<close>

definition ellipsis :: string where "ellipsis = [CHR 0xE2, CHR 0x80, CHR 0xA6]"
definition return_symbol :: string where "return_symbol = [CHR 0xE2, CHR 0x8F, CHR 0x8E]"
definition em_dash :: string where "em_dash = [CHR 0xE2, CHR 0x80, CHR 0x94]"

definition record_claim :: "string \<Rightarrow> string \<Rightarrow> nat \<Rightarrow> string \<Rightarrow> string \<Rightarrow> world \<Rightarrow> world" where
  "record_claim key exc trn src cmd w =
     (if key = [] \<or> exc = [] then w
      else let t = py_strip exc;
               t' = (if length t > MAX_FACT_EXCERPT then take MAX_FACT_EXCERPT t @ ellipsis else t)
           in w\<lparr>told_facts := AList.update key
                 \<lparr>cf_key = key, excerpt = t', turn = trn, cf_source = src, cf_command = cmd\<rparr>
                 (told_facts w)\<rparr>)"

definition claim_for :: "string option \<Rightarrow> world \<Rightarrow> claim_fact option" where
  "claim_for key w =
     (case key of None \<Rightarrow> None | Some k \<Rightarrow> if k = [] then None else map_of (told_facts w) k)"

definition replayable_claims :: "world \<Rightarrow> claim_fact list" where
  "replayable_claims w = filter needs_replay (map snd (told_facts w))"

definition add_file ::
  "rat \<Rightarrow> string \<Rightarrow> nat \<Rightarrow> string option \<Rightarrow> file_source \<Rightarrow> string option \<Rightarrow> string option \<Rightarrow> world \<Rightarrow> world"
where
  "add_file now path sz sha src url snippet w =
     (if path = [] then w
      else w\<lparr>files := AList.update path
               \<lparr>ff_path = path, size_bytes = sz, sha256 = sha, mtime = now, ff_source = src,
                 source_url = url, content_snippet = snippet\<rparr> (files w)\<rparr>)"

definition add_env :: "string \<Rightarrow> string \<Rightarrow> world \<Rightarrow> world" where
  "add_env name value w = (if name \<noteq> [] then w\<lparr>env_vars := AList.update name value (env_vars w)\<rparr> else w)"

text \<open>Returns the process id (0 for a blank command) and the new state.\<close>

definition add_process :: "rat \<Rightarrow> string \<Rightarrow> string \<Rightarrow> nat option \<Rightarrow> world \<Rightarrow> nat \<times> world" where
  "add_process now command user pid w =
     (let cmd = py_strip command in
      if cmd = [] then (0, w)
      else let p = (case pid of None \<Rightarrow> next_pid w | Some p \<Rightarrow> p);
               w1 = (case pid of None \<Rightarrow> w\<lparr>next_pid := next_pid w + 1\<rparr> | Some _ \<Rightarrow> w);
               w2 = w1\<lparr>processes := AList.update p
                     \<lparr>pf_pid = p, pf_command = cmd, pf_user = user, pf_started_at = now\<rparr> (processes w1)\<rparr>
           in (p, if p \<in> set (bg_pids w2) then w2 else w2\<lparr>bg_pids := bg_pids w2 @ [p]\<rparr>))"

definition push_user :: "string \<Rightarrow> world \<Rightarrow> world" where
  "push_user user w = (if user \<noteq> [] then w\<lparr>user_stack := user_stack w @ [user]\<rparr> else w)"

definition pop_user :: "world \<Rightarrow> string option \<times> world" where
  "pop_user w =
     (if user_stack w \<noteq> [] then (Some (last (user_stack w)), w\<lparr>user_stack := butlast (user_stack w)\<rparr>)
      else (None, w))"

definition effective_user :: "string \<Rightarrow> world \<Rightarrow> string" where
  "effective_user login_user w = (if user_stack w \<noteq> [] then last (user_stack w) else login_user)"

section \<open>Rendering\<close>

text \<open>\<open>repr(s)\<close> of a string: single quotes unless only single quotes occur inside.\<close>

definition hex_digit :: "nat \<Rightarrow> char" where
  "hex_digit d = (if d < 10 then char_of (48 + d) else char_of (87 + d))"

definition repr_char :: "char \<Rightarrow> char \<Rightarrow> string" where
  "repr_char q c =
     (if c = q \<or> c = bslash then [bslash, c]
      else if c = tab then [bslash, CHR ''t'']
      else if c = nl then [bslash, CHR ''n'']
      else if c = cr then [bslash, CHR ''r'']
      else if ord c < 32 \<or> (127 \<le> ord c \<and> ord c \<le> 160) \<or> ord c = 173
        then [bslash, CHR ''x'', hex_digit (ord c div 16), hex_digit (ord c mod 16)]
      else [c])"

definition py_repr :: "string \<Rightarrow> string" where
  "py_repr s =
     (let q = (if squote \<in> set s \<and> dquote \<notin> set s then dquote else squote)
      in [q] @ concat (map (repr_char q) s) @ [q])"

definition source_name :: "file_source \<Rightarrow> string" where
  "source_name s = (case s of Downloaded \<Rightarrow> ''downloaded'' | Created \<Rightarrow> ''created'' | Edited \<Rightarrow> ''edited'')"

definition opt_text :: "string option \<Rightarrow> string" where
  "opt_text x = (case x of None \<Rightarrow> [] | Some s \<Rightarrow> s)"

definition file_line :: "file_fact \<Rightarrow> string" where
  "file_line f =
     (let sha = take 16 (if opt_text (sha256 f) = [] then ''?'' else opt_text (sha256 f));
          origin = (if opt_text (source_url f) \<noteq> [] then '' from '' @ opt_text (source_url f)
                    else '' ('' @ source_name (ff_source f) @ '')'');
          line = ''  '' @ ff_path f @ ''  size='' @ str_of_nat (size_bytes f) @ ''  sha256='' @ sha @ origin
      in if opt_text (content_snippet f) \<noteq> []
         then line @ ''  content='' @
           py_repr (str_replace [nl] [bslash, CHR ''n''] (take 80 (opt_text (content_snippet f))))
         else line)"

definition files_lines :: "world \<Rightarrow> string list" where
  "files_lines w =
     (if files w = [] then []
      else [''Files this session has created or downloaded:'']
        @ map file_line (take MAX_FILES_IN_PROMPT (sort_key (\<lambda>f. - mtime f) (map snd (files w))))
        @ (if length (files w) > MAX_FILES_IN_PROMPT
           then [''  ... ('' @ str_of_nat (length (files w) - MAX_FILES_IN_PROMPT) @ '' more, omitted)'']
           else []))"

definition env_lines :: "world \<Rightarrow> string list" where
  "env_lines w =
     (if env_vars w = [] then []
      else ''Exported environment variables this session:''
        # map (\<lambda>(k, v). ''  '' @ k @ ''='' @ py_repr v) (take 10 (env_vars w)))"

definition proc_lines :: "world \<Rightarrow> string list" where
  "proc_lines w =
     (if processes w = [] then []
      else (''Background processes this session started '' @ ''(must appear in ps/jobs output until killed):'')
        # map (\<lambda>p. ''  pid='' @ str_of_nat (pf_pid p) @ '' user='' @ pf_user p @ '' cmd='' @ py_repr (pf_command p))
            (take MAX_PROCS_IN_PROMPT (map snd (processes w))))"

definition stack_lines :: "world \<Rightarrow> string list" where
  "stack_lines w =
     (if user_stack w = [] then []
      else [''Effective-user stack (su/sudo '' @ em_dash @ '' whoami/id and the shell '' @
            ''prompt must reflect the top): '' @ py_join '' -> '' (user_stack w)])"

definition claim_line :: "claim_fact \<Rightarrow> string" where
  "claim_line c =
     (let snippet = str_replace [nl] ('' '' @ return_symbol @ '' '') (excerpt c);
          asked = (if cf_command c \<noteq> [] then [bquote] @ cf_command c @ [bquote] @ '' -> '' else [])
      in ''  ['' @ cf_key c @ ''] '' @ asked @ snippet)"

definition claim_lines :: "world \<Rightarrow> string list" where
  "claim_lines w =
     (let replayable = replayable_claims w in
      if replayable = [] then []
      else [''Answers already given to this session. If any of these is asked again '' @ em_dash @
            '' in any form '' @ em_dash @ '' repeat the same values. Do not re-derive or vary them:'']
        @ map claim_line (take (max_facts w) (sort_key (\<lambda>c. - int (turn c)) replayable))
        @ (if length replayable > max_facts w
           then [''  ... ('' @ str_of_nat (length replayable - max_facts w) @ '' more, omitted)'']
           else []))"

definition prompt_lines :: "world \<Rightarrow> string list" where
  "prompt_lines w =
     (if files w = [] \<and> env_vars w = [] \<and> processes w = [] \<and> user_stack w = [] \<and> replayable_claims w = []
      then []
      else [''Session-observed state (must be reflected in command output, '' @ ''do not contradict):'']
        @ files_lines w @ env_lines w @ proc_lines w @ stack_lines w @ claim_lines w)"

definition to_prompt_section :: "world \<Rightarrow> string" where
  "to_prompt_section w = py_join [nl] (prompt_lines w)"


section \<open>The file table as a store\<close>

text \<open>
  What the rest of the session relies on: a write is visible under its own path and nowhere
  else, the last write wins, and an empty path is ignored.
\<close>

locale file_store =
  fixes put :: "string \<Rightarrow> 'f \<Rightarrow> 's \<Rightarrow> 's"
    and remove :: "string \<Rightarrow> 's \<Rightarrow> 's"
    and get :: "'s \<Rightarrow> string \<Rightarrow> 'f option"
    and ok :: "'s \<Rightarrow> bool"
  assumes get_put: "p \<noteq> [] \<Longrightarrow> get (put p f s) = (get s)(p \<mapsto> f)"
    and put_empty: "put [] f s = s"
    and get_remove: "ok s \<Longrightarrow> get (remove p s) = (get s)(p := None)"
    and ok_put: "ok s \<Longrightarrow> ok (put p f s)"
    and ok_remove: "ok s \<Longrightarrow> ok (remove p s)"
begin

lemma last_write_wins: "p \<noteq> [] \<Longrightarrow> get (put p f (put p g s)) = get (put p f s)"
  by (simp add: get_put)

lemma put_frame: "q \<noteq> p \<Longrightarrow> get (put p f s) q = get s q"
  by (cases "p = []") (simp_all add: put_empty get_put)

lemma remove_put: "ok s \<Longrightarrow> p \<noteq> [] \<Longrightarrow> get (remove p (put p f s)) = (get s)(p := None)"
  by (simp add: get_remove ok_put get_put)

text \<open>A run of writes: the table afterwards maps a path to the last value written to it.\<close>

lemma get_fold_put:
  "\<forall>(p, f)\<in>set ps. p \<noteq> [] \<Longrightarrow> get (fold (\<lambda>(p, f). put p f) ps s) = get s ++ map_of (rev ps)"
proof (induction ps arbitrary: s)
  case (Cons pf ps)
  obtain p f where pf: "pf = (p, f)" by (cases pf)
  have "get (fold (\<lambda>(p, f). put p f) (pf # ps) s) = (get s)(p \<mapsto> f) ++ map_of (rev ps)"
    using Cons by (simp add: pf get_put)
  then show ?case by (simp add: pf)
qed simp

end

definition world_put :: "string \<Rightarrow> file_fact \<Rightarrow> world \<Rightarrow> world" where
  "world_put path f w = (if path = [] then w else w\<lparr>files := AList.update path f (files w)\<rparr>)"

text \<open>\<open>world.files.pop(path, None)\<close>.\<close>

definition remove_file :: "string \<Rightarrow> world \<Rightarrow> world" where
  "remove_file path w = w\<lparr>files := AList.delete path (files w)\<rparr>"

abbreviation world_file :: "world \<Rightarrow> string \<Rightarrow> file_fact option" where
  "world_file w \<equiv> map_of (files w)"

lemma add_file_put:
  "add_file now path sz sha src url snippet w =
     world_put path \<lparr>ff_path = path, size_bytes = sz, sha256 = sha, mtime = now, ff_source = src,
       source_url = url, content_snippet = snippet\<rparr> w"
  by (simp add: add_file_def world_put_def)

interpretation ws: file_store world_put remove_file world_file "\<lambda>w. distinct (map fst (files w))"
  by unfold_locales
     (auto simp: world_put_def remove_file_def update_conv' delete_conv' distinct_update distinct_delete)

section \<open>The invariant\<close>

text \<open>
  Every table has each key once and stores under a key the fact that names it; paths, names and
  fact keys are not empty; the process ids handed out are below the counter, and the job list
  holds each of them exactly once.
\<close>

definition world_ok :: "world \<Rightarrow> bool" where
  "world_ok w \<longleftrightarrow>
     distinct (map fst (files w)) \<and> (\<forall>(p, f)\<in>set (files w). ff_path f = p \<and> p \<noteq> []) \<and>
     distinct (map fst (env_vars w)) \<and> (\<forall>(n, v)\<in>set (env_vars w). n \<noteq> []) \<and>
     distinct (map fst (processes w)) \<and>
     (\<forall>(p, f)\<in>set (processes w). pf_pid f = p \<and> p < next_pid w \<and> pf_command f \<noteq> []) \<and>
     distinct (map fst (told_facts w)) \<and>
     (\<forall>(k, c)\<in>set (told_facts w). cf_key c = k \<and> k \<noteq> [] \<and>
        length (excerpt c) \<le> MAX_FACT_EXCERPT + length ellipsis) \<and>
     distinct (bg_pids w) \<and> set (bg_pids w) = fst ` set (processes w) \<and>
     [] \<notin> set (user_stack w)"

lemma set_update_subset: "set (AList.update k v d) \<subseteq> insert (k, v) (set d)"
  by (induction d) auto

lemma set_delete_subset: "set (AList.delete k d) \<subseteq> set d"
  by (auto simp: AList.delete_eq)

lemma world_ok_new: "world_ok new_world"
  by (simp add: world_ok_def new_world_def)

lemma world_ok_record_claim: "world_ok w \<Longrightarrow> world_ok (record_claim key exc trn src cmd w)"
  using set_update_subset [of key _ "told_facts w"]
  by (fastforce simp: world_ok_def record_claim_def Let_def distinct_update MAX_FACT_EXCERPT_def)

lemma world_ok_add_file: "world_ok w \<Longrightarrow> world_ok (add_file now path sz sha src url snippet w)"
  using set_update_subset [of path _ "files w"]
  by (fastforce simp: world_ok_def add_file_def distinct_update)

lemma world_ok_remove_file: "world_ok w \<Longrightarrow> world_ok (remove_file path w)"
  using set_delete_subset [of path "files w"]
  by (fastforce simp: world_ok_def remove_file_def distinct_delete)

lemma world_ok_add_env: "world_ok w \<Longrightarrow> world_ok (add_env name value w)"
  using set_update_subset [of name "value" "env_vars w"]
  by (fastforce simp: world_ok_def add_env_def distinct_update)

lemma world_ok_push_user: "world_ok w \<Longrightarrow> world_ok (push_user u w)"
  by (simp add: world_ok_def push_user_def)

lemma world_ok_pop_user: "world_ok w \<Longrightarrow> world_ok (snd (pop_user w))"
  by (auto simp: world_ok_def pop_user_def dest: in_set_butlastD)

lemma AList_update_new: "k \<notin> fst ` set d \<Longrightarrow> AList.update k v d = d @ [(k, v)]"
  by (induction d) auto

text \<open>The process id handed out is fresh.\<close>

lemma next_pid_fresh: "world_ok w \<Longrightarrow> next_pid w \<notin> fst ` set (processes w) \<and> next_pid w \<notin> set (bg_pids w)"
  by (fastforce simp: world_ok_def)

lemma add_process_eq:
  assumes "world_ok w" "py_strip cmd \<noteq> []"
  shows "add_process now cmd user None w = (next_pid w,
    w\<lparr>next_pid := next_pid w + 1, processes := processes w @ [(next_pid w,
       \<lparr>pf_pid = next_pid w, pf_command = py_strip cmd, pf_user = user, pf_started_at = now\<rparr>)],
     bg_pids := bg_pids w @ [next_pid w]\<rparr>)"
  using next_pid_fresh [OF assms(1)] assms(2)
  by (simp add: add_process_def Let_def AList_update_new)

lemma world_ok_add_process: "world_ok w \<Longrightarrow> world_ok (snd (add_process now cmd user None w))"
proof (cases "py_strip cmd = []")
  case True
  assume "world_ok w"
  then show ?thesis using True by (simp add: add_process_def Let_def)
next
  case False
  assume ok: "world_ok w"
  from next_pid_fresh [OF ok] ok show ?thesis
    unfolding add_process_eq [OF ok False] using False by (auto simp: world_ok_def less_Suc_eq)
qed

lemma world_ok_limit: "world_ok w \<Longrightarrow> world_ok (w\<lparr>max_facts := n\<rparr>)"
  by (simp add: world_ok_def)

lemmas world_ok_ops = world_ok_limit world_ok_record_claim world_ok_add_file world_ok_remove_file world_ok_add_env
  world_ok_push_user world_ok_pop_user world_ok_add_process


text \<open>Every way a session changes its world, as steps from the state it starts with.\<close>

inductive world_step :: "world \<Rightarrow> world \<Rightarrow> bool" where
  claim: "world_step w (record_claim key exc trn src cmd w)"
| file_added: "world_step w (add_file now path sz sha src url snippet w)"
| file_removed: "world_step w (remove_file path w)"
| env_set: "world_step w (add_env name val w)"
| process: "world_step w (snd (add_process now cmd user None w))"
| push: "world_step w (push_user user w)"
| pop: "world_step w (snd (pop_user w))"
| limit: "world_step w (w\<lparr>max_facts := n\<rparr>)"

inductive world_reachable :: "world \<Rightarrow> bool" where
  start: "world_reachable new_world"
| step: "world_reachable w \<Longrightarrow> world_step w w' \<Longrightarrow> world_reachable w'"

lemma world_step_ok: "world_step w w' \<Longrightarrow> world_ok w \<Longrightarrow> world_ok w'"
  by (induction rule: world_step.induct) (simp_all add: world_ok_ops)

lemma length_files_lines: "length (files_lines w) \<le> 22"
  by (simp add: files_lines_def MAX_FILES_IN_PROMPT_def)

lemma length_other_lines: "length (env_lines w) \<le> 11" "length (proc_lines w) \<le> 21" "length (stack_lines w) \<le> 1"
  by (simp_all add: env_lines_def proc_lines_def stack_lines_def MAX_PROCS_IN_PROMPT_def)

lemma length_claim_lines: "length (claim_lines w) \<le> max_facts w + 2"
  by (simp add: claim_lines_def Let_def)

lemma py_join_eq_Nil: "py_join sep xs = [] \<Longrightarrow> xs \<noteq> [] \<Longrightarrow> hd xs = []"
  by (cases "(sep, xs)" rule: py_join.cases) auto

section \<open>Theorems\<close>



text \<open>A background process gets an id that no process of the session has had, the process table
  and the job list grow by exactly that entry, and every earlier process is kept.\<close>

lemma add_process_fresh:
  assumes "world_ok w" and "py_strip cmd \<noteq> []"
    and "add_process now cmd user None w = (pid, w')"
  shows "pid \<notin> fst ` set (processes w) \<and> bg_pids w' = bg_pids w @ [pid] \<and>
    map_of (processes w') = (map_of (processes w))(pid \<mapsto>
      \<lparr>pf_pid = pid, pf_command = py_strip cmd, pf_user = user, pf_started_at = now\<rparr>) \<and>
    next_pid w' = pid + 1 \<and> files w' = files w \<and> user_stack w' = user_stack w"
proof -
  have eq: "pid = next_pid w" "w' = w\<lparr>next_pid := next_pid w + 1, processes := processes w @ [(next_pid w,
       \<lparr>pf_pid = next_pid w, pf_command = py_strip cmd, pf_user = user, pf_started_at = now\<rparr>)],
     bg_pids := bg_pids w @ [next_pid w]\<rparr>"
    using assms(3) unfolding add_process_eq [OF assms(1,2)] by auto
  have "map_of (processes w) (next_pid w) = None"
    using next_pid_fresh [OF assms(1)] by (simp add: map_of_eq_None_iff)
  then have "map_of (processes w @ [(next_pid w, f)]) = (map_of (processes w))(next_pid w \<mapsto> f)" for f
    by (auto simp: map_add_def fun_eq_iff split: option.splits)
  then show ?thesis using eq next_pid_fresh [OF assms(1)] by simp
qed

text \<open>Leaving a \<open>su\<close> shell undoes entering it: after pushing a user that user is in effect, and
  popping returns it and restores the world exactly, whoever was in effect before.\<close>

lemma push_pop_user:
  assumes "user \<noteq> []"
  shows "effective_user login (push_user user w) = user \<and>
    pop_user (push_user user w) = (Some user, w) \<and>
    effective_user login (snd (pop_user (push_user user w))) = effective_user login w"
  using assms by (simp add: push_user_def pop_user_def effective_user_def)

text \<open>What has been told is what is found again: after recording an answer under a key, asking
  for that key gives the stripped answer cut to 200 characters (with an ellipsis when it was
  longer), and the answers under all other keys are as before.\<close>

lemma record_claim_lookup:
  assumes "key \<noteq> []" and "answer \<noteq> []"
  shows "claim_for (Some key) (record_claim key answer trn src cmd w) = Some
      \<lparr>cf_key = key,
       excerpt = (if length (py_strip answer) > 200 then take 200 (py_strip answer) @ ellipsis
                  else py_strip answer),
       turn = trn, cf_source = src, cf_command = cmd\<rparr> \<and>
    (\<forall>k. k \<noteq> key \<longrightarrow>
       claim_for (Some k) (record_claim key answer trn src cmd w) = claim_for (Some k) w)"
  using assms by (simp add: claim_for_def record_claim_def Let_def update_conv' MAX_FACT_EXCERPT_def)


text \<open>The uncached prompt tail stays small: whatever the session accumulates, the section has at
  most 58 lines plus the configured number of remembered answers.\<close>

lemma prompt_lines_bound: "length (prompt_lines w) \<le> 58 + max_facts w"
  using length_files_lines [of w] length_other_lines [of w] length_claim_lines [of w]
  by (simp add: prompt_lines_def)

text \<open>The section is omitted exactly when there is nothing to share: no files, variables,
  processes or user switches and no answer of the model to repeat (deterministic answers do not
  count).\<close>

lemma to_prompt_section_empty:
  "to_prompt_section w = [] \<longleftrightarrow>
     files w = [] \<and> env_vars w = [] \<and> processes w = [] \<and> user_stack w = [] \<and>
     \<not> list_ex (\<lambda>(k, c). cf_source c = ''llm'') (told_facts w)"
proof -
  have "replayable_claims w = [] \<longleftrightarrow> \<not> list_ex (\<lambda>(k, c). cf_source c = ''llm'') (told_facts w)"
    by (auto simp: replayable_claims_def filter_empty_conv needs_replay_def list_ex_iff)
  moreover have "to_prompt_section w = [] \<longleftrightarrow> prompt_lines w = []"
    using py_join_eq_Nil [of "[nl]" "prompt_lines w"]
    by (auto simp: to_prompt_section_def prompt_lines_def split: if_splits)
  ultimately show ?thesis by (auto simp: prompt_lines_def)
qed

end
