(* ===== verification/Stream_Machine.thy ===== *)
theory Stream_Machine
  imports Main
begin

text \<open>
  The interface of a machine that is fed a stream in chunks: the upload sink, which gets the packets of an SSH
  channel, and the consumer of a streamed answer of the model, which gets the packets of an HTTP body. The law
  is that a chunk can be cut anywhere; what the clients need is that the cut into chunks does not matter. The
  predicate \<open>ready\<close> describes the states between two chunks.
\<close>

locale stream_machine =
  fixes consume :: "'s \<Rightarrow> 'b list \<Rightarrow> 's \<times> 'o list" and ready :: "'s \<Rightarrow> bool"
  assumes consume_Nil: "ready s \<Longrightarrow> consume s [] = (s, [])"
    and consume_ready: "ready s \<Longrightarrow> ready (fst (consume s xs))"
    and consume_append: "ready s \<Longrightarrow> consume s (xs @ ys) =
      (let (s1, o1) = consume s xs; (s2, o2) = consume s1 ys in (s2, o1 @ o2))"
begin

primrec consume_all :: "'s \<Rightarrow> 'b list list \<Rightarrow> 's \<times> 'o list" where
  "consume_all s [] = (s, [])"
| "consume_all s (c # cs) = (let (s1, o1) = consume s c; (s2, o2) = consume_all s1 cs in (s2, o1 @ o2))"

lemma consume_all_concat: "ready s \<Longrightarrow> consume_all s chunks = consume s (concat chunks)"
proof (induction chunks arbitrary: s)
  case (Cons c cs)
  have "ready (fst (consume s c))" using Cons.prems by (rule consume_ready)
  then show ?case using Cons.IH [of "fst (consume s c)"] Cons.prems
    by (auto simp: consume_append split: prod.split)
qed (simp add: consume_Nil)

lemma consume_all_ready: "ready s \<Longrightarrow> ready (fst (consume_all s chunks))"
  by (simp add: consume_all_concat consume_ready)

end

end
