(* ===== verification/Scp_Sink.thy ===== *)
theory Scp_Sink
  imports Stream_Machine Py_Regex
begin

text \<open>
  \<open>src/cowrie/llm/scp.py\<close>: the receiving side of the scp wire protocol, which captures the
  payload of an upload. Channel data, control lines and file names are bytes; the name of a
  captured file is kept as the bytes of its control line.
\<close>

section \<open>Control lines\<close>

definition is_byte_space :: "char \<Rightarrow> bool" where
  "is_byte_space c \<longleftrightarrow> c = CHR '' '' \<or> (9 \<le> ord c \<and> ord c \<le> 13)"

definition is_octal :: "char \<Rightarrow> bool" where
  "is_octal c \<longleftrightarrow> 48 \<le> ord c \<and> ord c \<le> 55"

definition entry_re :: "char \<Rightarrow> regex" where
  "entry_re k = rseq [RBos, RCls (\<lambda>c. c = k), RGroup 1 (rrep 4 4 (RCls is_octal)), rplus (RCls is_byte_space),
     RGroup 2 (rplus rdigit), rplus (RCls is_byte_space), RGroup 3 (rplus rdot), REos]"

definition C_RE :: regex where "C_RE = entry_re (CHR ''C'')"
definition D_RE :: regex where "D_RE = entry_re (CHR ''D'')"

definition T_RE :: regex where
  "T_RE = rseq [RBos, RCls (\<lambda>c. c = CHR ''T''), RGroup 1 (rplus rdigit), rplus (RCls is_byte_space),
     rplus rdigit, rplus (RCls is_byte_space), RGroup 2 (rplus rdigit), rplus (RCls is_byte_space),
     rplus rdigit, REos]"

section \<open>State\<close>

datatype scp_phase = ExpectControl | ReadingData | ScpDone

record captured_file =
  cap_name :: bytestr
  cap_mode :: bytestr
  cap_size :: nat
  cap_data :: bytestr

record scp_sink =
  base_path :: bytestr
  phase :: scp_phase
  buf :: bytestr
  remaining :: nat
  cur :: "captured_file option"
  dir_stack :: "bytestr list"
  sink_files :: "captured_file list"
  max_bytes :: nat
  total :: nat
  sink_error :: string

definition ACK :: bytestr where "ACK = [CHR 0x00]"

definition new_sink :: "bytestr \<Rightarrow> scp_sink" where
  "new_sink path = \<lparr>base_path = path, phase = ExpectControl, buf = [], remaining = 0, cur = None,
     dir_stack = [], sink_files = [], max_bytes = 10 * 1024 * 1024, total = 0, sink_error = []\<rparr>"

section \<open>Operations\<close>

definition scp_initial :: "scp_sink \<Rightarrow> bytestr" where
  "scp_initial s = ACK"

definition scp_done :: "scp_sink \<Rightarrow> bool" where
  "scp_done s \<longleftrightarrow> phase s = ScpDone"

text \<open>
  \<open>_handle_control\<close>. The only call that can raise is \<open>int()\<close> on a size of more than 4300
  digits: \<^const>\<open>Inl\<close> is the message of that \<open>ValueError\<close>.
\<close>

definition INT_ERROR :: string where
  "INT_ERROR = ''Exceeds the limit (4300 digits) for integer string conversion''"

definition handle_control :: "bytestr \<Rightarrow> scp_sink \<Rightarrow> string + scp_sink" where
  "handle_control line s =
     (if line = [] then Inr s
      else case re_match C_RE line of
        Some m \<Rightarrow>
          (case py_int_unsigned (group m 2) of
             None \<Rightarrow> Inl INT_ERROR
           | Some sz \<Rightarrow>
               let f = \<lparr>cap_name = group m 3, cap_mode = group m 1, cap_size = sz, cap_data = []\<rparr> in
               if sz > 0 then Inr (s\<lparr>cur := Some f, remaining := sz, phase := ReadingData\<rparr>)
               else Inr (s\<lparr>cur := None, remaining := sz, phase := ExpectControl,
                           sink_files := sink_files s @ [f]\<rparr>))
      | None \<Rightarrow>
          (case re_match D_RE line of
             Some m \<Rightarrow> Inr (s\<lparr>dir_stack := dir_stack s @ [group m 3]\<rparr>)
           | None \<Rightarrow>
               if take 1 line = ''E''
               then Inr (if dir_stack s \<noteq> [] then s\<lparr>dir_stack := butlast (dir_stack s)\<rparr> else s)
               else if re_match T_RE line \<noteq> None then Inr s
               else Inr s))"

text \<open>The data phase: keep what the byte cap allows, count what arrived, close the file at zero.\<close>

definition take_data :: "bytestr \<Rightarrow> scp_sink \<Rightarrow> scp_sink" where
  "take_data chunk s =
     (case cur s of
        None \<Rightarrow> s
      | Some f \<Rightarrow>
          let keep = min (length chunk) (max_bytes s - total s) in
          if keep > 0 then s\<lparr>cur := Some (f\<lparr>cap_data := cap_data f @ take keep chunk\<rparr>), total := total s + keep\<rparr>
          else s)"

definition finish_file :: "scp_sink \<Rightarrow> scp_sink" where
  "finish_file s = s\<lparr>sink_files := sink_files s @ (case cur s of None \<Rightarrow> [] | Some f \<Rightarrow> [f]),
     cur := None, phase := ExpectControl\<rparr>"

definition phase_rank :: "scp_sink \<Rightarrow> nat" where
  "phase_rank s = (if phase s = ReadingData then 1 else 0)"

text \<open>
  The loop of \<open>_feed\<close>: the state, the bytes to send back, and the exception if one was raised.
\<close>

function feed_loop :: "scp_sink \<Rightarrow> bytestr \<Rightarrow> bytestr \<Rightarrow> string option \<times> scp_sink \<times> bytestr" where
  "feed_loop s [] out = (None, s, out)"
| "feed_loop s (b # bs) out =
     (if phase s = ScpDone then (None, s, out)
      else if phase s = ReadingData then
        (let n = min (remaining s) (length (b # bs));
             s1 = take_data (take n (b # bs)) s;
             s2 = s1\<lparr>remaining := remaining s - n\<rparr> in
         if remaining s2 = 0 then feed_loop (finish_file s2) (drop n (b # bs)) (out @ ACK)
         else feed_loop s2 (drop n (b # bs)) out)
      else if b = CHR 0x00 then feed_loop s bs out
      else if b \<noteq> nl then feed_loop (s\<lparr>buf := buf s @ [b]\<rparr>) bs out
      else let s1 = s\<lparr>buf := []\<rparr> in
        (case handle_control (buf s) s1 of
           Inl e \<Rightarrow> (Some e, s1, out)
         | Inr s2 \<Rightarrow> feed_loop s2 bs (out @ ACK)))"
  by pat_completeness auto
termination
proof (relation "measures [\<lambda>(s, bs, out). length bs, \<lambda>(s, bs, out). phase_rank s]", goal_cases)
  case (2 s b bs out x xa xb)
  then show ?case
    by (cases "remaining s")
       (auto simp: phase_rank_def finish_file_def take_data_def Let_def split: option.splits)
next
  case (3 s b bs out x xa xb)
  then show ?case by (cases "remaining s") (auto simp: Let_def)
qed auto

text \<open>\<open>feed\<close>: an exception ends the transfer with the protocol's error message.\<close>

definition feed :: "scp_sink \<Rightarrow> bytestr \<Rightarrow> scp_sink \<times> bytestr" where
  "feed s data =
     (case feed_loop s data [] of
        (None, s', out) \<Rightarrow> (s', out)
      | (Some e, s', out) \<Rightarrow>
          (s'\<lparr>sink_error := e, phase := ScpDone\<rparr>, out @ [CHR 0x01] @ ''scp: protocol error'' @ [nl]))"

definition looks_like_dir :: "bytestr \<Rightarrow> bool" where
  "looks_like_dir path \<longleftrightarrow>
     path \<in> {''.'', ''/'', ''/tmp'', ''/var/tmp'', ''/dev/shm''} \<or> endswith path ''/''"

definition dest_path :: "scp_sink \<Rightarrow> captured_file \<Rightarrow> bytestr" where
  "dest_path s f =
     (let base0 = rstrip_by (\<lambda>c. c = CHR ''/'') (base_path s);
          base = (if base0 = [] then ''/'' else base0);
          rel = (if dir_stack s \<noteq> [] then py_join ''/'' (dir_stack s @ [cap_name f]) else cap_name f) in
      if endswith base ''/'' \<or> looks_like_dir base then base @ ''/'' @ rel else base)"

definition scp_flag :: "char \<Rightarrow> string \<Rightarrow> bool" where
  "scp_flag c p \<longleftrightarrow> p = [CHR ''-'', c] \<or> (startswith p ''-'' \<and> c \<in> set p \<and> \<not> startswith p ''--'')"

definition is_scp_sink :: "string \<Rightarrow> bool" where
  "is_scp_sink execcmd =
     (let parts = split_ws execcmd in
      if parts = [] \<or> hd parts \<noteq> ''scp'' then False
      else list_ex (scp_flag (CHR ''t'')) (tl parts))"

definition is_scp_source :: "string \<Rightarrow> bool" where
  "is_scp_source execcmd =
     (let parts = split_ws execcmd in
      if parts = [] \<or> hd parts \<noteq> ''scp'' then False
      else list_ex (scp_flag (CHR ''f'')) (tl parts))"

definition scp_dest_path :: "string \<Rightarrow> string" where
  "scp_dest_path execcmd =
     (case List.find (\<lambda>t. \<not> startswith t ''-'') (rev (tl (split_ws execcmd))) of
        Some t \<Rightarrow> t | None \<Rightarrow> ''.'')"


section \<open>Chunking\<close>

lemma take_data_simps [simp]:
  "phase (take_data x s) = phase s" "remaining (take_data x s) = remaining s"
  "max_bytes (take_data x s) = max_bytes s" "buf (take_data x s) = buf s"
  "sink_files (take_data x s) = sink_files s" "dir_stack (take_data x s) = dir_stack s"
  "base_path (take_data x s) = base_path s" "sink_error (take_data x s) = sink_error s"
  by (simp_all add: take_data_def Let_def split: option.splits)

lemma take_data_remaining: "take_data x (s\<lparr>remaining := r\<rparr>) = (take_data x s)\<lparr>remaining := r\<rparr>"
  by (simp add: take_data_def Let_def split: option.splits)

lemma take_data_Some:
  "cur s = Some f \<Longrightarrow> take_data z s = s\<lparr>cur := Some (f\<lparr>cap_data := cap_data f @
      take (min (length z) (max_bytes s - total s)) z\<rparr>), total := total s + min (length z) (max_bytes s - total s)\<rparr>"
  by (simp add: take_data_def Let_def)

lemma take_data_append: "take_data (x @ y) s = take_data y (take_data x s)"
proof (cases "cur s")
  case (Some f)
  let ?room = "max_bytes s - total s"
  let ?k = "min (length x) ?room"
  have total: "min (length (x @ y)) ?room = ?k + min (length y) (max_bytes s - (total s + ?k))" by auto
  have bytes: "take (min (length (x @ y)) ?room) (x @ y) =
      take ?k x @ take (min (length y) (max_bytes s - (total s + ?k))) y"
    by (cases "length x \<le> ?room") (simp_all add: min_def)
  define g where "g = f\<lparr>cap_data := cap_data f @ take ?k x\<rparr>"
  define t where "t = s\<lparr>cur := Some g, total := total s + ?k\<rparr>"
  have t: "take_data x s = t" "cur t = Some g" "max_bytes t = max_bytes s" "total t = total s + ?k"
    using take_data_Some [OF Some, of x] by (simp_all add: t_def g_def)
  show ?thesis
    unfolding take_data_Some [OF Some, of "x @ y"] bytes t(1) take_data_Some [OF t(2)] t(3,4)
    unfolding total by (simp add: t_def g_def add.assoc)
qed (simp add: take_data_def)

lemma feed_loop_done: "phase s = ScpDone \<Longrightarrow> feed_loop s bs out = (None, s, out)"
  by (cases bs) simp_all

text \<open>One round of the data phase, on any non-empty input.\<close>

lemma feed_loop_data:
  assumes "phase s = ReadingData" "bs \<noteq> []"
  shows "feed_loop s bs out =
    (let n = min (remaining s) (length bs); s2 = (take_data (take n bs) s)\<lparr>remaining := remaining s - n\<rparr> in
     if remaining s - n = 0 then feed_loop (finish_file s2) (drop n bs) (out @ ACK)
     else feed_loop s2 (drop n bs) out)"
  using assms by (cases bs) (simp_all add: Let_def)

declare feed_loop.simps(2) [simp del]

text \<open>The data phase on a concatenation: the file ends inside the first part, or after it.\<close>

lemma feed_loop_data_ends:
  assumes "phase s = ReadingData" "x \<noteq> []" "remaining s \<le> length x"
  shows "feed_loop s (x @ bs) out =
    feed_loop (finish_file ((take_data (take (remaining s) x) s)\<lparr>remaining := 0\<rparr>))
      (drop (remaining s) x @ bs) (out @ ACK)"
  using assms by (subst feed_loop_data) (simp_all add: Let_def min_absorb1)

lemma feed_loop_data_goes_on:
  assumes "phase s = ReadingData" "x \<noteq> []" "length x < remaining s"
  shows "feed_loop s (x @ bs) out = feed_loop ((take_data x s)\<lparr>remaining := remaining s - length x\<rparr>) bs out"
proof (cases "bs = []")
  case True
  then show ?thesis using assms by (subst feed_loop_data) (simp_all add: Let_def min_absorb2)
next
  case False
  let ?s2 = "(take_data x s)\<lparr>remaining := remaining s - length x\<rparr>"
  let ?m = "min (remaining s - length x) (length bs)"
  have ne: "x @ bs \<noteq> []" using assms(2) by simp
  have m: "min (remaining s) (length (x @ bs)) = length x + ?m" using assms(3) by auto
  have r: "remaining s - (length x + ?m) = remaining s - length x - ?m" by simp
  have "feed_loop s (x @ bs) out =
      (let s3 = (take_data (take ?m bs) ?s2)\<lparr>remaining := remaining s - length x - ?m\<rparr> in
       if remaining s - length x - ?m = 0 then feed_loop (finish_file s3) (drop ?m bs) (out @ ACK)
       else feed_loop s3 (drop ?m bs) out)"
    unfolding feed_loop_data [OF assms(1) ne] Let_def m r
    by (simp add: take_data_append take_data_remaining del: diff_is_0_eq diff_is_0_eq')
  also have "\<dots> = feed_loop ?s2 bs out"
    using False assms(1) by (subst (3) feed_loop_data) (simp_all add: Let_def)
  finally show ?thesis .
qed

lemma feed_loop_append:
  "feed_loop s (as @ bs) out =
     (case feed_loop s as out of
        (Some e, s', o') \<Rightarrow> (Some e, s', o')
      | (None, s', o') \<Rightarrow> feed_loop s' bs o')"
proof (induction s as out rule: feed_loop.induct)
  case (2 s a as out)
  define x where "x = a # as"
  have x: "x \<noteq> []" by (simp add: x_def)
  show ?case
  proof (cases "phase s")
    case ScpDone
    then show ?thesis by (simp add: feed_loop_done)
  next
    case ReadingData
    then have notdone: "phase s \<noteq> ScpDone" by simp
    show ?thesis
    proof (cases "remaining s \<le> length x")
      case True
      show ?thesis
        using "2.IH"(1) [OF notdone ReadingData refl refl refl] True
          feed_loop_data_ends [OF ReadingData x True, of bs out]
          feed_loop_data_ends [OF ReadingData x True, of "[]" out]
        unfolding x_def [symmetric] by (simp add: min_absorb1)
    next
      case False
      then show ?thesis
        using feed_loop_data_goes_on [OF ReadingData x, of bs out]
          feed_loop_data_goes_on [OF ReadingData x, of "[]" out]
        unfolding x_def [symmetric] by simp
    qed
  next
    case ExpectControl
    then have p: "phase s \<noteq> ScpDone" "phase s \<noteq> ReadingData" by auto
    show ?thesis
    proof (cases "a = nl")
      case True
      then show ?thesis using p "2.IH"(5) [OF p]
        by (auto simp: feed_loop.simps(2) Let_def split: sum.splits)
    next
      case False
      then show ?thesis using p "2.IH"(3) [OF p] "2.IH"(4) [OF p] by (auto simp: feed_loop.simps(2))
    qed
  qed
qed simp


lemma feed_loop_out:
  "feed_loop s bs (pre @ out) = (case feed_loop s bs out of (e, s', o') \<Rightarrow> (e, s', pre @ o'))"
proof (induction s bs out rule: feed_loop.induct)
  case (2 s b bs out)
  show ?case
  proof (cases "phase s")
    case ReadingData
    then have p: "phase s \<noteq> ScpDone" by simp
    show ?thesis using "2.IH"(1,2) [OF p ReadingData refl refl refl] ReadingData
      by (auto simp: feed_loop.simps(2) Let_def)
  next
    case ExpectControl
    then have p: "phase s \<noteq> ScpDone" "phase s \<noteq> ReadingData" by auto
    show ?thesis using p "2.IH"(3,4,5) [OF p]
      by (auto simp: feed_loop.simps(2) Let_def split: sum.splits)
  qed (simp add: feed_loop_done)
qed simp

lemma feed_loop_out0: "feed_loop s bs out = (case feed_loop s bs [] of (e, s', o') \<Rightarrow> (e, s', out @ o'))"
  using feed_loop_out [of s bs out "[]"] by simp

lemma feed_append: "feed s (as @ bs) = (let (s1, o1) = feed s as; (s2, o2) = feed s1 bs in (s2, o1 @ o2))"
proof -
  obtain e s1 o1 where a: "feed_loop s as [] = (e, s1, o1)" by (metis prod_cases3)
  show ?thesis
  proof (cases e)
    case None
    then show ?thesis using a feed_loop_append [of s as bs "[]"] feed_loop_out0 [of s1 bs o1]
      by (auto simp: feed_def split: option.splits prod.splits)
  next
    case (Some x)
    then show ?thesis using a feed_loop_append [of s as bs "[]"]
      by (simp add: feed_def feed_loop_done)
  qed
qed

interpretation sink: stream_machine feed "\<lambda>_. True"
  by unfold_locales (simp_all add: feed_def, simp add: feed_append flip: feed_def)

section \<open>What a sink keeps\<close>

definition kept :: "captured_file list \<Rightarrow> nat" where
  "kept fs = sum_list (map (\<lambda>f. length (cap_data f)) fs)"

text \<open>
  The byte count is what has been kept, and it is within the cap; a file is open exactly in
  the data phase, with data still to come; nothing kept is longer than its announced size; the
  line buffer holds neither a line feed nor a zero byte.
\<close>

definition sink_ok :: "scp_sink \<Rightarrow> bool" where
  "sink_ok s \<longleftrightarrow>
     total s \<le> max_bytes s \<and>
     total s = kept (sink_files s) + (case cur s of None \<Rightarrow> 0 | Some f \<Rightarrow> length (cap_data f)) \<and>
     (phase s = ReadingData \<longleftrightarrow> cur s \<noteq> None) \<and>
     (phase s = ReadingData \<longrightarrow> remaining s > 0) \<and>
     (\<forall>f\<in>set (sink_files s). length (cap_data f) \<le> cap_size f) \<and>
     (case cur s of None \<Rightarrow> True | Some f \<Rightarrow> length (cap_data f) + remaining s \<le> cap_size f) \<and>
     nl \<notin> set (buf s) \<and> CHR 0x00 \<notin> set (buf s)"

lemma sink_ok_new: "sink_ok (new_sink path)"
  by (simp add: sink_ok_def new_sink_def kept_def)

lemma kept_snoc [simp]: "kept (fs @ [f]) = kept fs + length (cap_data f)"
  by (simp add: kept_def)

text \<open>What a control line can do: nothing, open a file, record an empty one, move in the directories.\<close>

lemma handle_control_cases:
  assumes "handle_control line s = Inr s'"
  obtains (same) "s' = s"
  | (opens) f where "cap_size f > 0" "cap_data f = []"
      "s' = s\<lparr>cur := Some f, remaining := cap_size f, phase := ReadingData\<rparr>"
  | (zero) f where "cap_size f = 0" "cap_data f = []"
      "s' = s\<lparr>cur := None, remaining := 0, phase := ExpectControl, sink_files := sink_files s @ [f]\<rparr>"
  | (dirs) d where "s' = s\<lparr>dir_stack := d\<rparr>"
proof (cases "line = []")
  case True
  then show ?thesis using assms same by (simp add: handle_control_def)
next
  case ne: False
  show ?thesis
  proof (cases "re_match C_RE line")
    case None
    show ?thesis
    proof (cases "re_match D_RE line")
      case (Some m)
      then show ?thesis using assms ne None dirs [of "dir_stack s @ [group m 3]"]
        by (simp add: handle_control_def)
    next
      case N: None
      then show ?thesis using assms ne None same dirs [of "butlast (dir_stack s)"]
        by (auto simp: handle_control_def split: if_splits)
    qed
  next
    case (Some m)
    then obtain n where n: "py_int_unsigned (group m 2) = Some n"
      using assms ne by (auto simp: handle_control_def split: option.splits)
    show ?thesis
    proof (cases "n > 0")
      case True
      then show ?thesis using assms ne Some n
          opens [of "\<lparr>cap_name = group m 3, cap_mode = group m 1, cap_size = n, cap_data = []\<rparr>"]
        by (simp add: handle_control_def Let_def)
    next
      case False
      then show ?thesis using assms ne Some n
          zero [of "\<lparr>cap_name = group m 3, cap_mode = group m 1, cap_size = n, cap_data = []\<rparr>"]
        by (simp add: handle_control_def Let_def)
    qed
  qed
qed

lemma handle_control_ok:
  assumes "sink_ok s" "phase s = ExpectControl" "handle_control line s = Inr s'"
  shows "sink_ok s' \<and> max_bytes s' = max_bytes s"
  using assms(3)
proof (cases rule: handle_control_cases)
  case (zero f)
  then show ?thesis using assms(1,2) by (auto simp: sink_ok_def)
qed (use assms(1,2) in \<open>simp_all add: sink_ok_def\<close>)

lemma sink_ok_data:
  assumes ok: "sink_ok s" and rd: "phase s = ReadingData" and n: "n \<le> remaining s" "n \<le> length bs"
  shows "sink_ok (if remaining s - n = 0
      then finish_file ((take_data (take n bs) s)\<lparr>remaining := 0\<rparr>)
      else (take_data (take n bs) s)\<lparr>remaining := remaining s - n\<rparr>)"
proof -
  obtain f where f: "cur s = Some f" using ok rd by (auto simp: sink_ok_def)
  show ?thesis using ok rd n
    by (auto simp: sink_ok_def take_data_Some [OF f] f finish_file_def)
qed

lemma feed_loop_ok:
  "feed_loop s bs out = (e, s', o') \<Longrightarrow> sink_ok s \<Longrightarrow>
   sink_ok s' \<and> max_bytes s' = max_bytes s \<and> (e \<noteq> None \<longrightarrow> cur s' = None)"
proof (induction s bs out rule: feed_loop.induct)
  case (2 s b bs out)
  show ?case
  proof (cases "phase s")
    case ReadingData
    then have p: "phase s \<noteq> ScpDone" by simp
    let ?n = "min (remaining s) (length (b # bs))"
    have ok: "sink_ok (if remaining s - ?n = 0
      then finish_file ((take_data (take ?n (b # bs)) s)\<lparr>remaining := 0\<rparr>)
      else (take_data (take ?n (b # bs)) s)\<lparr>remaining := remaining s - ?n\<rparr>)"
      by (rule sink_ok_data [OF "2.prems"(2) ReadingData]) simp_all
    show ?thesis
    proof (cases "remaining s - ?n = 0")
      case True
      then show ?thesis using "2.IH"(1) [OF p ReadingData refl refl refl] ok "2.prems"(1) ReadingData
        by (simp add: feed_loop.simps(2) Let_def finish_file_def)
    next
      case False
      then show ?thesis using "2.IH"(2) [OF p ReadingData refl refl refl] ok "2.prems"(1) ReadingData
        by (auto simp: feed_loop.simps(2) Let_def)
    qed
  next
    case ScpDone
    then show ?thesis using "2.prems" by (simp add: feed_loop_done)
  next
    case ExpectControl
    then have p: "phase s \<noteq> ScpDone" "phase s \<noteq> ReadingData" by auto
    have ok0: "sink_ok (s\<lparr>buf := []\<rparr>)" using "2.prems"(2)
      by (auto simp: sink_ok_def split: option.splits)
    show ?thesis
    proof (cases "b = nl")
      case True
      show ?thesis
      proof (cases "handle_control (buf s) (s\<lparr>buf := []\<rparr>)")
        case (Inl x)
        then show ?thesis using "2.prems" True p ok0 ExpectControl
          by (auto simp: feed_loop.simps(2) Let_def sink_ok_def)
      next
        case (Inr s2)
        have "sink_ok s2 \<and> max_bytes s2 = max_bytes s"
          using handle_control_ok [OF ok0 _ Inr] ExpectControl by simp
        then show ?thesis using "2.IH"(5) [OF p _ _ refl Inr] "2.prems"(1) True p Inr
          by (simp add: feed_loop.simps(2) Let_def)
      qed
    next
      case False
      have "b \<noteq> CHR 0x00 \<Longrightarrow> sink_ok (s\<lparr>buf := buf s @ [b]\<rparr>)"
        using "2.prems"(2) False by (auto simp: sink_ok_def)
      then show ?thesis using "2.IH"(3,4) [OF p] "2.prems" False p
        by (cases "b = CHR 0x00") (simp_all add: feed_loop.simps(2))
    qed
  qed
qed simp

lemma feed_ok: "sink_ok s \<Longrightarrow> sink_ok (fst (feed s bs)) \<and> max_bytes (fst (feed s bs)) = max_bytes s"
proof -
  assume "sink_ok s"
  moreover obtain e s' o' where "feed_loop s bs [] = (e, s', o')" by (metis prod_cases3)
  ultimately show ?thesis using feed_loop_ok [of s bs "[]" e s' o']
    by (cases e) (auto simp: feed_def sink_ok_def)
qed


section \<open>A whole transfer\<close>

text \<open>The harness hands the channel's data to the sink chunk by chunk.\<close>

primrec feed_all :: "scp_sink \<Rightarrow> bytestr list \<Rightarrow> scp_sink \<times> bytestr" where
  "feed_all s [] = (s, [])"
| "feed_all s (c # cs) =
     (let (s1, o1) = feed s c; (s2, o2) = feed_all s1 cs in (s2, o1 @ o2))"

lemma rmatch_four:
  "length m = 4 \<Longrightarrow> \<forall>c\<in>set m. P c \<Longrightarrow> prefix m (ahead p) \<Longrightarrow>
   rmatch (rrep 4 4 (RCls P)) k p = k (skip 4 p)"
proof -
  assume "length m = 4" "\<forall>c\<in>set m. P c" "prefix m (ahead p)"
  then obtain a b c d r where "ahead p = a # b # c # d # r" "P a" "P b" "P c" "P d"
    by (auto simp: prefix_def length_Suc_conv numeral_eq_Suc)
  then show ?thesis by (simp add: numeral_eq_Suc rmatch_cls)
qed

text \<open>The header of an entry is read back: mode, size, name.\<close>

lemma entry_match:
  assumes mode: "length mode = 4" "\<forall>c\<in>set mode. is_octal c"
    and ds: "ds \<noteq> []" "\<forall>c\<in>set ds. is_digit c"
    and nm: "nm \<noteq> []" "\<not> is_byte_space (hd nm)" "nl \<notin> set nm"
  shows "\<exists>q. re_match (entry_re k) (k # mode @ '' '' @ ds @ '' '' @ nm) = Some q \<and>
    group q 1 = mode \<and> group q 2 = ds \<and> group q 3 = nm"
proof -
  let ?sp = "CHR '' ''"
  define p1 where "p1 = skip 1 (start_pos (k # mode @ ?sp # ds @ ?sp # nm))"
  define p2 where "p2 = (skip 4 p1)\<lparr>caps := [(1, mode)]\<rparr>"
  define p3 where "p3 = skip 1 p2"
  define p4 where "p4 = (skip (length ds) p3)\<lparr>caps := [(2, ds), (1, mode)]\<rparr>"
  define p5 where "p5 = skip 1 p4"
  define p6 where "p6 = (skip (length nm) p5)\<lparr>caps := [(3, nm), (2, ds), (1, mode)]\<rparr>"
  have ahead: "ahead p1 = mode @ ?sp # ds @ ?sp # nm" "ahead p2 = ?sp # ds @ ?sp # nm"
      "ahead p3 = ds @ ?sp # nm" "ahead p4 = ?sp # nm" "ahead p5 = nm" "ahead p6 = []"
    using mode(1) by (simp_all add: p1_def p2_def p3_def p4_def p5_def p6_def)
  have caps: "caps p1 = []" "caps p3 = [(1, mode)]" "caps p5 = [(2, ds), (1, mode)]"
    by (simp_all add: p1_def p2_def p3_def p4_def p5_def)
  have sp: "is_byte_space ?sp" "\<not> is_digit ?sp" by (simp_all add: is_byte_space_def is_digit_def)
  have dsp: "\<not> is_byte_space (hd (ds @ ?sp # nm))"
    using ds by (cases ds) (auto simp: is_byte_space_def is_digit_def)
  have nmdot: "\<forall>c\<in>set nm. c \<noteq> nl" using nm(3) by auto
  have name_ok: "rmatch (RGroup 3 (rplus rdot)) (rmatch REos Some) p5 = Some p6"
    unfolding rdot_def
    by (rule group_rplus_run [of _ nm "[]"]) (use nm nmdot in \<open>simp_all add: ahead caps p6_def\<close>)
  have sp2_ok: "rmatch (rplus (RCls is_byte_space)) (rmatch (RGroup 3 (rplus rdot)) (rmatch REos Some)) p4 = Some p6"
    by (rule rplus_run [of _ "[?sp]" nm])
       (use nm sp name_ok p5_def in \<open>simp_all add: ahead del: rmatch.simps(1,3-)\<close>)
  have size_ok: "rmatch (RGroup 2 (rplus rdigit)) (rmatch (rplus (RCls is_byte_space))
      (rmatch (RGroup 3 (rplus rdot)) (rmatch REos Some))) p3 = Some p6"
    unfolding rdigit_def
    by (rule group_rplus_run [of _ ds "?sp # nm"])
       (use ds sp sp2_ok in \<open>simp_all add: ahead caps p4_def del: rmatch.simps(1,3-)\<close>)
  have sp1_ok: "rmatch (rplus (RCls is_byte_space)) (rmatch (RGroup 2 (rplus rdigit)) (rmatch (rplus (RCls is_byte_space))
      (rmatch (RGroup 3 (rplus rdot)) (rmatch REos Some)))) p2 = Some p6"
    by (rule rplus_run [of _ "[?sp]" "ds @ ?sp # nm"])
       (use sp dsp size_ok p3_def in \<open>simp_all add: ahead del: rmatch.simps(1,3-)\<close>)
  have cap1: "capture 1 p1 (skip 4 p1) = p2"
    using mode(1) by (simp add: capture_def p2_def ahead caps)
  have seq: "rmatch (RSeq r t) k = rmatch r (rmatch t k)" for r t and k :: "pos \<Rightarrow> pos option"
    by (rule ext) simp
  have "re_match (entry_re k) (k # mode @ '' '' @ ds @ '' '' @ nm) =
      rmatch (RGroup 1 (rrep 4 4 (RCls is_octal))) (rmatch (rplus (RCls is_byte_space))
        (rmatch (RGroup 2 (rplus rdigit)) (rmatch (rplus (RCls is_byte_space))
        (rmatch (RGroup 3 (rplus rdot)) (rmatch REos Some))))) p1"
    unfolding re_match_def entry_re_def by (simp add: rmatch_cls p1_def seq del: rmatch.simps(3,10))
  also have "\<dots> = Some p6"
    unfolding rmatch.simps(10) [of 1] using cap1 sp1_ok by (simp add: ahead rmatch_four [OF mode])
  finally show ?thesis by (simp add: group_def p6_def)
qed

lemma feed_control_bytes:
  "phase s = ExpectControl \<Longrightarrow> nl \<notin> set w \<Longrightarrow> CHR 0x00 \<notin> set w \<Longrightarrow>
   feed_loop s (w @ bs) out = feed_loop (s\<lparr>buf := buf s @ w\<rparr>) bs out"
  by (induction w arbitrary: s) (auto simp: feed_loop.simps(2))

text \<open>A complete control line is handled and acknowledged.\<close>

lemma feed_control_line:
  "phase s = ExpectControl \<Longrightarrow> buf s = [] \<Longrightarrow> nl \<notin> set w \<Longrightarrow> CHR 0x00 \<notin> set w \<Longrightarrow>
   handle_control w s = Inr s' \<Longrightarrow> feed_loop s (w @ nl # bs) out = feed_loop s' bs (out @ ACK)"
proof -
  assume a: "phase s = ExpectControl" "buf s = []" "nl \<notin> set w" "CHR 0x00 \<notin> set w"
    "handle_control w s = Inr s'"
  have "s\<lparr>buf := []\<rparr> = s" using a(2) by simp
  then have "handle_control w (s\<lparr>buf := []\<rparr>) = Inr s'" using a(5) by metis
  moreover have "feed_loop s (w @ nl # bs) out = feed_loop (s\<lparr>buf := w\<rparr>) (nl # bs) out"
    using feed_control_bytes [OF a(1,3,4), of "nl # bs" out] a(2) by simp
  ultimately show ?thesis using a(1) by (simp add: feed_loop.simps(2) Let_def)
qed

definition c_line :: "bytestr \<Rightarrow> nat \<Rightarrow> bytestr \<Rightarrow> bytestr" where
  "c_line mode n nm = ''C'' @ mode @ '' '' @ str_of_nat n @ '' '' @ nm"

lemma handle_c_line:
  assumes "length mode = 4" "\<forall>c\<in>set mode. is_octal c" "length (str_of_nat n) \<le> 4300" "n > 0"
    "nm \<noteq> []" "\<not> is_byte_space (hd nm)" "nl \<notin> set nm"
  shows "handle_control (c_line mode n nm) s = Inr (s\<lparr>
    cur := Some \<lparr>cap_name = nm, cap_mode = mode, cap_size = n, cap_data = []\<rparr>, remaining := n, phase := ReadingData\<rparr>)"
proof -
  obtain q where q: "re_match C_RE (c_line mode n nm) = Some q"
      "group q 1 = mode" "group q 2 = str_of_nat n" "group q 3 = nm"
    using entry_match [OF assms(1,2) _ str_of_nat_digits assms(5,6,7), of n "CHR ''C''"]
    by (auto simp: C_RE_def c_line_def)
  have "py_int_unsigned (str_of_nat n) = Some n"
    using assms(3) str_of_nat_digits [of n] digits_ok_all_digits [of "str_of_nat n"] nat_of_digits_str_of_nat [of n]
    by (simp add: py_int_unsigned_def filter_id_conv)
  then show ?thesis using q assms(4) by (simp add: handle_control_def c_line_def)
qed

lemma c_line_clean:
  assumes "\<forall>c\<in>set mode. is_octal c" "nl \<notin> set nm" "CHR 0x00 \<notin> set nm"
  shows "nl \<notin> set (c_line mode n nm)" "CHR 0x00 \<notin> set (c_line mode n nm)"
proof -
  have d: "\<not> is_digit nl" "\<not> is_digit (CHR 0x00)" "\<not> is_octal nl" "\<not> is_octal (CHR 0x00)"
    by (simp_all add: is_digit_def is_octal_def)
  then have "nl \<notin> set (str_of_nat n)" "CHR 0x00 \<notin> set (str_of_nat n)" "nl \<notin> set mode" "CHR 0x00 \<notin> set mode"
    using str_of_nat_digits [of n] assms(1) by auto
  then show "nl \<notin> set (c_line mode n nm)" "CHR 0x00 \<notin> set (c_line mode n nm)"
    using assms by (auto simp: c_line_def)
qed

lemma feed_all_concat: "feed_all s chunks = feed s (concat chunks)"
proof -
  have "feed_all s chunks = sink.consume_all s chunks" by (induction chunks arbitrary: s) simp_all
  then show ?thesis by (simp add: sink.consume_all_concat)
qed

lemma transfer_captured:
  assumes "phase s = ExpectControl" "buf s = []" "cur s = None"
    and "length mode = 4" "\<forall>c\<in>set mode. is_octal c"
    and "nm \<noteq> []" "\<not> is_byte_space (hd nm)" "nl \<notin> set nm" "CHR 0x00 \<notin> set nm"
    and "bytes \<noteq> []" "total s + length bytes \<le> max_bytes s" "length (str_of_nat (length bytes)) \<le> 4300"
  shows "feed s (c_line mode (length bytes) nm @ [nl] @ bytes @ [CHR 0x00]) =
    (s\<lparr>sink_files := sink_files s @ [\<lparr>cap_name = nm, cap_mode = mode, cap_size = length bytes, cap_data = bytes\<rparr>],
       remaining := 0, total := total s + length bytes\<rparr>, ACK @ ACK)"
proof -
  let ?f = "\<lparr>cap_name = nm, cap_mode = mode, cap_size = length bytes, cap_data = []\<rparr>"
  let ?s1 = "s\<lparr>cur := Some ?f, remaining := length bytes, phase := ReadingData\<rparr>"
  have hc: "handle_control (c_line mode (length bytes) nm) s = Inr ?s1"
    using assms by (intro handle_c_line) auto
  have "feed_loop s (c_line mode (length bytes) nm @ nl # bytes @ [CHR 0x00]) [] =
      feed_loop ?s1 (bytes @ [CHR 0x00]) ACK"
    using feed_control_line [OF assms(1,2) c_line_clean hc, of "bytes @ [CHR 0x00]" "[]"] assms by simp
  also have "\<dots> = feed_loop (finish_file ((take_data bytes ?s1)\<lparr>remaining := 0\<rparr>)) [CHR 0x00] (ACK @ ACK)"
    using feed_loop_data_ends [of ?s1 bytes "[CHR 0x00]" ACK] assms(10) by simp
  finally show ?thesis using assms(1,3,11)
    by (simp add: feed_def finish_file_def take_data_Some feed_loop.simps(2) min_absorb1)
qed

section \<open>Properties\<close>

text \<open>C20: The channel may deliver an upload in any chunks: feeding the chunks one after the other leaves
  the sink in the same state, and sends the same bytes back, as feeding everything at once.\<close>

theorem scp_chunking_irrelevant: "feed_all s chunks = feed s (concat chunks)"
  by (rule feed_all_concat)

lemma feed_all_ok: "sink_ok s \<Longrightarrow> sink_ok (fst (feed_all s cs)) \<and> max_bytes (fst (feed_all s cs)) = max_bytes s"
proof (induction cs arbitrary: s)
  case (Cons c cs)
  have "sink_ok (fst (feed s c))" "max_bytes (fst (feed s c)) = max_bytes s"
    using feed_ok [OF Cons.prems] by auto
  then show ?case using Cons.IH [of "fst (feed s c)"] by (cases "feed s c"; cases "feed_all (fst (feed s c)) cs") simp
qed simp

text \<open>C21: Whatever an attacker sends, and however it is cut, the sink stays consistent, the captured bytes
  of all files together stay within the ten-mebibyte cap, and no captured file is longer than the size
  its control line announced.\<close>

theorem scp_capture_bounded:
  "let s = fst (feed_all (new_sink path) chunks) in
     sink_ok s \<and> sum_list (map (length \<circ> cap_data) (sink_files s)) \<le> 10 * 1024 * 1024 \<and>
     list_all (\<lambda>f. length (cap_data f) \<le> cap_size f) (sink_files s)"
proof -
  let ?s = "fst (feed_all (new_sink path) chunks)"
  have "sink_ok ?s" "max_bytes ?s = 10 * 1024 * 1024"
    using feed_all_ok [OF sink_ok_new, of path chunks] by (auto simp: new_sink_def)
  then show ?thesis by (auto simp: Let_def sink_ok_def kept_def list_all_iff o_def)
qed

text \<open>A file sent as the protocol prescribes (the control line with mode, size and name, the data, the
  closing zero byte) to an idle sink with room for it is captured byte for byte under its name and mode,
  and is answered by exactly two acknowledgements.\<close>

lemma scp_transfer_captured:
  assumes "phase s = ExpectControl" "buf s = []" "cur s = None"
    and "length mode = 4" "\<forall>c\<in>set mode. is_octal c"
    and "nm \<noteq> []" "\<not> is_byte_space (hd nm)" "nl \<notin> set nm" "CHR 0x00 \<notin> set nm"
    and "bytes \<noteq> []" "total s + length bytes \<le> max_bytes s" "length (str_of_nat (length bytes)) \<le> 4300"
  shows "feed s (c_line mode (length bytes) nm @ [nl] @ bytes @ [CHR 0x00]) =
    (s\<lparr>sink_files := sink_files s @ [\<lparr>cap_name = nm, cap_mode = mode, cap_size = length bytes, cap_data = bytes\<rparr>],
       remaining := 0, total := total s + length bytes\<rparr>, ACK @ ACK)"
  using assms by (rule transfer_captured)


end
