(* ===== verification/Pipefilters.thy ===== *)
theory Pipefilters
  imports Py_Shlex
begin

text \<open>
  \<open>src/cowrie/llm/pipefilters.py\<close>: splitting a simple pipeline and running \<open>head\<close>, \<open>tail\<close>,
  \<open>grep\<close> and \<open>wc\<close> over text that is already there. \<^const>\<open>None\<close> is the module's own \<open>None\<close>:
  the caller defers the whole pipeline. A filter that raises is caught by \<open>apply_filter\<close> and is
  \<^const>\<open>None\<close> as well.

  \<open>grep\<close> hands the attacker's pattern to \<open>re.compile\<close>. The parameter \<open>rc\<close> stands for that call:
  from a pattern and the flag \<open>IGNORECASE\<close> to the search function, or \<^const>\<open>None\<close> for \<open>re.error\<close>.
\<close>

type_synonym re_compile = "string \<Rightarrow> bool \<Rightarrow> (string \<Rightarrow> bool) option"

section \<open>Splitting\<close>

definition PIPE_UNSUPPORTED :: "string list" where
  "PIPE_UNSUPPORTED = ['';'', ''&&'', ''||'', ''>'', ''<'', ''$('', [bquote], [nl]]"

definition MAX_STAGES :: nat where "MAX_STAGES = 4"

definition split_pipeline :: "string \<Rightarrow> string list option" where
  "split_pipeline raw =
     (if raw = [] \<or> \<not> str_in ''|'' raw then Some [raw]
      else if list_ex (\<lambda>p. str_in p raw) PIPE_UNSUPPORTED then None
      else let stages = map py_strip (split_on (CHR ''|'') raw) in
        if length stages > MAX_STAGES then None
        else if list_ex (\<lambda>st. st = []) stages then None
        else Some stages)"

section \<open>Helpers\<close>

definition int_arg :: "string \<Rightarrow> nat option" where
  "int_arg v = (case py_int v of None \<Rightarrow> None | Some i \<Rightarrow> if i \<ge> 0 then Some (nat i) else None)"

definition rebuild :: "string list \<Rightarrow> string" where
  "rebuild ls = (if ls = [] then [] else py_join [nl] ls @ [nl])"

text \<open>\<open>-\d+\<close>.\<close>

definition is_dash_number :: "string \<Rightarrow> bool" where
  "is_dash_number arg \<longleftrightarrow> take 1 arg = ''-'' \<and> drop 1 arg \<noteq> [] \<and> list_all is_digit (drop 1 arg)"

fun count_arg :: "string list \<Rightarrow> nat \<Rightarrow> nat option" where
  "count_arg [] count = Some count"
| "count_arg (arg # rest) count =
     (if arg = ''-n'' then
        (case rest of
           [] \<Rightarrow> None
         | v # rest' \<Rightarrow> (case int_arg v of None \<Rightarrow> None | Some n \<Rightarrow> count_arg rest' n))
      else if startswith arg ''-n'' \<and> length arg > 2 then
        (case int_arg (drop 2 arg) of None \<Rightarrow> None | Some n \<Rightarrow> count_arg rest n)
      else if is_dash_number arg then
        (case py_int_unsigned (drop 1 arg) of None \<Rightarrow> None | Some n \<Rightarrow> count_arg rest n)
      else None)"

section \<open>The filters\<close>

definition head_lines :: "nat \<Rightarrow> string list \<Rightarrow> string list" where
  "head_lines count ls = take count ls"

definition tail_lines :: "nat \<Rightarrow> string list \<Rightarrow> string list" where
  "tail_lines count ls = (if count = 0 then [] else drop (length ls - count) ls)"

definition filter_head :: "string \<Rightarrow> string list \<Rightarrow> string option" where
  "filter_head input args =
     (case count_arg args 10 of None \<Rightarrow> None | Some n \<Rightarrow> Some (rebuild (head_lines n (splitlines input))))"

definition filter_tail :: "string \<Rightarrow> string list \<Rightarrow> string option" where
  "filter_tail input args =
     (case count_arg args 10 of None \<Rightarrow> None | Some n \<Rightarrow> Some (rebuild (tail_lines n (splitlines input))))"

record grep_opts =
  ignore_case :: bool
  invert :: bool
  count_only :: bool
  max_count :: "nat option"
  pattern :: "string option"

definition grep_start :: grep_opts where
  "grep_start = \<lparr>ignore_case = False, invert = False, count_only = False, max_count = None, pattern = None\<rparr>"

fun grep_flags :: "string \<Rightarrow> grep_opts \<Rightarrow> grep_opts option" where
  "grep_flags [] g = Some g"
| "grep_flags (c # cs) g =
     (if c = CHR ''i'' then grep_flags cs (g\<lparr>ignore_case := True\<rparr>)
      else if c = CHR ''v'' then grep_flags cs (g\<lparr>invert := True\<rparr>)
      else if c = CHR ''c'' then grep_flags cs (g\<lparr>count_only := True\<rparr>)
      else None)"

fun grep_args :: "string list \<Rightarrow> grep_opts \<Rightarrow> grep_opts option" where
  "grep_args [] g = Some g"
| "grep_args (arg # rest) g =
     (if arg = ''-m'' then
        (case rest of
           [] \<Rightarrow> None
         | v # rest' \<Rightarrow>
             (case int_arg v of None \<Rightarrow> None | Some n \<Rightarrow> grep_args rest' (g\<lparr>max_count := Some n\<rparr>)))
      else if startswith arg ''-m'' \<and> length arg > 2 then
        (case int_arg (drop 2 arg) of None \<Rightarrow> None | Some n \<Rightarrow> grep_args rest (g\<lparr>max_count := Some n\<rparr>))
      else if startswith arg ''-'' \<and> length arg > 1 \<and> \<not> startswith arg ''--'' then
        (case grep_flags (drop 1 arg) g of None \<Rightarrow> None | Some g' \<Rightarrow> grep_args rest g')
      else if startswith arg ''--'' then None
      else if pattern g \<noteq> None then None
      else grep_args rest (g\<lparr>pattern := Some arg\<rparr>))"

definition grep_lines :: "(string \<Rightarrow> bool) \<Rightarrow> bool \<Rightarrow> nat option \<Rightarrow> string list \<Rightarrow> string list" where
  "grep_lines search invt maxc ls =
     (let matched = filter (\<lambda>l. search l \<noteq> invt) ls in
      case maxc of None \<Rightarrow> matched | Some n \<Rightarrow> take n matched)"

definition filter_grep :: "re_compile \<Rightarrow> string \<Rightarrow> string list \<Rightarrow> string option" where
  "filter_grep rc input args =
     (case grep_args args grep_start of
        None \<Rightarrow> None
      | Some g \<Rightarrow>
          (case pattern g of
             None \<Rightarrow> None
           | Some p \<Rightarrow>
               (case rc p (ignore_case g) of
                  None \<Rightarrow> None
                | Some search \<Rightarrow>
                    let matched = grep_lines search (invert g) (max_count g) (splitlines input) in
                    Some (if count_only g then str_of_nat (length matched) @ [nl] else rebuild matched))))"

fun wc_mode :: "string list \<Rightarrow> string option \<Rightarrow> string option option" where
  "wc_mode [] mode = Some mode"
| "wc_mode (arg # rest) mode =
     (if arg \<in> {''-l'', ''-w'', ''-c''}
      then (if mode \<noteq> None then None else wc_mode rest (Some arg))
      else None)"

definition word_count :: "string list \<Rightarrow> nat" where
  "word_count ls = sum_list (map (\<lambda>l. length (split_ws l)) ls)"

definition filter_wc :: "string \<Rightarrow> string list \<Rightarrow> string option" where
  "filter_wc input args =
     (let ls = splitlines input in
      case wc_mode args None of
        None \<Rightarrow> None
      | Some mode \<Rightarrow>
          Some (if mode = Some ''-l'' then str_of_nat (length ls) @ [nl]
                else if mode = Some ''-w'' then str_of_nat (word_count ls) @ [nl]
                else if mode = Some ''-c'' then str_of_nat (length input) @ [nl]
                else rjust 7 (str_of_nat (length ls)) @ rjust 8 (str_of_nat (word_count ls))
                  @ rjust 8 (str_of_nat (length input)) @ [nl]))"

definition FILTERS :: "string list" where
  "FILTERS = [''head'', ''tail'', ''grep'', ''wc'']"

definition is_filter :: "string \<Rightarrow> bool" where
  "is_filter stage =
     (case shlex_split stage of None \<Rightarrow> False | Some argv \<Rightarrow> argv \<noteq> [] \<and> hd argv \<in> set FILTERS)"

definition apply_filter :: "re_compile \<Rightarrow> string \<Rightarrow> string \<Rightarrow> string option" where
  "apply_filter rc input stage =
     (case shlex_split stage of
        None \<Rightarrow> None
      | Some [] \<Rightarrow> None
      | Some (name # args) \<Rightarrow>
          if name = ''head'' then filter_head input args
          else if name = ''tail'' then filter_tail input args
          else if name = ''grep'' then filter_grep rc input args
          else if name = ''wc'' then filter_wc input args
          else None)"

section \<open>Line selections\<close>

text \<open>
  What \<open>head\<close>, \<open>tail\<close> and \<open>grep\<close> have in common: they keep some of the lines, in order.
  A client that holds text of whole lines can read the result of such a filter line by line.
\<close>

locale line_selection =
  fixes sel :: "string list \<Rightarrow> string list"
  assumes sel_subseq: "subseq (sel ls) ls"
begin

lemma sel_length: "length (sel ls) \<le> length ls"
  using sel_subseq by (rule list_emb_length)

lemma sel_set: "set (sel ls) \<subseteq> set ls"
  using list_emb_set [OF sel_subseq [of ls]] by blast

lemma sel_output: "splitlines (rebuild (sel (splitlines input))) = sel (splitlines input)"
proof -
  have clean: "\<forall>l\<in>set (sel (splitlines input)). \<forall>c\<in>set l. \<not> is_linebreak c"
    using sel_set [of "splitlines input"] splitlines_clean by blast
  then show ?thesis using splitlines_concat [OF clean] join_nl_concat [of "sel (splitlines input)"]
    by (cases "sel (splitlines input) = []") (simp_all add: rebuild_def splitlines_def)
qed

end

text \<open>Running one selection after another is a selection.\<close>

locale two_selections = fst_sel: line_selection sel1 + snd_sel: line_selection sel2
  for sel1 :: "string list \<Rightarrow> string list" and sel2 :: "string list \<Rightarrow> string list"
begin

lemma composed: "subseq (sel2 (sel1 ls)) ls"
  using subseq_order.trans [OF snd_sel.sel_subseq fst_sel.sel_subseq] .

end

sublocale two_selections \<subseteq> both: line_selection "\<lambda>ls. sel2 (sel1 ls)"
  by unfold_locales (rule composed)

lemma subseq_take: "subseq (take n xs) xs"
  by (rule prefix_imp_subseq [OF take_is_prefix])

lemma subseq_drop: "subseq (drop n xs) xs"
  by (metis suffix_drop suffix_imp_subseq)

interpretation head: line_selection "head_lines n" for n
  by unfold_locales (simp add: head_lines_def subseq_take)

interpretation tail: line_selection "tail_lines n" for n
  by unfold_locales (simp add: tail_lines_def subseq_drop)

interpretation grep: line_selection "grep_lines search invt maxc" for search invt maxc
proof
  fix ls
  have f: "subseq (filter (\<lambda>l. search l \<noteq> invt) ls) ls" by (rule subseq_filter_left)
  show "subseq (grep_lines search invt maxc ls) ls"
    using f subseq_order.trans [OF subseq_take f] by (cases maxc) (simp_all add: grep_lines_def Let_def)
qed

interpretation grep_head: two_selections "grep_lines search invt maxc" "head_lines n" for search invt maxc n
  by unfold_locales

section \<open>Stages as text\<close>

lemma digits_plain: "\<forall>c\<in>set (str_of_nat n). lex_plain c"
  using str_of_nat_digits [of n]
  by (auto simp: lex_plain_def lex_space_def lex_quote_def is_digit_def)

lemma int_arg_str [simp]: "length (str_of_nat n) \<le> 4300 \<Longrightarrow> int_arg (str_of_nat n) = Some n"
  by (simp add: int_arg_def py_int_str_of_nat)

lemma shlex_words3:
  assumes "\<forall>c\<in>set w. lex_plain c" "w \<noteq> []"
  shows "shlex_split (''head -n '' @ w) = Some [''head'', ''-n'', w]"
    "shlex_split (''tail -n '' @ w) = Some [''tail'', ''-n'', w]"
    "shlex_split (''grep -c '' @ w) = Some [''grep'', ''-c'', w]"
    "shlex_split (''grep -vc '' @ w) = Some [''grep'', ''-vc'', w]"
  using assms shlex_split_words [of "[''head'', ''-n'', w]"] shlex_split_words [of "[''tail'', ''-n'', w]"]
    shlex_split_words [of "[''grep'', ''-c'', w]"] shlex_split_words [of "[''grep'', ''-vc'', w]"]
  by (simp_all add: lex_plain_def lex_space_def lex_quote_def)

lemma apply_head:
  "length (str_of_nat n) \<le> 4300 \<Longrightarrow>
   apply_filter rc input (''head -n '' @ str_of_nat n) = Some (rebuild (head_lines n (splitlines input)))"
  using shlex_words3(1) [OF digits_plain, of n] by (simp add: apply_filter_def filter_head_def)

lemma apply_tail:
  "length (str_of_nat n) \<le> 4300 \<Longrightarrow>
   apply_filter rc input (''tail -n '' @ str_of_nat n) = Some (rebuild (tail_lines n (splitlines input)))"
  using shlex_words3(2) [OF digits_plain, of n] by (simp add: apply_filter_def filter_tail_def)

lemma apply_grep_count:
  assumes "w \<noteq> []" "\<forall>c\<in>set w. lex_plain c" "hd w \<noteq> CHR ''-''" "rc w False = Some search"
  shows "apply_filter rc input (''grep -c '' @ w) =
      Some (str_of_nat (length (filter search (splitlines input))) @ [nl])"
    "apply_filter rc input (''grep -vc '' @ w) =
      Some (str_of_nat (length (filter (\<lambda>l. \<not> search l) (splitlines input))) @ [nl])"
proof -
  have "\<not> prefix ''-'' w" "w \<noteq> ''-m''" "\<not> prefix ''-m'' w" "\<not> prefix ''--'' w" using assms(1,3) by (cases w; simp)+
  then have "grep_args [''-c'', w] grep_start = Some (grep_start\<lparr>count_only := True, pattern := Some w\<rparr>)"
    "grep_args [''-vc'', w] grep_start = Some (grep_start\<lparr>invert := True, count_only := True, pattern := Some w\<rparr>)"
    by (simp_all add: grep_start_def)
  then show "apply_filter rc input (''grep -c '' @ w) =
      Some (str_of_nat (length (filter search (splitlines input))) @ [nl])"
    "apply_filter rc input (''grep -vc '' @ w) =
      Some (str_of_nat (length (filter (\<lambda>l. \<not> search l) (splitlines input))) @ [nl])"
    using shlex_words3(3,4) [OF assms(2,1)] assms(4)
    by (simp_all add: apply_filter_def filter_grep_def grep_start_def grep_lines_def)
qed

section \<open>Properties\<close>

text \<open>\<open>head -n k\<close> and \<open>tail -n (total - k)\<close> over the same text cut it in two: the lines of the first
  output followed by the lines of the second are the lines of the text.\<close>

lemma head_tail_partition:
  assumes "k + m = length (splitlines input)" "length (str_of_nat k) \<le> 4300" "length (str_of_nat m) \<le> 4300"
  shows "\<exists>h t. apply_filter rc input (''head -n '' @ str_of_nat k) = Some h \<and>
     apply_filter rc input (''tail -n '' @ str_of_nat m) = Some t \<and>
     splitlines h @ splitlines t = splitlines input"
proof -
  have "head_lines k (splitlines input) @ tail_lines m (splitlines input) = splitlines input"
    using assms(1) by (cases "m = 0") (simp_all add: head_lines_def tail_lines_def flip: assms(1))
  then have "splitlines (rebuild (head_lines k (splitlines input))) @
      splitlines (rebuild (tail_lines m (splitlines input))) = splitlines input"
    by (simp only: head.sel_output tail.sel_output)
  then show ?thesis using apply_head [OF assms(2), of rc input] apply_tail [OF assms(3), of rc input] by blast
qed


text \<open>\<open>grep -c\<close> and \<open>grep -vc\<close> with the same pattern count every line once: their counts add up to what
  \<open>wc -l\<close> prints, whatever the regular-expression engine makes of the pattern.\<close>

lemma grep_count_partition:
  assumes "w \<noteq> []" "\<forall>c\<in>set w. lex_plain c" "hd w \<noteq> CHR ''-''" "rc w False \<noteq> None"
  shows "\<exists>a b. apply_filter rc input (''grep -c '' @ w) = Some (str_of_nat a @ [nl]) \<and>
     apply_filter rc input (''grep -vc '' @ w) = Some (str_of_nat b @ [nl]) \<and>
     apply_filter rc input ''wc -l'' = Some (str_of_nat (a + b) @ [nl])"
proof -
  obtain search where s: "rc w False = Some search" using assms(4) by auto
  have "shlex_split ''wc -l'' = Some [''wc'', ''-l'']"
    by (simp add: shlex_split_def lex_space_def lex_quote_def lex_emit_def)
  then have wc: "apply_filter rc input ''wc -l'' = Some (str_of_nat (length (splitlines input)) @ [nl])"
    by (simp add: apply_filter_def filter_wc_def)
  show ?thesis
    using apply_grep_count [where rc = rc and search = search, OF assms(1-3) s, of input] wc
      sum_length_filter_compl [of search "splitlines input"]
    by (intro exI [of _ "length (filter search (splitlines input))"]
        exI [of _ "length (filter (\<lambda>l. \<not> search l) (splitlines input))"]) simp
qed

text \<open>Every modelled filter keeps the output contract of the responder: its result is empty or ends
  with a line feed.\<close>

lemma apply_filter_newline:
  assumes "apply_filter rc input stage = Some out"
  shows "out = [] \<or> last out = nl"
proof -
  have r: "rebuild ls = [] \<or> last (rebuild ls) = nl" for ls by (simp add: rebuild_def)
  from assms show ?thesis
    by (auto simp: apply_filter_def filter_head_def filter_tail_def filter_grep_def filter_wc_def Let_def
        rebuild_def split: option.splits list.splits if_splits)
qed


text \<open>Characters that are neither a pipe nor one of the operators the module defers on.\<close>

definition pipe_plain :: "char \<Rightarrow> bool" where
  "pipe_plain c \<longleftrightarrow> c \<notin> set ''|;&><$'' \<and> c \<noteq> bquote \<and> c \<noteq> nl"

lemma pipe_unsupported_absent:
  "\<forall>c\<in>set raw. c \<notin> set '';&><$'' \<and> c \<noteq> bquote \<and> c \<noteq> nl \<Longrightarrow> \<not> str_in ''||'' raw \<Longrightarrow>
   \<not> list_ex (\<lambda>p. str_in p raw) PIPE_UNSUPPORTED"
proof -
  assume a: "\<forall>c\<in>set raw. c \<notin> set '';&><$'' \<and> c \<noteq> bquote \<and> c \<noteq> nl" "\<not> str_in ''||'' raw"
  have "\<not> str_in (c # p) raw" if "c \<notin> set raw" for c p
    using that by (auto simp: str_in_decomp)
  then show ?thesis using a by (auto simp: PIPE_UNSUPPORTED_def)
qed


lemma split_on_render:
  "stages \<noteq> [] \<Longrightarrow> \<forall>st\<in>set stages. CHR ''|'' \<notin> set st \<and> st \<noteq> [] \<and> py_strip st = st \<Longrightarrow>
   map py_strip (split_on (CHR ''|'') (py_join '' | '' stages)) = stages"
proof (induction stages rule: induct_list012)
  case (2 st)
  then show ?case by (simp add: split_on_no_sep)
next
  case (3 st t stages)
  let ?rest = "py_join '' | '' (t # stages)"
  have sp: "is_space (CHR '' '')" by (simp add: is_space_def)
  have "split_on (CHR ''|'') (py_join '' | '' (st # t # stages)) =
      (st @ '' '') # split_on (CHR ''|'') (CHR '' '' # ?rest)"
    using split_on_append [of "CHR ''|''" "st @ '' ''" "CHR '' '' # ?rest"] 3(4) by simp
  moreover have "map py_strip (split_on (CHR ''|'') (CHR '' '' # ?rest)) =
      map py_strip (split_on (CHR ''|'') ?rest)"
    by (cases "split_on (CHR ''|'') ?rest") (simp_all add: strip_by_Cons [of is_space, OF sp])
  ultimately show ?case using 3(2,4) strip_by_snoc [of is_space, OF sp, of st] by simp
qed simp

lemma no_double_pipe:
  "\<forall>st\<in>set stages. CHR ''|'' \<notin> set st \<Longrightarrow> \<not> str_in ''||'' (py_join '' | '' stages)"
proof (induction stages rule: induct_list012)
  case (3 x y zs)
  have skip: "CHR ''|'' \<notin> set u \<Longrightarrow> str_in ''||'' (u @ v) \<longleftrightarrow> str_in ''||'' v" for u v
    by (induction u) auto
  show ?case using 3 skip [of x] by simp
qed (auto simp: str_in_decomp)

text \<open>A pipeline of two to four stages, each a stripped non-empty command free of the operators the
  module defers on, is split back into exactly its stages.\<close>

lemma split_pipeline_render:
  assumes "2 \<le> length stages" "length stages \<le> 4"
    and "\<forall>st\<in>set stages. st \<noteq> [] \<and> py_strip st = st \<and> (\<forall>c\<in>set st. pipe_plain c)"
  shows "split_pipeline (py_join '' | '' stages) = Some stages"
proof -
  let ?raw = "py_join '' | '' stages"
  obtain x y zs where st: "stages = x # y # zs" using assms(1)
    by (metis One_nat_def Suc_1 Suc_le_length_iff)
  have nopipe: "\<forall>st\<in>set stages. CHR ''|'' \<notin> set st" using assms(3) by (auto simp: pipe_plain_def)
  have "\<forall>c\<in>set ?raw. c \<notin> set '';&><$'' \<and> c \<noteq> bquote \<and> c \<noteq> nl"
    using set_py_join [of "'' | ''" stages] assms(3) by (fastforce simp: pipe_plain_def)
  then have "\<not> list_ex (\<lambda>p. str_in p ?raw) PIPE_UNSUPPORTED"
    by (rule pipe_unsupported_absent [OF _ no_double_pipe [OF nopipe]])
  moreover have "?raw \<noteq> []" "str_in ''|'' ?raw" by (simp_all add: st str_in_single)
  moreover have "map py_strip (split_on (CHR ''|'') ?raw) = stages"
    using assms nopipe by (intro split_on_render) auto
  moreover have "\<not> list_ex (\<lambda>st. st = []) stages" using assms(3) by (auto simp: list_ex_iff)
  ultimately show ?thesis using assms(2) by (simp add: split_pipeline_def MAX_STAGES_def)
qed


end
