(* ===== verification/Cmd_Parser.thy ===== *)
theory Cmd_Parser
  imports Py_Shlex Py_Regex
begin

text \<open>
  \<open>src/cowrie/llm/cmd_parser.py\<close>: the changes a command line makes to the session's world,
  read off the attacker's input.
\<close>

section \<open>Mutations\<close>

datatype mutation_kind =
  CreateFile | AppendFile | RemoveFile | MoveFile | CopyFile | SetEnv | PushUser | PopUser | AddProcess

record cmd_mutation =
  kind :: mutation_kind
  mut_path :: "string option"
  dst_path :: "string option"
  mut_content :: "string option"
  env_name :: "string option"
  env_value :: "string option"
  mut_user :: "string option"
  proc_command :: "string option"

definition CmdMutation :: "mutation_kind \<Rightarrow> cmd_mutation" where
  "CmdMutation k = \<lparr>kind = k, mut_path = None, dst_path = None, mut_content = None, env_name = None,
     env_value = None, mut_user = None, proc_command = None\<rparr>"

section \<open>Patterns\<close>

definition ECHO_REDIRECT_RE :: regex where
  "ECHO_REDIRECT_RE = rseq [RBos, RStar rspace, rlit ''echo'', rplus rspace, RGroup 1 (RLazy rdot), RStar rspace,
     RGroup 2 (RSeq (RCls (\<lambda>c. c = CHR ''>'')) (ropt (RCls (\<lambda>c. c = CHR ''>'')))), RStar rspace,
     RGroup 3 (rplus rnonspace), RStar rspace, REos]"

definition args_re :: "string \<Rightarrow> regex" where
  "args_re kw = rseq [RBos, RStar rspace, rlit kw, rplus rspace, RGroup 1 (RStar rdot), REos]"

definition TOUCH_RE :: regex where "TOUCH_RE = args_re ''touch''"
definition RM_RE :: regex where "RM_RE = args_re ''rm''"
definition CP_RE :: regex where "CP_RE = args_re ''cp''"
definition MV_RE :: regex where "MV_RE = args_re ''mv''"

definition EXPORT_RE :: regex where
  "EXPORT_RE = rseq [RBos, RStar rspace, rlit ''export'', rplus rspace,
     RGroup 1 (rseq [rplus rnonspace, RCls (\<lambda>c. c = CHR ''=''), RStar rdot]), REos]"

definition name_start :: "char \<Rightarrow> bool" where
  "name_start c \<longleftrightarrow> is_upper c \<or> is_lower c \<or> c = CHR ''_''"

definition name_char :: "char \<Rightarrow> bool" where
  "name_char c \<longleftrightarrow> name_start c \<or> is_digit c"

definition BARE_ASSIGN_RE :: regex where
  "BARE_ASSIGN_RE = rseq [RBos, RStar rspace, RGroup 1 (RSeq (RCls name_start) (RStar (RCls name_char))),
     RCls (\<lambda>c. c = CHR ''=''), RGroup 2 (RStar rdot), REos]"

section \<open>Helpers\<close>

definition strip_quotes :: "string \<Rightarrow> string" where
  "strip_quotes s =
     (case shlex_split s of
        None \<Rightarrow> s
      | Some parts \<Rightarrow> if length parts = 1 then hd parts else py_join '' '' parts)"

fun first_separator :: "string list \<Rightarrow> string \<Rightarrow> string" where
  "first_separator [] line = line"
| "first_separator (sep # seps) line =
     (case str_find sep line of Some i \<Rightarrow> take i line | None \<Rightarrow> first_separator seps line)"

definition split_first_command :: "string \<Rightarrow> string" where
  "split_first_command line = first_separator ['';'', ''&&'', ''||'', ''|'', [nl]] line"

abbreviation tokens :: "string \<Rightarrow> string list" where "tokens \<equiv> shlex_or_split"

definition is_flag :: "string \<Rightarrow> bool" where "is_flag a \<longleftrightarrow> startswith a ''-''"

definition parse_background :: "string \<Rightarrow> cmd_mutation option" where
  "parse_background line =
     (let stripped = py_rstrip line in
      if \<not> endswith stripped ''&'' \<or> endswith stripped ''&&'' then None
      else let cmd = py_strip (butlast stripped) in
        if cmd = [] then None
        else let cmd' = (if startswith cmd ''nohup '' then py_strip (drop 6 cmd) else cmd) in
          if cmd' = [] then None
          else Some ((CmdMutation AddProcess)\<lparr>proc_command := Some cmd'\<rparr>))"

definition first_user :: "string \<Rightarrow> string list \<Rightarrow> string" where
  "first_user dflt toks = (case List.find (\<lambda>t. \<not> (t = ''-'' \<or> startswith t ''-'')) toks of
     Some t \<Rightarrow> t | None \<Rightarrow> dflt)"

text \<open>The loop over the arguments of \<open>sudo\<close>: the target user, and whether a shell results.\<close>

fun sudo_scan :: "string list \<Rightarrow> string \<Rightarrow> bool \<Rightarrow> string \<times> bool" where
  "sudo_scan [] target shell = (target, shell)"
| "sudo_scan (t # rest) target shell =
     (if t \<in> {''-u'', ''--user''} \<and> rest \<noteq> [] then sudo_scan (tl rest) (hd rest) shell
      else if t \<in> {''-i'', ''--login'', ''-s'', ''--shell''} then sudo_scan rest target True
      else if startswith t ''-'' then sudo_scan rest target shell
      else if t = ''su'' then (first_user target rest, True)
      else (target, shell))"

definition push_mutation :: "string \<Rightarrow> cmd_mutation" where
  "push_mutation u = (CmdMutation PushUser)\<lparr>mut_user := Some u\<rparr>"

definition parse_user_switch :: "string \<Rightarrow> cmd_mutation option" where
  "parse_user_switch head =
     (case shlex_split head of
        None \<Rightarrow> None
      | Some [] \<Rightarrow> None
      | Some (t # toks) \<Rightarrow>
          if t = ''su'' then Some (push_mutation (first_user ''root'' toks))
          else if t = ''sudo'' then
            (case sudo_scan toks ''root'' False of
               (target, True) \<Rightarrow> Some (push_mutation target)
             | (_, False) \<Rightarrow> None)
          else None)"

section \<open>The parser\<close>

definition set_env_mutation :: "pos \<Rightarrow> cmd_mutation" where
  "set_env_mutation m = (CmdMutation SetEnv)\<lparr>env_name := Some (group m 1), env_value := Some (strip_quotes (group m 2))\<rparr>"

definition two_path_mutations :: "mutation_kind \<Rightarrow> string \<Rightarrow> cmd_mutation list" where
  "two_path_mutations k args =
     (let positional = filter (\<lambda>a. \<not> is_flag a) (tokens args) in
      if length positional \<ge> 2
      then [(CmdMutation k)\<lparr>mut_path := Some (hd positional), dst_path := Some (last positional)\<rparr>] else [])"

definition head_mutations :: "string \<Rightarrow> cmd_mutation list" where
  "head_mutations head =
     (case re_match ECHO_REDIRECT_RE head of
        Some m \<Rightarrow>
          [(CmdMutation (if group m 2 = ''>>'' then AppendFile else CreateFile))\<lparr>
             mut_path := Some (strip_by (\<lambda>c. c = squote \<or> c = dquote) (group m 3)),
             mut_content := Some (strip_quotes (group m 1))\<rparr>]
      | None \<Rightarrow>
     (case re_match TOUCH_RE head of
        Some m \<Rightarrow> map (\<lambda>a. (CmdMutation CreateFile)\<lparr>mut_path := Some a, mut_content := Some []\<rparr>)
          (filter (\<lambda>a. \<not> is_flag a) (tokens (group m 1)))
      | None \<Rightarrow>
     (case re_match RM_RE head of
        Some m \<Rightarrow> map (\<lambda>a. (CmdMutation RemoveFile)\<lparr>mut_path := Some a\<rparr>)
          (filter (\<lambda>a. \<not> is_flag a) (tokens (group m 1)))
      | None \<Rightarrow>
     (case re_match CP_RE head of
        Some m \<Rightarrow> two_path_mutations CopyFile (group m 1)
      | None \<Rightarrow>
     (case re_match MV_RE head of
        Some m \<Rightarrow> two_path_mutations MoveFile (group m 1)
      | None \<Rightarrow>
     (case re_match EXPORT_RE head of
        Some m \<Rightarrow>
          (case re_match BARE_ASSIGN_RE (group m 1) of Some a \<Rightarrow> [set_env_mutation a] | None \<Rightarrow> [])
      | None \<Rightarrow>
     (case re_match BARE_ASSIGN_RE head of
        Some a \<Rightarrow> if length (split_ws head) = 1 then [set_env_mutation a] else []
      | None \<Rightarrow> [])))))))"

definition parse_input_mutations :: "string \<Rightarrow> cmd_mutation list" where
  "parse_input_mutations line =
     (case parse_background line of
        Some bg \<Rightarrow> [bg]
      | None \<Rightarrow>
          let head = py_strip (split_first_command line) in
          if head = [] then []
          else (case parse_user_switch head of
              Some sw \<Rightarrow> [sw]
            | None \<Rightarrow> head_mutations head))"

section \<open>Lines without separators\<close>

definition cmd_plain :: "char \<Rightarrow> bool" where
  "cmd_plain c \<longleftrightarrow> c \<notin> set '';&|'' \<and> c \<noteq> nl"

lemma str_find_absent: "c \<notin> set s \<Longrightarrow> str_find (c # p) s = None"
  by (auto simp: str_find_None str_in_decomp)

lemma first_command_plain: "\<forall>c\<in>set line. cmd_plain c \<Longrightarrow> split_first_command line = line"
  unfolding split_first_command_def first_separator.simps
  by (subst str_find_absent, force simp: cmd_plain_def)+ simp

lemma background_plain: "CHR ''&'' \<notin> set line \<Longrightarrow> parse_background line = None"
proof -
  assume "CHR ''&'' \<notin> set line"
  moreover have "set (py_rstrip line) \<subseteq> set line"
    using rstrip_by_prefix set_mono_prefix by blast
  ultimately have "\<not> endswith (py_rstrip line) ''&''" by (auto simp: suffix_def)
  then show ?thesis by (simp add: parse_background_def)
qed

text \<open>On a stripped line without separators only the command itself decides.\<close>

lemma parse_plain:
  assumes "line \<noteq> []" "py_strip line = line" "\<forall>c\<in>set line. cmd_plain c"
  shows "parse_input_mutations line =
    (case parse_user_switch line of Some sw \<Rightarrow> [sw] | None \<Rightarrow> head_mutations line)"
proof -
  have "CHR ''&'' \<notin> set line" using assms(3) by (auto simp: cmd_plain_def)
  then show ?thesis
    using assms by (simp add: parse_input_mutations_def background_plain first_command_plain)
qed

text \<open>A pattern that starts with a keyword fails on a line that starts with something else.\<close>

lemma keyword_fails:
  assumes "s \<noteq> []" "\<not> is_space (hd s)" "\<not> prefix kw s"
  shows "rmatch (RSeq RBos (RSeq (RStar rspace) (RSeq (rlit kw) r))) k (start_pos s) = None"
proof -
  have "takeWhile is_space s = []" using assms(1,2) by (cases s) auto
  then have "rmatch (RStar (RCls is_space)) (rmatch (RSeq (rlit kw) r) k) (start_pos s) = None"
    using assms(3) by (intro star_cls_none) (simp add: rmatch_lit)
  then show ?thesis by (simp add: rspace_def del: rmatch.simps(5))
qed

lemma args_re_fails:
  "s \<noteq> [] \<Longrightarrow> \<not> is_space (hd s) \<Longrightarrow> \<not> prefix kw s \<Longrightarrow> re_match (args_re kw) s = None"
  unfolding re_match_def args_re_def rseq.simps by (rule keyword_fails)

lemma echo_re_fails:
  "s \<noteq> [] \<Longrightarrow> \<not> is_space (hd s) \<Longrightarrow> \<not> prefix ''echo'' s \<Longrightarrow> re_match ECHO_REDIRECT_RE s = None"
  unfolding re_match_def ECHO_REDIRECT_RE_def rseq.simps by (rule keyword_fails)

text \<open>The arguments of a command line with arguments are what follows the space.\<close>

lemma args_re_matches:
  assumes "\<not> is_space (hd kw)" "kw \<noteq> []" "args \<noteq> []" "\<not> is_space (hd args)" "nl \<notin> set args"
  shows "\<exists>m. re_match (args_re kw) (kw @ '' '' @ args) = Some m \<and> group m 1 = args"
proof -
  let ?p0 = "start_pos (kw @ '' '' @ args)"
  define p1 where "p1 = skip (length kw) ?p0"
  define p2 where "p2 = skip 1 p1"
  define p3 where "p3 = (skip (length args) p2)\<lparr>caps := [(1, args)]\<rparr>"
  have ahead: "ahead p1 = CHR '' '' # args" "ahead p2 = args" "ahead p3 = []" "caps p2 = []"
    by (simp_all add: p1_def p2_def p3_def)
  have dots: "\<forall>c\<in>set args. c \<noteq> nl" using assms(5) by auto
  have "rmatch (RStar (RCls (\<lambda>c. c \<noteq> nl))) (\<lambda>q. rmatch REos Some (capture 1 p2 q)) p2 = Some p3"
    by (rule star_run [of _ args "[]"]) (use dots in \<open>simp_all add: ahead capture_def p3_def\<close>)
  then have 3: "rmatch (RSeq (RGroup 1 (RStar rdot)) REos) Some p2 = Some p3"
    by (simp add: rdot_def del: rmatch.simps(5,8))
  have 2: "rmatch (rplus (RCls is_space)) (rmatch (RSeq (RGroup 1 (RStar rdot)) REos) Some) p1 = Some p3"
    by (rule rplus_run [of _ "'' ''" args])
       (use assms 3 in \<open>simp_all add: ahead is_space_def p2_def del: rmatch.simps(1,3-)\<close>)
  have "rmatch (RStar (RCls is_space)) (rmatch (RSeq (rlit kw) (RSeq (rplus rspace) (RSeq (RGroup 1 (RStar rdot)) REos))) Some)
      ?p0 = Some p3"
    by (rule star_run [of _ "[]" "kw @ '' '' @ args"])
       (use assms 2 in \<open>simp_all add: rmatch_lit rspace_def p1_def del: rmatch.simps(1,4-)\<close>)
  then have "re_match (args_re kw) (kw @ '' '' @ args) = Some p3"
    unfolding re_match_def args_re_def rseq.simps by (simp add: rspace_def del: rmatch.simps(5))
  then show ?thesis by (auto simp: group_def p3_def)
qed

section \<open>Commands over plain words\<close>

text \<open>A word with no meaning to the lexer or to the separators.\<close>

definition plain_word :: "string \<Rightarrow> bool" where
  "plain_word w \<longleftrightarrow> w \<noteq> [] \<and> (\<forall>c\<in>set w. lex_plain c \<and> cmd_plain c \<and> \<not> is_space c)"

lemma join_words_props:
  assumes "ws \<noteq> []" "\<forall>w\<in>set ws. plain_word w"
  shows "py_join '' '' ws \<noteq> []" "\<not> is_space (hd (py_join '' '' ws))" "py_strip (py_join '' '' ws) = py_join '' '' ws"
    "\<forall>c\<in>set (py_join '' '' ws). cmd_plain c" "shlex_split (py_join '' '' ws) = Some ws"
proof -
  obtain w ws' where ws: "ws = w # ws'" using assms(1) by (cases ws) auto
  obtain v z where vz: "ws = v @ [z]" using assms(1) by (cases ws rule: rev_cases) auto
  have w: "w \<noteq> []" "\<not> is_space (hd w)" using assms(2) ws by (auto simp: plain_word_def)
  have z: "z \<noteq> []" "\<not> is_space (last z)" using assms(2) vz by (auto simp: plain_word_def)
  have h: "py_join '' '' ws = w @ (if ws' = [] then [] else '' '' @ py_join '' '' ws')"
    by (simp add: ws py_join_Cons)
  have l: "py_join '' '' ws = (if v = [] then [] else py_join '' '' v @ '' '') @ z"
    by (simp add: vz py_join_append)
  show 1: "py_join '' '' ws \<noteq> []" and 2: "\<not> is_space (hd (py_join '' '' ws))" using h w by auto
  have "\<not> is_space (last (py_join '' '' ws))" using l z by auto
  then show "py_strip (py_join '' '' ws) = py_join '' '' ws" using 1 2 by (simp add: strip_by_id)
  show "\<forall>c\<in>set (py_join '' '' ws). cmd_plain c"
    using set_py_join [of "'' ''" ws] assms(2) by (auto simp: plain_word_def cmd_plain_def)
  show "shlex_split (py_join '' '' ws) = Some ws"
    using assms(2) by (intro shlex_split_words) (auto simp: plain_word_def)
qed

lemma parse_words:
  assumes "kw \<noteq> ''su''" "kw \<noteq> ''sudo''" "plain_word kw" "\<forall>w\<in>set ws. plain_word w"
  shows "parse_input_mutations (py_join '' '' (kw # ws)) = head_mutations (py_join '' '' (kw # ws))"
proof -
  note j = join_words_props [of "kw # ws"]
  have "parse_user_switch (py_join '' '' (kw # ws)) = None"
    using j(5) assms by (simp add: parse_user_switch_def)
  then show ?thesis using parse_plain [OF j(1,3,4)] assms by simp
qed

lemma args_re_words:
  assumes "plain_word kw" "ws \<noteq> []" "\<forall>w\<in>set ws. plain_word w"
  obtains m where "re_match (args_re kw) (py_join '' '' (kw # ws)) = Some m" "tokens (group m 1) = ws"
proof -
  note j = join_words_props [OF assms(2,3)]
  have "\<not> is_space (hd kw)" "kw \<noteq> []" using assms(1) by (auto simp: plain_word_def)
  moreover have "nl \<notin> set (py_join '' '' ws)" using j(4) by (auto simp: cmd_plain_def)
  ultimately obtain m where "re_match (args_re kw) (kw @ '' '' @ py_join '' '' ws) = Some m"
      "group m 1 = py_join '' '' ws"
    using args_re_matches [of kw "py_join '' '' ws"] j by blast
  then show ?thesis using that j(5) assms(2) by (simp add: py_join_Cons shlex_or_split_def)
qed

lemma plain_keywords:
  "plain_word ''touch''" "plain_word ''rm''" "plain_word ''cp''" "plain_word ''mv''" "plain_word ''su''" "plain_word ''sudo''"
  by (simp_all add: plain_word_def lex_plain_def cmd_plain_def is_space_def lex_space_def lex_quote_def)

section \<open>Properties\<close>

text \<open>\<open>touch\<close> on plain file names yields, in order, the creation of each of them as an empty file, and
  nothing else.\<close>

lemma parse_touch:
  assumes "ws \<noteq> []" "\<forall>w\<in>set ws. plain_word w \<and> \<not> is_flag w"
  shows "parse_input_mutations (py_join '' '' (''touch'' # ws)) =
    map (\<lambda>w. (CmdMutation CreateFile)\<lparr>mut_path := Some w, mut_content := Some []\<rparr>) ws"
proof -
  let ?line = "py_join '' '' (''touch'' # ws)"
  have ws: "\<forall>w\<in>set ws. plain_word w" "filter (\<lambda>a. \<not> is_flag a) ws = ws" using assms(2) by auto
  obtain m where m: "re_match (args_re ''touch'') ?line = Some m" "tokens (group m 1) = ws"
    using args_re_words [OF plain_keywords(1) assms(1) ws(1)] by blast
  have "re_match ECHO_REDIRECT_RE ?line = None"
    using assms(1) by (intro echo_re_fails) (simp_all add: py_join_Cons is_space_def)
  then show ?thesis using parse_words [OF _ _ plain_keywords(1) ws(1)] m ws(2)
    by (simp add: head_mutations_def TOUCH_RE_def)
qed

text \<open>\<open>cp\<close> and \<open>mv\<close> on plain words, with any flags among them, yield one mutation, from the first to the
  last operand, as soon as there are two operands.\<close>

lemma parse_copy_move:
  assumes "\<forall>w\<in>set ws. plain_word w" "length (filter (\<lambda>w. \<not> is_flag w) ws) \<ge> 2"
    and "(kw, k) \<in> {(''cp'', CopyFile), (''mv'', MoveFile)}"
  shows "parse_input_mutations (py_join '' '' (kw # ws)) =
    [(CmdMutation k)\<lparr>mut_path := Some (hd (filter (\<lambda>w. \<not> is_flag w) ws)),
       dst_path := Some (last (filter (\<lambda>w. \<not> is_flag w) ws))\<rparr>]"
proof -
  let ?line = "py_join '' '' (kw # ws)"
  have ne: "ws \<noteq> []" using assms(2) by auto
  have kw: "plain_word kw" "kw \<noteq> ''su''" "kw \<noteq> ''sudo''" "kw = ''cp'' \<or> kw = ''mv''"
    using assms(3) plain_keywords by auto
  obtain m where m: "re_match (args_re kw) ?line = Some m" "tokens (group m 1) = ws"
    using args_re_words [OF kw(1) ne assms(1)] by blast
  have "re_match ECHO_REDIRECT_RE ?line = None"
    using kw(4) ne by (intro echo_re_fails) (auto simp: py_join_Cons is_space_def)
  moreover have "re_match (args_re ''touch'') ?line = None" "re_match (args_re ''rm'') ?line = None"
    using kw(4) ne by (auto simp: py_join_Cons is_space_def intro!: args_re_fails)
  moreover have "kw = ''mv'' \<Longrightarrow> re_match (args_re ''cp'') ?line = None"
    using ne by (auto simp: py_join_Cons is_space_def intro!: args_re_fails)
  ultimately show ?thesis using parse_words [OF kw(2,3,1) assms(1)] m assms(2,3)
    by (auto simp: head_mutations_def TOUCH_RE_def RM_RE_def CP_RE_def MV_RE_def two_path_mutations_def Let_def)
qed


section \<open>Redirected echo\<close>

definition redirect_op :: regex where
  "redirect_op = RSeq (RCls (\<lambda>c. c = CHR ''>'')) (ropt (RCls (\<lambda>c. c = CHR ''>'')))"

definition redirect_tail :: regex where
  "redirect_tail = rseq [RStar rspace, RGroup 2 redirect_op, RStar rspace, RGroup 3 (rplus rnonspace), RStar rspace, REos]"

lemma ECHO_REDIRECT_RE_tail:
  "ECHO_REDIRECT_RE = rseq [RBos, RStar rspace, rlit ''echo'', rplus rspace, RGroup 1 (RLazy rdot), redirect_tail]"
  unfolding ECHO_REDIRECT_RE_def redirect_tail_def redirect_op_def rseq.simps ..

text \<open>No redirection starts inside a text without the character \<open>>\<close>.\<close>

lemma redirect_tail_none:
  assumes "ahead p = u @ v" "u \<noteq> []" "\<not> is_space (last u)" "CHR ''>'' \<notin> set u"
  shows "rmatch redirect_tail Some p = None"
proof -
  have "takeWhile is_space u \<noteq> u" using assms(2,3) by (metis last_in_set set_takeWhileD)
  then obtain x where x: "x \<in> set u" "\<not> is_space x" by auto
  have tw: "takeWhile is_space (u @ v) = takeWhile is_space u" by (rule takeWhile_append1 [of x]) (use x in auto)
  have less: "length (takeWhile is_space u) < length u"
    using \<open>takeWhile is_space u \<noteq> u\<close> by (metis length_takeWhile_le nat_less_le takeWhile_eq_take take_all)
  let ?rest = "rmatch (RSeq (RGroup 2 redirect_op) (RSeq (RStar rspace)
      (RSeq (RGroup 3 (rplus rnonspace)) (RSeq (RStar rspace) REos)))) Some"
  have "?rest (skip n p) = None" if "n \<le> length (takeWhile is_space (ahead p))" for n
  proof -
    have n: "n < length u" using that less by (simp add: assms(1) tw)
    then have "ahead (skip n p) = u ! n # drop (Suc n) u @ v" by (simp add: assms(1) Cons_nth_drop_Suc)
    moreover have "u ! n \<noteq> CHR ''>''" using n assms(4) by (metis nth_mem)
    ultimately show ?thesis by (simp add: redirect_op_def rmatch_cls)
  qed
  then show ?thesis unfolding redirect_tail_def rseq.simps rspace_def rmatch.simps(3) [of "RStar (RCls is_space)"]
    by (intro star_cls_none) (simp add: rspace_def)
qed

lemma redirect_tail_match:
  assumes "ahead p = '' '' @ redir @ '' '' @ path" "redir = ''>'' \<or> redir = ''>>''" "path \<noteq> []" "\<forall>c\<in>set path. \<not> is_space c"
  shows "\<exists>q. rmatch redirect_tail Some p = Some q \<and> caps q = (3, path) # (2, redir) # caps p"
proof -
  define p1 where "p1 = skip 1 p"
  define p2 where "p2 = (skip (length redir) p1)\<lparr>caps := (2, redir) # caps p\<rparr>"
  define p3 where "p3 = skip 1 p2"
  define p4 where "p4 = (skip (length path) p3)\<lparr>caps := (3, path) # caps p3\<rparr>"
  have ahead: "ahead p1 = redir @ '' '' @ path" "ahead p2 = '' '' @ path" "ahead p3 = path" "ahead p4 = []"
    by (simp_all add: p1_def p2_def p3_def p4_def assms(1))
  have caps: "caps p1 = caps p" "caps p3 = (2, redir) # caps p" by (simp_all add: p1_def p2_def p3_def)
  have "\<not> is_space (CHR ''>'')" and sp: "is_space (CHR '' '')" by (simp_all add: is_space_def)
  then have nsp: "\<not> is_space (hd path)" "\<not> is_space (hd (redir @ '' '' @ path))" using assms(2-4) by auto
  have 4: "rmatch (RSeq (RStar rspace) REos) Some p4 = Some p4"
    unfolding rmatch.simps(3) rspace_def by (rule star_run [of _ "[]" "[]"]) (simp_all add: ahead)
  have 3: "rmatch (RSeq (RGroup 3 (rplus rnonspace)) (RSeq (RStar rspace) REos)) Some p3 = Some p4"
    unfolding rmatch.simps(3) [of "RGroup 3 (rplus rnonspace)"] unfolding rnonspace_def
    by (rule group_rplus_run [of _ path "[]"]) (use assms 4 in \<open>simp_all add: ahead p4_def\<close>)
  have 2: "rmatch (RSeq (RStar rspace) (RSeq (RGroup 3 (rplus rnonspace)) (RSeq (RStar rspace) REos))) Some p2 = Some p4"
    unfolding rmatch.simps(3) [of "RStar rspace"] unfolding rspace_def
    by (rule star_run [of _ "'' ''" path])
       (use nsp sp 3 in \<open>simp_all add: ahead p3_def rspace_def del: rmatch.simps(1,3-)\<close>)
  have cap: "capture 2 p1 (skip (length redir) p1) = p2"
    by (simp add: capture_def p2_def ahead caps)
  have 1: "rmatch (RSeq (RGroup 2 redirect_op) (RSeq (RStar rspace) (RSeq (RGroup 3 (rplus rnonspace)) (RSeq (RStar rspace) REos)))) Some p1
      = Some p4"
    using 2 cap assms(2) by (auto simp: redirect_op_def ropt_def rmatch_cls ahead numeral_2_eq_2 simp del: rmatch.simps(5))
  have "rmatch redirect_tail Some p = Some p4"
    unfolding redirect_tail_def rseq.simps rmatch.simps(3) [of "RStar rspace"] unfolding rspace_def
    by (rule star_run [of _ "'' ''" "redir @ '' '' @ path"])
       (use nsp sp 1 in \<open>simp_all add: assms(1) p1_def rspace_def del: rmatch.simps(1,3-)\<close>)
  then show ?thesis by (simp add: p4_def caps)
qed

text \<open>The text to be echoed: stripped, on one line, with no separator and no redirection in it.\<close>

definition echo_text :: "string \<Rightarrow> bool" where
  "echo_text w \<longleftrightarrow> w \<noteq> [] \<and> \<not> is_space (hd w) \<and> \<not> is_space (last w) \<and> (\<forall>c\<in>set w. cmd_plain c \<and> c \<noteq> CHR ''>'')"

lemma echo_re_matches:
  assumes w: "echo_text w" and r: "redir = ''>'' \<or> redir = ''>>''" and path: "path \<noteq> []" "\<forall>c\<in>set path. \<not> is_space c"
  shows "\<exists>m. re_match ECHO_REDIRECT_RE (''echo'' @ '' '' @ w @ '' '' @ redir @ '' '' @ path) = Some m \<and>
    group m 1 = w \<and> group m 2 = redir \<and> group m 3 = path"
proof -
  let ?p0 = "start_pos (''echo'' @ '' '' @ w @ '' '' @ redir @ '' '' @ path)"
  define p1 where "p1 = skip 4 ?p0"
  define p2 where "p2 = skip 1 p1"
  define p3 where "p3 = (skip (length w) p2)\<lparr>caps := [(1, w)]\<rparr>"
  have ahead12: "ahead p1 = '' '' @ w @ '' '' @ redir @ '' '' @ path" "ahead p2 = w @ '' '' @ redir @ '' '' @ path"
      "caps p2 = []"
    by (simp_all add: p1_def p2_def)
  have ahead3: "ahead p3 = '' '' @ redir @ '' '' @ path" by (simp add: p3_def ahead12)
  note ahead = ahead12 ahead3
  have ne: "w \<noteq> []" "\<not> is_space (hd w)" "\<not> is_space (last w)" "CHR ''>'' \<notin> set w" "nl \<notin> set w"
    using w by (auto simp: echo_text_def cmd_plain_def)
  have sp: "is_space (CHR '' '')" by (simp add: is_space_def)
  obtain q where q: "rmatch redirect_tail Some p3 = Some q" "caps q = [(3, path), (2, redir), (1, w)]"
    using redirect_tail_match [OF ahead3 r path] by (auto simp: p3_def)
  have cap: "capture 1 p2 (skip (length w) p2) = p3" by (simp add: capture_def p3_def ahead)
  have early: "rmatch redirect_tail Some (capture 1 p2 (skip m p2)) = None" if "m < length w" for m
    by (rule redirect_tail_none [where u = "drop m w" and v = "'' '' @ redir @ '' '' @ path"])
       (use that ne in \<open>auto simp: capture_def ahead dest: in_set_dropD\<close>)
  have "length w \<le> length (takeWhile (\<lambda>c. c \<noteq> nl) (ahead p2))"
    using ne(5) by (simp add: ahead takeWhile_append)
  then have "rmatch (RLazy (RCls (\<lambda>c. c \<noteq> nl))) (\<lambda>r. rmatch redirect_tail Some (capture 1 p2 r)) p2 = Some q"
    by (rule lazy_cls_first) (use early cap q in auto)
  then have 2: "rmatch (RSeq (RGroup 1 (RLazy rdot)) redirect_tail) Some p2 = Some q"
    by (simp add: rdot_def del: rmatch.simps(6))
  have 1: "rmatch (rplus rspace) (rmatch (RSeq (RGroup 1 (RLazy rdot)) redirect_tail) Some) p1 = Some q"
    unfolding rspace_def by (rule rplus_run [of _ "'' ''" "w @ '' '' @ redir @ '' '' @ path"])
       (use ne sp 2 in \<open>simp_all add: ahead p2_def del: rmatch.simps(1,3-)\<close>)
  have "rmatch (RStar rspace) (rmatch (RSeq (rlit ''echo'') (RSeq (rplus rspace)
      (RSeq (RGroup 1 (RLazy rdot)) redirect_tail))) Some) ?p0 = Some q"
    unfolding rspace_def
    by (rule star_run [of _ "[]" "''echo'' @ '' '' @ w @ '' '' @ redir @ '' '' @ path"])
       (use 1 in \<open>simp_all add: rmatch_lit rspace_def p1_def is_space_def numeral_eq_Suc del: rmatch.simps(1,4-) rlit.simps\<close>)
  then have "re_match ECHO_REDIRECT_RE (''echo'' @ '' '' @ w @ '' '' @ redir @ '' '' @ path) = Some q"
    unfolding re_match_def ECHO_REDIRECT_RE_tail rseq.simps by (simp del: rmatch.simps(5))
  then show ?thesis using q(2) by (simp add: group_def)
qed

lemma echo_no_switch: "parse_user_switch (''echo'' @ CHR '' '' # rest) = None"
proof (cases "shlex_split (''echo'' @ CHR '' '' # rest)")
  case (Some ts)
  have "\<forall>c\<in>set ''echo''. lex_plain c" by (simp add: lex_plain_def lex_space_def lex_quote_def)
  then obtain us where "ts = ''echo'' # us" using shlex_split_first_word [OF _ _ Some] by auto
  then show ?thesis using Some by (simp add: parse_user_switch_def)
qed (simp add: parse_user_switch_def)

text \<open>\<open>echo TEXT > PATH\<close> is a file created with the unquoted text, and \<open>echo TEXT >> PATH\<close> an append,
  for every text without separators and redirections, quoted or not, and every unquoted path.\<close>

lemma parse_echo_redirect:
  assumes "echo_text w" "plain_word path" "redir = ''>'' \<or> redir = ''>>''"
  shows "parse_input_mutations (''echo '' @ w @ '' '' @ redir @ '' '' @ path) =
    [(CmdMutation (if redir = ''>>'' then AppendFile else CreateFile))\<lparr>mut_path := Some path,
       mut_content := Some (strip_quotes w)\<rparr>]"
proof -
  let ?line = "''echo'' @ '' '' @ w @ '' '' @ redir @ '' '' @ path"
  have path: "path \<noteq> []" "\<forall>c\<in>set path. \<not> is_space c" "\<forall>c\<in>set path. lex_plain c \<and> cmd_plain c"
    using assms(2) by (auto simp: plain_word_def)
  have noquote: "\<not> (hd path = squote \<or> hd path = dquote)" "\<not> (last path = squote \<or> last path = dquote)"
    using path(1,3) hd_in_set [OF path(1)] last_in_set [OF path(1)] unfolding lex_plain_def lex_quote_def by blast+
  have "\<not> is_space (last ?line)" using path(1,2) by simp
  then have strip: "py_strip ?line = ?line" by (intro strip_by_id) (simp_all add: is_space_def)
  have plain: "\<forall>c\<in>set ?line. cmd_plain c"
  proof -
    have "\<forall>c\<in>set ''echo >''. cmd_plain c" by (simp add: cmd_plain_def)
    moreover have "\<forall>c\<in>set w. cmd_plain c" using assms(1) by (simp add: echo_text_def)
    ultimately show ?thesis using assms(3) path(3) by auto
  qed
  have none: "parse_user_switch ?line = None" using echo_no_switch [of "w @ '' '' @ redir @ '' '' @ path"] by simp
  obtain m where m: "re_match ECHO_REDIRECT_RE ?line = Some m" "group m 1 = w" "group m 2 = redir" "group m 3 = path"
    using echo_re_matches [OF assms(1,3) path(1,2)] by blast
  have "parse_input_mutations ?line = head_mutations ?line"
    using parse_plain [OF _ strip plain] none by simp
  also have "\<dots> = [(CmdMutation (if redir = ''>>'' then AppendFile else CreateFile))\<lparr>mut_path := Some path,
       mut_content := Some (strip_quotes w)\<rparr>]"
    using m strip_by_id [OF path(1), of "\<lambda>c. c = squote \<or> c = dquote"] noquote by (simp add: head_mutations_def)
  finally show ?thesis by simp
qed


text \<open>\<open>sudo\<close> in front of an ordinary command is a one-shot elevation: whatever
  follows it, the effective user of the session does not change; in front
  of \<open>su\<close> it opens a shell as the named user.\<close>

lemma parse_sudo:
  assumes "plain_word cmd" "\<not> is_flag cmd" "\<forall>w\<in>set ws. plain_word w"
  shows "parse_user_switch (py_join '' '' (''sudo'' # cmd # ws)) =
    (if cmd = ''su'' then Some (push_mutation (first_user ''root'' ws)) else None)"
proof -
  have "shlex_split (py_join '' '' (''sudo'' # cmd # ws)) = Some (''sudo'' # cmd # ws)"
    using assms plain_keywords(6) by (intro join_words_props(5)) auto
  moreover have "\<not> prefix ''-'' cmd" "cmd \<notin> {''-u'', ''--user'', ''-i'', ''--login'', ''-s'', ''--shell''}"
    using assms(2) by (auto simp: is_flag_def)
  ultimately show ?thesis by (simp add: parse_user_switch_def)
qed

text \<open>
  The first separator in the fixed order of the loop wins, not the first in the line: a pipeline
  followed by a semicolon is taken as one command, and its operator becomes a file name.
\<close>

lemma first_command_not_first:
  "split_first_command ''touch a | b; c'' = ''touch a | b''"
  by (simp add: split_first_command_def)

end
