(* ===== verification/Factkeys.thy ===== *)
theory Factkeys
  imports Py_Shlex Py_Regex
begin

text \<open>
  \<open>src/cowrie/llm/factkeys.py\<close>: the fact a command asserts, so that commands which must agree
  with each other share a key.
\<close>

definition under :: "string \<Rightarrow> string list \<Rightarrow> regex" where
  "under dir names = RSeq (rlit dir) (ralt (map rlit names))"

text \<open>\<open>\bA\s+B\b\<close> for one of several \<open>B\<close>.\<close>

definition wordb2 :: "string \<Rightarrow> string list \<Rightarrow> regex" where
  "wordb2 a bs = rseq [RWordB, rlit a, rplus rspace, ralt (map rlit bs), RWordB]"

definition FAMILY_RULES :: "(string \<times> regex) list" where
  "FAMILY_RULES =
    [(''os.kernel'', ralt [wordb ''uname'', rlit ''/proc/version'', wordb ''hostnamectl'']),
     (''os.distro'', ralt [under ''/etc/'' [''os-release'', ''issue'', ''lsb-release'', ''debian_version'',
        ''redhat-release'', ''centos-release'', ''system-release'', ''alpine-release''], wordb ''lsb_release'']),
     (''hw.cpu'', ralt [rlit ''/proc/cpuinfo'', wordb ''lscpu'', wordb ''nproc'']),
     (''hw.mem'', ralt [wordb ''free'', rlit ''/proc/meminfo'']),
     (''sys.uptime'', ralt [wordb ''uptime'', rlit ''/proc/uptime'']),
     (''id.accounts'', ralt [under ''/etc/'' [''passwd'', ''shadow'', ''group''], wordb ''getent'']),
     (''id.user'', ralt [wordb ''whoami'', wordb ''id'', wordb ''logname'', wordb ''groups'']),
     (''net.iface'', ralt [wordb ''ifconfig'', wordb2 ''ip'' [''a'', ''addr'', ''link''], wordb2 ''hostname'' [''-I'']]),
     (''net.listen'', ralt [wordb ''ss'', wordb ''netstat'']),
     (''proc.list'', ralt [wordb ''ps'', wordb ''top'', wordb ''htop'']),
     (''pkg.list'', ralt [wordb ''dpkg'', wordb2 ''rpm'' [''-qa''], wordb2 ''apk'' [''info''], wordb2 ''apt'' [''list'']]),
     (''fs.disk'', ralt [wordb ''df'', wordb ''mount'', rlit ''/proc/mounts'']),
     (''cron.jobs'', ralt [wordb ''crontab'', rlit ''/etc/crontab'', rlit ''/etc/cron.''])]"

definition ARCH_RE :: regex where
  "ARCH_RE = rseq [RBos, RStar rspace,
     ralt [rlit ''arch'',
       rseq [rlit ''uname'', rplus rspace, rlit ''-'', RStar rword, rlit ''m'', RStar rword],
       rseq [rlit ''dpkg'', rplus rspace, rlit ''--print-architecture'']],
     RStar rspace, REos]"

definition VOLATILE_RE :: regex where
  "VOLATILE_RE = rseq [RBos, RStar rspace, ralt [rlit ''date'', rlit ''w'', rlit ''top''], RWordB]"

definition FILE_READERS :: "string list" where
  "FILE_READERS = [''cat'', ''head'', ''tail'', ''less'', ''more'', ''stat'', ''file'', ''wc'']"

definition family_of :: "string \<Rightarrow> string option" where
  "family_of head = map_option fst (List.find (\<lambda>(family, pat). re_search pat head) FAMILY_RULES)"

definition fact_family :: "string \<Rightarrow> string option" where
  "fact_family command =
     (let raw = py_strip command in
      if raw = [] then None
      else let head = py_strip (before_first (CHR ''|'') raw) in
        if head = [] then None
        else if re_match VOLATILE_RE head \<noteq> None then None
        else if re_match ARCH_RE head \<noteq> None then Some ''os.arch''
        else let argv = shlex_or_split head in
          if argv = [] then None
          else case family_of head of
            Some family \<Rightarrow> Some family
          | None \<Rightarrow>
              if hd argv \<in> set FILE_READERS then
                (let paths = filter (\<lambda>a. \<not> startswith a ''-'') (tl argv) in
                 if length paths = 1 then Some (''file:'' @ hd paths) else None)
              else None)"

section \<open>Lemmas\<close>

text \<open>Stripping before or after the text is cut at a pipe gives the same first stage.\<close>

lemma first_stage_strip:
  assumes "\<not> P c"
  shows "strip_by P (before_first c (strip_by P s)) = strip_by P (before_first c s)"
proof -
  obtain u v where uv: "s = u @ strip_by P s @ v" "\<forall>x\<in>set u. P x" "\<forall>x\<in>set v. P x"
    by (rule strip_by_decomp)
  have lead: "strip_by P (u @ t) = strip_by P t" for t
    using uv(2) by (induction u) (auto simp: strip_by_Cons)
  have trail: "strip_by P (t @ w) = strip_by P t" if "\<forall>x\<in>set w. P x" for t w
    using that by (induction w rule: rev_induct) (auto simp: strip_by_snoc simp flip: append_assoc)
  have u: "before_first c (u @ t) = u @ before_first c t" for t
    using uv(2) assms by (auto simp: before_first_def takeWhile_append)
  have v: "before_first c (strip_by P s @ v) =
      (if c \<in> set (strip_by P s) then before_first c (strip_by P s) else strip_by P s @ v)"
    using uv(3) assms by (auto simp: before_first_def takeWhile_append)
  have "strip_by P (before_first c s) = strip_by P (before_first c (strip_by P s @ v))"
    by (subst uv(1)) (simp only: u lead)
  also have "\<dots> = strip_by P (before_first c (strip_by P s))"
    using trail [OF uv(3)] by (simp add: v before_first_absent)
  finally show ?thesis by simp
qed

lemma not_space_pipe: "\<not> is_space (CHR ''|'')"
  by (simp add: is_space_def)

text \<open>The key is a function of the stripped first stage.\<close>

definition stage_family :: "string \<Rightarrow> string option" where
  "stage_family head =
     (if head = [] then None
      else if re_match VOLATILE_RE head \<noteq> None then None
      else if re_match ARCH_RE head \<noteq> None then Some ''os.arch''
      else let argv = shlex_or_split head in
        if argv = [] then None
        else case family_of head of
          Some family \<Rightarrow> Some family
        | None \<Rightarrow>
            if hd argv \<in> set FILE_READERS then
              (let paths = filter (\<lambda>a. \<not> startswith a ''-'') (tl argv) in
               if length paths = 1 then Some (''file:'' @ hd paths) else None)
            else None)"

lemma fact_family_stage: "fact_family cmd = stage_family (py_strip (before_first (CHR ''|'') cmd))"
proof (cases "py_strip cmd = []")
  case True
  have "py_strip (before_first (CHR ''|'') cmd) = []"
    using first_stage_strip [of is_space, OF not_space_pipe, of cmd] True by (simp add: before_first_def)
  then show ?thesis using True by (simp add: fact_family_def stage_family_def)
next
  case False
  then show ?thesis using first_stage_strip [of is_space, OF not_space_pipe, of cmd]
    by (simp add: fact_family_def stage_family_def Let_def)
qed

section \<open>Properties\<close>

text \<open>A filter behind a command does not change what the command asserts: a pipeline has the key of its
  first stage.\<close>

lemma fact_family_pipeline:
  assumes "CHR ''|'' \<notin> set cmd"
  shows "fact_family (cmd @ ''|'' @ rest) = fact_family cmd"
  using assms by (simp add: fact_family_stage before_first_append before_first_absent)

text \<open>The views of the kernel agree: \<open>uname\<close> with any arguments that do not ask for the architecture
  alone has the kernel's key.\<close>

lemma fact_family_uname:
  assumes "py_strip args = args" "args \<noteq> []" "CHR ''|'' \<notin> set args" "re_match ARCH_RE (''uname '' @ args) = None"
  shows "fact_family (''uname '' @ args) = Some ''os.kernel''"
proof -
  let ?cmd = "''uname '' @ args"
  have "py_strip ?cmd = ?cmd"
    using assms(1,2) last_strip_by [of is_space args] by (intro strip_by_id) (simp_all add: is_space_def [of "CHR ''u''"])
  then have stage: "fact_family ?cmd = stage_family ?cmd"
    using assms(3) by (simp add: fact_family_stage before_first_absent)
  have tw: "takeWhile is_space ?cmd = []" by (simp add: is_space_def)
  have "rmatch (RStar (RCls is_space)) (rmatch (RSeq (ralt [rlit ''date'', rlit ''w'', rlit ''top'']) RWordB) Some) (start_pos ?cmd) = None"
    by (rule star_cls_none) (use tw in \<open>simp add: rmatch_cls\<close>)
  then have vol: "re_match VOLATILE_RE ?cmd = None"
    by (simp add: re_match_def VOLATILE_RE_def rspace_def del: rmatch.simps(5))
  have "rmatch (wordb ''uname'') Some (start_pos ?cmd) \<noteq> None"
    by (rule wordb_found [where v = "CHR '' '' # args"]) (simp_all add: is_word_def is_lower_def is_digit_def is_upper_def)
  then have "re_search (wordb ''uname'') ?cmd" unfolding re_search_iff by (metis le0 skip_0)
  then have "family_of ?cmd = Some ''os.kernel''"
    by (simp add: family_of_def FAMILY_RULES_def re_search_ralt del: ralt.simps)
  moreover have "shlex_or_split ?cmd \<noteq> []"
  proof (cases "shlex_split ?cmd")
    case (Some ts)
    have "\<forall>c\<in>set ''uname''. lex_plain c" by (simp add: lex_plain_def lex_space_def lex_quote_def)
    then show ?thesis using shlex_split_first_word [of "''uname''" args ts] Some by (auto simp: shlex_or_split_def)
  next
    case None
    have "dropWhile is_space ?cmd = ?cmd" by (simp add: is_space_def)
    then show ?thesis using split_ws_step [of ?cmd ?cmd] None by (simp add: shlex_or_split_def)
  qed
  ultimately show ?thesis using stage vol assms(4) by (simp add: stage_family_def Let_def)
qed


end
