(* ===== verification/Attack_Map.thy ===== *)
theory Attack_Map
  imports Py_Regex
begin

text \<open>
  \<open>src/cowrie/llm/attack_map.py\<close>: the table of MITRE ATT\&CK techniques with the patterns that
  evidence them, and the classifier that tags every command line.
\<close>

record technique =
  tech_id :: string
  tech_name :: string
  tech_tactic :: string

definition Technique :: "string \<Rightarrow> string \<Rightarrow> string \<Rightarrow> technique" where
  "Technique i n t = \<lparr>tech_id = i, tech_name = n, tech_tactic = t\<rparr>"

section \<open>Pattern vocabulary\<close>

definition words :: "string list \<Rightarrow> regex" where "words ws = ralt (map rlit ws)"

definition bounded :: "regex \<Rightarrow> regex" where "bounded r = rseq [RWordB, r, RWordB]"

definition sp :: regex where "sp = rplus rspace"
definition sps :: regex where "sps = RStar rspace"
definition dots :: regex where "dots = RStar rdot"

definition cls :: "string \<Rightarrow> regex" where "cls cs = RCls (\<lambda>c. c \<in> set cs)"

definition lower_cls :: "string \<Rightarrow> regex" where "lower_cls cs = RCls (\<lambda>c. is_lower c \<or> c \<in> set cs)"

section \<open>The rules\<close>

definition discovery_rules :: "(technique \<times> regex) list" where
  "discovery_rules =
    [(Technique ''T1082'' ''System Information Discovery'' ''discovery'',
       ralt [bounded (words [''uname'', ''lscpu'', ''lshw'', ''dmidecode'', ''hostnamectl'', ''lsb_release'', ''nproc'',
           ''free'', ''vmstat'', ''dmesg'']),
         rseq [rlit ''/proc/'', words [''cpuinfo'', ''meminfo'', ''version'']],
         rseq [rlit ''/etc/'', ralt [rlit ''os-release'', rlit ''issue'',
           rseq [RStar (RCls (\<lambda>c. is_word c \<or> c = CHR ''-'')), rlit ''-release'']]]]),
     (Technique ''T1033'' ''System Owner/User Discovery'' ''discovery'',
       bounded (ralt [rlit ''whoami'', wordb ''id'', wordb ''w'', wordb ''who'', rlit ''logname'',
         RSeq (rlit ''users'') RWordB, rlit ''groups''])),
     (Technique ''T1083'' ''File and Directory Discovery'' ''discovery'',
       bounded (ralt [rlit ''ls'', rlit ''dir'', rlit ''find'', rlit ''locate'', rlit ''tree'', rlit ''stat'',
         RSeq (rlit ''du'') RWordB, RSeq (rlit ''df'') RWordB, rlit ''readlink'', rlit ''realpath''])),
     (Technique ''T1057'' ''Process Discovery'' ''discovery'',
       bounded (ralt [rlit ''ps'', rlit ''top'', rlit ''htop'', rlit ''pgrep'', rlit ''pidof'',
         RSeq (rlit ''/proc/'') (rplus rdigit)])),
     (Technique ''T1518'' ''Software Discovery'' ''discovery'',
       bounded (ralt [rlit ''dpkg'', rlit ''rpm'', rseq [rlit ''apk'', sp, words [''info'', ''list'']],
         rseq [rlit ''yum'', sp, rlit ''list''], rseq [rlit ''apt'', sp, rlit ''list''],
         rseq [rlit ''pip'', sp, rlit ''list''], rlit ''which'', rseq [rlit ''command'', sp, rlit ''-v''],
         rlit ''whereis''])),
     (Technique ''T1016'' ''System Network Configuration Discovery'' ''discovery'',
       ralt [bounded (words [''ifconfig'', ''route'', ''netstat'', ''ss'', ''arp'']),
         bounded (rseq [rlit ''ip'', sp, words [''a'', ''addr'', ''link'', ''route'']]),
         rseq [rlit ''/etc/'', words [''resolv.conf'', ''hosts'']],
         rseq [RWordB, rlit ''iptables'', sp, rlit ''-L'']]),
     (Technique ''T1049'' ''System Network Connections Discovery'' ''discovery'',
       bounded (ralt [rseq [rlit ''netstat'', sp, rlit ''-'', RStar (lower_cls []), cls ''ant''],
         rseq [rlit ''ss'', sp, rlit ''-'', RStar (lower_cls []), cls ''ant''],
         rseq [rlit ''lsof'', sp, rlit ''-i'']])),
     (Technique ''T1087'' ''Account Discovery'' ''discovery'',
       ralt [rseq [rlit ''/etc/'', words [''passwd'', ''shadow'', ''group'']], wordb ''getent'', wordb ''lastlog'',
         RSeq (wordb ''last'') rspace])]"

definition execution_rules :: "(technique \<times> regex) list" where
  "execution_rules =
    [(Technique ''T1059.004'' ''Command and Scripting Interpreter: Unix Shell'' ''execution'',
       ralt [rseq [ralt [RBos, rlit ''|'', rlit '';'', rlit ''&&'', rlit ''$(''], sps,
           words [''sh'', ''bash'', ''dash'', ''zsh'', ''/bin/sh'', ''/bin/bash''], RWordB],
         bounded (rseq [words [''sh'', ''bash''], sp, rlit ''-c''])]),
     (Technique ''T1059.006'' ''Command and Scripting Interpreter: Python'' ''execution'',
       rseq [RWordB, ralt [RSeq (rlit ''python'') (ropt (cls ''23'')), rlit ''perl'', rlit ''ruby'', rlit ''php''], sp,
         words [''-c'', ''-e'', ''/'']])]"

definition transfer_rules :: "(technique \<times> regex) list" where
  "transfer_rules =
    [(Technique ''T1105'' ''Ingress Tool Transfer'' ''command-and-control'',
       bounded (words [''wget'', ''curl'', ''tftp'', ''ftpget'', ''ftp'', ''scp'', ''sftp'', ''rsync''])),
     (Technique ''T1071.001'' ''Application Layer Protocol: Web'' ''command-and-control'',
       rseq [rlit ''http'', ropt (rlit ''s''), rlit ''://'']),
     (Technique ''T1048'' ''Exfiltration Over Alternative Protocol'' ''exfiltration'',
       ralt [bounded (words [''nc'', ''ncat'', ''netcat'', ''socat'']),
         rseq [wordb ''curl'', dots, rspace, rlit ''-'', RStar (lower_cls ''T''), rlit ''T''],
         rseq [bounded (words [''scp'', ''rsync'']), dots, rspace, rplus rnonspace, rlit ''@'']])]"

definition persistence_rules :: "(technique \<times> regex) list" where
  "persistence_rules =
    [(Technique ''T1053.003'' ''Scheduled Task/Job: Cron'' ''persistence'',
       bounded (words [''crontab'', ''/etc/cron'', ''/var/spool/cron''])),
     (Technique ''T1098.004'' ''Account Manipulation: SSH Authorized Keys'' ''persistence'',
       words [''authorized_keys'', ''.ssh/'', ''ssh-keygen'', ''ssh-copy-id'']),
     (Technique ''T1136'' ''Create Account'' ''persistence'',
       bounded (words [''useradd'', ''adduser'', ''newusers''])),
     (Technique ''T1546.004'' ''Event Triggered Execution: Unix Shell Config'' ''persistence'',
       words [''.bashrc'', ''.bash_profile'', ''.profile'', ''/etc/rc.local'', ''/etc/profile.d'', ''.bash_logout'']),
     (Technique ''T1543.002'' ''Create or Modify System Process: systemd'' ''persistence'',
       bounded (ralt [rseq [rlit ''systemctl'', sp, words [''enable'', ''start'']], rlit ''/etc/systemd/system'',
         rseq [rlit ''service'', sp, rplus rnonspace, sp, rlit ''start'']]))]"

definition privilege_rules :: "(technique \<times> regex) list" where
  "privilege_rules =
    [(Technique ''T1078'' ''Valid Accounts'' ''privilege-escalation'', bounded (words [''su'', ''sudo''])),
     (Technique ''T1548.003'' ''Abuse Elevation Control: Sudo'' ''privilege-escalation'',
       ralt [wordb ''sudo'', rlit ''/etc/sudoers''])]"

definition evasion_rules :: "(technique \<times> regex) list" where
  "evasion_rules =
    [(Technique ''T1070.003'' ''Indicator Removal: Clear Command History'' ''defense-evasion'',
       ralt [rseq [rlit ''history'', sp, rlit ''-c''],
         rseq [rlit ''>'', sps, ropt (rlit ''~''), ropt (rlit ''/''), rlit ''.bash_history''],
         rseq [rlit ''unset'', sp, rlit ''HISTFILE''], rlit ''HISTFILE=/dev/null'',
         rseq [rlit ''export'', sp, rlit ''HISTSIZE=0'']]),
     (Technique ''T1070.002'' ''Indicator Removal: Clear Linux Logs'' ''defense-evasion'',
       ralt [rseq [rlit ''rm'', sp, dots, rlit ''/var/log''], rseq [rlit ''>'', sps, rlit ''/var/log''],
         rseq [rlit ''truncate'', sp, dots, rlit ''/var/log''], rseq [rlit ''journalctl'', sp, rlit ''--vacuum'']]),
     (Technique ''T1222.002'' ''File and Directory Permissions Modification'' ''defense-evasion'',
       ralt [wordb ''chmod'', wordb ''chown'', wordb ''chattr'']),
     (Technique ''T1140'' ''Deobfuscate/Decode Files or Information'' ''defense-evasion'',
       ralt [bounded (rseq [rlit ''base64'', sp, rlit ''-d'']),
         bounded (ralt [rseq [rlit ''openssl'', sp, rlit ''enc'', dots, rlit ''-d''], rseq [rlit ''xxd'', sp, rlit ''-r''],
           rlit ''uudecode'']),
         rseq [rlit ''gzip'', sp, rlit ''-d''], rlit ''gunzip'']),
     (Technique ''T1564.001'' ''Hide Artifacts: Hidden Files and Directories'' ''defense-evasion'',
       ralt [rseq [rlit ''/'', words [''tmp'', ''dev/shm'', ''var/tmp''], rlit ''/.'', rword],
         rseq [rlit ''touch'', sp, rlit ''-'', cls ''amt'']])]"

definition impact_rules :: "(technique \<times> regex) list" where
  "impact_rules =
    [(Technique ''T1496'' ''Resource Hijacking'' ''impact'',
       bounded (words [''xmrig'', ''minerd'', ''cpuminer'', ''cgminer'', ''ethminer'', ''stratum+tcp'', ''--donate-level'',
         ''nanopool'', ''minexmr'', ''supportxmr'', ''monero''])),
     (Technique ''T1489'' ''Service Stop'' ''impact'',
       bounded (ralt [rseq [rlit ''systemctl'', sp, words [''stop'', ''disable'']],
         rseq [rlit ''service'', sp, rplus rnonspace, sp, rlit ''stop''], rlit ''killall'', rlit ''pkill''])),
     (Technique ''T1021.004'' ''Remote Services: SSH'' ''lateral-movement'',
       ralt [rseq [RWordB, rlit ''ssh'', sp, rplus rnonspace, rlit ''@''],
         rseq [RWordB, rlit ''ssh'', sp, rlit ''-'', RStar rword, sps, rplus rnonspace, rlit ''@''],
         wordb ''sshpass'']),
     (Technique ''T1110'' ''Brute Force'' ''credential-access'',
       bounded (words [''hydra'', ''medusa'', ''ncrack'', ''patator'', ''crowbar'']))]"

definition RULES :: "(technique \<times> regex) list" where
  "RULES = map (\<lambda>(t, r). (t, icase r))
     (discovery_rules @ execution_rules @ transfer_rules @ persistence_rules @ privilege_rules @ evasion_rules @ impact_rules)"

definition TRIVIAL :: regex where
  "TRIVIAL = rseq [RBos, sps, words [''cd'', ''pwd'', ''clear'', ''exit'', ''logout'', ''quit'', ''true'', '':''], RWordB,
     RStar (RCls (\<lambda>c. c \<notin> set ''|;&>'')), REos]"

section \<open>The classifier\<close>

text \<open>The loop over the rules, with the identifiers already seen.\<close>

fun classify_loop :: "(technique \<times> regex) list \<Rightarrow> string \<Rightarrow> string list \<Rightarrow> technique list" where
  "classify_loop [] cmd seen = []"
| "classify_loop ((tech, pat) # rules) cmd seen =
     (if tech_id tech \<notin> set seen \<and> re_search pat cmd
      then tech # classify_loop rules cmd (tech_id tech # seen)
      else classify_loop rules cmd seen)"

definition classify :: "string \<Rightarrow> technique list" where
  "classify command =
     (let cmd = py_strip command in
      if cmd = [] \<or> re_match TRIVIAL cmd \<noteq> None then []
      else classify_loop RULES cmd [])"

definition classify_ids :: "string \<Rightarrow> string list" where
  "classify_ids command = map tech_id (classify command)"

section \<open>Lemmas\<close>

lemma classify_loop_subseq: "subseq (classify_loop rules cmd seen) (map fst rules)"
  by (induction rules cmd seen rule: classify_loop.induct) auto

lemma classify_loop_distinct:
  "distinct (map tech_id (classify_loop rules cmd seen)) \<and>
   set (map tech_id (classify_loop rules cmd seen)) \<inter> set seen = {}"
  by (induction rules cmd seen rule: classify_loop.induct) auto

lemma classify_loop_sound:
  "t \<in> set (classify_loop rules cmd seen) \<Longrightarrow> \<exists>r. (t, r) \<in> set rules \<and> re_search r cmd"
  by (induction rules cmd seen rule: classify_loop.induct) (auto split: if_splits)

lemma classify_loop_complete:
  "(t, r) \<in> set rules \<Longrightarrow> re_search r cmd \<Longrightarrow>
   tech_id t \<in> set seen \<or> tech_id t \<in> set (map tech_id (classify_loop rules cmd seen))"
  by (induction rules cmd seen rule: classify_loop.induct) auto

lemma RULES_ids: "map (tech_id \<circ> fst) RULES = map (tech_id \<circ> fst)
   (discovery_rules @ execution_rules @ transfer_rules @ persistence_rules @ privilege_rules @ evasion_rules @ impact_rules)"
  by (auto simp: RULES_def)

lemma RULES_distinct: "distinct (map (tech_id \<circ> fst) RULES)"
  unfolding RULES_ids
  by (simp add: discovery_rules_def execution_rules_def transfer_rules_def persistence_rules_def
      privilege_rules_def evasion_rules_def impact_rules_def Technique_def)

lemma icase_lit: "prefix w (ahead p) \<Longrightarrow> rmatch (icase (rlit w)) k p = k (skip (length w) p)"
proof (induction w arbitrary: p rule: rlit.induct)
  case (2 c)
  then show ?case by (cases "ahead p") (auto simp: rmatch_cls)
next
  case (3 c d s)
  then show ?case using "3.IH" [of "skip 1 p"] by (cases "ahead p") (auto simp: rmatch_cls)
qed simp

lemma icase_ralt: "icase (ralt rs) = ralt (map icase rs)"
  by (induction rs rule: ralt.induct) simp_all

lemma search_words: "w \<in> set ws \<Longrightarrow> str_in w s \<Longrightarrow> re_search (icase (words ws)) s"
proof -
  assume w: "w \<in> set ws" "str_in w s"
  then obtain u v where s: "s = u @ w @ v" by (auto simp: str_in_decomp)
  have "rmatch (icase (rlit w)) Some (skip (length u) (start_pos s)) \<noteq> None"
    by (subst icase_lit) (simp_all add: s)
  then have "re_search (icase (rlit w)) s" unfolding re_search_iff
    by (intro exI [of _ "length u"]) (simp add: s)
  then show ?thesis using w(1) by (auto simp: words_def icase_ralt re_search_ralt)
qed

section \<open>Properties\<close>

text \<open>The tags of a command are exactly the techniques of the table whose pattern occurs in it, each once
  and in the order of the table; a blank line and bare navigation have none.\<close>

lemma classify_exact:
  "subseq (classify cmd) (map fst RULES) \<and> distinct (classify_ids cmd) \<and>
   (t \<in> set (classify cmd)) = (py_strip cmd \<noteq> [] \<and> re_match TRIVIAL (py_strip cmd) = None \<and>
      list_ex (\<lambda>(u, r). u = t \<and> re_search r (py_strip cmd)) RULES)"
proof (cases "py_strip cmd = [] \<or> re_match TRIVIAL (py_strip cmd) \<noteq> None")
  case True
  then show ?thesis by (auto simp: classify_def classify_ids_def)
next
  case False
  then have c: "classify cmd = classify_loop RULES (py_strip cmd) []" by (simp add: classify_def)
  have "t \<in> set (classify cmd)" if r: "(t, r) \<in> set RULES" "re_search r (py_strip cmd)" for r
  proof -
    obtain u where u: "u \<in> set (classify cmd)" "tech_id u = tech_id t"
      using classify_loop_complete [OF r, of "[]"] by (auto simp: c)
    then obtain r' where "(u, r') \<in> set RULES" using classify_loop_sound by (fastforce simp: c)
    then have "u = t" using RULES_distinct r(1) u(2) by (metis comp_apply distinct_map fst_conv inj_onD)
    then show ?thesis using u(1) by simp
  qed
  then have "(t \<in> set (classify cmd)) = list_ex (\<lambda>(u, r). u = t \<and> re_search r (py_strip cmd)) RULES"
    using classify_loop_sound [of t RULES "py_strip cmd" "[]"] by (fastforce simp: c list_ex_iff)
  then show ?thesis using False classify_loop_subseq [of RULES "py_strip cmd" "[]"]
      classify_loop_distinct [of RULES "py_strip cmd" "[]"]
    by (auto simp: c classify_ids_def)
qed

text \<open>A command that names the authorized-keys file anywhere, for instance in a redirection, is tagged
  as manipulation of SSH authorized keys.\<close>

lemma classify_authorized_keys:
  assumes "str_in ''authorized_keys'' (py_strip cmd)" "re_match TRIVIAL (py_strip cmd) = None"
  shows "''T1098.004'' \<in> set (classify_ids cmd)"
proof -
  let ?t = "Technique ''T1098.004'' ''Account Manipulation: SSH Authorized Keys'' ''persistence''"
  let ?ws = "[''authorized_keys'', ''.ssh/'', ''ssh-keygen'', ''ssh-copy-id'']"
  have "(?t, icase (words ?ws)) \<in> set RULES"
    unfolding RULES_def persistence_rules_def set_map set_append by auto
  moreover have "re_search (icase (words ?ws)) (py_strip cmd)"
    by (rule search_words [OF _ assms(1)]) simp
  ultimately have "tech_id ?t \<in> set (map tech_id (classify_loop RULES (py_strip cmd) []))"
    using classify_loop_complete [of ?t "icase (words ?ws)" RULES "py_strip cmd" "[]"] by simp
  moreover have "py_strip cmd \<noteq> []" using assms(1) by auto
  ultimately show ?thesis using assms(2) by (simp add: classify_ids_def classify_def Technique_def)
qed

end
