(* ===== verification/Py_Hash.thy ===== *)
theory Py_Hash
  imports Py_Prelude "HOL-Library.Word"
begin

unbundle bit_operations_syntax

text \<open>
  The parts of \<open>hashlib\<close> and \<open>datetime\<close> that the honeypot uses: SHA-256 over bytes, and the calendar
  behind \<open>strftime\<close>.
\<close>

section \<open>SHA-256\<close>

text \<open>\<open>s.encode("utf-8")\<close> of a string of code points below 256.\<close>

definition utf8 :: "string \<Rightarrow> bytestr" where
  "utf8 s = concat (map (\<lambda>c. if ord c < 128 then [c] else [char_of (192 + ord c div 64), char_of (128 + ord c mod 64)]) s)"

definition rotr :: "nat \<Rightarrow> 32 word \<Rightarrow> 32 word" where
  "rotr n w = drop_bit n w OR push_bit (32 - n) w"

definition sha_K :: "32 word list" where
  "sha_K =
    [1116352408, 1899447441, 3049323471, 3921009573, 961987163, 1508970993, 2453635748, 2870763221,
     3624381080, 310598401, 607225278, 1426881987, 1925078388, 2162078206, 2614888103, 3248222580,
     3835390401, 4022224774, 264347078, 604807628, 770255983, 1249150122, 1555081692, 1996064986,
     2554220882, 2821834349, 2952996808, 3210313671, 3336571891, 3584528711, 113926993, 338241895,
     666307205, 773529912, 1294757372, 1396182291, 1695183700, 1986661051, 2177026350, 2456956037,
     2730485921, 2820302411, 3259730800, 3345764771, 3516065817, 3600352804, 4094571909, 275423344,
     430227734, 506948616, 659060556, 883997877, 958139571, 1322822218, 1537002063, 1747873779,
     1955562222, 2024104815, 2227730452, 2361852424, 2428436474, 2756734187, 3204031479, 3329325298]"

definition sha_H0 :: "32 word list" where
  "sha_H0 = [1779033703, 3144134277, 1013904242, 2773480762, 1359893119, 2600822924, 528734635, 1541459225]"

definition be_bytes :: "nat \<Rightarrow> nat \<Rightarrow> bytestr" where
  "be_bytes n x = map (\<lambda>i. char_of (x div 256 ^ (n - 1 - i) mod 256)) [0..<n]"

definition sha_pad :: "bytestr \<Rightarrow> bytestr" where
  "sha_pad m = m @ [CHR 0x80] @ replicate ((119 - length m mod 64) mod 64) (CHR 0x00) @ be_bytes 8 (8 * length m)"

definition be_word :: "bytestr \<Rightarrow> 32 word" where
  "be_word bs = fold (\<lambda>c w. push_bit 8 w OR of_nat (ord c)) bs 0"

fun sha_words :: "bytestr \<Rightarrow> 32 word list" where
  "sha_words (a # b # c # d # bs) = be_word [a, b, c, d] # sha_words bs"
| "sha_words bs = []"

text \<open>The schedule is kept newest first: word \<open>t - k\<close> is at index \<open>k - 1\<close>.\<close>

definition sha_next :: "32 word list \<Rightarrow> 32 word" where
  "sha_next ws =
     (let w2 = ws ! 1; w7 = ws ! 6; w15 = ws ! 14; w16 = ws ! 15 in
      (rotr 17 w2 XOR rotr 19 w2 XOR drop_bit 10 w2) + w7 + (rotr 7 w15 XOR rotr 18 w15 XOR drop_bit 3 w15) + w16)"

definition sha_schedule :: "32 word list \<Rightarrow> 32 word list" where
  "sha_schedule block = rev (fold (\<lambda>_ ws. sha_next ws # ws) [0..<48] (rev block))"

fun sha_round :: "32 word \<times> 32 word \<Rightarrow> 32 word list \<Rightarrow> 32 word list" where
  "sha_round (k, w) [a, b, c, d, e, f, g, h] =
     (let t1 = h + (rotr 6 e XOR rotr 11 e XOR rotr 25 e) + ((e AND f) XOR (NOT e AND g)) + k + w;
          t2 = (rotr 2 a XOR rotr 13 a XOR rotr 22 a) + ((a AND b) XOR (a AND c) XOR (b AND c)) in
      [t1 + t2, a, b, c, d + t1, e, f, g])"
| "sha_round kw st = st"

definition sha_block :: "32 word list \<Rightarrow> 32 word list \<Rightarrow> 32 word list" where
  "sha_block block st = map2 (+) st (fold sha_round (zip sha_K (sha_schedule block)) st)"

fun sha_blocks :: "32 word list \<Rightarrow> 32 word list \<Rightarrow> 32 word list" where
  "sha_blocks ws st = (if length ws < 16 then st else sha_blocks (drop 16 ws) (sha_block (take 16 ws) st))"

declare sha_blocks.simps [simp del]

text \<open>\<open>hashlib.sha256(m).digest()\<close> and \<open>.hexdigest()\<close>.\<close>

definition sha256_digest :: "bytestr \<Rightarrow> bytestr" where
  "sha256_digest m = concat (map (\<lambda>w. be_bytes 4 (unat w)) (sha_blocks (sha_words (sha_pad m)) sha_H0))"

definition hex_char :: "nat \<Rightarrow> char" where
  "hex_char d = (if d < 10 then digit_char d else char_of (87 + d))"

definition hex_of_bytes :: "bytestr \<Rightarrow> string" where
  "hex_of_bytes bs = concat (map (\<lambda>c. [hex_char (ord c div 16), hex_char (ord c mod 16)]) bs)"

definition sha256_hex :: "bytestr \<Rightarrow> string" where
  "sha256_hex m = hex_of_bytes (sha256_digest m)"

text \<open>\<open>int.from_bytes(b, "big")\<close>.\<close>

definition int_of_bytes :: "bytestr \<Rightarrow> nat" where
  "int_of_bytes bs = fold (\<lambda>c n. 256 * n + ord c) bs 0"

section \<open>The calendar\<close>

text \<open>
  \<open>datetime.fromtimestamp(t, tz=timezone.utc)\<close> for \<open>t \<ge> 0\<close>: the fraction is rounded to
  microseconds, which may carry into the seconds; then the proleptic Gregorian date of the day.
\<close>

record date_time =
  dt_year :: nat
  dt_month :: nat
  dt_day :: nat
  dt_hour :: nat
  dt_minute :: nat
  dt_second :: nat

definition whole_seconds :: "rat \<Rightarrow> nat" where
  "whole_seconds t = (let s = \<lfloor>t\<rfloor>; us = round ((t - of_int s) * 1000000) in nat (if us \<ge> 1000000 then s + 1 else s))"

definition civil_of_days :: "nat \<Rightarrow> nat \<times> nat \<times> nat" where
  "civil_of_days days =
     (let z = days + 719468; era = z div 146097; doe = z mod 146097;
          yoe = (doe - doe div 1460 + doe div 36524 - doe div 146096) div 365;
          doy = doe - (365 * yoe + yoe div 4 - yoe div 100);
          mp = (5 * doy + 2) div 153;
          d = doy - (153 * mp + 2) div 5 + 1;
          m = (if mp < 10 then mp + 3 else mp - 9) in
      (yoe + era * 400 + (if m \<le> 2 then 1 else 0), m, d))"

definition from_timestamp :: "rat \<Rightarrow> date_time" where
  "from_timestamp t =
     (let s = whole_seconds t; (y, m, d) = civil_of_days (s div 86400); r = s mod 86400 in
      \<lparr>dt_year = y, dt_month = m, dt_day = d, dt_hour = r div 3600, dt_minute = r div 60 mod 60, dt_second = r mod 60\<rparr>)"

definition MONTHS :: "string list" where
  "MONTHS = [''Jan'', ''Feb'', ''Mar'', ''Apr'', ''May'', ''Jun'', ''Jul'', ''Aug'', ''Sep'', ''Oct'', ''Nov'', ''Dec'']"

definition two :: "nat \<Rightarrow> string" where "two n = zfill 2 (str_of_nat n)"

section \<open>Lemmas\<close>

lemma length_be_bytes [simp]: "length (be_bytes n x) = n"
  by (simp add: be_bytes_def)

lemma length_sha_round: "length (sha_round kw st) = length st"
  by (induction kw st rule: sha_round.induct) (simp_all add: Let_def)

lemma length_sha_fold: "length (fold sha_round kws st) = length st"
  by (induction kws arbitrary: st) (simp_all add: length_sha_round)

lemma length_sha_blocks: "length (sha_blocks ws st) = length st"
proof (induction ws st rule: sha_blocks.induct)
  case (1 ws st)
  have "length (sha_block (take 16 ws) st) = length st" by (simp add: sha_block_def length_sha_fold)
  then show ?case using 1 by (simp add: sha_blocks.simps [of ws st])
qed

text \<open>A digest has 32 bytes, its hexadecimal form 64 characters.\<close>

lemma length_sha256_digest [simp]: "length (sha256_digest m) = 32"
proof -
  have "length (concat (map (\<lambda>w. be_bytes 4 (unat (w :: 32 word))) ws)) = 4 * length ws" for ws
    by (induction ws) simp_all
  then show ?thesis by (simp add: sha256_digest_def length_sha_blocks sha_H0_def)
qed

lemma length_sha256_hex [simp]: "length (sha256_hex m) = 64"
proof -
  have "length (hex_of_bytes bs) = 2 * length bs" for bs by (induction bs) (simp_all add: hex_of_bytes_def)
  then show ?thesis by (simp add: sha256_hex_def)
qed

text \<open>A number and its bytes.\<close>

lemma int_of_bytes_acc: "fold (\<lambda>c n. 256 * n + ord c) bs a = a * 256 ^ length bs + int_of_bytes bs"
proof (induction bs arbitrary: a)
  case (Cons c bs)
  show ?case using Cons [of "256 * a + ord c"] Cons [of "ord c"] by (simp add: int_of_bytes_def algebra_simps)
qed (simp add: int_of_bytes_def)

lemma be_bytes_Suc: "be_bytes (Suc k) n = char_of (n div 256 ^ k mod 256) # be_bytes k n"
  unfolding be_bytes_def upt_conv_Cons [OF zero_less_Suc] list.map map_Suc_upt [symmetric] by simp

lemma int_of_bytes_be: "int_of_bytes (be_bytes k n) = n mod 256 ^ k"
proof (induction k)
  case 0
  then show ?case by (simp add: be_bytes_def int_of_bytes_def)
next
  case (Suc k)
  have "int_of_bytes (be_bytes (Suc k) n) = (n div 256 ^ k mod 256) * 256 ^ k + n mod 256 ^ k"
    using int_of_bytes_acc [of "be_bytes k n" "n div 256 ^ k mod 256"] Suc by (simp add: be_bytes_Suc int_of_bytes_def)
  also have "\<dots> = n mod (256 ^ k * 256)" using mod_mult2_eq [of n "256 ^ k" 256] by (simp only: mult.commute)
  also have "\<dots> = n mod 256 ^ Suc k" by (simp only: power_Suc mult.commute)
  finally show ?case .
qed

end
