(* ===== verification/Vfs.thy ===== *)
theory Vfs
  imports Worldstate Py_Hash "HOL-Library.List_Lexorder" "HOL-Library.Char_ord" "HOL-Library.Multiset"
begin

text \<open>
  \<open>src/cowrie/llm/vfs.py\<close>: the session's file system as \<open>ls\<close> and \<open>stat\<close> see it, a fixed skeleton
  overlaid with the files of the world state.
\<close>

section \<open>Nodes and the skeleton\<close>

datatype node_kind = KFile | KDir | KLink

record node =
  node_name :: string
  node_kind :: node_kind
  node_size :: nat
  node_mode :: nat
  node_uid :: nat
  node_gid :: nat
  link_target :: string
  node_mtime :: rat

text \<open>The octal literal \<open>0oabcd\<close>.\<close>

definition octal :: "nat \<Rightarrow> nat \<Rightarrow> nat \<Rightarrow> nat \<Rightarrow> nat" where
  "octal a b c d = 512 * a + 64 * b + 8 * c + d"

definition Node :: "string \<Rightarrow> node_kind \<Rightarrow> nat \<Rightarrow> nat \<Rightarrow> node" where
  "Node nm k sz m = \<lparr>node_name = nm, node_kind = k, node_size = sz, node_mode = m, node_uid = 0, node_gid = 0,
     link_target = [], node_mtime = 0\<rparr>"

definition owned :: "nat \<Rightarrow> node \<Rightarrow> node" where
  "owned uid n = n\<lparr>node_uid := uid, node_gid := uid\<rparr>"

definition link :: "string \<Rightarrow> nat \<Rightarrow> string \<Rightarrow> node" where
  "link nm sz target = (Node nm KLink sz (octal 0 7 7 7))\<lparr>link_target := target\<rparr>"

definition dir755 :: "string \<Rightarrow> node" where
  "dir755 nm = Node nm KDir 4096 (octal 0 7 5 5)"

definition file644 :: "string \<Rightarrow> nat \<Rightarrow> node" where
  "file644 nm sz = Node nm KFile sz (octal 0 6 4 4)"

definition uid_of :: "string \<Rightarrow> nat" where
  "uid_of username = (if username = ''root'' then 0 else 1000)"

definition base_skeleton :: "string \<Rightarrow> string \<Rightarrow> (string, node list) dict" where
  "base_skeleton home username =
     (let uid = uid_of username in
     [(''/'',
        [link ''bin'' 7 ''usr/bin'', dir755 ''boot'', dir755 ''dev'', dir755 ''etc'', dir755 ''home'',
         link ''lib'' 7 ''usr/lib'', dir755 ''media'', dir755 ''mnt'', dir755 ''opt'',
         Node ''proc'' KDir 0 (octal 0 5 5 5), Node ''root'' KDir 4096 (octal 0 7 0 0), dir755 ''run'',
         link ''sbin'' 8 ''usr/sbin'', dir755 ''srv'', Node ''sys'' KDir 0 (octal 0 5 5 5),
         Node ''tmp'' KDir 4096 (octal 1 7 7 7), dir755 ''usr'', dir755 ''var'']),
      (''/home'', if username = ''root'' then [] else [owned 1000 (dir755 username)]),
      (home,
        [owned uid (file644 ''.bashrc'' (if uid \<noteq> 0 then 3771 else 3526)),
         owned uid (file644 ''.profile'' (if uid \<noteq> 0 then 807 else 161)),
         owned uid (file644 ''.bash_logout'' 220),
         owned uid (Node ''.cache'' KDir 4096 (octal 0 7 0 0)),
         owned uid (Node ''.ssh'' KDir 4096 (octal 0 7 0 0))]),
      (''/tmp'', []), (''/var/tmp'', []), (''/dev/shm'', []),
      (''/etc'',
        [file644 ''hostname'' 12, file644 ''hosts'' 221, link ''os-release'' 21 ''../usr/lib/os-release'',
         file644 ''passwd'' 1684, file644 ''group'' 803,
         (Node ''shadow'' KFile 1043 (octal 0 6 4 0))\<lparr>node_gid := 42\<rparr>,
         link ''resolv.conf'' 39 ''../run/systemd/resolve/stub-resolv.conf'',
         file644 ''crontab'' 1042, file644 ''fstab'' 657, dir755 ''ssh'', dir755 ''cron.d'', dir755 ''systemd''])])"

definition home_for :: "string \<Rightarrow> string" where
  "home_for username = (if username = ''root'' then ''/root'' else ''/home/'' @ username)"

section \<open>Paths\<close>

fun pop_dots :: "string list \<Rightarrow> string list \<Rightarrow> string list" where
  "pop_dots [] out = out"
| "pop_dots (p # ps) out =
     (if p = ''..'' then pop_dots ps (if out \<noteq> [] then butlast out else out) else pop_dots ps (out @ [p]))"

definition path_parts :: "string \<Rightarrow> string list" where
  "path_parts path = pop_dots (filter (\<lambda>p. p \<notin> {[], ''.''}) (split_on (CHR ''/'') path)) []"

definition normpath :: "string \<Rightarrow> string" where
  "normpath path = (if path = [] then ''/'' else ''/'' @ py_join ''/'' (path_parts path))"

definition split_path :: "string \<Rightarrow> string \<times> string" where
  "split_path path0 =
     (let path = normpath path0 in
      if path = ''/'' then (''/'', [])
      else let parent = before_last (CHR ''/'') path; name = after_last (CHR ''/'') path in
        (if parent = [] then ''/'' else parent, name))"

section \<open>The view\<close>

record vfs =
  vfs_username :: string
  vfs_home :: string
  skeleton :: "(string, node list) dict"
  vfs_world :: world

definition VFS :: "world \<Rightarrow> string \<Rightarrow> vfs" where
  "VFS w username = \<lparr>vfs_username = username, vfs_home = home_for username,
     skeleton = base_skeleton (home_for username) username, vfs_world = w\<rparr>"

definition file_node :: "vfs \<Rightarrow> string \<Rightarrow> file_fact \<Rightarrow> node" where
  "file_node v nm ff = \<lparr>node_name = nm, node_kind = KFile, node_size = size_bytes ff, node_mode = octal 0 6 4 4,
     node_uid = uid_of (vfs_username v), node_gid = uid_of (vfs_username v), link_target = [], node_mtime = mtime ff\<rparr>"

fun overlay :: "vfs \<Rightarrow> string \<Rightarrow> string list \<Rightarrow> (string, file_fact) dict \<Rightarrow> node list" where
  "overlay v path seen [] = []"
| "overlay v path seen ((fpath, ff) # fs) =
     (case split_path fpath of (parent, nm) \<Rightarrow>
        if parent = path \<and> nm \<notin> set seen
        then file_node v nm ff # overlay v path (nm # seen) fs
        else overlay v path seen fs)"

definition dir_entries :: "vfs \<Rightarrow> string \<Rightarrow> node list option" where
  "dir_entries v path0 =
     (let path = normpath path0;
          base = map_of (skeleton v) path;
          entries = (case base of None \<Rightarrow> [] | Some ns \<Rightarrow> ns);
          over = overlay v path (map node_name entries) (files (vfs_world v)) in
      if base = None \<and> over = [] then None else Some (entries @ over))"

definition is_file :: "vfs \<Rightarrow> string \<Rightarrow> node option" where
  "is_file v path0 =
     (let path = normpath path0; (parent, nm) = split_path path in
      case map_of (files (vfs_world v)) path of
        Some ff \<Rightarrow> Some (file_node v nm ff)
      | None \<Rightarrow>
          List.find (\<lambda>n. node_name n = nm \<and> node_kind n \<in> {KFile, KLink})
            (case map_of (skeleton v) parent of None \<Rightarrow> [] | Some ns \<Rightarrow> ns))"

definition is_dir :: "vfs \<Rightarrow> string \<Rightarrow> bool" where
  "is_dir v path0 =
     (let path = normpath path0; (parent, nm) = split_path path in
      map_of (skeleton v) path \<noteq> None \<or>
      list_ex (\<lambda>n. node_name n = nm \<and> node_kind n = KDir)
        (case map_of (skeleton v) parent of None \<Rightarrow> [] | Some ns \<Rightarrow> ns))"

section \<open>Rendering\<close>

definition bit_set :: "nat \<Rightarrow> nat \<Rightarrow> bool" where "bit_set n b \<longleftrightarrow> n div b mod 2 = 1"

definition rwx :: "nat \<Rightarrow> string" where
  "rwx b = [if bit_set b 4 then CHR ''r'' else CHR ''-'', if bit_set b 2 then CHR ''w'' else CHR ''-'',
     if bit_set b 1 then CHR ''x'' else CHR ''-'']"

definition mode_string :: "node \<Rightarrow> string" where
  "mode_string n =
     (let first = (case node_kind n of KDir \<Rightarrow> CHR ''d'' | KLink \<Rightarrow> CHR ''l'' | KFile \<Rightarrow> CHR ''-'');
          perms = rwx (node_mode n div 64 mod 8) @ rwx (node_mode n div 8 mod 8) @ rwx (node_mode n mod 8) in
      first # (if bit_set (node_mode n) 512 \<and> node_kind n = KDir
        then butlast perms @ (if last perms = CHR ''x'' then ''t'' else ''T'') else perms))"

definition vfs_owner :: "nat \<Rightarrow> string \<Rightarrow> string" where
  "vfs_owner uid username =
     (if uid = 0 then ''root''
      else if uid = 1000 then (if username \<noteq> [] \<and> username \<noteq> ''root'' then username else ''ubuntu'')
      else if uid = 42 then ''shadow''
      else str_of_nat uid)"

text \<open>\<open>%b %e %H:%M\<close> and \<open>%Y-%m-%d %H:%M:%S\<close>.\<close>

definition fmt_time :: "rat \<Rightarrow> string" where
  "fmt_time t =
     (if t = 0 then ''Mar 14  2024''
      else let d = from_timestamp t in
        MONTHS ! (dt_month d - 1) @ '' '' @ rjust 2 (str_of_nat (dt_day d)) @ '' '' @ two (dt_hour d) @ '':'' @ two (dt_minute d))"

definition fmt_full_time :: "rat \<Rightarrow> string" where
  "fmt_full_time t =
     (if t = 0 then ''2024-03-14 09:12:33.000000000 +0000''
      else let d = from_timestamp t in
        str_of_nat (dt_year d) @ ''-'' @ two (dt_month d) @ ''-'' @ two (dt_day d) @ '' '' @
        two (dt_hour d) @ '':'' @ two (dt_minute d) @ '':'' @ two (dt_second d) @ ''.000000000 +0000'')"

definition ls_long_line :: "node \<Rightarrow> string \<Rightarrow> string \<Rightarrow> string" where
  "ls_long_line n username name_override =
     mode_string n @ '' '' @ rjust 2 (if node_kind n = KDir then ''2'' else ''1'') @ '' '' @
     ljust 8 (vfs_owner (node_uid n) username) @ '' '' @ ljust 8 (vfs_owner (node_gid n) username) @ '' '' @
     rjust 6 (str_of_nat (node_size n)) @ '' '' @ fmt_time (node_mtime n) @ '' '' @
     (if name_override \<noteq> [] then name_override else node_name n) @
     (if node_kind n = KLink then '' -> '' @ link_target n else [])"

text \<open>The entries \<open>ls\<close> shows, in its order.\<close>

definition sort_name :: "node \<Rightarrow> string" where
  "sort_name n = lstrip_by (\<lambda>c. c = CHR ''.'') (node_name n)"

definition dot_entries :: "vfs \<Rightarrow> string \<Rightarrow> string \<Rightarrow> node list" where
  "dot_entries v path username =
     (let dir_uid = (if path = vfs_home v \<and> username \<noteq> ''root'' then 1000 else 0);
          dmode = (if path = ''/tmp'' then octal 1 7 7 7 else if path = vfs_home v then octal 0 7 0 0 else octal 0 7 5 5) in
      [owned dir_uid (Node ''.'' KDir 4096 dmode), Node ''..'' KDir 4096 (octal 0 7 5 5)])"

definition ls_items :: "vfs \<Rightarrow> string \<Rightarrow> bool \<Rightarrow> string \<Rightarrow> node list \<Rightarrow> node list" where
  "ls_items v path all username entries =
     sort_key sort_name
       (if all then dot_entries v path username @ entries
        else filter (\<lambda>n. \<not> startswith (node_name n) ''.'') entries)"

definition render_ls :: "vfs \<Rightarrow> string \<Rightarrow> bool \<Rightarrow> bool \<Rightarrow> string \<Rightarrow> bool \<Rightarrow> string option" where
  "render_ls v path0 long all username one_per_line =
     (let path = normpath path0 in
      case (is_file v path, is_dir v path) of
        (Some n, False) \<Rightarrow> Some ((if long then ls_long_line n username path else path) @ [nl])
      | _ \<Rightarrow>
          (case dir_entries v path of
             None \<Rightarrow> None
           | Some entries \<Rightarrow>
               let items = ls_items v path all username entries in
               if \<not> long then
                 (if items = [] then Some []
                  else Some (py_join (if one_per_line then [nl] else ''  '') (map node_name items) @ [nl]))
               else
                 let total = sum_list (map (\<lambda>n. max 1 (node_size n div 1024)) items);
                     lines = (if items \<noteq> [] then [''total '' @ str_of_nat total] else []) @
                       map (\<lambda>n. ls_long_line n username []) items in
                 Some (py_join [nl] lines @ [nl])))"

definition fake_inode :: "string \<Rightarrow> nat" where
  "fake_inode path = 130000 + int_of_bytes (take 6 (sha256_digest (utf8 path))) mod 700000"

definition oct4 :: "nat \<Rightarrow> string" where
  "oct4 m = map digit_char [m div 512 mod 8, m div 64 mod 8, m div 8 mod 8, m mod 8]"

definition render_stat :: "vfs \<Rightarrow> string \<Rightarrow> string \<Rightarrow> string" where
  "render_stat v path0 username =
     (let path = normpath path0 in
      case (is_file v path, is_dir v path) of
        (None, False) \<Rightarrow> ''stat: cannot statx '' @ [squote] @ path @ [squote] @ '': No such file or directory'' @ [nl]
      | (nd, _) \<Rightarrow>
          let nm = snd (split_path path);
              n = (case nd of Some n \<Rightarrow> n | None \<Rightarrow> Node (if nm = [] then ''/'' else nm) KDir 4096 (octal 0 7 5 5));
              kind = (if node_kind n = KFile \<and> node_size n = 0 then ''regular empty file''
                else case node_kind n of KDir \<Rightarrow> ''directory'' | KLink \<Rightarrow> ''symbolic link'' | KFile \<Rightarrow> ''regular file'');
              mt = fmt_full_time (node_mtime n) in
          ''  File: '' @ path @ (if node_kind n = KLink then '' -> '' @ link_target n else []) @ [nl] @
          ''  Size: '' @ ljust 15 (str_of_nat (node_size n)) @ '' Blocks: '' @ ljust 10 (str_of_nat ((node_size n + 511) div 512)) @
          '' IO Block: 4096   '' @ kind @ [nl] @
          ''Device: fd01h/64769d'' @ [tab] @ ''Inode: '' @ ljust 11 (str_of_nat (fake_inode path)) @ '' Links: '' @
          (if node_kind n = KDir then ''2'' else ''1'') @ [nl] @
          ''Access: ('' @ oct4 (node_mode n) @ ''/'' @ mode_string n @ '')  Uid: ('' @ rjust 5 (str_of_nat (node_uid n)) @ ''/'' @
          rjust 8 (vfs_owner (node_uid n) username) @ '')   Gid: ('' @ rjust 5 (str_of_nat (node_gid n)) @ ''/'' @
          rjust 8 (vfs_owner (node_gid n) username) @ '')'' @ [nl] @
          ''Access: '' @ mt @ [nl] @ ''Modify: '' @ mt @ [nl] @ ''Change: '' @ mt @ [nl] @ '' Birth: -'' @ [nl])"

section \<open>Canonical paths\<close>

definition good_part :: "string \<Rightarrow> bool" where
  "good_part p \<longleftrightarrow> p \<noteq> [] \<and> p \<noteq> ''.'' \<and> p \<noteq> ''..'' \<and> CHR ''/'' \<notin> set p"

definition kept_part :: "string \<Rightarrow> bool" where
  "kept_part p \<longleftrightarrow> p \<noteq> [] \<and> p \<noteq> ''.'' \<and> CHR ''/'' \<notin> set p"

lemma kept_part_good: "kept_part p \<Longrightarrow> p \<noteq> ''..'' \<Longrightarrow> good_part p"
  by (simp add: kept_part_def good_part_def)

definition abs_path :: "string list \<Rightarrow> string" where
  "abs_path ps = ''/'' @ py_join ''/'' ps"

definition canonical :: "string \<Rightarrow> bool" where
  "canonical path \<longleftrightarrow> normpath path = path"

lemma pop_dots_good:
  "\<forall>p\<in>set ps. kept_part p \<Longrightarrow> \<forall>p\<in>set out. good_part p \<Longrightarrow>
   \<forall>p\<in>set (pop_dots ps out). good_part p"
proof (induction ps out rule: pop_dots.induct)
  case (2 p ps out)
  have ps: "\<forall>p\<in>set ps. kept_part p" using "2.prems"(1) by simp
  show ?case
  proof (cases "p = ''..''")
    case True
    have "\<forall>p\<in>set (if out \<noteq> [] then butlast out else out). good_part p"
      using "2.prems"(2) by (auto dest: in_set_butlastD)
    then show ?thesis using "2.IH"(1) [OF True ps] True by simp
  next
    case False
    have "good_part p" using "2.prems"(1) False by (intro kept_part_good) simp_all
    with "2.prems"(2) have "\<forall>p\<in>set (out @ [p]). good_part p" by simp
    then show ?thesis using "2.IH"(2) [OF False ps] unfolding pop_dots.simps if_not_P [OF False] by blast
  qed
qed simp

lemma path_parts_good: "p \<in> set (path_parts path) \<Longrightarrow> good_part p"
proof -
  let ?ps = "filter (\<lambda>p. p \<notin> {[], ''.''}) (split_on (CHR ''/'') path)"
  have "\<forall>p\<in>set ?ps. kept_part p" using split_on_parts [of _ "CHR ''/''" path] by (simp add: kept_part_def)
  then show "p \<in> set (path_parts path) \<Longrightarrow> good_part p"
    using pop_dots_good [of ?ps "[]"] by (simp add: path_parts_def)
qed

lemma pop_dots_id: "''..'' \<notin> set ps \<Longrightarrow> pop_dots ps out = out @ ps"
  by (induction ps arbitrary: out) auto

lemma path_parts_abs: "\<forall>p\<in>set ps. good_part p \<Longrightarrow> path_parts (abs_path ps) = ps"
proof -
  assume good: "\<forall>p\<in>set ps. good_part p"
  have split: "split_on (CHR ''/'') (abs_path ps) = [] # (if ps = [] then [[]] else ps)"
    using good split_on_join [of ps "CHR ''/''"] by (auto simp: abs_path_def good_part_def)
  have "filter (\<lambda>p. p \<notin> {[], ''.''}) ps = ps" using good by (auto simp: good_part_def filter_id_conv)
  moreover have "''..'' \<notin> set ps" using good by (auto simp: good_part_def)
  ultimately show ?thesis unfolding path_parts_def split by (simp add: pop_dots_id)
qed

lemma normpath_abs: "normpath path = abs_path (path_parts path)"
  by (simp add: normpath_def abs_path_def path_parts_def)

lemma canonical_normpath [simp]: "normpath (normpath path) = normpath path"
  using path_parts_abs [of "path_parts path"] path_parts_good [of _ path]
  by (simp add: normpath_abs)

lemma canonical_abs: "canonical path \<Longrightarrow> \<exists>ps. path = abs_path ps \<and> (\<forall>p\<in>set ps. good_part p)"
  by (metis canonical_def normpath_abs path_parts_good)

lemma cut_at_char:
  "c \<notin> set m \<Longrightarrow> takeWhile (\<lambda>x. x \<noteq> c) (m @ c # r) = m \<and> dropWhile (\<lambda>x. x \<noteq> c) (m @ c # r) = c # r"
  by (induction m) auto

lemma after_before_last: "c \<notin> set n \<Longrightarrow> after_last c (x @ c # n) = n \<and> before_last c (x @ c # n) = x"
  using cut_at_char [of c "rev n" "rev x"] by (simp add: after_last_def before_last_def)

lemma split_path_abs:
  assumes "\<forall>p\<in>set (ps @ [n]). good_part p"
  shows "split_path (abs_path (ps @ [n])) = (abs_path ps, n)"
proof -
  let ?x = "if ps = [] then [] else abs_path ps"
  have a: "abs_path (ps @ [n]) = ?x @ CHR ''/'' # n"
    by (simp add: abs_path_def py_join_append)
  have n: "normpath (abs_path (ps @ [n])) = abs_path (ps @ [n])"
    using assms by (simp only: normpath_abs path_parts_abs)
  have "CHR ''/'' \<notin> set n" "n \<noteq> []" using assms by (auto simp: good_part_def)
  then have "after_last (CHR ''/'') (abs_path (ps @ [n])) = n" "before_last (CHR ''/'') (abs_path (ps @ [n])) = ?x"
      "abs_path (ps @ [n]) \<noteq> ''/''"
    unfolding a using after_before_last [of "CHR ''/''" n ?x] by (simp_all add: abs_path_def)
  then show ?thesis unfolding split_path_def n Let_def by (auto simp: abs_path_def)
qed

text \<open>A canonical path other than the root is determined by its directory and its name.\<close>

lemma split_path_inj:
  assumes "canonical k" "canonical p" "p \<noteq> ''/''" "split_path k = split_path p"
  shows "k = p"
proof -
  obtain ks where ks: "k = abs_path ks" "\<forall>x\<in>set ks. good_part x" using canonical_abs [OF assms(1)] by blast
  obtain ps where ps: "p = abs_path ps" "\<forall>x\<in>set ps. good_part x" using canonical_abs [OF assms(2)] by blast
  have "ps \<noteq> []" using assms(3) ps(1) by (auto simp: abs_path_def)
  then obtain ps' n where n: "ps = ps' @ [n]" by (cases ps rule: rev_cases) auto
  have sp: "split_path p = (abs_path ps', n)" using split_path_abs [of ps' n] ps by (simp add: n)
  have "good_part n" using ps(2) n by simp
  then have "n \<noteq> []" unfolding good_part_def by blast
  have "ks \<noteq> []"
  proof
    assume "ks = []"
    then have "split_path k = (''/'', [])" by (simp add: ks(1) abs_path_def split_path_def normpath_def path_parts_def)
    then show False using assms(4) sp \<open>n \<noteq> []\<close> by simp
  qed
  then obtain ks' m where m: "ks = ks' @ [m]" by (cases ks rule: rev_cases) auto
  have "split_path k = (abs_path ks', m)" using split_path_abs [of ks' m] ks by (simp add: m)
  then have "m = n" "abs_path ks' = abs_path ps'" using assms(4) sp by auto
  moreover have "path_parts (abs_path ks') = ks'" "path_parts (abs_path ps') = ps'"
    using ks(2) ps(2) m n by (auto intro!: path_parts_abs)
  ultimately have "ks' = ps'" by metis
  then show ?thesis using ks ps m n \<open>m = n\<close> by simp
qed

lemma split_path_name: "canonical p \<Longrightarrow> p \<noteq> ''/'' \<Longrightarrow> canonical (fst (split_path p))"
proof -
  assume "canonical p" "p \<noteq> ''/''"
  then obtain ps where ps: "p = abs_path ps" "\<forall>x\<in>set ps. good_part x" using canonical_abs by blast
  then obtain ps' n where n: "ps = ps' @ [n]"
    using \<open>p \<noteq> ''/''\<close> by (cases ps rule: rev_cases) (auto simp: abs_path_def)
  then show ?thesis using split_path_abs [of ps' n] ps path_parts_abs [of ps']
    by (simp add: canonical_def normpath_abs)
qed

section \<open>The overlay\<close>

lemma overlay_seen: "nm \<in> set seen \<Longrightarrow> nm \<notin> node_name ` set (overlay v path seen fs)"
proof (induction fs arbitrary: seen)
  case (Cons kf fs)
  obtain k f parent m where kf: "kf = (k, f)" "split_path k = (parent, m)" by (metis surj_pair)
  show ?case using Cons.IH [of seen] Cons.IH [of "m # seen"] Cons.prems by (auto simp: kf file_node_def)
qed simp

lemma overlay_entry:
  assumes "canonical p" "p \<noteq> ''/''" "split_path p = (path, nm)"
  shows "\<forall>(k, f)\<in>set fs. canonical k \<Longrightarrow> nm \<notin> set seen \<Longrightarrow>
    filter (\<lambda>n. node_name n = nm) (overlay v path seen fs) =
      (case map_of fs p of None \<Rightarrow> [] | Some f \<Rightarrow> [file_node v nm f])"
proof (induction fs arbitrary: seen)
  case (Cons kf fs)
  obtain k f where kf: "kf = (k, f)" by (cases kf)
  obtain parent m where k: "split_path k = (parent, m)" by (cases "split_path k")
  show ?case
  proof (cases "k = p")
    case True
    have "filter (\<lambda>n. node_name n = nm) (overlay v path (nm # seen) fs) = []"
      using overlay_seen [of nm "nm # seen" v path fs] by (auto simp: filter_empty_conv)
    then show ?thesis using True assms(3) Cons.prems(2) by (simp add: kf file_node_def)
  next
    case False
    then have "split_path k \<noteq> split_path p" using split_path_inj [OF _ assms(1,2)] Cons.prems(1) kf by auto
    then have "parent = path \<Longrightarrow> m \<noteq> nm" using k assms(3) by auto
    then show ?thesis using Cons.IH [of seen] Cons.IH [of "m # seen"] Cons.prems False k
      by (auto simp: kf file_node_def)
  qed
qed simp

section \<open>Properties\<close>

text \<open>Normalising a path is idempotent, and the result is absolute and free of empty, dot and dot-dot
  components, whatever the attacker typed.\<close>

lemma normpath_canonical:
  "normpath (normpath path) = normpath path \<and> (\<exists>ps. normpath path = ''/'' @ py_join ''/'' ps \<and> list_all good_part ps)"
proof -
  have "list_all good_part (path_parts path)" using path_parts_good [of _ path] by (simp add: list_all_iff)
  then have "\<exists>ps. normpath path = ''/'' @ py_join ''/'' ps \<and> list_all good_part ps"
    using normpath_abs [of path] unfolding abs_path_def by blast
  then show ?thesis by (simp only: canonical_normpath simp_thms)
qed

text \<open>\<open>ls\<close> and \<open>stat\<close> agree about a file of the session: when the world records its files under canonical
  paths and the name does not shadow a skeleton entry, the listing of the file's directory holds exactly one
  entry of that name, and it is the very node (size, owner, mode, time) that \<open>stat\<close> looks at.\<close>

lemma ls_stat_agree:
  assumes "\<forall>(k, f)\<in>set (files w). canonical k" "canonical p" "p \<noteq> ''/''" "map_of (files w) p = Some f"
    and "split_path p = (parent, nm)"
    and "nm \<notin> node_name ` set (case map_of (skeleton (VFS w u)) parent of None \<Rightarrow> [] | Some ns \<Rightarrow> ns)"
  shows "\<exists>n es. is_file (VFS w u) p = Some n \<and> dir_entries (VFS w u) parent = Some es \<and>
    filter (\<lambda>e. node_name e = nm) es = [n] \<and> node_size n = size_bytes f"
proof -
  let ?v = "VFS w u"
  let ?base = "case map_of (skeleton ?v) parent of None \<Rightarrow> [] | Some ns \<Rightarrow> ns"
  let ?over = "overlay ?v parent (map node_name ?base) (files w)"
  have w: "vfs_world ?v = w" by (simp add: VFS_def)
  have np: "normpath p = p" "normpath parent = parent"
    using assms(2) split_path_name [OF assms(2,3)] assms(5) by (simp_all add: canonical_def)
  have found: "is_file ?v p = Some (file_node ?v nm f)"
    unfolding is_file_def Let_def np assms(5) w by (simp add: assms(4))
  have over: "filter (\<lambda>e. node_name e = nm) ?over = [file_node ?v nm f]"
    using overlay_entry [OF assms(2,3,5,1), of "map node_name ?base" ?v] assms(4,6) by simp
  then have "?over \<noteq> []" by auto
  then have es: "dir_entries ?v parent = Some (?base @ ?over)"
    unfolding dir_entries_def Let_def np w by simp
  have "filter (\<lambda>e. node_name e = nm) ?base = []" using assms(6) by (auto simp: filter_empty_conv)
  then show ?thesis using found es over by (auto simp: file_node_def)
qed

definition example_world :: world where
  "example_world = new_world\<lparr>files := [(''/tmp/x'', \<lparr>ff_path = ''/tmp/x'', size_bytes = 5, sha256 = None, mtime = 0,
     ff_source = Created, source_url = None, content_snippet = None\<rparr>)]\<rparr>"

lemma example_paths:
  "canonical ''/tmp/x''" "normpath ''/tmp'' = ''/tmp''" "normpath ''/tmp//x'' = ''/tmp/x''"
  "split_path ''/tmp/x'' = (''/tmp'', ''x'')" "split_path ''/tmp//x'' = (''/tmp'', ''x'')"
  by code_simp+

lemma example_tmp: "map_of (skeleton (VFS w username)) ''/tmp'' = Some []"
  by (simp add: VFS_def base_skeleton_def home_for_def Let_def)


text \<open>
  The hypothesis on the paths is needed: a file recorded under a path with a doubled slash is in
  the listing of its directory while \<open>stat\<close> on the same path finds nothing.
\<close>

lemma ls_stat_disagree:
  "let w = new_world\<lparr>files := [(''/tmp//x'', \<lparr>ff_path = ''/tmp//x'', size_bytes = 5, sha256 = None, mtime = 0,
     ff_source = Created, source_url = None, content_snippet = None\<rparr>)]\<rparr> in
   map_option (map node_name) (dir_entries (VFS w ''root'') ''/tmp'') = Some [''x''] \<and>
   is_file (VFS w ''root'') ''/tmp//x'' = None"
proof -
  have w: "vfs_world (VFS w ''root'') = w" for w by (simp add: VFS_def)
  show ?thesis
    by (simp add: dir_entries_def is_file_def example_paths example_tmp w new_world_def file_node_def Let_def)
qed

definition line_name :: "node \<Rightarrow> bool" where
  "line_name n \<longleftrightarrow> (\<forall>c\<in>set (node_name n). \<not> is_linebreak c)"

lemma ls_piped:
  assumes "is_file v path = None \<or> is_dir v path" "dir_entries v path = Some es" "list_all line_name es"
  shows "\<exists>out. render_ls v path False False username True = Some out \<and>
    mset (splitlines out) = mset (map node_name (filter (\<lambda>n. \<not> startswith (node_name n) ''.'') es)) \<and>
    sorted (map (lstrip_by (\<lambda>c. c = CHR ''.'')) (splitlines out))"
proof -
  let ?items = "ls_items v (normpath path) False username es"
  have nn: "is_file v (normpath path) = is_file v path" "is_dir v (normpath path) = is_dir v path"
      "dir_entries v (normpath path) = dir_entries v path"
    by (simp_all add: is_file_def is_dir_def dir_entries_def)
  define out where "out = (if ?items = [] then [] else py_join [nl] (map node_name ?items) @ [nl])"
  have out: "render_ls v path False False username True = Some out"
    using assms(1,2) by (cases "is_file v path"; cases "is_dir v path") (simp_all add: render_ls_def nn Let_def out_def)
  have set: "set ?items \<subseteq> set es" by (auto simp: ls_items_def)
  have "\<forall>l\<in>set (map node_name ?items). \<forall>c\<in>set l. \<not> is_linebreak c"
    using set assms(3) by (auto simp: list_all_iff line_name_def)
  then have lines: "splitlines out = map node_name ?items"
    using splitlines_concat [of "map node_name ?items"] join_nl_concat [of "map node_name ?items"]
    by (auto simp: out_def splitlines_def)
  have "map (lstrip_by (\<lambda>c. c = CHR ''.'')) (splitlines out) = map sort_name ?items"
    by (simp add: lines sort_name_def)
  moreover have "sorted (map sort_name ?items)" by (simp add: ls_items_def)
  ultimately have "sorted (map (lstrip_by (\<lambda>c. c = CHR ''.'')) (splitlines out))" by (simp only:)
  moreover have "mset (splitlines out) = mset (map node_name (filter (\<lambda>n. \<not> startswith (node_name n) ''.'') es))"
    unfolding lines ls_items_def by (simp only: mset_map mset_sort if_False)
  ultimately show ?thesis using out by blast
qed

text \<open>Into a pipe \<open>ls\<close> writes one visible entry per line, in the order of the names without their leading
  dots: the lines of its output are the names of the visible entries, each as often as it occurs.\<close>

lemma ls_one_per_line:
  assumes "is_file v path = None \<or> is_dir v path" "dir_entries v path = Some es" "list_all line_name es"
  shows "\<exists>out. render_ls v path False False username True = Some out \<and>
    mset (splitlines out) = mset (map node_name (filter (\<lambda>n. \<not> startswith (node_name n) ''.'') es)) \<and>
    sorted (map (lstrip_by (\<lambda>c. c = CHR ''.'')) (splitlines out))"
  using ls_piped [OF assms] .


end
