(* ===== verification/Interactive.thy ===== *)
theory Interactive
  imports Py_Hash
begin

text \<open>
  \<open>src/cowrie/llm/interactive.py\<close>: the programs that take over the terminal, \<open>top\<close>, \<open>vi\<close> and
  \<open>less\<close>, each a state machine over keystrokes. \<^const>\<open>None\<close> as the result of a key handler is an
  exception (an index outside the buffer), on which the protocol falls back to the prompt. Terminal
  heights are at least one. The save callback of \<open>vi\<close> is represented by the list of its calls.
\<close>

definition SEQ_CLEAR :: bytestr where "SEQ_CLEAR = [esc] @ ''[2J'' @ [esc] @ ''[H''"
definition SEQ_HOME :: bytestr where "SEQ_HOME = [esc] @ ''[H''"
definition SEQ_REVERSE :: bytestr where "SEQ_REVERSE = [esc] @ ''[7m''"
definition SEQ_RESET :: bytestr where "SEQ_RESET = [esc] @ ''[0m''"
definition SEQ_CLEAR_LINE :: bytestr where "SEQ_CLEAR_LINE = [esc] @ ''[K''"

record key_result =
  kr_output :: bytestr
  kr_done :: bool

definition keep :: "bytestr \<Rightarrow> key_result" where "keep out = \<lparr>kr_output = out, kr_done = False\<rparr>"
definition leave :: "bytestr \<Rightarrow> key_result" where "leave out = \<lparr>kr_output = out, kr_done = True\<rparr>"

section \<open>top\<close>

text \<open>The argument is what the frame provider returns at the time of the call, \<^const>\<open>None\<close> if it raises.\<close>

definition top_frame :: "string option \<Rightarrow> bytestr" where
  "top_frame provided =
     (let body = (case provided of Some b \<Rightarrow> b | None \<Rightarrow> ''top - load average: 0.00, 0.00, 0.00'' @ [nl]) in
      utf8 (concat (map (\<lambda>l. l @ [esc] @ ''[K'' @ [cr, nl]) (split_on nl (rstrip_by (\<lambda>c. c = nl) body)))))"

definition top_render_initial :: "string option \<Rightarrow> bytestr" where
  "top_render_initial f = SEQ_CLEAR @ top_frame f"

definition top_on_refresh :: "string option \<Rightarrow> bytestr" where
  "top_on_refresh f = SEQ_HOME @ top_frame f"

definition top_handle_key :: "string option \<Rightarrow> bytestr \<Rightarrow> key_result" where
  "top_handle_key f inp =
     (if CHR ''q'' \<in> set inp \<or> CHR ''Q'' \<in> set inp \<or> CHR 0x03 \<in> set inp then leave SEQ_RESET
      else keep (SEQ_HOME @ top_frame f))"

section \<open>vi\<close>

datatype vi_mode = Normal | Insert | Command

record vi =
  filename :: string
  rows :: nat
  has_on_save :: bool
  new_file :: bool
  vi_mode :: vi_mode
  cmdline :: string
  z_pending :: bool
  vi_lines :: "string list"
  cy :: nat
  cx :: nat
  dirty :: bool
  status_msg :: string
  saves :: "(string \<times> string) list"

definition new_vi :: "string \<Rightarrow> string \<Rightarrow> nat \<Rightarrow> bool \<Rightarrow> bool \<Rightarrow> vi" where
  "new_vi fname content nrows on_save is_new =
     \<lparr>filename = fname, rows = nrows, has_on_save = on_save, new_file = is_new, vi_mode = Normal, cmdline = [],
      z_pending = False, vi_lines = (if content \<noteq> [] then split_on nl content else [[]]), cy = 0, cx = 0,
      dirty = False, status_msg = [], saves = []\<rparr>"

definition current_content :: "vi \<Rightarrow> string" where
  "current_content s = py_join [nl] (vi_lines s)"

definition vi_save :: "vi \<Rightarrow> vi" where
  "vi_save s =
     (let s1 = s\<lparr>dirty := False, new_file := False\<rparr> in
      if has_on_save s \<and> filename s \<noteq> [] then s1\<lparr>saves := saves s @ [(filename s, current_content s)]\<rparr> else s1)"

subsection \<open>Rendering\<close>

definition status_bytes :: "vi \<Rightarrow> string \<Rightarrow> bytestr" where
  "status_bytes s t = [esc] @ ''['' @ str_of_nat (rows s) @ '';1H'' @ SEQ_CLEAR_LINE @ utf8 t"

definition default_status :: "vi \<Rightarrow> string" where
  "default_status s =
     (if new_file s then (if filename s \<noteq> [] then [dquote] @ filename s @ [dquote] @ '' [New]'' else ''[No Name]'')
      else [dquote] @ filename s @ [dquote] @ '' '' @ str_of_nat (length (vi_lines s)) @ ''L'')"

definition mode_status :: "vi \<Rightarrow> string" where
  "mode_status s =
     (if vi_mode s = Command then '':'' @ cmdline s
      else if status_msg s \<noteq> [] then status_msg s
      else if vi_mode s = Insert then ''-- INSERT --''
      else default_status s)"

definition vi_screen :: "vi \<Rightarrow> bytestr" where
  "vi_screen s =
     SEQ_HOME @
     concat (map (\<lambda>i. SEQ_CLEAR_LINE @
         (if i < length (vi_lines s) then utf8 (vi_lines s ! i)
          else if i = 0 \<and> \<not> list_ex (\<lambda>l. l \<noteq> []) (vi_lines s) then []
          else ''~'') @ [cr, nl]) [0..<rows s - 1]) @
     status_bytes s (mode_status s) @
     [esc] @ ''['' @ str_of_nat (cy s + 1) @ '';'' @ str_of_nat (cx s + 1) @ ''H''"

definition vi_render_initial :: "vi \<Rightarrow> bytestr" where
  "vi_render_initial s = SEQ_CLEAR @ vi_screen s"

subsection \<open>Keys\<close>

definition list_insert :: "nat \<Rightarrow> 'a \<Rightarrow> 'a list \<Rightarrow> 'a list" where
  "list_insert i x xs = take i xs @ [x] @ drop i xs"

definition leave_screen :: key_result where
  "leave_screen = leave (SEQ_RESET @ SEQ_CLEAR @ SEQ_HOME)"

definition key_normal :: "char \<Rightarrow> vi \<Rightarrow> (vi \<times> key_result) option" where
  "key_normal b s =
     (if cy s \<ge> length (vi_lines s) then None
      else let line = vi_lines s ! cy s in
      if b = CHR '':'' then
        (let s1 = s\<lparr>vi_mode := Command, cmdline := [], z_pending := False\<rparr> in Some (s1, keep (status_bytes s1 '':'')))
      else if b = CHR ''Z'' then
        (if z_pending s then Some (vi_save s, leave_screen) else Some (s\<lparr>z_pending := True\<rparr>, keep []))
      else let s1 = s\<lparr>z_pending := False\<rparr> in
        if b = CHR 0x03 then Some (s1, keep [CHR 0x07])
        else Some (
          if b = CHR ''i'' then s1\<lparr>vi_mode := Insert\<rparr>
          else if b = CHR ''a'' then s1\<lparr>cx := min (cx s + 1) (length line), vi_mode := Insert\<rparr>
          else if b = CHR ''A'' then s1\<lparr>cx := length line, vi_mode := Insert\<rparr>
          else if b = CHR ''I'' then s1\<lparr>cx := 0, vi_mode := Insert\<rparr>
          else if b = CHR ''o'' then
            s1\<lparr>vi_lines := list_insert (cy s + 1) [] (vi_lines s), cy := cy s + 1, cx := 0, vi_mode := Insert, dirty := True\<rparr>
          else if b = CHR ''O'' then
            s1\<lparr>vi_lines := list_insert (cy s) [] (vi_lines s), cx := 0, vi_mode := Insert, dirty := True\<rparr>
          else if b = CHR ''h'' \<or> b = CHR 0x7F then s1\<lparr>cx := cx s - 1\<rparr>
          else if b = CHR ''l'' then s1\<lparr>cx := min (length line) (cx s + 1)\<rparr>
          else if b = CHR ''j'' then
            (let y = min (length (vi_lines s) - 1) (cy s + 1) in s1\<lparr>cy := y, cx := min (cx s) (length (vi_lines s ! y))\<rparr>)
          else if b = CHR ''k'' then
            (let y = cy s - 1 in s1\<lparr>cy := y, cx := min (cx s) (length (vi_lines s ! y))\<rparr>)
          else if b = CHR ''0'' then s1\<lparr>cx := 0\<rparr>
          else if b = CHR ''$'' then s1\<lparr>cx := length line - 1\<rparr>
          else if b = CHR ''x'' \<and> line \<noteq> [] then
            (let line' = take (cx s) line @ drop (cx s + 1) line in
             s1\<lparr>vi_lines := (vi_lines s)[cy s := line'], cx := min (cx s) (length line' - 1), dirty := True\<rparr>)
          else s1, keep []))"

definition key_insert :: "char \<Rightarrow> vi \<Rightarrow> (vi \<times> key_result) option" where
  "key_insert b s =
     (if b = esc then Some (s\<lparr>vi_mode := Normal, cx := cx s - 1\<rparr>, keep [])
      else if cy s \<ge> length (vi_lines s) then None
      else let line = vi_lines s ! cy s in
      Some (
        if b = cr \<or> b = nl then
          s\<lparr>vi_lines := list_insert (cy s + 1) (drop (cx s) line) ((vi_lines s)[cy s := take (cx s) line]),
            cy := cy s + 1, cx := 0, dirty := True\<rparr>
        else if b = CHR 0x7F \<or> b = CHR 0x08 then
          (if cx s > 0 then
             s\<lparr>vi_lines := (vi_lines s)[cy s := take (cx s - 1) line @ drop (cx s) line], cx := cx s - 1, dirty := True\<rparr>
           else if cy s > 0 then
             (let prev = vi_lines s ! (cy s - 1);
                  ls = (vi_lines s)[cy s - 1 := prev @ line] in
              s\<lparr>vi_lines := take (cy s) ls @ drop (cy s + 1) ls, cx := length prev, cy := cy s - 1, dirty := True\<rparr>)
           else s\<lparr>dirty := True\<rparr>)
        else if is_printable_ascii b \<or> b = tab then
          s\<lparr>vi_lines := (vi_lines s)[cy s := take (cx s) line @ [b] @ drop (cx s) line], cx := cx s + 1, dirty := True\<rparr>
        else s, keep []))"

definition run_ex :: "string \<Rightarrow> vi \<Rightarrow> vi \<times> key_result" where
  "run_ex cmd s =
     (let base = before_first (CHR '' '') cmd in
      if base \<in> {''w'', ''write''} then
        ((vi_save s)\<lparr>status_msg := [dquote] @ (if filename s \<noteq> [] then filename s else ''noname'') @ [dquote] @ '' '' @
            str_of_nat (length (vi_lines s)) @ ''L written''\<rparr>, keep [])
      else if base \<in> {''wq'', ''x'', ''wq!'', ''x!''} \<or> startswith base ''wq'' then (vi_save s, leave_screen)
      else if base \<in> {''q!'', ''quit!''} then (s, leave_screen)
      else if base \<in> {''q'', ''quit''} then
        (if dirty s then (s\<lparr>status_msg := ''E37: No write since last change (add ! to override)''\<rparr>, keep [])
         else (s, leave_screen))
      else (s\<lparr>status_msg := ''E492: Not an editor command: '' @ cmd\<rparr>, keep []))"

definition key_command :: "char \<Rightarrow> vi \<Rightarrow> vi \<times> key_result" where
  "key_command b s =
     (if b = cr \<or> b = nl then run_ex (py_strip (cmdline s)) (s\<lparr>cmdline := [], vi_mode := Normal\<rparr>)
      else if b = CHR 0x7F \<or> b = CHR 0x08 then
        (let s1 = s\<lparr>cmdline := butlast (cmdline s)\<rparr> in
         if cmdline s1 = [] then (let s2 = s1\<lparr>vi_mode := Normal\<rparr> in (s2, keep (status_bytes s2 (default_status s2))))
         else (s1, keep (status_bytes s1 ('':'' @ cmdline s1))))
      else if b = esc then
        (let s1 = s\<lparr>cmdline := [], vi_mode := Normal\<rparr> in (s1, keep (status_bytes s1 (default_status s1))))
      else (let s1 = s\<lparr>cmdline := cmdline s @ [b]\<rparr> in (s1, keep (status_bytes s1 ('':'' @ cmdline s1)))))"

definition vi_key :: "char \<Rightarrow> vi \<Rightarrow> (vi \<times> key_result) option" where
  "vi_key b s =
     (case vi_mode s of
        Command \<Rightarrow> Some (key_command b s)
      | Insert \<Rightarrow> key_insert b s
      | Normal \<Rightarrow> key_normal b s)"

text \<open>The loop of \<open>handle_key\<close>: stop at the first key that leaves the program.\<close>

fun vi_keys :: "vi \<Rightarrow> bytestr \<Rightarrow> (vi \<times> key_result) option" where
  "vi_keys s [] = Some (s, keep (vi_screen s))"
| "vi_keys s (b # bs) =
     (case vi_key b s of
        None \<Rightarrow> None
      | Some (s', r) \<Rightarrow> if kr_done r then Some (s', r) else vi_keys s' bs)"

definition vi_handle_key :: "vi \<Rightarrow> bytestr \<Rightarrow> (vi \<times> key_result) option" where
  "vi_handle_key s inp = vi_keys (s\<lparr>status_msg := []\<rparr>) inp"

section \<open>less\<close>

record less =
  less_content :: string
  less_rows :: nat
  less_offset :: nat

definition less_lines :: "less \<Rightarrow> string list" where
  "less_lines s = split_on nl (less_content s)"

definition less_page :: "less \<Rightarrow> bytestr" where
  "less_page s =
     (let ls = less_lines s; page = less_rows s - 1; window = take page (drop (less_offset s) ls) in
      SEQ_HOME @ concat (map (\<lambda>l. SEQ_CLEAR_LINE @ utf8 l @ [cr, nl]) window) @
      concat (replicate (page - length window) (SEQ_CLEAR_LINE @ [cr, nl])) @
      SEQ_REVERSE @ (if less_offset s + page \<ge> length ls then ''(END)'' else '':'') @ SEQ_RESET)"

definition less_render_initial :: "less \<Rightarrow> bytestr" where
  "less_render_initial s = SEQ_CLEAR @ less_page s"

definition less_handle_key :: "less \<Rightarrow> bytestr \<Rightarrow> less \<times> key_result" where
  "less_handle_key s inp =
     (if CHR ''q'' \<in> set inp \<or> CHR ''Q'' \<in> set inp then (s, leave (SEQ_RESET @ [cr, nl]))
      else let n = length (less_lines s); page = less_rows s - 1 in
      if CHR '' '' \<in> set inp \<or> CHR ''f'' \<in> set inp \<or> CHR 0x06 \<in> set inp then
        (if less_offset s + page \<ge> n then (s, leave (SEQ_RESET @ [cr, nl]))
         else let s1 = s\<lparr>less_offset := less_offset s + page\<rparr> in (s1, keep (less_page s1)))
      else if CHR ''b'' \<in> set inp \<or> CHR 0x02 \<in> set inp then
        (let s1 = s\<lparr>less_offset := less_offset s - page\<rparr> in (s1, keep (less_page s1)))
      else if cr \<in> set inp \<or> nl \<in> set inp then
        (let s1 = (if less_offset s + page < n then s\<lparr>less_offset := less_offset s + 1\<rparr> else s) in (s1, keep (less_page s1)))
      else (s, keep []))"

section \<open>The factory\<close>

datatype program = TopProgram | ViProgram vi | LessProgram less

text \<open>
  \<open>make_program\<close>: the file lookup is an argument, as in the code; \<open>has_top\<close> and \<open>has_save\<close> say whether the
  frame provider and the save callback were passed.
\<close>

definition make_program ::
  "string \<Rightarrow> (string \<Rightarrow> string option) option \<Rightarrow> bool \<Rightarrow> bool \<Rightarrow> nat \<Rightarrow> program option"
where
  "make_program command file_content has_top has_save nrows =
     (case split_ws (py_strip command) of
        [] \<Rightarrow> None
      | prog # args \<Rightarrow>
          let targets = filter (\<lambda>a. \<not> startswith a ''-'') args in
          if prog \<in> {''top'', ''htop''} then
            (let flags = concat (map (drop 1) (filter (\<lambda>a. startswith a ''-'' \<and> \<not> startswith a ''--'') args)) in
             if CHR ''b'' \<in> set flags \<or> ''--batch'' \<in> set args then None
             else if \<not> has_top then None
             else Some TopProgram)
          else if prog \<in> {''vi'', ''vim'', ''view'', ''nvim''} then
            (let path = (case targets of [] \<Rightarrow> [] | t # _ \<Rightarrow> t);
                 got = (case file_content of None \<Rightarrow> None | Some f \<Rightarrow> if path \<noteq> [] then f path else None) in
             Some (ViProgram (case got of
                 Some c \<Rightarrow> new_vi path c nrows has_save False
               | None \<Rightarrow> new_vi path [] nrows has_save True)))
          else if prog \<in> {''less'', ''more'', ''most'', ''pg''} then
            (case (targets, file_content) of
               (t # _, Some f) \<Rightarrow>
                 (case f t of
                    None \<Rightarrow> None
                  | Some c \<Rightarrow> Some (LessProgram \<lparr>less_content = c, less_rows = nrows, less_offset = 0\<rparr>))
             | _ \<Rightarrow> None)
          else None)"

section \<open>The editor's invariant\<close>

text \<open>The cursor is inside the buffer, and no line holds a line feed.\<close>

definition cursor_ok :: "string list \<Rightarrow> nat \<Rightarrow> nat \<Rightarrow> bool" where
  "cursor_ok ls y x \<longleftrightarrow> y < length ls \<and> x \<le> length (ls ! y) \<and> (\<forall>l\<in>set ls. nl \<notin> set l)"

definition vi_ok :: "vi \<Rightarrow> bool" where
  "vi_ok s \<longleftrightarrow> cursor_ok (vi_lines s) (cy s) (cx s)"

lemma vi_ok_new: "vi_ok (new_vi fname content nrows on_save is_new)"
proof -
  have "split_on nl content \<noteq> []" by simp
  then show ?thesis using split_on_parts [of _ nl content] by (auto simp: vi_ok_def cursor_ok_def new_vi_def)
qed

lemma set_list_insert: "set (list_insert i x xs) = insert x (set xs)"
  by (simp add: list_insert_def) (metis append_take_drop_id set_append)

lemma length_list_insert [simp]: "length (list_insert i x xs) = Suc (length xs)"
  by (simp add: list_insert_def)

lemma nth_list_insert: "i \<le> length xs \<Longrightarrow> list_insert i x xs ! i = x"
  by (simp add: list_insert_def nth_append)

lemma cursor_move: "cursor_ok ls y x \<Longrightarrow> y' < length ls \<Longrightarrow> x' \<le> length (ls ! y') \<Longrightarrow> cursor_ok ls y' x'"
  by (simp add: cursor_ok_def)

lemma cursor_replace:
  "cursor_ok ls y x \<Longrightarrow> nl \<notin> set l \<Longrightarrow> x' \<le> length l \<Longrightarrow> cursor_ok (ls[y := l]) y x'"
  by (auto simp: cursor_ok_def dest!: set_update_subset_insert [THEN subsetD])

lemma cursor_insert:
  "cursor_ok ls y x \<Longrightarrow> i \<le> length ls \<Longrightarrow> nl \<notin> set l \<Longrightarrow> cursor_ok (list_insert i l ls) i 0"
  by (simp add: cursor_ok_def set_list_insert nth_list_insert)

lemma cursor_line: "cursor_ok ls y x \<Longrightarrow> y < length ls \<and> x \<le> length (ls ! y) \<and> nl \<notin> set (ls ! y)"
  by (auto simp: cursor_ok_def)

lemma no_nl_cut: "nl \<notin> set l \<Longrightarrow> nl \<notin> set (take m l) \<and> nl \<notin> set (drop n l)"
  by (auto dest: in_set_takeD in_set_dropD)

lemma key_normal_ok: "vi_ok s \<Longrightarrow> \<exists>s' r. key_normal b s = Some (s', r) \<and> vi_ok s'"
proof -
  assume ok: "vi_ok s"
  let ?ls = "vi_lines s" and ?y = "cy s" and ?x = "cx s"
  have c: "cursor_ok ?ls ?y ?x" using ok by (simp add: vi_ok_def)
  note line = cursor_line [OF c]
  have move: "cursor_ok ?ls y x" if "y < length ?ls" "x \<le> length (?ls ! y)" for x y
    using cursor_move [OF c that] .
  have del: "cursor_ok (?ls[?y := take ?x (?ls ! ?y) @ drop (Suc ?x) (?ls ! ?y)]) ?y x"
    if "x \<le> ?x + (length (?ls ! ?y) - Suc ?x)" for x
    using line no_nl_cut [of "?ls ! ?y"] that by (intro cursor_replace [OF c]) auto
  have new: "cursor_ok (list_insert i [] ?ls) i 0" if "i \<le> length ?ls" for i
    using cursor_insert [OF c that] by simp
  have up: "cursor_ok ?ls (?y - Suc 0) (min ?x (length (?ls ! (?y - Suc 0))))"
    and down: "cursor_ok ?ls (min (length ?ls - Suc 0) (Suc ?y)) (min ?x (length (?ls ! min (length ?ls - Suc 0) (Suc ?y))))"
    and left: "cursor_ok ?ls ?y (?x - Suc 0)" using line by (auto intro!: move)
  show ?thesis using line c
    by (simp add: key_normal_def Let_def vi_ok_def vi_save_def move up down left del new)
qed

lemma key_insert_ok: "vi_ok s \<Longrightarrow> \<exists>s' r. key_insert b s = Some (s', r) \<and> vi_ok s'"
proof -
  assume ok: "vi_ok s"
  let ?ls = "vi_lines s" and ?y = "cy s" and ?x = "cx s"
  let ?l = "?ls ! ?y"
  have c: "cursor_ok ?ls ?y ?x" using ok by (simp add: vi_ok_def)
  note line = cursor_line [OF c]
  note cut = no_nl_cut [of ?l]
  have c1: "cursor_ok (?ls[?y := take ?x ?l]) ?y 0" using line cut by (intro cursor_replace [OF c]) auto
  have brk: "cursor_ok (list_insert (Suc ?y) (drop ?x ?l) (?ls[?y := take ?x ?l])) (Suc ?y) 0"
    using line cut by (intro cursor_insert [OF c1]) auto
  have typed: "cursor_ok (?ls[?y := take ?x ?l @ b # drop ?x ?l]) ?y (Suc ?x)" if "b \<noteq> nl"
    using line cut that by (intro cursor_replace [OF c]) auto
  have erased: "cursor_ok (?ls[?y := take (?x - Suc 0) ?l @ drop ?x ?l]) ?y (?x - Suc 0)"
    using line cut by (intro cursor_replace [OF c]) auto
  let ?prev = "?ls ! (?y - Suc 0)" and ?ls' = "?ls[?y - Suc 0 := ?ls ! (?y - Suc 0) @ ?l]"
  have join: "cursor_ok (take ?y ?ls' @ drop (Suc ?y) ?ls') (?y - Suc 0) (length ?prev)" if "?y > 0"
  proof -
    have "?prev \<in> set ?ls" using line by (intro nth_mem) linarith
    then have prev: "nl \<notin> set ?prev" using c by (simp add: cursor_ok_def)
    have "cursor_ok ?ls' (?y - Suc 0) (length ?prev)"
      using cursor_replace [OF cursor_move [OF c, of "?y - Suc 0" 0], of "?prev @ ?l" "length ?prev"] line prev
        less_imp_diff_less [of ?y "length ?ls" "Suc 0"] by simp
    moreover have "set (take ?y ?ls' @ drop (Suc ?y) ?ls') \<subseteq> set ?ls'"
      using set_take_subset [of ?y ?ls'] set_drop_subset [of "Suc ?y" ?ls'] by simp
    moreover have "(take ?y ?ls' @ drop (Suc ?y) ?ls') ! (?y - Suc 0) = ?ls' ! (?y - Suc 0)"
      using that line by (simp add: nth_append)
    ultimately show ?thesis using that line by (auto simp: cursor_ok_def)
  qed
  have left: "cursor_ok ?ls ?y (?x - Suc 0)" using line by (intro cursor_move [OF c]) auto
  consider (escape) "b = esc" | (newline) "b = cr \<or> b = nl" | (backspace) "b = CHR 0x7F \<or> b = CHR 0x08"
    | (other) "b \<noteq> esc" "b \<noteq> cr" "b \<noteq> nl" "b \<noteq> CHR 0x7F" "b \<noteq> CHR 0x08" by blast
  then show ?thesis
  proof cases
    case escape
    then show ?thesis using left by (simp add: key_insert_def vi_ok_def)
  next
    case newline
    then show ?thesis using brk line by (auto simp: key_insert_def Let_def vi_ok_def)
  next
    case backspace
    then have "b \<noteq> esc" "b \<noteq> cr" "b \<noteq> nl" by auto
    then show ?thesis using backspace erased join c line
      by (cases "cx s > 0"; cases "cy s > 0") (simp_all add: key_insert_def Let_def vi_ok_def)
  next
    case other
    then show ?thesis using typed c line by (auto simp: key_insert_def Let_def vi_ok_def)
  qed
qed

lemma run_ex_ok: "vi_ok s \<Longrightarrow> vi_ok (fst (run_ex cmd s))"
  by (simp add: run_ex_def Let_def vi_ok_def vi_save_def)

lemma key_command_ok: "vi_ok s \<Longrightarrow> vi_ok (fst (key_command b s))"
proof -
  assume ok: "vi_ok s"
  then have "vi_ok (s\<lparr>cmdline := [], vi_mode := Normal\<rparr>)" by (simp add: vi_ok_def)
  from run_ex_ok [OF this] ok show ?thesis by (simp add: key_command_def Let_def vi_ok_def)
qed

lemma vi_key_ok: "vi_ok s \<Longrightarrow> \<exists>s' r. vi_key b s = Some (s', r) \<and> vi_ok s'"
  using key_normal_ok [of s b] key_insert_ok [of s b] key_command_ok [of s b]
  by (cases "vi_mode s"; cases "key_command b s") (auto simp: vi_key_def)

lemma vi_keys_ok: "vi_ok s \<Longrightarrow> \<exists>s' r. vi_keys s bs = Some (s', r) \<and> vi_ok s'"
proof (induction bs arbitrary: s)
  case (Cons b bs)
  obtain s' r where "vi_key b s = Some (s', r)" "vi_ok s'" using vi_key_ok [OF Cons.prems] by blast
  then show ?case using Cons.IH [of s'] by simp
qed simp

section \<open>The interface\<close>

text \<open>The protocol's loop over the chunks that arrive while the program has the terminal.\<close>

fun session :: "('s \<Rightarrow> bytestr \<Rightarrow> ('s \<times> key_result) option) \<Rightarrow> 's \<Rightarrow> bytestr list \<Rightarrow> ('s \<times> bytestr \<times> bool) option" where
  "session handle s [] = Some (s, [], False)"
| "session handle s (c # cs) =
     (case handle s c of
        None \<Rightarrow> None
      | Some (s', r) \<Rightarrow>
          if kr_done r then Some (s', kr_output r, True)
          else (case session handle s' cs of None \<Rightarrow> None | Some (t, out, d) \<Rightarrow> Some (t, kr_output r @ out, d)))"

text \<open>
  What the protocol relies on: in a state that satisfies the program's invariant a key chunk is
  handled without an exception and leads to such a state again, and there is a key sequence that leaves the
  program from every such state.
\<close>

locale interactive_program =
  fixes ok :: "'s \<Rightarrow> bool"
    and handle :: "'s \<Rightarrow> bytestr \<Rightarrow> ('s \<times> key_result) option"
    and quit_keys :: bytestr
  assumes handle_ok: "ok s \<Longrightarrow> \<exists>s' r. handle s inp = Some (s', r) \<and> ok s'"
    and handle_quit: "ok s \<Longrightarrow> \<exists>s' r. handle s quit_keys = Some (s', r) \<and> kr_done r"
begin

lemma session_ok: "ok s \<Longrightarrow> \<exists>s' out d. session handle s cs = Some (s', out, d) \<and> ok s'"
proof (induction cs arbitrary: s)
  case (Cons c cs)
  obtain s1 r where 1: "handle s c = Some (s1, r)" "ok s1" using handle_ok [OF Cons.prems] by blast
  obtain s2 out d where "session handle s1 cs = Some (s2, out, d)" "ok s2" using Cons.IH [OF 1(2)] by blast
  then show ?case using 1 by (cases "kr_done r") (auto intro: exI [of _ True])
qed (auto intro: exI [of _ False])

text \<open>Whatever was typed before, the quit sequence ends the program.\<close>

lemma session_quits: "ok s \<Longrightarrow> \<exists>s' out. session handle s (cs @ [quit_keys]) = Some (s', out, True)"
proof (induction cs arbitrary: s)
  case Nil
  then show ?case using handle_quit [OF Nil] by auto
next
  case (Cons c cs)
  obtain s1 r where 1: "handle s c = Some (s1, r)" "ok s1" using handle_ok [OF Cons.prems] by blast
  obtain s2 out where "session handle s1 (cs @ [quit_keys]) = Some (s2, out, True)" using Cons.IH [OF 1(2)] by blast
  then show ?case using 1 by auto
qed

end

definition less_ok :: "less \<Rightarrow> bool" where
  "less_ok s \<longleftrightarrow> less_rows s \<ge> 2 \<and> less_offset s < length (less_lines s)"

lemma less_handle_ok: "less_ok s \<Longrightarrow> less_ok (fst (less_handle_key s inp))"
  by (auto simp: less_handle_key_def less_ok_def less_lines_def Let_def)

definition VI_QUIT :: bytestr where "VI_QUIT = [esc] @ '':q!'' @ [cr]"

text \<open>From normal mode the ex command \<open>cmd\<close> is collected and run.\<close>

lemma vi_ex_command:
  assumes ok: "cy s < length (vi_lines s)" "vi_mode s = Normal"
    and cmd: "cmd \<noteq> []" "\<forall>c\<in>set cmd. is_printable_ascii c"
  shows "vi_keys s ('':'' @ cmd @ [cr] @ rest) =
    (case run_ex (py_strip cmd) (s\<lparr>z_pending := False, cmdline := [], vi_mode := Normal\<rparr>) of
       (s', r) \<Rightarrow> if kr_done r then Some (s', r) else vi_keys s' rest)"
proof -
  have collect: "vi_keys t (w @ [cr] @ rest) = vi_keys (t\<lparr>cmdline := cmdline t @ w\<rparr>) ([cr] @ rest)"
    if "vi_mode t = Command" "\<forall>c\<in>set w. is_printable_ascii c" for t w
    using that
  proof (induction w arbitrary: t)
    case (Cons c w)
    have c: "c \<noteq> cr" "c \<noteq> nl" "c \<noteq> CHR 0x7F" "c \<noteq> CHR 0x08" "c \<noteq> esc"
      using Cons.prems(2) by (auto simp: is_printable_ascii_def)
    let ?t = "t\<lparr>cmdline := cmdline t @ [c]\<rparr>"
    have "vi_keys t ((c # w) @ [cr] @ rest) = vi_keys ?t (w @ [cr] @ rest)"
      using Cons.prems(1) c by (simp add: vi_key_def key_command_def Let_def keep_def)
    also have "\<dots> = vi_keys (?t\<lparr>cmdline := cmdline ?t @ w\<rparr>) ([cr] @ rest)"
      using Cons.prems by (intro Cons.IH) auto
    finally show ?case by simp
  qed simp
  let ?s1 = "s\<lparr>vi_mode := Command, cmdline := [], z_pending := False\<rparr>"
  have "vi_keys s ('':'' @ cmd @ [cr] @ rest) = vi_keys ?s1 (cmd @ [cr] @ rest)"
    using ok by (simp add: vi_key_def key_normal_def Let_def keep_def)
  also have "\<dots> = vi_keys (?s1\<lparr>cmdline := cmd\<rparr>) ([cr] @ rest)"
    using collect [of ?s1 cmd] cmd(2) by simp
  also have "\<dots> = (case run_ex (py_strip cmd) (s\<lparr>z_pending := False, cmdline := [], vi_mode := Normal\<rparr>) of
       (s', r) \<Rightarrow> if kr_done r then Some (s', r) else vi_keys s' rest)"
    by (simp add: vi_key_def key_command_def)
  finally show ?thesis .
qed

lemma vi_escape:
  assumes "vi_ok s"
  obtains s' r where "vi_key esc s = Some (s', r)" "\<not> kr_done r" "vi_mode s' = Normal" "vi_ok s'"
proof -
  obtain s' r where k: "vi_key esc s = Some (s', r)" "vi_ok s'" using vi_key_ok [OF assms] by blast
  moreover have "\<not> kr_done r \<and> vi_mode s' = Normal"
    using k(1) by (auto simp: vi_key_def key_normal_def key_insert_def key_command_def keep_def Let_def
        split: vi_mode.splits if_splits)
  ultimately show ?thesis using that by blast
qed

lemma vi_quit: "vi_ok s \<Longrightarrow> \<exists>s' r. vi_handle_key s VI_QUIT = Some (s', r) \<and> kr_done r"
proof -
  assume "vi_ok s"
  then have ok: "vi_ok (s\<lparr>status_msg := []\<rparr>)" by (simp add: vi_ok_def)
  then obtain s' r where k: "vi_key esc (s\<lparr>status_msg := []\<rparr>) = Some (s', r)" "\<not> kr_done r" "vi_mode s' = Normal" "vi_ok s'"
    by (rule vi_escape)
  have "vi_handle_key s VI_QUIT = vi_keys s' ('':'' @ ''q!'' @ [cr] @ [])"
    using k(1,2) by (simp add: vi_handle_key_def VI_QUIT_def)
  also have "\<dots> = Some (s'\<lparr>z_pending := False, cmdline := [], vi_mode := Normal\<rparr>, leave_screen)"
    using vi_ex_command [OF _ k(3), of "''q!''" "[]"] k(4) unfolding vi_ok_def cursor_ok_def
    by (simp del: vi_keys.simps add: is_printable_ascii_def run_ex_def leave_screen_def leave_def before_first_def strip_by_def lstrip_by_def rstrip_by_def is_space_def)
  finally show ?thesis by (simp add: leave_screen_def leave_def)
qed

interpretation top_prog: interactive_program "\<lambda>_. True" "\<lambda>s inp. Some (s, top_handle_key s inp)" "''q''"
  by unfold_locales (auto simp: top_handle_key_def leave_def)

interpretation vi_prog: interactive_program vi_ok vi_handle_key VI_QUIT
proof
  fix s inp
  assume "vi_ok s"
  then show "\<exists>s' r. vi_handle_key s inp = Some (s', r) \<and> vi_ok s'"
    unfolding vi_handle_key_def by (intro vi_keys_ok) (simp add: vi_ok_def)
qed (rule vi_quit)

interpretation less_prog: interactive_program less_ok "\<lambda>s inp. Some (less_handle_key s inp)" "''q''"
proof
  fix s inp
  assume "less_ok s"
  then show "\<exists>s' r. Some (less_handle_key s inp) = Some (s', r) \<and> less_ok s'"
    using less_handle_ok [of s inp] by (cases "less_handle_key s inp") simp
qed (simp add: less_handle_key_def leave_def)

section \<open>Typing\<close>

text \<open>Insert mode with the cursor behind the last character of the buffer.\<close>

definition at_end :: "vi \<Rightarrow> bool" where
  "at_end s \<longleftrightarrow> vi_mode s = Insert \<and> vi_lines s \<noteq> [] \<and> cy s = length (vi_lines s) - 1 \<and> cx s = length (last (vi_lines s))"

definition typeable :: "char \<Rightarrow> bool" where
  "typeable c \<longleftrightarrow> is_printable_ascii c \<or> c = tab \<or> c = nl"

lemma typeable_not: "typeable c \<Longrightarrow> c \<noteq> esc \<and> c \<noteq> cr \<and> c \<noteq> CHR 0x7F \<and> c \<noteq> CHR 0x08"
  by (auto simp: typeable_def is_printable_ascii_def)

lemma type_at_end:
  assumes s: "at_end s" and c: "typeable c"
  shows "\<exists>s'. vi_key c s = Some (s', keep []) \<and> at_end s' \<and> current_content s' = current_content s @ [c] \<and>
    filename s' = filename s \<and> has_on_save s' = has_on_save s \<and> saves s' = saves s"
proof -
  obtain ls l where ls: "vi_lines s = ls @ [l]" using s
    by (metis at_end_def append_butlast_last_id)
  have y: "vi_mode s = Insert" "cy s = length ls" "cx s = length l" using s ls by (auto simp: at_end_def)
  note not = typeable_not [OF c]
  show ?thesis
  proof (cases "c = nl")
    case True
    have "list_insert (Suc (length ls)) [] (ls @ [l]) = ls @ [l, []]" by (simp add: list_insert_def)
    moreover have "py_join [nl] (ls @ [l, []]) = py_join [nl] (ls @ [l]) @ [nl]"
      using py_join_append [of "ls @ [l]" "[[]]" "[nl]"] by simp
    ultimately show ?thesis using True y
      by (simp add: vi_key_def key_insert_def ls at_end_def current_content_def)
  next
    case False
    have "py_join [nl] (ls @ [l @ [c]]) = py_join [nl] (ls @ [l]) @ [c]"
      by (cases "ls = []") (simp_all add: py_join_append)
    then show ?thesis using False not c y
      by (simp add: vi_key_def key_insert_def ls at_end_def current_content_def typeable_def)
  qed
qed

lemma type_text:
  assumes "at_end s" "\<forall>c\<in>set w. typeable c"
  shows "\<exists>s'. vi_keys s (w @ rest) = vi_keys s' rest \<and> at_end s' \<and> current_content s' = current_content s @ w \<and>
    filename s' = filename s \<and> has_on_save s' = has_on_save s \<and> saves s' = saves s"
  using assms
proof (induction w arbitrary: s)
  case (Cons c w)
  obtain s1 where s1: "vi_key c s = Some (s1, keep [])" "at_end s1" "current_content s1 = current_content s @ [c]"
      "filename s1 = filename s" "has_on_save s1 = has_on_save s" "saves s1 = saves s"
    using type_at_end [OF Cons.prems(1), of c] Cons.prems(2) by auto
  obtain s2 where "vi_keys s1 (w @ rest) = vi_keys s2 rest" "at_end s2" "current_content s2 = current_content s1 @ w"
      "filename s2 = filename s1" "has_on_save s2 = has_on_save s1" "saves s2 = saves s1"
    using Cons.IH [OF s1(2)] Cons.prems(2) by auto
  then show ?case using s1 by (auto simp: keep_def)
qed auto

lemma leave_insert:
  assumes "at_end s"
  shows "vi_keys s ([esc] @ rest) = vi_keys (s\<lparr>vi_mode := Normal, cx := cx s - 1\<rparr>) rest"
  using assms by (simp add: at_end_def vi_key_def key_insert_def keep_def)

lemma run_ex_wq: "run_ex ''wq'' s = (vi_save s, leave_screen)"
  by (simp add: run_ex_def before_first_def)

section \<open>Properties\<close>

text \<open>C22: No sequence of keystrokes, however it is cut into chunks, makes the editor raise: the cursor stays
  inside the buffer and no line ever holds a line feed.\<close>

theorem vi_never_raises:
  "\<exists>s d out. session vi_handle_key (new_vi fname content nrows on_save is_new) chunks = Some (s, out, d) \<and> vi_ok s"
  using vi_prog.session_ok [OF vi_ok_new, where cs = chunks] by blast

text \<open>C23: The attacker can always get back to the shell: after any keystrokes whatsoever, Escape followed by
  the forced quit command ends the editor.\<close>

theorem vi_always_quits:
  "\<exists>s out. session vi_handle_key (new_vi fname content nrows on_save is_new) (chunks @ [VI_QUIT]) = Some (s, out, True)"
  by (rule vi_prog.session_quits [OF vi_ok_new])

text \<open>What is typed is what is saved: opening a new file, typing a text in insert mode and leaving with
  \<open>:wq\<close> calls the save callback exactly once, with the file's name and exactly the text.\<close>

lemma vi_saves_typed_text:
  assumes "fname \<noteq> []" "\<forall>c\<in>set w. typeable c"
  shows "\<exists>s out. vi_handle_key (new_vi fname [] nrows True True) (''i'' @ w @ [esc] @ '':wq'' @ [cr]) =
      Some (s, leave out) \<and> saves s = [(fname, w)]"
proof -
  let ?s0 = "new_vi fname [] nrows True True"
  define s1 where "s1 = ?s0\<lparr>status_msg := [], z_pending := False, vi_mode := Insert\<rparr>"
  have s1: "at_end s1" "current_content s1 = []" "filename s1 = fname" "has_on_save s1" "saves s1 = []"
    by (simp_all add: s1_def new_vi_def at_end_def current_content_def)
  have "vi_handle_key ?s0 (''i'' @ w @ [esc] @ '':wq'' @ [cr]) = vi_keys s1 (w @ [esc] @ '':wq'' @ [cr])"
    by (simp add: vi_handle_key_def s1_def new_vi_def vi_key_def key_normal_def keep_def)
  moreover obtain s2 where s2: "vi_keys s1 (w @ [esc] @ '':wq'' @ [cr]) = vi_keys s2 ([esc] @ '':wq'' @ [cr])" "at_end s2"
      "current_content s2 = w" "filename s2 = fname" "has_on_save s2" "saves s2 = []"
    using type_text [OF s1(1) assms(2), of "[esc] @ '':wq'' @ [cr]"] s1 by auto
  moreover define s3 where "s3 = s2\<lparr>vi_mode := Normal, cx := cx s2 - 1\<rparr>"
  moreover have "vi_keys s2 ([esc] @ '':wq'' @ [cr]) = vi_keys s3 ('':'' @ ''wq'' @ [cr] @ [])"
    using leave_insert [OF s2(2), of "'':wq'' @ [cr]"] by (simp add: s3_def del: vi_keys.simps)
  moreover have "vi_keys s3 ('':'' @ ''wq'' @ [cr] @ []) =
      Some (vi_save (s3\<lparr>z_pending := False, cmdline := [], vi_mode := Normal\<rparr>), leave_screen)"
  proof -
    have "cy s3 < length (vi_lines s3)" using s2(2) by (cases "vi_lines s2") (simp_all add: s3_def at_end_def)
    from vi_ex_command [OF this, of "''wq''" "[]"] show ?thesis
      by (simp del: vi_keys.simps add: s3_def is_printable_ascii_def run_ex_wq leave_screen_def leave_def
          strip_by_def lstrip_by_def rstrip_by_def is_space_def)
  qed
  ultimately show ?thesis using assms(1) unfolding leave_screen_def
    by (auto simp: vi_save_def s3_def current_content_def)
qed


text \<open>The pager after a number of pages.\<close>

lemma less_space:
  "less_offset s + (less_rows s - 1) < length (less_lines s) \<Longrightarrow>
   less_handle_key s '' '' = (s\<lparr>less_offset := less_offset s + (less_rows s - 1)\<rparr>,
     keep (less_page (s\<lparr>less_offset := less_offset s + (less_rows s - 1)\<rparr>)))"
  by (simp add: less_handle_key_def Let_def)

lemma less_space_end:
  "less_offset s + (less_rows s - 1) \<ge> length (less_lines s) \<Longrightarrow>
   less_handle_key s '' '' = (s, leave (SEQ_RESET @ [cr, nl]))"
  by (simp add: less_handle_key_def Let_def)

lemma less_spaces:
  "less_rows s - 1 = page \<Longrightarrow> n * page + less_offset s < length (less_lines s) \<Longrightarrow>
   \<exists>out. session (\<lambda>s inp. Some (less_handle_key s inp)) s (replicate n '' '') =
     Some (s\<lparr>less_offset := less_offset s + n * page\<rparr>, out, False)"
proof (induction n arbitrary: s)
  case (Suc n)
  let ?s1 = "s\<lparr>less_offset := less_offset s + page\<rparr>"
  have same: "less_lines ?s1 = less_lines s" by (simp add: less_lines_def)
  have "less_offset s + (less_rows s - 1) < length (less_lines s)" using Suc.prems by simp
  then have "less_handle_key s '' '' = (?s1, keep (less_page ?s1))" unfolding Suc.prems(1) [symmetric] by (rule less_space)
  moreover have "n * page + less_offset ?s1 < length (less_lines ?s1)" using Suc.prems(2) same by simp
  then obtain out where "session (\<lambda>s inp. Some (less_handle_key s inp)) ?s1 (replicate n '' '') =
      Some (?s1\<lparr>less_offset := less_offset ?s1 + n * page\<rparr>, out, False)"
    using Suc.IH [of ?s1] Suc.prems(1) by auto
  ultimately show ?case by (simp add: keep_def add.assoc)
qed simp

lemma session_append_done:
  "session h s cs = Some (s1, o1, False) \<Longrightarrow> session h s1 ds = Some (s2, o2, d) \<Longrightarrow>
   session h s (cs @ ds) = Some (s2, o1 @ o2, d)"
  by (induction cs arbitrary: s o1) (auto split: option.splits if_splits)

text \<open>Paging forward shows the whole file and ends: with pages of \<open>rows - 1\<close> lines, space can be pressed as
  many times as there are further pages, each time the window moves on by one page, and the next space leaves
  the pager.\<close>

lemma less_pages_through:
  assumes "less_rows s \<ge> 2" "less_offset s = 0"
  shows "\<exists>out s'. session (\<lambda>s inp. Some (less_handle_key s inp)) s
      (replicate ((length (less_lines s) - 1) div (less_rows s - 1)) '' '' @ ['' '']) = Some (s', out, True) \<and>
    length (less_lines s) \<le> less_offset s' + (less_rows s - 1) \<and> less_offset s' < length (less_lines s)"
proof -
  let ?page = "less_rows s - 1" and ?n = "length (less_lines s)"
  let ?k = "(?n - 1) div ?page"
  let ?s' = "s\<lparr>less_offset := less_offset s + ?k * ?page\<rparr>"
  have n: "?n > 0" by (simp add: less_lines_def)
  have page: "?page > 0" using assms(1) by simp
  have lt: "?k * ?page < ?n" using n div_times_less_eq_dividend [of "?n - 1" ?page] by linarith
  have ge: "?n \<le> ?k * ?page + ?page"
    using n dividend_less_div_times [OF page, of "?n - 1"] by linarith
  obtain out where 1: "session (\<lambda>s inp. Some (less_handle_key s inp)) s (replicate ?k '' '') = Some (?s', out, False)"
    using less_spaces [OF refl, of ?k s] lt assms(2) by auto
  have "less_handle_key ?s' '' '' = (?s', leave (SEQ_RESET @ [cr, nl]))"
    using ge assms(2) by (intro less_space_end) (simp add: less_lines_def)
  then have "session (\<lambda>s inp. Some (less_handle_key s inp)) ?s' ['' ''] = Some (?s', SEQ_RESET @ [cr, nl], True)"
    by (simp add: leave_def)
  note run = session_append_done [OF 1 this]
  have "less_offset ?s' = ?k * ?page" using assms(2) by simp
  with lt ge have "length (less_lines s) \<le> less_offset ?s' + ?page" "less_offset ?s' < length (less_lines s)" by metis+
  then show ?thesis using run by blast
qed


end
