(* ===== verification/Network.thy ===== *)
theory Network
  imports Py_Regex
begin

text \<open>
  \<open>src/cowrie/core/network.py\<close>: the gate in front of every outgoing connection. An address or name
  is resolved, following CNAME records, and refused when the result lies in a blocked range.

  The DNS client is a parameter: from a name to the records of the answer, \<^const>\<open>None\<close> for a lookup
  that fails. The text of an address record is what the record's \<open>dottedQuad()\<close> returns, \<^const>\<open>None\<close> if
  that call raises. A chain of CNAME records over ever new names need not end, so the resolver has
  fuel; \<^const>\<open>None\<close> of the whole function is running out of it.
\<close>

section \<open>Addresses\<close>

text \<open>\<open>ipaddress.ip_address\<close> on a string, \<^const>\<open>None\<close> for its \<open>ValueError\<close>.\<close>

datatype ip = V4 nat | V6 nat

definition parse_octet :: "string \<Rightarrow> nat option" where
  "parse_octet s =
     (if s = [] \<or> \<not> list_all is_digit s \<or> length s > 3 \<or> (s \<noteq> ''0'' \<and> hd s = CHR ''0'') then None
      else let n = nat_of_digits s in if n > 255 then None else Some n)"

definition parse_v4 :: "string \<Rightarrow> nat option" where
  "parse_v4 s =
     (case map parse_octet (split_on (CHR ''.'') s) of
        [Some a, Some b, Some c, Some d] \<Rightarrow> Some (((a * 256 + b) * 256 + c) * 256 + d)
      | _ \<Rightarrow> None)"

definition hex_val :: "char \<Rightarrow> nat option" where
  "hex_val c =
     (if is_digit c then Some (ord c - 48)
      else if 97 \<le> ord c \<and> ord c \<le> 102 then Some (ord c - 87)
      else if 65 \<le> ord c \<and> ord c \<le> 70 then Some (ord c - 55)
      else None)"

definition parse_hextet :: "string \<Rightarrow> nat option" where
  "parse_hextet s =
     (if s = [] \<or> length s > 4 then None
      else fold (\<lambda>c acc. case (acc, hex_val c) of (Some n, Some d) \<Rightarrow> Some (16 * n + d) | _ \<Rightarrow> None) s (Some 0))"

fun hextets :: "string list \<Rightarrow> nat option" where
  "hextets ps = fold (\<lambda>p acc. case (acc, parse_hextet p) of (Some n, Some h) \<Rightarrow> Some (65536 * n + h) | _ \<Rightarrow> None) ps (Some 0)"

definition empty_inner :: "string list \<Rightarrow> nat list" where
  "empty_inner parts = filter (\<lambda>i. parts ! i = []) [1..<length parts - 1]"

text \<open>The parts left and right of the compression, or all eight parts.\<close>

definition v6_of_parts :: "string list \<Rightarrow> nat option" where
  "v6_of_parts parts =
     (if length parts > 9 then None
      else case empty_inner parts of
        [] \<Rightarrow> if length parts \<noteq> 8 then None else hextets parts
      | [sk] \<Rightarrow>
          let hi0 = sk; lo0 = length parts - sk - 1;
              hi = (if hd parts = [] then hi0 - 1 else hi0);
              lo = (if last parts = [] then lo0 - 1 else lo0) in
          if (hd parts = [] \<and> hi \<noteq> 0) \<or> (last parts = [] \<and> lo \<noteq> 0) \<or> hi + lo > 7 then None
          else (case (hextets (take hi parts), hextets (drop (length parts - lo) parts)) of
              (Some h, Some l) \<Rightarrow> Some (h * 65536 ^ (8 - hi) + l)
            | _ \<Rightarrow> None)
      | _ \<Rightarrow> None)"

definition hex4 :: "nat \<Rightarrow> string" where
  "hex4 n = map (\<lambda>d. if d < 10 then digit_char d else char_of (87 + d)) [n div 4096 mod 16, n div 256 mod 16, n div 16 mod 16, n mod 16]"

definition parse_v6 :: "string \<Rightarrow> nat option" where
  "parse_v6 s0 =
     (let s = before_first (CHR ''%'') s0; scope = after_first (CHR ''%'') s0 in
      if CHR ''/'' \<in> set s0 \<or> (CHR ''%'' \<in> set s0 \<and> (scope = [] \<or> CHR ''%'' \<in> set scope)) \<or> s = [] then None
      else let parts = split_on (CHR '':'') s in
        if length parts < 3 then None
        else if CHR ''.'' \<in> set (last parts) then
          (case parse_v4 (last parts) of
             None \<Rightarrow> None
           | Some n \<Rightarrow> v6_of_parts (butlast parts @ [hex4 (n div 65536), hex4 (n mod 65536)]))
        else v6_of_parts parts)"

definition is_ip_address :: "string \<Rightarrow> ip option" where
  "is_ip_address s =
     (case parse_v4 s of
        Some n \<Rightarrow> Some (V4 n)
      | None \<Rightarrow> (case parse_v6 s of Some n \<Rightarrow> Some (V6 n) | None \<Rightarrow> None))"

section \<open>Blocked ranges\<close>

definition quad :: "nat \<Rightarrow> nat \<Rightarrow> nat \<Rightarrow> nat \<Rightarrow> nat" where
  "quad a b c d = ((a * 256 + b) * 256 + c) * 256 + d"

text \<open>A network is an address and the number of host bits.\<close>

definition BLOCKED_IPS :: "(ip \<times> nat) list" where
  "BLOCKED_IPS =
    [(V4 (quad 0 0 0 0), 24), (V4 (quad 10 0 0 0), 24), (V4 (quad 172 16 0 0), 20), (V4 (quad 192 168 0 0), 16),
     (V4 (quad 169 254 0 0), 16), (V4 (quad 100 100 100 200), 0), (V4 (quad 127 0 0 0), 24), (V4 (quad 0 0 0 0), 24),
     (V4 (quad 224 0 0 0), 28), (V4 (quad 240 0 0 0), 28), (V4 (quad 255 255 255 255), 0), (V6 1, 0)]"

fun in_network :: "ip \<Rightarrow> ip \<times> nat \<Rightarrow> bool" where
  "in_network (V4 a) (V4 n, bits) = (a div 2 ^ bits = n div 2 ^ bits)"
| "in_network (V6 a) (V6 n, bits) = (a div 2 ^ bits = n div 2 ^ bits)"
| "in_network _ _ = False"

definition blocked :: "ip \<Rightarrow> bool" where
  "blocked a = list_ex (in_network a) BLOCKED_IPS"

section \<open>Resolution\<close>

datatype dns_record = Record_CNAME string | Record_A "string option" | Record_AAAA "string option" | Record_Other

type_synonym dns = "string \<Rightarrow> dns_record list option"

function (sequential)
  resolve_cname :: "nat \<Rightarrow> dns \<Rightarrow> string \<Rightarrow> string list \<Rightarrow> (string option \<times> string list) option"
  and scan_records :: "nat \<Rightarrow> dns \<Rightarrow> dns_record list \<Rightarrow> string list \<Rightarrow> (string option \<times> string list) option"
where
  "resolve_cname 0 lookup address visited = None"
| "resolve_cname (Suc fuel) lookup address visited =
     (if address \<in> set visited then Some (None, visited)
      else case lookup address of
        None \<Rightarrow> Some (None, address # visited)
      | Some rrs \<Rightarrow> scan_records fuel lookup rrs (address # visited))"
| "scan_records fuel lookup [] visited = Some (None, visited)"
| "scan_records fuel lookup (Record_CNAME t # rrs) visited =
     (case resolve_cname fuel lookup t visited of
        None \<Rightarrow> None
      | Some (Some found, visited') \<Rightarrow>
          if found \<noteq> [] then Some (Some found, visited') else scan_records fuel lookup rrs visited'
      | Some (None, visited') \<Rightarrow> scan_records fuel lookup rrs visited')"
| "scan_records fuel lookup (Record_A t # rrs) visited = Some (t, visited)"
| "scan_records fuel lookup (Record_AAAA t # rrs) visited = Some (t, visited)"
| "scan_records fuel lookup (Record_Other # rrs) visited = scan_records fuel lookup rrs visited"
  by pat_completeness auto
termination
  by (relation "measures [\<lambda>x. case x of Inl (n, _) \<Rightarrow> n | Inr (n, _) \<Rightarrow> n,
        \<lambda>x. case x of Inl _ \<Rightarrow> 0 | Inr (_, _, rrs, _) \<Rightarrow> Suc (length rrs)]") auto

definition communication_allowed :: "nat \<Rightarrow> dns \<Rightarrow> string \<Rightarrow> bool option" where
  "communication_allowed fuel lookup address =
     (case is_ip_address address of
        Some a \<Rightarrow> Some (\<not> blocked a)
      | None \<Rightarrow>
          (case resolve_cname fuel lookup address [] of
             None \<Rightarrow> None
           | Some (None, _) \<Rightarrow> Some False
           | Some (Some txt, _) \<Rightarrow>
               (case is_ip_address txt of None \<Rightarrow> Some False | Some a \<Rightarrow> Some (\<not> blocked a))))"

definition PORT_PATTERN :: regex where
  "PORT_PATTERN =
     (let d = rdigit; r = (\<lambda>a b. RCls (\<lambda>c. a \<le> ord c \<and> ord c \<le> b)) in
      rseq [RBos, ralt [rseq [r 49 57, rrep 0 3 d], rseq [r 49 53, rrep 4 4 d], rseq [rlit ''6'', r 48 52, rrep 3 3 d],
        rseq [rlit ''65'', r 48 52, rrep 2 2 d], rseq [rlit ''655'', r 48 50, d], rseq [rlit ''6553'', r 48 53]], REos])"

definition is_valid_port :: "string \<Rightarrow> bool" where
  "is_valid_port port \<longleftrightarrow> re_match PORT_PATTERN port \<noteq> None"

section \<open>Dotted addresses\<close>

definition dotted :: "nat \<Rightarrow> nat \<Rightarrow> nat \<Rightarrow> nat \<Rightarrow> string" where
  "dotted a b c d = py_join ''.'' [str_of_nat a, str_of_nat b, str_of_nat c, str_of_nat d]"

lemma digit_char_0: "digit_char 0 = CHR ''0''"
  by code_simp

lemma str_of_nat_small: "n \<le> 255 \<Longrightarrow> length (str_of_nat n) \<le> 3 \<and> (hd (str_of_nat n) = CHR ''0'' \<longrightarrow> n = 0)"
proof -
  assume n: "n \<le> 255"
  have z: "digit_char k = CHR ''0'' \<longleftrightarrow> k = 0" if "k < 10" for k
  proof -
    have "ord (CHR ''0'') = (48 :: nat)" by simp
    then show ?thesis using of_char_digit [OF that] digit_char_0 by force
  qed
  show ?thesis using n
    by (cases "n < 10"; cases "n < 100")
       (auto simp: str_of_nat.simps [of n] str_of_nat.simps [of "n div 10"] str_of_nat.simps [of "n div 10 div 10"] z)
qed

lemma parse_octet_str: "n \<le> 255 \<Longrightarrow> parse_octet (str_of_nat n) = Some n"
proof -
  assume n: "n \<le> 255"
  have "str_of_nat 0 = ''0''" by (simp add: str_of_nat.simps digit_char_0)
  then show ?thesis using str_of_nat_small [OF n] n str_of_nat_digits [of n] nat_of_digits_str_of_nat [of n]
    by (auto simp: parse_octet_def Let_def list_all_iff)
qed

lemma parse_v4_dotted:
  "a \<le> 255 \<Longrightarrow> b \<le> 255 \<Longrightarrow> c \<le> 255 \<Longrightarrow> d \<le> 255 \<Longrightarrow> parse_v4 (dotted a b c d) = Some (quad a b c d)"
proof -
  assume le: "a \<le> 255" "b \<le> 255" "c \<le> 255" "d \<le> 255"
  have nodot: "CHR ''.'' \<notin> set (str_of_nat n)" for n
    using str_of_nat_digits [of n] by (auto simp: is_digit_def)
  have "split_on (CHR ''.'') (dotted a b c d) = [str_of_nat a, str_of_nat b, str_of_nat c, str_of_nat d]"
    unfolding dotted_def by (rule split_on_join) (use nodot in auto)
  then show ?thesis using le by (simp add: parse_v4_def parse_octet_str quad_def)
qed


lemma split_div: "q = x * m + r \<Longrightarrow> r < m \<Longrightarrow> q div m = (x :: nat)"
  by simp

lemma quad_div:
  assumes "d < 256" "c < 256" "b < 256"
  shows "quad a b c d div 16777216 = a" "quad a b c d div 65536 = a * 256 + b"
    "quad a b c d div 1048576 = a * 16 + b div 16" "quad a b c d div 268435456 = a div 16"
proof -
  show "quad a b c d div 16777216 = a"
    by (rule split_div [where r = "b * 65536 + c * 256 + d"]) (use assms in \<open>simp_all add: quad_def\<close>)
  show "quad a b c d div 65536 = a * 256 + b"
    by (rule split_div [where r = "c * 256 + d"]) (use assms in \<open>simp_all add: quad_def\<close>)
  have scale: "x * k = x div 16 * (16 * k) + x mod 16 * k" for x k :: nat
    by (metis add_mult_distrib div_mult_mod_eq mult.assoc)
  have b: "b * 65536 = b div 16 * 1048576 + b mod 16 * 65536" and a: "a * 16777216 = a div 16 * 268435456 + a mod 16 * 16777216"
    using scale [of b 65536] scale [of a 16777216] by simp_all
  have "b mod 16 < 16" "a mod 16 < 16" by simp_all
  then have m: "b mod 16 \<le> 15" "a mod 16 \<le> 15" by linarith+
  have "quad a b c d = (a * 16 + b div 16) * 1048576 + (b mod 16 * 65536 + c * 256 + d)"
    using b by (simp add: quad_def algebra_simps)
  then show "quad a b c d div 1048576 = a * 16 + b div 16"
    by (rule split_div) (use assms m in linarith)
  have "quad a b c d = a div 16 * 268435456 + (a mod 16 * 16777216 + b * 65536 + c * 256 + d)"
    using a by (simp add: quad_def algebra_simps)
  then show "quad a b c d div 268435456 = a div 16"
    by (rule split_div) (use assms m in linarith)
qed

lemma quad_inj:
  assumes "d < 256" "c < 256" "b < 256" "d' < 256" "c' < 256" "b' < 256" "quad a b c d = quad a' b' c' d'"
  shows "a = a' \<and> b = b' \<and> c = c' \<and> d = d'"
proof -
  have a: "a = a'" using quad_div(1) [OF assms(1-3), of a] quad_div(1) [OF assms(4-6), of a'] assms(7) by simp
  have b: "b = b'" using quad_div(2) [OF assms(1-3), of a] quad_div(2) [OF assms(4-6), of a'] assms(7) a by simp
  then have "c * 256 + d = c' * 256 + d'" using assms(7) a by (simp add: quad_def)
  moreover have "(c * 256 + d) div 256 = c" "(c' * 256 + d') div 256 = c'" using assms by simp_all
  ultimately show ?thesis using a b by simp
qed

text \<open>What the list of networks blocks, octet by octet.\<close>

definition blocked_quad :: "nat \<Rightarrow> nat \<Rightarrow> nat \<Rightarrow> nat \<Rightarrow> bool" where
  "blocked_quad a b c d \<longleftrightarrow> a = 0 \<or> a = 10 \<or> a = 127 \<or> a \<ge> 224 \<or> (a = 172 \<and> 16 \<le> b \<and> b \<le> 31) \<or> (a = 192 \<and> b = 168) \<or>
     (a = 169 \<and> b = 254) \<or> (a = 100 \<and> b = 100 \<and> c = 100 \<and> d = 200)"

lemma blocked_v4:
  assumes "a \<le> 255" "b \<le> 255" "c \<le> 255" "d \<le> 255"
  shows "blocked (V4 (quad a b c d)) \<longleftrightarrow> blocked_quad a b c d"
proof -
  note q = quad_div [of d c b a]
  have octets: "m * 256 + k = n * 256 + l \<longleftrightarrow> m = n \<and> k = l" if "k < 256" "l < 256" for m k n l :: nat
  proof -
    have "(m * 256 + k) div 256 = m" "(n * 256 + l) div 256 = n" using that by simp_all
    then show ?thesis by (metis add_left_cancel)
  qed
  have e: "quad a b c d = quad 100 100 100 200 \<longleftrightarrow> a = 100 \<and> b = 100 \<and> c = 100 \<and> d = 200"
      "quad a b c d = quad 255 255 255 255 \<longleftrightarrow> a = 255 \<and> b = 255 \<and> c = 255 \<and> d = 255"
    using assms quad_inj [of d c b 200 100 100 a 100] quad_inj [of d c b 255 255 255 a 255] by auto
  have "blocked (V4 (quad a b c d)) \<longleftrightarrow>
      a = 0 \<or> a = 10 \<or> a * 16 + b div 16 = 2753 \<or> a * 256 + b = 49320 \<or> a * 256 + b = 43518 \<or>
      quad a b c d = quad 100 100 100 200 \<or> a = 127 \<or> a div 16 = 14 \<or> a div 16 = 15 \<or> quad a b c d = quad 255 255 255 255"
    using assms q by (simp add: blocked_def BLOCKED_IPS_def) (simp add: quad_def, blast)
  moreover have "a * 16 + b div 16 = 2753 \<longleftrightarrow> a = 172 \<and> 16 \<le> b \<and> b \<le> 31"
  proof -
    have "b div 16 \<le> 15" "b div 16 = 1 \<longleftrightarrow> 16 \<le> b \<and> b \<le> 31" using assms(2) by auto
    moreover have "a * 16 + k = 2753 \<longleftrightarrow> a = 172 \<and> k = 1" if "k \<le> 15" for k using that by presburger
    ultimately show ?thesis by blast
  qed
  moreover have "a * 256 + b = 49320 \<longleftrightarrow> a = 192 \<and> b = 168" "a * 256 + b = 43518 \<longleftrightarrow> a = 169 \<and> b = 254"
    using octets [of b 168 a 192] octets [of b 254 a 169] assms(2) by simp_all
  moreover have "a div 16 = 14 \<or> a div 16 = 15 \<longleftrightarrow> a \<ge> 224" using assms(1) by auto
  moreover have "a = 255 \<Longrightarrow> a \<ge> 224" by simp
  ultimately show ?thesis unfolding e blocked_quad_def by blast
qed


section \<open>Resolution ends\<close>

definition cname_targets :: "dns_record list \<Rightarrow> string set" where
  "cname_targets rrs = {t. Record_CNAME t \<in> set rrs}"

text \<open>A zone: a finite set of names that holds the targets of all its CNAME records.\<close>

definition closed_zone :: "dns \<Rightarrow> string set \<Rightarrow> bool" where
  "closed_zone lookup names \<longleftrightarrow> finite names \<and>
     (\<forall>a\<in>names. case lookup a of None \<Rightarrow> True | Some rrs \<Rightarrow> cname_targets rrs \<subseteq> names)"

lemma card_step: "finite names \<Longrightarrow> a \<in> names \<Longrightarrow> a \<notin> V \<Longrightarrow> card (names - insert a V) < card (names - V)"
  by (rule psubset_card_mono) auto

text \<open>Every call keeps what was visited, and fuel beyond the unvisited names is never used up.\<close>

lemma resolve_ends:
  "closed_zone lookup names \<Longrightarrow> address \<in> names \<Longrightarrow> card (names - set visited) < fuel \<Longrightarrow>
      \<exists>r v. resolve_cname fuel lookup address visited = Some (r, v) \<and> set visited \<subseteq> set v"
  "closed_zone lookup names \<Longrightarrow> cname_targets rrs \<subseteq> names \<Longrightarrow> card (names - set visited) < fuel \<Longrightarrow>
      \<exists>r v. scan_records fuel lookup rrs visited = Some (r, v) \<and> set visited \<subseteq> set v"
proof (induction fuel lookup address visited and fuel lookup rrs visited rule: resolve_cname_scan_records.induct)
  case (2 fuel lookup address visited)
  have fin: "finite names" using "2.prems"(1) by (simp add: closed_zone_def)
  show ?case
  proof (cases "address \<in> set visited")
    case False
    show ?thesis
    proof (cases "lookup address")
      case (Some rrs)
      have "cname_targets rrs \<subseteq> names" using "2.prems"(1,2) Some
        by (force simp: closed_zone_def dest: bspec [of _ _ address])
      moreover have "card (names - set (address # visited)) < fuel"
        using card_step [OF fin "2.prems"(2) False] "2.prems"(3) by simp
      ultimately obtain r v where "scan_records fuel lookup rrs (address # visited) = Some (r, v)"
          "set (address # visited) \<subseteq> set v"
        using "2.IH" [OF False Some "2.prems"(1)] by blast
      then show ?thesis using False Some by auto
    qed (use False in auto)
  qed simp
next
  case (4 fuel lookup t rrs visited)
  have fin: "finite names" using "4.prems"(1) by (simp add: closed_zone_def)
  have t: "t \<in> names" "cname_targets rrs \<subseteq> names" using "4.prems"(2) by (auto simp: cname_targets_def)
  obtain r v where rv: "resolve_cname fuel lookup t visited = Some (r, v)" "set visited \<subseteq> set v"
    using "4.IH"(1) [OF "4.prems"(1) t(1) "4.prems"(3)] by blast
  have "card (names - set v) \<le> card (names - set visited)" using fin rv(2) by (intro card_mono) auto
  then have card: "card (names - set v) < fuel" using "4.prems"(3) by simp
  show ?case
  proof (cases "\<exists>found. r = Some found \<and> found \<noteq> []")
    case True
    then show ?thesis using rv by auto
  next
    case False
    obtain r' v' where "scan_records fuel lookup rrs v = Some (r', v')" "set v \<subseteq> set v'"
    proof (cases r)
      case None
      then show ?thesis using "4.IH"(2) [of "(r, v)" r v, OF rv(1) refl None "4.prems"(1) t(2) card] that by blast
    next
      case (Some f)
      then have "\<not> f \<noteq> []" using False by blast
      then show ?thesis using "4.IH"(3) [of "(r, v)" r v f, OF rv(1) refl Some _ "4.prems"(1) t(2) card] that by blast
    qed
    then show ?thesis using rv False by (cases r) auto
  qed
next
  case (7 fuel lookup rrs visited)
  then show ?case by (auto simp: cname_targets_def)
qed auto


section \<open>Properties\<close>

text \<open>C26: On a dotted address the gate is exact: it refuses the loopback, private, link-local, metadata, multicast
  and reserved ranges and allows everything else, whatever the name server would say.\<close>

theorem communication_allowed_v4:
  assumes "a \<le> 255" "b \<le> 255" "c \<le> 255" "d \<le> 255"
  shows "communication_allowed fuel lookup (dotted a b c d) = Some (\<not> blocked_quad a b c d)"
  using assms by (simp add: communication_allowed_def is_ip_address_def parse_v4_dotted blocked_v4)

theorem communication_allowed_v4_witness:
  "communication_allowed 5 (\<lambda>_. None) (dotted 169 254 169 254) = Some (\<not> blocked_quad 169 254 169 254)"
  by (rule communication_allowed_v4) simp_all

text \<open>A name is let through only when its resolution, through CNAME records if need be, ended in the text
  of an address outside every blocked network.\<close>

lemma communication_allowed_sound:
  assumes "communication_allowed fuel lookup name = Some True" "is_ip_address name = None"
  shows "\<exists>t v a. resolve_cname fuel lookup name [] = Some (Some t, v) \<and> is_ip_address t = Some a \<and> \<not> blocked a"
  using assms by (auto simp: communication_allowed_def split: option.splits)




text \<open>
  The list of networks has a single entry for the second version of the protocol: an IPv4-mapped
  loopback address, and the unique-local and link-local ranges, pass the gate.
\<close>

lemma mapped_loopback_allowed:
  "communication_allowed 1 lookup ''::ffff:127.0.0.1'' = Some True"
proof -
  have v4: "parse_v4 ''::ffff:127.0.0.1'' = None"
    by (simp add: parse_v4_def parse_octet_def is_digit_def)
  have "dotted 127 0 0 1 = ''127.0.0.1''" by code_simp
  then have tail: "parse_v4 ''127.0.0.1'' = Some 2130706433"
    using parse_v4_dotted [of 127 0 0 1] by (simp add: quad_def)
  have ch: "digit_char 7 = CHR ''7''" "char_of (102 :: nat) = CHR ''f''" "digit_char 0 = CHR ''0''" "digit_char 1 = CHR ''1''"
    by code_simp+
  have hex: "hex4 32512 = ''7f00''" "hex4 1 = ''0001''"
    unfolding hex4_def using ch by simp_all
  have parts: "v6_of_parts [[], [], ''ffff'', ''7f00'', ''0001''] = Some 281472812449793"
    by (simp add: v6_of_parts_def empty_inner_def upt_rec parse_hextet_def hex_val_def is_digit_def)
  have "parse_v6 ''::ffff:127.0.0.1'' = Some 281472812449793"
    using parts by (simp add: parse_v6_def before_first_def after_first_def tail hex hex(2) [simplified])
  then show ?thesis
    by (simp add: communication_allowed_def is_ip_address_def v4 blocked_def BLOCKED_IPS_def)
qed

end
