(* ===== verification/Artifact.thy ===== *)
theory Artifact
  imports Py_Hash
begin

text \<open>
  \<open>src/cowrie/core/artifact.py\<close>: captured content on its way to disk. An open artifact is the bytes
  written so far; the download directory is a dictionary from file names to contents. Temporary files
  have names of their own and are gone after \<open>close\<close>.
\<close>

record artifact =
  label :: string
  art_data :: bytestr
  shasum :: string
  shasum_filename :: string

type_synonym store = "(string, bytestr) dict"

definition new_artifact :: "string \<Rightarrow> artifact" where
  "new_artifact l = \<lparr>label = l, art_data = [], shasum = [], shasum_filename = []\<rparr>"

definition artifact_write :: "bytestr \<Rightarrow> artifact \<Rightarrow> artifact" where
  "artifact_write bs a = a\<lparr>art_data := art_data a @ bs\<rparr>"

text \<open>\<open>os.path.join(d, name)\<close> for a name that is not absolute.\<close>

definition path_join :: "string \<Rightarrow> string \<Rightarrow> string" where
  "path_join d name = (if d = [] \<or> last d = CHR ''/'' then d @ name else d @ ''/'' @ name)"

definition artifact_close ::
  "string \<Rightarrow> bool \<Rightarrow> artifact \<Rightarrow> store \<Rightarrow> (string \<times> string) option \<times> artifact \<times> store"
where
  "artifact_close dir keep_empty a st =
     (if art_data a = [] \<and> \<not> keep_empty then (None, a, st)
      else let sha = sha256_hex (art_data a); fname = path_join dir sha in
        (Some (sha, fname), a\<lparr>shasum := sha, shasum_filename := fname\<rparr>,
         if map_of st fname \<noteq> None then st else AList.update fname (art_data a) st))"

section \<open>The store is addressed by content\<close>

definition store_ok :: "string \<Rightarrow> store \<Rightarrow> bool" where
  "store_ok dir st \<longleftrightarrow> distinct (map fst st) \<and> (\<forall>(p, d)\<in>set st. p = path_join dir (sha256_hex d))"

lemma store_ok_Nil: "store_ok dir []"
  by (simp add: store_ok_def)

lemma store_ok_update:
  "store_ok dir st \<Longrightarrow> map_of st (path_join dir (sha256_hex d)) = None \<Longrightarrow>
   store_ok dir (AList.update (path_join dir (sha256_hex d)) d st)"
proof -
  let ?p = "path_join dir (sha256_hex d)"
  assume ok: "store_ok dir st" and new: "map_of st ?p = None"
  have "AList.update ?p d st = st @ [(?p, d)]"
    using new by (induction st) auto
  then show ?thesis using ok new by (auto simp: store_ok_def map_of_eq_None_iff)
qed

lemma artifact_close_ok:
  "store_ok dir st \<Longrightarrow> artifact_close dir keep a st = (r, a', st') \<Longrightarrow> store_ok dir st'"
  by (auto simp: artifact_close_def Let_def store_ok_update split: if_splits)

text \<open>Bytes that are on disk stay on disk.\<close>

lemma artifact_close_mono:
  "artifact_close dir keep a st = (r, a', st') \<Longrightarrow> map_of st p = Some d \<Longrightarrow> map_of st' p = Some d"
  by (auto simp: artifact_close_def Let_def update_conv' split: if_splits)

text \<open>Closing a non-empty artifact leaves its content on disk under the name of its SHA-256 digest and returns
  that digest, keeps every file that was there, and keeps the directory addressed by content.\<close>

lemma artifact_close_stores:
  assumes "store_ok dir st" "art_data a \<noteq> []"
    and "\<forall>d. map_of st (path_join dir (sha256_hex (art_data a))) = Some d \<longrightarrow> d = art_data a"
  shows "\<exists>a' st'. artifact_close dir False a st =
      (Some (sha256_hex (art_data a), path_join dir (sha256_hex (art_data a))), a', st') \<and>
    map_of st' (path_join dir (sha256_hex (art_data a))) = Some (art_data a) \<and> store_ok dir st' \<and> map_of st \<subseteq>\<^sub>m map_of st'"
proof -
  let ?p = "path_join dir (sha256_hex (art_data a))"
  obtain r a' st' where c: "artifact_close dir False a st = (r, a', st')" by (metis prod_cases3)
  have "map_of st' ?p = Some (art_data a)" "r = Some (sha256_hex (art_data a), ?p)"
    using c assms(2,3) by (auto simp: artifact_close_def Let_def update_conv' split: if_splits)
  then show ?thesis using c artifact_close_ok [OF assms(1) c] artifact_close_mono [OF c]
    by (auto simp: map_le_def dom_def)
qed


end
