(* ===== verification/Py_Float.thy ===== *)
theory Py_Float
  imports Py_Prelude Complex_Main
begin

text \<open>
  Python's floats. A float is the rational number it stands for; every operation of the source computes the
  exact result and rounds it, with \<open>fl\<close>, to the nearest number of 53 significant bits, ties to even, which is
  what IEEE double arithmetic does for the magnitudes that occur (no overflow, no subnormal numbers, no NaN).
  The formatting of floats rounds the exact value to the requested number of decimals, ties to even.
\<close>

section \<open>Rounding\<close>

function blen :: "int \<Rightarrow> int" where
  "blen n = (if n \<le> 0 then 0 else 1 + blen (n div 2))"
  by pat_completeness auto
termination by (relation "measure nat") auto

declare blen.simps [simp del]

text \<open>\<open>round(x)\<close>: to the nearest integer, ties to even.\<close>

definition round_even :: "rat \<Rightarrow> int" where
  "round_even x =
     (let n = \<lfloor>x\<rfloor>; d = x - of_int n in
      if d < 1/2 then n else if d > 1/2 then n + 1 else if even n then n else n + 1)"

text \<open>The exponent: the largest power of two that is at most \<open>|x|\<close>.\<close>

definition expo :: "rat \<Rightarrow> int" where
  "expo x =
     (let (p, q) = quotient_of \<bar>x\<bar>; k = blen p - blen q in
      if q * 2 ^ nat k \<le> p * 2 ^ nat (- k) then k else k - 1)"

definition fl :: "rat \<Rightarrow> rat" where
  "fl x = (if x = 0 then 0
     else sgn x * of_int (round_even (\<bar>x\<bar> * 2 powi (52 - expo x))) * 2 powi (expo x - 52))"

definition fl_nat :: "nat \<Rightarrow> rat" where "fl_nat n = fl (of_nat n)"

definition fadd :: "rat \<Rightarrow> rat \<Rightarrow> rat" where "fadd x y = fl (x + y)"
definition fsub :: "rat \<Rightarrow> rat \<Rightarrow> rat" where "fsub x y = fl (x - y)"
definition fmul :: "rat \<Rightarrow> rat \<Rightarrow> rat" where "fmul x y = fl (x * y)"
definition fdiv :: "rat \<Rightarrow> rat \<Rightarrow> rat" where "fdiv x y = fl (x / y)"

text \<open>\<open>int(x)\<close> of a float that is not negative, and \<open>int(n * x)\<close> for an integer \<open>n\<close>.\<close>

definition int_of :: "rat \<Rightarrow> nat" where "int_of x = nat \<lfloor>x\<rfloor>"

definition scaled :: "nat \<Rightarrow> rat \<Rightarrow> nat" where "scaled n x = int_of (fmul (fl_nat n) x)"

text \<open>\<open>round(x, d)\<close>, and the formats \<open>:.df\<close>.\<close>

definition round_to :: "nat \<Rightarrow> rat \<Rightarrow> rat" where
  "round_to d x = fl (of_int (round_even (x * 10 ^ d)) / 10 ^ d)"

definition fixed :: "nat \<Rightarrow> rat \<Rightarrow> string" where
  "fixed d x =
     (let m = nat (round_even (\<bar>x\<bar> * 10 ^ d));
          s = str_of_nat (m div 10 ^ d) @ (if d = 0 then [] else CHR ''.'' # zfill d (str_of_nat (m mod 10 ^ d))) in
      if x < 0 then CHR ''-'' # s else s)"

text \<open>
  \<open>repr(x)\<close>: the shortest decimal that reads back as \<open>x\<close>, with at least one digit after the point (for numbers
  from 1 to 10^16, where Python uses no exponent).
\<close>

definition reads_back :: "rat \<Rightarrow> nat \<Rightarrow> bool" where
  "reads_back x d \<longleftrightarrow> fl (of_int (round_even (x * 10 ^ d)) / 10 ^ d) = x"

definition float_repr :: "rat \<Rightarrow> string" where
  "float_repr x = fixed (case List.find (reads_back x) [1..<17] of Some d \<Rightarrow> d | None \<Rightarrow> 17) x"

section \<open>The rounding error\<close>

lemma blen_bounds: "0 < n \<Longrightarrow> 0 < blen n \<and> 2 ^ nat (blen n - 1) \<le> n \<and> n < 2 ^ nat (blen n)"
proof (induction n rule: blen.induct)
  case (1 n)
  show ?case
  proof (cases "n = 1")
    case True then show ?thesis by (simp add: blen.simps [of 1] blen.simps [of 0])
  next
    case False
    then have h: "0 < n div 2" using 1(2) by auto
    define b where "b = blen (n div 2)"
    have ih: "0 < b" "2 ^ nat (b - 1) \<le> n div 2" "n div 2 < 2 ^ nat b"
      using 1(1) [OF _ h] 1(2) by (auto simp: b_def)
    have e: "nat b = Suc (nat (b - 1))" using ih(1) by simp
    have "blen n = 1 + b" using 1(2) by (simp add: b_def blen.simps [of n])
    moreover have "nat (1 + b) = Suc (nat b)" using ih(1) by simp
    moreover have "n = 2 * (n div 2) + n mod 2" "0 \<le> n mod 2" "n mod 2 < 2" by simp_all
    ultimately show ?thesis using ih e by (simp only: power_Suc add_diff_cancel_left') linarith
  qed
qed

lemma round_even_near: "\<bar>of_int (round_even x) - x\<bar> \<le> 1/2"
proof -
  define n where "n = \<lfloor>x\<rfloor>"
  have "of_int n \<le> x" "x < of_int n + 1" unfolding n_def by linarith+
  then show ?thesis unfolding round_even_def Let_def n_def [symmetric] abs_if by auto
qed

lemma powi_two_diff: "(2::rat) powi (a - b) = 2 powi a / 2 powi b"
  by (simp add: power_int_diff)

lemma expo_le: "x \<noteq> 0 \<Longrightarrow> 2 powi expo x \<le> \<bar>x\<bar>"
proof -
  assume "x \<noteq> 0"
  obtain p q where pq: "quotient_of \<bar>x\<bar> = (p, q)" by (metis prod.exhaust)
  have x: "\<bar>x\<bar> = of_int p / of_int q" and q: "0 < q" using pq quotient_of_div quotient_of_denom_pos by auto
  have p: "0 < p" using \<open>x \<noteq> 0\<close> x q zero_less_abs_iff [of x] by (simp add: zero_less_divide_iff)
  define k where "k = blen p - blen q"
  have pow: "(2::rat) powi j = 2 ^ nat j / 2 ^ nat (- j)" for j :: int by (simp add: power_int_def field_simps)
  show ?thesis
  proof (cases "q * 2 ^ nat k \<le> p * 2 ^ nat (- k)")
    case True
    then have "of_int (q * 2 ^ nat k) \<le> (of_int (p * 2 ^ nat (- k)) :: rat)" unfolding of_int_le_iff .
    then have "of_int q * 2 ^ nat k \<le> (of_int p * 2 ^ nat (- k) :: rat)" by simp
    then have "2 powi k \<le> \<bar>x\<bar>" using q unfolding pow x by (simp add: field_simps)
    then show ?thesis using True by (simp add: expo_def pq k_def Let_def)
  next
    case False
    have bp: "2 ^ nat (blen p - 1) \<le> p" "0 < blen p" and bq: "q < 2 ^ nat (blen q)" "0 < blen q"
      using blen_bounds p q by auto
    have "(of_int (2 ^ nat (blen p - 1)) :: rat) \<le> of_int p" using bp unfolding of_int_le_iff by simp
    then have "(2::rat) powi (blen p - 1) \<le> of_int p" using bp(2) by (simp add: power_int_def)
    moreover have "(of_int q :: rat) \<le> of_int (2 ^ nat (blen q))" using bq unfolding of_int_le_iff by simp
    then have "of_int q \<le> (2::rat) powi blen q" using bq(2) by (simp add: power_int_def)
    ultimately have "2 powi (blen p - 1) / 2 powi blen q \<le> \<bar>x\<bar>"
      unfolding x using q p by (intro frac_le) auto
    then have "2 powi (k - 1) \<le> \<bar>x\<bar>" by (simp add: k_def powi_two_diff [symmetric] algebra_simps)
    then show ?thesis using False by (simp add: expo_def pq k_def Let_def)
  qed
qed

lemma fl_error: "\<bar>fl x - x\<bar> \<le> \<bar>x\<bar> / 2 ^ 53"
proof (cases "x = 0")
  case False
  let ?s = "2 powi (expo x - 52) :: rat" and ?y = "\<bar>x\<bar> * 2 powi (52 - expo x)"
  have s: "?s * 2 powi (52 - expo x) = 1" by (simp flip: power_int_add)
  have "fl x - x = sgn x * ((of_int (round_even ?y) - ?y) * ?s)"
    using s False by (simp add: fl_def algebra_simps) (simp add: sgn_if abs_if)
  then have "\<bar>fl x - x\<bar> = \<bar>of_int (round_even ?y) - ?y\<bar> * ?s" using False by (simp add: abs_mult)
  also have "\<dots> \<le> 1/2 * ?s" using round_even_near [of ?y] by (intro mult_right_mono) auto
  also have "\<dots> = 2 powi expo x / 2 ^ 53" by (simp add: powi_two_diff)
  also have "\<dots> \<le> \<bar>x\<bar> / 2 ^ 53" using expo_le [OF False] by (intro divide_right_mono) auto
  finally show ?thesis .
qed (simp add: fl_def)

lemma fl_0 [simp]: "fl 0 = 0"
  by (simp add: fl_def)

lemma fl_nonneg: "0 \<le> x \<Longrightarrow> 0 \<le> fl x"
  using fl_error [of x] by (simp add: abs_if split: if_splits)

lemma fl_upper: "0 \<le> x \<Longrightarrow> fl x \<le> x * (1 + 1 / 2 ^ 53)"
  using fl_error [of x] by (simp add: abs_if split: if_splits)

section \<open>Rounding is monotone\<close>

lemma expo_less: "x \<noteq> 0 \<Longrightarrow> \<bar>x\<bar> < 2 powi (expo x + 1)"
proof -
  assume "x \<noteq> 0"
  obtain p q where pq: "quotient_of \<bar>x\<bar> = (p, q)" by (metis prod.exhaust)
  have x: "\<bar>x\<bar> = of_int p / of_int q" and q: "0 < q" using pq quotient_of_div quotient_of_denom_pos by auto
  have p: "0 < p" using \<open>x \<noteq> 0\<close> x q zero_less_abs_iff [of x] by (simp add: zero_less_divide_iff)
  define k where "k = blen p - blen q"
  have pow: "(2::rat) powi j = 2 ^ nat j / 2 ^ nat (- j)" for j :: int by (simp add: power_int_def field_simps)
  show ?thesis
  proof (cases "q * 2 ^ nat k \<le> p * 2 ^ nat (- k)")
    case False
    then have "of_int (p * 2 ^ nat (- k)) < (of_int (q * 2 ^ nat k) :: rat)" unfolding of_int_less_iff by simp
    then have "of_int p * 2 ^ nat (- k) < (of_int q * 2 ^ nat k :: rat)" by simp
    then have "\<bar>x\<bar> < 2 powi k" using q unfolding pow x by (simp add: field_simps)
    then show ?thesis using False by (simp add: expo_def pq k_def Let_def)
  next
    case True
    have bp: "p < 2 ^ nat (blen p)" "0 < blen p" and bq: "2 ^ nat (blen q - 1) \<le> q" "0 < blen q"
      using blen_bounds p q by auto
    have "(of_int p :: rat) < of_int (2 ^ nat (blen p))" using bp unfolding of_int_less_iff by simp
    then have "of_int p < (2::rat) powi blen p" using bp(2) by (simp add: power_int_def)
    moreover have "(of_int (2 ^ nat (blen q - 1)) :: rat) \<le> of_int q" using bq unfolding of_int_le_iff by simp
    then have "(2::rat) powi (blen q - 1) \<le> of_int q" using bq(2) by (simp add: power_int_def)
    ultimately have "\<bar>x\<bar> < 2 powi blen p / 2 powi (blen q - 1)"
      unfolding x using q p by (intro frac_less) auto
    then have "\<bar>x\<bar> < 2 powi (k + 1)" by (simp add: k_def powi_two_diff [symmetric] algebra_simps)
    then show ?thesis using True by (simp add: expo_def pq k_def Let_def)
  qed
qed

lemma round_even_of_int [simp]: "round_even (of_int n) = n"
  by (simp add: round_even_def)

lemma round_even_mono: "x \<le> y \<Longrightarrow> round_even x \<le> round_even y"
proof -
  assume le: "x \<le> y"
  have b: "\<lfloor>z\<rfloor> \<le> round_even z" "round_even z \<le> \<lfloor>z\<rfloor> + 1" for z by (simp_all add: round_even_def Let_def)
  show ?thesis
  proof (cases "\<lfloor>x\<rfloor> = \<lfloor>y\<rfloor>")
    case True
    then show ?thesis using le by (auto simp: round_even_def Let_def)
  next
    case False
    then have "\<lfloor>x\<rfloor> + 1 \<le> \<lfloor>y\<rfloor>" using floor_mono [OF le] by simp
    then show ?thesis using b(2) [of x] b(1) [of y] by simp
  qed
qed

lemma fl_minus: "fl (- x) = - fl x"
  by (simp add: fl_def expo_def)

lemma fl_pos: "0 < x \<Longrightarrow> fl x = of_int (round_even (x * 2 powi (52 - expo x))) * 2 powi (expo x - 52)"
  by (simp add: fl_def)

lemma fl_mono_pos:
  assumes "0 < x" "x \<le> y" shows "fl x \<le> fl y"
proof -
  define e f where "e = expo x" and "f = expo y"
  have y: "0 < y" using assms by simp
  have bx: "2 powi e \<le> x" "x < 2 powi (e + 1)" and by': "2 powi f \<le> y" "y < 2 powi (f + 1)"
    using expo_le [of x] expo_less [of x] expo_le [of y] expo_less [of y] assms y by (auto simp: e_def f_def)
  have fx: "fl x = of_int (round_even (x * 2 powi (52 - e))) * 2 powi (e - 52)"
    and fy: "fl y = of_int (round_even (y * 2 powi (52 - f))) * 2 powi (f - 52)"
    using fl_pos assms(1) y by (simp_all add: e_def f_def)
  have pw: "(2::rat) powi a * 2 powi b = 2 powi (a + b)" for a b by (simp add: power_int_add)
  have "(2::rat) powi e < 2 powi (f + 1)" using bx(1) assms(2) by'(2) by simp
  moreover have "(2::rat) powi (f + 1) \<le> 2 powi e" if "f < e" using that by (intro power_int_increasing) auto
  ultimately have "e \<le> f" by linarith
  then show ?thesis
  proof (cases "e = f")
    case True
    have "x * 2 powi (52 - e) \<le> y * 2 powi (52 - e)" using assms by (intro mult_right_mono) auto
    then have "round_even (x * 2 powi (52 - e)) \<le> round_even (y * 2 powi (52 - e))" by (rule round_even_mono)
    then show ?thesis unfolding fx fy True by (intro mult_right_mono) auto
  next
    case False
    have "x * 2 powi (52 - e) \<le> 2 powi (e + 1) * 2 powi (52 - e)" using bx by (intro mult_right_mono) auto
    also have "\<dots> = of_int (2 ^ 53)" unfolding pw by simp
    finally have "round_even (x * 2 powi (52 - e)) \<le> 2 ^ 53" using round_even_mono round_even_of_int by metis
    then have "fl x \<le> of_int (2 ^ 53) * 2 powi (e - 52)" unfolding fx by (intro mult_right_mono) (simp_all only: of_int_le_iff, simp)
    also have "\<dots> = 2 powi (e + 1)" using pw [of 53 "e - 52"] by (simp add: add.commute)
    also have "\<dots> \<le> 2 powi f" using False \<open>e \<le> f\<close> by (intro power_int_increasing) auto
    also have "\<dots> = of_int (2 ^ 52) * 2 powi (f - 52)" using pw [of 52 "f - 52"] by simp
    also have "\<dots> \<le> fl y"
    proof -
      have "of_int (2 ^ 52) = 2 powi f * (2::rat) powi (52 - f)" unfolding pw by simp
      also have "\<dots> \<le> y * 2 powi (52 - f)" using by' by (intro mult_right_mono) auto
      finally have "2 ^ 52 \<le> round_even (y * 2 powi (52 - f))" using round_even_mono round_even_of_int by metis
      then show ?thesis unfolding fy by (intro mult_right_mono) (simp_all only: of_int_le_iff, simp)
    qed
    finally show ?thesis .
  qed
qed

lemma fl_mono: "x \<le> y \<Longrightarrow> fl x \<le> fl y"
proof -
  assume le: "x \<le> y"
  consider "0 < x" | "x \<le> 0" "0 \<le> y" | "y < 0" by linarith
  then show ?thesis
  proof cases
    case 2
    then have "fl x \<le> 0" using fl_nonneg [of "- x"] by (simp add: fl_minus)
    then show ?thesis using fl_nonneg [OF 2(2)] by simp
  next
    case 3
    then have "fl (- y) \<le> fl (- x)" using le by (intro fl_mono_pos) auto
    then show ?thesis by (simp add: fl_minus)
  qed (use fl_mono_pos le in auto)
qed

text \<open>A whole number below \<open>2^53\<close> is a float.\<close>

lemma fl_small: "n < 2 ^ 53 \<Longrightarrow> fl_nat n = of_nat n"
proof (cases "n = 0")
  case False
  assume n: "n < 2 ^ 53"
  have "(2::rat) powi expo (of_nat n) \<le> of_nat n" using False expo_le [of "of_nat n"] by simp
  also have "(of_nat n :: rat) < 2 powi 53" using n by (metis of_nat_less_iff of_nat_numeral of_nat_power power_int_numeral)
  finally have e: "expo (of_nat n) < 53" using power_int_increasing [of 53 "expo (of_nat n)" "2 :: rat"] by fastforce
  define k where "k = nat (52 - expo (of_nat n))"
  have k: "52 - expo (of_nat n) = int k" using e by (simp add: k_def)
  have "(of_nat n :: rat) * 2 powi (52 - expo (of_nat n)) = of_int (int n * 2 ^ k)" by (simp add: k)
  then have "fl (of_nat n) = of_int (int n * 2 ^ k) * 2 powi (expo (of_nat n) - 52)"
    using False by (simp add: fl_pos del: of_int_mult)
  moreover have "expo (of_nat n) - 52 = - int k" using k by simp
  ultimately show ?thesis by (simp add: fl_nat_def power_int_minus field_simps)
qed (simp add: fl_nat_def)

end
