(* ===== verification/Downloader.thy ===== *)
theory Downloader
  imports Py_Shlex Py_Regex Py_Float Artifact Network
begin

text \<open>
  \<open>src/cowrie/llm/downloader.py\<close>: recognising a download in a command line, fetching it behind the
  network gate, and telling the model what was observed.

  A fetch is a function of what the network does. The HTTP client, the TFTP client and the FTP client
  are parameters (\<open>transports\<close>): what they deliver is a value. The clock is read twice, \<open>t0\<close> and
  \<open>t1\<close>. The effects of a fetch are its log events and the download directory. \<^const>\<open>Inl\<close> is an exception that
  leaves \<open>fetch\<close>, and \<^const>\<open>None\<close> a name resolution that does not end.
\<close>

section \<open>URLs\<close>

text \<open>
  \<open>urllib.parse.urlparse\<close>, as far as the module reads its result; \<^const>\<open>None\<close> is the \<open>ValueError\<close> on
  an unbalanced bracket. Of a bracketed host the balance of the brackets is checked.
\<close>

record url_parts =
  u_scheme :: string
  u_netloc :: string
  u_path :: string

definition url_clean :: "string \<Rightarrow> string" where
  "url_clean s = filter (\<lambda>c. c \<noteq> tab \<and> c \<noteq> cr \<and> c \<noteq> nl) (dropWhile (\<lambda>c. ord c \<le> 32) s)"

definition scheme_char :: "char \<Rightarrow> bool" where
  "scheme_char c \<longleftrightarrow> is_upper c \<or> is_lower c \<or> is_digit c \<or> c \<in> set ''+-.''"

definition split_scheme :: "string \<Rightarrow> string \<times> string" where
  "split_scheme s =
     (let sch = before_first (CHR '':'') s in
      if CHR '':'' \<in> set s \<and> sch \<noteq> [] \<and> (is_upper (hd sch) \<or> is_lower (hd sch)) \<and> list_all scheme_char sch
      then (py_lower sch, after_first (CHR '':'') s) else ([], s))"

definition uses_params :: "string list" where
  "uses_params = [[], ''ftp'', ''hdl'', ''prospero'', ''http'', ''https'', ''shttp'', ''rtsp'', ''rtsps'', ''rtspu'', ''sip'', ''sips'', ''mms'', ''sftp'', ''tel'']"

definition split_params :: "string \<Rightarrow> string" where
  "split_params p =
     (if CHR ''/'' \<in> set p
      then (let lastp = after_last (CHR ''/'') p in take (length p - length lastp) p @ before_first (CHR '';'') lastp)
      else before_first (CHR '';'') p)"

definition urlparse :: "string \<Rightarrow> url_parts option" where
  "urlparse url =
     (let (sch, rest) = split_scheme (url_clean url);
          net = (if startswith rest ''//'' then takeWhile (\<lambda>c. c \<notin> set ''/?#'') (drop 2 rest) else []);
          after = (if startswith rest ''//'' then drop (2 + length net) rest else rest);
          path0 = before_first (CHR ''?'') (before_first (CHR ''#'') after);
          path = (if sch \<in> set uses_params then split_params path0 else path0) in
      if (CHR ''['' \<in> set net) \<noteq> (CHR '']'' \<in> set net) then None
      else Some \<lparr>u_scheme = sch, u_netloc = net, u_path = path\<rparr>)"

definition host_info :: "string \<Rightarrow> string" where
  "host_info net = after_last (CHR ''@'') net"

definition host_port :: "string \<Rightarrow> string \<times> string" where
  "host_port net =
     (let h = host_info net in
      if CHR ''['' \<in> set h
      then (let b = after_first (CHR ''['') h in (before_first (CHR '']'') b, after_first (CHR '':'') (after_first (CHR '']'') b)))
      else (before_first (CHR '':'') h, after_first (CHR '':'') h))"

definition url_hostname :: "url_parts \<Rightarrow> string" where
  "url_hostname u =
     (let h = fst (host_port (u_netloc u)) in
      py_lower (before_first (CHR ''%'') h) @ (if CHR ''%'' \<in> set h then ''%'' @ after_first (CHR ''%'') h else []))"

text \<open>\<open>parsed.port\<close>: absent, a number up to 65535, or a \<open>ValueError\<close>.\<close>

definition url_port :: "url_parts \<Rightarrow> string + nat option" where
  "url_port u =
     (let p = snd (host_port (u_netloc u)) in
      if p = [] then Inr None
      else if list_all is_digit p \<and> length p \<le> 4300 \<and> nat_of_digits p \<le> 65535 then Inr (Some (nat_of_digits p))
      else Inl ''ValueError'')"

definition user_info :: "url_parts \<Rightarrow> string option \<times> string option" where
  "user_info u =
     (if CHR ''@'' \<in> set (u_netloc u)
      then (let ui = before_last (CHR ''@'') (u_netloc u) in
        (Some (before_first (CHR '':'') ui), if CHR '':'' \<in> set ui then Some (after_first (CHR '':'') ui) else None))
      else (None, None))"

section \<open>Intents\<close>

record download_intent =
  tool :: string
  url :: string
  outfile :: "string option"
  raw_command :: string

definition DOWNLOAD_TOOLS :: "string list" where
  "DOWNLOAD_TOOLS = [''wget'', ''curl'', ''tftp'', ''ftpget'', ''scp'']"

fun cut_at_first :: "string list \<Rightarrow> string \<Rightarrow> string" where
  "cut_at_first [] line = line"
| "cut_at_first (sep # seps) line =
     (case str_find sep line of Some i \<Rightarrow> take i line | None \<Rightarrow> cut_at_first seps line)"

definition dl_split_pipeline :: "string \<Rightarrow> string" where
  "dl_split_pipeline line = cut_at_first ['';'', ''&&'', ''||'', ''|'', [nl]] line"

definition has_url_scheme :: "string \<Rightarrow> bool" where
  "has_url_scheme a \<longleftrightarrow> startswith a ''http://'' \<or> startswith a ''https://'' \<or> startswith a ''ftp://''"

definition default_scheme :: "string \<Rightarrow> string" where
  "default_scheme a = (if str_in ''://'' a then a else ''http://'' @ a)"

fun wget_args :: "string list \<Rightarrow> string option \<Rightarrow> string list \<Rightarrow> string option \<times> string list" where
  "wget_args [] out urls = (out, urls)"
| "wget_args (a # rest) out urls =
     (if a = ''-O'' \<or> a = ''--output-document'' then
        (case rest of [] \<Rightarrow> (out, urls) | f # rest' \<Rightarrow> wget_args rest' (Some f) urls)
      else if startswith a ''--output-document='' then wget_args rest (Some (after_first (CHR ''='') a)) urls
      else if startswith a ''-O'' \<and> length a > 2 then wget_args rest (Some (drop 2 a)) urls
      else if has_url_scheme a then wget_args rest out (urls @ [a])
      else if startswith a ''-'' then wget_args rest out urls
      else wget_args rest out (urls @ [default_scheme a]))"

definition parse_wget :: "string list \<Rightarrow> string \<Rightarrow> download_intent option" where
  "parse_wget args raw =
     (case wget_args args None [] of
        (_, []) \<Rightarrow> None
      | (out, u # _) \<Rightarrow> Some \<lparr>tool = ''wget'', url = u, outfile = out, raw_command = raw\<rparr>)"

fun curl_args :: "string list \<Rightarrow> string option \<Rightarrow> bool \<Rightarrow> string list \<Rightarrow> string option \<times> bool \<times> string list" where
  "curl_args [] out remote urls = (out, remote, urls)"
| "curl_args (a # rest) out remote urls =
     (if a = ''-o'' \<or> a = ''--output'' then
        (case rest of [] \<Rightarrow> (out, remote, urls) | f # rest' \<Rightarrow> curl_args rest' (Some f) remote urls)
      else if a = ''-O'' \<or> a = ''--remote-name'' then curl_args rest out True urls
      else if startswith a ''--output='' then curl_args rest (Some (after_first (CHR ''='') a)) remote urls
      else if has_url_scheme a then curl_args rest out remote (urls @ [a])
      else if startswith a ''-'' then curl_args rest out remote urls
      else curl_args rest out remote (urls @ [default_scheme a]))"

definition remote_name :: "string \<Rightarrow> string" where
  "remote_name path = (let b = after_last (CHR ''/'') path in if b = [] then ''index.html'' else b)"

text \<open>The \<open>ValueError\<close> of \<open>urlparse\<close> leaves the parser.\<close>

definition parse_curl :: "string list \<Rightarrow> string \<Rightarrow> string + download_intent option" where
  "parse_curl args raw =
     (case curl_args args None False [] of
        (_, _, []) \<Rightarrow> Inr None
      | (out, remote, u # _) \<Rightarrow>
          if remote \<and> out = None then
            (case urlparse u of
               None \<Rightarrow> Inl ''ValueError: Invalid IPv6 URL''
             | Some parts \<Rightarrow>
                 Inr (Some \<lparr>tool = ''curl'', url = u, outfile = Some (remote_name (u_path parts)), raw_command = raw\<rparr>))
          else Inr (Some \<lparr>tool = ''curl'', url = u, outfile = out, raw_command = raw\<rparr>))"

fun tftp_args :: "string list \<Rightarrow> string option \<times> string option \<times> string option \<Rightarrow> string option \<times> string option \<times> string option" where
  "tftp_args [] acc = acc"
| "tftp_args (a # rest) (remote, local, host) =
     (if a = ''-r'' \<and> rest \<noteq> [] then tftp_args (tl rest) (Some (hd rest), local, host)
      else if a = ''-l'' \<and> rest \<noteq> [] then tftp_args (tl rest) (remote, Some (hd rest), host)
      else if a \<in> {''-g'', ''-p'', ''-c''} then tftp_args rest (remote, local, host)
      else if \<not> startswith a ''-'' then tftp_args rest (remote, local, Some a)
      else tftp_args rest (remote, local, host))"

definition opt_nonempty :: "string option \<Rightarrow> bool" where
  "opt_nonempty x \<longleftrightarrow> (case x of None \<Rightarrow> False | Some s \<Rightarrow> s \<noteq> [])"

definition parse_tftp :: "string list \<Rightarrow> string \<Rightarrow> download_intent option" where
  "parse_tftp args raw =
     (case tftp_args args (None, None, None) of (remote, local, host) \<Rightarrow>
        if \<not> opt_nonempty host \<or> \<not> opt_nonempty remote then None
        else Some \<lparr>tool = ''tftp'', url = ''tftp://'' @ the host @ ''/'' @ the remote,
          outfile = Some (if opt_nonempty local then the local else after_last (CHR ''/'') (the remote)), raw_command = raw\<rparr>)"

fun ftpget_args :: "string list \<Rightarrow> string list" where
  "ftpget_args [] = []"
| "ftpget_args (a # rest) =
     (if a \<in> {''-u'', ''-p'', ''-P''} \<and> rest \<noteq> [] then ftpget_args (tl rest)
      else if startswith a ''-'' then ftpget_args rest
      else a # ftpget_args rest)"

definition parse_ftpget :: "string list \<Rightarrow> string \<Rightarrow> download_intent option" where
  "parse_ftpget args raw =
     (case ftpget_args args of
        host # local # remote # _ \<Rightarrow>
          if host = [] \<or> remote = [] then None
          else Some \<lparr>tool = ''ftpget'', url = ''ftp://'' @ host @ ''/'' @ remote, outfile = Some local, raw_command = raw\<rparr>
      | _ \<Rightarrow> None)"

definition is_remote :: "string \<Rightarrow> bool" where
  "is_remote p \<longleftrightarrow> CHR '':'' \<in> set p \<and> CHR ''/'' \<notin> set (before_first (CHR '':'') p)"

definition parse_scp :: "string list \<Rightarrow> string \<Rightarrow> download_intent option" where
  "parse_scp args raw =
     (let positional = filter (\<lambda>a. \<not> startswith a ''-'') args in
      if length positional < 2 then None
      else let src = positional ! (length positional - 2); dst = last positional;
               direction = (if is_remote src \<and> \<not> is_remote dst then ''inbound''
                 else if is_remote dst \<and> \<not> is_remote src then ''outbound'' else ''ambiguous'') in
        Some \<lparr>tool = ''scp'', url = ''scp://'' @ direction @ ''/'' @ src @ ''->'' @ dst,
          outfile = Some (if direction = ''inbound'' then dst else src), raw_command = raw\<rparr>)"

definition parse_download_command :: "string \<Rightarrow> string + download_intent option" where
  "parse_download_command line =
     (let head = py_strip (dl_split_pipeline line) in
      if head = [] then Inr None
      else if hd (split_ws1 head) \<notin> set DOWNLOAD_TOOLS then Inr None
      else case shlex_split head of
        None \<Rightarrow> Inr None
      | Some [] \<Rightarrow> Inr None
      | Some (t # args) \<Rightarrow>
          if t = ''wget'' then Inr (parse_wget args line)
          else if t = ''curl'' then parse_curl args line
          else if t = ''tftp'' then Inr (parse_tftp args line)
          else if t = ''ftpget'' then Inr (parse_ftpget args line)
          else if t = ''scp'' then Inr (parse_scp args line)
          else Inr None)"

section \<open>Observations\<close>

record fetch_result =
  outcome :: string
  res_url :: string
  saved_to :: "string option"
  bytes_downloaded :: nat
  bytes_advertised :: "int option"
  res_sha256 :: "string option"
  http_status :: "nat option"
  content_type :: "string option"
  error_message :: "string option"
  duration_seconds :: rat

definition FetchResult :: "string \<Rightarrow> string \<Rightarrow> fetch_result" where
  "FetchResult oc u = \<lparr>outcome = oc, res_url = u, saved_to = None, bytes_downloaded = 0, bytes_advertised = None,
     res_sha256 = None, http_status = None, content_type = None, error_message = None, duration_seconds = 0\<rparr>"

definition OBSERVATION_OPEN :: string where "OBSERVATION_OPEN = ''[SHELL_OBSERVED]''"
definition OBSERVATION_CLOSE :: string where "OBSERVATION_CLOSE = ''[/SHELL_OBSERVED]''"

definition opt_line :: "string \<Rightarrow> string option \<Rightarrow> string list" where
  "opt_line key v = (if opt_nonempty v then [key @ the v] else [])"

definition render_observation :: "download_intent \<Rightarrow> fetch_result \<Rightarrow> string" where
  "render_observation i r =
     py_join [nl] (
       [OBSERVATION_OPEN, ''command: '' @ py_strip (raw_command i), ''outcome: '' @ outcome r, ''url: '' @ res_url r] @
       opt_line ''saved_to: '' (saved_to r) @
       (if bytes_downloaded r \<noteq> 0 then [''bytes_downloaded: '' @ str_of_nat (bytes_downloaded r)] else []) @
       (case bytes_advertised r of None \<Rightarrow> [] | Some n \<Rightarrow> [''bytes_advertised: '' @ str_of_int n]) @
       opt_line ''sha256: '' (res_sha256 r) @
       (case http_status r of None \<Rightarrow> [] | Some n \<Rightarrow> [''http_status: '' @ str_of_nat n]) @
       opt_line ''content_type: '' (content_type r) @
       opt_line ''error: '' (error_message r) @
       [''duration_seconds: '' @ fixed 2 (duration_seconds r), OBSERVATION_CLOSE,
        ''Produce realistic terminal output for the command. Do not '' @
        ''contradict any fact in the SHELL_OBSERVED block above.''])"

definition OBSERVATION_RE :: regex where
  "OBSERVATION_RE = rseq [rlit OBSERVATION_OPEN, RLazy rany, rlit OBSERVATION_CLOSE]"

definition strip_leaked_observation :: "string \<Rightarrow> string \<times> bool" where
  "strip_leaked_observation t =
     (if \<not> str_in OBSERVATION_OPEN t \<and> \<not> str_in OBSERVATION_CLOSE t then (t, False)
      else let cleaned = re_sub OBSERVATION_RE (\<lambda>_. []) t in
        (str_replace OBSERVATION_CLOSE [] (str_replace OBSERVATION_OPEN [] cleaned), True))"

section \<open>Fetching\<close>

record download_event =
  eventid :: string
  ev_url :: string
  ev_outfile :: "string option"
  ev_shasum :: "string option"
  ev_raw :: "string option"

definition failed_event :: "download_intent \<Rightarrow> download_event" where
  "failed_event i = \<lparr>eventid = ''cowrie.session.file_download.failed'', ev_url = url i, ev_outfile = outfile i,
     ev_shasum = None, ev_raw = None\<rparr>"

definition download_event :: "string \<Rightarrow> (string \<times> string) option \<Rightarrow> download_event" where
  "download_event u clo = \<lparr>eventid = ''cowrie.session.file_download'', ev_url = u, ev_outfile = map_option snd clo,
     ev_shasum = map_option fst clo, ev_raw = None\<rparr>"

text \<open>What the clients deliver: a response with status, headers, body bytes and body text, or a failure with its
  message; the bytes written before a TFTP or FTP transfer ended, and its error if it failed.\<close>

datatype http_answer = HttpFailure string | HttpResponse nat "string option" "string option" bytestr string

datatype ftp_error = ConnectFailed string | RetrieveFailed string

record transports =
  http_get :: "string \<Rightarrow> http_answer"
  tftp_get :: "string \<Rightarrow> nat \<Rightarrow> string \<Rightarrow> bytestr \<times> string option"
  ftp_get :: "string \<Rightarrow> string \<Rightarrow> string \<Rightarrow> nat \<Rightarrow> string \<Rightarrow> bytestr \<times> ftp_error option"

record fetch_env =
  allowed :: "string \<Rightarrow> bool option"
  net :: transports
  honeypot_cap :: nat
  llm_cap :: nat
  artifact_dir :: string
  t0 :: rat
  t1 :: rat

definition size_cap_for_llm :: "fetch_env \<Rightarrow> nat" where
  "size_cap_for_llm e =
     (if honeypot_cap e \<noteq> 0 \<and> llm_cap e \<noteq> 0 then min (honeypot_cap e) (llm_cap e)
      else if honeypot_cap e \<noteq> 0 then honeypot_cap e else llm_cap e)"

definition capped_outcome :: "nat \<Rightarrow> nat \<Rightarrow> string" where
  "capped_outcome cap n = (if cap \<noteq> 0 \<and> n > cap then ''partial'' else ''success'')"

type_synonym fetched = "fetch_result \<times> download_event list \<times> store"

definition finish_http_success ::
  "fetch_env \<Rightarrow> download_intent \<Rightarrow> nat \<Rightarrow> string \<Rightarrow> int option \<Rightarrow> artifact \<Rightarrow> store \<Rightarrow> fetched"
where
  "finish_http_success e i status ctype adv a st =
     (let n = length (art_data a); (clo, _, st') = artifact_close (artifact_dir e) False a st in
      ((FetchResult (capped_outcome (size_cap_for_llm e) n) (url i))\<lparr>saved_to := outfile i, bytes_downloaded := n,
         bytes_advertised := adv, res_sha256 := map_option fst clo, http_status := Some status,
         content_type := Some ctype, duration_seconds := fsub (t1 e) (t0 e)\<rparr>,
       [download_event (url i) clo], st'))"

definition finish_http_failure :: "fetch_env \<Rightarrow> download_intent \<Rightarrow> nat \<Rightarrow> string \<Rightarrow> string \<Rightarrow> store \<Rightarrow> fetched" where
  "finish_http_failure e i status ctype preview st =
     (let msg = take 120 (py_strip preview) in
      ((FetchResult ''failed_http'' (url i))\<lparr>http_status := Some status, content_type := Some ctype,
         error_message := Some (if msg \<noteq> [] then msg else ''HTTP '' @ str_of_nat status), duration_seconds := fsub (t1 e) (t0 e)\<rparr>,
       [failed_event i], st))"

definition finish_http_exception :: "fetch_env \<Rightarrow> download_intent \<Rightarrow> string \<Rightarrow> store \<Rightarrow> fetched" where
  "finish_http_exception e i err st =
     (let msg = py_lower err;
          oc = (if str_in ''name or service'' msg \<or> str_in ''name resolution'' msg \<or> str_in ''no address'' msg
            then ''failed_dns'' else ''failed_connection'') in
      ((FetchResult oc (url i))\<lparr>error_message := Some (if err \<noteq> [] then err else ''connection failed''),
         duration_seconds := fsub (t1 e) (t0 e)\<rparr>,
       [failed_event i], st))"

definition do_treq_fetch :: "fetch_env \<Rightarrow> download_intent \<Rightarrow> store \<Rightarrow> fetched" where
  "do_treq_fetch e i st =
     (case http_get (net e) (url i) of
        HttpFailure err \<Rightarrow> finish_http_exception e i err st
      | HttpResponse status ctype_h clen_h body body_text \<Rightarrow>
          let ctype = (case ctype_h of None \<Rightarrow> [] | Some h \<Rightarrow> h);
              adv = (case clen_h of None \<Rightarrow> None | Some h \<Rightarrow> py_int h) in
          if status \<ge> 400 then finish_http_failure e i status ctype (take 200 body_text) st
          else finish_http_success e i status ctype adv (artifact_write body (new_artifact ''llm-download'')) st)"

definition refuse :: "download_intent \<Rightarrow> string \<Rightarrow> string \<Rightarrow> store \<Rightarrow> fetched" where
  "refuse i oc msg st = ((FetchResult oc (url i))\<lparr>error_message := Some msg\<rparr>, [failed_event i], st)"

definition fetch_http :: "fetch_env \<Rightarrow> download_intent \<Rightarrow> store \<Rightarrow> (string + fetched) option" where
  "fetch_http e i st =
     (case urlparse (url i) of
        None \<Rightarrow> Some (Inl ''ValueError: Invalid IPv6 URL'')
      | Some u \<Rightarrow>
          (case allowed e (url_hostname u) of
             None \<Rightarrow> None
           | Some False \<Rightarrow>
               Some (Inr (refuse i ''failed_blocked'' (''Connecting to '' @ url_hostname u @ ''... failed: Connection refused.'') st))
           | Some True \<Rightarrow> Some (Inr (do_treq_fetch e i st))))"

definition finalize_udp_or_ftp :: "fetch_env \<Rightarrow> download_intent \<Rightarrow> bytestr \<Rightarrow> string option \<Rightarrow> store \<Rightarrow> fetched" where
  "finalize_udp_or_ftp e i bs err st =
     (let a = artifact_write bs (new_artifact ''llm-download''); n = length bs in
      if err \<noteq> None \<or> n = 0 then
        (let (_, _, st') = artifact_close (artifact_dir e) False a st;
             msg = (case err of None \<Rightarrow> [] | Some m \<Rightarrow> m) in
         ((FetchResult ''failed_connection'' (url i))\<lparr>
            error_message := Some (if msg \<noteq> [] then msg else ''transfer failed''), duration_seconds := fsub (t1 e) (t0 e)\<rparr>,
          [failed_event i], st'))
      else
        (let (clo, _, st') = artifact_close (artifact_dir e) False a st in
         ((FetchResult (capped_outcome (size_cap_for_llm e) n) (url i))\<lparr>saved_to := outfile i, bytes_downloaded := n,
            res_sha256 := map_option fst clo, duration_seconds := fsub (t1 e) (t0 e)\<rparr>,
          [download_event (url i) clo], st')))"

definition with_default :: "string \<Rightarrow> string option \<Rightarrow> string option" where
  "with_default d err = (case err of None \<Rightarrow> None | Some m \<Rightarrow> Some (if m \<noteq> [] then m else d))"

definition fetch_tftp :: "fetch_env \<Rightarrow> download_intent \<Rightarrow> store \<Rightarrow> (string + fetched) option" where
  "fetch_tftp e i st =
     (case urlparse (url i) of
        None \<Rightarrow> Some (Inl ''ValueError: Invalid IPv6 URL'')
      | Some u \<Rightarrow>
          (case url_port u of
             Inl err \<Rightarrow> Some (Inl err)
           | Inr p \<Rightarrow>
               let host = url_hostname u; fname = dropWhile (\<lambda>c. c = CHR ''/'') (u_path u);
                   port = (case p of None \<Rightarrow> 69 | Some n \<Rightarrow> if n = 0 then 69 else n) in
               if host = [] \<or> fname = [] then Some (Inr (refuse i ''failed_connection'' ''malformed TFTP URL'' st))
               else (case allowed e host of
                   None \<Rightarrow> None
                 | Some False \<Rightarrow>
                     Some (Inr (refuse i ''failed_blocked'' (''tftp: connect to '' @ host @ '' failed: Connection refused'') st))
                 | Some True \<Rightarrow>
                     (case tftp_get (net e) host port fname of (bs, err) \<Rightarrow>
                        Some (Inr (finalize_udp_or_ftp e i bs (with_default ''tftp failed'' err) st))))))"

definition ftp_message :: "ftp_error \<Rightarrow> string" where
  "ftp_message err =
     (case err of
        ConnectFailed m \<Rightarrow> if m \<noteq> [] then m else ''connect failed''
      | RetrieveFailed m \<Rightarrow> if m \<noteq> [] then m else ''retrieve failed'')"

definition fetch_ftp :: "fetch_env \<Rightarrow> download_intent \<Rightarrow> store \<Rightarrow> (string + fetched) option" where
  "fetch_ftp e i st =
     (case urlparse (url i) of
        None \<Rightarrow> Some (Inl ''ValueError: Invalid IPv6 URL'')
      | Some u \<Rightarrow>
          (case url_port u of
             Inl err \<Rightarrow> Some (Inl err)
           | Inr p \<Rightarrow>
               let host = url_hostname u;
                   port = (case p of None \<Rightarrow> 21 | Some n \<Rightarrow> if n = 0 then 21 else n);
                   path = (if u_path u = [] then ''/'' else u_path u);
                   user = (if opt_nonempty (fst (user_info u)) then the (fst (user_info u)) else ''anonymous'');
                   pass = (if opt_nonempty (snd (user_info u)) then the (snd (user_info u)) else ''honeypot@example.com'') in
               if host = [] \<or> path = ''/'' then Some (Inr (refuse i ''failed_connection'' ''malformed FTP URL'' st))
               else (case allowed e host of
                   None \<Rightarrow> None
                 | Some False \<Rightarrow>
                     Some (Inr (refuse i ''failed_blocked'' (''ftp: connect to '' @ host @ '' refused'') st))
                 | Some True \<Rightarrow>
                     (case ftp_get (net e) user pass host port (dropWhile (\<lambda>c. c = CHR ''/'') path) of (bs, err) \<Rightarrow>
                        Some (Inr (finalize_udp_or_ftp e i bs (map_option ftp_message err) st))))))"

definition refuse_scp :: "download_intent \<Rightarrow> store \<Rightarrow> fetched" where
  "refuse_scp i st =
     ((FetchResult ''failed_blocked'' (url i))\<lparr>error_message := Some ''Permission denied (publickey,password).''\<rparr>,
      [\<lparr>eventid = ''cowrie.session.scp_attempt'', ev_url = url i, ev_outfile = outfile i, ev_shasum = None,
        ev_raw = Some (raw_command i)\<rparr>], st)"

definition fetch :: "fetch_env \<Rightarrow> download_intent \<Rightarrow> store \<Rightarrow> (string + fetched) option" where
  "fetch e i st =
     (if tool i \<in> {''wget'', ''curl''} \<and> (startswith (url i) ''http://'' \<or> startswith (url i) ''https://'') then fetch_http e i st
      else if tool i \<in> {''wget'', ''curl''} \<and> startswith (url i) ''ftp://'' then fetch_ftp e i st
      else if tool i = ''tftp'' then fetch_tftp e i st
      else if tool i = ''ftpget'' then fetch_ftp e i st
      else if tool i = ''scp'' then Some (Inr (refuse_scp i st))
      else Some (Inr ((FetchResult ''tool_unsupported'' (url i))\<lparr>error_message :=
          Some (''tool '' @ [squote] @ tool i @ [squote] @ '' not implemented'')\<rparr>, [], st)))"

section \<open>The parsers' contract\<close>

text \<open>
  What the dispatcher and the fetcher rely on: an intent carries the parser's tool, the whole command
  line, and an absolute URL.
\<close>

locale intent_parser =
  fixes parse :: "string list \<Rightarrow> string \<Rightarrow> download_intent option"
    and name :: string
  assumes parse_tool: "parse args raw = Some i \<Longrightarrow> tool i = name"
    and parse_raw: "parse args raw = Some i \<Longrightarrow> raw_command i = raw"
    and parse_url: "parse args raw = Some i \<Longrightarrow> str_in ''://'' (url i)"
begin

lemma parse_ok:
  "parse args raw = Some i \<Longrightarrow> name \<in> set DOWNLOAD_TOOLS \<Longrightarrow>
   tool i \<in> set DOWNLOAD_TOOLS \<and> raw_command i = raw \<and> str_in ''://'' (url i)"
  using parse_tool parse_raw parse_url by blast

end

lemma default_scheme_url: "str_in ''://'' (default_scheme a)"
  by (simp add: default_scheme_def)

lemma has_url_scheme_url: "has_url_scheme a \<Longrightarrow> str_in ''://'' a"
  by (auto simp: has_url_scheme_def prefix_def)

lemma wget_args_urls:
  "\<forall>u\<in>set urls. str_in ''://'' u \<Longrightarrow> \<forall>u\<in>set (snd (wget_args args out urls)). str_in ''://'' u"
  by (induction args out urls rule: wget_args.induct)
     (simp_all add: default_scheme_url has_url_scheme_url split: list.split)

lemma curl_args_urls:
  "\<forall>u\<in>set urls. str_in ''://'' u \<Longrightarrow> \<forall>u\<in>set (snd (snd (curl_args args out remote urls))). str_in ''://'' u"
  by (induction args out remote urls rule: curl_args.induct)
     (simp_all add: default_scheme_url has_url_scheme_url split: list.split)

interpretation wget: intent_parser parse_wget "''wget''"
proof
  fix args raw i
  assume "parse_wget args raw = Some i"
  then obtain out u us where w: "wget_args args None [] = (out, u # us)"
      and i: "i = \<lparr>tool = ''wget'', url = u, outfile = out, raw_command = raw\<rparr>"
    by (auto simp: parse_wget_def split: prod.splits list.splits)
  show "tool i = ''wget''" "raw_command i = raw" by (simp_all add: i)
  show "str_in ''://'' (url i)" using wget_args_urls [of "[]" args None] by (simp add: w i del: str_in.simps)
qed

definition parse_curl_ok :: "string list \<Rightarrow> string \<Rightarrow> download_intent option" where
  "parse_curl_ok args raw = (case parse_curl args raw of Inl _ \<Rightarrow> None | Inr x \<Rightarrow> x)"

interpretation curl: intent_parser parse_curl_ok "''curl''"
proof
  fix args raw i
  assume "parse_curl_ok args raw = Some i"
  then obtain out remote u us out' where w: "curl_args args None False [] = (out, remote, u # us)"
      and i: "i = \<lparr>tool = ''curl'', url = u, outfile = out', raw_command = raw\<rparr>"
    by (auto simp: parse_curl_ok_def parse_curl_def split: prod.splits list.splits if_splits option.splits)
  show "tool i = ''curl''" "raw_command i = raw" by (simp_all add: i)
  show "str_in ''://'' (url i)" using curl_args_urls [of "[]" args None False] by (simp add: w i del: str_in.simps)
qed

interpretation tftp: intent_parser parse_tftp "''tftp''"
  by unfold_locales (auto simp: parse_tftp_def split: prod.splits if_splits)

interpretation ftpget: intent_parser parse_ftpget "''ftpget''"
  by unfold_locales (auto simp: parse_ftpget_def split: list.splits if_splits)

interpretation scp_intent: intent_parser parse_scp "''scp''"
  by unfold_locales (auto simp: parse_scp_def Let_def split: if_splits)

section \<open>Removing a leaked block\<close>

lemma obs_no_match:
  assumes "ahead p = [] \<or> hd (ahead p) \<noteq> CHR ''[''"
  shows "rmatch OBSERVATION_RE k p = None"
proof -
  have "\<not> prefix OBSERVATION_OPEN (ahead p)" using assms by (cases "ahead p") (auto simp: OBSERVATION_OPEN_def)
  then show ?thesis by (simp add: OBSERVATION_RE_def rmatch_lit)
qed

lemma sub_skip:
  "CHR ''['' \<notin> set u \<Longrightarrow> ahead p = u @ v \<Longrightarrow> sub_from OBSERVATION_RE f p = u @ sub_from OBSERVATION_RE f (skip (length u) p)"
proof (induction u arbitrary: p)
  case (Cons c u)
  have "rmatch OBSERVATION_RE Some (p\<lparr>caps := []\<rparr>) = None" using Cons.prems by (intro obs_no_match) auto
  then have "sub_from OBSERVATION_RE f p = c # sub_from OBSERVATION_RE f (skip 1 p)"
    using Cons.prems(2) advance_skip [of p] by (simp add: sub_from.simps [of _ _ p])
  also have "sub_from OBSERVATION_RE f (skip 1 p) = u @ sub_from OBSERVATION_RE f (skip (length u) (skip 1 p))"
    using Cons.prems by (intro Cons.IH) auto
  finally show ?case by simp
qed simp

lemma sub_end: "ahead p = [] \<Longrightarrow> sub_from OBSERVATION_RE f p = []"
  using obs_no_match [of "p\<lparr>caps := []\<rparr>" Some] by (simp add: sub_from.simps [of _ _ p])

text \<open>The closing marker cannot begin in a text without it and end in the marker itself.\<close>

lemma close_marker_first:
  assumes "\<not> str_in OBSERVATION_CLOSE body" "m < length body"
  shows "\<not> prefix OBSERVATION_CLOSE (drop m body @ OBSERVATION_CLOSE @ post)"
proof
  let ?c = "OBSERVATION_CLOSE" and ?d = "drop m body"
  assume pre: "prefix ?c (?d @ ?c @ post)"
  have d: "0 < length ?d" using assms(2) by simp
  show False
  proof (cases "length ?c \<le> length ?d")
    case True
    then have "prefix ?c ?d" using pre by (metis prefix_length_prefix prefixI)
    then have "str_in ?c body" unfolding str_in_decomp prefix_def by (metis append_take_drop_id)
    then show False using assms(1) by simp
  next
    case False
    then have lt: "length ?d < length ?c" by simp
    obtain zs where zs: "?d @ ?c @ post = ?c @ zs" using pre by (auto simp: prefix_def)
    have "?c ! length ?d = (?c @ zs) ! length ?d" unfolding nth_append if_P [OF lt] ..
    also have "\<dots> = (?c @ post) ! 0" unfolding zs [symmetric] by (metis add_0_right nth_append_length_plus)
    finally have "?c ! length ?d = CHR ''[''" by (simp add: OBSERVATION_CLOSE_def)
    moreover have "?c ! k \<noteq> CHR ''[''" if k: "0 < k" "k < length ?c" for k
    proof -
      obtain j where "k = Suc j" using k(1) gr0_implies_Suc by blast
      then have "?c ! k = tl ?c ! j" "j < length (tl ?c)" using k(2) by (simp_all add: nth_tl)
      then have "?c ! k \<in> set (tl ?c)" using nth_mem by metis
      then show ?thesis by (auto simp: OBSERVATION_CLOSE_def)
    qed
    ultimately show False using d False by (meson not_le_imp_less)
  qed
qed

lemma obs_match:
  assumes "ahead p = OBSERVATION_OPEN @ body @ OBSERVATION_CLOSE @ post" "\<not> str_in OBSERVATION_CLOSE body"
  shows "rmatch OBSERVATION_RE Some p = Some (skip (length (OBSERVATION_OPEN @ body @ OBSERVATION_CLOSE)) p)"
proof -
  let ?q = "skip (length OBSERVATION_OPEN) p"
  have q: "ahead ?q = body @ OBSERVATION_CLOSE @ post" by (simp add: assms(1))
  have "rmatch (RLazy (RCls (\<lambda>_. True))) (rmatch (rlit OBSERVATION_CLOSE) Some) ?q =
      Some (skip (length OBSERVATION_CLOSE) (skip (length body) ?q))"
  proof (rule lazy_cls_first)
    have "takeWhile (\<lambda>_. True) xs = xs" for xs :: string by (induction xs) auto
    then show "length body \<le> length (takeWhile (\<lambda>_. True) (ahead ?q))" unfolding q by simp
    show "\<forall>m<length body. rmatch (rlit OBSERVATION_CLOSE) Some (skip m ?q) = None"
      using close_marker_first [OF assms(2), of _ post] q by (auto simp: rmatch_lit simp del: skip_skip)
    show "rmatch (rlit OBSERVATION_CLOSE) Some (skip (length body) ?q) =
        Some (skip (length OBSERVATION_CLOSE) (skip (length body) ?q))"
      using q by (simp add: rmatch_lit del: skip_skip)
  qed
  then show ?thesis using assms(1)
    by (simp add: OBSERVATION_RE_def rmatch_lit rany_def add.assoc del: rmatch.simps(6))
qed

lemma replace_absent_bracket: "CHR ''['' \<notin> set s \<Longrightarrow> str_replace OBSERVATION_CLOSE [] (str_replace OBSERVATION_OPEN [] s) = s"
proof -
  assume a: "CHR ''['' \<notin> set s"
  have "\<not> str_in OBSERVATION_OPEN s" "\<not> str_in OBSERVATION_CLOSE s"
    using a by (auto simp: str_in_decomp OBSERVATION_OPEN_def OBSERVATION_CLOSE_def)
  then show ?thesis by (simp add: str_replace_absent OBSERVATION_OPEN_def OBSERVATION_CLOSE_def)
qed

section \<open>Properties\<close>

text \<open>Whatever command line is recognised as a download, the intent names one of the known tools, keeps the
  whole line for the log, and carries an absolute URL, with \<open>http\<close> as the default scheme.\<close>

lemma parse_download_wellformed:
  assumes "parse_download_command line = Inr (Some i)"
  shows "tool i \<in> set DOWNLOAD_TOOLS \<and> raw_command i = line \<and> str_in ''://'' (url i)"
proof -
  have tools: "''wget'' \<in> set DOWNLOAD_TOOLS" "''curl'' \<in> set DOWNLOAD_TOOLS" "''tftp'' \<in> set DOWNLOAD_TOOLS"
      "''ftpget'' \<in> set DOWNLOAD_TOOLS" "''scp'' \<in> set DOWNLOAD_TOOLS" by (simp_all add: DOWNLOAD_TOOLS_def)
  have "\<exists>args. parse_wget args line = Some i \<or> parse_curl args line = Inr (Some i) \<or> parse_tftp args line = Some i \<or>
      parse_ftpget args line = Some i \<or> parse_scp args line = Some i"
    using assms by (auto simp: parse_download_command_def Let_def split: if_splits option.splits list.splits)
  moreover have "parse_curl args line = Inr (Some i) \<Longrightarrow> parse_curl_ok args line = Some i" for args
    by (simp add: parse_curl_ok_def)
  ultimately show ?thesis
    using wget.parse_ok [OF _ tools(1)] curl.parse_ok [OF _ tools(2)] tftp.parse_ok [OF _ tools(3)]
      ftpget.parse_ok [OF _ tools(4)] scp_intent.parse_ok [OF _ tools(5)] by blast
qed


text \<open>A complete observation block that the model echoes is cut out, with everything between its markers, and the
  rest of the answer is returned unchanged; the leak is reported.\<close>

lemma strip_leaked_block:
  assumes "CHR ''['' \<notin> set pre" "CHR ''['' \<notin> set post" "\<not> str_in OBSERVATION_CLOSE body"
  shows "strip_leaked_observation (pre @ OBSERVATION_OPEN @ body @ OBSERVATION_CLOSE @ post) = (pre @ post, True)"
proof -
  let ?blk = "OBSERVATION_OPEN @ body @ OBSERVATION_CLOSE"
  let ?t = "pre @ OBSERVATION_OPEN @ body @ OBSERVATION_CLOSE @ post"
  define p where "p = skip (length pre) (start_pos ?t)"
  define q where "q = skip (length ?blk) p"
  have p: "ahead p = OBSERVATION_OPEN @ body @ OBSERVATION_CLOSE @ post" "p\<lparr>caps := []\<rparr> = p" by (simp_all add: p_def)
  have m: "rmatch OBSERVATION_RE Some p = Some q" unfolding q_def by (rule obs_match [OF p(1) assms(3)])
  have q: "ahead q = post" by (simp add: q_def p(1))
  have less: "length (ahead q) < length (ahead p)" unfolding q p(1) by (simp add: OBSERVATION_OPEN_def)
  have "sub_from OBSERVATION_RE (\<lambda>_. []) p = sub_from OBSERVATION_RE (\<lambda>_. []) q"
    unfolding sub_from.simps [of _ _ p] p(2) m using less by simp
  also have "\<dots> = post"
    using sub_skip [OF assms(2), of q "[]" "\<lambda>_. []"] q sub_end [of "skip (length post) q" "\<lambda>_. []"] by simp
  finally have "re_sub OBSERVATION_RE (\<lambda>_. []) ?t = pre @ post"
    using sub_skip [OF assms(1), of "start_pos ?t"] by (simp add: re_sub_def p_def)
  moreover have "str_in OBSERVATION_OPEN ?t" by (auto simp: str_in_decomp)
  moreover have "CHR ''['' \<notin> set (pre @ post)" using assms by simp
  ultimately show ?thesis by (simp add: strip_leaked_observation_def replace_absent_bracket del: set_append)
qed


text \<open>Markers nested into each other survive: removing the inner one puts the outer one together.\<close>

lemma strip_leaked_nested:
  "strip_leaked_observation ''[SHELL_[SHELL_OBSERVED]OBSERVED]'' = (''[SHELL_OBSERVED]'', True)"
  by code_simp


lemma artifact_close_eq: "artifact_close dir False a st = (clo, a', st') \<Longrightarrow>
   (art_data a = [] \<longrightarrow> clo = None \<and> st' = st) \<and>
   (art_data a \<noteq> [] \<longrightarrow> clo = Some (sha256_hex (art_data a), path_join dir (sha256_hex (art_data a))) \<and>
      map_of st' (path_join dir (sha256_hex (art_data a))) \<noteq> None)"
  by (auto simp: artifact_close_def Let_def update_conv' split: if_splits)

definition captured :: "string \<Rightarrow> bool" where
  "captured oc \<longleftrightarrow> oc = ''success'' \<or> oc = ''partial''"

text \<open>What a finished transfer reports about the bytes it got.\<close>

definition truthful :: "fetch_env \<Rightarrow> fetched \<Rightarrow> bytestr \<Rightarrow> bool" where
  "truthful e f bs \<longleftrightarrow> (case f of (r, evs, st') \<Rightarrow>
     bytes_downloaded r = length bs \<and>
     (outcome r = ''partial'' \<longleftrightarrow> size_cap_for_llm e \<noteq> 0 \<and> length bs > size_cap_for_llm e) \<and>
     (bs \<noteq> [] \<longrightarrow> res_sha256 r = Some (sha256_hex bs) \<and> map_of st' (path_join (artifact_dir e) (sha256_hex bs)) \<noteq> None))"

lemma finish_http_success_truthful:
  "truthful e (finish_http_success e i status ctype adv (artifact_write bs (new_artifact l)) st) bs"
proof -
  let ?a = "artifact_write bs (new_artifact l)"
  obtain clo a' st' where c: "artifact_close (artifact_dir e) False ?a st = (clo, a', st')" by (metis prod_cases3)
  show ?thesis using artifact_close_eq [OF c] c
    by (auto simp: truthful_def finish_http_success_def FetchResult_def capped_outcome_def artifact_write_def new_artifact_def Let_def)
qed

lemma captured_capped: "captured (capped_outcome c n)"
  by (simp add: captured_def capped_outcome_def)

lemma finish_http_success_outcome:
  "outcome (fst (finish_http_success e i status ctype adv a st)) = capped_outcome (size_cap_for_llm e) (length (art_data a))"
  by (simp add: finish_http_success_def FetchResult_def Let_def split: prod.split)

lemma finalize_truthful:
  assumes "captured (outcome (fst (finalize_udp_or_ftp e i bs err st)))"
  shows "truthful e (finalize_udp_or_ftp e i bs err st) bs"
proof -
  let ?a = "artifact_write bs (new_artifact ''llm-download'')"
  obtain clo a' st' where c: "artifact_close (artifact_dir e) False ?a st = (clo, a', st')" by (metis prod_cases3)
  show ?thesis using artifact_close_eq [OF c] c assms
    by (auto simp: truthful_def finalize_udp_or_ftp_def FetchResult_def capped_outcome_def artifact_write_def new_artifact_def
        captured_def Let_def split: if_splits)
qed

text \<open>A transfer that was captured went through the gate, and its report is truthful.\<close>

definition approved :: "fetch_env \<Rightarrow> download_intent \<Rightarrow> bool" where
  "approved e i \<longleftrightarrow> (case urlparse (url i) of None \<Rightarrow> False | Some u \<Rightarrow> allowed e (url_hostname u) = Some True)"

lemma do_treq_captured:
  "captured (outcome (fst (do_treq_fetch e i st))) \<Longrightarrow> \<exists>bs. truthful e (do_treq_fetch e i st) bs"
proof (cases "http_get (net e) (url i)")
  case (HttpResponse status ctype_h clen_h body body_text)
  assume "captured (outcome (fst (do_treq_fetch e i st)))"
  then have "\<not> status \<ge> 400"
    using HttpResponse by (auto simp: do_treq_fetch_def captured_def finish_http_failure_def FetchResult_def Let_def split: if_splits)
  then show ?thesis using HttpResponse finish_http_success_truthful
    by (auto simp: do_treq_fetch_def Let_def intro!: exI [of _ body])
qed (auto simp: do_treq_fetch_def captured_def finish_http_exception_def FetchResult_def Let_def split: if_splits)

lemma refuse_not_captured: "oc \<notin> {''success'', ''partial''} \<Longrightarrow> \<not> captured (outcome (fst (refuse i oc m st)))"
  by (simp add: refuse_def captured_def FetchResult_def)

lemma fetch_http_captured:
  assumes "fetch_http e i st = Some (Inr f)" "captured (outcome (fst f))"
  shows "approved e i \<and> (\<exists>bs. truthful e f bs)"
  using assms do_treq_captured refuse_not_captured
  by (auto simp: fetch_http_def approved_def split: option.splits bool.splits)

lemma fetch_tftp_captured:
  assumes "fetch_tftp e i st = Some (Inr f)" "captured (outcome (fst f))"
  shows "approved e i \<and> (\<exists>bs. truthful e f bs)"
  using assms finalize_truthful refuse_not_captured
  by (auto simp: fetch_tftp_def approved_def Let_def split: option.splits bool.splits sum.splits if_splits prod.splits) blast+

lemma fetch_ftp_captured:
  assumes "fetch_ftp e i st = Some (Inr f)" "captured (outcome (fst f))"
  shows "approved e i \<and> (\<exists>bs. truthful e f bs)"
  using assms finalize_truthful refuse_not_captured
  by (auto simp: fetch_ftp_def approved_def Let_def split: option.splits bool.splits sum.splits if_splits prod.splits) blast+



definition example_env :: fetch_env where
  "example_env = \<lparr>allowed = communication_allowed 1 (\<lambda>_. None),
     net = \<lparr>http_get = (\<lambda>_. HttpResponse 200 None None ''abc'' ''abc''), tftp_get = (\<lambda>_ _ _. ([], Some ''timeout'')),
       ftp_get = (\<lambda>_ _ _ _ _. ([], Some (ConnectFailed [])))\<rparr>,
     honeypot_cap = 0, llm_cap = 10485760, artifact_dir = ''dl'', t0 = 0, t1 = 1\<rparr>"

definition example_intent :: download_intent where
  "example_intent = \<lparr>tool = ''wget'', url = ''http://8.8.8.8/x'', outfile = None, raw_command = ''wget http://8.8.8.8/x''\<rparr>"


lemma refuse_leaves:
  "refuse i oc m st = (r, evs, st') \<Longrightarrow> oc \<in> {''failed_blocked'', ''failed_connection''} \<Longrightarrow>
   st' = st \<and> outcome r \<in> {''failed_blocked'', ''failed_connection''} \<and> evs = [failed_event i]"
  by (auto simp: refuse_def FetchResult_def)

lemma fetch_http_refused:
  assumes "fetch_http e i st = Some (Inr f)" "urlparse (url i) = Some u" "allowed e (url_hostname u) = Some False"
  shows "\<exists>oc m. oc \<in> {''failed_blocked'', ''failed_connection''} \<and> refuse i oc m st = f"
  using assms by (auto simp: fetch_http_def)

lemma fetch_tftp_refused:
  assumes "fetch_tftp e i st = Some (Inr f)" "urlparse (url i) = Some u" "allowed e (url_hostname u) = Some False"
  shows "\<exists>oc m. oc \<in> {''failed_blocked'', ''failed_connection''} \<and> refuse i oc m st = f"
  using assms by (auto simp: fetch_tftp_def Let_def split: sum.splits if_splits)

lemma fetch_ftp_refused:
  assumes "fetch_ftp e i st = Some (Inr f)" "urlparse (url i) = Some u" "allowed e (url_hostname u) = Some False"
  shows "\<exists>oc m. oc \<in> {''failed_blocked'', ''failed_connection''} \<and> refuse i oc m st = f"
  using assms by (auto simp: fetch_ftp_def Let_def split: sum.splits if_splits)

text \<open>C25: A fetch that the gate refuses leaves no trace but the log entry: the download directory is unchanged, the
  outcome is a refusal or a malformed URL, and exactly one failure event with the URL is logged.\<close>

theorem fetch_refused:
  assumes "fetch e i st = Some (Inr (r, evs, st'))"
    and "urlparse (url i) = Some u" "allowed e (url_hostname u) = Some False"
    and "tool i \<in> {''tftp'', ''ftpget''} \<or> (tool i \<in> {''wget'', ''curl''} \<and> has_url_scheme (url i))"
  shows "st' = st \<and> outcome r \<in> {''failed_blocked'', ''failed_connection''} \<and> evs = [failed_event i]"
proof -
  have "fetch_http e i st = Some (Inr (r, evs, st')) \<or> fetch_tftp e i st = Some (Inr (r, evs, st')) \<or>
      fetch_ftp e i st = Some (Inr (r, evs, st'))"
    using assms(1,4) by (auto simp: fetch_def has_url_scheme_def split: if_splits)
  then have "\<exists>oc m. oc \<in> {''failed_blocked'', ''failed_connection''} \<and> refuse i oc m st = (r, evs, st')"
    by (elim disjE) (rule fetch_http_refused fetch_tftp_refused fetch_ftp_refused, assumption, rule assms(2), rule assms(3))+
  then show ?thesis by (elim exE conjE) (rule refuse_leaves)
qed

theorem fetch_refused_witness:
  "let e = example_env\<lparr>allowed := \<lambda>_. Some False\<rparr>;
       r = (FetchResult ''failed_blocked'' ''http://8.8.8.8/x'')\<lparr>error_message := Some ''Connecting to 8.8.8.8... failed: Connection refused.''\<rparr> in
   fetch e example_intent [] = Some (Inr (r, [failed_event example_intent], [])) \<and> outcome r \<in> {''failed_blocked'', ''failed_connection''}"
proof -
  let ?e = "example_env\<lparr>allowed := \<lambda>_. Some False\<rparr>"
  let ?u = "\<lparr>u_scheme = ''http'', u_netloc = ''8.8.8.8'', u_path = ''/x''\<rparr>"
  let ?r = "(FetchResult ''failed_blocked'' ''http://8.8.8.8/x'')\<lparr>error_message := Some ''Connecting to 8.8.8.8... failed: Connection refused.''\<rparr>"
  have u: "urlparse (url example_intent) = Some ?u" unfolding example_intent_def by code_simp
  have h: "url_hostname ?u = ''8.8.8.8''" by code_simp
  have f: "fetch ?e example_intent [] = Some (Inr (?r, [failed_event example_intent], []))"
    using u h by (simp add: fetch_def fetch_http_def example_intent_def refuse_def)
  have "allowed ?e (url_hostname ?u) = Some False" by simp
  moreover have "tool example_intent \<in> {''tftp'', ''ftpget''} \<or> (tool example_intent \<in> {''wget'', ''curl''} \<and> has_url_scheme (url example_intent))"
    by (simp add: example_intent_def has_url_scheme_def)
  ultimately show ?thesis using f fetch_refused [OF f u] unfolding Let_def by blast
qed

text \<open>
  A URL with an unbalanced bracket makes \<open>urlparse\<close> raise, and neither the parser of \<open>curl -O\<close> nor the
  fetcher catches it.
\<close>

lemma parse_curl_raises:
  "parse_download_command ''curl -O http://[x/y'' = Inl ''ValueError: Invalid IPv6 URL''"
  by code_simp

lemma fetch_http_raises:
  "fetch_http e \<lparr>tool = ''wget'', url = ''http://[x/y'', outfile = None, raw_command = raw\<rparr> st =
     Some (Inl ''ValueError: Invalid IPv6 URL'')"
proof -
  have "urlparse ''http://[x/y'' = None" by code_simp
  then show ?thesis by (simp add: fetch_http_def)
qed

end
