(* ===== verification/Persona.thy ===== *)
theory Persona
  imports Py_Hash Py_Float
begin

text \<open>
  The registry of personas (\<open>src/src/cowrie/llm/persona.py\<close>): the operating-system profile that a session
  shows, chosen from the hash of the client's address, and the pinned facts of the system prompt.
  \<open>random.Random(seed).randint\<close> is the parameter \<open>randint\<close>, which gets the seed, the number of the draw and
  the range; the clock is an argument.
\<close>

section \<open>Definitions\<close>

record persona =
  slug :: string
  distro :: string
  kernel :: string
  uname_m :: string
  bash_version :: string
  cpuinfo_model :: string
  memtotal_kb :: nat
  uptime_days_range :: "nat \<times> nat"
  installed_packages :: "string list"
  ncpus :: nat
  cpu_mhz :: rat
  init_system :: string
  family :: string

definition ubuntu_22_04 :: persona where
  "ubuntu_22_04 =
    \<lparr>slug = ''ubuntu_22_04'', distro = ''Ubuntu 22.04.5 LTS'', kernel = ''5.15.0-122-generic'', uname_m = ''x86_64'',
     bash_version = ''5.1.16(1)-release'', cpuinfo_model = ''Intel(R) Xeon(R) CPU E5-2680 v4 @ 2.40GHz'',
     memtotal_kb = 4015488, uptime_days_range = (12, 410),
     installed_packages = [''openssh-server'', ''curl'', ''wget'', ''vim-tiny'', ''python3'',
       ''python3-pip'', ''git'', ''ca-certificates'', ''openssl'', ''iproute2'',
       ''net-tools'', ''iputils-ping'', ''less'', ''rsync'', ''ufw'', ''cron''],
     ncpus = 2, cpu_mhz = fl (240006 / 100), init_system = ''systemd'', family = ''debian''\<rparr>"

definition ubuntu_20_04 :: persona where
  "ubuntu_20_04 =
    \<lparr>slug = ''ubuntu_20_04'', distro = ''Ubuntu 20.04.6 LTS'', kernel = ''5.4.0-200-generic'', uname_m = ''x86_64'',
     bash_version = ''5.0.17(1)-release'', cpuinfo_model = ''Intel(R) Xeon(R) CPU E5-2670 0 @ 2.60GHz'',
     memtotal_kb = 2031620, uptime_days_range = (45, 720),
     installed_packages = [''openssh-server'', ''curl'', ''wget'', ''vim'', ''python3'',
       ''python3-pip'', ''git'', ''ca-certificates'', ''openssl'',
       ''net-tools'', ''iputils-ping'', ''less'', ''ufw''],
     ncpus = 1, cpu_mhz = fl (259999 / 100), init_system = ''systemd'', family = ''debian''\<rparr>"

definition debian_12 :: persona where
  "debian_12 =
    \<lparr>slug = ''debian_12'', distro = ''Debian GNU/Linux 12 (bookworm)'', kernel = ''6.1.0-25-amd64'', uname_m = ''x86_64'',
     bash_version = ''5.2.15(1)-release'', cpuinfo_model = ''Intel(R) Xeon(R) Silver 4214 CPU @ 2.20GHz'',
     memtotal_kb = 8155032, uptime_days_range = (7, 280),
     installed_packages = [''openssh-server'', ''curl'', ''wget'', ''vim'', ''python3'',
       ''git'', ''ca-certificates'', ''openssl'', ''iproute2'',
       ''iputils-ping'', ''less'', ''rsync'', ''nftables''],
     ncpus = 4, cpu_mhz = fl (219484 / 100), init_system = ''systemd'', family = ''debian''\<rparr>"

definition debian_11 :: persona where
  "debian_11 =
    \<lparr>slug = ''debian_11'', distro = ''Debian GNU/Linux 11 (bullseye)'', kernel = ''5.10.0-28-amd64'', uname_m = ''x86_64'',
     bash_version = ''5.1.4(1)-release'', cpuinfo_model = ''Intel(R) Xeon(R) CPU E5-2660 v3 @ 2.60GHz'',
     memtotal_kb = 4042896, uptime_days_range = (60, 920),
     installed_packages = [''openssh-server'', ''curl'', ''wget'', ''vim-tiny'', ''python3'',
       ''git'', ''ca-certificates'', ''openssl'', ''net-tools'',
       ''iputils-ping'', ''less''],
     ncpus = 1, cpu_mhz = fl (259998 / 100), init_system = ''systemd'', family = ''debian''\<rparr>"

definition centos_7 :: persona where
  "centos_7 =
    \<lparr>slug = ''centos_7'', distro = ''CentOS Linux release 7.9.2009 (Core)'', kernel = ''3.10.0-1160.el7.x86_64'', uname_m = ''x86_64'',
     bash_version = ''4.2.46(2)-release'', cpuinfo_model = ''Intel(R) Xeon(R) CPU E5-2630 v3 @ 2.40GHz'',
     memtotal_kb = 3879648, uptime_days_range = (180, 1500),
     installed_packages = [''openssh-server'', ''curl'', ''wget'', ''vim-minimal'', ''python'',
       ''python3'', ''git'', ''ca-certificates'', ''openssl'', ''iproute'',
       ''iputils'', ''less'', ''firewalld''],
     ncpus = 2, cpu_mhz = fl (239996 / 100), init_system = ''sysvinit'', family = ''rhel''\<rparr>"

definition alpine_3_19 :: persona where
  "alpine_3_19 =
    \<lparr>slug = ''alpine_3_19'', distro = ''Alpine Linux v3.19'', kernel = ''6.6.32-0-lts'', uname_m = ''x86_64'',
     bash_version = '''', cpuinfo_model = ''AMD EPYC 7763 64-Core Processor'',
     memtotal_kb = 1024000, uptime_days_range = (3, 90),
     installed_packages = [''openssh'', ''curl'', ''wget'', ''busybox'', ''musl'', ''python3'',
       ''ca-certificates'', ''openssl''],
     ncpus = 1, cpu_mhz = fl (244540 / 100), init_system = ''busybox'', family = ''alpine''\<rparr>"

definition PERSONAS :: "persona list" where
  "PERSONAS = [ubuntu_22_04, ubuntu_20_04, debian_12, debian_11, centos_7, alpine_3_19]"

definition BY_SLUG :: "(string, persona) dict" where
  "BY_SLUG = map (\<lambda>p. (slug p, p)) PERSONAS"

text \<open>The error stands for the \<open>ValueError\<close>; it carries the unknown slug.\<close>

definition pick_persona :: "string \<Rightarrow> string \<Rightarrow> string + persona" where
  "pick_persona seed override =
     (if override \<noteq> [] \<and> override \<noteq> ''auto'' then
        (case map_of BY_SLUG override of
           None \<Rightarrow> Inl override
         | Some p \<Rightarrow> Inr p)
      else Inr (PERSONAS ! (int_of_bytes (take 4 (sha256_digest (utf8 seed))) mod length PERSONAS)))"

type_synonym rng = "string \<Rightarrow> nat \<Rightarrow> nat \<Rightarrow> nat \<Rightarrow> nat"

definition roll_boot_time :: "rng \<Rightarrow> rat \<Rightarrow> persona \<Rightarrow> string \<Rightarrow> rat" where
  "roll_boot_time randint now p seed =
     (let s = seed @ ''|'' @ slug p;
          days = randint s 0 (fst (uptime_days_range p)) (snd (uptime_days_range p));
          extra = randint s 1 0 86399 in
      fsub now (fl_nat (days * 86400 + extra)))"

text \<open>\<open>max(0, int(now - boot_time))\<close>\<close>

definition uptime_seconds :: "rat \<Rightarrow> rat \<Rightarrow> nat" where
  "uptime_seconds now boot = int_of (fsub now boot)"

definition render_prompt_section :: "rat \<Rightarrow> persona \<Rightarrow> rat \<Rightarrow> string" where
  "render_prompt_section now p boot =
     (let up = uptime_seconds now boot in
      ''Pinned system facts (must remain consistent across commands):'' @ [nl] @
      ''distro: '' @ distro p @ [nl] @
      ''kernel: '' @ kernel p @ [nl] @
      ''architecture: '' @ uname_m p @ [nl] @
      (if bash_version p \<noteq> [] then ''bash version: '' @ bash_version p @ [nl] else []) @
      ''cpu model: '' @ cpuinfo_model p @ [nl] @
      ''memtotal: '' @ str_of_nat (memtotal_kb p) @ '' kB'' @ [nl] @
      ''uptime: '' @ str_of_nat (up div 86400) @ '' days, '' @ two (up mod 86400 div 3600) @ '':'' @
        two (up mod 3600 div 60) @ [nl] @
      ''installed packages (truncated): '' @ py_join '', '' (take 12 (installed_packages p)))"

section \<open>Lemmas\<close>

lemma PERSONAS_not_Nil [simp]: "PERSONAS \<noteq> []"
  by (simp add: PERSONAS_def)

lemmas persona_defs = ubuntu_22_04_def ubuntu_20_04_def debian_12_def debian_11_def centos_7_def alpine_3_19_def

text \<open>A persona fits the honeypot's renderers: they know its family, and its figures are not degenerate.\<close>

definition persona_ok :: "persona \<Rightarrow> bool" where
  "persona_ok p \<longleftrightarrow> family p \<in> {''debian'', ''rhel'', ''alpine''} \<and> 0 < memtotal_kb p \<and> memtotal_kb p < 2 ^ 53 \<and>
     0 < ncpus p \<and> fst (uptime_days_range p) \<le> snd (uptime_days_range p) \<and> snd (uptime_days_range p) \<le> 1500"

lemma PERSONAS_ok: "list_all persona_ok PERSONAS"
  by (simp add: PERSONAS_def persona_ok_def persona_defs)

lemma distinct_slugs: "distinct (map slug PERSONAS)"
  by (simp add: PERSONAS_def persona_defs)

lemma map_of_BY_SLUG: "map_of BY_SLUG s = Some p \<longleftrightarrow> p \<in> set PERSONAS \<and> slug p = s"
proof -
  have "distinct (map fst BY_SLUG)" using distinct_slugs by (simp add: BY_SLUG_def comp_def)
  then show ?thesis unfolding map_of_eq_Some_iff [OF \<open>distinct (map fst BY_SLUG)\<close>] by (auto simp: BY_SLUG_def)
qed

section \<open>Properties\<close>

text \<open>The choice of a persona is total for the automatic setting and for every registered slug: it is a
  well-formed registered persona, the named one when a slug is configured; the only error is an unknown slug.\<close>

lemma pick_persona_registered:
  "case pick_persona seed override of
     Inr p \<Rightarrow> p \<in> set PERSONAS \<and> persona_ok p \<and> (override \<in> {[], ''auto''} \<or> slug p = override)
   | Inl _ \<Rightarrow> override \<notin> {[], ''auto''} \<and> override \<notin> slug ` set PERSONAS"
proof -
  have ok: "p \<in> set PERSONAS \<Longrightarrow> persona_ok p" for p using PERSONAS_ok by (simp add: list_all_iff)
  have "PERSONAS ! (n mod length PERSONAS) \<in> set PERSONAS" for n
    by (intro nth_mem mod_less_divisor) simp
  moreover have "map_of BY_SLUG override = None \<Longrightarrow> override \<notin> slug ` set PERSONAS"
    by (auto simp: BY_SLUG_def map_of_eq_None_iff image_image)
  ultimately show ?thesis using ok map_of_BY_SLUG by (auto simp: pick_persona_def split: option.split)
qed

end
