(* ===== verification/Responder_Files.thy ===== *)
theory Responder_Files
  imports Persona Vfs
begin

text \<open>
  The files that the deterministic responder knows (\<open>src/src/cowrie/llm/responder.py\<close>, first half): the
  context of a session, the values derived from it (memory, load, uptime, identities) and the contents of
  \<open>/proc\<close> and \<open>/etc\<close>. The record \<open>host\<close> holds what the renderers read from the interpreter: the clock,
  the time zone, the platform's \<open>strftime\<close> for a format given by the client, and \<open>sum\<close> over floats, whose
  rounding differs between the versions of Python.
\<close>

section \<open>The session as the renderers see it\<close>

record shell_context =
  ctx_persona :: persona
  boot_time :: rat
  ctx_world :: world
  ctx_cwd :: string
  login_user :: string
  hostname :: string
  server_ip :: string
  client_ip :: string
  ctx_seed :: string
  piped :: bool

definition ctx_user :: "shell_context \<Rightarrow> string" where
  "ctx_user c = effective_user (login_user c) (ctx_world c)"

record host =
  host_now :: rat
  tz_offset :: int
  tz_name :: string
  strftime :: "string \<Rightarrow> string option"
  float_sum :: "rat list \<Rightarrow> rat"

record responder_result =
  res_output :: string
  is_error :: bool

definition answer :: "string \<Rightarrow> responder_result option" where
  "answer s = Some \<lparr>res_output = s, is_error = False\<rparr>"

definition failure :: "string \<Rightarrow> responder_result option" where
  "failure s = Some \<lparr>res_output = s, is_error = True\<rparr>"

definition seed_or_host :: "shell_context \<Rightarrow> string" where
  "seed_or_host c = (if ctx_seed c \<noteq> [] then ctx_seed c else hostname c)"

section \<open>Derived values\<close>

definition rng_floats :: "string \<Rightarrow> nat \<Rightarrow> rat list" where
  "rng_floats seed n =
     map (\<lambda>i. fl (of_nat (int_of_bytes (take 8 (sha256_digest (utf8 (seed @ ''|'' @
       str_of_nat i))))) / 2 ^ 64)) [0..<n]"

definition uptime_parts :: "host \<Rightarrow> rat \<Rightarrow> nat \<times> nat \<times> nat \<times> nat" where
  "uptime_parts h boot =
     (let up = uptime_seconds (host_now h) boot in (up, up div 86400, up mod 86400 div 3600, up mod 3600 div 60))"

definition SYSTEM_UIDS :: "(string, nat) dict" where
  "SYSTEM_UIDS =
     [(''root'', 0), (''daemon'', 1), (''bin'', 2), (''sys'', 3), (''sync'', 4), (''games'', 5),
      (''man'', 6), (''www-data'', 33), (''backup'', 34), (''nobody'', 65534),
      (''systemd-network'', 100), (''messagebus'', 103), (''sshd'', 104)]"

definition uid_for :: "string \<Rightarrow> nat" where
  "uid_for user = (case map_of SYSTEM_UIDS user of Some n \<Rightarrow> n | None \<Rightarrow> 1000)"

definition resolve_user :: "string \<Rightarrow> shell_context \<Rightarrow> (nat \<times> string) option" where
  "resolve_user name c =
     (case map_of SYSTEM_UIDS name of
        Some n \<Rightarrow> Some (n, name)
      | None \<Rightarrow> if name = login_user c then Some (1000, name) else None)"

record mem_breakdown =
  mem_total :: nat
  mem_used :: nat
  mem_free :: nat
  mem_shared :: nat
  mem_buffers :: nat
  mem_cached :: nat
  mem_available :: nat

definition mem_breakdown :: "shell_context \<Rightarrow> mem_breakdown" where
  "mem_breakdown c =
     (let total = memtotal_kb (ctx_persona c);
          r = rng_floats (seed_or_host c) 3;
          used = scaled total (fadd (fl 0.14) (fmul (fl 0.30) (r ! 0)));
          buffers = scaled total (fadd (fl 0.02) (fmul (fl 0.03) (r ! 1)));
          cached0 = scaled total (fadd (fl 0.18) (fmul (fl 0.22) (r ! 2)));
          cached = min cached0 (total - used - buffers);
          free = total - used - buffers - cached in
      \<lparr>mem_total = total, mem_used = used, mem_free = free, mem_shared = scaled total (fl 0.01),
       mem_buffers = buffers, mem_cached = cached, mem_available = min total (free + cached + buffers)\<rparr>)"

definition human_kb :: "nat \<Rightarrow> string" where
  "human_kb kb =
     (case List.find (\<lambda>(_, factor). factor \<le> kb) [(''Ti'', 1024 ^ 3), (''Gi'', 1024 ^ 2), (''Mi'', 1024), (''Ki'', 1)] of
        Some (unit, factor) \<Rightarrow>
          (let val = fl (of_nat kb / of_nat factor) in (if val < 10 then fixed 1 val else fixed 0 val) @ unit)
      | None \<Rightarrow> str_of_nat kb @ ''Ki'')"

definition h_loadavg :: "shell_context \<Rightarrow> rat \<times> rat \<times> rat" where
  "h_loadavg c =
     (let r = rng_floats (seed_or_host c @ ''|load'') 3;
          base = fadd (fl 0.05) (fmul (fl 0.40) (r ! 0)) in
      (round_to 2 base,
       round_to 2 (fmul base (fadd (fl 0.7) (fmul (fl 0.4) (r ! 1)))),
       round_to 2 (fmul base (fadd (fl 0.5) (fmul (fl 0.4) (r ! 2))))))"

definition load_text :: "string \<Rightarrow> shell_context \<Rightarrow> string" where
  "load_text sep c = (case h_loadavg c of (l1, l5, l15) \<Rightarrow> fixed 2 l1 @ sep @ fixed 2 l5 @ sep @ fixed 2 l15)"

definition kernel_version_string :: "persona \<Rightarrow> string" where
  "kernel_version_string p =
     (if family p = ''debian'' \<and> str_in ''Ubuntu'' (distro p) then ''#122-Ubuntu SMP Thu Sep 19 12:00:00 UTC 2024''
      else if family p = ''debian'' then ''#1 SMP PREEMPT_DYNAMIC Debian '' @ before_first (CHR ''-'') (kernel p)
      else if family p = ''rhel'' then ''#1 SMP Mon Oct 19 16:18:59 UTC 2020''
      else ''#1-Alpine SMP PREEMPT Mon, 03 Jun 2024 10:00:00 +0000'')"

section \<open>The files under \<open>/proc\<close>\<close>

definition cpu_block :: "persona \<Rightarrow> nat \<Rightarrow> string" where
  "cpu_block p n =
     (let cpus = str_of_nat (ncpus p); i = str_of_nat n in
      ''processor'' @ [tab] @ '': '' @ i @ [nl] @ ''vendor_id'' @ [tab] @ '': GenuineIntel'' @ [nl] @ ''cpu family'' @
        [tab] @ '': 6'' @ [nl] @
      ''model'' @ [tab, tab] @ '': 85'' @ [nl] @ ''model name'' @ [tab] @ '': '' @ cpuinfo_model p @ [nl] @
        ''stepping'' @ [tab] @ '': 7'' @ [nl] @ ''microcode'' @ [tab] @ '': 0x1'' @ [nl] @
      ''cpu MHz'' @ [tab, tab] @ '': '' @ (fixed 3 (cpu_mhz p)) @ [nl] @ ''cache size'' @ [tab] @ '': 16384 KB'' @ [nl] @
        ''physical id'' @ [tab] @ '': 0'' @ [nl] @
      ''siblings'' @ [tab] @ '': '' @ cpus @ [nl] @ ''core id'' @ [tab, tab] @ '': '' @ i @ [nl] @ ''cpu cores'' @
        [tab] @ '': '' @ cpus @ [nl] @ ''apicid'' @ [tab, tab] @ '': '' @ i @ [nl] @ ''fpu'' @ [tab, tab] @ '': yes'' @
          [nl] @
      ''flags'' @ [tab, tab] @ '': fpu vme de pse tsc msr pae mce cx8 apic sep mtrr '' @
      ''pge mca cmov pat pse36 clflush mmx fxsr sse sse2 ss ht syscall '' @
      ''nx lm constant_tsc rep_good nopl xtopology cpuid tsc_known_freq '' @
      ''pni pclmulqdq ssse3 fma cx16 pcid sse4_1 sse4_2 x2apic movbe '' @
      ''popcnt aes xsave avx f16c rdrand hypervisor lahf_lm abm '' @
      ''3dnowprefetch fsgsbase bmi1 avx2 smep bmi2 erms invpcid'' @ [nl] @
      ''bogomips'' @ [tab] @ '': '' @ (fixed 2 (fmul (cpu_mhz p) 2)) @ [nl] @ ''clflush size'' @ [tab] @ '': 64'' @
        [nl] @ ''cache_alignment'' @ [tab] @ '': 64'' @ [nl] @
      ''address sizes'' @ [tab] @ '': 46 bits physical, 48 bits virtual'' @ [nl])"

definition proc_cpuinfo :: "shell_context \<Rightarrow> string" where
  "proc_cpuinfo c = py_join [nl] (map (cpu_block (ctx_persona c)) [0..<ncpus (ctx_persona c)]) @ [nl]"

definition mod_total :: "nat \<Rightarrow> nat \<Rightarrow> nat" where
  "mod_total n t = n mod (if t = 0 then 1 else t)"

definition meminfo_rows :: "shell_context \<Rightarrow> (string \<times> nat) list" where
  "meminfo_rows c =
     (let m = mem_breakdown c; swap = memtotal_kb (ctx_persona c);
          used = mem_used m; cached = mem_cached m; total = mem_total m;
          anon = scaled used (fl 0.55); active = scaled used (fl 0.62); inactive = scaled cached (fl 0.70);
          slab = scaled total (fl 0.03); sreclaim = scaled slab (fl 0.7) in
      [(''MemTotal'', total), (''MemFree'', mem_free m),
       (''MemAvailable'', mem_available m), (''Buffers'', mem_buffers m),
       (''Cached'', cached), (''SwapCached'', 0),
       (''Active'', active), (''Inactive'', inactive),
       (''Active(anon)'', scaled anon (fl 0.6)), (''Inactive(anon)'', scaled anon (fl 0.1)),
       (''Active(file)'', scaled active (fl 0.5)), (''Inactive(file)'', inactive),
       (''Unevictable'', mod_total 19000 total), (''Mlocked'', mod_total 18000 total),
       (''SwapTotal'', swap), (''SwapFree'', swap), (''Zswap'', 0), (''Zswapped'', 0),
       (''Dirty'', 144), (''Writeback'', 0), (''AnonPages'', anon),
       (''Mapped'', scaled cached (fl 0.2)), (''Shmem'', mem_shared m),
       (''KReclaimable'', sreclaim), (''Slab'', slab),
       (''SReclaimable'', sreclaim), (''SUnreclaim'', slab - sreclaim),
       (''KernelStack'', 4096), (''PageTables'', scaled used (fl 0.01)),
       (''SecPageTables'', 0), (''NFS_Unstable'', 0), (''Bounce'', 0),
       (''WritebackTmp'', 0), (''CommitLimit'', scaled total (fl 1.5)),
       (''Committed_AS'', scaled used (fl 1.3)), (''VmallocTotal'', 34359738367),
       (''VmallocUsed'', 28000), (''VmallocChunk'', 0), (''Percpu'', 1024),
       (''HardwareCorrupted'', 0), (''AnonHugePages'', 0), (''ShmemHugePages'', 0),
       (''ShmemPmdMapped'', 0), (''FileHugePages'', 0), (''FilePmdMapped'', 0),
       (''HugePages_Total'', 0), (''HugePages_Free'', 0), (''HugePages_Rsvd'', 0),
       (''HugePages_Surp'', 0), (''Hugepagesize'', 2048), (''Hugetlb'', 0),
       (''DirectMap4k'', scaled total (fl 0.05)),
       (''DirectMap2M'', scaled total (fl 0.95)), (''DirectMap1G'', 0)])"

definition meminfo_line :: "string \<times> nat \<Rightarrow> string" where
  "meminfo_line row =
     (case row of (name, val) \<Rightarrow>
        ljust 16 (name @ '':'') @ rjust 8 (str_of_nat val) @ (if startswith name ''HugePages_'' then [] else '' kB''))"

definition proc_meminfo :: "shell_context \<Rightarrow> string" where
  "proc_meminfo c = py_join [nl] (map meminfo_line (meminfo_rows c)) @ [nl]"

definition proc_loadavg :: "shell_context \<Rightarrow> string" where
  "proc_loadavg c =
     load_text '' '' c @ '' 1/118 '' @
     str_of_nat (if processes (ctx_world c) \<noteq> [] then next_pid (ctx_world c) - 1 else 9999) @ [nl]"

definition proc_version :: "shell_context \<Rightarrow> string" where
  "proc_version c =
     (let p = ctx_persona c; gcc = (if str_in ''Ubuntu 22'' (distro p) then ''11.4.0'' else ''12.2.0'') in
      ''Linux version '' @ kernel p @ '' (buildd@host) (gcc (Ubuntu '' @ gcc @ '') '' @ gcc @ '', GNU ld) '' @
        kernel_version_string p @ [nl])"

definition proc_uptime :: "host \<Rightarrow> shell_context \<Rightarrow> string" where
  "proc_uptime h c =
     (let up = fst (uptime_parts h (boot_time c));
          idle = fmul (fl_nat (up * max 1 (ncpus (ctx_persona c)))) (fl 0.9) in
      str_of_nat up @ ''.'' @ (two (int_of (fmul (host_now h) 100) mod 100)) @ '' '' @ fixed 2 idle @ [nl])"

definition proc_mounts :: string where
  "proc_mounts =
     ''sysfs /sys sysfs rw,nosuid,nodev,noexec,relatime 0 0'' @ [nl] @
     ''proc /proc proc rw,nosuid,nodev,noexec,relatime 0 0'' @ [nl] @
     ''udev /dev devtmpfs rw,nosuid,relatime,size=1996212k,mode=755 0 0'' @ [nl] @
     ''devpts /dev/pts devpts rw,nosuid,noexec,relatime,gid=5,mode=620 0 0'' @ [nl] @
     ''tmpfs /run tmpfs rw,nosuid,nodev,noexec,relatime,size=401544k,mode=755 0 0'' @ [nl] @
     ''/dev/vda1 / ext4 rw,relatime 0 0'' @ [nl] @
     ''tmpfs /dev/shm tmpfs rw,nosuid,nodev 0 0'' @ [nl] @
     ''tmpfs /run/lock tmpfs rw,nosuid,nodev,noexec,relatime,size=5120k 0 0'' @ [nl] @
     ''cgroup2 /sys/fs/cgroup cgroup2 rw,nosuid,nodev,noexec,relatime 0 0'' @ [nl]"

section \<open>The files under \<open>/etc\<close>\<close>

definition ubuntu_version :: "persona \<Rightarrow> string" where
  "ubuntu_version p = str_replace '' LTS'' [] (str_replace ''Ubuntu '' [] (distro p))"

definition ubuntu_codename :: "persona \<Rightarrow> string" where
  "ubuntu_codename p = (if startswith (ubuntu_version p) ''22'' then ''jammy'' else ''focal'')"

definition capitalize :: "string \<Rightarrow> string" where
  "capitalize s = (case s of [] \<Rightarrow> [] | c # cs \<Rightarrow> upper_char c # py_lower cs)"

definition ubuntu_os_release :: "persona \<Rightarrow> string" where
  "ubuntu_os_release p =
     (let ver = ubuntu_version p; codename = ubuntu_codename p; parts = split_on (CHR ''.'') ver;
          minor = (if CHR ''.'' \<in> set ver then parts ! 1 else ''04'') in
      ''PRETTY_NAME='' @ [dquote] @ distro p @ [dquote, nl] @ ''NAME='' @ [dquote] @ ''Ubuntu'' @ [dquote, nl] @
      ''VERSION_ID='' @ [dquote] @ hd parts @ ''.'' @ minor @ [dquote, nl] @
      ''VERSION='' @ [dquote] @ ver @ '' ('' @ capitalize codename @ '')'' @ [dquote, nl] @ ''VERSION_CODENAME='' @
        codename @ [nl] @ ''ID=ubuntu'' @ [nl] @ ''ID_LIKE=debian'' @ [nl] @
      ''HOME_URL='' @ [dquote] @ ''https://www.ubuntu.com/'' @ [dquote, nl] @ ''SUPPORT_URL='' @ [dquote] @
        ''https://help.ubuntu.com/'' @ [dquote, nl] @
      ''BUG_REPORT_URL='' @ [dquote] @ ''https://bugs.launchpad.net/ubuntu/'' @ [dquote, nl] @ ''UBUNTU_CODENAME='' @
        codename @ [nl])"

definition debian_major :: "persona \<Rightarrow> string" where
  "debian_major p = (if str_in ''12'' (distro p) then ''12'' else ''11'')"

definition debian_codename :: "persona \<Rightarrow> string" where
  "debian_codename p = (if debian_major p = ''12'' then ''bookworm'' else ''bullseye'')"

definition debian_os_release :: "persona \<Rightarrow> string" where
  "debian_os_release p =
     (let major = debian_major p; codename = debian_codename p in
      ''PRETTY_NAME='' @ [dquote] @ ''Debian GNU/Linux '' @ major @ '' ('' @ codename @ '')'' @ [dquote, nl] @
        ''NAME='' @ [dquote] @ ''Debian GNU/Linux'' @ [dquote, nl] @ ''VERSION_ID='' @ [dquote] @ major @ [dquote, nl] @
      ''VERSION='' @ [dquote] @ major @ '' ('' @ codename @ '')'' @ [dquote, nl] @ ''VERSION_CODENAME='' @ codename @
        [nl] @ ''ID=debian'' @ [nl] @ ''HOME_URL='' @ [dquote] @ ''https://www.debian.org/'' @ [dquote, nl] @
      ''SUPPORT_URL='' @ [dquote] @ ''https://www.debian.org/support'' @ [dquote, nl] @ ''BUG_REPORT_URL='' @ [dquote] @
        ''https://bugs.debian.org/'' @ [dquote, nl])"

definition centos_os_release :: string where
  "centos_os_release =
     ''NAME='' @ [dquote] @ ''CentOS Linux'' @ [dquote, nl] @ ''VERSION='' @ [dquote] @ ''7 (Core)'' @ [dquote, nl] @
       ''ID='' @ [dquote] @ ''centos'' @ [dquote, nl] @ ''ID_LIKE='' @ [dquote] @ ''rhel fedora'' @ [dquote, nl] @
         ''VERSION_ID='' @ [dquote] @ ''7'' @ [dquote, nl] @
     ''PRETTY_NAME='' @ [dquote] @ ''CentOS Linux 7 (Core)'' @ [dquote, nl] @ ''ANSI_COLOR='' @ [dquote] @ ''0;31'' @
       [dquote, nl] @ ''CPE_NAME='' @ [dquote] @ ''cpe:/o:centos:centos:7'' @ [dquote, nl] @
     ''HOME_URL='' @ [dquote] @ ''https://www.centos.org/'' @ [dquote, nl] @ ''BUG_REPORT_URL='' @ [dquote] @
       ''https://bugs.centos.org/'' @ [dquote, nl]"

definition alpine_os_release :: "persona \<Rightarrow> string" where
  "alpine_os_release p =
     (let ver = str_replace ''Alpine Linux v'' [] (distro p) in
      ''NAME='' @ [dquote] @ ''Alpine Linux'' @ [dquote, nl] @ ''ID=alpine'' @ [nl] @ ''VERSION_ID='' @ [dquote] @ ver @
        ''.0'' @ [dquote, nl] @ ''PRETTY_NAME='' @ [dquote] @ ''Alpine Linux v'' @ ver @ [dquote, nl] @
      ''HOME_URL='' @ [dquote] @ ''https://alpinelinux.org/'' @ [dquote, nl] @ ''BUG_REPORT_URL='' @ [dquote] @
        ''https://gitlab.alpinelinux.org/alpine/aports/-/issues'' @ [dquote, nl])"

definition os_release :: "shell_context \<Rightarrow> string" where
  "os_release c =
     (let p = ctx_persona c in
      if str_in ''Ubuntu'' (distro p) then ubuntu_os_release p
      else if str_in ''Debian'' (distro p) then debian_os_release p
      else if str_in ''CentOS'' (distro p) then centos_os_release
      else alpine_os_release p)"

definition etc_issue :: "shell_context \<Rightarrow> string" where
  "etc_issue c =
     (let p = ctx_persona c in
      if str_in ''Ubuntu'' (distro p) then distro p @ '' '' @ [bslash] @ ''n '' @ [bslash] @ ''l'' @ [nl, nl]
      else if str_in ''Debian'' (distro p) then ''Debian GNU/Linux '' @ debian_major p @ '' '' @ [bslash] @ ''n '' @
        [bslash] @ ''l'' @ [nl, nl]
      else if str_in ''CentOS'' (distro p) then [bslash] @ ''S'' @ [nl] @ ''Kernel '' @ [bslash] @ ''r on an '' @
        [bslash] @ ''m'' @ [nl, nl]
      else ''Welcome to '' @ distro p @ [nl] @ ''Kernel '' @ [bslash] @ ''r on an '' @ [bslash] @ ''m ('' @ [bslash] @
        ''l)'' @ [nl, nl])"

definition system_accounts :: "string list" where
  "system_accounts =
     [''root:x:0:0:root:/root:/bin/bash'',
      ''daemon:x:1:1:daemon:/usr/sbin:/usr/sbin/nologin'',
      ''bin:x:2:2:bin:/bin:/usr/sbin/nologin'',
      ''sys:x:3:3:sys:/dev:/usr/sbin/nologin'',
      ''sync:x:4:65534:sync:/bin:/bin/sync'',
      ''games:x:5:60:games:/usr/games:/usr/sbin/nologin'',
      ''man:x:6:12:man:/var/cache/man:/usr/sbin/nologin'',
      ''www-data:x:33:33:www-data:/var/www:/usr/sbin/nologin'',
      ''backup:x:34:34:backup:/var/backups:/usr/sbin/nologin'',
      ''nobody:x:65534:65534:nobody:/nonexistent:/usr/sbin/nologin'',
      ''systemd-network:x:100:102:systemd Network Management,,,:/run/systemd:/usr/sbin/nologin'',
      ''messagebus:x:103:106::/nonexistent:/usr/sbin/nologin'',
      ''sshd:x:104:65534::/run/sshd:/usr/sbin/nologin'']"

definition passwd_lines :: "shell_context \<Rightarrow> string list" where
  "passwd_lines c =
     system_accounts @
     (if login_user c \<noteq> ''root'' then
        (let uid = str_of_nat (uid_for (login_user c)) in
         [login_user c @ '':x:'' @ uid @ '':'' @ uid @ '':'' @ login_user c @ '',,,:/home/'' @ login_user c @
           '':/bin/bash''])
      else [])"

definition etc_passwd :: "shell_context \<Rightarrow> string" where
  "etc_passwd c = py_join [nl] (passwd_lines c) @ [nl]"

definition etc_group :: "shell_context \<Rightarrow> string" where
  "etc_group c =
     py_join [nl] (
       [''root:x:0:'', ''daemon:x:1:'', ''bin:x:2:'', ''sys:x:3:'', ''adm:x:4:'',
        ''tty:x:5:'', ''disk:x:6:'', ''sudo:x:27:'', ''www-data:x:33:'',
        ''ssh:x:108:'', ''nogroup:x:65534:''] @
       (if login_user c \<noteq> ''root'' then [login_user c @ '':x:'' @ str_of_nat (uid_for (login_user c)) @
         '':''] else [])) @ [nl]"

definition etc_shadow :: "shell_context \<Rightarrow> string \<Rightarrow> responder_result option" where
  "etc_shadow c user =
     (if user \<noteq> ''root'' then failure (''cat: /etc/shadow: Permission denied'' @ [nl])
      else answer (py_join [nl] (
        [''root:$6$rounds=656000$abcdefgh$0aBcDeFgHiJkLmNoPqRsTuVwXyZ0123456789AbCdEfGhIjKlMnOpQrStUvWxYz012345:19000:0:99999:7:::'',
         ''daemon:*:19000:0:99999:7:::'',
         ''bin:*:19000:0:99999:7:::'',
         ''sshd:!:19000:0:99999:7:::'',
         ''nobody:*:19000:0:99999:7:::''] @
        (if login_user c \<noteq> ''root'' then
           [login_user c @ '':$6$xyz$Qm9zRzJhc2RmZ2hqa2x6eGN2Ym5tMTIzNDU2Nzg5MGFiY2RlZ:19000:0:99999:7:::'']
         else [])) @ [nl]))"

definition etc_resolv :: string where
  "etc_resolv =
     ''# This file is managed by man:systemd-resolved(8). Do not edit.'' @ [nl] @
     ''nameserver 127.0.0.53'' @ [nl] @ ''options edns0 trust-ad'' @ [nl] @ ''search .'' @ [nl]"

definition etc_crontab :: string where
  "etc_crontab =
     ''# /etc/crontab: system-wide crontab'' @ [nl] @
     ''# Unlike any other crontab you don'' @ [squote] @ ''t have to run the '' @ [bquote] @ ''crontab'' @ [squote, nl] @
     ''# command to install the new version when you edit this file'' @ [nl] @
     ''# and files in /etc/cron.d. These files also have username fields,'' @ [nl] @
     ''# that none of the other crontabs do.'' @ [nl, nl] @ ''SHELL=/bin/sh'' @ [nl] @
     ''PATH=/usr/local/sbin:/usr/local/bin:/sbin:/bin:/usr/sbin:/usr/bin'' @ [nl, nl] @
     ''# m h dom mon dow user'' @ [tab] @ ''command'' @ [nl] @
     ''17 *'' @ [tab] @ ''* * *'' @ [tab] @ ''root    cd / && run-parts --report /etc/cron.hourly'' @ [nl] @
     ''25 6'' @ [tab] @ ''* * *'' @ [tab] @ ''root'' @ [tab] @
       ''test -x /usr/sbin/anacron || ( cd / && run-parts --report /etc/cron.daily )'' @ [nl] @
     ''47 6'' @ [tab] @ ''* * 7'' @ [tab] @ ''root'' @ [tab] @
       ''test -x /usr/sbin/anacron || ( cd / && run-parts --report /etc/cron.weekly )'' @ [nl] @
     ''52 6'' @ [tab] @ ''1 * *'' @ [tab] @ ''root'' @ [tab] @
       ''test -x /usr/sbin/anacron || ( cd / && run-parts --report /etc/cron.monthly )'' @ [nl]"

definition debian_version :: "persona \<Rightarrow> string" where
  "debian_version p =
     (if str_in ''Ubuntu 22'' (distro p) then ''bookworm/sid''
      else if str_in ''Ubuntu 20'' (distro p) then ''bullseye/sid''
      else if str_in ''12'' (distro p) then ''12.7''
      else if str_in ''Debian'' (distro p) then ''11.11''
      else if str_in ''Ubuntu 22'' (distro p) then ''bookworm/sid''
      else ''bullseye/sid'')"

definition no_such_file :: "string \<Rightarrow> responder_result option" where
  "no_such_file path = failure (''cat: '' @ path @ '': No such file or directory'' @ [nl])"

definition file_table :: "host \<Rightarrow> shell_context \<Rightarrow> (string, string) dict" where
  "file_table h c =
     [(''/proc/cpuinfo'', proc_cpuinfo c),
      (''/proc/meminfo'', proc_meminfo c),
      (''/proc/loadavg'', proc_loadavg c),
      (''/proc/version'', proc_version c),
      (''/proc/uptime'', proc_uptime h c),
      (''/proc/mounts'', proc_mounts),
      (''/etc/mtab'', proc_mounts),
      (''/etc/crontab'', etc_crontab),
      (''/etc/os-release'', os_release c),
      (''/usr/lib/os-release'', os_release c),
      (''/etc/issue'', etc_issue c),
      (''/etc/issue.net'', str_replace ('' '' @ [bslash] @ ''n '' @ [bslash] @ ''l'') [] (etc_issue c)),
      (''/etc/hostname'', hostname c @ [nl]),
      (''/etc/passwd'', etc_passwd c),
      (''/etc/group'', etc_group c),
      (''/etc/resolv.conf'', etc_resolv),
      (''/etc/machine-id'', take 32 (sha256_hex (utf8 (seed_or_host c))) @ [nl])]"

definition cat_one :: "host \<Rightarrow> string \<Rightarrow> shell_context \<Rightarrow> string \<Rightarrow> responder_result option" where
  "cat_one h path c user =
     (let p = ctx_persona c in
      if path = ''/etc/shadow'' then etc_shadow c user
      else if path = ''/etc/debian_version'' then
        (if family p \<noteq> ''debian'' then no_such_file path else answer (debian_version p @ [nl]))
      else if path \<in> {''/etc/redhat-release'', ''/etc/centos-release'', ''/etc/system-release''} then
        (if family p \<noteq> ''rhel'' then no_such_file path else answer (distro p @ [nl]))
      else if path = ''/etc/alpine-release'' then
        (if family p \<noteq> ''alpine'' then no_such_file path
         else answer (str_replace ''Alpine Linux v'' [] (distro p) @ ''.0'' @ [nl]))
      else (case map_of (file_table h c) path of Some s \<Rightarrow> answer s | None \<Rightarrow> None))"

definition not_flag :: "string \<Rightarrow> bool" where "not_flag a \<longleftrightarrow> \<not> startswith a ''-''"

definition h_cat :: "host \<Rightarrow> string list \<Rightarrow> shell_context \<Rightarrow> string \<Rightarrow> responder_result option" where
  "h_cat h args c user =
     (case filter not_flag args of
        [path] \<Rightarrow>
          if list_ex (\<lambda>a. \<not> not_flag a \<and> a \<noteq> ''--'') args then None
          else (case map_of (files (ctx_world c)) path of
              Some f \<Rightarrow>
                (case content_snippet f of
                   Some body \<Rightarrow> answer (if endswith body [nl] then body else body @ [nl])
                 | None \<Rightarrow> None)
            | None \<Rightarrow> cat_one h path c user)
      | _ \<Rightarrow> None)"

section \<open>Lemmas\<close>

lemma int_of_bytes_less: "int_of_bytes bs < 256 ^ length bs"
proof -
  have "fold (\<lambda>c n. 256 * n + ord c) bs n < 256 ^ length bs * (n + 1)" for n
  proof (induction bs arbitrary: n)
    case (Cons c bs)
    define d where "d = ord c"
    have "d < 256" by (simp add: d_def)
    then have "256 * n + ord c + 1 \<le> 256 * (n + 1)" unfolding d_def [symmetric] by simp
    then have "256 ^ length bs * (256 * n + ord c + 1) \<le> 256 ^ length bs * (256 * (n + 1))" by (rule mult_le_mono2)
    then have "fold (\<lambda>c n. 256 * n + ord c) bs (256 * n + ord c) < 256 ^ length bs * (256 * (n + 1))"
      using Cons [of "256 * n + ord c"] by (rule order_less_le_trans [rotated])
    then show ?case by (simp add: algebra_simps)
  qed simp
  from this [of 0] show ?thesis by (simp add: int_of_bytes_def)
qed

text \<open>A tenth of a percent is far more than the rounding error; it keeps the arithmetic simple.\<close>

lemma fl_crude: "0 \<le> x \<Longrightarrow> fl x \<le> x * (1001 / 1000)"
proof -
  assume "0 \<le> x"
  then have "x * (1 + 1 / 2 ^ 53) \<le> x * (1001 / 1000)" by (intro mult_left_mono) auto
  with fl_upper [OF \<open>0 \<le> x\<close>] show ?thesis by linarith
qed

lemma rng_floats_range:
  assumes "i < n" shows "0 \<le> rng_floats s n ! i \<and> rng_floats s n ! i \<le> 1001 / 1000"
proof -
  let ?m = "int_of_bytes (take 8 (sha256_digest (utf8 (s @ ''|'' @ str_of_nat i))))"
  have "?m < 256 ^ 8" using int_of_bytes_less [of "take 8 (sha256_digest (utf8 (s @ ''|'' @ str_of_nat i)))"] by simp
  then have "rat_of_nat ?m \<le> rat_of_nat (256 ^ 8)" unfolding of_nat_le_iff by simp
  then have "0 \<le> rat_of_nat ?m / 2 ^ 64" "rat_of_nat ?m / 2 ^ 64 \<le> 1" by simp_all
  then have "fl x \<le> 1001 / 1000 \<and> 0 \<le> fl x" if "x = rat_of_nat ?m / 2 ^ 64" for x
    using fl_crude [of x] fl_nonneg [of x] unfolding that [symmetric] by linarith
  then show ?thesis using assms by (simp add: rng_floats_def)
qed

abbreviation slack :: rat where "slack \<equiv> 1001 / 1000"

lemma fl_slack: "0 \<le> x \<Longrightarrow> x \<le> y * slack ^ n \<Longrightarrow> fl x \<le> y * slack ^ Suc n"
proof -
  assume x: "0 \<le> x" "x \<le> y * slack ^ n"
  have "fl x \<le> x * slack" using x by (intro fl_crude)
  also have "\<dots> \<le> (y * slack ^ n) * slack" using x by (intro mult_right_mono) auto
  finally show ?thesis by (simp only: power_Suc mult.assoc mult.commute [of slack])
qed

lemma scaled_share:
  assumes "0 \<le> a" "0 \<le> b" "0 \<le> r" "r \<le> slack"
  shows "of_nat (scaled n (fadd (fl a) (fmul (fl b) r))) \<le> of_nat n * ((a + b) * slack ^ 6)"
proof -
  define v where "v = fadd (fl a) (fmul (fl b) r)"
  have fb: "0 \<le> fl b" "fl b \<le> b * slack" using assms fl_nonneg fl_slack [of b b 0] by simp_all
  have "fl b * r \<le> (b * slack) * slack" using fb assms by (intro mult_mono) auto
  then have "fmul (fl b) r \<le> b * slack ^ Suc 2"
    unfolding fmul_def using fb assms by (intro fl_slack) (simp_all add: power2_eq_square mult.assoc)
  moreover have "fl a \<le> a * slack ^ Suc 2"
    using assms by (intro fl_slack) (auto simp: mult_le_cancel_left1)
  ultimately have "fl a + fmul (fl b) r \<le> (a + b) * slack ^ Suc 2" unfolding distrib_right by linarith
  moreover have s0: "0 \<le> fl a + fmul (fl b) r" unfolding fmul_def using fb assms fl_nonneg by simp
  ultimately have v: "v \<le> (a + b) * slack ^ Suc (Suc 2)" unfolding v_def fadd_def by (intro fl_slack)
  have v0: "0 \<le> v" unfolding v_def fadd_def using s0 fl_nonneg by simp
  have n0: "0 \<le> fl_nat n" "fl_nat n \<le> of_nat n * slack"
    unfolding fl_nat_def using fl_nonneg fl_slack [of "of_nat n" "of_nat n" 0] by simp_all
  have "fl_nat n * v \<le> (of_nat n * slack) * ((a + b) * slack ^ Suc (Suc 2))" using n0 v v0 by (intro mult_mono) auto
  then have "fl_nat n * v \<le> (of_nat n * (a + b)) * slack ^ Suc (Suc (Suc 2))" by (simp only: power_Suc mult.assoc mult.left_commute)
  then have "fmul (fl_nat n) v \<le> (of_nat n * (a + b)) * slack ^ Suc (Suc (Suc (Suc 2)))"
    unfolding fmul_def using n0 v0 by (intro fl_slack) auto
  moreover have "of_nat (int_of x) \<le> x" if "0 \<le> x" for x using that by (simp add: int_of_def)
  then have "of_nat (scaled n v) \<le> fmul (fl_nat n) v"
    unfolding scaled_def fmul_def using n0 v0 fl_nonneg by simp
  ultimately show ?thesis unfolding v_def by (simp add: mult.assoc)
qed

section \<open>Properties\<close>

text \<open>The memory figures of a session are those of one machine: used, free, buffers and cache add up to the
  installed memory of the persona, and what is available is what is not used, whatever the seed.\<close>

lemma mem_breakdown_balanced:
  "mem_used (mem_breakdown c) + mem_free (mem_breakdown c) + mem_buffers (mem_breakdown c) + mem_cached (mem_breakdown c)
     = memtotal_kb (ctx_persona c) \<and>
   mem_available (mem_breakdown c) = memtotal_kb (ctx_persona c) - mem_used (mem_breakdown c)"
proof -
  let ?n = "memtotal_kb (ctx_persona c)" and ?r = "rng_floats (seed_or_host c) 3"
  define used where "used = scaled ?n (fadd (fl 0.14) (fmul (fl 0.30) (?r ! 0)))"
  define buffers where "buffers = scaled ?n (fadd (fl 0.02) (fmul (fl 0.03) (?r ! 1)))"
  have k: "slack ^ 6 \<le> 101 / 100" by (simp add: power_divide)
  have "rat_of_nat used \<le> of_nat ?n * ((0.14 + 0.30) * slack ^ 6)"
    unfolding used_def by (rule scaled_share) (use rng_floats_range [of 0 3] in auto)
  moreover have "rat_of_nat buffers \<le> of_nat ?n * ((0.02 + 0.03) * slack ^ 6)"
    unfolding buffers_def by (rule scaled_share) (use rng_floats_range [of 1 3] in auto)
  ultimately have "rat_of_nat (used + buffers) \<le> of_nat ?n * (0.49 * slack ^ 6)" by (simp add: algebra_simps)
  also have "\<dots> \<le> of_nat ?n * 1" using k by (intro mult_left_mono) auto
  finally have "rat_of_nat (used + buffers) \<le> of_nat ?n" by simp
  then have "used + buffers \<le> ?n" unfolding of_nat_le_iff .
  then show ?thesis unfolding mem_breakdown_def Let_def used_def [symmetric] buffers_def [symmetric]
    by (simp add: min_def) linarith
qed

end
