(* ===== verification/Responder_Commands.thy ===== *)
theory Responder_Commands
  imports Responder_Files Py_Regex
begin

text \<open>
  The command renderers of the deterministic responder (\<open>src/src/cowrie/llm/responder.py\<close>), one definition
  per handler. A handler gets the arguments, the context and the effective user; \<^const>\<open>None\<close> means that the
  command is left to the model, which is also what an exception inside a handler comes to.
\<close>

type_synonym handler = "host \<Rightarrow> string list \<Rightarrow> shell_context \<Rightarrow> string \<Rightarrow> responder_result option"

section \<open>Identity\<close>

definition h_whoami :: handler where
  "h_whoami h args c user = answer (user @ [nl])"

definition id_line :: "nat \<Rightarrow> string \<Rightarrow> string" where
  "id_line uid name =
     (if uid = 0 then ''uid=0(root) gid=0(root) groups=0(root)'' @ [nl]
      else let u = str_of_nat uid @ ''('' @ name @ '')'' in ''uid='' @ u @ '' gid='' @ u @ '' groups='' @ u @ [nl])"

definition h_id :: handler where
  "h_id h args c user =
     (case filter not_flag args of
        name # _ \<Rightarrow> (case resolve_user name c of None \<Rightarrow> None | Some (uid, n) \<Rightarrow> answer (id_line uid n))
      | [] \<Rightarrow> answer (id_line (uid_for user) user))"

definition h_groups :: handler where
  "h_groups h args c user =
     (case args of
        a # _ \<Rightarrow> (case resolve_user a c of
            None \<Rightarrow> None
          | Some (_, name) \<Rightarrow> answer (if name = ''root'' then ''root'' @ [nl] else name @ [nl]))
      | [] \<Rightarrow> answer (if user = ''root'' then ''root'' @ [nl] else user @ [nl]))"

definition h_hostname :: handler where
  "h_hostname h args c user =
     (if ''-I'' \<in> set args \<or> ''--all-ip-addresses'' \<in> set args then
        answer ((if server_ip c \<noteq> [] then server_ip c else ''10.0.0.5'') @ '' '' @ [nl])
      else answer (hostname c @ [nl]))"

section \<open>Kernel and architecture\<close>

definition known_arch :: "persona \<Rightarrow> string" where
  "known_arch p = (if family p \<noteq> ''alpine'' then uname_m p else ''unknown'')"

definition uname_fields :: "shell_context \<Rightarrow> (char, string) dict" where
  "uname_fields c =
     (let p = ctx_persona c in
      [(CHR ''s'', ''Linux''), (CHR ''n'', hostname c), (CHR ''r'', kernel p), (CHR ''v'', kernel_version_string p),
       (CHR ''m'', uname_m p), (CHR ''p'', known_arch p), (CHR ''i'', known_arch p),
       (CHR ''o'', if family p \<noteq> ''alpine'' then ''GNU/Linux'' else ''Linux'')])"

definition uname_long :: "(string, char) dict" where
  "uname_long =
     [(''--kernel-name'', CHR ''s''), (''--nodename'', CHR ''n''), (''--kernel-release'', CHR ''r''),
      (''--kernel-version'', CHR ''v''), (''--machine'', CHR ''m''), (''--processor'', CHR ''p''),
      (''--hardware-platform'', CHR ''i''), (''--operating-system'', CHR ''o'')]"

definition uname_requested :: "string list \<Rightarrow> string" where
  "uname_requested args =
     concat (map (\<lambda>a.
       if a \<in> {''-a'', ''--all''} then []
       else if startswith a ''--'' then (case map_of uname_long a of Some ch \<Rightarrow> [ch] | None \<Rightarrow> [])
       else if startswith a ''-'' then filter (\<lambda>ch. ch \<in> set ''snrvmpio'') (drop 1 a)
       else []) args)"

definition uname_show :: "shell_context \<Rightarrow> string \<Rightarrow> responder_result option" where
  "uname_show c chs = answer (py_join '' '' (map (\<lambda>ch. the (map_of (uname_fields c) ch)) chs) @ [nl])"

definition h_uname :: handler where
  "h_uname h args c user =
     (if args = [] then answer (''Linux'' @ [nl])
      else if list_ex (\<lambda>a. a \<in> {''-a'', ''--all''}) args then
        uname_show c (''snrvm'' @ filter (\<lambda>ch. map_of (uname_fields c) ch \<noteq> Some ''unknown'') ''pi'' @ ''o'')
      else if uname_requested args = [] then answer (''Linux'' @ [nl])
      else uname_show c (filter (\<lambda>ch. ch \<in> set (uname_requested args)) ''snrvmpio''))"

definition h_arch :: handler where
  "h_arch h args c user = answer (uname_m (ctx_persona c) @ [nl])"

definition h_nproc :: handler where
  "h_nproc h args c user = answer (str_of_nat (ncpus (ctx_persona c)) @ [nl])"

section \<open>Memory, load and uptime\<close>

definition free_fmt :: "string list \<Rightarrow> nat \<Rightarrow> string" where
  "free_fmt args v =
     (if ''-h'' \<in> set args \<or> ''--human'' \<in> set args then human_kb v
      else if ''-g'' \<in> set args then str_of_nat (v div (1024 * 1024))
      else if ''-m'' \<in> set args then str_of_nat (v div 1024)
      else str_of_nat v)"

definition h_free :: handler where
  "h_free h args c user =
     (let m = mem_breakdown c; swap = memtotal_kb (ctx_persona c); swap_used = scaled swap 0;
          col = (\<lambda>v. rjust 12 (free_fmt args v)) in
      answer (
        ''               total        used        free      shared  buff/cache   available'' @ [nl] @
        ''Mem:    '' @ col (mem_total m) @ col (mem_used m) @ col (mem_free m) @ col (mem_shared m) @
          col (mem_buffers m + mem_cached m) @ col (mem_available m) @ [nl] @
        ''Swap:   '' @ col swap @ col swap_used @ col (swap - swap_used) @ [nl]))"

definition local_time :: "host \<Rightarrow> date_time" where
  "local_time h = from_timestamp (host_now h + of_int (tz_offset h))"

definition hms :: "date_time \<Rightarrow> string" where
  "hms t = two (dt_hour t) @ '':'' @ two (dt_minute t) @ '':'' @ two (dt_second t)"

definition hours_minutes :: "nat \<Rightarrow> nat \<Rightarrow> string" where
  "hours_minutes hrs mins = two hrs @ '':'' @ two mins"

definition up_text :: "host \<Rightarrow> shell_context \<Rightarrow> string" where
  "up_text h c =
     (case uptime_parts h (boot_time c) of (_, days, hrs, mins) \<Rightarrow>
        (if days > 0 then str_of_nat days @ '' day'' @ (if days \<noteq> 1 then ''s'' else []) @ '', '' else []) @
        hours_minutes hrs mins)"

definition h_uptime :: handler where
  "h_uptime h args c user =
     answer ('' '' @ (hms (local_time h)) @ '' up '' @ up_text h c @ '',  1 user,  load average: '' @
       (load_text '', '' c) @ [nl])"

definition h_w :: handler where
  "h_w h args c user =
     (let t = hms (local_time h);
          src = (if client_ip c \<noteq> [] then client_ip c else if server_ip c \<noteq> [] then server_ip c else ''10.0.0.1'') in
      answer (
        '' '' @ t @ '' up '' @ up_text h c @ '',  1 user,  load average: '' @ (load_text '', '' c) @ [nl] @
        ''USER     TTY      FROM             LOGIN@   IDLE   JCPU   PCPU WHAT'' @ [nl] @
        (ljust 8 (login_user c)) @ '' pts/0    '' @ ljust 15 src @ ''  '' @ t @ ''    0.00s  0.04s  0.00s w'' @ [nl]))"

definition h_vmstat :: handler where
  "h_vmstat h args c user =
     (let m = mem_breakdown c; col = (\<lambda>n. rjust 6 (str_of_nat n)) in
      answer (
        ''procs -----------memory---------- ---swap-- -----io---- -system-- ------cpu-----'' @ [nl] @
        '' r  b   swpd   free   buff  cache   si   so    bi    bo   in   cs us sy id wa st'' @ [nl] @
        '' '' @ (if fst (h_loadavg c) > 1 / 2 then ''1'' else ''0'') @ ''  0 '' @ col 0 @ '' '' @ col (mem_free m) @ '' '' @
        col (mem_buffers m) @ '' '' @ col (mem_cached m) @ ''    0    0     5    12   40   80  1  0 99  0  0'' @ [nl]))"

section \<open>Distribution and hardware\<close>

definition h_lsb_release :: handler where
  "h_lsb_release h args c user =
     (let p = ctx_persona c in
      if family p = ''alpine'' then answer (''-sh: lsb_release: not found'' @ [nl])
      else
        let (ver, codename, did) =
          (if str_in ''Ubuntu'' (distro p) then (ubuntu_version p, ubuntu_codename p, ''Ubuntu'')
           else if str_in ''Debian'' (distro p) then (debian_major p, debian_codename p, ''Debian'')
           else (''7.9.2009'', ''Core'', ''CentOS'')) in
        if ''-d'' \<in> set args \<or> ''--description'' \<in> set args then answer (''Description:'' @ [tab] @
          distro p @ [nl])
        else answer (''Distributor ID:'' @ [tab] @ did @ [nl] @ ''Description:'' @ [tab] @ distro p @ [nl] @
          ''Release:'' @ [tab] @ ver @ [nl] @ ''Codename:'' @ [tab] @ codename @ [nl]))"

definition h_lscpu :: handler where
  "h_lscpu h args c user =
     (let p = ctx_persona c; n = ncpus p in
      answer (
        ''Architecture:                       x86_64'' @ [nl] @
        ''CPU op-mode(s):                     32-bit, 64-bit'' @ [nl] @
        ''Byte Order:                         Little Endian'' @ [nl] @
        ''CPU(s):                             '' @ str_of_nat n @ [nl] @
        ''On-line CPU(s) list:                0'' @ (if n > 1 then ''-'' @ str_of_nat (n - 1) else []) @ [nl] @
        ''Vendor ID:                          GenuineIntel'' @ [nl] @
        ''Model name:                         '' @ cpuinfo_model p @ [nl] @
        ''CPU family:                         6'' @ [nl] @
        ''Model:                              85'' @ [nl] @
        ''Thread(s) per core:                 1'' @ [nl] @
        ''Core(s) per socket:                 '' @ str_of_nat n @ [nl] @
        ''Socket(s):                          1'' @ [nl] @
        ''Stepping:                           7'' @ [nl] @
        ''CPU MHz:                            '' @ (fixed 3 (cpu_mhz p)) @ [nl] @
        ''Hypervisor vendor:                  KVM'' @ [nl] @
        ''Virtualization type:                full'' @ [nl]))"

section \<open>Processes\<close>

record process =
  ps_user :: string
  ps_pid :: nat
  ps_ppid :: nat
  ps_cmd :: string

definition Process :: "string \<Rightarrow> nat \<Rightarrow> nat \<Rightarrow> string \<Rightarrow> process" where
  "Process u pid ppid cmd = \<lparr>ps_user = u, ps_pid = pid, ps_ppid = ppid, ps_cmd = cmd\<rparr>"

definition base_processes :: "shell_context \<Rightarrow> process list" where
  "base_processes c =
     (let p = ctx_persona c in
      [Process ''root'' 1 0 (if init_system p = ''busybox'' then ''init'' else ''/sbin/init''),
       Process ''root'' 410 1 (if init_system p = ''systemd'' then ''/lib/systemd/systemd-journald'' else ''/sbin/syslogd''),
       Process ''root'' 612 1 ''/usr/sbin/sshd -D'',
       Process ''root'' 720 1 (if family p \<noteq> ''alpine'' then ''/usr/sbin/cron -f'' else ''/usr/sbin/crond -f''),
       Process (login_user c) 9120 612 (''sshd: '' @ login_user c @ ''@pts/0''),
       Process (ctx_user c) 9121 9120 ''-bash''])"

definition all_processes :: "shell_context \<Rightarrow> string \<Rightarrow> process list" where
  "all_processes c self =
     base_processes c @
     map (\<lambda>(_, f). Process (pf_user f) (pf_pid f) 9121 (pf_command f)) (processes (ctx_world c)) @
     [Process (ctx_user c) 9200 9121 self]"

definition ps_start :: "host \<Rightarrow> shell_context \<Rightarrow> string" where
  "ps_start h c =
     (case uptime_parts h (boot_time c) of (_, days, hrs, mins) \<Rightarrow>
        if days > 1 then ''Jun08'' else hours_minutes hrs mins)"

definition ps_tty :: "string \<Rightarrow> string" where
  "ps_tty cmd = (if str_in ''pts/0'' cmd \<or> cmd = ''-bash'' \<or> startswith cmd ''ps'' then ''pts/0'' else ''?'')"

definition ps_stat :: "process \<Rightarrow> string" where
  "ps_stat q =
     (if startswith (ps_cmd q) ''ps'' then ''R+''
      else if ps_cmd q = ''-bash'' then ''Ss''
      else if ps_ppid q = 0 \<or> ps_ppid q = 1 then ''Ss'' else ''S'')"

definition ps_aux_line :: "rat list \<Rightarrow> string \<Rightarrow> nat \<times> process \<Rightarrow> string" where
  "ps_aux_line r start iq =
     (case iq of (i, q) \<Rightarrow>
      let x = r ! (i mod length r);
          cpu = fmul x (fl 0.6);
          mem = fadd (fl 0.1) (fmul (r ! ((i + 1) mod length r)) (fl 1.5));
          vsz = 12000 + int_of (fmul x 600000);
          rss = 1000 + int_of (fmul x 40000) in
      ljust 8 (ps_user q) @ '' '' @ rjust 5 (str_of_nat (ps_pid q)) @ '' '' @ rjust 4 (fixed 1 cpu) @ '' '' @
      rjust 4 (fixed 1 mem) @ '' '' @ rjust 6 (str_of_nat vsz) @ '' '' @ rjust 5 (str_of_nat rss) @ '' '' @
      ljust 8 (ps_tty (ps_cmd q)) @ '' '' @ ljust 4 (ps_stat q) @ '' '' @ ljust 5 start @ '' '' @
      ''0:00'' @ '' '' @ ps_cmd q)"

definition ps_ef_line :: "string \<Rightarrow> process \<Rightarrow> string" where
  "ps_ef_line start q =
     ljust 8 (ps_user q) @ '' '' @ rjust 7 (str_of_nat (ps_pid q)) @ '' '' @ rjust 7 (str_of_nat (ps_ppid q)) @ ''  0 '' @
     ljust 5 start @ '' '' @ ljust 8 (ps_tty (ps_cmd q)) @ '' 00:00:00 '' @ ps_cmd q"

definition lstrip_dashes :: "string \<Rightarrow> string" where
  "lstrip_dashes a = lstrip_by (\<lambda>ch. ch = CHR ''-'') a"

definition bsd_style :: "string list \<Rightarrow> bool" where
  "bsd_style args \<longleftrightarrow>
     (let joined = py_join '' '' args in
      ''aux'' \<in> set args \<or> str_in ''aux'' (filter (\<lambda>ch. ch \<noteq> CHR ''-'') joined) \<or>
      (list_ex (\<lambda>a. lstrip_dashes a \<noteq> [] \<and> list_all (\<lambda>ch. ch \<in> set ''auxwww'') (lstrip_dashes a)) args \<and>
       CHR ''u'' \<in> set joined))"

definition enum :: "'a list \<Rightarrow> (nat \<times> 'a) list" where
  "enum xs = zip [0..<length xs] xs"

definition h_ps :: handler where
  "h_ps h args c user =
     (let joined = py_join '' '' args;
          procs = all_processes c (py_join '' '' (''ps'' # args));
          r = rng_floats (seed_or_host c @ ''|ps'') (length procs * 2);
          start = ps_start h c in
      if CHR ''u'' \<in> set joined \<or> bsd_style args then
        answer (py_join [nl]
          (''USER         PID %CPU %MEM    VSZ   RSS TTY      STAT START   TIME COMMAND'' #
           map (ps_aux_line r start) (enum procs)) @ [nl])
      else if ''-ef'' \<in> set args \<or> (''-e'' \<in> set args \<and> str_in ''-f'' joined) \<or> str_in ''ef'' joined then
        answer (py_join [nl]
          (''UID          PID    PPID  C STIME TTY          TIME CMD'' # map (ps_ef_line start) procs) @ [nl])
      else answer (''    PID TTY          TIME CMD'' @ [nl] @ ''   9121 pts/0    00:00:00 bash'' @ [nl] @
        ''   9200 pts/0    00:00:00 ps'' @ [nl]))"

text \<open>\<open>top\<close> in batch mode. The name of a process is the last component of its first word; a recorded command
  without a word makes the renderer raise.\<close>

definition top_name :: "string \<Rightarrow> string option" where
  "top_name cmd =
     (case split_ws cmd of
        [] \<Rightarrow> None
      | w # _ \<Rightarrow> let b = lstrip_dashes w in Some (take 15 (if CHR ''/'' \<in> set b then after_last (CHR ''/'') b else b)))"

definition top_row :: "rat list \<Rightarrow> nat \<times> process \<Rightarrow> string option" where
  "top_row r iq =
     (case iq of (i, q) \<Rightarrow>
      let x = r ! (i mod length r);
          self = startswith (ps_cmd q) ''top'';
          cpu = (if \<not> self then fmul x (fl 0.5) else fl 0.7);
          mem = fadd (fl 0.1) (fmul (r ! ((i + 1) mod length r)) 1);
          virt = 12000 + int_of (fmul x 300000);
          res = 3000 + int_of (fmul x 30000);
          shr = 2000 + int_of (fmul x 8000) in
      map_option (\<lambda>name.
        rjust 7 (str_of_nat (ps_pid q)) @ '' '' @ ljust 8 (ps_user q) @ ''  20   0 '' @ rjust 7 (str_of_nat virt) @ '' '' @
        rjust 6 (str_of_nat res) @ '' '' @ rjust 6 (str_of_nat shr) @ '' '' @ (if self then ''R'' else ''S'') @ '' '' @
        rjust 5 (fixed 1 cpu) @ '' '' @ rjust 5 (fixed 1 mem) @ ''   0:00.'' @ two i @ '' '' @ name) (top_name (ps_cmd q)))"

definition top_header :: "host \<Rightarrow> shell_context \<Rightarrow> nat \<Rightarrow> string list" where
  "top_header h c n =
     (let m = mem_breakdown c; ntasks = n + 88; mib = (\<lambda>v. fdiv (fl_nat v) 1024); col = (\<lambda>x. rjust 9 (fixed 1 x));
          up = (case uptime_parts h (boot_time c) of (_, days, hrs, mins) \<Rightarrow>
                  (if days \<noteq> 0 then str_of_nat days @ '' days, '' else []) @ hours_minutes hrs mins) in
      [''top - '' @ (hms (local_time h)) @ '' up '' @ up @ '',  1 user,  load average: '' @ (load_text '', '' c),
       ''Tasks: '' @ (rjust 3 (str_of_nat ntasks)) @ '' total,   1 running, '' @ (rjust 3 (str_of_nat (ntasks - 1))) @
         '' sleeping,   0 stopped,   0 zombie'',
       ''%Cpu(s):  0.7 us,  0.3 sy,  0.0 ni, 98.9 id,  0.1 wa,  0.0 hi,  0.0 si,  0.0 st'',
       ''MiB Mem :'' @ (col (mib (mem_total m))) @ '' total,'' @ (col (mib (mem_free m))) @ '' free,'' @
       (col (mib (mem_used m))) @ '' used,'' @ (col (fadd (mib (mem_buffers m)) (mib (mem_cached m)))) @ '' buff/cache'',
       ''MiB Swap:'' @ (col (mib (mem_total m))) @ '' total,'' @ (col (mib (mem_total m))) @ '' free,'' @
       col 0 @ '' used.'' @ (col (mib (mem_available m))) @ '' avail Mem'',
       [],
       ''    PID USER      PR  NI    VIRT    RES    SHR S  %CPU  %MEM     TIME+ COMMAND''])"

definition short_flags :: "string list \<Rightarrow> string" where
  "short_flags args = concat (map (drop 1) (filter (\<lambda>a. startswith a ''-'' \<and> \<not> startswith a ''--'') args))"

definition h_top :: handler where
  "h_top h args c user =
     (if CHR ''b'' \<notin> set (short_flags args) \<and> ''--batch'' \<notin> set args then None
      else
        let procs = all_processes c ''top -bn1'';
            r = rng_floats (seed_or_host c @ ''|top'') (length procs * 2) in
        (case those (map (top_row r) (enum procs)) of
           None \<Rightarrow> None
         | Some rows \<Rightarrow> answer (py_join [nl] (top_header h c (length procs) @ rows) @ [nl])))"

end
