(* ===== verification/Responder.thy ===== *)
theory Responder
  imports Responder_Commands Pipefilters
begin

text \<open>
  The deterministic responder (\<open>src/src/cowrie/llm/responder.py\<close>): the remaining handlers, the dispatch
  table, the treatment of \<open>sudo\<close>, pipelines and the entry point \<open>respond\<close>. The compiler of grep patterns is
  the parameter of the pipe filters; the switch \<open>pipe_filters\<close> of the configuration is an argument.
\<close>

section \<open>Environment\<close>

definition base_env :: "shell_context \<Rightarrow> string \<Rightarrow> (string, string) dict" where
  "base_env c user =
     [(''SHELL'', ''/bin/bash''), (''PWD'', ctx_cwd c), (''LOGNAME'', user), (''HOME'', home_for user),
      (''LANG'', ''en_US.UTF-8''), (''USER'', user), (''SHLVL'', ''1''),
      (''PATH'', ''/usr/local/sbin:/usr/local/bin:/usr/sbin:/usr/bin:/sbin:/bin''),
      (''MAIL'', ''/var/mail/'' @ user), (''_'', ''/usr/bin/env''), (''TERM'', ''xterm-256color''), (''HOSTNAME'', hostname c)]"

definition special_vars :: "shell_context \<Rightarrow> string \<Rightarrow> (string, string) dict" where
  "special_vars c user =
     [(''?'', ''0''), (''$'', ''9121''), (''UID'', str_of_nat (uid_for user)), (''EUID'', str_of_nat (uid_for user)),
      (''HOSTNAME'', hostname c)]"

definition expand_var :: "string \<Rightarrow> shell_context \<Rightarrow> string \<Rightarrow> string option" where
  "expand_var name c user =
     (case map_of (env_vars (ctx_world c)) name of
        Some v \<Rightarrow> Some v
      | None \<Rightarrow> (case map_of (base_env c user) name of
            Some v \<Rightarrow> Some v
          | None \<Rightarrow> map_of (special_vars c user) name))"

definition full_env :: "shell_context \<Rightarrow> string \<Rightarrow> (string, string) dict" where
  "full_env c user = fold (\<lambda>(k, v). AList.update k v) (env_vars (ctx_world c)) (base_env c user)"

definition h_env :: handler where
  "h_env h args c user =
     (if args \<noteq> [] then None
      else answer (py_join [nl] (map (\<lambda>(k, v). k @ ''='' @ v) (full_env c user)) @ [nl]))"

definition h_printenv :: handler where
  "h_printenv h args c user =
     (case filter not_flag args of
        [] \<Rightarrow> h_env h [] c user
 
            | [name] \<Rightarrow> (case expand_var name c user of None \<Rightarrow> answer [] | Some v \<Rightarrow> answer (v @ [nl]))
      | _ \<Rightarrow> None)"

definition var_start :: "char \<Rightarrow> bool" where
  "var_start ch \<longleftrightarrow> is_upper ch \<or> is_lower ch \<or> ch \<in> {CHR ''_'', CHR ''?'', CHR ''$''}"

definition var_char :: "char \<Rightarrow> bool" where
  "var_char ch \<longleftrightarrow> is_upper ch \<or> is_lower ch \<or> is_digit ch \<or> ch = CHR ''_''"

definition VAR_NAME :: regex where "VAR_NAME = RSeq (RCls var_start) (RStar (RCls var_char))"

definition VAR_RE :: regex where
  "VAR_RE = RAlt (rseq [rlit ''${'', RGroup 1 VAR_NAME, rlit ''}'']) (rseq [rlit ''$'', RGroup 2 VAR_NAME])"

definition expand_word :: "string \<Rightarrow> shell_context \<Rightarrow> string \<Rightarrow> string" where
  "expand_word w c user =
     re_sub VAR_RE (\<lambda>p.
       let name = (if group p 1 \<noteq> [] then group p 1 else group p 2) in
       case expand_var name c user of None \<Rightarrow> [] | Some v \<Rightarrow> v) w"

definition h_echo :: handler where
  "h_echo h args c user =
     (let (newline, words) = (case args of a # rest \<Rightarrow> if a = ''-n'' then (False, rest) else (True, args) | [] \<Rightarrow> (True, [])) in
      answer (py_join '' '' (map (\<lambda>w. expand_word w c user) words) @ (if newline then [nl] else [])))"

section \<open>Time, tools and mounts\<close>

definition DAY_NAMES :: "string list" where
  "DAY_NAMES = [''Thu'', ''Fri'', ''Sat'', ''Sun'', ''Mon'', ''Tue'', ''Wed'']"

text \<open>\<open>%a %b %e %H:%M:%S ZONE %Y\<close>\<close>

definition date_line :: "rat \<Rightarrow> string \<Rightarrow> string" where
  "date_line t zone =
     (let d = from_timestamp t in
      DAY_NAMES ! (whole_seconds t div 86400 mod 7) @ '' '' @ MONTHS ! (dt_month d - 1) @ '' '' @
      rjust 2 (str_of_nat (dt_day d)) @ '' '' @ hms d @ '' '' @ zone @ '' '' @ str_of_nat (dt_year d) @ [nl])"

definition h_date :: handler where
  "h_date h args c user =
     (if args \<noteq> [] \<and> startswith (hd args) ''+'' then
        (case strftime h (drop 1 (hd args)) of None \<Rightarrow> None | Some s \<Rightarrow> answer (s @ [nl]))
      else if ''-u'' \<in> set args \<or> ''--utc'' \<in> set args then answer (date_line (host_now h) ''UTC'')
      else answer (date_line (host_now h + of_int (tz_offset h)) (tz_name h)))"

definition available_bins :: "string list" where
  "available_bins =
     [''ls'', ''cat'', ''echo'', ''sh'', ''bash'', ''cp'', ''mv'', ''rm'', ''ps'', ''grep'',
      ''awk'', ''sed'', ''cut'', ''sort'', ''head'', ''tail'', ''wc'', ''find'', ''chmod'',
      ''chown'', ''kill'', ''id'', ''whoami'', ''uname'', ''df'', ''du'', ''free'', ''top'',
      ''ssh'', ''scp'', ''tar'', ''gzip'', ''date'', ''env'', ''which'', ''sleep'',
      ''curl'', ''wget'', ''python3'', ''python'', ''git'', ''vim'', ''vi'', ''nano'',
      ''perl'', ''nc'', ''ping'', ''rsync'', ''openssl'', ''ip'']"

definition h_which :: handler where
  "h_which h args c user =
     (case filter not_flag args of
        [] \<Rightarrow> None
      | names \<Rightarrow>
          let out_lines = map (\<lambda>n. ''/usr/bin/'' @ n) (filter (\<lambda>n. n \<in> set available_bins) names) in
          if out_lines = [] then answer [] else answer (py_join [nl] out_lines @ [nl]))"

definition h_command :: handler where
  "h_command h args c user = (case args of a # rest \<Rightarrow> if a = ''-v'' then h_which h rest c user else None | [] \<Rightarrow> None)"

definition h_mount :: handler where
  "h_mount h args c user =
     (if args \<noteq> [] then None
      else answer (py_join [nl]
        [''sysfs on /sys type sysfs (rw,nosuid,nodev,noexec,relatime)'',
         ''proc on /proc type proc (rw,nosuid,nodev,noexec,relatime)'',
         ''udev on /dev type devtmpfs (rw,nosuid,relatime,size=1996212k,nr_inodes=499053,mode=755)'',
         ''devpts on /dev/pts type devpts (rw,nosuid,noexec,relatime,gid=5,mode=620,ptmxmode=000)'',
         ''tmpfs on /run type tmpfs (rw,nosuid,nodev,noexec,relatime,size=401544k,mode=755)'',
         ''/dev/vda1 on / type ext4 (rw,relatime)'',
         ''tmpfs on /dev/shm type tmpfs (rw,nosuid,nodev)'',
         ''tmpfs on /run/lock type tmpfs (rw,nosuid,nodev,noexec,relatime,size=5120k)'',
         ''cgroup2 on /sys/fs/cgroup type cgroup2 (rw,nosuid,nodev,noexec,relatime,nsdelegate,memory_recursiveprot)''] @
           [nl]))"

section \<open>Disk and network\<close>

record disk =
  disk_total :: nat
  disk_used :: nat
  disk_avail :: nat

definition disk_sizes :: "shell_context \<Rightarrow> disk" where
  "disk_sizes c =
     (let r = rng_floats (seed_or_host c @ ''|disk'') 2;
          total = 20 * 1024 * 1024 + int_of (fmul (fmul (fmul (r ! 0) 40) 1024) 1024);
          used = scaled total (fadd (fl 0.12) (fmul (r ! 1) (fl 0.35))) in
      \<lparr>disk_total = total, disk_used = used, disk_avail = total - used - scaled total (fl 0.05)\<rparr>)"

definition percent :: "nat \<Rightarrow> nat \<Rightarrow> string" where
  "percent used t = str_of_int (if t \<noteq> 0 then round_even (fl (of_nat (used * 100) / of_nat t)) else 0) @ ''%''"

definition df_line :: "bool \<Rightarrow> string \<times> nat \<times> nat \<times> nat \<times> string \<Rightarrow> string" where
  "df_line human row =
     (case row of (fs, t, used, avail, mnt) \<Rightarrow>
        if human then ljust 14 fs @ '' '' @ rjust 5 (human_kb t) @ '' '' @ rjust 5 (human_kb used) @ '' '' @
          rjust 5 (human_kb avail) @ '' '' @ rjust 4 (percent used t) @ '' '' @ mnt
        else ljust 14 fs @ '' '' @ rjust 9 (str_of_nat t) @ '' '' @ rjust 8 (str_of_nat used) @ '' '' @
          rjust 9 (str_of_nat avail) @ '' '' @ rjust 4 (percent used t) @ '' '' @ mnt)"

definition h_df :: handler where
  "h_df h args c user =
     (let human = (''-h'' \<in> set args \<or> ''--human-readable'' \<in> set args);
          d = disk_sizes c; tmpfs = memtotal_kb (ctx_persona c) div 2; runfs = memtotal_kb (ctx_persona c) div 10 in
      answer (py_join [nl]
        ((''Filesystem     '' @ (if human then ''Size  Used Avail Use%'' else ''1K-blocks     Used Available Use%'') @
          '' Mounted on'') #
         map (df_line human)
           [(''/dev/vda1'', disk_total d, disk_used d, disk_avail d, ''/''),
            (''tmpfs'', tmpfs, 0, tmpfs, ''/dev/shm''),
            (''tmpfs'', runfs, scaled runfs (fl 0.02), scaled runfs (fl 0.98), ''/run''),
            (''udev'', tmpfs, 0, tmpfs, ''/dev'')]) @ [nl]))"

fun ping_args :: "string list \<Rightarrow> int option \<Rightarrow> string option \<Rightarrow> (int option \<times> string option) option" where
  "ping_args [] cnt host = Some (cnt, host)"
| "ping_args (a # rest) cnt host =
     (if a = ''-c'' \<and> rest \<noteq> [] then
        (case py_int (hd rest) of None \<Rightarrow> None | Some n \<Rightarrow> ping_args (tl rest) (Some n) host)
      else if startswith a ''-'' then ping_args rest cnt host
      else ping_args rest cnt (Some a))"

definition QUAD_RE :: regex where
  "QUAD_RE = rseq [RBos, rrep 1 3 rdigit, rrep 3 3 (RSeq (rlit ''.'') (rrep 1 3 rdigit)), REos]"

definition LOCAL_RE :: regex where
  "LOCAL_RE = rseq [RBos, ralt [rlit ''10.'', rlit ''192.168.'', rlit ''127.'',
     rseq [rlit ''172.'',
       ralt [RSeq (rlit ''1'') (RCls (\<lambda>ch. ch \<in> set ''6789'')), RSeq (rlit ''2'') rdigit,
             RSeq (rlit ''3'') (RCls (\<lambda>ch. ch \<in> set ''01''))],
       rlit ''.'']]]"

definition ping_ip :: "shell_context \<Rightarrow> string \<Rightarrow> string" where
  "ping_ip c host =
     (if re_match QUAD_RE host \<noteq> None then host
      else py_join ''.'' (map (\<lambda>x. str_of_nat (1 + int_of (fmul x 253))) (rng_floats (ctx_seed c @ ''|ping|'' @
        host) 4)))"

definition ping_output :: "host \<Rightarrow> shell_context \<Rightarrow> string \<Rightarrow> nat \<Rightarrow> string" where
  "ping_output h c host cnt =
     (let ip = ping_ip c host;
          near = (re_match LOCAL_RE ip \<noteq> None);
          base = (if near then fl 0.2 else 6); span = (if near then fl 1.5 else 34);
          rb = rng_floats (ctx_seed c @ ''|rtt|'' @ host) cnt;
          rtts = map (\<lambda>x. round_to 1 (fadd base (fmul x span))) rb;
          lo = Min (set rtts); hi = Max (set rtts);
          avg = round_to 3 (fdiv (float_sum h rtts) (of_nat (length rtts)));
          mdev = round_to 3 (fdiv (fsub hi lo) 2);
          total_ms = (cnt - 1) * 1000 + int_of (fmul (hd rb) 60);
          n = str_of_nat cnt in
      py_join [nl]
        ([''PING '' @ host @ '' ('' @ ip @ '') 56(84) bytes of data.''] @
         map (\<lambda>(i, t). ''64 bytes from '' @ ip @ '': icmp_seq='' @ (str_of_nat (i + 1)) @ '' ttl=64 time='' @
           fixed 1 t @ '' ms'') (enum rtts) @
         [[],
          ''--- '' @ host @ '' ping statistics ---'',
          n @ '' packets transmitted, '' @ n @ '' received, 0% packet loss, time '' @ str_of_nat total_ms @ ''ms'',
          ''rtt min/avg/max/mdev = '' @ fixed 3 lo @ ''/'' @ fixed 3 avg @ ''/'' @ fixed 3 hi @ ''/'' @ fixed 3 mdev @
            '' ms'']) @ [nl])"

definition h_ping :: handler where
  "h_ping h args c user =
     (case ping_args args None None of
        Some (Some cnt, Some host) \<Rightarrow>
          if cnt \<le> 0 \<or> cnt > 20 then None else answer (ping_output h c host (nat cnt))
      | _ \<Rightarrow> None)"

definition dash_flags :: "string list \<Rightarrow> string" where
  "dash_flags args = concat (map (drop 1) (filter (\<lambda>a. startswith a ''-'') args))"

definition h_ss :: handler where
  "h_ss h args c user =
     (let joined = dash_flags args in
      if CHR ''l'' \<notin> set joined \<and> CHR ''a'' \<notin> set joined then None
      else
        let proc = (\<lambda>fd. if CHR ''p'' \<in> set joined then ''          users:(('' @ [dquote] @ ''sshd'' @
          [dquote] @ '',pid=612,fd='' @ fd @ ''))'' else []) in
        answer (
          ''State    Recv-Q   Send-Q     Local Address:Port      Peer Address:Port  Process'' @ [nl] @
          ''LISTEN   0        128              0.0.0.0:22             0.0.0.0:*'' @ proc ''3'' @ [nl] @
          ''LISTEN   0        128                 [::]:22                [::]:*'' @ proc ''4'' @ [nl]))"

definition h_netstat :: handler where
  "h_netstat h args c user =
     (let joined = dash_flags args; show_prog = (CHR ''p'' \<in> set joined) in
      if CHR ''l'' \<notin> set joined \<and> CHR ''a'' \<notin> set joined then None
      else
        let prog = (if show_prog then ''612/sshd'' else []);
            prog_hdr = (if show_prog then ''PID/Program name'' else []) in
        answer (
          ''Active Internet connections (only servers)'' @ [nl] @
          ''Proto Recv-Q Send-Q Local Address           Foreign Address         State       '' @ prog_hdr @ [nl] @
          ''tcp        0      0 0.0.0.0:22              0.0.0.0:*               LISTEN      '' @ prog @ [nl] @
          ''tcp6       0      0 :::22                   :::*                    LISTEN      '' @ prog @ [nl]))"

definition h_crontab :: handler where
  "h_crontab h args c user = (if ''-l'' \<in> set args then answer (''no crontab for '' @ user @ [nl]) else None)"

section \<open>Files\<close>

definition resolve_argument :: "string \<Rightarrow> shell_context \<Rightarrow> string" where
  "resolve_argument arg c =
     (if arg = [] \<or> arg = ''.'' then ctx_cwd c
      else if arg = ''~'' then home_for (ctx_user c)
      else if startswith arg ''~/'' then home_for (ctx_user c) @ drop 1 arg
      else if startswith arg ''/'' then arg
      else let base = rstrip_by (\<lambda>ch. ch = CHR ''/'') (ctx_cwd c) in
        if base \<noteq> [] then base @ ''/'' @ arg else ''/'' @ arg)"

record ls_opts =
  ls_long :: bool
  ls_all :: bool
  ls_paths :: "string list"

fun ls_flag :: "string \<Rightarrow> ls_opts \<Rightarrow> ls_opts option" where
  "ls_flag [] s = Some s"
| "ls_flag (ch # rest) s =
     (if ch = CHR ''l'' then ls_flag rest (s\<lparr>ls_long := True\<rparr>)
      else if ch \<in> set ''aA'' then ls_flag rest (s\<lparr>ls_all := True\<rparr>)
      else if ch \<in> set ''h1FGpCxb'' then ls_flag rest s
      else None)"

fun ls_args :: "string list \<Rightarrow> ls_opts \<Rightarrow> ls_opts option" where
  "ls_args [] s = Some s"
| "ls_args (a # rest) s =
     (if startswith a ''--'' then
        (if a \<in> {''--all'', ''--almost-all''} then ls_args rest (s\<lparr>ls_all := True\<rparr>)
         else if a \<notin> {''--color=auto'', ''--color=always'', ''--color=never'', ''--color'', ''--group-directories-first''} then None
         else ls_args rest s)
      else if startswith a ''-'' then (case ls_flag (drop 1 a) s of None \<Rightarrow> None | Some s' \<Rightarrow> ls_args rest s')
      else ls_args rest (s\<lparr>ls_paths := ls_paths s @ [a]\<rparr>))"

definition h_ls :: handler where
  "h_ls h args c user =
     (case ls_args args \<lparr>ls_long = False, ls_all = False, ls_paths = []\<rparr> of
        None \<Rightarrow> None
      | Some s \<Rightarrow>
          if length (ls_paths s) > 1 then None
          else
            let target = (case ls_paths s of a # _ \<Rightarrow> resolve_argument a c | [] \<Rightarrow> ctx_cwd c) in
            (case render_ls (VFS (ctx_world c) (login_user c)) target (ls_long s) (ls_all s) user (piped c) of
               None \<Rightarrow> None
             | Some out \<Rightarrow> answer out))"

definition h_stat :: handler where
  "h_stat h args c user =
     (case filter not_flag args of
        [a] \<Rightarrow>
          if list_ex (\<lambda>x. \<not> not_flag x \<and> x \<noteq> ''--'') args then None
          else
            let out = render_stat (VFS (ctx_world c) (login_user c)) (resolve_argument a c) user in
            Some \<lparr>res_output = out, is_error = startswith out ''stat: cannot''\<rparr>
      | _ \<Rightarrow> None)"

section \<open>Dispatch\<close>

definition DISPATCH :: "(string, handler) dict" where
  "DISPATCH =
     [(''whoami'', h_whoami), (''id'', h_id), (''groups'', h_groups), (''hostname'', h_hostname),
      (''uname'', h_uname), (''arch'', h_arch), (''nproc'', h_nproc), (''free'', h_free),
      (''uptime'', h_uptime), (''cat'', h_cat), (''lsb_release'', h_lsb_release), (''lscpu'', h_lscpu),
      (''ps'', h_ps), (''env'', h_env), (''printenv'', h_printenv), (''echo'', h_echo),
      (''date'', h_date), (''which'', h_which), (''command'', h_command), (''w'', h_w),
      (''top'', h_top), (''ping'', h_ping), (''vmstat'', h_vmstat), (''df'', h_df),
      (''mount'', h_mount), (''ss'', h_ss), (''netstat'', h_netstat), (''crontab'', h_crontab),
      (''ls'', h_ls), (''stat'', h_stat)]"

definition METACHARS :: "string list" where
  "METACHARS = [''>'', ''<'', '';'', ''&&'', ''||'', ''$('', [bquote], [nl]]"

fun sudo_flags :: "string list \<Rightarrow> string \<Rightarrow> string list \<times> string" where
  "sudo_flags [] target = ([], target)"
| "sudo_flags (a # rest) target =
     (if startswith a ''-'' then
        (if a \<in> {''-u'', ''--user''} \<and> rest \<noteq> [] then sudo_flags (tl rest) (hd rest) else sudo_flags rest target)
      else (a # rest, target))"

text \<open>The inner command and the user it runs as; no inner command for a bare \<open>sudo\<close>.\<close>

definition peel_sudo :: "string list \<Rightarrow> string list option \<times> string option" where
  "peel_sudo argv =
     (if argv = [] \<or> hd argv \<noteq> ''sudo'' then (Some argv, None)
      else case sudo_flags (tl argv) ''root'' of (inner, target) \<Rightarrow>
        if inner = [] then (None, None) else (Some inner, Some target))"

definition respond_simple :: "host \<Rightarrow> string \<Rightarrow> shell_context \<Rightarrow> bool \<Rightarrow> responder_result option" where
  "respond_simple h raw c is_piped =
     (if list_ex (\<lambda>mc. str_in mc raw) METACHARS then None
      else case shlex_split raw of
        None \<Rightarrow> None
      | Some argv \<Rightarrow>
          if argv = [] then None
          else
            let c' = (if is_piped then c\<lparr>piped := True\<rparr> else c) in
            (case peel_sudo argv of
               (Some (cmd # args), user_override) \<Rightarrow>
                 let user = (if user_override \<notin> {None, Some []} then the user_override else ctx_user c') in
                 (case map_of DISPATCH cmd of
                    None \<Rightarrow> None
                  | Some handler \<Rightarrow> handler h args c' user)
             | _ \<Rightarrow> None))"

fun run_filters :: "re_compile \<Rightarrow> string list \<Rightarrow> string \<Rightarrow> string option" where
  "run_filters rc [] t = Some t"
| "run_filters rc (stage # rest) t =
     (case apply_filter rc t stage of None \<Rightarrow> None | Some t' \<Rightarrow> run_filters rc rest t')"

definition respond :: "re_compile \<Rightarrow> bool \<Rightarrow> host \<Rightarrow> string \<Rightarrow> shell_context \<Rightarrow> responder_result option" where
  "respond rc pipes_enabled h command c =
     (let raw = py_strip command in
      if raw = [] then None
      else if endswith raw ''&'' \<and> \<not> endswith raw ''&&'' then None
      else case split_pipeline raw of
        None \<Rightarrow> None
      | Some stages \<Rightarrow>
          if length stages = 1 then respond_simple h raw c False
          else if \<not> pipes_enabled then None
          else (case respond_simple h (hd stages) c True of
              None \<Rightarrow> None
            | Some r \<Rightarrow>
                if is_error r then None
                else (case run_filters rc (tl stages) (res_output r) of None \<Rightarrow> None | Some t \<Rightarrow> answer t)))"

section \<open>Lemmas\<close>

text \<open>A command line of one simple command reaches its handler.\<close>

definition meta_char :: "char \<Rightarrow> bool" where
  "meta_char ch \<longleftrightarrow> ch \<in> set ''><;&|('' \<or> ch = bquote \<or> ch = nl"

lemma metachars_meta: "list_all (list_ex meta_char) METACHARS"
  by (simp add: METACHARS_def meta_char_def)

text \<open>A character of a plain word: nothing to the shell, nothing to the lexer, not blank.\<close>

definition word_char :: "char \<Rightarrow> bool" where
  "word_char ch \<longleftrightarrow> lex_plain ch \<and> \<not> is_space ch \<and> \<not> meta_char ch"

lemma respond_simple_dispatch:
  assumes "\<not> list_ex (\<lambda>mc. str_in mc raw) METACHARS" "shlex_split raw = Some (cmd # args)" "cmd \<noteq> ''sudo''"
  shows "respond_simple h raw c p =
    (case map_of DISPATCH cmd of None \<Rightarrow> None
     | Some handler \<Rightarrow> handler h args (if p then c\<lparr>piped := True\<rparr> else c) (ctx_user c))"
  using assms by (simp add: respond_simple_def peel_sudo_def ctx_user_def split: option.split)

lemma respond_single:
  assumes "py_strip raw = raw" "raw \<noteq> []" "CHR ''|'' \<notin> set raw" "\<not> endswith raw ''&''"
  shows "respond rc pe h raw c = respond_simple h raw c False"
proof -
  have "split_pipeline raw = Some [raw]" using assms(3) by (simp add: split_pipeline_def str_in_single)
  then show ?thesis using assms by (simp add: respond_def Let_def)
qed

text \<open>The command \<open>cmd arg\<close> for a command of the table and a plain argument.\<close>

definition plain_arg :: "string \<Rightarrow> bool" where
  "plain_arg a \<longleftrightarrow> a \<noteq> [] \<and> \<not> startswith a ''-'' \<and> list_all word_char a"

lemma respond_one_arg:
  assumes "map_of DISPATCH cmd = Some handler" "cmd \<noteq> ''sudo''"
    and "cmd \<noteq> []" "list_all word_char cmd" "a \<noteq> []" "list_all word_char a"
  shows "respond rc pe h (cmd @ '' '' @ a) c = handler h [a] c (ctx_user c)"
proof -
  let ?raw = "cmd @ '' '' @ a"
  have w: "word_char ch" if "ch \<in> set cmd \<or> ch \<in> set a" for ch using assms(4,6) that by (auto simp: list_all_iff)
  have "\<not> is_space (hd ?raw)" "\<not> is_space (last ?raw)"
    using w [of "hd cmd"] w [of "last a"] assms(3,5) by (simp_all add: word_char_def)
  then have strip: "py_strip ?raw = ?raw" by (intro strip_by_id) simp_all
  have sh: "shlex_split ?raw = Some [cmd, a]" using w assms(3,5) shlex_split_pair [of cmd a] by (simp add: word_char_def)
  have chars: "\<not> meta_char ch" if "ch \<in> set ?raw" for ch
    using that w by (auto simp: word_char_def meta_char_def)
  have "\<not> list_ex (\<lambda>mc. str_in mc ?raw) METACHARS"
  proof
    assume "list_ex (\<lambda>mc. str_in mc ?raw) METACHARS"
    then obtain mc where mc: "mc \<in> set METACHARS" "set mc \<subseteq> set ?raw"
      unfolding list_ex_iff str_in_iff using set_mono_sublist by metis
    then obtain ch where "ch \<in> set mc" "meta_char ch" using metachars_meta unfolding list_all_iff list_ex_iff by metis
    then show False using chars mc(2) by blast
  qed
  moreover have "CHR ''|'' \<notin> set ?raw" "CHR ''&'' \<notin> set ?raw"
    using chars [of "CHR ''|''"] chars [of "CHR ''&''"] unfolding meta_char_def by auto
  then have "CHR ''|'' \<notin> set ?raw" "\<not> endswith ?raw ''&''" using set_mono_suffix [of "''&''" ?raw] by auto
  ultimately show ?thesis
    using respond_single [OF strip] respond_simple_dispatch [OF _ sh assms(2)] assms(1) by simp
qed

text \<open>Expansion of a lone variable.\<close>

definition var_name :: "string \<Rightarrow> bool" where
  "var_name n \<longleftrightarrow> n \<noteq> [] \<and> list_all var_char n \<and> \<not> is_digit (hd n)"

lemma var_char_start: "var_char ch \<Longrightarrow> \<not> is_digit ch \<Longrightarrow> var_start ch"
  by (auto simp: var_char_def var_start_def)

lemma var_char_word: "var_char ch \<Longrightarrow> word_char ch"
  by (auto simp: var_char_def is_upper_def is_lower_def is_digit_def lex_plain_def lex_space_def lex_quote_def word_char_def
      meta_char_def is_space_def)

lemma var_match:
  assumes "ahead p = CHR ''$'' # n" "caps p = []" "var_name n"
  shows "\<exists>q. rmatch VAR_RE Some p = Some q \<and> ahead q = [] \<and> group q 1 = [] \<and> group q 2 = n"
proof -
  obtain s m where n: "n = s # m" "var_start s" "\<forall>ch\<in>set m. var_char ch" "s \<noteq> CHR ''{''"
  proof (cases n)
    case (Cons s m)
    have "\<not> var_char (CHR ''{'')" by code_simp
    then have "s \<noteq> CHR ''{''" using assms(3) Cons by (auto simp: var_name_def)
    then show thesis using that [of s m] assms(3) Cons var_char_start by (auto simp: var_name_def list_all_iff)
  qed (use assms(3) in \<open>simp add: var_name_def\<close>)
  have braces: "rmatch (rseq [rlit ''${'', RGroup 1 VAR_NAME, rlit ''}'']) Some p = None"
    using assms(1) n(1,4) by (simp add: rmatch_lit del: rlit.simps)
  define p1 where "p1 = skip (Suc 0) p"
  define p2 where "p2 = skip (Suc 0) p1"
  have p1: "ahead p1 = s # m" "caps p1 = []" and p2: "ahead p2 = m @ []" using assms n by (simp_all add: p1_def p2_def)
  have "rmatch (RStar (RCls var_char)) (\<lambda>q. Some (capture 2 p1 q)) p2 = Some (capture 2 p1 (skip (length m) p2))"
    by (rule star_run [OF p2]) (use n in auto)
  then have "rmatch VAR_RE Some p = Some (capture 2 p1 (skip (length m) p2))"
    using assms(1) p1 n unfolding VAR_RE_def rmatch.simps(4) braces
    by (simp add: VAR_NAME_def rmatch_cls p1_def [symmetric] p2_def [symmetric] del: skip_skip)
  then show ?thesis using p1 p2 n(1) by (simp add: capture_def group_def p2_def del: skip_skip)
qed

lemma expand_lone_var:
  assumes "var_name n" "expand_var n c user = Some v"
  shows "expand_word (CHR ''$'' # n) c user = v"
proof -
  let ?p = "start_pos (CHR ''$'' # n)"
  obtain q where q: "rmatch VAR_RE Some ?p = Some q" "ahead q = []" "group q 1 = []" "group q 2 = n"
    using var_match [of ?p n] assms(1) by auto
  have none: "rmatch VAR_RE Some (q\<lparr>caps := []\<rparr>) = None" using q(2) by (simp add: VAR_RE_def rmatch_cls)
  have e: "?p\<lparr>caps := []\<rparr> = ?p" by (simp add: start_pos_def)
  have "sub_from VAR_RE f ?p = f q @ sub_from VAR_RE f q" for f
    unfolding sub_from.simps [of _ _ ?p] e q(1) using q(2) by simp
  moreover have "sub_from VAR_RE f q = []" for f using none q(2) by (simp add: sub_from.simps [of _ _ q])
  ultimately show ?thesis using q(3,4) assms(2) by (simp add: expand_word_def re_sub_def)
qed

section \<open>Properties\<close>

text \<open>What the session wrote is what \<open>cat\<close> shows: for a recorded file with known content the responder
  prints exactly that content, ended by a newline.\<close>

lemma respond_cat_recorded:
  assumes "map_of (files (ctx_world c)) path = Some f" "content_snippet f = Some body" "plain_arg path"
  shows "respond rc pe h (''cat '' @ path) c = answer (if endswith body [nl] then body else body @ [nl])"
proof -
  have a: "path \<noteq> []" "not_flag path" "list_all word_char path" using assms(3) by (simp_all add: plain_arg_def not_flag_def)
  have "list_all word_char ''cat''" by code_simp
  then have "respond rc pe h (''cat'' @ '' '' @ path) c = h_cat h [path] c (ctx_user c)"
    by (intro respond_one_arg) (use a in \<open>simp_all add: DISPATCH_def\<close>)
  then show ?thesis using assms a by (simp add: h_cat_def)
qed

definition example_ctx :: shell_context where
  "example_ctx =
     \<lparr>ctx_persona = ubuntu_22_04, boot_time = 0, ctx_world = example_world\<lparr>env_vars := [(''X'', ''1'')],
        files := [(''/tmp/x'', (snd (hd (files example_world)))\<lparr>content_snippet := Some ''hi''\<rparr>)]\<rparr>, ctx_cwd = ''/tmp'',
      login_user = ''root'', hostname = ''srv'', server_ip = [], client_ip = [], ctx_seed = [], piped = False\<rparr>"


text \<open>A variable that the session has set expands to its value: \<open>echo $NAME\<close> prints it.\<close>

lemma respond_echo_variable:
  assumes "map_of (env_vars (ctx_world c)) n = Some v" "var_name n"
  shows "respond rc pe h (''echo $'' @ n) c = answer (v @ [nl])"
proof -
  have n: "list_all word_char n" using assms(2) var_char_word by (auto simp: var_name_def list_all_iff)
  have "list_all word_char ''echo''" "word_char (CHR ''$'')" by code_simp+
  then have "respond rc pe h (''echo'' @ '' '' @ (CHR ''$'' # n)) c = h_echo h [CHR ''$'' # n] c (ctx_user c)"
    by (intro respond_one_arg) (use n in \<open>simp_all add: DISPATCH_def\<close>)
  moreover have "expand_var n c (ctx_user c) = Some v" using assms(1) by (simp add: expand_var_def)
  ultimately show ?thesis using expand_lone_var [OF assms(2)] by (simp add: h_echo_def)
qed


text \<open>\<open>id NAME\<close> never contradicts \<open>/etc/passwd\<close>: whenever it answers for a named account, the password
  file has a line for that account with the user id it prints.\<close>

lemma id_matches_passwd:
  assumes "h_id h [name] c user = Some r" "not_flag name"
  shows "\<exists>uid. res_output r = id_line uid name \<and>
    list_ex (\<lambda>l. startswith l (name @ '':x:'' @ str_of_nat uid @ '':'')) (passwd_lines c)"
proof -
  obtain uid where u: "resolve_user name c = Some (uid, name)" "res_output r = id_line uid name"
    using assms by (auto simp: h_id_def answer_def resolve_user_def split: option.splits if_splits)
  have "list_ex (\<lambda>l. startswith l (name @ '':x:'' @ str_of_nat uid @ '':'')) (passwd_lines c)"
  proof (cases "map_of SYSTEM_UIDS name")
    case None
    then have "name = login_user c" "uid = 1000" "login_user c \<noteq> ''root''"
      using u(1) by (auto simp: resolve_user_def SYSTEM_UIDS_def split: if_splits)
    then show ?thesis using None by (simp add: passwd_lines_def uid_for_def Let_def)
  next
    case (Some n)
    then have "n = uid" "(name, n) \<in> set SYSTEM_UIDS" using u(1) by (auto simp: resolve_user_def dest: map_of_SomeD)
    moreover have "list_all (\<lambda>(name, n). list_ex (\<lambda>l. startswith l (name @ '':x:'' @ str_of_nat n @ '':'')) system_accounts) SYSTEM_UIDS"
      by (simp add: SYSTEM_UIDS_def system_accounts_def str_of_nat.simps digit_char_def) code_simp
    ultimately show ?thesis by (auto simp: list_all_iff passwd_lines_def)
  qed
  with u(2) show ?thesis by blast
qed


text \<open>\<open>ls | wc -l\<close> counts the visible entries of the working directory: in a pipe \<open>ls\<close> writes one name per
  line, as it does on a real machine.\<close>

lemma respond_ls_count:
  assumes "dir_entries (VFS (ctx_world c) (login_user c)) (ctx_cwd c) = Some es" "list_all line_name es"
    and "is_file (VFS (ctx_world c) (login_user c)) (ctx_cwd c) = None \<or> is_dir (VFS (ctx_world c) (login_user c)) (ctx_cwd c)"
  shows "respond rc True h ''ls | wc -l'' c =
    answer (str_of_nat (length (filter (\<lambda>n. \<not> startswith (node_name n) ''.'') es)) @ [nl])"
proof -
  let ?v = "VFS (ctx_world c) (login_user c)"
  obtain out where out: "render_ls ?v (ctx_cwd c) False False (ctx_user c) True = Some out"
      "mset (splitlines out) = mset (map node_name (filter (\<lambda>n. \<not> startswith (node_name n) ''.'') es))"
    using ls_piped [OF assms(3,1,2)] by blast
  have len: "length (splitlines out) = length (filter (\<lambda>n. \<not> startswith (node_name n) ''.'') es)"
    using out(2) by (metis length_map size_mset)
  have "shlex_split ''ls'' = Some [''ls'']" "\<not> list_ex (\<lambda>mc. str_in mc ''ls'') METACHARS" by code_simp+
  then have ls: "respond_simple h ''ls'' c True = answer out"
    using out(1) by (simp add: respond_simple_dispatch DISPATCH_def h_ls_def ctx_user_def)
  have "py_strip ''ls | wc -l'' = ''ls | wc -l''" "split_pipeline ''ls | wc -l'' = Some [''ls'', ''wc -l'']" by code_simp+
  moreover have "apply_filter rc out ''wc -l'' = Some (str_of_nat (length (splitlines out)) @ [nl])"
  proof -
    have "shlex_split ''wc -l'' = Some [''wc'', ''-l'']" by code_simp
    then show ?thesis by (simp add: apply_filter_def filter_wc_def)
  qed
  ultimately show ?thesis using ls len by (simp add: respond_def answer_def suffix_def)
qed


end
