(* ===== verification/Protocol.thy ===== *)
theory Protocol
  imports Cmdchain Cmd_Parser Factkeys Attack_Map Interactive Downloader Responder Prompts
begin

text \<open>
  The interactive session (\<open>src/src/cowrie/llm/protocol.py\<close>): what happens to a line the client enters, to the
  answer of the model, to a finished download and to a key in a full-screen program. Every handler of the
  protocol class is a function on the session state; what it does to the outside (writing to the terminal,
  starting a request, logging) is appended to the list \<open>out\<close> of effects. The configuration, the clock, the
  regular-expression compiler and the model client's settings are the record \<open>runtime\<close>. Results of
  asynchronous calls arrive as events of their own.
\<close>

section \<open>State\<close>

datatype role = User | Assistant

record llm_request =
  system_blocks :: "(string \<times> bool) list"
  messages :: "(role \<times> string) list"
  req_max_tokens :: nat
  req_temperature :: rat

text \<open>How a stage of the dispatch ends: it took the command, it leaves it to the next stage, or it raised.\<close>

datatype verdict = Handled | Declined | Raised

datatype effect =
    Write bytestr
  | Prompt string
  | PromptTimer nat nat
  | RefreshTimer
  | CancelRefresh
  | EraseDisplay
  | CursorHome
  | LoseConnection
  | Log string "string list"
  | Generate llm_request bool
  | StartFetch download_intent string
  | GetResponse "string list"
  | ProcessEnded nat
  | Raise string

record runtime =
  cfg_attack_mapping :: bool
  cfg_deterministic :: bool
  cfg_interactive_programs :: bool
  cfg_capture_downloads :: bool
  cfg_fact_ledger :: bool
  cfg_pipe_filters :: bool
  cfg_stream :: bool
  cfg_max_facts :: nat
  cfg_max_commands :: nat
  cfg_max_tokens_per_session :: nat
  cfg_history_window :: nat
  cfg_jitter_min :: nat
  cfg_jitter_max :: nat
  cfg_system_prompt :: string
  cfg_system_prompt_exec :: string
  client_max_tokens :: nat
  client_temperature :: rat
  client_streams :: bool
  rt_host :: host
  rt_compile :: re_compile

record proto =
  username :: string
  p_hostname :: string
  kippo_ip :: string
  kippo_ip6 :: string
  p_client_ip :: string
  real_client_ip :: string
  p_persona :: persona
  p_boot_time :: rat
  window_rows :: nat
  terminal_open :: bool
  cwd :: string
  prev_cwd :: "string option"
  p_world :: world
  suppress_prompt :: bool
  command_count :: nat
  budget_logged :: bool
  session_tokens :: nat
  turns_without_usage :: nat
  token_budget_logged :: bool
  command_history :: "string list"
  last_llm_command :: string
  pending_claim :: string
  running :: "(program \<times> shell_context) option"
  refresh_pending :: bool
  out :: "effect list"

definition emit :: "effect \<Rightarrow> proto \<Rightarrow> proto" where
  "emit e s = s\<lparr>out := out s @ [e]\<rparr>"

definition term_write :: "bytestr \<Rightarrow> proto \<Rightarrow> proto" where
  "term_write bs s = (if terminal_open s then emit (Write bs) s else s)"

section \<open>Prompt\<close>

definition session_user :: "proto \<Rightarrow> string" where
  "session_user s = effective_user (username s) (p_world s)"

definition prompt_text :: "proto \<Rightarrow> string" where
  "prompt_text s =
     session_user s @ ''@'' @ p_hostname s @ '':'' @ cwd s @ (if session_user s = ''root'' then ''#'' else ''$'') @ '' ''"

definition write_prompt_safe :: "proto \<Rightarrow> proto" where
  "write_prompt_safe s = (if terminal_open s then emit (Prompt (prompt_text s)) s else s)"

definition show_prompt :: "nat \<Rightarrow> nat \<Rightarrow> proto \<Rightarrow> proto" where
  "show_prompt jmin jmax s =
     (if suppress_prompt s then s
      else if jmax > 0 then emit (PromptTimer (min jmin jmax) jmax) s
      else write_prompt_safe s)"

section \<open>Strip markdown\<close>

definition FENCE_RE :: regex where
  "FENCE_RE = rseq [rlit [bquote, bquote, bquote], RStar rword, ropt (rlit [nl])]"

definition strip_markdown :: "string \<Rightarrow> string" where
  "strip_markdown t = py_strip (str_replace [bquote] [] (re_sub FENCE_RE (\<lambda>_. []) t))"

section \<open>The shell context and the ledger\<close>

definition shell_context :: "proto \<Rightarrow> shell_context" where
  "shell_context s =
     \<lparr>ctx_persona = p_persona s, boot_time = p_boot_time s, ctx_world = p_world s, ctx_cwd = cwd s,
      login_user = username s, hostname = p_hostname s, server_ip = kippo_ip s, client_ip = p_client_ip s,
      ctx_seed = real_client_ip s @ ''|'' @ float_repr (p_boot_time s), piped = False\<rparr>"

definition session_respond :: "runtime \<Rightarrow> string \<Rightarrow> shell_context \<Rightarrow> responder_result option" where
  "session_respond rt command c = respond (rt_compile rt) (cfg_pipe_filters rt) (rt_host rt) command c"

definition remember_claim :: "runtime \<Rightarrow> string \<Rightarrow> string \<Rightarrow> string \<Rightarrow> proto \<Rightarrow> proto" where
  "remember_claim rt command ans src s =
     (if \<not> cfg_fact_ledger rt \<or> ans = [] then s
      else case fact_family command of
        None \<Rightarrow> s
      | Some key \<Rightarrow>
          s\<lparr>p_world := record_claim key ans (command_count s) src (py_strip command)
              ((p_world s)\<lparr>max_facts := cfg_max_facts rt\<rparr>)\<rparr>)"

definition emit_attack_techniques :: "runtime \<Rightarrow> string \<Rightarrow> proto \<Rightarrow> proto" where
  "emit_attack_techniques rt command s =
     (if \<not> cfg_attack_mapping rt then s
      else let ts = classify command in
        if ts = [] then s
        else emit (Log ''cowrie.llm.attack''
          ([command] @ map tech_id ts @ map tech_name ts @ sort (remdups (map tech_tactic ts)))) s)"

definition emit_deterministic :: "runtime \<Rightarrow> string \<Rightarrow> responder_result \<Rightarrow> proto \<Rightarrow> proto" where
  "emit_deterministic rt command r s =
     (let s1 = emit (Log ''cowrie.llm.deterministic'' [command, cwd s]) s;
          s2 = (if res_output r \<noteq> [] then term_write (utf8 (res_output r)) s1 else s1);
          s3 = show_prompt (cfg_jitter_min rt) (cfg_jitter_max rt) s2 in
      remember_claim rt command (res_output r) ''deterministic'' s3)"

definition try_deterministic :: "runtime \<Rightarrow> string \<Rightarrow> proto \<Rightarrow> bool \<times> proto" where
  "try_deterministic rt command s =
     (if \<not> cfg_deterministic rt then (False, s)
      else case session_respond rt command (shell_context s) of
        None \<Rightarrow> (False, s)
      | Some r \<Rightarrow> (True, emit_deterministic rt command r s))"

section \<open>Token budget\<close>

definition usage_get :: "string \<Rightarrow> (string, nat) dict \<Rightarrow> nat" where
  "usage_get k usage = (case map_of usage k of None \<Rightarrow> 0 | Some n \<Rightarrow> n)"

definition record_usage :: "(string, nat) dict \<Rightarrow> proto \<Rightarrow> proto" where
  "record_usage usage s =
     (if usage = [] then s\<lparr>turns_without_usage := turns_without_usage s + 1\<rparr>
      else s\<lparr>session_tokens := session_tokens s + (usage_get ''input_tokens'' usage + usage_get ''output_tokens'' usage +
               usage_get ''cached_tokens'' usage + usage_get ''cache_creation_tokens'' usage)\<rparr>)"

definition token_budget_exhausted :: "runtime \<Rightarrow> proto \<Rightarrow> bool \<times> proto" where
  "token_budget_exhausted rt s =
     (let cap = cfg_max_tokens_per_session rt in
      if cap = 0 then (False, s)
      else if session_tokens s < cap then (False, s)
      else (True, if token_budget_logged s then s
          else (emit (Log ''cowrie.llm.token_budget_exhausted'' [str_of_nat (session_tokens s), str_of_nat cap]) s)
            \<lparr>token_budget_logged := True\<rparr>))"

section \<open>Effects of the input on the world\<close>

definition opt_or :: "string option \<Rightarrow> string" where
  "opt_or x = (case x of None \<Rightarrow> [] | Some v \<Rightarrow> v)"

definition apply_mutation :: "rat \<Rightarrow> string \<Rightarrow> cmd_mutation \<Rightarrow> world \<Rightarrow> world" where
  "apply_mutation now login m w =
     (let path = opt_or (mut_path m); content = opt_or (mut_content m) in
      case kind m of
        CreateFile \<Rightarrow> add_file now path (utf8_len content) None Created None (Some (take 200 content)) w
      | AppendFile \<Rightarrow>
          (let existing = map_of (files w) path;
               prev = (case existing of None \<Rightarrow> [] | Some f \<Rightarrow> opt_or (content_snippet f));
               new_content = prev @ content in
           add_file now path (utf8_len new_content) None (if existing \<noteq> None then Edited else Created) None
             (Some (take 200 new_content)) w)
      | RemoveFile \<Rightarrow> remove_file path w
      | CopyFile \<Rightarrow>
          (case map_of (files w) path of
             None \<Rightarrow> w
           | Some f \<Rightarrow>
               if opt_or (dst_path m) = [] then w
               else add_file now (opt_or (dst_path m)) (size_bytes f) (sha256 f) Created None (content_snippet f) w)
      | MoveFile \<Rightarrow>
          (case map_of (files w) path of
             None \<Rightarrow> remove_file path w
           | Some f \<Rightarrow>
               if opt_or (dst_path m) = [] then remove_file path w
               else add_file now (opt_or (dst_path m)) (size_bytes f) (sha256 f) (ff_source f) None (content_snippet f)
                 (remove_file path w))
      | SetEnv \<Rightarrow> (if opt_or (env_name m) \<noteq> [] then add_env (opt_or (env_name m)) (opt_or (env_value m)) w else w)
      | PushUser \<Rightarrow> (if opt_or (mut_user m) \<noteq> [] then push_user (opt_or (mut_user m)) w else w)
      | PopUser \<Rightarrow> snd (pop_user w)
      | AddProcess \<Rightarrow>
          (if opt_or (proc_command m) \<noteq> [] then snd (add_process now (opt_or (proc_command m)) (effective_user login w) None w)
           else w))"

definition apply_input_mutations :: "runtime \<Rightarrow> string \<Rightarrow> proto \<Rightarrow> proto" where
  "apply_input_mutations rt command s =
     s\<lparr>p_world := fold (apply_mutation (host_now (rt_host rt)) (username s)) (parse_input_mutations command) (p_world s)\<rparr>"

section \<open>The model\<close>

definition last_turns :: "nat \<Rightarrow> string list \<Rightarrow> string list" where
  "last_turns window h = (if window = 0 then h else drop (length h - window) h)"

definition turn_message :: "string \<Rightarrow> (role \<times> string) list" where
  "turn_message raw =
     (if startswith raw ''User:'' then [(User, py_strip (drop 5 raw))]
      else if startswith raw ''System:'' then [(Assistant, py_strip (drop 7 raw))]
      else [])"

definition request_messages :: "nat \<Rightarrow> string list \<Rightarrow> (role \<times> string) list" where
  "request_messages window h =
     dropWhile (\<lambda>m. fst m = Assistant) (concat (map turn_message (last_turns window h)))"

definition template_vars :: "proto \<Rightarrow> string \<Rightarrow> (string, string) dict" where
  "template_vars s user =
     [(''hostname'', p_hostname s), (''username'', user), (''ip'', kippo_ip s), (''ip6'', kippo_ip6 s),
      (''client_ip'', p_client_ip s), (''cwd'', cwd s)]"

text \<open>\<^const>\<open>None\<close> when the configured template makes \<open>format_map\<close> raise.\<close>

definition build_system_context :: "runtime \<Rightarrow> string \<Rightarrow> proto \<Rightarrow> string option" where
  "build_system_context rt exec_command s =
     (let template = (if exec_command \<noteq> [] then cfg_system_prompt_exec rt else cfg_system_prompt rt);
          user = (if exec_command = [] then session_user s else username s) in
      map_option (\<lambda>context.
        context @ '' The hostname is '' @ [squote] @ p_hostname s @ [squote] @ '' and username is '' @ [squote] @ user @
          [squote] @ ''.'' @
        '' The current working directory is '' @ [squote] @ cwd s @ [squote] @ ''.'' @
        [nl, nl] @ render_prompt_section (host_now (rt_host rt)) (p_persona s) (p_boot_time s) @
        (if exec_command \<noteq> [] then [nl] @ ''The command to execute is: '' @ exec_command else []))
      (format_map (template_vars s user) template))"

definition budget_message :: bytestr where
  "budget_message = ''bash: cannot fork: Resource temporarily unavailable'' @ [nl]"

definition refuse_turn :: "proto \<Rightarrow> proto" where
  "refuse_turn s = show_prompt 0 0 (term_write budget_message s)"

definition send_request :: "runtime \<Rightarrow> string \<Rightarrow> string option \<Rightarrow> proto \<Rightarrow> verdict \<times> proto" where
  "send_request rt command observation s =
     (let user_msg = (case observation of Some obs \<Rightarrow> if obs \<noteq> [] then obs @ [nl] @
       command else command | None \<Rightarrow> command);
          s1 = s\<lparr>last_llm_command := command, command_history := command_history s @ [''User: '' @
            user_msg]\<rparr> in
      case build_system_context rt [] s1 of
        None \<Rightarrow> (Raised, emit (Raise ''system prompt template'') s1)
      | Some stable_head \<Rightarrow>
          let req = \<lparr>system_blocks = [(stable_head, True), (to_prompt_section (p_world s1), False)],
                     messages = request_messages (cfg_history_window rt) (command_history s1),
                     req_max_tokens = client_max_tokens rt, req_temperature = client_temperature rt\<rparr> in
          (Handled, emit (Generate req (cfg_stream rt \<and> client_streams rt))
            (emit (Log ''cowrie.llm.prompt'' [command, cwd s1, str_of_nat (length (command_history s1)),
               str_of_nat (length (files (p_world s1)))]) s1)))"

definition process_command_with_llm :: "runtime \<Rightarrow> string \<Rightarrow> string option \<Rightarrow> proto \<Rightarrow> verdict \<times> proto" where
  "process_command_with_llm rt command observation s =
     (let s1 = s\<lparr>command_count := command_count s + 1\<rparr> in
      if command_count s1 > cfg_max_commands rt then
        (Handled, refuse_turn (if budget_logged s1 then s1
          else (emit (Log ''cowrie.llm.session_budget_exhausted'' [str_of_nat (command_count s1), str_of_nat (cfg_max_commands rt)]) s1)
            \<lparr>budget_logged := True\<rparr>))
      else case token_budget_exhausted rt s1 of
        (True, s2) \<Rightarrow> (Handled, refuse_turn s2)
      | (False, s2) \<Rightarrow> send_request rt command observation s2)"

definition on_stream_chunk :: "string \<Rightarrow> proto \<Rightarrow> proto" where
  "on_stream_chunk t s = (if t = [] then s else term_write (utf8 t) s)"

definition flush_claim :: "runtime \<Rightarrow> proto \<Rightarrow> proto" where
  "flush_claim rt s =
     (if pending_claim s \<noteq> [] then remember_claim rt (last_llm_command s) (pending_claim s) ''llm'' (s\<lparr>pending_claim := []\<rparr>)
      else s)"

definition show_answer :: "string \<Rightarrow> bool \<Rightarrow> proto \<Rightarrow> proto" where
  "show_answer response streamed s =
     (case strip_leaked_observation (strip_markdown response) of (clean, leaked) \<Rightarrow>
        let s1 = (if leaked then emit (Log ''cowrie.llm.observation_leak'' []) s else s);
            s2 = s1\<lparr>command_history := command_history s1 @ [''System: '' @ clean]\<rparr>;
            s3 = term_write (if streamed then [nl] else utf8 (clean @ [nl])) s2 in
        s3\<lparr>pending_claim := clean\<rparr>)"

definition handle_llm_response :: "runtime \<Rightarrow> string \<Rightarrow> (string, nat) dict \<Rightarrow> bool \<Rightarrow> proto \<Rightarrow> proto" where
  "handle_llm_response rt response usage streamed s =
     (let s1 = emit (Log ''cowrie.llm.response'' (response # map (\<lambda>k. str_of_nat (usage_get k usage))
           [''input_tokens'', ''output_tokens'', ''cached_tokens'', ''cache_creation_tokens'', ''total_tokens''])) (record_usage usage s) in
      if \<not> terminal_open s1 then s1
      else flush_claim rt (show_prompt 0 0 (if response \<noteq> [] then show_answer response streamed s1 else s1)))"

definition handle_llm_error :: "string \<Rightarrow> proto \<Rightarrow> proto" where
  "handle_llm_error err s =
     (let s1 = emit (Log ''cowrie.llm.error'' [err]) s in
      if terminal_open s1 then show_prompt 0 0 s1 else s1)"

section \<open>Downloads\<close>

definition try_download_intercept :: "runtime \<Rightarrow> string \<Rightarrow> proto \<Rightarrow> verdict \<times> proto" where
  "try_download_intercept rt command s =
     (if \<not> cfg_capture_downloads rt then (Declined, s)
      else case parse_download_command command of
        Inl err \<Rightarrow> (Raised, emit (Raise err) s)
      | Inr None \<Rightarrow> (Declined, s)
      | Inr (Some i) \<Rightarrow>
          (Handled, emit (StartFetch i command)
            (emit (Log ''cowrie.llm.download_intercept'' [command, url i, opt_or (outfile i)]) s)))"

definition on_fetch_result :: "runtime \<Rightarrow> download_intent \<Rightarrow> string \<Rightarrow> fetch_result \<Rightarrow> proto \<Rightarrow> proto" where
  "on_fetch_result rt i command r s =
     (let s1 = (if (outcome r = ''success'' \<or> outcome r = ''partial'') \<and> opt_or (outfile i) \<noteq> [] then
                  s\<lparr>p_world := add_file (host_now (rt_host rt)) (opt_or (outfile i)) (bytes_downloaded r) (res_sha256 r)
                     Downloaded (Some (res_url r)) None (p_world s)\<rparr>
                else s) in
      case process_command_with_llm rt command (Some (render_observation i r)) s1 of
        (Raised, s2) \<Rightarrow> handle_llm_error ''callback raised'' s2
      | (_, s2) \<Rightarrow> s2)"

section \<open>Commands without the model\<close>

definition new_cwd :: "string \<Rightarrow> proto \<Rightarrow> string" where
  "new_cwd arg s =
     (let base = rstrip_by (\<lambda>c. c = CHR ''/'') (cwd s) in
      if arg = [] \<or> arg = ''~'' then (if username s = ''root'' then ''/root'' else ''/home/'' @ username s)
      else if arg = ''-'' then (case prev_cwd s of None \<Rightarrow> cwd s | Some d \<Rightarrow> d)
      else if startswith arg ''/'' then arg
      else if arg = ''..'' then
        (let up = py_join ''/'' (butlast (split_on (CHR ''/'') base)) in if up = [] then ''/'' else up)
      else if base \<noteq> [] then base @ ''/'' @ arg else ''/'' @ arg)"

definition handle_cd :: "string \<Rightarrow> nat \<Rightarrow> nat \<Rightarrow> proto \<Rightarrow> proto" where
  "handle_cd arg jmin jmax s =
     (let d = rstrip_by (\<lambda>c. c = CHR ''/'') (new_cwd arg s) in
      show_prompt jmin jmax (s\<lparr>prev_cwd := Some (cwd s), cwd := (if d = [] then ''/'' else d)\<rparr>))"

definition try_fastpath :: "runtime \<Rightarrow> string \<Rightarrow> proto \<Rightarrow> bool \<times> proto" where
  "try_fastpath rt command s =
     (let stripped = py_strip command; prompt = show_prompt (cfg_jitter_min rt) (cfg_jitter_max rt) in
      if stripped = [] then (True, prompt s)
      else if \<not> is_simple stripped then (False, s)
      else
        let parts = split_ws1 stripped; cmd = hd parts; rest = (if length parts > 1 then parts ! 1 else []) in
        if cmd \<in> {''exit'', ''logout'', ''quit''} then
          (True, if user_stack (p_world s) \<noteq> [] then prompt (s\<lparr>p_world := snd (pop_user (p_world s))\<rparr>)
                 else if terminal_open s then emit LoseConnection s else s)
        else if cmd = ''clear'' then
          (True, prompt (if terminal_open s then emit CursorHome (emit EraseDisplay s) else s))
        else if cmd = ''pwd'' then (True, prompt (term_write (utf8 (cwd s @ [nl])) s))
        else if cmd = ''cd'' then (True, handle_cd (py_strip rest) (cfg_jitter_min rt) (cfg_jitter_max rt) s)
        else (False, s))"

section \<open>Full-screen programs\<close>

definition live_context :: "shell_context \<Rightarrow> proto \<Rightarrow> shell_context" where
  "live_context c s = c\<lparr>ctx_world := p_world s\<rparr>"

definition program_file_content :: "runtime \<Rightarrow> shell_context \<Rightarrow> string \<Rightarrow> string option" where
  "program_file_content rt c path =
     (let resolved = resolve_argument path c;
          recorded = (case map_of (files (ctx_world c)) resolved of None \<Rightarrow> [] | Some f \<Rightarrow> opt_or (content_snippet f)) in
      if recorded \<noteq> [] then Some recorded
      else case session_respond rt (''cat '' @ resolved) c of
        None \<Rightarrow> None
      | Some r \<Rightarrow>
          if res_output r \<noteq> [] \<and> \<not> str_in ''No such file'' (res_output r)
          then Some (rstrip_by (\<lambda>ch. ch = nl) (res_output r)) else None)"

definition top_provider :: "runtime \<Rightarrow> shell_context \<Rightarrow> string option" where
  "top_provider rt c =
     (case session_respond rt ''top -bn1'' c of Some r \<Rightarrow> Some (res_output r) | None \<Rightarrow> Some (''top - load average: 0.00'' @ [nl]))"

definition render_initial :: "runtime \<Rightarrow> shell_context \<Rightarrow> program \<Rightarrow> bytestr" where
  "render_initial rt c prog =
     (case prog of
        TopProgram \<Rightarrow> top_render_initial (top_provider rt c)
      | ViProgram v \<Rightarrow> vi_render_initial v
      | LessProgram l \<Rightarrow> less_render_initial l)"

definition schedule_program_refresh :: "proto \<Rightarrow> proto" where
  "schedule_program_refresh s =
     (case running s of
        Some (TopProgram, _) \<Rightarrow> (emit RefreshTimer s)\<lparr>refresh_pending := True\<rparr>
      | _ \<Rightarrow> s)"

definition try_interactive :: "runtime \<Rightarrow> string \<Rightarrow> proto \<Rightarrow> bool \<times> proto" where
  "try_interactive rt command s =
     (if \<not> terminal_open s \<or> \<not> cfg_interactive_programs rt then (False, s)
      else
        let c = shell_context s; nrows = (if window_rows s = 0 then 24 else window_rows s) in
        (case make_program command (Some (program_file_content rt c)) True True nrows of
           None \<Rightarrow> (False, s)
         | Some prog \<Rightarrow>
             (True, schedule_program_refresh (term_write (render_initial rt c prog) (s\<lparr>running := Some (prog, c)\<rparr>)))))"

definition exit_program :: "proto \<Rightarrow> proto" where
  "exit_program s =
     show_prompt 0 0 ((if refresh_pending s then emit CancelRefresh s else s)\<lparr>refresh_pending := False, running := None\<rparr>)"

definition do_program_refresh :: "runtime \<Rightarrow> proto \<Rightarrow> proto" where
  "do_program_refresh rt s0 =
     (let s = s0\<lparr>refresh_pending := False\<rparr> in
      case running s of
        None \<Rightarrow> s
      | Some (prog, c) \<Rightarrow>
          if \<not> terminal_open s then s
          else schedule_program_refresh
            (term_write (case prog of TopProgram \<Rightarrow> top_on_refresh (top_provider rt (live_context c s)) | _ \<Rightarrow> []) s))"

definition persist_editor_save :: "runtime \<Rightarrow> shell_context \<Rightarrow> string \<times> string \<Rightarrow> proto \<Rightarrow> proto" where
  "persist_editor_save rt c save s =
     (case save of (path, body) \<Rightarrow>
        let resolved = resolve_argument path (live_context c s) in
        emit (Log ''cowrie.llm.editor_save'' [resolved, str_of_nat (length body)])
          (s\<lparr>p_world := add_file (host_now (rt_host rt)) resolved (utf8_len body) None Edited None (Some body) (p_world s)\<rparr>))"

definition finish_key :: "key_result \<Rightarrow> proto \<Rightarrow> proto" where
  "finish_key r s =
     (let s1 = (if kr_output r \<noteq> [] then term_write (kr_output r) s else s) in
      if kr_done r then exit_program s1 else s1)"

definition keystroke_received :: "runtime \<Rightarrow> bytestr \<Rightarrow> proto \<Rightarrow> proto" where
  "keystroke_received rt key s =
     (case running s of
        None \<Rightarrow> s
      | Some (TopProgram, c) \<Rightarrow> finish_key (top_handle_key (top_provider rt (live_context c s)) key) s
      | Some (LessProgram l, c) \<Rightarrow>
          (case less_handle_key l key of (l', r) \<Rightarrow> finish_key r (s\<lparr>running := Some (LessProgram l', c)\<rparr>))
      | Some (ViProgram v, c) \<Rightarrow>
          (case vi_handle_key v key of
             None \<Rightarrow> exit_program s
           | Some (v', r) \<Rightarrow>
               finish_key r (fold (persist_editor_save rt c) (drop (length (saves v)) (saves v'))
                 (s\<lparr>running := Some (ViProgram v', c)\<rparr>))))"

section \<open>Dispatch\<close>

definition dispatch_one :: "runtime \<Rightarrow> string \<Rightarrow> proto \<Rightarrow> proto" where
  "dispatch_one rt line s =
     (case try_fastpath rt line s of
        (True, s1) \<Rightarrow> s1
      | (False, s1) \<Rightarrow>
          (case try_deterministic rt line (apply_input_mutations rt line s1) of
             (True, s2) \<Rightarrow> s2
           | (False, s2) \<Rightarrow>
               (case try_interactive rt line s2 of
                  (True, s3) \<Rightarrow> s3
                | (False, s3) \<Rightarrow>
                    (case try_download_intercept rt line s3 of
                       (Declined, s4) \<Rightarrow> snd (process_command_with_llm rt line None s4)
                     | (_, s4) \<Rightarrow> s4))))"

text \<open>The verdict, whether the command succeeded, and the state; the responder's switch is not consulted here.\<close>

definition dispatch_local :: "runtime \<Rightarrow> string \<Rightarrow> proto \<Rightarrow> verdict \<times> bool \<times> proto" where
  "dispatch_local rt command s =
     (case try_fastpath rt command s of
        (True, s1) \<Rightarrow> (Handled, True, s1)
      | (False, s1) \<Rightarrow>
          let s2 = apply_input_mutations rt command s1 in
          (case session_respond rt command (shell_context s2) of
             Some r \<Rightarrow> (Handled, \<not> is_error r, emit_deterministic rt command r s2)
           | None \<Rightarrow>
               (case try_interactive rt command s2 of
                  (True, s3) \<Rightarrow> (Handled, True, s3)
                | (False, s3) \<Rightarrow> (case try_download_intercept rt command s3 of (v, s4) \<Rightarrow> (v, True, s4)))))"

text \<open>What is handed to the model: the segment and everything after it.\<close>

definition remainder :: "string \<Rightarrow> (string \<times> string) list \<Rightarrow> string" where
  "remainder command rest = command @ concat (map (\<lambda>(op, cmd). '' '' @ op @ '' '' @ cmd) rest)"

fun chain_segments :: "runtime \<Rightarrow> (string \<times> string) list \<Rightarrow> bool \<Rightarrow> proto \<Rightarrow> proto" where
  "chain_segments rt [] succeeded s = show_prompt 0 0 s"
| "chain_segments rt ((op, command) # rest) succeeded s =
     (if \<not> should_run op succeeded then chain_segments rt rest True s
      else case dispatch_local rt command (s\<lparr>suppress_prompt := True\<rparr>) of
        (v, ok, s1) \<Rightarrow>
          let s2 = s1\<lparr>suppress_prompt := False\<rparr> in
          (case v of
             Handled \<Rightarrow> chain_segments rt rest ok s2
           | Raised \<Rightarrow> s2
           | Declined \<Rightarrow> snd (process_command_with_llm rt (remainder command rest) None
               (apply_input_mutations rt (remainder command rest) s2))))"

definition dispatch_chain :: "runtime \<Rightarrow> (string \<times> string) list \<Rightarrow> proto \<Rightarrow> proto" where
  "dispatch_chain rt segs s = chain_segments rt segs True s"

definition line_received :: "runtime \<Rightarrow> string \<Rightarrow> proto \<Rightarrow> proto" where
  "line_received rt line s =
     (let s1 = emit_attack_techniques rt line (emit (Log ''cowrie.command.input'' [line]) s) in
      case split_chain line of
        Some segs \<Rightarrow> if length segs > 1 then dispatch_chain rt segs s1 else dispatch_one rt line s1
      | None \<Rightarrow> dispatch_one rt line s1)"

section \<open>Life cycle\<close>

definition connection_made ::
  "runtime \<Rightarrow> rng \<Rightarrow> string \<Rightarrow> string \<Rightarrow> string \<Rightarrow> string \<Rightarrow> string \<Rightarrow> string \<Rightarrow> string \<Rightarrow> nat \<Rightarrow> proto" where
  "connection_made rt randint user host ip ip6 fake real_ip override nrows =
     (let p = (case pick_persona real_ip override of Inr q \<Rightarrow> q | Inl _ \<Rightarrow> hd PERSONAS) in
        \<lparr>username = user, p_hostname = host, kippo_ip = ip, kippo_ip6 = ip6,
         p_client_ip = fake, real_client_ip = real_ip, p_persona = p,
         p_boot_time = roll_boot_time randint (host_now (rt_host rt)) p real_ip, window_rows = nrows, terminal_open = True,
         cwd = ''/'', prev_cwd = None, p_world = new_world, suppress_prompt = False, command_count = 0,
         budget_logged = False, session_tokens = 0, turns_without_usage = 0, token_budget_logged = False,
         command_history = [], last_llm_command = [], pending_claim = [], running = None, refresh_pending = False, out = []\<rparr>)"

definition open_session ::
  "runtime \<Rightarrow> rng \<Rightarrow> string \<Rightarrow> string \<Rightarrow> string \<Rightarrow> string \<Rightarrow> string \<Rightarrow> string \<Rightarrow> string \<Rightarrow> nat \<Rightarrow> proto" where
  "open_session rt randint user host ip ip6 fake real_ip override nrows =
     show_prompt 0 0 (emit (Write (utf8 (''Welcome to '' @ host @ [nl])))
       (connection_made rt randint user host ip ip6 fake real_ip override nrows))"

definition connection_lost :: "proto \<Rightarrow> proto" where
  "connection_lost s =
     (if refresh_pending s then emit CancelRefresh s else s)\<lparr>refresh_pending := False, running := None, terminal_open := False\<rparr>"

definition timeout_connection :: "proto \<Rightarrow> proto" where
  "timeout_connection s =
     (if terminal_open s then emit (ProcessEnded 1) (term_write (''timed out waiting for input: auto-logout'' @ [nl]) s)
      else emit (Raise ''AssertionError'') s)"

definition eof_received :: "proto \<Rightarrow> proto" where
  "eof_received s = emit (if terminal_open s then ProcessEnded 0 else Raise ''AttributeError'') s"

datatype event =
    Line string
  | Key bytestr
  | RefreshFired
  | PromptFired
  | Chunk string
  | Answer string "(string, nat) dict"
  | AnswerFailed string
  | FetchDone download_intent string fetch_result
  | FetchFailed string
  | IdleTimeout
  | Eof
  | Lost

definition handle :: "runtime \<Rightarrow> event \<Rightarrow> proto \<Rightarrow> proto" where
  "handle rt e s =
     (case e of
        Line line \<Rightarrow> line_received rt line s
      | Key key \<Rightarrow> keystroke_received rt key s
      | RefreshFired \<Rightarrow> do_program_refresh rt s
      | PromptFired \<Rightarrow> write_prompt_safe s
      | Chunk t \<Rightarrow> on_stream_chunk t s
      | Answer response usage \<Rightarrow> handle_llm_response rt response usage (cfg_stream rt) s
      | AnswerFailed err \<Rightarrow> handle_llm_error err s
      | FetchDone i command r \<Rightarrow> on_fetch_result rt i command r s
      | FetchFailed err \<Rightarrow> handle_llm_error err s
      | IdleTimeout \<Rightarrow> timeout_connection s
      | Eof \<Rightarrow> eof_received s
      | Lost \<Rightarrow> connection_lost s)"

definition run_events :: "runtime \<Rightarrow> event list \<Rightarrow> proto \<Rightarrow> proto" where
  "run_events rt es s = fold (handle rt) es s"

section \<open>Lemmas\<close>

subsection \<open>Effects leave the rest of the state alone\<close>

lemma emit_simps [simp]:
  "p_world (emit e s) = p_world s" "command_count (emit e s) = command_count s" "terminal_open (emit e s) = terminal_open s"
  "suppress_prompt (emit e s) = suppress_prompt s" "cwd (emit e s) = cwd s" "username (emit e s) = username s"
  "running (emit e s) = running s" "pending_claim (emit e s) = pending_claim s" "out (emit e s) = out s @ [e]"
  "command_history (emit e s) = command_history s" "p_hostname (emit e s) = p_hostname s"
  by (simp_all add: emit_def)

lemma term_write_core [simp]:
  "p_world (term_write bs s) = p_world s" "command_count (term_write bs s) = command_count s"
  "terminal_open (term_write bs s) = terminal_open s" "suppress_prompt (term_write bs s) = suppress_prompt s"
  by (simp_all add: term_write_def)

lemma write_prompt_safe_core [simp]:
  "p_world (write_prompt_safe s) = p_world s" "command_count (write_prompt_safe s) = command_count s"
  "terminal_open (write_prompt_safe s) = terminal_open s" "suppress_prompt (write_prompt_safe s) = suppress_prompt s"
  by (simp_all add: write_prompt_safe_def)

lemma show_prompt_core [simp]:
  "p_world (show_prompt a b s) = p_world s" "command_count (show_prompt a b s) = command_count s"
  "terminal_open (show_prompt a b s) = terminal_open s" "suppress_prompt (show_prompt a b s) = suppress_prompt s"
  by (simp_all add: show_prompt_def)

lemma refuse_turn_core [simp]:
  "p_world (refuse_turn s) = p_world s" "command_count (refuse_turn s) = command_count s"
  "terminal_open (refuse_turn s) = terminal_open s" "suppress_prompt (refuse_turn s) = suppress_prompt s"
  by (simp_all add: refuse_turn_def)

lemma schedule_program_refresh_core [simp]:
  "p_world (schedule_program_refresh s) = p_world s" "command_count (schedule_program_refresh s) = command_count s"
  "terminal_open (schedule_program_refresh s) = terminal_open s" "suppress_prompt (schedule_program_refresh s) = suppress_prompt s"
  by (simp_all add: schedule_program_refresh_def Let_def split: option.split program.split)

lemma exit_program_core [simp]:
  "p_world (exit_program s) = p_world s" "command_count (exit_program s) = command_count s"
  "terminal_open (exit_program s) = terminal_open s" "suppress_prompt (exit_program s) = suppress_prompt s"
  by (simp_all add: exit_program_def)

lemma record_usage_core [simp]:
  "p_world (record_usage u s) = p_world s" "command_count (record_usage u s) = command_count s"
  "terminal_open (record_usage u s) = terminal_open s" "suppress_prompt (record_usage u s) = suppress_prompt s"
  by (simp_all add: record_usage_def)

lemma token_budget_exhausted_core [simp]:
  "p_world (snd (token_budget_exhausted rt s)) = p_world s" "command_count (snd (token_budget_exhausted rt s)) = command_count s"
  "terminal_open (snd (token_budget_exhausted rt s)) = terminal_open s" "suppress_prompt (snd (token_budget_exhausted rt s)) = suppress_prompt s"
  by (simp_all add: token_budget_exhausted_def Let_def split: option.split program.split)

subsection \<open>Requests and prompts in the list of effects\<close>

fun is_generate :: "effect \<Rightarrow> bool" where
  "is_generate (Generate _ _) = True"
| "is_generate _ = False"

fun is_prompt :: "effect \<Rightarrow> bool" where
  "is_prompt (Prompt _) = True"
| "is_prompt (PromptTimer _ _) = True"
| "is_prompt _ = False"

abbreviation generated :: "proto \<Rightarrow> nat" where "generated s \<equiv> length (filter is_generate (out s))"

abbreviation prompts :: "proto \<Rightarrow> nat" where "prompts s \<equiv> length (filter is_prompt (out s))"

text \<open>No request is sent by anything but \<open>send_request\<close>, and only \<open>show_prompt\<close> draws prompts.\<close>

lemma generated_ops [simp]:
  "filter is_generate (out (term_write bs s)) = filter is_generate (out s)"
  "filter is_generate (out (write_prompt_safe s)) = filter is_generate (out s)"
  "filter is_generate (out (show_prompt a b s)) = filter is_generate (out s)"
  "filter is_generate (out (refuse_turn s)) = filter is_generate (out s)"
  "filter is_generate (out (schedule_program_refresh s)) = filter is_generate (out s)"
  "filter is_generate (out (exit_program s)) = filter is_generate (out s)"
  "filter is_generate (out (record_usage u s)) = filter is_generate (out s)"
  "filter is_generate (out (snd (token_budget_exhausted rt s))) = filter is_generate (out s)"
  by (simp_all add: term_write_def write_prompt_safe_def show_prompt_def refuse_turn_def schedule_program_refresh_def exit_program_def
      record_usage_def token_budget_exhausted_def Let_def split: option.split program.split)

lemma prompts_ops [simp]:
  "filter is_prompt (out (term_write bs s)) = filter is_prompt (out s)"
  "filter is_prompt (out (schedule_program_refresh s)) = filter is_prompt (out s)"
  "filter is_prompt (out (snd (token_budget_exhausted rt s))) = filter is_prompt (out s)"
  by (simp_all add: term_write_def schedule_program_refresh_def token_budget_exhausted_def Let_def split: option.split program.split)

lemma prompts_show:
  "prompts (show_prompt a b s) = prompts s + (if suppress_prompt s \<or> (b = 0 \<and> \<not> terminal_open s) then 0 else 1)"
  by (auto simp: show_prompt_def write_prompt_safe_def)

subsection \<open>The invariant\<close>

text \<open>The world is one the world-state operations can produce, and every request was paid for.\<close>

definition core_ok :: "runtime \<Rightarrow> proto \<Rightarrow> bool" where
  "core_ok rt s \<longleftrightarrow> world_reachable (p_world s) \<and> generated s \<le> command_count s \<and> generated s \<le> cfg_max_commands rt"

lemmas reach_claim = world_reachable.step [OF _ world_step.claim]
  and reach_add_file = world_reachable.step [OF _ world_step.file_added]
  and reach_remove_file = world_reachable.step [OF _ world_step.file_removed]
  and reach_add_env = world_reachable.step [OF _ world_step.env_set]
  and reach_process = world_reachable.step [OF _ world_step.process]
  and reach_push = world_reachable.step [OF _ world_step.push]
  and reach_pop = world_reachable.step [OF _ world_step.pop]
  and reach_limit = world_reachable.step [OF _ world_step.limit]

lemmas reach_ops = reach_claim reach_add_file reach_remove_file reach_add_env reach_process reach_push reach_pop reach_limit

lemma reach_mutation: "world_reachable w \<Longrightarrow> world_reachable (apply_mutation now login m w)"
  by (cases "kind m") (auto simp: apply_mutation_def Let_def split: option.split intro: reach_ops)

lemma reach_mutations: "world_reachable w \<Longrightarrow> world_reachable (fold (apply_mutation now login) ms w)"
  by (induction ms arbitrary: w) (auto intro: reach_mutation)

lemma core_ok_mutations: "core_ok rt s \<Longrightarrow> core_ok rt (apply_input_mutations rt' command s)"
  by (auto simp: core_ok_def apply_input_mutations_def intro: reach_mutations)

lemma core_ok_claim: "core_ok rt s \<Longrightarrow> core_ok rt (remember_claim rt' command ans src s)"
  by (auto simp: core_ok_def remember_claim_def split: option.split intro: reach_claim reach_limit)

lemma core_ok_attack: "core_ok rt s \<Longrightarrow> core_ok rt (emit_attack_techniques rt' command s)"
  by (simp add: core_ok_def emit_attack_techniques_def Let_def)

lemma core_ok_deterministic: "core_ok rt s \<Longrightarrow> core_ok rt (emit_deterministic rt' command r s)"
  unfolding emit_deterministic_def Let_def by (rule core_ok_claim) (simp add: core_ok_def)

lemma core_ok_respond:
  "core_ok rt s \<Longrightarrow> core_ok rt (snd (try_deterministic rt' command s))"
  by (simp add: try_deterministic_def core_ok_deterministic split: option.split)

text \<open>What the fast path can do, without its conditions.\<close>

lemma fastpath_shape:
  "let prompt = show_prompt (cfg_jitter_min rt) (cfg_jitter_max rt); r = try_fastpath rt command s in
   r = (False, s) \<or> r = (True, prompt s) \<or>
   r = (True, prompt (s\<lparr>p_world := snd (pop_user (p_world s))\<rparr>)) \<or>
   r = (True, if terminal_open s then emit LoseConnection s else s) \<or>
   r = (True, prompt (if terminal_open s then emit CursorHome (emit EraseDisplay s) else s)) \<or>
   r = (True, prompt (term_write (utf8 (cwd s @ [nl])) s)) \<or>
   (\<exists>d. r = (True, prompt (s\<lparr>prev_cwd := Some (cwd s), cwd := d\<rparr>)))"
  unfolding try_fastpath_def handle_cd_def Let_def by (simp only: split: if_split) blast

lemma core_ok_fastpath: "core_ok rt s \<Longrightarrow> core_ok rt (snd (try_fastpath rt' command s))"
  using fastpath_shape [of rt' command s] unfolding Let_def
  by (elim disjE exE) (simp_all add: core_ok_def reach_pop)

lemma core_ok_interactive: "core_ok rt s \<Longrightarrow> core_ok rt (snd (try_interactive rt' command s))"
  by (simp add: core_ok_def try_interactive_def Let_def split: option.split)

lemma core_ok_download: "core_ok rt s \<Longrightarrow> core_ok rt (snd (try_download_intercept rt' command s))"
  by (simp add: core_ok_def try_download_intercept_def split: sum.split option.split)

lemma core_ok_process: "core_ok rt s \<Longrightarrow> core_ok rt (snd (process_command_with_llm rt command obs s))"
  by (auto simp: core_ok_def process_command_with_llm_def send_request_def token_budget_exhausted_def Let_def
      split: option.split bool.split)

lemma core_ok_suppress [simp]: "core_ok rt (s\<lparr>suppress_prompt := b\<rparr>) = core_ok rt s"
  by (simp add: core_ok_def)

lemma core_ok_show [simp]: "core_ok rt (show_prompt a b s) = core_ok rt s"
  by (simp add: core_ok_def)

text \<open>A reply: something that brings the session on. A request and a fetch are answered by later events.\<close>

fun is_reply :: "effect \<Rightarrow> bool" where
  "is_reply (Prompt _) = True"
| "is_reply (PromptTimer _ _) = True"
| "is_reply (Generate _ _) = True"
| "is_reply (StartFetch _ _) = True"
| "is_reply LoseConnection = True"
| "is_reply (Raise _) = True"
| "is_reply _ = False"

abbreviation replies :: "proto \<Rightarrow> nat" where "replies s \<equiv> length (filter is_reply (out s))"

lemma replies_ops [simp]:
  "filter is_reply (out (term_write bs s)) = filter is_reply (out s)"
  "filter is_reply (out (schedule_program_refresh s)) = filter is_reply (out s)"
  "filter is_reply (out (snd (token_budget_exhausted rt s))) = filter is_reply (out s)"
  "filter is_reply (out (emit_attack_techniques rt command s)) = filter is_reply (out s)"
  "filter is_reply (out (record_usage u s)) = filter is_reply (out s)"
  by (simp_all add: term_write_def schedule_program_refresh_def token_budget_exhausted_def emit_attack_techniques_def record_usage_def
      Let_def split: option.split program.split)

lemma replies_show:
  "replies (show_prompt a b s) = replies s + (if suppress_prompt s \<or> (b = 0 \<and> \<not> terminal_open s) then 0 else 1)"
  by (auto simp: show_prompt_def write_prompt_safe_def)

subsection \<open>The stages of the dispatch\<close>

text \<open>
  What the dispatcher relies on in each of its stages: the invariant is kept, and while prompts are
  suppressed none is drawn and the suppression stays.
\<close>

lemma suppress_ops [simp]:
  "suppress_prompt (apply_input_mutations rt command s) = suppress_prompt s"
  "terminal_open (apply_input_mutations rt command s) = terminal_open s"
  "out (apply_input_mutations rt command s) = out s"
  "suppress_prompt (remember_claim rt command ans src s) = suppress_prompt s"
  "terminal_open (remember_claim rt command ans src s) = terminal_open s"
  "out (remember_claim rt command ans src s) = out s"
  by (simp_all add: apply_input_mutations_def remember_claim_def split: option.split)

lemma emit_deterministic_core:
  "suppress_prompt (emit_deterministic rt command r s) = suppress_prompt s"
  "terminal_open (emit_deterministic rt command r s) = terminal_open s"
  "suppress_prompt s \<Longrightarrow> filter is_prompt (out (emit_deterministic rt command r s)) = filter is_prompt (out s)"
  by (simp_all add: emit_deterministic_def Let_def show_prompt_def)

lemma emit_deterministic_grows: "replies s \<le> replies (emit_deterministic rt command r s)"
  by (simp add: emit_deterministic_def Let_def replies_show)

locale dispatch_stage =
  fixes rt :: runtime and stage :: "string \<Rightarrow> proto \<Rightarrow> 'v \<times> proto"
  assumes keeps: "core_ok rt s \<Longrightarrow> core_ok rt (snd (stage c s))"
    and core: "suppress_prompt (snd (stage c s)) = suppress_prompt s" "terminal_open (snd (stage c s)) = terminal_open s"
    and quiet: "suppress_prompt s \<Longrightarrow> prompts (snd (stage c s)) = prompts s"
    and grows: "replies s \<le> replies (snd (stage c s))"
begin

lemma ok: "stage c s = (v, t) \<Longrightarrow> core_ok rt s \<Longrightarrow> core_ok rt t"
  using keeps [of s c] by simp

lemma silent: "stage c s = (v, t) \<Longrightarrow> suppress_prompt s \<Longrightarrow>
  suppress_prompt t \<and> terminal_open t = terminal_open s \<and> prompts t = prompts s"
  using quiet [of s c] core [of c s] by simp

lemma prompting: "stage c s = (v, t) \<Longrightarrow> suppress_prompt t = suppress_prompt s \<and> terminal_open t = terminal_open s"
  using core [of c s] by simp

lemma more: "stage c s = (v, t) \<Longrightarrow> replies s \<le> replies t"
  using grows [of s c] by simp

end

interpretation fastpath: dispatch_stage rt "try_fastpath rt" for rt
proof unfold_locales
  show "suppress_prompt s \<Longrightarrow> prompts (snd (try_fastpath rt c s)) = prompts s" for c s
    using fastpath_shape [of rt c s] unfolding Let_def by (elim disjE exE) (simp_all add: show_prompt_def)
  show "suppress_prompt (snd (try_fastpath rt c s)) = suppress_prompt s" for c s
    using fastpath_shape [of rt c s] unfolding Let_def by (elim disjE exE) simp_all
  show "terminal_open (snd (try_fastpath rt c s)) = terminal_open s" for c s
    using fastpath_shape [of rt c s] unfolding Let_def by (elim disjE exE) simp_all
  show "replies s \<le> replies (snd (try_fastpath rt c s))" for c s
    using fastpath_shape [of rt c s] unfolding Let_def by (elim disjE exE) (simp_all add: replies_show)
qed (simp add: core_ok_fastpath)

interpretation deterministic: dispatch_stage rt "try_deterministic rt" for rt
  by unfold_locales (simp_all add: core_ok_respond, simp_all add: try_deterministic_def emit_deterministic_core emit_deterministic_grows
      split: option.split)

interpretation interactive: dispatch_stage rt "try_interactive rt" for rt
  by unfold_locales (simp_all add: core_ok_interactive, simp_all add: try_interactive_def Let_def split: option.split)

interpretation download: dispatch_stage rt "try_download_intercept rt" for rt
  by unfold_locales (simp_all add: core_ok_download, simp_all add: try_download_intercept_def split: sum.split option.split)

lemma core_ok_dispatch_one: "core_ok rt s \<Longrightarrow> core_ok rt (dispatch_one rt line s)"
  unfolding dispatch_one_def
  by (auto split: prod.split bool.split verdict.split
      dest!: fastpath.ok deterministic.ok interactive.ok download.ok intro: core_ok_mutations core_ok_process)

lemma core_ok_dispatch_local:
  "dispatch_local rt command s = (v, ok, t) \<Longrightarrow> core_ok rt s \<Longrightarrow> core_ok rt t"
  unfolding dispatch_local_def Let_def
  by (auto split: prod.splits bool.splits option.splits
      dest!: fastpath.ok interactive.ok download.ok intro: core_ok_mutations core_ok_deterministic)

lemma dispatch_local_silent:
  "dispatch_local rt command s = (v, ok, t) \<Longrightarrow> suppress_prompt s \<Longrightarrow>
   terminal_open t = terminal_open s \<and> prompts t = prompts s"
  unfolding dispatch_local_def Let_def
  by (auto split: prod.splits bool.splits option.splits simp: emit_deterministic_core
      dest!: fastpath.silent interactive.silent download.silent)

lemma core_ok_chain: "core_ok rt s \<Longrightarrow> core_ok rt (chain_segments rt segs ok s)"
proof (induction rt segs ok s rule: chain_segments.induct)
  case (2 rt op command rest ok s)
  obtain v ok' t where d: "dispatch_local rt command (s\<lparr>suppress_prompt := True\<rparr>) = (v, ok', t)" by (metis prod_cases3)
  have "core_ok rt t" using core_ok_dispatch_local [OF d] 2(3) by simp
  then show ?case using 2 d by (auto simp: Let_def core_ok_process core_ok_mutations split: verdict.split)
qed simp

lemma core_ok_line: "core_ok rt s \<Longrightarrow> core_ok rt (line_received rt line s)"
proof -
  assume "core_ok rt s"
  then have "core_ok rt (emit_attack_techniques rt line (emit (Log ''cowrie.command.input'' [line]) s))"
    by (intro core_ok_attack) (simp add: core_ok_def)
  then show ?thesis
    by (simp add: line_received_def dispatch_chain_def Let_def core_ok_chain core_ok_dispatch_one split: option.split)
qed

lemma core_ok_saves: "core_ok rt s \<Longrightarrow> core_ok rt (fold (persist_editor_save rt' c) saved s)"
proof (induction saved arbitrary: s)
  case (Cons p ps)
  have "core_ok rt (persist_editor_save rt' c p s)"
    using Cons.prems by (cases p) (auto simp: persist_editor_save_def core_ok_def Let_def intro: reach_add_file)
  then show ?case using Cons.IH by simp
qed simp

lemma core_ok_finish: "core_ok rt s \<Longrightarrow> core_ok rt (finish_key r s)"
  by (simp add: finish_key_def core_ok_def Let_def)

lemma core_ok_running [simp]: "core_ok rt (s\<lparr>running := x\<rparr>) = core_ok rt s"
  by (simp add: core_ok_def)

lemma core_ok_key: "core_ok rt s \<Longrightarrow> core_ok rt (keystroke_received rt' key s)"
proof -
  assume ok: "core_ok rt s"
  have "core_ok rt (exit_program s)" using ok by (simp add: core_ok_def)
  then show ?thesis using ok
    by (auto simp: keystroke_received_def core_ok_finish core_ok_saves split: option.split prod.split program.split)
qed

lemma core_ok_pending: "core_ok rt (s\<lparr>pending_claim := x\<rparr>) = core_ok rt s"
  by (simp add: core_ok_def)

lemma core_ok_answer: "core_ok rt s \<Longrightarrow> core_ok rt (handle_llm_response rt' response usage streamed s)"
proof -
  assume ok: "core_ok rt s"
  have flush: "core_ok rt u \<Longrightarrow> core_ok rt (flush_claim rt' u)" for u
    unfolding flush_claim_def using core_ok_claim [of rt "u\<lparr>pending_claim := []\<rparr>"] by (simp add: core_ok_pending)
  have "core_ok rt u \<Longrightarrow> core_ok rt (show_answer response streamed u)" for u
    by (simp add: show_answer_def core_ok_def Let_def split: prod.split)
  then show ?thesis using ok flush by (simp add: handle_llm_response_def Let_def) (simp add: core_ok_def)
qed

lemma core_ok_error: "core_ok rt s \<Longrightarrow> core_ok rt (handle_llm_error err s)"
  by (simp add: handle_llm_error_def core_ok_def Let_def)

lemma core_ok_fetched: "core_ok rt s \<Longrightarrow> core_ok rt (on_fetch_result rt i command r s)"
proof -
  assume ok: "core_ok rt s"
  define t where "t = (if (outcome r = ''success'' \<or> outcome r = ''partial'') \<and> opt_or (outfile i) \<noteq> [] then
                  s\<lparr>p_world := add_file (host_now (rt_host rt)) (opt_or (outfile i)) (bytes_downloaded r) (res_sha256 r)
                     Downloaded (Some (res_url r)) None (p_world s)\<rparr> else s)"
  have "core_ok rt t" using ok by (auto simp: t_def core_ok_def intro: reach_add_file)
  then have "core_ok rt (snd (process_command_with_llm rt command (Some (render_observation i r)) t))" by (rule core_ok_process)
  then show ?thesis unfolding on_fetch_result_def Let_def t_def [symmetric]
    by (auto simp: core_ok_error split: prod.split verdict.split)
qed

lemma core_ok_handle: "core_ok rt s \<Longrightarrow> core_ok rt (handle rt e s)"
proof (cases e)
  case RefreshFired
  then show "core_ok rt s \<Longrightarrow> ?thesis"
    by (auto simp: handle_def do_program_refresh_def core_ok_def Let_def split: option.split)
qed (auto simp: handle_def core_ok_line core_ok_key core_ok_answer core_ok_error core_ok_fetched,
     simp_all add: core_ok_def on_stream_chunk_def connection_lost_def timeout_connection_def eof_received_def)

lemma core_ok_run: "core_ok rt s \<Longrightarrow> core_ok rt (run_events rt es s)"
  unfolding run_events_def by (induction es arbitrary: s) (auto intro: core_ok_handle)

lemma core_ok_open: "core_ok rt (open_session rt randint user nm ip ip6 fake peer override nrows)"
  by (simp add: open_session_def connection_made_def core_ok_def Let_def world_reachable.start)

subsection \<open>Every line is answered\<close>

text \<open>A state in which a prompt can be drawn.\<close>

definition ready :: "proto \<Rightarrow> bool" where "ready s \<longleftrightarrow> terminal_open s \<and> \<not> suppress_prompt s"

lemma ready_ops [simp]:
  "ready (emit e s) = ready s" "ready (term_write bs s) = ready s" "ready (apply_input_mutations rt command s) = ready s"
  "ready (emit_attack_techniques rt command s) = ready s" "ready (record_usage u s) = ready s"
  by (simp_all add: ready_def emit_attack_techniques_def Let_def)

lemma replies_show_ready [simp]: "ready s \<Longrightarrow> replies (show_prompt a b s) = replies s + 1"
  by (simp add: replies_show ready_def)

lemma fastpath_replies: "try_fastpath rt line s = (True, t) \<Longrightarrow> ready s \<Longrightarrow> replies t > replies s"
  using fastpath_shape [of rt line s] unfolding Let_def by (elim disjE exE) (auto simp: replies_show ready_def)

lemma deterministic_replies: "try_deterministic rt line s = (True, t) \<Longrightarrow> ready s \<Longrightarrow> replies t > replies s"
  by (auto simp: try_deterministic_def emit_deterministic_def Let_def replies_show ready_def split: if_splits option.splits)

lemma interactive_takes_over: "try_interactive rt line s = (True, t) \<Longrightarrow> running t \<noteq> None"
  by (auto simp: try_interactive_def schedule_program_refresh_def term_write_def Let_def split: if_splits option.splits program.splits)

lemma download_replies: "try_download_intercept rt line s = (v, t) \<Longrightarrow> v \<noteq> Declined \<Longrightarrow> replies t > replies s"
  by (auto simp: try_download_intercept_def split: if_splits option.splits sum.splits)

lemma process_replies: "ready s \<Longrightarrow> replies (snd (process_command_with_llm rt line obs s)) > replies s"
  by (auto simp: process_command_with_llm_def send_request_def refuse_turn_def token_budget_exhausted_def ready_def replies_show Let_def
      split: option.split bool.split)

lemma declined_unchanged:
  "try_fastpath rt line s = (False, t) \<Longrightarrow> t = s" "try_deterministic rt line s = (False, t) \<Longrightarrow> t = s"
  "try_interactive rt line s = (False, t) \<Longrightarrow> t = s" "try_download_intercept rt line s = (Declined, t) \<Longrightarrow> t = s"
  by (auto simp: try_fastpath_def try_deterministic_def try_interactive_def try_download_intercept_def Let_def
      split: if_splits option.splits sum.splits)

lemma dispatch_one_replies:
  assumes "ready s"
  shows "replies (dispatch_one rt line s) > replies s \<or> running (dispatch_one rt line s) \<noteq> None"
proof (cases "fst (try_fastpath rt line s)")
  case True
  then obtain t where "try_fastpath rt line s = (True, t)" by (metis prod.collapse)
  then show ?thesis using fastpath_replies assms by (simp add: dispatch_one_def)
next
  case False
  then have f: "try_fastpath rt line s = (False, s)" using declined_unchanged(1) by (metis prod.collapse)
  define u where "u = apply_input_mutations rt line s"
  have u: "ready u" "replies u = replies s" using assms by (simp_all add: u_def)
  obtain b1 u1 where d: "try_deterministic rt line u = (b1, u1)" by fastforce
  obtain b2 u2 where i: "try_interactive rt line u = (b2, u2)" by fastforce
  obtain v u3 where w: "try_download_intercept rt line u = (v, u3)" by fastforce
  show ?thesis
    using f d i w u declined_unchanged(2) [of rt line u] declined_unchanged(3) [of rt line u] declined_unchanged(4) [of rt line u]
      deterministic_replies [of rt line u] interactive_takes_over [of rt line u] download_replies [of rt line u]
      process_replies [of u rt line None]
    by (cases b1; cases b2; cases v) (auto simp: dispatch_one_def u_def [symmetric])
qed

lemma dispatch_local_replies:
  assumes "dispatch_local rt command s = (v, ok, t)"
  shows "replies s \<le> replies t \<and> (v = Raised \<longrightarrow> replies s < replies t)"
proof -
  define u where "u = apply_input_mutations rt command s"
  have u: "replies u = replies s" by (simp add: u_def)
  show ?thesis
    using assms u declined_unchanged(1) [of rt command s] declined_unchanged(3) [of rt command u]
      fastpath.more [of rt command s] interactive.more [of rt command u] download.more [of rt command u]
      download_replies [of rt command u] emit_deterministic_grows [of u rt command]
    unfolding dispatch_local_def
    by (auto simp: Let_def u_def [symmetric] split: prod.splits bool.splits option.splits)
qed

lemma chain_replies: "ready s \<Longrightarrow> replies (chain_segments rt segs ok s) > replies s"
proof (induction rt segs ok s rule: chain_segments.induct)
  case (2 rt op command rest ok s)
  obtain v ok' t where d: "dispatch_local rt command (s\<lparr>suppress_prompt := True\<rparr>) = (v, ok', t)" by (metis prod_cases3)
  define u where "u = t\<lparr>suppress_prompt := False\<rparr>"
  have "ready u" using dispatch_local_silent [OF d] 2(3) by (simp add: u_def ready_def)
  moreover have "replies s \<le> replies u" "v = Raised \<Longrightarrow> replies s < replies u" using dispatch_local_replies [OF d] by (simp_all add: u_def)
  ultimately show ?case
    using 2 d process_replies [of "apply_input_mutations rt (remainder command rest) u" rt "remainder command rest" None]
    by (auto simp: Let_def u_def [symmetric] split: verdict.split intro: le_less_trans)
qed simp

subsection \<open>The session stays ready\<close>

lemma process_ready: "ready s \<Longrightarrow> ready (snd (process_command_with_llm rt command obs s))"
  by (auto simp: process_command_with_llm_def send_request_def token_budget_exhausted_def ready_def Let_def
      split: option.split bool.split)

lemma ready_show [simp]: "ready (show_prompt a b s) = ready s"
  by (simp add: ready_def)

lemma dispatch_one_ready: "ready s \<Longrightarrow> ready (dispatch_one rt line s)"
  unfolding dispatch_one_def ready_def
  by (auto split: prod.split bool.split verdict.split simp: process_ready [unfolded ready_def]
      dest!: fastpath.prompting deterministic.prompting interactive.prompting download.prompting)

lemma chain_ready: "ready s \<Longrightarrow> ready (chain_segments rt segs ok s)"
proof (induction rt segs ok s rule: chain_segments.induct)
  case (2 rt op command rest ok s)
  obtain v ok' t where d: "dispatch_local rt command (s\<lparr>suppress_prompt := True\<rparr>) = (v, ok', t)" by (metis prod_cases3)
  have "ready (t\<lparr>suppress_prompt := False\<rparr>)" using dispatch_local_silent [OF d] 2(3) by (simp add: ready_def)
  then show ?case using 2 d by (auto simp: Let_def process_ready split: verdict.split)
qed simp

lemma saves_ready: "ready s \<Longrightarrow> ready (fold (persist_editor_save rt c) saved s)"
proof (induction saved arbitrary: s)
  case (Cons p ps)
  have "ready (persist_editor_save rt c p s)" using Cons.prems by (cases p) (simp add: persist_editor_save_def ready_def Let_def)
  then show ?case using Cons.IH by simp
qed simp

lemma key_ready: "ready s \<Longrightarrow> ready (keystroke_received rt key s)"
proof -
  assume s: "ready s"
  have "ready u \<Longrightarrow> ready (finish_key r u)" for r u by (simp add: finish_key_def ready_def Let_def)
  moreover have "ready (exit_program s)" "ready (s\<lparr>running := x\<rparr>)" for x using s by (simp_all add: ready_def)
  ultimately show ?thesis using s saves_ready
    by (auto simp: keystroke_received_def split: option.split prod.split program.split)
qed

lemma answer_ready: "ready s \<Longrightarrow> ready (handle_llm_response rt response usage streamed s)"
  by (simp add: handle_llm_response_def flush_claim_def show_answer_def ready_def Let_def split: prod.split)

lemma fetched_ready: "ready s \<Longrightarrow> ready (on_fetch_result rt i command r s)"
proof -
  assume "ready s"
  then have "ready (snd (process_command_with_llm rt command (Some (render_observation i r)) u))" if "ready u" for u
    using that by (simp add: process_ready)
  moreover have "ready u \<Longrightarrow> ready (handle_llm_error err u)" for err u by (simp add: handle_llm_error_def Let_def)
  moreover have "ready (s\<lparr>p_world := w\<rparr>)" for w using \<open>ready s\<close> by (simp add: ready_def)
  ultimately show ?thesis using \<open>ready s\<close> unfolding on_fetch_result_def Let_def
    by (auto split: prod.split verdict.split if_split) (metis snd_conv)+
qed

lemma handle_ready: "ready s \<Longrightarrow> e \<noteq> Lost \<Longrightarrow> ready (handle rt e s)"
proof (cases e)
  case (Line x1)
  then show "ready s \<Longrightarrow> ?thesis"
    by (simp add: handle_def line_received_def dispatch_chain_def Let_def chain_ready dispatch_one_ready split: option.split)
next
  case RefreshFired
  then show "ready s \<Longrightarrow> ?thesis" by (auto simp: handle_def do_program_refresh_def ready_def Let_def split: option.split)
qed (auto simp: handle_def key_ready answer_ready fetched_ready handle_llm_error_def Let_def on_stream_chunk_def
       timeout_connection_def eof_received_def, simp_all add: ready_def)

lemma run_ready: "ready s \<Longrightarrow> Lost \<notin> set es \<Longrightarrow> ready (run_events rt es s)"
  unfolding run_events_def
proof (induction es arbitrary: s)
  case (Cons e es)
  have "ready (handle rt e s)" using Cons.prems by (intro handle_ready) auto
  then show ?case using Cons.IH Cons.prems(2) by simp
qed simp

lemma open_ready: "ready (open_session rt randint user nm ip ip6 fake peer override nrows)"
  by (simp add: open_session_def connection_made_def ready_def Let_def)

lemma process_world: "p_world (snd (process_command_with_llm rt command obs s)) = p_world s"
  by (simp add: process_command_with_llm_def send_request_def token_budget_exhausted_def Let_def split: option.split bool.split)

section \<open>Properties\<close>


text \<open>C2: The cost cap holds: no sequence of events makes a session send more requests to the model than the
  configured number of commands.\<close>

theorem session_budget:
  "length (filter is_generate (out (run_events rt es (open_session rt randint user nm ip ip6 fake peer override nrows))))
     \<le> cfg_max_commands rt"
  using core_ok_run [OF core_ok_open] by (simp add: core_ok_def)

definition in_program :: "proto \<Rightarrow> bool" where
  "in_program s \<longleftrightarrow> running s \<noteq> None"

text \<open>C3: No line leaves the client hanging: in a session that is still connected, entering a line draws or schedules
  a prompt, sends a request to the model, starts a fetch, closes the connection, raises, or leaves a full-screen
  program running.\<close>

theorem line_never_hangs:
  assumes "Lost \<notin> set es" "s = run_events rt es (open_session rt randint user nm ip ip6 fake peer override nrows)"
  shows "length (filter is_reply (out (line_received rt line s))) > length (filter is_reply (out s)) \<or>
    in_program (line_received rt line s)"
proof -
  define t where "t = emit_attack_techniques rt line (emit (Log ''cowrie.command.input'' [line]) s)"
  have "ready s" using run_ready [OF open_ready assms(1)] assms(2) by simp
  then have t: "ready t" "replies t = replies s" by (simp_all add: t_def)
  have "line_received rt line s = dispatch_one rt line t \<or> (\<exists>segs. line_received rt line s = chain_segments rt segs True t)"
    by (auto simp: line_received_def dispatch_chain_def t_def Let_def split: option.split)
  then show ?thesis using dispatch_one_replies [OF t(1), of rt line] chain_replies [OF t(1), of rt] t(2) by (auto simp: in_program_def)
qed

definition example_rt :: runtime where
  "example_rt =
     \<lparr>cfg_attack_mapping = True, cfg_deterministic = True, cfg_interactive_programs = True, cfg_capture_downloads = True,
      cfg_fact_ledger = True, cfg_pipe_filters = True, cfg_stream = False, cfg_max_facts = 12, cfg_max_commands = 200,
      cfg_max_tokens_per_session = 0, cfg_history_window = 16, cfg_jitter_min = 5, cfg_jitter_max = 15,
      cfg_system_prompt = INTERACTIVE_SYSTEM_PROMPT, cfg_system_prompt_exec = EXEC_SYSTEM_PROMPT, client_max_tokens = 500, client_temperature = fl 0.7,
      client_streams = False, rt_host = \<lparr>host_now = 0, tz_offset = 0, tz_name = ''UTC'', strftime = (\<lambda>_. None), float_sum = sum_list\<rparr>,
      rt_compile = (\<lambda>_ _. None)\<rparr>"

definition example_session :: proto where
  "example_session = open_session example_rt (\<lambda>_ _ lo _. lo) ''root'' ''srv'' [] [] [] ''192.0.2.1'' ''auto'' 24"

theorem line_never_hangs_witness:
  "length (filter is_reply (out (line_received example_rt ''uname -a'' example_session))) > length (filter is_reply (out example_session)) \<or>
   in_program (line_received example_rt ''uname -a'' example_session)"
  by (rule line_never_hangs [of "[]"]) (simp_all add: run_events_def example_session_def)



text \<open>C6: A request is one the Messages API accepts: it starts with a user turn, ends with the command being asked,
  and carries at most as many turns as the configured window (all of them when the window is 0).\<close>

theorem request_messages_valid:
  "let ms = request_messages w (h @ [''User: '' @ m]) in
   ms \<noteq> [] \<and> fst (hd ms) = User \<and> last ms = (User, py_strip m) \<and> (w = 0 \<or> length ms \<le> w)"
proof -
  define hs where "hs = (if w = 0 then h else drop (length h + 1 - w) h)"
  define ts where "ts = concat (map turn_message hs)"
  have turns: "last_turns w (h @ [''User: '' @ m]) = hs @ [''User: '' @ m]"
    by (simp add: last_turns_def hs_def)
  have one: "length (turn_message raw) \<le> 1" for raw by (simp add: turn_message_def)
  have len: "length (concat (map turn_message xs)) \<le> length xs" for xs
  proof (induction xs)
    case (Cons a xs)
    then show ?case using one [of a] by simp
  qed simp
  have tm: "turn_message (''User: '' @ m) = [(User, py_strip m)]" by (simp add: turn_message_def strip_by_Cons is_space_def)
  have ms: "request_messages w (h @ [''User: '' @ m]) = dropWhile (\<lambda>m. fst m = Assistant) (ts @ [(User, py_strip m)])"
    unfolding request_messages_def turns ts_def by (simp only: map_append list.map concat_append concat.simps append_Nil2 tm)
  also have "\<dots> = dropWhile (\<lambda>m. fst m = Assistant) ts @ [(User, py_strip m)]"
    by (induction ts) auto
  finally have eq: "request_messages w (h @ [''User: '' @ m]) = dropWhile (\<lambda>m. fst m = Assistant) ts @ [(User, py_strip m)]" .
  have "fst (hd (dropWhile (\<lambda>m. fst m = Assistant) ts @ [(User, py_strip m)])) = User"
    by (induction ts) (auto intro: role.exhaust)
  moreover have "w = 0 \<or> length (dropWhile (\<lambda>m. fst m = Assistant) ts) < w"
    using len [of hs] length_dropWhile_le [of "\<lambda>m. fst m = Assistant" ts] by (auto simp: hs_def ts_def)
  ultimately show ?thesis unfolding eq Let_def by auto
qed



text \<open>
  The reference for chains is what a shell does: a skipped command leaves the status as it was. The dispatcher
  instead counts a skipped segment as a success.
\<close>

fun shell_chain :: "runtime \<Rightarrow> (string \<times> string) list \<Rightarrow> bool \<Rightarrow> proto \<Rightarrow> proto" where
  "shell_chain rt [] succeeded s = show_prompt 0 0 s"
| "shell_chain rt ((op, command) # rest) succeeded s =
     (if \<not> should_run op succeeded then shell_chain rt rest succeeded s
      else case dispatch_local rt command (s\<lparr>suppress_prompt := True\<rparr>) of
        (v, ok, s1) \<Rightarrow>
          let s2 = s1\<lparr>suppress_prompt := False\<rparr> in
          (case v of
             Handled \<Rightarrow> shell_chain rt rest ok s2
           | Raised \<Rightarrow> s2
           | Declined \<Rightarrow> snd (process_command_with_llm rt (remainder command rest) None
               (apply_input_mutations rt (remainder command rest) s2))))"

lemma shell_chain_or:
  "list_all (\<lambda>(op, _). op \<noteq> ''&&'') segs \<Longrightarrow> chain_segments rt segs ok s = shell_chain rt segs ok s"
  by (induction rt segs ok s rule: chain_segments.induct)
     (auto simp: should_run_def Let_def split: prod.split verdict.split)



text \<open>After a failure \<open>a && b && c\<close> skips \<open>b\<close> and then runs \<open>c\<close>, which a shell does not.\<close>

lemma and_chain_runs_after_skip:
  assumes "dispatch_local rt a (s\<lparr>suppress_prompt := True\<rparr>) = (Handled, False, t)"
  shows "dispatch_chain rt [([], a), (''&&'', b), (''&&'', c)] s = chain_segments rt [([], c)] True (t\<lparr>suppress_prompt := False\<rparr>)"
    and "shell_chain rt [([], a), (''&&'', b), (''&&'', c)] True s = show_prompt 0 0 (t\<lparr>suppress_prompt := False\<rparr>)"
  using assms by (simp_all add: dispatch_chain_def should_run_def)

text \<open>A segment that no local stage takes has its mutations applied twice, so \<open>cd /x; su\<close> pushes the user twice.\<close>

lemma dispatch_local_declined:
  "dispatch_local rt c s = (Declined, ok, t) \<Longrightarrow> t = apply_input_mutations rt c s"
  unfolding dispatch_local_def Let_def
  by (auto split: prod.splits bool.splits option.splits dest: declined_unchanged)

lemma unhandled_segment_mutates_twice:
  assumes "dispatch_local rt c (s\<lparr>suppress_prompt := True\<rparr>) = (Declined, ok, t)"
  shows "p_world (dispatch_chain rt [([], c)] s) =
    (let mutate = fold (apply_mutation (host_now (rt_host rt)) (username s)) (parse_input_mutations c) in mutate (mutate (p_world s)))"
  using assms dispatch_local_declined [OF assms]
  by (simp add: dispatch_chain_def should_run_def remainder_def process_world apply_input_mutations_def Let_def)

text \<open>With streaming configured but not supported by the client, the answer is never written: only a newline is.\<close>

lemma unsupported_stream_loses_answer:
  assumes "cfg_stream rt" "terminal_open s"
  shows "\<exists>logs. out (show_answer response (cfg_stream rt) s) = out s @ logs @ [Write [nl]] \<and> list_all (\<lambda>e. \<exists>i l. e = Log i l) logs"
  using assms by (auto simp: show_answer_def term_write_def Let_def split: prod.split)

end
