(* ===== verification/Exec_Protocol.thy ===== *)
theory Exec_Protocol
  imports Protocol Scp_Sink Artifact
begin

text \<open>
  The one-shot session (class \<open>HoneyPotExecProtocol\<close> of \<open>src/src/cowrie/llm/protocol.py\<close>): a command given with
  the connection is either an upload with \<open>scp -t\<close>, whose bytes go to the sink and at the end of the input to the
  artifact store, or a download with \<open>scp -f\<close>, which is refused, or a command for the model. The part of the
  state that it shares with the interactive session is the field \<open>exec_base\<close>; \<open>exec_store\<close> is the download
  directory, \<open>dir\<close> its path.
\<close>

section \<open>State and operations\<close>

record exec_session =
  exec_base :: proto
  execcmd :: string
  up_sink :: "scp_sink option"
  scp_finalized :: bool
  input_data :: bytestr
  exec_store :: store

definition on_base :: "(proto \<Rightarrow> proto) \<Rightarrow> exec_session \<Rightarrow> exec_session" where
  "on_base f s = s\<lparr>exec_base := f (exec_base s)\<rparr>"

text \<open>\<open>terminal.transport.processEnded\<close>, which raises when the terminal is gone.\<close>

definition process_ended :: "nat \<Rightarrow> exec_session \<Rightarrow> exec_session" where
  "process_ended code =
     on_base (\<lambda>b. emit (if terminal_open b then ProcessEnded code else Raise ''AttributeError'') b)"

definition begin_scp_sink :: "exec_session \<Rightarrow> exec_session" where
  "begin_scp_sink s =
     (let dest = scp_dest_path (execcmd s); sink = new_sink dest in
      on_base (term_write (scp_initial sink))
        (on_base (emit (Log ''cowrie.session.scp_attempt'' [''scp://inbound/'' @ dest, dest, execcmd s]))
          (s\<lparr>up_sink := Some sink\<rparr>)))"

definition refuse_scp_source :: "exec_session \<Rightarrow> exec_session" where
  "refuse_scp_source s =
     process_ended 1 (on_base (term_write ([CHR 0x01] @ ''scp: Permission denied'' @ [nl])) s)"

definition process_exec_with_llm :: "runtime \<Rightarrow> exec_session \<Rightarrow> exec_session" where
  "process_exec_with_llm rt s =
     (case build_system_context rt (execcmd s) (exec_base s) of
        None \<Rightarrow> on_base (emit (Raise ''system prompt template'')) s
      | Some context \<Rightarrow> on_base (emit (GetResponse [context])) s)"

definition exec_connection_made :: "runtime \<Rightarrow> proto \<Rightarrow> string \<Rightarrow> store \<Rightarrow> exec_session" where
  "exec_connection_made rt base cmd st =
     (let s = \<lparr>exec_base = emit_attack_techniques rt cmd base, execcmd = cmd, up_sink = None, scp_finalized = False,
               input_data = [], exec_store = st\<rparr> in
      if is_scp_sink cmd then begin_scp_sink s
      else if is_scp_source cmd then refuse_scp_source s
      else process_exec_with_llm rt s)"

definition exec_keystroke :: "bytestr \<Rightarrow> exec_session \<Rightarrow> exec_session" where
  "exec_keystroke key s0 =
     (let s = s0\<lparr>input_data := input_data s0 @ key\<rparr> in
      case up_sink s of
        None \<Rightarrow> s
      | Some sink \<Rightarrow>
          (case feed sink key of (sink', reply) \<Rightarrow>
             (if reply \<noteq> [] then on_base (term_write reply) else id) (s\<lparr>up_sink := Some sink'\<rparr>)))"

definition upload_log :: "bytestr \<Rightarrow> (string \<times> string) option \<Rightarrow> effect" where
  "upload_log dest clo = Log ''cowrie.session.file_download''
     ([''scp://inbound/'' @ dest, dest] @ (case clo of None \<Rightarrow> [] | Some (sha, saved) \<Rightarrow> [sha, saved]))"

definition persist_scp_file :: "string \<Rightarrow> scp_sink \<Rightarrow> captured_file \<Rightarrow> exec_session \<Rightarrow> exec_session" where
  "persist_scp_file dir sink f s =
     (case artifact_close dir False (artifact_write (cap_data f) (new_artifact ''scp-upload'')) (exec_store s) of
        (clo, _, st) \<Rightarrow>
          on_base (emit (upload_log (dest_path sink f) clo)) (s\<lparr>exec_store := st\<rparr>))"

definition finalize_scp :: "string \<Rightarrow> exec_session \<Rightarrow> exec_session" where
  "finalize_scp dir s0 =
     (if scp_finalized s0 then s0
      else let s = s0\<lparr>scp_finalized := True\<rparr>;
        t = (case up_sink s of None \<Rightarrow> s | Some sink \<Rightarrow> fold (persist_scp_file dir sink) (sink_files sink) s) in
        if terminal_open (exec_base t) then process_ended 0 t else t)"

definition exec_eof :: "string \<Rightarrow> exec_session \<Rightarrow> exec_session" where
  "exec_eof dir s = (if up_sink s \<noteq> None then finalize_scp dir s else on_base eof_received s)"

definition handle_exec_response :: "string \<Rightarrow> exec_session \<Rightarrow> exec_session" where
  "handle_exec_response response s =
     (if \<not> terminal_open (exec_base s) then s
      else process_ended 0
        (if response \<noteq> [] then on_base (term_write (utf8 (strip_markdown response @ [nl]))) s else s))"

definition handle_exec_error :: "exec_session \<Rightarrow> exec_session" where
  "handle_exec_error s = (if terminal_open (exec_base s) then process_ended 0 s else s)"

definition base_connection_lost :: "proto \<Rightarrow> proto" where
  "base_connection_lost b = b\<lparr>terminal_open := False\<rparr>"

datatype exec_event = ExecKey bytestr | ExecEof | ExecAnswer string | ExecFailed | ExecIdle | ExecLost

fun exec_handle :: "string \<Rightarrow> exec_event \<Rightarrow> exec_session \<Rightarrow> exec_session" where
  "exec_handle dir (ExecKey key) s = exec_keystroke key s"
| "exec_handle dir ExecEof s = exec_eof dir s"
| "exec_handle dir (ExecAnswer response) s = handle_exec_response response s"
| "exec_handle dir ExecFailed s = handle_exec_error s"
| "exec_handle dir ExecIdle s = process_ended 1 s"
| "exec_handle dir ExecLost s = on_base base_connection_lost s"

definition exec_run :: "string \<Rightarrow> exec_event list \<Rightarrow> exec_session \<Rightarrow> exec_session" where
  "exec_run dir es s = fold (exec_handle dir) es s"

section \<open>Lemmas\<close>

fun is_ended :: "effect \<Rightarrow> bool" where
  "is_ended (ProcessEnded _) = True"
| "is_ended _ = False"

fun is_log :: "effect \<Rightarrow> bool" where
  "is_log (Log _ _) = True"
| "is_log _ = False"

abbreviation exec_out :: "exec_session \<Rightarrow> effect list" where "exec_out s \<equiv> out (exec_base s)"

lemma on_base_simps [simp]:
  "exec_base (on_base f s) = f (exec_base s)" "execcmd (on_base f s) = execcmd s" "up_sink (on_base f s) = up_sink s"
  "scp_finalized (on_base f s) = scp_finalized s" "input_data (on_base f s) = input_data s"
  "exec_store (on_base f s) = exec_store s"
  by (simp_all add: on_base_def)

lemma process_ended_simps [simp]:
  "up_sink (process_ended c s) = up_sink s" "exec_store (process_ended c s) = exec_store s"
  "terminal_open (exec_base (process_ended c s)) = terminal_open (exec_base s)"
  by (simp_all add: process_ended_def)

text \<open>Keys of an upload go to the sink and are answered by what it says.\<close>

lemma upload_keys:
  "up_sink s = Some sink \<Longrightarrow>
   (let t = fold exec_keystroke keys s in
    up_sink t = Some (fst (feed_all sink keys)) \<and> exec_store t = exec_store s \<and> scp_finalized t = scp_finalized s \<and>
    terminal_open (exec_base t) = terminal_open (exec_base s) \<and>
    filter is_ended (exec_out t) = filter is_ended (exec_out s))"
proof (induction keys arbitrary: s sink)
  case (Cons k ks)
  obtain sink' reply where f: "feed sink k = (sink', reply)" by fastforce
  define t where "t = exec_keystroke k s"
  have t: "up_sink t = Some sink'" "exec_store t = exec_store s" "scp_finalized t = scp_finalized s"
      "terminal_open (exec_base t) = terminal_open (exec_base s)" "filter is_ended (exec_out t) = filter is_ended (exec_out s)"
    using Cons.prems f by (simp_all add: t_def exec_keystroke_def Let_def term_write_def)
  show ?case using Cons.IH [OF t(1)] t(2-5) f by (simp add: Let_def t_def [symmetric] split: prod.split)
qed (simp add: sink.consume_Nil)

lemma begin_upload:
  "is_scp_sink cmd \<Longrightarrow> terminal_open base \<Longrightarrow>
   (let s = exec_connection_made rt base cmd st in
    up_sink s = Some (new_sink (scp_dest_path cmd)) \<and> exec_store s = st \<and> \<not> scp_finalized s \<and> terminal_open (exec_base s) \<and>
    filter is_ended (exec_out s) = filter is_ended (out base))"
  by (simp add: exec_connection_made_def begin_scp_sink_def term_write_def emit_attack_techniques_def Let_def)

lemma persist_new_file:
  assumes "cap_data f \<noteq> []" "map_of (exec_store s) p \<in> {None, Some (cap_data f)}" "p = path_join dir (sha256_hex (cap_data f))"
  shows "map_of (exec_store (persist_scp_file dir sink f s)) p = Some (cap_data f) \<and>
    exec_base (persist_scp_file dir sink f s) =
      emit (upload_log (dest_path sink f) (Some (sha256_hex (cap_data f), p))) (exec_base s)"
  using assms
  by (auto simp: persist_scp_file_def artifact_close_def artifact_write_def new_artifact_def Let_def update_conv')

section \<open>Properties\<close>

text \<open>C8: An upload is captured end to end: when the client of \<open>scp -t\<close> sends a file as the protocol prescribes,
  cut into packets in any way, and then ends its input, the bytes are in the artifact store under their
  digest, the upload is logged with its destination and digest, and the process ends exactly once, with status 0.\<close>

theorem exec_upload_stored:
  assumes "is_scp_sink cmd" "terminal_open base" "filter is_ended (out base) = []"
    and "concat keys = c_line mode (length bytes) nm @ [nl] @ bytes @ [CHR 0x00]"
    and "length mode = 4" "\<forall>c\<in>set mode. is_octal c"
    and "nm \<noteq> []" "\<not> is_byte_space (hd nm)" "nl \<notin> set nm" "CHR 0x00 \<notin> set nm"
    and "bytes \<noteq> []" "length bytes \<le> 10 * 1024 * 1024" "length (str_of_nat (length bytes)) \<le> 4300"
    and "p = path_join dir (sha256_hex bytes)" "map_of st p \<in> {None, Some bytes}"
  shows "let s = exec_run dir (map ExecKey keys @ [ExecEof]) (exec_connection_made rt base cmd st) in
    map_of (exec_store s) p = Some bytes \<and>
    (\<exists>dest. upload_log dest (Some (sha256_hex bytes, p)) \<in> set (exec_out s)) \<and>
    filter is_ended (exec_out s) = [ProcessEnded 0]"
proof -
  define s0 where "s0 = exec_connection_made rt base cmd st"
  define sink where "sink = new_sink (scp_dest_path cmd)"
  define f where "f = \<lparr>cap_name = nm, cap_mode = mode, cap_size = length bytes, cap_data = bytes\<rparr>"
  define s1 where "s1 = fold exec_keystroke keys s0"
  have s0: "up_sink s0 = Some sink" "exec_store s0 = st" "\<not> scp_finalized s0" "terminal_open (exec_base s0)"
      "filter is_ended (exec_out s0) = []"
    using begin_upload [OF assms(1,2), of rt st] assms(3) by (auto simp: s0_def sink_def Let_def)
  have "fst (feed_all sink keys) = sink\<lparr>sink_files := [f], remaining := 0, total := length bytes\<rparr>"
    unfolding feed_all_concat assms(4)
    using transfer_captured [of sink mode nm bytes] assms by (simp add: sink_def new_sink_def f_def)
  then have s1: "up_sink s1 = Some (sink\<lparr>sink_files := [f], remaining := 0, total := length bytes\<rparr>)" "exec_store s1 = st"
      "\<not> scp_finalized s1" "terminal_open (exec_base s1)" "filter is_ended (exec_out s1) = []"
    using upload_keys [OF s0(1), of keys] s0 by (auto simp: s1_def Let_def)
  define s2 where "s2 = persist_scp_file dir (the (up_sink s1)) f (s1\<lparr>scp_finalized := True\<rparr>)"
  have s2: "map_of (exec_store s2) p = Some bytes"
      "exec_base s2 = emit (upload_log (dest_path (the (up_sink s1)) f) (Some (sha256_hex bytes, p))) (exec_base s1)"
    using persist_new_file [of f "s1\<lparr>scp_finalized := True\<rparr>" p dir "the (up_sink s1)"] assms s1(2) by (simp_all add: s2_def f_def)
  have run: "exec_run dir (map ExecKey keys @ [ExecEof]) s0 = exec_eof dir s1"
  proof -
    have "fold (exec_handle dir) (map ExecKey ks) s = fold exec_keystroke ks s" for ks s
      by (induction ks arbitrary: s) simp_all
    then show ?thesis by (simp add: exec_run_def s1_def)
  qed
  have "exec_eof dir s1 = process_ended 0 s2"
    using s1(1,3,4) s2(2) by (simp add: exec_eof_def finalize_scp_def Let_def s2_def)
  then show ?thesis unfolding s0_def [symmetric] run Let_def
    using s2 s1(4,5) by (auto simp: process_ended_def upload_log_def)
qed

definition example_base :: proto where
  "example_base = connection_made example_rt (\<lambda>_ _ lo _. lo) ''root'' ''srv'' [] [] [] ''192.0.2.1'' ''auto'' 24"

lemma example_base_simps: "terminal_open example_base" "out example_base = []"
  by (simp_all add: example_base_def connection_made_def Let_def)

theorem exec_upload_stored_witness:
  "let s = exec_run ''dl'' (map ExecKey [''C0755 3 a.sh'' @ [nl] @ ''x'', ''yz'' @ [CHR 0x00]] @ [ExecEof])
         (exec_connection_made example_rt example_base ''scp -t /tmp'' []) in
    map_of (exec_store s) (path_join ''dl'' (sha256_hex ''xyz'')) = Some ''xyz'' \<and>
    (\<exists>dest. upload_log dest (Some (sha256_hex ''xyz'', path_join ''dl'' (sha256_hex ''xyz''))) \<in> set (exec_out s)) \<and>
    filter is_ended (exec_out s) = [ProcessEnded 0]"
proof (rule exec_upload_stored [where mode = "''0755''" and nm = "''a.sh''"])
  show "is_scp_sink ''scp -t /tmp''" by code_simp
  show "concat [''C0755 3 a.sh'' @ [nl] @ ''x'', ''yz'' @ [CHR 0x00]] = c_line ''0755'' (length ''xyz'') ''a.sh'' @ [nl] @ ''xyz'' @ [CHR 0x00]"
    by code_simp
  show "length (str_of_nat (length ''xyz'')) \<le> 4300" by code_simp
qed (simp_all add: example_base_simps is_octal_def is_byte_space_def)

text \<open>A request to read a file from the host is refused whatever the client sends: it gets the error of
  \<open>scp\<close> and exit status 1, nothing else is written, no model is asked and no file is stored.\<close>

lemma exec_source_refused:
  assumes "is_scp_source cmd" "\<not> is_scp_sink cmd" "terminal_open base"
  shows "let s = exec_run dir (map ExecKey keys) (exec_connection_made rt base cmd st) in
    exec_store s = st \<and>
    (\<exists>logs. list_all is_log logs \<and>
       exec_out s = out base @ logs @ [Write ([CHR 0x01] @ ''scp: Permission denied'' @ [nl]), ProcessEnded 1])"
proof -
  define s0 where "s0 = exec_connection_made rt base cmd st"
  have idle: "up_sink s = None \<Longrightarrow>
      exec_base (fold (exec_handle dir) (map ExecKey ks) s) = exec_base s \<and>
      exec_store (fold (exec_handle dir) (map ExecKey ks) s) = exec_store s" for ks s
    by (induction ks arbitrary: s) (simp_all add: exec_keystroke_def Let_def)
  have "\<exists>logs. out (emit_attack_techniques rt cmd base) = out base @ logs \<and> list_all is_log logs"
    by (simp add: emit_attack_techniques_def Let_def)
  then obtain logs where logs: "out (emit_attack_techniques rt cmd base) = out base @ logs" "list_all is_log logs" by blast
  have "terminal_open (emit_attack_techniques rt cmd base)"
    using assms(3) by (simp add: emit_attack_techniques_def Let_def)
  then have "up_sink s0 = None" "exec_store s0 = st"
      "exec_out s0 = out base @ logs @ [Write ([CHR 0x01] @ ''scp: Permission denied'' @ [nl]), ProcessEnded 1]"
    using assms logs by (simp_all add: s0_def exec_connection_made_def refuse_scp_source_def process_ended_def term_write_def Let_def)
  then show ?thesis using idle [of s0 keys] logs(2) by (auto simp: exec_run_def s0_def [symmetric] Let_def)
qed


text \<open>
  Only the end of the input stores an upload: when the connection is lost or times out first, complete files
  that the sink holds are dropped.
\<close>

lemma upload_lost_without_eof:
  assumes "up_sink s = Some sink" "e \<in> {ExecLost, ExecIdle}"
  shows "exec_store (exec_run dir (map ExecKey keys @ [e]) s) = exec_store s"
proof -
  have "fold (exec_handle dir) (map ExecKey ks) t = fold exec_keystroke ks t" for ks t
    by (induction ks arbitrary: t) simp_all
  then show ?thesis using upload_keys [OF assms(1), of keys] assms(2) by (auto simp: exec_run_def Let_def)
qed

end
