(* ===== verification/Rate_Limiter.thy ===== *)
theory Rate_Limiter
  imports Py_Float
begin

text \<open>
  The limiter of outbound requests (\<open>src/src/cowrie/core/rate_limiter.py\<close>): for every destination the times of
  the requests that were let through. The tracker is a \<open>defaultdict(list)\<close>: reading a missing key inserts an
  empty list. The clock is an argument; differences of times are rounded as floats are.
\<close>

section \<open>State and operations\<close>

record rate_limiter =
  enabled :: bool
  max_requests :: nat
  window_seconds :: nat
  max_keys :: nat
  request_tracker :: "(string, rat list) dict"
  last_cleanup :: rat

definition RateLimiter :: "bool \<Rightarrow> nat \<Rightarrow> nat \<Rightarrow> nat \<Rightarrow> rat \<Rightarrow> rate_limiter" where
  "RateLimiter on limit window keys now =
     \<lparr>enabled = on, max_requests = limit, window_seconds = window, max_keys = keys, request_tracker = [], last_cleanup = now\<rparr>"

definition tracked :: "string \<Rightarrow> rate_limiter \<Rightarrow> rat list" where
  "tracked key s = (case map_of (request_tracker s) key of None \<Rightarrow> [] | Some ts \<Rightarrow> ts)"

definition fresh :: "rat \<Rightarrow> nat \<Rightarrow> rat \<Rightarrow> bool" where
  "fresh now window ts \<longleftrightarrow> fsub now ts < of_nat window"

definition cleanup_all :: "rat \<Rightarrow> rate_limiter \<Rightarrow> rate_limiter" where
  "cleanup_all now s =
     s\<lparr>request_tracker := filter (\<lambda>(_, ts). ts \<noteq> [])
        (map (\<lambda>(key, ts). (key, filter (fresh now (window_seconds s)) ts)) (request_tracker s))\<rparr>"

definition latest_activity :: "rat list \<Rightarrow> rat" where
  "latest_activity ts = (if ts = [] then 0 else Max (set ts))"

definition oldest_keys :: "(string, rat list) dict \<Rightarrow> string list" where
  "oldest_keys tracker =
     take (max 1 (length tracker div 10)) (map fst (sort_key (\<lambda>(_, ts). latest_activity ts) tracker))"

definition remove_oldest_keys :: "rate_limiter \<Rightarrow> rate_limiter" where
  "remove_oldest_keys s =
     (if request_tracker s = [] then s
      else s\<lparr>request_tracker := fold AList.delete (oldest_keys (request_tracker s)) (request_tracker s)\<rparr>)"

definition periodic_cleanup :: "rat \<Rightarrow> rate_limiter \<Rightarrow> rate_limiter" where
  "periodic_cleanup now s =
     (if fsub now (last_cleanup s) > of_nat (window_seconds s) then (cleanup_all now s)\<lparr>last_cleanup := now\<rparr> else s)"

definition drop_expired :: "rat \<Rightarrow> string \<Rightarrow> rate_limiter \<Rightarrow> rate_limiter" where
  "drop_expired now key s =
     s\<lparr>request_tracker := AList.update key (filter (fresh now (window_seconds s)) (tracked key s)) (request_tracker s)\<rparr>"

definition limit_keys :: "rate_limiter \<Rightarrow> rate_limiter" where
  "limit_keys s = (if length (request_tracker s) > max_keys s then remove_oldest_keys s else s)"

definition check :: "rat \<Rightarrow> string \<Rightarrow> rate_limiter \<Rightarrow> bool \<times> rate_limiter" where
  "check now key s =
     (if \<not> enabled s then (True, s)
      else
        let s1 = limit_keys (drop_expired now key (periodic_cleanup now s)); ts = tracked key s1 in
        if length ts \<ge> max_requests s then (False, s1\<lparr>request_tracker := AList.update key ts (request_tracker s1)\<rparr>)
        else (True, s1\<lparr>request_tracker := AList.update key (ts @ [now]) (request_tracker s1)\<rparr>))"

definition reset_limiter :: "rat \<Rightarrow> rate_limiter \<Rightarrow> rate_limiter" where
  "reset_limiter now s = s\<lparr>request_tracker := [], last_cleanup := now\<rparr>"

text \<open>A run of requests, each a time and a destination, with the verdicts.\<close>

fun check_all :: "(rat \<times> string) list \<Rightarrow> rate_limiter \<Rightarrow> bool list \<times> rate_limiter" where
  "check_all [] s = ([], s)"
| "check_all ((now, key) # rs) s =
     (case check now key s of (ok, s') \<Rightarrow> (case check_all rs s' of (oks, s'') \<Rightarrow> (ok # oks, s'')))"

definition granted :: "string \<Rightarrow> (rat \<times> string) list \<Rightarrow> bool list \<Rightarrow> rat list" where
  "granted key rs oks = map (fst \<circ> fst) (filter (\<lambda>((_, k), ok). ok \<and> k = key) (zip rs oks))"

section \<open>What an entry of the tracker holds\<close>

lemma fresh_antimono: "t \<le> now \<Longrightarrow> fresh now w ts \<Longrightarrow> fresh t w ts"
  using fl_mono [of "t - ts" "now - ts"] by (simp add: fresh_def fsub_def)

lemma filter_fresh: "t \<le> now \<Longrightarrow> filter (fresh now w) (filter (fresh t w) ts) = filter (fresh now w) ts"
  by (auto intro: filter_cong dest: fresh_antimono)

lemma tracked_update [simp]:
  "tracked k (s\<lparr>request_tracker := AList.update key ts (request_tracker s)\<rparr>) = (if k = key then ts else tracked k s)"
  by (simp add: tracked_def update_conv')

lemma map_of_cleanup:
  "distinct (map fst al) \<Longrightarrow>
   (case map_of (filter (\<lambda>(_, ts). ts \<noteq> []) (map (\<lambda>(k, ts). (k, filter P ts)) al)) k of None \<Rightarrow> [] | Some ts \<Rightarrow> ts) =
   filter P (case map_of al k of None \<Rightarrow> [] | Some ts \<Rightarrow> ts)"
proof (induction al)
  case (Cons a al)
  obtain k' ts where a: "a = (k', ts)" by fastforce
  have "map_of (filter (\<lambda>(_, ts). ts \<noteq> []) (map (\<lambda>(k, ts). (k, filter P ts)) al)) k' = None"
    using Cons.prems by (force simp: map_of_eq_None_iff a image_iff)
  then show ?case using Cons by (auto simp: a)
qed simp

lemma tracked_cleanup:
  "distinct (map fst (request_tracker s)) \<Longrightarrow>
   tracked k (cleanup_all now s) = filter (fresh now (window_seconds s)) (tracked k s)"
  by (simp add: tracked_def cleanup_all_def map_of_cleanup)

text \<open>Keys of the tracker.\<close>

abbreviation keys_of :: "rate_limiter \<Rightarrow> string list" where "keys_of s \<equiv> map fst (request_tracker s)"

lemma keys_cleanup:
  "distinct (keys_of s) \<Longrightarrow> distinct (keys_of (cleanup_all now s))"
  "set (keys_of (cleanup_all now s)) \<subseteq> set (keys_of s)"
  "length (request_tracker (cleanup_all now s)) \<le> length (request_tracker s)"
proof -
  have k: "map fst (map (\<lambda>(k, ts). (k, f ts)) al) = map fst al" for f :: "rat list \<Rightarrow> rat list" and al :: "(string \<times> rat list) list"
    by (induction al) auto
  show "distinct (keys_of s) \<Longrightarrow> distinct (keys_of (cleanup_all now s))"
    unfolding cleanup_all_def by (simp add: distinct_map_filter k del: map_map)
  show "set (keys_of (cleanup_all now s)) \<subseteq> set (keys_of s)" by (force simp: cleanup_all_def)
  show "length (request_tracker (cleanup_all now s)) \<le> length (request_tracker s)"
    using length_filter_le [of _ "map (\<lambda>(key, ts). (key, filter (fresh now (window_seconds s)) ts)) (request_tracker s)"]
    by (simp add: cleanup_all_def)
qed

section \<open>Without eviction the limiter is a sliding window\<close>

text \<open>The tracker agrees with the granted requests \<open>g\<close> on everything that is still in the window.\<close>

definition tracks :: "rate_limiter \<Rightarrow> rat \<Rightarrow> (string \<Rightarrow> rat list) \<Rightarrow> string set \<Rightarrow> bool" where
  "tracks s t g ks \<longleftrightarrow> enabled s \<and> distinct (keys_of s) \<and> set (keys_of s) \<subseteq> ks \<and>
     (\<forall>k now. t \<le> now \<longrightarrow> filter (fresh now (window_seconds s)) (tracked k s) = filter (fresh now (window_seconds s)) (g k))"

lemma periodic_tracks: "tracks s t g ks \<Longrightarrow> t \<le> now \<Longrightarrow> tracks (periodic_cleanup now s) now g ks"
proof -
  assume s: "tracks s t g ks" and le: "t \<le> now"
  have w: "window_seconds (cleanup_all now s) = window_seconds s" "enabled (cleanup_all now s) = enabled s"
    by (simp_all add: cleanup_all_def)
  have l: "tracked k (u\<lparr>last_cleanup := l\<rparr>) = tracked k u" for k l u by (simp add: tracked_def)
  show ?thesis
    using s le keys_cleanup(1) [of s now] keys_cleanup(2) [of now s] tracked_cleanup [of s _ now]
    by (auto simp: periodic_cleanup_def tracks_def w l filter_fresh simp del: filter_filter)
qed

lemma drop_tracks:
  "tracks s now g ks \<Longrightarrow> key \<in> ks \<Longrightarrow>
   tracks (drop_expired now key s) now g ks \<and> tracked key (drop_expired now key s) = filter (fresh now (window_seconds s)) (g key)"
  unfolding tracks_def drop_expired_def
  by (auto simp: distinct_update dom_update filter_fresh simp del: filter_filter)

lemma check_tracks:
  assumes "tracks s t g ks" "t \<le> now" "key \<in> ks" "finite ks" "card ks \<le> max_keys s" "check now key s = (ok, s')"
  shows "ok \<longleftrightarrow> length (filter (fresh now (window_seconds s)) (g key)) < max_requests s"
    and "tracks s' now (if ok then g(key := g key @ [now]) else g) ks"
    and "max_keys s' = max_keys s" "max_requests s' = max_requests s" "window_seconds s' = window_seconds s"
proof -
  define s1 where "s1 = periodic_cleanup now s"
  define s2 where "s2 = drop_expired now key s1"
  have c1: "max_keys s1 = max_keys s" "max_requests s1 = max_requests s" "window_seconds s1 = window_seconds s"
    by (simp_all add: s1_def periodic_cleanup_def cleanup_all_def)
  have c2: "max_keys s2 = max_keys s" "max_requests s2 = max_requests s" "window_seconds s2 = window_seconds s"
    by (simp_all add: s2_def drop_expired_def c1)
  have t: "tracks s2 now g ks" "tracked key s2 = filter (fresh now (window_seconds s)) (g key)"
    using drop_tracks [OF periodic_tracks [OF assms(1,2)] assms(3)] by (simp_all add: s2_def s1_def [symmetric] c1)
  have "length (request_tracker s2) = card (set (keys_of s2))"
    using t(1) distinct_card [of "keys_of s2"] by (simp add: tracks_def)
  also have "\<dots> \<le> card ks" using t(1) assms(4) by (intro card_mono) (auto simp: tracks_def)
  finally have lk: "limit_keys s2 = s2" using assms(5) c2 by (simp add: limit_keys_def)
  have "enabled s" using assms(1) by (simp add: tracks_def)
  then have c: "(ok, s') = (if length (tracked key s2) \<ge> max_requests s
      then (False, s2\<lparr>request_tracker := AList.update key (tracked key s2) (request_tracker s2)\<rparr>)
      else (True, s2\<lparr>request_tracker := AList.update key (tracked key s2 @ [now]) (request_tracker s2)\<rparr>))"
    using assms(6) c2 unfolding check_def Let_def s1_def [symmetric] s2_def [symmetric] lk by simp
  show "ok \<longleftrightarrow> length (filter (fresh now (window_seconds s)) (g key)) < max_requests s"
    using c t(2) by (auto split: if_splits)
  show "max_keys s' = max_keys s" "max_requests s' = max_requests s" "window_seconds s' = window_seconds s"
    using c c2 by (auto split: if_splits)
  have u: "tracks (s2\<lparr>request_tracker := AList.update key ts (request_tracker s2)\<rparr>) now (g(key := gs)) ks"
    if "\<And>n. now \<le> n \<Longrightarrow> filter (fresh n (window_seconds s)) ts = filter (fresh n (window_seconds s)) gs" for ts gs
    using t(1) that assms(3) c2 unfolding tracks_def by (auto simp: distinct_update dom_update)
  show "tracks s' now (if ok then g(key := g key @ [now]) else g) ks"
    using c u [of "tracked key s2" "g key"] u [of "tracked key s2 @ [now]" "g key @ [now]"] t
    by (auto simp: filter_fresh simp del: filter_filter split: if_splits)
qed

lemma check_all_tracks:
  "tracks s t g ks \<Longrightarrow> sorted (t # map fst rs) \<Longrightarrow> snd ` set rs \<subseteq> ks \<Longrightarrow> finite ks \<Longrightarrow> card ks \<le> max_keys s \<Longrightarrow>
   check_all rs s = (oks, s') \<Longrightarrow>
   tracks s' (last (t # map fst rs)) (\<lambda>k. g k @ granted k rs oks) ks \<and>
   max_keys s' = max_keys s \<and> max_requests s' = max_requests s \<and> window_seconds s' = window_seconds s"
proof (induction rs arbitrary: s t g oks)
  case Nil
  then show ?case by (simp add: granted_def)
next
  case (Cons r rs)
  obtain now key where r: "r = (now, key)" by fastforce
  obtain ok s1 where c: "check now key s = (ok, s1)" by fastforce
  obtain oks' where cs: "check_all rs s1 = (oks', s')" "oks = ok # oks'"
    using Cons.prems(6) c by (auto simp: r split: prod.splits)
  define g1 where "g1 = (if ok then g(key := g key @ [now]) else g)"
  have step: "tracks s1 now g1 ks" "max_keys s1 = max_keys s" "max_requests s1 = max_requests s"
      "window_seconds s1 = window_seconds s"
    using check_tracks(2-) [OF Cons.prems(1) _ _ Cons.prems(4,5) c] Cons.prems(2,3) by (auto simp: r g1_def)
  have ih: "tracks s' (last (now # map fst rs)) (\<lambda>k. g1 k @ granted k rs oks') ks \<and>
      max_keys s' = max_keys s1 \<and> max_requests s' = max_requests s1 \<and> window_seconds s' = window_seconds s1"
    using Cons.prems step cs(1) by (intro Cons.IH) (auto simp: r)
  have "(\<lambda>k. g1 k @ granted k rs oks') = (\<lambda>k. g k @ granted k (r # rs) oks)"
    by (auto simp: g1_def granted_def cs(2) r)
  then show ?case using ih step by (simp add: r)
qed

lemma limiter_window:
  assumes "sorted (map fst (rs @ [(t, k)]))" "card (snd ` set (rs @ [(t, k)])) \<le> keys"
    and "check_all rs (RateLimiter True limit window keys t0) = (oks, s)"
  shows "fst (check t k s) \<longleftrightarrow> length (filter (fresh t window) (granted k rs oks)) < limit"
proof -
  define ks where "ks = snd ` set (rs @ [(t, k)])"
  define t1 where "t1 = (case rs of [] \<Rightarrow> t | r # _ \<Rightarrow> fst r)"
  let ?s0 = "RateLimiter True limit window keys t0"
  have "tracks ?s0 t1 (\<lambda>_. []) ks" by (simp add: tracks_def RateLimiter_def tracked_def)
  moreover have "sorted (t1 # map fst rs)" using assms(1) by (cases rs) (auto simp: t1_def sorted_append)
  ultimately have run: "tracks s (last (t1 # map fst rs)) (\<lambda>k. granted k rs oks) ks" "max_keys s = keys" "max_requests s = limit"
      "window_seconds s = window"
    using check_all_tracks [of ?s0 t1 "\<lambda>_. []" ks rs oks s] assms(2,3) unfolding ks_def
    by (simp_all add: RateLimiter_def subset_insertI)
  have "last (t1 # map fst rs) \<le> t"
  proof (cases rs)
    case (Cons r rs')
    then have "last (t1 # map fst rs) \<in> set (map fst rs)" using last_in_set [of "map fst rs"] by simp
    then show ?thesis using assms(1) by (auto simp: sorted_append)
  qed (simp add: t1_def)
  then show ?thesis
    using check_tracks(1) [OF run(1), of t k "fst (check t k s)" "snd (check t k s)"] assms(2) run(2-) by (simp add: ks_def)
qed

section \<open>The tracker stays small\<close>

lemma length_delete: "distinct (map fst al) \<Longrightarrow> k \<in> fst ` set al \<Longrightarrow> length (AList.delete k al) = length al - 1"
proof (induction al)
  case (Cons a al)
  show ?case
  proof (cases "fst a = k")
    case True
    then show ?thesis using Cons.prems by (cases a) simp
  next
    case False
    then have "k \<in> fst ` set al" using Cons.prems by auto
    moreover from this have "al \<noteq> []" by auto
    ultimately show ?thesis using Cons False by (cases a) simp
  qed
qed simp

lemma length_fold_delete:
  "distinct ks \<Longrightarrow> set ks \<subseteq> fst ` set al \<Longrightarrow> distinct (map fst al) \<Longrightarrow>
   length (fold AList.delete ks al) = length al - length ks"
proof (induction ks arbitrary: al)
  case (Cons k ks)
  have "set ks \<subseteq> fst ` set (AList.delete k al)" using Cons.prems(1,2) 
    using delete_keys [of k al] by (auto simp flip: set_map)
  then show ?case using Cons length_delete [of al k] by (simp add: distinct_delete)
qed simp

lemma length_update: "length (AList.update k v al) = (if k \<in> fst ` set al then length al else length al + 1)"
  by (induction al) auto

definition small :: "rate_limiter \<Rightarrow> bool" where
  "small s \<longleftrightarrow> distinct (keys_of s) \<and> length (request_tracker s) \<le> max (max_keys s) 19"

lemma oldest_keys_part:
  "distinct (keys_of s) \<Longrightarrow> distinct (oldest_keys (request_tracker s)) \<and>
   set (oldest_keys (request_tracker s)) \<subseteq> set (keys_of s) \<and>
   length (oldest_keys (request_tracker s)) = min (length (request_tracker s)) (max 1 (length (request_tracker s) div 10))"
proof -
  assume d: "distinct (keys_of s)"
  define ks where "ks = map fst (sort_key (\<lambda>(_, ts). latest_activity ts) (request_tracker s))"
  have "distinct ks" "set ks = set (keys_of s)" "length ks = length (request_tracker s)"
    using d by (simp_all add: ks_def distinct_map)
  then show ?thesis unfolding oldest_keys_def ks_def [symmetric]
    using set_take_subset [of "max 1 (length (request_tracker s) div 10)" ks] by (simp add: min.commute)
qed

lemma check_small:
  assumes "small s" shows "small (snd (check now key s)) \<and> max_keys (snd (check now key s)) = max_keys s"
proof (cases "enabled s")
  case True
  define s1 where "s1 = drop_expired now key (periodic_cleanup now s)"
  define n where "n = length (request_tracker s1)"
  let ?m = "max_keys s"
  have m: "max_keys s1 = ?m" by (simp add: s1_def drop_expired_def periodic_cleanup_def cleanup_all_def)
  have p: "distinct (keys_of (periodic_cleanup now s))" "length (request_tracker (periodic_cleanup now s)) \<le> max ?m 19"
    using assms keys_cleanup(1) [of s now] keys_cleanup(3) [of now s] by (auto simp: small_def periodic_cleanup_def)
  have s1: "distinct (keys_of s1)" "key \<in> set (keys_of s1)" "n \<le> max ?m 19 + 1"
    using p by (auto simp: s1_def n_def drop_expired_def distinct_update dom_update length_update)
  define s2 where "s2 = limit_keys s1"
  have s2: "distinct (keys_of s2)" "(if key \<in> set (keys_of s2) then length (request_tracker s2) else length (request_tracker s2) + 1) \<le> max ?m 19"
    "max_keys s2 = ?m"
  proof -
    define ks where "ks = oldest_keys (request_tracker s1)"
    have ks: "distinct ks" "set ks \<subseteq> set (keys_of s1)" "length ks = min n (max 1 (n div 10))"
      using oldest_keys_part [OF s1(1)] by (simp_all add: ks_def n_def)
    have del: "length (fold AList.delete ks (request_tracker s1)) = n - length ks"
      using length_fold_delete [of ks "request_tracker s1"] ks s1(1) by (simp add: n_def)
    have dis: "distinct (map fst (fold AList.delete ks al))" if "distinct (map fst al)" for ks and al :: "(string, rat list) dict"
      using that by (induction ks arbitrary: al) (simp_all add: distinct_delete)
    have "n > 0" using s1(2) by (auto simp: n_def)
    then have "n > ?m \<Longrightarrow> n - length ks + 1 \<le> max ?m 19" using s1(3) ks(3) by (cases "n < 20") auto
    then show "(if key \<in> set (keys_of s2) then length (request_tracker s2) else length (request_tracker s2) + 1) \<le> max ?m 19"
      using s1(2) m del by (auto simp: s2_def limit_keys_def remove_oldest_keys_def n_def ks_def [symmetric])
    show "distinct (keys_of s2)" "max_keys s2 = ?m"
      using s1(1) dis m by (simp_all add: s2_def limit_keys_def remove_oldest_keys_def)
  qed
  then show ?thesis using True
    by (auto simp: check_def Let_def s1_def [symmetric] s2_def [symmetric] small_def length_update distinct_update)
qed (use assms in \<open>simp add: check_def\<close>)

lemma check_all_small: "small s \<Longrightarrow> small (snd (check_all rs s)) \<and> max_keys (snd (check_all rs s)) = max_keys s"
proof (induction rs arbitrary: s)
  case (Cons r rs)
  obtain now key where r: "r = (now, key)" by fastforce
  show ?case using Cons.IH [of "snd (check now key s)"] check_small [OF Cons.prems, of now key]
    by (auto simp: r split: prod.splits)
qed simp

section \<open>Properties\<close>

text \<open>C12: With no more destinations than the limiter can track, its verdict is that of a sliding window: a request
  is let through exactly when fewer than the limit of the requests let through to the same destination are
  younger than the window.\<close>

theorem limiter_sliding_window:
  assumes "sorted (map fst (rs @ [(t, k)]))" "card (snd ` set (rs @ [(t, k)])) \<le> keys"
    and "check_all rs (RateLimiter True limit window keys t0) = (oks, s)"
  shows "fst (check t k s) \<longleftrightarrow> length (filter (fresh t window) (granted k rs oks)) < limit"
  using assms by (rule limiter_window)

theorem limiter_sliding_window_witness:
  "let rs = [(0, ''h''), (1, ''h''), (2, ''g'')]; (oks, s) = check_all rs (RateLimiter True 2 60 2 0) in
   fst (check 3 ''h'' s) \<longleftrightarrow> length (filter (fresh 3 60) (granted ''h'' rs oks)) < 2"
proof -
  obtain oks s where run: "check_all [(0, ''h''), (1, ''h''), (2, ''g'')] (RateLimiter True 2 60 2 0) = (oks, s)" by fastforce
  then show ?thesis unfolding Let_def run prod.case by (intro limiter_sliding_window [OF _ _ run]) (simp_all add: card_insert_if)
qed

text \<open>However many destinations are asked for, the limiter tracks at most the configured number of them (and
  never more than nineteen where fewer are configured).\<close>

lemma limiter_memory_bound:
  "length (request_tracker (snd (check_all rs (RateLimiter on limit window keys t0)))) \<le> max keys 19"
proof -
  let ?s = "RateLimiter on limit window keys t0"
  have "small ?s" "max_keys ?s = keys" by (simp_all add: small_def RateLimiter_def)
  then show ?thesis using check_all_small [of ?s rs] by (auto simp: small_def)
qed

text \<open>
  The key that is being checked has an empty list at first and so counts as the oldest: while fewer than twenty
  keys are tracked it is the only one removed, and is put back at once, so a limit below nineteen has no effect.
\<close>

lemma small_limit_ignored:
  "length (request_tracker (snd (check_all [(1, ''a''), (1, ''b''), (1, ''c'')] (RateLimiter True 3 60 1 0)))) = 3"
  by code_simp

end
