(* ===== verification/Authentication.thy ===== *)
theory Authentication
  imports Pipefilters Py_Regex Py_Hash
begin

text \<open>
  Authentication (\<open>src/src/cowrie/core/auth.py\<close>, \<open>src/src/cowrie/core/checkers.py\<close>): the user database, a list of
  allowing and denying rules of which the first that matches decides, and the class that lets a source in
  after a random number of attempts. The compiler of patterns is the parameter \<open>re_compile\<close>, and the number
  that \<open>randint\<close> returns is an argument. An exception is \<open>Inl\<close>.
\<close>

section \<open>The user database\<close>

datatype rule = Literal bytestr | Pattern bytestr bool

type_synonym userdb = "(rule \<times> rule, bool) dict"

definition USERDB_DEFAULTS :: "string list" where
  "USERDB_DEFAULTS =
     [''root:x:!root'', ''root:x:!123456'', ''root:x:!/honeypot/i'', ''root:x:*'', ''phil:x:*'', ''phil:x:fout'']"

definition RULE_RE :: regex where
  "RULE_RE = rseq [rlit ''/'', RGroup 1 (rplus rdot), rlit ''/'', ropt (RGroup 2 (rlit ''i'')), REos]"

definition re_or_bytes :: "re_compile \<Rightarrow> bytestr \<Rightarrow> string + rule" where
  "re_or_bytes rc r =
     (case re_match RULE_RE r of
        None \<Rightarrow> Inr (Literal r)
      | Some m \<Rightarrow>
          let ci = (group_opt m 2 \<noteq> None) in
          (case rc (group m 1) ci of None \<Rightarrow> Inl ''re.error'' | Some _ \<Rightarrow> Inr (Pattern (group m 1) ci)))"

definition adduser :: "re_compile \<Rightarrow> bytestr \<Rightarrow> bytestr \<Rightarrow> userdb \<Rightarrow> string + userdb" where
  "adduser rc login passwd db =
     (case re_or_bytes rc login of
        Inl e \<Rightarrow> Inl e
      | Inr user \<Rightarrow>
          if passwd = [] then Inl ''IndexError''
          else let policy = (hd passwd \<noteq> CHR ''!''); pw = (if policy then passwd else tl passwd) in
          (case re_or_bytes rc pw of
             Inl e \<Rightarrow> Inl e
           | Inr p \<Rightarrow> Inr (AList.update (user, p) policy db)))"

fun load_lines :: "re_compile \<Rightarrow> string list \<Rightarrow> userdb \<Rightarrow> string + userdb" where
  "load_lines rc [] db = Inr db"
| "load_lines rc (line # rest) db =
     (let parts = split_on (CHR '':'') line in
      if startswith line ''#'' \<or> length parts < 3 then load_lines rc rest db
      else (case adduser rc (parts ! 0) (py_strip (parts ! 2)) db of
          Inl e \<Rightarrow> Inl e
        | Inr db' \<Rightarrow> load_lines rc rest db'))"

definition match_rule :: "re_compile \<Rightarrow> rule \<Rightarrow> bytestr \<Rightarrow> bool" where
  "match_rule rc r data =
     (case r of
        Literal b \<Rightarrow> b = ''*'' \<or> b = data
      | Pattern p ci \<Rightarrow> (case rc p ci of None \<Rightarrow> False | Some search \<Rightarrow> search data))"

fun checklogin :: "re_compile \<Rightarrow> userdb \<Rightarrow> bytestr \<Rightarrow> bytestr \<Rightarrow> bool" where
  "checklogin rc [] thelogin thepasswd = False"
| "checklogin rc (((login, passwd), policy) # db) thelogin thepasswd =
     (if match_rule rc login thelogin \<and> match_rule rc passwd thepasswd then policy
      else checklogin rc db thelogin thepasswd)"

section \<open>Random number of attempts\<close>

text \<open>\<open>str(b)\<close> of a bytes object.\<close>

definition bytes_repr :: "bytestr \<Rightarrow> string" where
  "bytes_repr b =
     (let q = (if squote \<in> set b \<and> dquote \<notin> set b then dquote else squote);
          esc1 = (\<lambda>c. if c = q \<or> c = bslash then [bslash, c]
            else if c = tab then bslash # ''t'' else if c = nl then bslash # ''n'' else if c = cr then bslash # ''r''
            else if is_printable_ascii c then [c]
            else [bslash, CHR ''x'', hex_char (ord c div 16), hex_char (ord c mod 16)]) in
      CHR ''b'' # q # concat (map esc1 b) @ [q])"

record ip_info =
  ip_max :: "nat option"
  ip_try :: "nat option"
  ip_tried :: "string list option"
  ip_user :: "string option"
  ip_pw :: "string option"

record auth_random =
  mintry :: nat
  maxtry :: nat
  maxcache :: nat
  auth_cache :: "string list"
  ipinfo :: "(string, ip_info) dict"

definition AuthRandom :: "nat \<Rightarrow> nat \<Rightarrow> nat \<Rightarrow> auth_random" where
  "AuthRandom lo hi cache =
     \<lparr>mintry = lo, maxtry = (if hi < lo then lo + 1 else hi), maxcache = cache, auth_cache = [], ipinfo = []\<rparr>"

definition new_ip :: ip_info where
  "new_ip = \<lparr>ip_max = None, ip_try = Some 0, ip_tried = None, ip_user = None, ip_pw = None\<rparr>"

definition userpass :: "bytestr \<Rightarrow> bytestr \<Rightarrow> string" where
  "userpass login passwd = bytes_repr login @ '':'' @ bytes_repr passwd"

definition set_ip :: "string \<Rightarrow> ip_info \<Rightarrow> auth_random \<Rightarrow> auth_random" where
  "set_ip ip i s = s\<lparr>ipinfo := AList.update ip i (ipinfo s)\<rparr>"

text \<open>A cached pair lets the source in and becomes its credentials.\<close>

definition accept_cached :: "bytestr \<Rightarrow> bytestr \<Rightarrow> ip_info \<Rightarrow> ip_info" where
  "accept_cached login passwd i =
     i\<lparr>ip_max := Some 1, ip_user := Some (bytes_repr login), ip_pw := Some (bytes_repr passwd)\<rparr>"

definition fill_in :: "nat \<Rightarrow> ip_info \<Rightarrow> ip_info" where
  "fill_in roll i =
     i\<lparr>ip_max := Some (case ip_max i of None \<Rightarrow> roll | Some n \<Rightarrow> n),
       ip_try := Some (case ip_try i of None \<Rightarrow> 0 | Some n \<Rightarrow> n),
       ip_tried := Some (case ip_tried i of None \<Rightarrow> [] | Some l \<Rightarrow> l)\<rparr>"

text \<open>
  One attempt that counts. The login is a bytes object and the stored one its string, and the two are never
  equal, so the comparison for a source that comes back is \<^const>\<open>False\<close>.
\<close>

definition count_attempt :: "bytestr \<Rightarrow> bytestr \<Rightarrow> string \<Rightarrow> ip_info \<Rightarrow> auth_random \<Rightarrow> bool \<times> auth_random" where
  "count_attempt login passwd ip i s =
     (let up = userpass login passwd; attempts = the (ip_try i) + 1; need = the (ip_max i);
          j = i\<lparr>ip_try := Some attempts\<rparr> in
      if attempts < need then (False, set_ip ip (j\<lparr>ip_tried := Some (the (ip_tried j) @ [up])\<rparr>) s)
      else if attempts = need then
        (let cache = auth_cache s @ [up] in
         (True, set_ip ip (j\<lparr>ip_user := Some (bytes_repr login), ip_pw := Some (bytes_repr passwd)\<rparr>)
            (s\<lparr>auth_cache := (if length cache > maxcache s then tl cache else cache)\<rparr>)))
      else if ip_user j = None \<or> ip_pw j = None then
        (False, set_ip ip (j\<lparr>ip_tried := Some (the (ip_tried j) @ [up]), ip_try := Some 1\<rparr>) s)
      else (False, set_ip ip j s))"

definition checklogin_random :: "nat \<Rightarrow> bytestr \<Rightarrow> bytestr \<Rightarrow> string \<Rightarrow> auth_random \<Rightarrow> bool \<times> auth_random" where
  "checklogin_random roll login passwd ip s =
     (let up = userpass login passwd; known = map_of (ipinfo s) ip;
          i = (case known of None \<Rightarrow> new_ip | Some k \<Rightarrow> k) in
      if up \<in> set (auth_cache s) then (True, set_ip ip (accept_cached login passwd i) s)
      else let j = fill_in roll i in
        if up \<in> set (the (ip_tried j)) then (False, set_ip ip j s)
        else count_attempt login passwd ip j s)"

section \<open>Checkers\<close>

text \<open>The password checker and its answers to a keyboard-interactive conversation.\<close>

definition request_password :: "(bytestr \<Rightarrow> 's \<Rightarrow> bool \<times> 's) \<Rightarrow> bytestr \<Rightarrow> bytestr \<Rightarrow> 's \<Rightarrow> bytestr option \<times> 's" where
  "request_password check user pw s = (case check pw s of (ok, s') \<Rightarrow> (if ok then Some user else None, s'))"

fun cb_check_pam_user :: "(bytestr \<Rightarrow> 's \<Rightarrow> bool \<times> 's) \<Rightarrow> bytestr \<Rightarrow> bytestr list \<Rightarrow> 's \<Rightarrow> bytestr option \<times> 's" where
  "cb_check_pam_user check user [] s = (None, s)"
| "cb_check_pam_user check user (response # rest) s =
     (case check response s of (ok, s') \<Rightarrow> if ok then (Some user, s') else cb_check_pam_user check user rest s')"

section \<open>Lemmas\<close>

lemma default_rules:
  "re_or_bytes rc ''root'' = Inr (Literal ''root'')" "re_or_bytes rc ''phil'' = Inr (Literal ''phil'')"
  "re_or_bytes rc ''123456'' = Inr (Literal ''123456'')" "re_or_bytes rc ''*'' = Inr (Literal ''*'')"
  "re_or_bytes rc ''fout'' = Inr (Literal ''fout'')"
  "re_or_bytes rc ''/honeypot/i'' = (case rc ''honeypot'' True of None \<Rightarrow> Inl ''re.error'' | Some _ \<Rightarrow> Inr (Pattern ''honeypot'' True))"
proof -
  have "re_match RULE_RE ''root'' = None" "re_match RULE_RE ''phil'' = None" "re_match RULE_RE ''123456'' = None"
      "re_match RULE_RE ''*'' = None" "re_match RULE_RE ''fout'' = None" by code_simp+
  then show "re_or_bytes rc ''root'' = Inr (Literal ''root'')" "re_or_bytes rc ''phil'' = Inr (Literal ''phil'')"
    "re_or_bytes rc ''123456'' = Inr (Literal ''123456'')" "re_or_bytes rc ''*'' = Inr (Literal ''*'')"
    "re_or_bytes rc ''fout'' = Inr (Literal ''fout'')" by (simp_all add: re_or_bytes_def)
  have "map_option (\<lambda>m. (group m 1, group_opt m 2)) (re_match RULE_RE ''/honeypot/i'') = Some (''honeypot'', Some ''i'')"
    by code_simp
  then show "re_or_bytes rc ''/honeypot/i'' = (case rc ''honeypot'' True of None \<Rightarrow> Inl ''re.error'' | Some _ \<Rightarrow> Inr (Pattern ''honeypot'' True))"
    by (auto simp: re_or_bytes_def split: option.split)
qed

lemma default_parts:
  "split_on (CHR '':'') ''root:x:!root'' = [''root'', ''x'', ''!root'']"
  "split_on (CHR '':'') ''root:x:!123456'' = [''root'', ''x'', ''!123456'']"
  "split_on (CHR '':'') ''root:x:!/honeypot/i'' = [''root'', ''x'', ''!/honeypot/i'']"
  "split_on (CHR '':'') ''root:x:*'' = [''root'', ''x'', ''*'']"
  "split_on (CHR '':'') ''phil:x:*'' = [''phil'', ''x'', ''*'']"
  "split_on (CHR '':'') ''phil:x:fout'' = [''phil'', ''x'', ''fout'']"
  "py_strip ''!root'' = ''!root''" "py_strip ''!123456'' = ''!123456''" "py_strip ''!/honeypot/i'' = ''!/honeypot/i''"
  "py_strip ''*'' = ''*''" "py_strip ''fout'' = ''fout''"
  by code_simp+

lemma load_defaults:
  "rc ''honeypot'' True = Some search \<Longrightarrow>
   load_lines rc USERDB_DEFAULTS [] = Inr
     [((Literal ''root'', Literal ''root''), False), ((Literal ''root'', Literal ''123456''), False),
      ((Literal ''root'', Pattern ''honeypot'' True), False), ((Literal ''root'', Literal ''*''), True),
      ((Literal ''phil'', Literal ''*''), True), ((Literal ''phil'', Literal ''fout''), True)]"
  by (simp add: USERDB_DEFAULTS_def adduser_def default_rules default_parts Let_def)

fun attempts :: "nat \<Rightarrow> string \<Rightarrow> (bytestr \<times> bytestr) list \<Rightarrow> auth_random \<Rightarrow> bool list \<times> auth_random" where
  "attempts roll ip [] s = ([], s)"
| "attempts roll ip ((login, passwd) # cs) s =
     (case checklogin_random roll login passwd ip s of
        (ok, s') \<Rightarrow> (case attempts roll ip cs s' of (oks, s'') \<Rightarrow> (ok # oks, s'')))"

abbreviation pair :: "bytestr \<times> bytestr \<Rightarrow> string" where "pair c \<equiv> userpass (fst c) (snd c)"

abbreviation ip_state :: "nat \<Rightarrow> string \<Rightarrow> auth_random \<Rightarrow> ip_info" where
  "ip_state roll ip s \<equiv> fill_in roll (case map_of (ipinfo s) ip of None \<Rightarrow> new_ip | Some k \<Rightarrow> k)"

lemma attempts_count:
  assumes "ip_max (ip_state n ip s) = Some n" "ip_try (ip_state n ip s) = Some k" "ip_tried (ip_state n ip s) = Some tried"
    and "k + length cs = n" "cs \<noteq> []" "distinct (map pair cs)" "set (map pair cs) \<inter> (set tried \<union> set (auth_cache s)) = {}"
  shows "fst (attempts n ip cs s) = replicate (length cs - 1) False @ [True]"
  using assms
proof (induction cs arbitrary: s k tried)
  case (Cons c cs)
  obtain login passwd where c: "c = (login, passwd)" by fastforce
  define i where "i = ip_state n ip s"
  define j where "j = i\<lparr>ip_try := Some (Suc k)\<rparr>"
  define up where "up = userpass login passwd"
  have i: "ip_max i = Some n" "ip_try i = Some k" "ip_tried i = Some tried" using Cons.prems(1-3) by (simp_all add: i_def)
  have fresh: "up \<notin> set tried" "up \<notin> set (auth_cache s)" using Cons.prems(7) by (auto simp: up_def c)
  have step: "checklogin_random n login passwd ip s = count_attempt login passwd ip i s"
    using fresh i(3) by (simp add: checklogin_random_def Let_def i_def up_def [symmetric])
  show ?case
  proof (cases "cs = []")
    case True
    then have "Suc k = n" using Cons.prems(4) by simp
    then show ?thesis using step i True by (simp add: c count_attempt_def Let_def)
  next
    case False
    then have lt: "Suc k < n" using Cons.prems(4) by (cases cs) auto
    define t where "t = set_ip ip (j\<lparr>ip_tried := Some (tried @ [up])\<rparr>) s"
    have one: "count_attempt login passwd ip i s = (False, t)"
      using lt i by (simp add: count_attempt_def Let_def t_def j_def up_def)
    have t: "ip_state n ip t = j\<lparr>ip_tried := Some (tried @ [up])\<rparr>" "auth_cache t = auth_cache s"
      using i by (simp_all add: t_def set_ip_def update_conv' fill_in_def j_def)
    have "fst (attempts n ip cs t) = replicate (length cs - 1) False @ [True]"
      using Cons.prems(4-7) False t i
      by (intro Cons.IH [of t "Suc k" "tried @ [up]"]) (auto simp: j_def up_def c)
    then show ?thesis using step one False by (cases cs) (auto simp: c split: prod.splits)
  qed
qed simp

definition cache_ok :: "auth_random \<Rightarrow> bool" where
  "cache_ok s \<longleftrightarrow> length (auth_cache s) \<le> maxcache s"

lemma random_cache_ok:
  "cache_ok s \<Longrightarrow> cache_ok (snd (checklogin_random roll login passwd ip s)) \<and>
     maxcache (snd (checklogin_random roll login passwd ip s)) = maxcache s"
  by (auto simp: checklogin_random_def count_attempt_def set_ip_def cache_ok_def Let_def)

section \<open>Properties\<close>

text \<open>The built-in database lets in exactly \<open>root\<close> with any password other than root, 123456 and those that
  match the pattern honeypot, and \<open>phil\<close> with any password.\<close>

lemma default_database_exact:
  assumes "rc ''honeypot'' True = Some search"
  shows "\<exists>db. load_lines rc USERDB_DEFAULTS [] = Inr db \<and>
    checklogin rc db login passwd =
      (login = ''phil'' \<or> (login = ''root'' \<and> passwd \<notin> {''root'', ''123456''} \<and> \<not> search passwd))"
  using assms by (auto simp: load_defaults match_rule_def)


text \<open>A new source is let in at exactly the drawn number of attempts: when it tries that many different pairs
  that are not cached, all but the last are refused and the last is accepted.\<close>

lemma random_attempts_exact:
  assumes "map_of (ipinfo s) ip = None" "length cs = n" "n > 0" "distinct (map pair cs)"
    and "set (map pair cs) \<inter> set (auth_cache s) = {}"
  shows "fst (attempts n ip cs s) = replicate (n - 1) False @ [True]"
  using attempts_count [where n = n and ip = ip and s = s and k = 0 and tried = "[]" and cs = cs] assms by (auto simp: fill_in_def new_ip_def)


text \<open>The cache of accepted pairs never exceeds its configured length.\<close>

lemma random_cache_bounded:
  "length (auth_cache (fold (\<lambda>(roll, login, passwd, ip) s. snd (checklogin_random roll login passwd ip s)) tries
     (AuthRandom lo hi n))) \<le> n"
proof -
  have "cache_ok s \<Longrightarrow> cache_ok (fold (\<lambda>(roll, login, passwd, ip) s. snd (checklogin_random roll login passwd ip s)) tries s) \<and>
      maxcache (fold (\<lambda>(roll, login, passwd, ip) s. snd (checklogin_random roll login passwd ip s)) tries s) = maxcache s" for s
  proof (induction tries arbitrary: s)
    case (Cons t tries)
    obtain roll login passwd ip where t: "t = (roll, login, passwd, ip)" by (metis prod_cases4)
    show ?case using Cons.IH [of "snd (checklogin_random roll login passwd ip s)"] random_cache_ok [of s roll login passwd ip] Cons.prems
      by (simp add: t)
  qed simp
  from this [of "AuthRandom lo hi n"] show ?thesis by (simp add: cache_ok_def AuthRandom_def)
qed

text \<open>
  The pair a source was accepted with is refused when it comes back, once the pair has left the cache, although
  it is compared with the stored one.
\<close>

lemma returning_login_refused:
  assumes "map_of (ipinfo s) ip = Some i" "ip_max i = Some n" "ip_try i = Some n"
    and "ip_user i = Some (bytes_repr login)" "ip_pw i = Some (bytes_repr passwd)" "userpass login passwd \<notin> set (auth_cache s)"
  shows "\<not> fst (checklogin_random roll login passwd ip s)"
  using assms by (simp add: checklogin_random_def count_attempt_def fill_in_def Let_def)

text \<open>A rule with an empty password field makes the loading of the database raise.\<close>

lemma empty_password_raises: "load_lines rc [''root:x:''] [] = Inl ''IndexError''"
proof -
  have "split_on (CHR '':'') ''root:x:'' = [''root'', ''x'', []]" by code_simp
  then show ?thesis by (simp add: adduser_def default_rules Let_def)
qed

end
