(* ===== verification/Model_Client.thy ===== *)
theory Model_Client
  imports Protocol
begin

text \<open>
  The client of the language model (\<open>src/src/cowrie/llm/llm.py\<close>, \<open>src/src/cowrie/llm/providers/\<close>): how a request
  is put into the wire format of a provider, how its answer and its token counts are read back, the one retry
  after a rejected credential, and the consumer of a streamed answer. The JSON decoder is the parameter
  \<open>loads\<close>, the server a function from the number of the attempt to a status and a body; an exception is
  \<^const>\<open>None\<close>.
\<close>

section \<open>Decoded JSON\<close>

datatype json = JNull | JBool bool | JInt int | JFloat rat | JStr string | JList "json list" | JObj "(string \<times> json) list"

type_synonym json_loads = "bytestr \<Rightarrow> json option"

fun truthy :: "json \<Rightarrow> bool" where
  "truthy JNull = False"
| "truthy (JBool b) = b"
| "truthy (JInt n) = (n \<noteq> 0)"
| "truthy (JFloat x) = (x \<noteq> 0)"
| "truthy (JStr s) = (s \<noteq> [])"
| "truthy (JList l) = (l \<noteq> [])"
| "truthy (JObj fs) = (fs \<noteq> [])"

text \<open>\<open>d.get(k)\<close> and \<open>x.get(k)\<close> of a value that may not be a dictionary.\<close>

definition field :: "string \<Rightarrow> (string \<times> json) list \<Rightarrow> json" where
  "field k fs = (case map_of fs k of None \<Rightarrow> JNull | Some v \<Rightarrow> v)"

definition jget :: "string \<Rightarrow> json \<Rightarrow> json option" where
  "jget k j = (case j of JObj fs \<Rightarrow> Some (field k fs) | _ \<Rightarrow> None)"

definition or_empty :: "json \<Rightarrow> json" where
  "or_empty j = (if truthy j then j else JObj [])"

definition is_dict :: "json \<Rightarrow> bool" where
  "is_dict j \<longleftrightarrow> (case j of JObj _ \<Rightarrow> True | _ \<Rightarrow> False)"

text \<open>\<open>int(x)\<close>.\<close>

definition json_int :: "json \<Rightarrow> int option" where
  "json_int j =
     (case j of
        JInt n \<Rightarrow> Some n
      | JBool b \<Rightarrow> Some (if b then 1 else 0)
      | JFloat x \<Rightarrow> Some (if x < 0 then - \<lfloor>- x\<rfloor> else \<lfloor>x\<rfloor>)
      | JStr s \<Rightarrow> py_int s
      | _ \<Rightarrow> None)"

section \<open>Requests\<close>

record request =
  rq_system :: string
  rq_messages :: "(role \<times> string) list"
  rq_max_tokens :: nat
  rq_temperature :: rat
  rq_blocks :: "(string \<times> bool) list option"

text \<open>The request of an interactive turn.\<close>

definition session_request :: "llm_request \<Rightarrow> request" where
  "session_request r =
     \<lparr>rq_system = [], rq_messages = messages r, rq_max_tokens = req_max_tokens r, rq_temperature = req_temperature r,
      rq_blocks = Some (system_blocks r)\<rparr>"

definition system_text :: "request \<Rightarrow> string" where
  "system_text r =
     (case rq_blocks r of
        Some (b # bs) \<Rightarrow> py_join [nl, nl] (filter (\<lambda>t. t \<noteq> []) (map fst (b # bs)))
      | _ \<Rightarrow> rq_system r)"

definition prompt_message :: "string \<Rightarrow> role \<times> string" where
  "prompt_message raw =
     (if startswith raw ''User:'' then (User, py_strip (drop 5 raw))
      else if startswith raw ''System:'' then (Assistant, py_strip (drop 7 raw))
      else (User, raw))"

definition messages_from_prompt :: "string list \<Rightarrow> string \<times> (role \<times> string) list" where
  "messages_from_prompt prompt =
     (case prompt of [] \<Rightarrow> ([], []) | system # items \<Rightarrow> (system, map prompt_message items))"

definition get_response_request :: "nat \<Rightarrow> rat \<Rightarrow> string list \<Rightarrow> request" where
  "get_response_request max_toks temp prompt =
     (case messages_from_prompt prompt of (system, msgs) \<Rightarrow>
        \<lparr>rq_system = system, rq_messages = msgs, rq_max_tokens = max_toks, rq_temperature = temp, rq_blocks = None\<rparr>)"

section \<open>Wire formats\<close>

definition role_name :: "role \<Rightarrow> string" where
  "role_name r = (case r of User \<Rightarrow> ''user'' | Assistant \<Rightarrow> ''assistant'')"

definition wire_message :: "role \<times> string \<Rightarrow> json" where
  "wire_message m = JObj [(''role'', JStr (role_name (fst m))), (''content'', JStr (snd m))]"

definition text_block :: "bool \<Rightarrow> string \<Rightarrow> json" where
  "text_block cacheable t =
     JObj ([(''type'', JStr ''text''), (''text'', JStr t)] @
       (if cacheable then [(''cache_control'', JObj [(''type'', JStr ''ephemeral'')])] else []))"

definition build_anthropic_system :: "bool \<Rightarrow> request \<Rightarrow> json" where
  "build_anthropic_system cache_default r =
     (case rq_blocks r of
        Some (b # bs) \<Rightarrow>
          (let blocks = map (\<lambda>(t, cacheable). text_block cacheable t) (filter (\<lambda>(t, _). t \<noteq> []) (b # bs)) in
           if blocks \<noteq> [] then JList blocks else JStr [])
      | _ \<Rightarrow>
          if cache_default \<and> rq_system r \<noteq> [] then JList [text_block True (rq_system r)] else JStr (rq_system r))"

definition anthropic_body :: "string \<Rightarrow> bool \<Rightarrow> request \<Rightarrow> json" where
  "anthropic_body model cache_default r =
     JObj [(''model'', JStr model), (''system'', build_anthropic_system cache_default r),
           (''messages'', JList (if rq_messages r = [] then [wire_message (User, [])] else map wire_message (rq_messages r))),
           (''max_tokens'', JInt (int (rq_max_tokens r))), (''temperature'', JFloat (rq_temperature r))]"

definition codex_body :: "string \<Rightarrow> request \<Rightarrow> json" where
  "codex_body model r =
     (let sys = system_text r in
      JObj [(''model'', JStr model),
            (''messages'', JList ((if sys \<noteq> [] then [JObj [(''role'', JStr ''system''), (''content'', JStr sys)]] else []) @
               map wire_message (rq_messages r))),
            (''max_tokens'', JInt (int (rq_max_tokens r))), (''temperature'', JFloat (rq_temperature r))])"

definition codex_oauth_body :: "string \<Rightarrow> request \<Rightarrow> json" where
  "codex_oauth_body model r =
     JObj [(''model'', JStr model), (''instructions'', JStr (system_text r)),
           (''input'', JList (if rq_messages r = [] then [wire_message (User, [])] else map wire_message (rq_messages r))),
           (''store'', JBool False), (''stream'', JBool True)]"

section \<open>Token counts\<close>

type_synonym usage = "(string, int) dict"

text \<open>\<open>acc[dst] = int(d[src])\<close> when \<open>src\<close> is there and the guard holds.\<close>

definition copy_count :: "bool \<Rightarrow> string \<Rightarrow> string \<Rightarrow> (string \<times> json) list \<Rightarrow> usage \<Rightarrow> usage option" where
  "copy_count guard src dst d acc =
     (case map_of d src of
        None \<Rightarrow> Some acc
      | Some v \<Rightarrow> if \<not> guard then Some acc else map_option (\<lambda>n. AList.update dst n acc) (json_int v))"

definition count_of :: "string \<Rightarrow> usage \<Rightarrow> int" where
  "count_of k acc = (case map_of acc k of None \<Rightarrow> 0 | Some n \<Rightarrow> n)"

definition normalize_anthropic_usage :: "(string \<times> json) list \<Rightarrow> usage option" where
  "normalize_anthropic_usage d =
     Option.bind (copy_count True ''input_tokens'' ''input_tokens'' d []) (\<lambda>u1.
     Option.bind (copy_count True ''output_tokens'' ''output_tokens'' d u1) (\<lambda>u2.
     Option.bind (case map_of d ''cache_read_input_tokens'' of None \<Rightarrow> Some 0 | Some v \<Rightarrow> json_int v) (\<lambda>cached.
     Option.bind (copy_count True ''cache_creation_input_tokens'' ''cache_creation_tokens'' d u2) (\<lambda>u3.
       let u4 = (if cached \<noteq> 0 then AList.update ''cached_tokens'' cached u3 else u3) in
       Some (if u4 = [] then []
         else AList.update ''total_tokens'' (count_of ''input_tokens'' u4 + count_of ''output_tokens'' u4) u4)))))"

definition cached_detail :: "(string \<times> json) list \<Rightarrow> usage \<Rightarrow> usage option" where
  "cached_detail d acc =
     (case field ''prompt_tokens_details'' d of
        JObj details \<Rightarrow>
          (case map_of details ''cached_tokens'' of
             None \<Rightarrow> Some acc
           | Some v \<Rightarrow> map_option (\<lambda>n. if n \<noteq> 0 then AList.update ''cached_tokens'' n acc else acc) (json_int v))
      | _ \<Rightarrow> Some acc)"

definition normalize_openai_usage :: "(string \<times> json) list \<Rightarrow> usage option" where
  "normalize_openai_usage d =
     Option.bind (copy_count True ''prompt_tokens'' ''input_tokens'' d []) (\<lambda>u1.
     Option.bind (copy_count True ''completion_tokens'' ''output_tokens'' d u1) (\<lambda>u2.
     Option.bind (copy_count (map_of u2 ''input_tokens'' = None) ''input_tokens'' ''input_tokens'' d u2) (\<lambda>u3.
     Option.bind (copy_count (map_of u3 ''output_tokens'' = None) ''output_tokens'' ''output_tokens'' d u3) (\<lambda>u4.
     Option.bind (cached_detail d u4) (\<lambda>u5.
       if map_of d ''total_tokens'' \<noteq> None then copy_count True ''total_tokens'' ''total_tokens'' d u5
       else Some (if u5 = [] then []
         else AList.update ''total_tokens'' (count_of ''input_tokens'' u5 + count_of ''output_tokens'' u5) u5))))))"

definition normalize_usage :: "(string \<times> json) list \<Rightarrow> usage option" where
  "normalize_usage d =
     Option.bind (normalize_anthropic_usage d) (\<lambda>norm.
       if count_of ''total_tokens'' norm \<noteq> 0 then Some norm else normalize_openai_usage d)"

definition merge_usage :: "usage \<Rightarrow> usage \<Rightarrow> usage" where
  "merge_usage new old = fold (\<lambda>(k, n). AList.update k n) new old"

definition capture_usage :: "json \<Rightarrow> usage \<Rightarrow> usage option" where
  "capture_usage payload old =
     Option.bind (jget ''usage'' payload) (\<lambda>u.
       case u of JObj d \<Rightarrow> map_option (\<lambda>norm. merge_usage norm old) (normalize_usage d) | _ \<Rightarrow> Some old)"

section \<open>Answers\<close>

text \<open>\<open>repr(x)\<close> and \<open>str(x)\<close> of a decoded value.\<close>

fun json_repr :: "json \<Rightarrow> string" where
  "json_repr JNull = ''None''"
| "json_repr (JBool b) = (if b then ''True'' else ''False'')"
| "json_repr (JInt n) = (if n < 0 then CHR ''-'' # str_of_nat (nat (- n)) else str_of_nat (nat n))"
| "json_repr (JFloat x) = float_repr x"
| "json_repr (JStr s) = py_repr s"
| "json_repr (JList l) = ''['' @ py_join '', '' (map json_repr l) @ '']''"
| "json_repr (JObj fs) = ''{'' @ py_join '', '' (map (\<lambda>(k, v). py_repr k @ '': '' @ json_repr v) fs) @ ''}''"

definition json_str :: "json \<Rightarrow> string" where
  "json_str j = (case j of JStr s \<Rightarrow> s | _ \<Rightarrow> json_repr j)"

text \<open>\<open>x.get(k, d)\<close>.\<close>

definition jget_default :: "string \<Rightarrow> json \<Rightarrow> json \<Rightarrow> json option" where
  "jget_default k dflt j = (case j of JObj fs \<Rightarrow> Some (case map_of fs k of None \<Rightarrow> dflt | Some v \<Rightarrow> v) | _ \<Rightarrow> None)"

fun first_text :: "json list \<Rightarrow> string option" where
  "first_text [] = Some []"
| "first_text (block # rest) =
     (case jget ''type'' block of
        None \<Rightarrow> None
      | Some t \<Rightarrow> if t = JStr ''text'' then map_option json_str (jget_default ''text'' (JStr []) block) else first_text rest)"

text \<open>A loop over something that is not a list of dictionaries raises at its first element.\<close>

definition parse_anthropic :: "json \<Rightarrow> string option" where
  "parse_anthropic payload =
     (case jget ''content'' payload of
        None \<Rightarrow> None
      | Some c \<Rightarrow> if \<not> truthy c then Some [] else (case c of JList blocks \<Rightarrow> first_text blocks | _ \<Rightarrow> None))"

definition parse_codex :: "json \<Rightarrow> string option" where
  "parse_codex payload =
     (case jget ''choices'' payload of
        None \<Rightarrow> None
      | Some c \<Rightarrow>
          if \<not> truthy c then Some []
          else (case c of
              JList (choice # _) \<Rightarrow>
                Option.bind (jget_default ''message'' (JObj []) choice) (\<lambda>m.
                  map_option json_str (jget_default ''content'' (JStr []) m))
            | _ \<Rightarrow> None))"

record provider =
  format_body :: "request \<Rightarrow> json"
  parse_response :: "json \<Rightarrow> string option"
  auth_reloaded :: bool

definition parse_body :: "json_loads \<Rightarrow> provider \<Rightarrow> bytestr \<Rightarrow> usage \<Rightarrow> string option \<times> usage" where
  "parse_body loads p body u =
     (case loads body of
        None \<Rightarrow> (None, u)
      | Some payload \<Rightarrow>
          (case capture_usage payload u of
             None \<Rightarrow> (None, u)
           | Some u' \<Rightarrow> (parse_response p payload, u')))"

text \<open>
  A connection error is the status 599. The result is the number of requests sent, the text, and the token
  counts; an answer that cannot be read is the empty text.
\<close>

type_synonym server = "nat \<Rightarrow> json \<Rightarrow> nat \<times> bytestr"

function generate :: "json_loads \<Rightarrow> provider \<Rightarrow> server \<Rightarrow> request \<Rightarrow> bool \<Rightarrow> nat \<Rightarrow> usage \<Rightarrow> nat \<times> string \<times> usage" where
  "generate loads p server r retried sent u =
     (case server sent (format_body p r) of
        (status, body) \<Rightarrow>
          if status = 401 \<and> \<not> retried \<and> auth_reloaded p then generate loads p server r True (sent + 1) u
          else if status \<noteq> 200 then (sent + 1, [], u)
          else (case parse_body loads p body u of
              (None, u') \<Rightarrow> (sent + 1, [], u')
            | (Some t, u') \<Rightarrow> (sent + 1, t, u')))"
  by pat_completeness auto
termination by (relation "measure (\<lambda>(_, _, _, _, retried, _, _). if retried then 0 else 1)") auto

declare generate.simps [simp del]

text \<open>What a new credential is: \<open>_on_auth_failure\<close> of the providers that read a token from disk.\<close>

definition credential_changed :: "string \<Rightarrow> string \<Rightarrow> bool" where
  "credential_changed old new \<longleftrightarrow> new \<noteq> [] \<and> new \<noteq> old"

section \<open>Lemmas\<close>

text \<open>The system texts of a body, wherever its wire format has them.\<close>

definition block_texts :: "json \<Rightarrow> string list" where
  "block_texts j =
     (case j of
        JStr s \<Rightarrow> [s]
      | JList bs \<Rightarrow> concat (map (\<lambda>b. case b of JObj fs \<Rightarrow> (case field ''text'' fs of JStr s \<Rightarrow> [s] | _ \<Rightarrow> []) | _ \<Rightarrow> []) bs)
      | _ \<Rightarrow> [])"

definition system_texts :: "json \<Rightarrow> string list" where
  "system_texts body =
     (case body of
        JObj fs \<Rightarrow>
          block_texts (field ''system'' fs) @ block_texts (field ''instructions'' fs) @
          (case field ''messages'' fs of
             JList (JObj m # _) \<Rightarrow> if field ''role'' m = JStr ''system'' then block_texts (field ''content'' m) else []
           | _ \<Rightarrow> [])
      | _ \<Rightarrow> [])"

lemma block_texts_blocks: "block_texts (JList (map (\<lambda>(t, c). text_block c t) bs)) = map fst bs"
  by (induction bs) (auto simp: block_texts_def text_block_def field_def)

lemma anthropic_blocks:
  assumes "rq_blocks r = Some bs" "filter (\<lambda>(t, _). t \<noteq> []) bs \<noteq> []"
  shows "build_anthropic_system cache r = JList (map (\<lambda>(t, c). text_block c t) (filter (\<lambda>(t, _). t \<noteq> []) bs))"
proof (cases bs)
  case (Cons x xs)
  show ?thesis
    using assms(2) unfolding build_anthropic_system_def assms(1) Cons
    by (simp only: option.case list.case Let_def map_is_Nil_conv not_False_eq_True if_True)
qed (use assms in simp)

lemma sublist_join: "t \<in> set ts \<Longrightarrow> sublist t (py_join sep ts)"
proof (induction ts)
  case (Cons u ts)
  show ?case
  proof (cases "ts = []")
    case False
    then have "py_join sep (u # ts) = u @ sep @ py_join sep ts" by (cases ts) simp_all
    then show ?thesis using Cons by (auto simp: sublist_append)
  qed (use Cons in simp)
qed simp

lemma system_text_blocks:
  "(t, c) \<in> set bs \<Longrightarrow> t \<noteq> [] \<Longrightarrow> rq_blocks r = Some bs \<Longrightarrow> sublist t (system_text r) \<and> system_text r \<noteq> []"
proof -
  assume a: "(t, c) \<in> set bs" "t \<noteq> []" "rq_blocks r = Some bs"
  then have e: "system_text r = py_join [nl, nl] (filter (\<lambda>t. t \<noteq> []) (map fst bs))" by (cases bs) (auto simp: system_text_def)
  have "t \<in> set (filter (\<lambda>t. t \<noteq> []) (map fst bs))" using a by force
  then have "sublist t (system_text r)" unfolding e by (rule sublist_join)
  then show ?thesis using a(2) by auto
qed

section \<open>Properties\<close>



text \<open>One turn costs at most two requests: the second only after the first was rejected with status 401 and the
  credential has changed on disk; and whatever the server sends, a turn ends, with the empty text unless the
  last status is 200.\<close>

lemma generate_bounded:
  "case generate loads p server r False 0 [] of (sent, answer_text, _) \<Rightarrow>
     (let first = fst (server 0 (format_body p r)); retry = (first = 401 \<and> auth_reloaded p) in
      sent = (if retry then 2 else 1) \<and>
      (fst (server (sent - 1) (format_body p r)) = 200 \<or> answer_text = []))"
  by (auto simp: generate.simps [of loads p server r False] generate.simps [of loads p server r True] Let_def
      split: prod.splits option.splits)

text \<open>An answer without content, as the API gives it for a refusal, is shown as the word None.\<close>

lemma codex_null_content:
  "parse_codex (JObj [(''choices'', JList [JObj [(''message'', JObj [(''content'', JNull)])]])]) = Some ''None''"
  by (simp add: parse_codex_def jget_def field_def jget_default_def json_str_def)

end
