(* ===== verification/Stream_Consumer.thy ===== *)
theory Stream_Consumer
  imports Model_Client Scp_Sink Stream_Machine
begin

text \<open>
  The consumer of a streamed answer (\<open>src/src/cowrie/llm/providers/streaming.py\<close>): bytes of the body are cut
  into lines, the \<open>data:\<close> lines are decoded, and every piece of text is passed on at once. The JSON decoder is a
  parameter that can also fail with an exception that is not a \<open>JSONDecodeError\<close> (bytes that are no text);
  such an exception leaves \<open>dataReceived\<close>.
\<close>

section \<open>Events\<close>

datatype loaded = Loaded json | Malformed | Undecodable

type_synonym sse_loads = "bytestr \<Rightarrow> loaded"
type_synonym parse_event = "(string \<times> json) list \<Rightarrow> (json \<times> json) option"

text \<open>The result is the piece of text and the usage, null when there is none; \<^const>\<open>None\<close> is an exception.\<close>

definition or_null :: "json \<Rightarrow> json" where
  "or_null j = (if truthy j then j else JNull)"

definition dict_or_null :: "json \<Rightarrow> json" where
  "dict_or_null j = (if is_dict j then j else JNull)"

definition parse_anthropic_event :: parse_event where
  "parse_anthropic_event event =
     (let etype = (case map_of event ''type'' of None \<Rightarrow> JStr [] | Some t \<Rightarrow> t) in
      if etype = JStr ''content_block_delta'' then
        map_option (\<lambda>t. (or_null t, JNull)) (jget ''text'' (or_empty (field ''delta'' event)))
      else if etype = JStr ''message_delta'' then Some (JNull, dict_or_null (field ''usage'' event))
      else if etype = JStr ''message_start'' then
        map_option (\<lambda>u. (JNull, dict_or_null u)) (jget ''usage'' (or_empty (field ''message'' event)))
      else Some (JNull, JNull))"

definition parse_openai_event :: parse_event where
  "parse_openai_event event =
     (let choices = field ''choices'' event; usage = dict_or_null (field ''usage'' event) in
      if truthy choices then
        (case choices of
           JList (first # _) \<Rightarrow>
             (case jget ''delta'' first of
                None \<Rightarrow> None
              | Some delta \<Rightarrow> map_option (\<lambda>t. (or_null t, usage)) (jget ''content'' (or_empty delta)))
         | _ \<Rightarrow> None)
      else Some (JNull, usage))"

section \<open>The consumer\<close>

record consumer =
  st_buf :: bytestr
  st_text :: "json list"
  st_usage :: "(string \<times> json) list"
  decoded_events :: nat
  matched_events :: nat

definition new_consumer :: consumer where
  "new_consumer = \<lparr>st_buf = [], st_text = [], st_usage = [], decoded_events = 0, matched_events = 0\<rparr>"

definition byte_strip :: "bytestr \<Rightarrow> bytestr" where
  "byte_strip b = rev (dropWhile is_byte_space (rev (dropWhile is_byte_space b)))"

definition take_event :: "json \<Rightarrow> json \<Rightarrow> consumer \<Rightarrow> consumer" where
  "take_event t usage c =
     (let c1 = (if truthy t then c\<lparr>matched_events := matched_events c + 1, st_text := st_text c @ [t]\<rparr> else c) in
      case usage of
        JObj (u # us) \<Rightarrow>
          c1\<lparr>matched_events := matched_events c1 + 1,
             st_usage := fold (\<lambda>(k, v). AList.update k v) (u # us) (st_usage c1)\<rparr>
      | _ \<Rightarrow> c1)"

text \<open>The flag says that an exception leaves the method.\<close>

definition process_line :: "sse_loads \<Rightarrow> parse_event \<Rightarrow> bytestr \<Rightarrow> consumer \<Rightarrow> bool \<times> consumer" where
  "process_line ld pe line c =
     (if take 5 line \<noteq> ''data:'' then (False, c)
      else let payload = byte_strip (drop 5 line) in
        if payload = [] \<or> payload = ''[DONE]'' then (False, c)
        else case ld payload of
          Undecodable \<Rightarrow> (True, c)
        | Malformed \<Rightarrow> (False, c)
        | Loaded (JObj event) \<Rightarrow>
            (let c1 = c\<lparr>decoded_events := decoded_events c + 1\<rparr> in
             case pe event of
               None \<Rightarrow> (False, c1)
             | Some (t, usage) \<Rightarrow> (False, take_event t usage c1))
        | Loaded _ \<Rightarrow> (False, c))"

lemma process_line_buf [simp]: "st_buf (snd (process_line ld pe line c)) = st_buf c"
  by (simp add: process_line_def take_event_def Let_def split: loaded.split json.split option.split list.split)

lemma process_line_other_buf:
  "process_line ld pe line (c\<lparr>st_buf := b\<rparr>) = (let (r, c') = process_line ld pe line c in (r, c'\<lparr>st_buf := b\<rparr>))"
  by (simp add: process_line_def take_event_def Let_def split: loaded.split json.split option.split list.split prod.split)

function drain :: "sse_loads \<Rightarrow> parse_event \<Rightarrow> consumer \<Rightarrow> bool \<times> consumer" where
  "drain ld pe c =
     (if nl \<in> set (st_buf c) then
        (case process_line ld pe (takeWhile (\<lambda>x. x \<noteq> nl) (st_buf c))
                (c\<lparr>st_buf := tl (dropWhile (\<lambda>x. x \<noteq> nl) (st_buf c))\<rparr>) of
           (r, c') \<Rightarrow> if r then (True, c') else drain ld pe c')
      else (False, c))"
  by pat_completeness auto
termination
proof (relation "measure (\<lambda>(_, _, c). length (st_buf c))", goal_cases)
  case (2 ld pe c r c')
  let ?m = "tl (dropWhile (\<lambda>x. x \<noteq> nl) (st_buf c))"
  have "st_buf c' = ?m" using arg_cong [OF 2(2), of "\<lambda>p. st_buf (snd p)"] by simp
  moreover have "dropWhile (\<lambda>x. x \<noteq> nl) (st_buf c) \<noteq> []" using 2(1) by (auto simp: dropWhile_eq_Nil_conv)
  ultimately show ?case
    using length_dropWhile_le [of "\<lambda>x. x \<noteq> nl" "st_buf c"]
    by (cases "dropWhile (\<lambda>x. x \<noteq> nl) (st_buf c)") auto
qed simp

declare drain.simps [simp del]

definition data_received :: "sse_loads \<Rightarrow> parse_event \<Rightarrow> consumer \<Rightarrow> bytestr \<Rightarrow> bool \<times> consumer" where
  "data_received ld pe c data = drain ld pe (c\<lparr>st_buf := st_buf c @ data\<rparr>)"

datatype diagnosis = Healthy | NothingDecoded | NothingMatched nat | NoText

definition diagnose :: "consumer \<Rightarrow> diagnosis" where
  "diagnose c =
     (if st_text c \<noteq> [] then Healthy
      else if decoded_events c = 0 then NothingDecoded
      else if matched_events c = 0 then NothingMatched (decoded_events c)
      else NoText)"

text \<open>\<open>connectionLost\<close>: the last partial line is taken, and the completion fires with the text, the usage and the
  diagnosis. It does not fire (\<^const>\<open>None\<close>) when the last line raises, or when a piece of text is no string.\<close>

definition joined_text :: "json list \<Rightarrow> string option" where
  "joined_text js =
     (if list_all (\<lambda>j. case j of JStr _ \<Rightarrow> True | _ \<Rightarrow> False) js
      then Some (concat (map (\<lambda>j. case j of JStr s \<Rightarrow> s | _ \<Rightarrow> []) js)) else None)"

definition stream_lost :: "sse_loads \<Rightarrow> parse_event \<Rightarrow> consumer \<Rightarrow> (string \<times> (string \<times> json) list \<times> diagnosis) option" where
  "stream_lost ld pe c =
     (case (if st_buf c \<noteq> [] then process_line ld pe (st_buf c) c else (False, c)) of
        (r, c1) \<Rightarrow>
          if r then None
          else map_option (\<lambda>t. (t, st_usage c1, diagnose c1)) (joined_text (st_text c1)))"

text \<open>The packets of a body in order. After an exception in \<open>dataReceived\<close> the connection is dropped.\<close>

primrec feed_stream :: "sse_loads \<Rightarrow> parse_event \<Rightarrow> consumer \<Rightarrow> bytestr list \<Rightarrow> bool \<times> consumer" where
  "feed_stream ld pe c [] = (False, c)"
| "feed_stream ld pe c (d # ds) =
     (case data_received ld pe c d of (r, c') \<Rightarrow> if r then (True, c') else feed_stream ld pe c' ds)"

definition stream_body :: "sse_loads \<Rightarrow> parse_event \<Rightarrow> bytestr list \<Rightarrow> (string \<times> (string \<times> json) list \<times> diagnosis) option" where
  "stream_body ld pe packets = stream_lost ld pe (snd (feed_stream ld pe new_consumer packets))"

section \<open>A streamed turn\<close>

text \<open>The body asks for a stream (\<open>_format_streaming_body\<close> of the Anthropic providers).\<close>

definition anthropic_streaming_body :: "string \<Rightarrow> bool \<Rightarrow> request \<Rightarrow> json" where
  "anthropic_streaming_body model cache_default r =
     (case anthropic_body model cache_default r of
        JObj fs \<Rightarrow> JObj (AList.update ''stream'' (JBool True) fs)
      | j \<Rightarrow> j)"

text \<open>
  \<open>generate_streaming\<close> on the status and the packets of the answer (a connection that fails gives the empty text
  too, as any status other than 200). When the completion does not fire, the timeout, if there is one, gives the
  empty text; token counts that are no numbers make the turn fail.
\<close>

datatype stream_result = Answered string usage | StreamFailed | NoAnswer

definition generate_streaming ::
  "json_loads \<Rightarrow> sse_loads \<Rightarrow> parse_event \<Rightarrow> provider \<Rightarrow> server \<Rightarrow> request \<Rightarrow> bool \<Rightarrow> nat \<times> bytestr list \<Rightarrow> usage \<Rightarrow> stream_result"
where
  "generate_streaming loads ld pe p server r has_timeout reply u =
     (if fst reply \<noteq> 200 then Answered [] u
      else case stream_body ld pe (snd reply) of
        None \<Rightarrow> if has_timeout then Answered [] u else NoAnswer
      | Some (t, usage, d) \<Rightarrow>
          (case (if usage = [] then Some u else map_option (\<lambda>norm. merge_usage norm u) (normalize_usage usage)) of
             None \<Rightarrow> StreamFailed
           | Some u1 \<Rightarrow>
               if d \<noteq> Healthy then (case generate loads p server r False 0 u1 of (_, t2, u2) \<Rightarrow> Answered t2 u2)
               else Answered t u1))"

section \<open>Lemmas\<close>

lemma process_line_text: "\<exists>ts. st_text (snd (process_line ld pe line c)) = st_text c @ ts"
  by (simp add: process_line_def take_event_def Let_def split: loaded.split json.split option.split list.split)

lemma drain_more:
  "drain ld pe (c\<lparr>st_buf := st_buf c @ d\<rparr>) =
    (case drain ld pe c of (r, c') \<Rightarrow>
       if r then (True, c'\<lparr>st_buf := st_buf c' @ d\<rparr>) else drain ld pe (c'\<lparr>st_buf := st_buf c' @ d\<rparr>))"
proof (induction ld pe c rule: drain.induct)
  case (1 ld pe c)
  show ?case
  proof (cases "nl \<in> set (st_buf c)")
    case False
    then show ?thesis by (simp add: drain.simps [of ld pe c])
  next
    case True
    define l where "l = takeWhile (\<lambda>x. x \<noteq> nl) (st_buf c)"
    define m where "m = tl (dropWhile (\<lambda>x. x \<noteq> nl) (st_buf c))"
    have ne: "dropWhile (\<lambda>x. x \<noteq> nl) (st_buf c) \<noteq> []" using True by auto
    have l: "takeWhile (\<lambda>x. x \<noteq> nl) (st_buf c @ d) = l" using True by (auto simp: l_def takeWhile_append)
    have m: "tl (dropWhile (\<lambda>x. x \<noteq> nl) (st_buf c @ d)) = m @ d" using True ne by (auto simp: m_def dropWhile_append)
    obtain r c' where s: "process_line ld pe l (c\<lparr>st_buf := m\<rparr>) = (r, c')" by force
    have b: "st_buf c' = m" using process_line_buf [of ld pe l "c\<lparr>st_buf := m\<rparr>"] s by simp
    have s': "process_line ld pe l (c\<lparr>st_buf := m @ d\<rparr>) = (r, c'\<lparr>st_buf := m @ d\<rparr>)"
      using process_line_other_buf [of ld pe l "m @ d" "c\<lparr>st_buf := m\<rparr>"] s by simp
    show ?thesis
    proof (cases r)
      case True': True
      show ?thesis using True s s' b
        by (simp add: drain.simps [of ld pe c] drain.simps [of ld pe "c\<lparr>st_buf := st_buf c @ d\<rparr>"] l m True'
            l_def [symmetric] m_def [symmetric])
    next
      case False
      have "drain ld pe (c\<lparr>st_buf := st_buf c @ d\<rparr>) = drain ld pe (c'\<lparr>st_buf := st_buf c' @ d\<rparr>)"
        using True s' b False
        by (simp add: drain.simps [of ld pe "c\<lparr>st_buf := st_buf c @ d\<rparr>"] l m m_def [symmetric])
      moreover have "drain ld pe c = drain ld pe c'"
        using True s False by (simp add: drain.simps [of ld pe c] l_def [symmetric] m_def [symmetric])
      moreover have "drain ld pe (c'\<lparr>st_buf := st_buf c' @ d\<rparr>) =
        (case drain ld pe c' of (r, c'') \<Rightarrow>
           if r then (True, c''\<lparr>st_buf := st_buf c'' @ d\<rparr>) else drain ld pe (c''\<lparr>st_buf := st_buf c'' @ d\<rparr>))"
        using "1" [OF True s [unfolded l_def m_def, symmetric]] False by simp
      ultimately show ?thesis by simp
    qed
  qed
qed

lemma drain_text: "\<exists>ts. st_text (snd (drain ld pe c)) = st_text c @ ts"
proof (induction ld pe c rule: drain.induct)
  case (1 ld pe c)
  show ?case
  proof (cases "nl \<in> set (st_buf c)")
    case True
    obtain r c' where s: "process_line ld pe (takeWhile (\<lambda>x. x \<noteq> nl) (st_buf c))
        (c\<lparr>st_buf := tl (dropWhile (\<lambda>x. x \<noteq> nl) (st_buf c))\<rparr>) = (r, c')" by force
    obtain ts where ts: "st_text c' = st_text c @ ts"
      using process_line_text [of ld pe "takeWhile (\<lambda>x. x \<noteq> nl) (st_buf c)"
          "c\<lparr>st_buf := tl (dropWhile (\<lambda>x. x \<noteq> nl) (st_buf c))\<rparr>"] s by auto
    show ?thesis using "1" [OF True s [symmetric]] True s ts by (cases r) (auto simp: drain.simps [of ld pe c])
  qed (simp add: drain.simps [of ld pe c])
qed

lemma drain_done: "nl \<notin> set (st_buf c) \<Longrightarrow> drain ld pe c = (False, c)"
  by (simp add: drain.simps [of ld pe c])

lemma drain_complete: "drain ld pe c = (False, c') \<Longrightarrow> nl \<notin> set (st_buf c')"
  by (induction ld pe c rule: drain.induct) (auto simp: drain.simps split: if_splits prod.splits)

lemma drain_line:
  assumes "nl \<notin> set line"
  shows "drain ld pe (c\<lparr>st_buf := line @ nl # rest\<rparr>) =
    (case process_line ld pe line (c\<lparr>st_buf := rest\<rparr>) of (r, c') \<Rightarrow> if r then (True, c') else drain ld pe c')"
proof -
  have "takeWhile (\<lambda>x. x \<noteq> nl) (line @ nl # rest) = line" "dropWhile (\<lambda>x. x \<noteq> nl) (line @ nl # rest) = nl # rest"
    using assms by (induction line) auto
  then show ?thesis by (simp add: drain.simps [of ld pe "c\<lparr>st_buf := line @ nl # rest\<rparr>"])
qed

section \<open>The consumer as a stream machine\<close>

text \<open>The state after an exception is \<^const>\<open>None\<close>; what comes out are the arguments of \<open>on_chunk\<close>.\<close>

definition stream_step :: "sse_loads \<Rightarrow> parse_event \<Rightarrow> consumer option \<Rightarrow> bytestr \<Rightarrow> consumer option \<times> json list" where
  "stream_step ld pe s d =
     (case s of
        None \<Rightarrow> (None, [])
      | Some c \<Rightarrow> (case data_received ld pe c d of
          (r, c') \<Rightarrow> (if r then None else Some c', drop (length (st_text c)) (st_text c'))))"

lemma stream_step_None [simp]: "stream_step ld pe None d = (None, [])"
  by (simp add: stream_step_def)

lemma stream_step_Some: "stream_step ld pe (Some c) d =
    (case data_received ld pe c d of (r, c') \<Rightarrow> (if r then None else Some c', drop (length (st_text c)) (st_text c')))"
  by (simp add: stream_step_def)

definition between_packets :: "consumer option \<Rightarrow> bool" where
  "between_packets s \<longleftrightarrow> (case s of None \<Rightarrow> True | Some c \<Rightarrow> nl \<notin> set (st_buf c))"

lemma stream_step_append:
  assumes "nl \<notin> set (st_buf c)"
  shows "stream_step ld pe (Some c) (xs @ ys) =
    (let (s1, o1) = stream_step ld pe (Some c) xs; (s2, o2) = stream_step ld pe s1 ys in (s2, o1 @ o2))"
proof -
  let ?c = "c\<lparr>st_buf := st_buf c @ xs\<rparr>"
  obtain r c1 where d: "drain ld pe ?c = (r, c1)" by force
  obtain ts where ts: "st_text c1 = st_text c @ ts" using drain_text [of ld pe ?c] d by auto
  have m: "data_received ld pe c (xs @ ys) = (if r then (True, c1\<lparr>st_buf := st_buf c1 @ ys\<rparr>) else data_received ld pe c1 ys)"
    using drain_more [of ld pe ?c ys] d by (simp add: data_received_def)
  show ?thesis
  proof (cases r)
    case False
    obtain r2 c2 where d2: "data_received ld pe c1 ys = (r2, c2)" by force
    obtain us where "st_text c2 = st_text c1 @ us"
      using drain_text [of ld pe "c1\<lparr>st_buf := st_buf c1 @ ys\<rparr>"] d2 by (auto simp: data_received_def)
    then show ?thesis using False m d d2 ts by (simp add: stream_step_def data_received_def)
  qed (use m d ts in \<open>simp add: stream_step_def data_received_def\<close>)
qed

interpretation answer_stream: stream_machine "stream_step ld pe" between_packets for ld pe
proof
  fix s :: "consumer option" and xs ys
  assume r: "between_packets s"
  show "stream_step ld pe s [] = (s, [])"
    using r by (auto simp: stream_step_def data_received_def drain_done between_packets_def split: option.splits)
  show "between_packets (fst (stream_step ld pe s xs))"
    by (auto simp: stream_step_def data_received_def between_packets_def drain_complete split: option.splits prod.splits)
  show "stream_step ld pe s (xs @ ys) =
      (let (s1, o1) = stream_step ld pe s xs; (s2, o2) = stream_step ld pe s1 ys in (s2, o1 @ o2))"
    using r by (cases s) (simp_all add: stream_step_append between_packets_def)
qed

lemma feed_stream_all:
  "fst (answer_stream.consume_all ld pe (Some c) packets) =
    (case feed_stream ld pe c packets of (r, c') \<Rightarrow> if r then None else Some c')"
proof (induction packets arbitrary: c)
  case (Cons d ds)
  have n: "answer_stream.consume_all ld pe None ds = (None, [])" for ds by (induction ds) simp_all
  show ?case using Cons.IH [of "snd (data_received ld pe c d)"]
    by (cases "data_received ld pe c d") (auto simp: stream_step_Some n split: prod.split)
qed simp

lemma feed_stream_concat:
  "feed_stream ld pe new_consumer packets = (False, c) \<longleftrightarrow> data_received ld pe new_consumer (concat packets) = (False, c)"
proof -
  have "between_packets (Some new_consumer)" by (simp add: between_packets_def new_consumer_def)
  then have "(case feed_stream ld pe new_consumer packets of (r, c') \<Rightarrow> if r then None else Some c') =
      (case data_received ld pe new_consumer (concat packets) of (r, c') \<Rightarrow> if r then None else Some c')"
    using answer_stream.consume_all_concat [of "Some new_consumer" ld pe packets]
    by (simp add: feed_stream_all [symmetric] stream_step_Some split: prod.split)
  then show ?thesis by (auto split: prod.splits if_splits)
qed

section \<open>Server-sent events\<close>

text \<open>What a server writes: lines of data, and any other lines (names of events, comments, blank lines).\<close>

datatype sse_item = Event "(string \<times> json) list" | OtherLine bytestr

definition render_item :: "((string \<times> json) list \<Rightarrow> bytestr) \<Rightarrow> sse_item \<Rightarrow> bytestr" where
  "render_item dumps i = (case i of Event e \<Rightarrow> ''data: '' @ dumps e @ [nl] | OtherLine l \<Rightarrow> l @ [nl])"

definition legal_item :: "sse_loads \<Rightarrow> ((string \<times> json) list \<Rightarrow> bytestr) \<Rightarrow> sse_item \<Rightarrow> bool" where
  "legal_item ld dumps i \<longleftrightarrow>
     (case i of
        Event e \<Rightarrow> ld (dumps e) = Loaded (JObj e) \<and> nl \<notin> set (dumps e) \<and> byte_strip (dumps e) = dumps e \<and>
          dumps e \<noteq> [] \<and> dumps e \<noteq> ''[DONE]''
      | OtherLine l \<Rightarrow> take 5 l \<noteq> ''data:'' \<and> nl \<notin> set l)"

definition deliver_item :: "parse_event \<Rightarrow> sse_item \<Rightarrow> consumer \<Rightarrow> consumer" where
  "deliver_item pe i c =
     (case i of
        OtherLine _ \<Rightarrow> c
      | Event e \<Rightarrow>
          (let c1 = c\<lparr>decoded_events := decoded_events c + 1\<rparr> in
           case pe e of None \<Rightarrow> c1 | Some (t, usage) \<Rightarrow> take_event t usage c1))"

lemma process_item:
  assumes "legal_item ld dumps i"
  shows "drain ld pe (c\<lparr>st_buf := render_item dumps i @ rest\<rparr>) = drain ld pe ((deliver_item pe i c)\<lparr>st_buf := rest\<rparr>)"
proof (cases i)
  case (Event e)
  have "byte_strip (CHR '' '' # dumps e) = dumps e" using assms Event by (simp add: legal_item_def byte_strip_def is_byte_space_def)
  then have "process_line ld pe (''data: '' @ dumps e) (c\<lparr>st_buf := rest\<rparr>) = (False, (deliver_item pe i c)\<lparr>st_buf := rest\<rparr>)"
    using assms Event
    by (simp add: legal_item_def process_line_def deliver_item_def take_event_def Let_def split: option.split json.split list.split)
  then show ?thesis
    using assms Event drain_line [of "''data: '' @ dumps e" ld pe rest c]
    by (simp add: legal_item_def render_item_def)
next
  case (OtherLine l)
  then show ?thesis using assms drain_line [of l ld pe rest c]
    by (simp add: legal_item_def render_item_def deliver_item_def process_line_def)
qed

lemma deliver_item_buf: "deliver_item pe i (c\<lparr>st_buf := b\<rparr>) = (deliver_item pe i c)\<lparr>st_buf := b\<rparr>"
  by (simp add: deliver_item_def take_event_def Let_def split: sse_item.split option.split json.split list.split)

lemma deliver_item_same_buf: "st_buf (deliver_item pe i c) = st_buf c"
  by (simp add: deliver_item_def take_event_def Let_def split: sse_item.split option.split json.split list.split)

lemma drain_items:
  "\<forall>i\<in>set items. legal_item ld dumps i \<Longrightarrow> st_buf c = concat (map (render_item dumps) items) \<Longrightarrow>
    drain ld pe c = (False, (fold (deliver_item pe) items c)\<lparr>st_buf := []\<rparr>)"
proof (induction items arbitrary: c)
  case Nil
  then show ?case by (simp add: drain_done)
next
  case (Cons i js)
  let ?rest = "concat (map (render_item dumps) js)"
  have "c = c\<lparr>st_buf := render_item dumps i @ ?rest\<rparr>" using Cons.prems(2) by simp
  then have "drain ld pe c = drain ld pe ((deliver_item pe i c)\<lparr>st_buf := ?rest\<rparr>)"
    using process_item [of ld dumps i pe ?rest c] Cons.prems(1) by auto
  moreover have "fold (deliver_item pe) js (d\<lparr>st_buf := b\<rparr>) = (fold (deliver_item pe) js d)\<lparr>st_buf := b\<rparr>" for d b
    by (induction js arbitrary: d) (simp_all add: deliver_item_buf)
  ultimately show ?case using Cons.IH [of "(deliver_item pe i c)\<lparr>st_buf := ?rest\<rparr>"] Cons.prems(1) by simp
qed

section \<open>Properties\<close>

text \<open>Every piece of text that is kept is non-empty, so a healthy stream is one that has shown something.\<close>

lemma process_line_truthy:
  "list_all truthy (st_text c) \<Longrightarrow> list_all truthy (st_text (snd (process_line ld pe line c)))"
  by (simp add: process_line_def take_event_def Let_def split: loaded.split json.split option.split list.split)

lemma drain_truthy: "list_all truthy (st_text c) \<Longrightarrow> list_all truthy (st_text (snd (drain ld pe c)))"
proof (induction ld pe c rule: drain.induct)
  case (1 ld pe c)
  let ?p = "process_line ld pe (takeWhile (\<lambda>x. x \<noteq> nl) (st_buf c)) (c\<lparr>st_buf := tl (dropWhile (\<lambda>x. x \<noteq> nl) (st_buf c))\<rparr>)"
  have t: "list_all truthy (st_text (snd ?p))" using "1.prems" by (intro process_line_truthy) simp
  show ?case
  proof (cases "nl \<in> set (st_buf c)")
    case True
    obtain q c' where s: "?p = (q, c')" by force
    show ?thesis using "1.IH" [OF True s [symmetric]] True s t by (simp add: drain.simps [of ld pe c])
  qed (use "1.prems" in \<open>simp add: drain.simps [of ld pe c]\<close>)
qed

lemma feed_stream_truthy: "list_all truthy (st_text c) \<Longrightarrow> list_all truthy (st_text (snd (feed_stream ld pe c packets)))"
proof (induction packets arbitrary: c)
  case (Cons d ds)
  have "list_all truthy (st_text (snd (data_received ld pe c d)))"
    unfolding data_received_def using Cons.prems by (intro drain_truthy) simp
  then show ?case using Cons.IH [of "snd (data_received ld pe c d)"] by (auto split: prod.split)
qed simp

lemma joined_text_blank: "list_all truthy js \<Longrightarrow> joined_text js = Some t \<Longrightarrow> t = [] \<longleftrightarrow> js = []"
  by (cases js) (auto simp: joined_text_def split: if_splits json.splits)

lemma stream_body_healthy:
  assumes "stream_body ld pe packets = Some (t, usage, d)"
  shows "d = Healthy \<longleftrightarrow> t \<noteq> []"
proof -
  define c where "c = snd (feed_stream ld pe new_consumer packets)"
  define q where "q = (if st_buf c \<noteq> [] then process_line ld pe (st_buf c) c else (False, c))"
  have "list_all truthy (st_text c)" unfolding c_def by (rule feed_stream_truthy) (simp add: new_consumer_def)
  then have q: "list_all truthy (st_text (snd q))" by (simp add: q_def process_line_truthy)
  have "joined_text (st_text (snd q)) = Some t" "d = diagnose (snd q)"
    using assms by (auto simp: stream_body_def stream_lost_def c_def [symmetric] q_def [symmetric] split: prod.splits if_splits)
  then show ?thesis using joined_text_blank [OF q] by (simp add: diagnose_def)
qed

lemma generate_text: "fst (snd (generate loads p server r retried sent u)) = fst (snd (generate loads p server r retried sent v))"
proof -
  have parse: "fst (parse_body loads p body u) = fst (parse_body loads p body v)" for body u v
    by (cases "loads body") (auto simp: parse_body_def capture_usage_def split: option.split json.split bind_split)
  have answer: "fst (snd (generate loads p server r retried sent u)) =
    (case server sent (format_body p r) of (status, body) \<Rightarrow>
       if status = 401 \<and> \<not> retried \<and> auth_reloaded p then fst (snd (generate loads p server r True (sent + 1) u))
       else if status \<noteq> 200 then []
       else (case fst (parse_body loads p body u) of None \<Rightarrow> [] | Some t \<Rightarrow> t))" for retried sent u
    unfolding generate.simps [of loads p server r retried sent u] by (auto split: prod.split option.split)
  have "fst (snd (generate loads p server r True n u)) = fst (snd (generate loads p server r True n v))" for n
    unfolding answer [of True n u] answer [of True n v] parse [of _ u v] by simp
  then show ?thesis unfolding answer [of retried sent u] answer [of retried sent v] parse [of _ u v] by (simp split: prod.split)
qed

text \<open>C9: However the packets cut the stream, and whatever other lines come between, the consumer sees exactly the
  events that the server has written, in their order: framing loses, repeats and merges nothing.\<close>

theorem framing_transparent:
  assumes "\<forall>i\<in>set items. legal_item ld dumps i" "concat packets = concat (map (render_item dumps) items)"
  shows "feed_stream ld pe new_consumer packets = (False, fold (deliver_item pe) items new_consumer)"
proof -
  have b: "st_buf (fold (deliver_item pe) items c) = st_buf c" for c
    by (induction items arbitrary: c) (simp_all add: deliver_item_same_buf)
  have u: "fold (deliver_item pe) items (c\<lparr>st_buf := x\<rparr>) = (fold (deliver_item pe) items c)\<lparr>st_buf := x\<rparr>" for c x
    by (induction items arbitrary: c) (simp_all add: deliver_item_buf)
  define c where "c = new_consumer\<lparr>st_buf := concat packets\<rparr>"
  have "data_received ld pe new_consumer (concat packets) = drain ld pe c"
    by (simp add: data_received_def c_def new_consumer_def)
  also have "\<dots> = (False, (fold (deliver_item pe) items c)\<lparr>st_buf := []\<rparr>)"
    by (rule drain_items [OF assms(1)]) (simp add: c_def assms(2))
  also have "(fold (deliver_item pe) items c)\<lparr>st_buf := []\<rparr> = (fold (deliver_item pe) items new_consumer)\<lparr>st_buf := []\<rparr>"
    unfolding c_def u by simp
  also have "\<dots> = fold (deliver_item pe) items new_consumer"
    using b [of new_consumer] unfolding new_consumer_def
    by (cases "fold (deliver_item pe) items \<lparr>st_buf = [], st_text = [], st_usage = [], decoded_events = 0, matched_events = 0\<rparr>")
      simp
  finally show ?thesis unfolding feed_stream_concat .
qed

text \<open>A decoder and an encoder for the one event of the examples.\<close>

definition example_event :: "(string \<times> json) list" where
  "example_event = [(''type'', JStr ''content_block_delta''), (''delta'', JObj [(''text'', JStr ''hi'')])]"

definition example_loads :: sse_loads where
  "example_loads b = (if b = ''{delta}'' then Loaded (JObj example_event) else Malformed)"

theorem framing_transparent_witness:
  "feed_stream example_loads parse_anthropic_event new_consumer
      [''event: delta'', [nl] @ ''data: {del'', ''ta}'' @ [nl, nl] @ ''data: {delta}'' @ [nl]] =
    (False, fold (deliver_item parse_anthropic_event)
      [OtherLine ''event: delta'', Event example_event, OtherLine [], Event example_event] new_consumer) \<and>
   st_text (fold (deliver_item parse_anthropic_event)
      [OtherLine ''event: delta'', Event example_event, OtherLine [], Event example_event] new_consumer) =
     [JStr ''hi'', JStr ''hi'']"
  by (rule conjI, rule framing_transparent [where dumps = "\<lambda>_. ''{delta}''"], code_simp, code_simp, code_simp)




text \<open>A piece of text that is no string is passed on, and then the stream never completes.\<close>

lemma non_string_text_hangs:
  "stream_body (\<lambda>_. Loaded (JObj [(''choices'', JList [JObj [(''delta'', JObj [(''content'', JInt 7)])]])]))
     parse_openai_event [''data: x'' @ [nl]] = None"
  by code_simp

end
