(* ===== verification/Shell_Fs.thy ===== *)
theory Shell_Fs
  imports Vfs Artifact
begin

unbundle bit_operations_syntax

text \<open>
  The file system of the emulated shell (\<open>src/src/cowrie/shell/fs.py\<close>, with the reader of
  \<open>src/src/cowrie/shell/honeyfs.py\<close>): a tree of entries that a session changes in place. A reference to an entry is
  its position, the list of indices that leads to it from the root. Python follows symbolic links by recursion, and
  a cycle of links ends in a \<open>RecursionError\<close>: the number of frames that are left is the argument \<open>d\<close>. Files of the
  host are a dictionary from paths to contents.
\<close>

section \<open>Entries\<close>

datatype ftype = T_LINK | T_DIR | T_FILE | T_BLK | T_CHR | T_SOCK | T_FIFO

datatype entry = Entry (e_name: string) (e_type: ftype) (e_uid: int) (e_gid: int) (e_size: int) (e_mode: int) (e_ctime: rat)
    (e_contents: contents) (e_target: "string option") (e_realfile: string)
  and contents = Children (children: "entry list") | Bytes bytestr

datatype errno = ENOENT | EEXIST | ENOTDIR | ENOTEMPTY | EDQUOT | Unspecified

datatype exn = FileNotFound | PermissionDenied | IsADirectoryError | OSError errno | RecursionError | TypeError
  | AttributeError | IndexError | KeyError | ValueError | NotImplementedError | UnboundLocalError | HostError | ReError

type_synonym 'a result = "exn + 'a"
type_synonym loc = "nat list"

definition attempt :: "'a result \<Rightarrow> ('a \<Rightarrow> 'b result) \<Rightarrow> 'b result" where
  "attempt r f = (case r of Inl e \<Rightarrow> Inl e | Inr x \<Rightarrow> f x)"

fun entry_at :: "entry \<Rightarrow> loc \<Rightarrow> entry option" where
  "entry_at e [] = Some e"
| "entry_at e (i # l) =
     (case e_contents e of
        Children xs \<Rightarrow> if i < length xs then entry_at (xs ! i) l else None
      | Bytes _ \<Rightarrow> None)"

definition set_contents :: "contents \<Rightarrow> entry \<Rightarrow> entry" where
  "set_contents c e = (case e of Entry nm t u g sz m ct _ tg rf \<Rightarrow> Entry nm t u g sz m ct c tg rf)"

fun update_at :: "(entry \<Rightarrow> entry) \<Rightarrow> entry \<Rightarrow> loc \<Rightarrow> entry" where
  "update_at f e [] = f e"
| "update_at f e (i # l) =
     (case e_contents e of
        Children xs \<Rightarrow> if i < length xs then set_contents (Children (xs[i := update_at f (xs ! i) l])) e else e
      | Bytes _ \<Rightarrow> e)"

definition set_name :: "string \<Rightarrow> entry \<Rightarrow> entry" where
  "set_name nm e = (case e of Entry _ t u g sz m ct c tg rf \<Rightarrow> Entry nm t u g sz m ct c tg rf)"

definition set_owner :: "int \<Rightarrow> int \<Rightarrow> entry \<Rightarrow> entry" where
  "set_owner u g e = (case e of Entry nm t _ _ sz m ct c tg rf \<Rightarrow> Entry nm t u g sz m ct c tg rf)"

definition set_size :: "int \<Rightarrow> entry \<Rightarrow> entry" where
  "set_size sz e = (case e of Entry nm t u g _ m ct c tg rf \<Rightarrow> Entry nm t u g sz m ct c tg rf)"

definition set_mode :: "int \<Rightarrow> entry \<Rightarrow> entry" where
  "set_mode m e = (case e of Entry nm t u g sz _ ct c tg rf \<Rightarrow> Entry nm t u g sz m ct c tg rf)"

definition set_ctime :: "rat \<Rightarrow> entry \<Rightarrow> entry" where
  "set_ctime ct e = (case e of Entry nm t u g sz m _ c tg rf \<Rightarrow> Entry nm t u g sz m ct c tg rf)"

definition set_realfile :: "string \<Rightarrow> entry \<Rightarrow> entry" where
  "set_realfile rf e = (case e of Entry nm t u g sz m ct c tg _ \<Rightarrow> Entry nm t u g sz m ct c tg rf)"

section \<open>Paths\<close>

abbreviation slash :: char where "slash \<equiv> CHR ''/''"

fun resolve_loop :: "string list \<Rightarrow> string list \<Rightarrow> string list" where
  "resolve_loop [] cwdpieces = cwdpieces"
| "resolve_loop (piece # pieces) cwdpieces =
     (if piece = ''..'' then resolve_loop pieces (if cwdpieces \<noteq> [] then butlast cwdpieces else cwdpieces)
      else if piece \<in> {''.'', []} then resolve_loop pieces cwdpieces
      else resolve_loop pieces (cwdpieces @ [piece]))"

definition resolve_path :: "string \<Rightarrow> string \<Rightarrow> string \<Rightarrow> string result" where
  "resolve_path home pathspec cwd =
     (let path = (if startswith pathspec ''~/'' then home @ tl pathspec else pathspec);
          pieces = split_on slash (rstrip_by (\<lambda>c. c = slash) path) in
      if path = [] then Inl IndexError
      else
        let cwdpieces = (if hd path = slash then [] else filter (\<lambda>x. x \<noteq> []) (split_on slash cwd)) in
        Inr (slash # py_join [slash] (resolve_loop pieces cwdpieces)))"

text \<open>\<open>os.path.basename\<close> and \<open>os.path.dirname\<close>.\<close>

definition py_basename :: "string \<Rightarrow> string" where
  "py_basename p = rev (takeWhile (\<lambda>c. c \<noteq> slash) (rev p))"

definition py_dirname :: "string \<Rightarrow> string" where
  "py_dirname p =
     (let head = rev (dropWhile (\<lambda>c. c \<noteq> slash) (rev p)) in
      if list_all (\<lambda>c. c = slash) head then head else rstrip_by (\<lambda>c. c = slash) head)"

section \<open>Lookups\<close>

text \<open>
  \<open>getfile\<close>: one component of the path. The loop goes on after a match, so the last child of a name wins. The
  target of a relative link is taken from the root, because \<open>cwd\<close> is never set.
\<close>

fun pick_child ::
  "(string \<Rightarrow> loc option result) \<Rightarrow> bool \<Rightarrow> string \<Rightarrow> loc \<Rightarrow> nat \<Rightarrow> entry list \<Rightarrow> loc \<Rightarrow> loc option result"
where
  "pick_child follow as_is piece parent i [] p = Inr (Some p)"
| "pick_child follow as_is piece parent i (x # xs) p =
     (if e_name x \<noteq> piece then pick_child follow as_is piece parent (i + 1) xs p
      else if as_is \<or> e_type x \<noteq> T_LINK then pick_child follow as_is piece parent (i + 1) xs (parent @ [i])
      else case e_target x of
          None \<Rightarrow> Inl TypeError
        | Some [] \<Rightarrow> Inl IndexError
        | Some (c # cs) \<Rightarrow>
            attempt (follow (if c = slash then c # cs else slash # c # cs)) (\<lambda>r.
              case r of None \<Rightarrow> Inr None | Some l \<Rightarrow> pick_child follow as_is piece parent (i + 1) xs l))"

fun walk_file :: "(string \<Rightarrow> loc option result) \<Rightarrow> bool \<Rightarrow> entry \<Rightarrow> string \<Rightarrow> string list \<Rightarrow> loc \<Rightarrow> loc option result" where
  "walk_file follow follow_symlinks tree final [] p = Inr (Some p)"
| "walk_file follow follow_symlinks tree final (piece # pieces) p =
     (case entry_at tree p of
        None \<Rightarrow> Inr None
      | Some e \<Rightarrow>
          (case e_contents e of
             Bytes b \<Rightarrow> if b = [] then Inr None else Inl TypeError
           | Children xs \<Rightarrow>
               if piece \<notin> set (map e_name xs) then Inr None
               else attempt (pick_child follow (piece = final \<and> \<not> follow_symlinks) piece p 0 xs p) (\<lambda>r.
                 case r of None \<Rightarrow> Inr None | Some l \<Rightarrow> walk_file follow follow_symlinks tree final pieces l)))"

fun getfile :: "nat \<Rightarrow> bool \<Rightarrow> entry \<Rightarrow> string \<Rightarrow> loc option result" where
  "getfile 0 follow_symlinks tree path = Inl RecursionError"
| "getfile (Suc d) follow_symlinks tree path =
     (if path = [slash] then Inr (Some [])
      else let pieces = split_on slash (strip_by (\<lambda>c. c = slash) path) in
        walk_file (getfile d follow_symlinks tree) follow_symlinks tree (last pieces) pieces [])"

text \<open>\<open>get_path\<close>, where the first child of a name wins; the result is the entry whose contents are returned.\<close>

fun first_index :: "('a \<Rightarrow> bool) \<Rightarrow> 'a list \<Rightarrow> nat option" where
  "first_index P [] = None"
| "first_index P (x # xs) = (if P x then Some 0 else map_option Suc (first_index P xs))"

fun walk_dir :: "nat \<Rightarrow> bool \<Rightarrow> entry \<Rightarrow> string list \<Rightarrow> loc \<Rightarrow> loc result" where
  "walk_dir d follow_symlinks tree [] cwd = Inr cwd"
| "walk_dir d follow_symlinks tree (part # parts) cwd =
     (if part = [] then walk_dir d follow_symlinks tree parts cwd
      else case map_option e_contents (entry_at tree cwd) of
          Some (Children xs) \<Rightarrow>
            (case first_index (\<lambda>c. e_name c = part) xs of
               None \<Rightarrow> Inl FileNotFound
             | Some i \<Rightarrow>
                 if e_type (xs ! i) = T_LINK then
                   (case e_target (xs ! i) of
                      None \<Rightarrow> Inl AttributeError
                    | Some t \<Rightarrow>
                        attempt (getfile d follow_symlinks tree t) (\<lambda>r.
                          case r of None \<Rightarrow> Inl FileNotFound | Some l \<Rightarrow> walk_dir d follow_symlinks tree parts l))
                 else walk_dir d follow_symlinks tree parts (cwd @ [i]))
        | _ \<Rightarrow> Inl FileNotFound)"

definition get_path :: "nat \<Rightarrow> bool \<Rightarrow> entry \<Rightarrow> string \<Rightarrow> loc result" where
  "get_path d follow_symlinks tree path = walk_dir d follow_symlinks tree (split_on slash path) []"

text \<open>The lookup of \<open>honeyfs.py\<close>, with at most sixteen links on the way.\<close>

fun find_parts ::
  "(string \<Rightarrow> entry option result) \<Rightarrow> string list \<Rightarrow> entry \<Rightarrow> entry option result"
where
  "find_parts follow [] e =
     (if e_type e = T_LINK then (case e_target e of None \<Rightarrow> Inl AttributeError | Some t \<Rightarrow> follow t) else Inr (Some e))"
| "find_parts follow (part # parts) e =
     attempt (if e_type e = T_LINK then (case e_target e of None \<Rightarrow> Inl AttributeError | Some t \<Rightarrow> follow t) else Inr (Some e)) (\<lambda>r.
       case r of
         None \<Rightarrow> Inr None
       | Some dir \<Rightarrow>
           (case e_contents dir of
              Bytes _ \<Rightarrow> Inr None
            | Children xs \<Rightarrow>
                (case first_index (\<lambda>c. e_name c = part) xs of
                   None \<Rightarrow> Inr None
                 | Some i \<Rightarrow> find_parts follow parts (xs ! i))))"

fun find_entry :: "nat \<Rightarrow> entry \<Rightarrow> string \<Rightarrow> entry option result" where
  "find_entry 0 tree virtual_path = Inr None"
| "find_entry (Suc k) tree virtual_path =
     find_parts (find_entry k tree) (filter (\<lambda>p. p \<noteq> []) (split_on slash virtual_path)) tree"

definition MAX_SYMLINK_DEPTH :: nat where "MAX_SYMLINK_DEPTH = 16"

definition read_file :: "entry \<Rightarrow> string \<Rightarrow> bytestr option result" where
  "read_file tree virtual_path =
     map_sum id (\<lambda>r. case r of
         None \<Rightarrow> None
       | Some e \<Rightarrow> if e_type e \<noteq> T_FILE then None else (case e_contents e of Bytes b \<Rightarrow> Some b | Children _ \<Rightarrow> None))
       (find_entry (MAX_SYMLINK_DEPTH + 1) tree virtual_path)"

section \<open>The file system of a session\<close>

record honey_fs =
  fs_tree :: entry
  fs_arch :: string
  fs_home :: string
  tempfiles :: "(int, string) dict"
  filenames :: "(int, string) dict"
  newcount :: nat
  host :: store

definition SPECIAL_PATHS :: "string list" where
  "SPECIAL_PATHS = [''/sys'', ''/proc'', ''/dev/pts'']"

definition fs_exists :: "nat \<Rightarrow> bool \<Rightarrow> honey_fs \<Rightarrow> string \<Rightarrow> bool result" where
  "fs_exists d follow_symlinks s path = map_sum id (\<lambda>r. r \<noteq> None) (getfile d follow_symlinks (fs_tree s) path)"

text \<open>An entry found by \<open>getfile\<close>, and the steps on it; \<open>f[A_...]\<close> of \<open>None\<close> is a \<open>TypeError\<close>.\<close>

definition found :: "nat \<Rightarrow> bool \<Rightarrow> honey_fs \<Rightarrow> string \<Rightarrow> (loc \<times> entry) option result" where
  "found d follow_symlinks s path =
     map_sum id (\<lambda>r. Option.bind r (\<lambda>l. map_option (Pair l) (entry_at (fs_tree s) l)))
       (getfile d follow_symlinks (fs_tree s) path)"

definition change_at :: "(entry \<Rightarrow> entry) \<Rightarrow> loc \<Rightarrow> honey_fs \<Rightarrow> honey_fs" where
  "change_at f l s = s\<lparr>fs_tree := update_at f (fs_tree s) l\<rparr>"

definition update_realfile :: "(loc \<times> entry) option \<Rightarrow> string \<Rightarrow> honey_fs \<Rightarrow> unit result \<times> honey_fs" where
  "update_realfile f realfile s =
     (case f of
        None \<Rightarrow> (Inl TypeError, s)
      | Some (l, e) \<Rightarrow>
          (Inr (), if e_realfile e = [] \<and> map_of (host s) realfile \<noteq> None \<and> e_size e < 25000000
             then change_at (set_realfile realfile) l s else s))"

fun init_honeyfs :: "nat \<Rightarrow> (string \<times> string) list \<Rightarrow> honey_fs \<Rightarrow> unit result \<times> honey_fs" where
  "init_honeyfs d [] s = (Inr (), s)"
| "init_honeyfs d ((virtual_path, realfile_path) # walked) s =
     (case found d False s virtual_path of
        Inl e \<Rightarrow> (Inl e, s)
      | Inr (Some (l, e)) \<Rightarrow>
          init_honeyfs d walked (if e_type e = T_FILE then snd (update_realfile (Some (l, e)) realfile_path s) else s)
      | Inr None \<Rightarrow> init_honeyfs d walked s)"

definition HoneyPotFilesystem :: "nat \<Rightarrow> entry \<Rightarrow> string \<Rightarrow> string \<Rightarrow> (string \<times> string) list \<Rightarrow> store \<Rightarrow> honey_fs" where
  "HoneyPotFilesystem d tree arch home walked disk =
     snd (init_honeyfs d walked
       \<lparr>fs_tree = tree, fs_arch = arch, fs_home = home, tempfiles = [], filenames = [], newcount = 0, host = disk\<rparr>)"

definition S_IXUSR :: int where "S_IXUSR = 64"
definition S_IFREG :: int where "S_IFREG = 32768"
definition S_IFLNK :: int where "S_IFLNK = 40960"
definition S_IFMT :: "int \<Rightarrow> int" where "S_IFMT m = m AND 61440"

definition file_contents :: "nat \<Rightarrow> (string \<Rightarrow> bytestr) \<Rightarrow> honey_fs \<Rightarrow> string \<Rightarrow> bytestr result" where
  "file_contents d arch_data s target =
     attempt (resolve_path (fs_home s) target (py_dirname target)) (\<lambda>path.
     attempt (found d True s path) (\<lambda>r.
       case r of
         None \<Rightarrow> Inl FileNotFound
       | Some (_, f) \<Rightarrow>
           if e_type f = T_DIR then Inl IsADirectoryError
           else if e_type f = T_FILE \<and> e_realfile f \<noteq> [] then
             (case map_of (host s) (e_realfile f) of None \<Rightarrow> Inl HostError | Some b \<Rightarrow> Inr b)
           else (case (e_type f = T_FILE, e_contents f) of
               (True, Bytes b) \<Rightarrow> Inr b
             | _ \<Rightarrow>
                 if e_type f = T_FILE \<and> e_size f = 0 then Inr []
                 else if e_type f = T_FILE \<and> e_mode f AND S_IXUSR \<noteq> 0 then Inr (arch_data (fs_arch s))
                 else Inr [])))"

definition new_entry :: "string \<Rightarrow> ftype \<Rightarrow> int \<Rightarrow> int \<Rightarrow> int \<Rightarrow> int \<Rightarrow> rat \<Rightarrow> entry" where
  "new_entry nm t uid gid sz mode ct = Entry nm t uid gid sz mode ct (Children []) None []"

definition remove_first :: "('a \<Rightarrow> bool) \<Rightarrow> 'a list \<Rightarrow> 'a list" where
  "remove_first P xs = (case first_index P xs of None \<Rightarrow> xs | Some i \<Rightarrow> take i xs @ drop (Suc i) xs)"

definition mkfile :: "nat \<Rightarrow> rat \<Rightarrow> string \<Rightarrow> int \<Rightarrow> int \<Rightarrow> int \<Rightarrow> int \<Rightarrow> honey_fs \<Rightarrow> bool result \<times> honey_fs" where
  "mkfile d now path uid gid sz mode s =
     (if newcount s > 10000 then (Inr False, s)
      else if list_ex (\<lambda>p. startswith (py_dirname path) p) SPECIAL_PATHS then (Inl PermissionDenied, s)
      else case get_path d True (fs_tree s) (py_dirname path) of
          Inl e \<Rightarrow> (Inl e, s)
        | Inr l \<Rightarrow>
            (case map_option e_contents (entry_at (fs_tree s) l) of
               Some (Children xs) \<Rightarrow>
                 (let outfile = py_basename path; xs1 = remove_first (\<lambda>x. e_name x = outfile) xs in
                  (Inr True, (change_at (set_contents (Children (xs1 @ [new_entry outfile T_FILE uid gid sz mode now]))) l s)
                     \<lparr>newcount := newcount s + 1\<rparr>))
             | Some (Bytes b) \<Rightarrow> (Inl (if b = [] then AttributeError else TypeError), s)
             | None \<Rightarrow> (Inl FileNotFound, s)))"

definition mkdir :: "nat \<Rightarrow> rat \<Rightarrow> string \<Rightarrow> int \<Rightarrow> int \<Rightarrow> int \<Rightarrow> int \<Rightarrow> honey_fs \<Rightarrow> unit result \<times> honey_fs" where
  "mkdir d now path uid gid sz mode s =
     (let stripped = strip_by (\<lambda>c. c = slash) path in
      if newcount s > 10000 then (Inl (OSError EDQUOT), s)
      else if stripped = [] then (Inl (OSError ENOENT), s)
      else case get_path d True (fs_tree s) (py_dirname stripped) of
          Inl e \<Rightarrow> (Inl (if e \<in> {IndexError, FileNotFound} then OSError ENOENT else e), s)
        | Inr l \<Rightarrow>
            (case map_option e_contents (entry_at (fs_tree s) l) of
               Some (Children xs) \<Rightarrow>
                 (Inr (), (change_at (set_contents (Children (xs @ [new_entry (py_basename path) T_DIR uid gid sz mode now]))) l s)
                    \<lparr>newcount := newcount s + 1\<rparr>)
             | _ \<Rightarrow> (Inl AttributeError, s)))"

text \<open>\<open>isfile\<close>, \<open>islink\<close> and \<open>isdir\<close>: an exception of the lookup counts as absence.\<close>

definition has_type :: "nat \<Rightarrow> honey_fs \<Rightarrow> ftype \<Rightarrow> string \<Rightarrow> bool" where
  "has_type d s t path = (case found d True s path of Inr (Some (_, e)) \<Rightarrow> e_type e = t | _ \<Rightarrow> False)"

definition isfile :: "nat \<Rightarrow> honey_fs \<Rightarrow> string \<Rightarrow> bool" where
  "isfile d s path \<longleftrightarrow> has_type d s T_FILE path"

definition islink :: "nat \<Rightarrow> honey_fs \<Rightarrow> string \<Rightarrow> bool" where
  "islink d s path \<longleftrightarrow> has_type d s T_LINK path"

definition isdir :: "nat \<Rightarrow> honey_fs \<Rightarrow> string \<Rightarrow> bool" where
  "isdir d s path \<longleftrightarrow> path = [slash] \<or> has_type d s T_DIR path"

section \<open>Operations of SFTP\<close>

text \<open>
  \<open>open\<close>: the flags are those of the host, whose \<open>os.open\<close> is the pair of a descriptor (or an error) and the name
  \<open>hostfile\<close> that the configuration and the clock give; an opened file is empty if it is new or truncated. The
  mask of the executable bits is the decimal number 111. Reads, writes and seeks go to the host.
\<close>

definition fs_open ::
  "nat \<Rightarrow> rat \<Rightarrow> string \<Rightarrow> int option \<Rightarrow> string \<Rightarrow> int \<Rightarrow> int \<Rightarrow> honey_fs \<Rightarrow> int option result \<times> honey_fs"
where
  "fs_open d now hostfile host_fd filename openFlags mode s =
     (if openFlags AND 1 = 1 \<or> openFlags AND 2 = 2 then
        (case mkfile d now filename 0 0 0 (S_IFREG OR mode) s of
           (Inl e, s1) \<Rightarrow> (Inl e, s1)
         | (Inr _, s1) \<Rightarrow>
             (case host_fd of
                None \<Rightarrow> (Inl HostError, s1)
              | Some fd \<Rightarrow>
                  let s2 = s1\<lparr>host := (if map_of (host s1) hostfile = None \<or> openFlags AND 512 \<noteq> 0 then AList.update hostfile [] (host s1) else host s1)\<rparr> in
                  (case found d True s2 filename of
                     Inl e \<Rightarrow> (Inl e, s2)
                   | Inr f \<Rightarrow>
                       (case update_realfile f hostfile s2 of
                          (Inl e, s3) \<Rightarrow> (Inl e, s3)
                        | (Inr _, s3) \<Rightarrow>
                            (Inr (Some fd), s3\<lparr>tempfiles := AList.update fd hostfile (tempfiles s3),
                               filenames := AList.update fd filename (filenames s3)\<rparr>)))))
      else (Inr None, s))"

definition hostmode :: "int \<Rightarrow> int" where
  "hostmode mode = mode AND NOT 111"

definition fs_close :: "nat \<Rightarrow> string \<Rightarrow> int \<Rightarrow> honey_fs \<Rightarrow> unit result \<times> honey_fs" where
  "fs_close d download_path fd s =
     (if fd = 0 then (Inr (), s)
      else case map_of (tempfiles s) fd of
          None \<Rightarrow> (Inl KeyError, s)
        | Some temp \<Rightarrow>
            (case map_of (host s) temp of
               None \<Rightarrow> (Inl HostError, s)
             | Some b \<Rightarrow>
                 let shasumfile = download_path @ [slash] @ sha256_hex b;
                   gone = AList.delete temp (host s);
                   s1 = s\<lparr>host := (if map_of (host s) shasumfile \<noteq> None then gone else AList.update shasumfile b gone)\<rparr> in
                 (case map_of (filenames s1) fd of
                    None \<Rightarrow> (Inl KeyError, s1)
                  | Some nm \<Rightarrow>
                      (case found d True s1 nm of
                         Inl e \<Rightarrow> (Inl e, s1)
                       | Inr f \<Rightarrow>
                           (case update_realfile f shasumfile s1 of
                              (Inl e, s2) \<Rightarrow> (Inl e, s2)
                            | (Inr _, s2) \<Rightarrow>
                                (Inr (), s2\<lparr>tempfiles := AList.delete fd (tempfiles s2),
                                   filenames := AList.delete fd (filenames s2)\<rparr>))))))"

text \<open>A directory whose children a list method changes in place; the method may raise.\<close>

definition change_dir :: "nat \<Rightarrow> string \<Rightarrow> (entry list \<Rightarrow> entry list result) \<Rightarrow> honey_fs \<Rightarrow> unit result \<times> honey_fs" where
  "change_dir d path f s =
     (case get_path d True (fs_tree s) path of
        Inl e \<Rightarrow> (Inl e, s)
      | Inr l \<Rightarrow>
          (case map_option e_contents (entry_at (fs_tree s) l) of
             Some (Children xs) \<Rightarrow>
               (case f xs of
                  Inl e \<Rightarrow> (Inl e, s)
                | Inr ys \<Rightarrow> (Inr (), change_at (set_contents (Children ys)) l s))
           | _ \<Rightarrow> (Inl AttributeError, s)))"

definition list_remove :: "'a \<Rightarrow> 'a list \<Rightarrow> 'a list result" where
  "list_remove x xs = (if x \<in> set xs then Inr (remove1 x xs) else Inl ValueError)"

definition mkdir2 :: "nat \<Rightarrow> rat \<Rightarrow> string \<Rightarrow> honey_fs \<Rightarrow> unit result \<times> honey_fs" where
  "mkdir2 d now path s =
     (case found d True s path of
        Inl e \<Rightarrow> (Inl e, s)
      | Inr (Some _) \<Rightarrow> (Inl (OSError EEXIST), s)
      | Inr None \<Rightarrow> mkdir d now path 0 0 4096 16877 s)"

text \<open>\<open>len(self.get_path(p))\<close>.\<close>

definition dir_length :: "nat \<Rightarrow> string \<Rightarrow> honey_fs \<Rightarrow> nat result" where
  "dir_length d path s =
     attempt (get_path d True (fs_tree s) path) (\<lambda>l.
       case map_option e_contents (entry_at (fs_tree s) l) of
         Some (Children xs) \<Rightarrow> Inr (length xs)
       | Some (Bytes b) \<Rightarrow> Inr (length b)
       | None \<Rightarrow> Inl FileNotFound)"

text \<open>
  The children are searched by name in a copy of the list, and the one found is removed by equality. The result says
  whether there was one.
\<close>

definition remove_named :: "string \<Rightarrow> entry list \<Rightarrow> entry list" where
  "remove_named nm xs = (case first_index (\<lambda>x. e_name x = nm) xs of None \<Rightarrow> xs | Some i \<Rightarrow> remove1 (xs ! i) xs)"

definition remove_child :: "nat \<Rightarrow> string \<Rightarrow> string \<Rightarrow> honey_fs \<Rightarrow> bool result \<times> honey_fs" where
  "remove_child d parent nm s =
     (case get_path d True (fs_tree s) parent of
        Inl e \<Rightarrow> (Inl e, s)
      | Inr l \<Rightarrow>
          (case map_option e_contents (entry_at (fs_tree s) l) of
             Some (Children xs) \<Rightarrow>
               if nm \<in> set (map e_name xs)
               then (Inr True, change_at (set_contents (Children (remove_named nm xs))) l s)
               else (Inr False, s)
           | Some (Bytes b) \<Rightarrow> (if b = [] then Inr False else Inl TypeError, s)
           | None \<Rightarrow> (Inl FileNotFound, s)))"

definition rmdir :: "nat \<Rightarrow> string \<Rightarrow> honey_fs \<Rightarrow> bool result \<times> honey_fs" where
  "rmdir d path s =
     (let p = rstrip_by (\<lambda>c. c = slash) path in
      case found d False s p of
        Inl e \<Rightarrow> (Inl e, s)
      | Inr None \<Rightarrow> (Inl (OSError EEXIST), s)
      | Inr (Some (_, directory)) \<Rightarrow>
          if e_type directory \<noteq> T_DIR then (Inl (OSError ENOTDIR), s)
          else (case dir_length d p s of
              Inl e \<Rightarrow> (Inl e, s)
            | Inr n \<Rightarrow>
                if n > 0 then (Inl (OSError ENOTEMPTY), s)
                else remove_child d (py_dirname p) (py_basename p) s))"

definition change_found :: "nat \<Rightarrow> bool \<Rightarrow> string \<Rightarrow> (entry \<Rightarrow> entry) \<Rightarrow> honey_fs \<Rightarrow> unit result \<times> honey_fs" where
  "change_found d follow_symlinks path f s =
     (case found d follow_symlinks s path of
        Inl e \<Rightarrow> (Inl e, s)
      | Inr None \<Rightarrow> (Inl (OSError ENOENT), s)
      | Inr (Some (l, _)) \<Rightarrow> (Inr (), change_at f l s))"

definition utime :: "nat \<Rightarrow> string \<Rightarrow> rat \<Rightarrow> rat \<Rightarrow> honey_fs \<Rightarrow> unit result \<times> honey_fs" where
  "utime d path new_atime new_mtime s = change_found d True path (set_ctime new_mtime) s"

definition fs_chmod :: "nat \<Rightarrow> string \<Rightarrow> int \<Rightarrow> honey_fs \<Rightarrow> unit result \<times> honey_fs" where
  "fs_chmod d path perm s = change_found d True path (\<lambda>e. set_mode (S_IFMT (e_mode e) OR perm) e) s"

definition fs_chown :: "nat \<Rightarrow> string \<Rightarrow> int \<Rightarrow> int \<Rightarrow> honey_fs \<Rightarrow> unit result \<times> honey_fs" where
  "fs_chown d path uid gid s =
     change_found d True path
       (\<lambda>e. set_owner (if uid \<noteq> -1 then uid else e_uid e) (if gid \<noteq> -1 then gid else e_gid e) e) s"

definition fs_remove :: "nat \<Rightarrow> string \<Rightarrow> honey_fs \<Rightarrow> unit result \<times> honey_fs" where
  "fs_remove d path s =
     (case found d False s path of
        Inl e \<Rightarrow> (Inl e, s)
      | Inr None \<Rightarrow> (Inl (OSError ENOENT), s)
      | Inr (Some (_, p)) \<Rightarrow> change_dir d (py_dirname path) (list_remove p) s)"

definition readlink :: "nat \<Rightarrow> string \<Rightarrow> honey_fs \<Rightarrow> string option result" where
  "readlink d path s =
     attempt (found d False s path) (\<lambda>r.
       case r of
         None \<Rightarrow> Inl (OSError ENOENT)
       | Some (_, p) \<Rightarrow> if e_mode p AND S_IFLNK = 0 then Inl (OSError Unspecified) else Inr (e_target p))"

text \<open>\<open>rename\<close>: the entry is out of its directory before the new directory is looked up.\<close>

definition fs_rename :: "nat \<Rightarrow> string \<Rightarrow> string \<Rightarrow> honey_fs \<Rightarrow> unit result \<times> honey_fs" where
  "fs_rename d oldpath newpath s =
     (case found d True s oldpath of
        Inl e \<Rightarrow> (Inl e, s)
      | Inr None \<Rightarrow> (Inl (OSError ENOENT), s)
      | Inr (Some (_, old)) \<Rightarrow>
          (case found d True s newpath of
             Inl e \<Rightarrow> (Inl e, s)
           | Inr (Some _) \<Rightarrow> (Inl (OSError EEXIST), s)
           | Inr None \<Rightarrow>
               (case change_dir d (py_dirname oldpath) (list_remove old) s of
                  (Inl e, s1) \<Rightarrow> (Inl e, s1)
                | (Inr _, s1) \<Rightarrow>
                    change_dir d (py_dirname newpath) (\<lambda>xs. Inr (xs @ [set_name (py_basename newpath) old])) s1)))"

definition listdir :: "nat \<Rightarrow> string \<Rightarrow> honey_fs \<Rightarrow> string list result" where
  "listdir d path s =
     attempt (get_path d True (fs_tree s) path) (\<lambda>l.
       case map_option e_contents (entry_at (fs_tree s) l) of
         Some (Children xs) \<Rightarrow> Inr (map e_name xs)
       | Some (Bytes b) \<Rightarrow> (if b = [] then Inr [] else Inl TypeError)
       | None \<Rightarrow> Inl FileNotFound)"

record statobj =
  st_mode :: int
  st_uid :: int
  st_gid :: int
  st_size :: int
  st_time :: rat

definition fs_stat :: "nat \<Rightarrow> rat \<Rightarrow> bool \<Rightarrow> string \<Rightarrow> honey_fs \<Rightarrow> statobj result" where
  "fs_stat d now follow_symlinks path s =
     (if path = [slash] then Inr \<lparr>st_mode = 16877, st_uid = 0, st_gid = 0, st_size = 4096, st_time = now\<rparr>
      else attempt (found d follow_symlinks s path) (\<lambda>r.
        case r of
          None \<Rightarrow> Inl (OSError ENOENT)
        | Some (_, p) \<Rightarrow>
            Inr \<lparr>st_mode = e_mode p, st_uid = e_uid p, st_gid = e_gid p, st_size = e_size p, st_time = e_ctime p\<rparr>))"

definition update_size :: "nat \<Rightarrow> string \<Rightarrow> int \<Rightarrow> honey_fs \<Rightarrow> unit result \<times> honey_fs" where
  "update_size d filename sz s =
     (case found d True s filename of
        Inl e \<Rightarrow> (Inl e, s)
      | Inr None \<Rightarrow> (Inr (), s)
      | Inr (Some (l, f)) \<Rightarrow> (Inr (), if e_type f \<noteq> T_FILE then s else change_at (set_size sz) l s))"

section \<open>Wildcards\<close>

text \<open>
  \<open>fnmatch.fnmatchcase\<close>. A set ends at the first closing bracket that is not its first character; without one the
  opening bracket stands for itself.
\<close>

fun set_members :: "string \<Rightarrow> char \<Rightarrow> bool" where
  "set_members [] c = False"
| "set_members [a] c = (c = a)"
| "set_members [a, b] c = (c = a \<or> c = b)"
| "set_members (a # b # e # rest) c =
     (if b = CHR ''-'' then (ord a \<le> ord c \<and> ord c \<le> ord e) \<or> set_members rest c
      else c = a \<or> set_members (b # e # rest) c)"

definition set_end :: "string \<Rightarrow> nat option" where
  "set_end pat =
     (let j0 = (if pat \<noteq> [] \<and> hd pat = CHR ''!'' then 1 else 0);
          j1 = (if j0 < length pat \<and> pat ! j0 = CHR '']'' then j0 + 1 else j0) in
      map_option (\<lambda>k. j1 + k) (first_index (\<lambda>c. c = CHR '']'') (drop j1 pat)))"

definition in_set :: "string \<Rightarrow> char \<Rightarrow> bool" where
  "in_set stuff c =
     (if stuff \<noteq> [] \<and> hd stuff = CHR ''!'' then \<not> set_members (tl stuff) c else set_members stuff c)"

function fnmatch :: "string \<Rightarrow> string \<Rightarrow> bool" where
  "fnmatch nm [] = (nm = [])"
| "fnmatch nm (p # pat) =
     (if p = CHR ''*'' then fnmatch nm pat \<or> (case nm of [] \<Rightarrow> False | _ # cs \<Rightarrow> fnmatch cs (p # pat))
      else if p = CHR ''?'' then nm \<noteq> [] \<and> fnmatch (tl nm) pat
      else case (if p = CHR ''['' then set_end pat else None) of
          Some j \<Rightarrow> nm \<noteq> [] \<and> in_set (take j pat) (hd nm) \<and> fnmatch (tl nm) (drop (Suc j) pat)
        | None \<Rightarrow> nm \<noteq> [] \<and> hd nm = p \<and> fnmatch (tl nm) pat)"
  by pat_completeness auto
termination by (relation "measure (\<lambda>(nm, pat). length nm + length pat)") auto

text \<open>The recursion of \<open>resolve_path_wc\<close>, which collects its results in order.\<close>

fun collect :: "('a \<Rightarrow> 'b list result) \<Rightarrow> 'a list \<Rightarrow> 'b list result" where
  "collect f [] = Inr []"
| "collect f (x # xs) = attempt (f x) (\<lambda>ys. attempt (collect f xs) (\<lambda>zs. Inr (ys @ zs)))"

fun wc_search :: "nat \<Rightarrow> honey_fs \<Rightarrow> string list \<Rightarrow> string list \<Rightarrow> string list result" where
  "wc_search d s [] cwd = Inr [slash # py_join [slash] cwd]"
| "wc_search d s (p # ps) cwd =
     (if p = ''.'' then wc_search d s ps cwd
      else if p = ''..'' then wc_search d s ps (butlast cwd)
      else attempt (listdir d (py_join [slash] cwd) s) (\<lambda>names.
        collect (\<lambda>match. wc_search d s ps (cwd @ [match])) (filter (\<lambda>x. fnmatch x p) names)))"

definition resolve_path_wc :: "nat \<Rightarrow> honey_fs \<Rightarrow> string \<Rightarrow> string \<Rightarrow> string list result" where
  "resolve_path_wc d s path cwd =
     (let pieces = split_on slash (rstrip_by (\<lambda>c. c = slash) path) in
      if hd pieces \<noteq> [] then wc_search d s pieces (filter (\<lambda>x. x \<noteq> []) (split_on slash cwd))
      else wc_search d s (tl pieces) [])"

end
