(* ===== verification/Shell_Fs_Laws.thy ===== *)
theory Shell_Fs_Laws
  imports Shell_Fs
begin

text \<open>
  What holds of the file system of the emulated shell: paths are resolved as the overlay of the model-backed session
  normalises them, the three lookups agree on a tree without links, a created file is found and nothing else
  changes, and a session can only add a bounded number of entries.
\<close>

section \<open>Paths\<close>

lemma resolve_loop_pop: "resolve_loop pieces cw = pop_dots (filter (\<lambda>p. p \<notin> {[], ''.''}) pieces) cw"
  by (induction pieces arbitrary: cw) auto

lemma split_on_append_sep: "split_on c (x @ c # s) = split_on c x @ split_on c s"
proof (induction x)
  case (Cons a x)
  have "split_on c x \<noteq> []" by (cases x) (auto split: list.split)
  then show ?case using Cons by (auto split: list.split)
qed simp

lemma split_on_snoc: "filter (\<lambda>p. p \<noteq> []) (split_on c (s @ [c])) = filter (\<lambda>p. p \<noteq> []) (split_on c s)"
  using split_on_append_sep [of c s "[]"] by simp

lemma split_on_rstrip: "filter (\<lambda>p. p \<noteq> []) (split_on c (rstrip_by (\<lambda>x. x = c) s)) = filter (\<lambda>p. p \<noteq> []) (split_on c s)"
proof (induction s rule: rev_induct)
  case (snoc x s)
  then show ?case by (auto simp: rstrip_by_snoc split_on_snoc)
qed simp

lemma filter_kept: "filter (\<lambda>p. p \<notin> {[], ''.''}) xs = filter (\<lambda>p. p \<noteq> ''.'') (filter (\<lambda>p. p \<noteq> []) xs)"
  by (induction xs) auto

lemma pop_dots_append: "pop_dots (ps @ qs) acc = pop_dots qs (pop_dots ps acc)"
  by (induction ps arbitrary: acc) auto

lemma resolve_path_eq:
  assumes "canonical cwd" "path \<noteq> []" "\<not> startswith path ''~/''"
  shows "resolve_path home path cwd = Inr (normpath (if hd path = slash then path else cwd @ slash # path))"
proof -
  have parts: "filter (\<lambda>p. p \<notin> {[], ''.''}) (split_on slash (rstrip_by (\<lambda>c. c = slash) path)) =
      filter (\<lambda>p. p \<notin> {[], ''.''}) (split_on slash path)"
    unfolding filter_kept split_on_rstrip ..
  obtain ps where ps: "cwd = abs_path ps" "\<forall>p\<in>set ps. good_part p" using canonical_abs [OF assms(1)] by blast
  have "split_on slash cwd = [] # (if ps = [] then [[]] else ps)"
    using ps split_on_join [of ps slash] by (auto simp: abs_path_def good_part_def)
  then have cwd: "filter (\<lambda>x. x \<noteq> []) (split_on slash cwd) = ps"
    using ps(2) by (auto simp: good_part_def filter_id_conv)
  have "path_parts (cwd @ slash # path) = pop_dots (filter (\<lambda>p. p \<notin> {[], ''.''}) (split_on slash path)) (path_parts cwd)"
    by (simp add: path_parts_def split_on_append_sep pop_dots_append)
  then have rel: "path_parts (cwd @ slash # path) = pop_dots (filter (\<lambda>p. p \<notin> {[], ''.''}) (split_on slash path)) ps"
    using ps path_parts_abs [of ps] by simp
  have "resolve_path home path cwd = Inr (slash # py_join [slash] (resolve_loop
      (split_on slash (rstrip_by (\<lambda>c. c = slash) path)) (if hd path = slash then [] else ps)))"
    using assms(2,3) by (simp add: resolve_path_def cwd Let_def)
  then show ?thesis using assms(2)
    by (simp add: resolve_loop_pop parts [simplified] normpath_def rel) (simp add: path_parts_def)
qed



section \<open>Trees\<close>

function count_entries :: "entry \<Rightarrow> nat" where
  "count_entries e = Suc (case e_contents e of Children xs \<Rightarrow> sum_list (map count_entries xs) | Bytes _ \<Rightarrow> 0)"
  by pat_completeness auto

lemma size_child: "e_contents e = Children xs \<Longrightarrow> x \<in> set xs \<Longrightarrow> size x < size e"
  using size_list_estimation' [of x xs "size x" size] by (cases e) auto

termination count_entries
  by (relation "measure size") (auto simp: size_child)

declare count_entries.simps [simp del]

lemma count_entries_set [simp]:
  "e_contents (set_contents c e) = c" "e_contents (set_name nm e) = e_contents e" "e_contents (set_owner u g e) = e_contents e"
  "e_contents (set_size sz e) = e_contents e" "e_contents (set_mode m e) = e_contents e"
  "e_contents (set_ctime t e) = e_contents e" "e_contents (set_realfile rf e) = e_contents e"
  "e_name (set_contents c e) = e_name e" "e_type (set_contents c e) = e_type e"
  by (cases e; simp add: set_contents_def set_name_def set_owner_def set_size_def set_mode_def set_ctime_def set_realfile_def)+

lemma count_update_at:
  "entry_at t l = Some e \<Longrightarrow> count_entries (update_at f t l) + count_entries e = count_entries t + count_entries (f e)"
proof (induction f t l rule: update_at.induct)
  case (2 f t i l)
  then obtain xs where xs: "e_contents t = Children xs" "i < length xs" "entry_at (xs ! i) l = Some e"
    by (auto split: contents.splits if_splits)
  have "count_entries (xs ! i) \<le> sum_list (map count_entries xs)" using xs(2) elem_le_sum_list [of i "map count_entries xs"] by simp
  then show ?case using "2.IH" [OF xs(1-3)] xs
    by (simp add: count_entries.simps [of t] count_entries.simps [of "set_contents _ _"] map_update sum_list_update)
qed simp

lemma count_set [simp]:
  "count_entries (set_name nm e) = count_entries e" "count_entries (set_owner u g e) = count_entries e"
  "count_entries (set_size sz e) = count_entries e" "count_entries (set_mode m e) = count_entries e"
  "count_entries (set_ctime t e) = count_entries e" "count_entries (set_realfile rf e) = count_entries e"
  by (simp_all add: count_entries.simps [of e] count_entries.simps [of "set_name nm e"]
      count_entries.simps [of "set_owner u g e"] count_entries.simps [of "set_size sz e"]
      count_entries.simps [of "set_mode m e"] count_entries.simps [of "set_ctime t e"]
      count_entries.simps [of "set_realfile rf e"])

abbreviation total_entries :: "entry list \<Rightarrow> nat" where "total_entries xs \<equiv> sum_list (map count_entries xs)"

lemma count_change_children:
  assumes "entry_at t l = Some e" "e_contents e = Children xs"
  shows "count_entries (update_at (set_contents (Children ys)) t l) + total_entries xs = count_entries t + total_entries ys"
  using count_update_at [OF assms(1), of "set_contents (Children ys)"] assms(2)
  by (simp add: count_entries.simps [of e] count_entries.simps [of "set_contents _ e"])

lemma remove_first_simps [simp]:
  "remove_first P [] = []" "remove_first P (x # xs) = (if P x then xs else x # remove_first P xs)"
  by (simp_all add: remove_first_def split: option.split)

lemma total_remove_first: "total_entries (remove_first P xs) \<le> total_entries xs"
  by (induction xs) auto

lemma first_index_Some: "first_index P xs = Some i \<Longrightarrow> i < length xs \<and> P (xs ! i)"
  by (induction xs arbitrary: i) (auto split: if_splits)

lemma total_remove_named: "total_entries (remove_named nm xs) \<le> total_entries xs"
proof (cases "first_index (\<lambda>x. e_name x = nm) xs")
  case (Some i)
  then have "xs ! i \<in> set xs" using first_index_Some by force
  then show ?thesis using Some sum_list_map_remove1 [of "xs ! i" xs count_entries] by (simp add: remove_named_def)
qed (simp add: remove_named_def)

section \<open>A session adds a bounded number of entries\<close>

datatype fs_op = MkFile rat string int int int int | MkDir rat string int int int int | MkDir2 rat string | RmDir string
  | UTime string rat rat | ChMod string int | ChOwn string int int | RemoveFile string | Rename string string
  | UpdateSize string int | OpenFile rat string "int option" string int int | CloseFile string int

fun apply_op :: "nat \<Rightarrow> fs_op \<Rightarrow> honey_fs \<Rightarrow> honey_fs" where
  "apply_op d (MkFile now path uid gid sz mode) s = snd (mkfile d now path uid gid sz mode s)"
| "apply_op d (MkDir now path uid gid sz mode) s = snd (mkdir d now path uid gid sz mode s)"
| "apply_op d (MkDir2 now path) s = snd (mkdir2 d now path s)"
| "apply_op d (RmDir path) s = snd (rmdir d path s)"
| "apply_op d (UTime path a m) s = snd (utime d path a m s)"
| "apply_op d (ChMod path perm) s = snd (fs_chmod d path perm s)"
| "apply_op d (ChOwn path uid gid) s = snd (fs_chown d path uid gid s)"
| "apply_op d (RemoveFile path) s = snd (fs_remove d path s)"
| "apply_op d (Rename old new) s = snd (fs_rename d old new s)"
| "apply_op d (UpdateSize path sz) s = snd (update_size d path sz s)"
| "apply_op d (OpenFile now hostfile fd path flags mode) s = snd (fs_open d now hostfile fd path flags mode s)"
| "apply_op d (CloseFile dir fd) s = snd (fs_close d dir fd s)"

text \<open>The entries there are and the ones that may still be created.\<close>

definition potential :: "honey_fs \<Rightarrow> nat" where
  "potential s = count_entries (fs_tree s) + (10001 - newcount s)"

lemma potential_simps [simp]:
  "potential (s\<lparr>host := h\<rparr>) = potential s" "potential (s\<lparr>tempfiles := t\<rparr>) = potential s"
  "potential (s\<lparr>filenames := n\<rparr>) = potential s"
  by (simp_all add: potential_def)

lemma found_at: "found d follow s path = Inr (Some (l, e)) \<Longrightarrow> entry_at (fs_tree s) l = Some e"
  by (cases "getfile d follow (fs_tree s) path") (auto simp: found_def split: bind_splits)

lemma potential_change_at:
  "entry_at (fs_tree s) l = Some e \<Longrightarrow> count_entries (f e) = count_entries e \<Longrightarrow> potential (change_at f l s) = potential s"
  using count_update_at [of "fs_tree s" l e f] by (simp add: potential_def change_at_def)

lemma potential_change_found:
  "(\<And>e. count_entries (f e) = count_entries e) \<Longrightarrow> potential (snd (change_found d follow path f s)) = potential s"
  by (auto simp: change_found_def potential_change_at dest: found_at split: sum.split option.split)

lemma potential_realfile:
  "found d follow s path = Inr f \<Longrightarrow> potential (snd (update_realfile f h s)) = potential s"
  by (auto simp: update_realfile_def potential_change_at dest: found_at split: option.split)

lemma potential_mkfile: "potential (snd (mkfile d now path uid gid sz mode s)) \<le> potential s"
proof (cases "get_path d True (fs_tree s) (py_dirname path)")
  case (Inr l)
  let ?new = "new_entry (py_basename path) T_FILE uid gid sz mode now"
  have n: "count_entries ?new = 1" by (simp add: new_entry_def count_entries.simps)
  show ?thesis
  proof (cases "\<exists>e xs. entry_at (fs_tree s) l = Some e \<and> e_contents e = Children xs")
    case True
    then obtain e xs where e: "entry_at (fs_tree s) l = Some e" "e_contents e = Children xs" by blast
    show ?thesis
      using count_change_children [OF e, of "remove_first (\<lambda>x. e_name x = py_basename path) xs @ [?new]"]
        total_remove_first [of "\<lambda>x. e_name x = py_basename path" xs] e Inr n
      by (auto simp: mkfile_def Let_def potential_def change_at_def)
  qed (use Inr in \<open>auto simp: mkfile_def split: option.split contents.split\<close>)
qed (simp add: mkfile_def)

lemma potential_mkdir: "potential (snd (mkdir d now path uid gid sz mode s)) \<le> potential s"
proof (cases "get_path d True (fs_tree s) (py_dirname (strip_by (\<lambda>c. c = slash) path))")
  case (Inr l)
  let ?new = "new_entry (py_basename path) T_DIR uid gid sz mode now"
  have n: "count_entries ?new = 1" by (simp add: new_entry_def count_entries.simps)
  show ?thesis
  proof (cases "\<exists>e xs. entry_at (fs_tree s) l = Some e \<and> e_contents e = Children xs")
    case True
    then obtain e xs where e: "entry_at (fs_tree s) l = Some e" "e_contents e = Children xs" by blast
    show ?thesis using count_change_children [OF e, of "xs @ [?new]"] e Inr n
      by (auto simp: mkdir_def Let_def potential_def change_at_def)
  qed (use Inr in \<open>auto simp: mkdir_def Let_def split: option.split contents.split\<close>)
qed (simp add: mkdir_def Let_def)

text \<open>What a change of a directory does to the number of entries.\<close>

lemma change_dir_total:
  assumes "change_dir d path f s = (r, s')"
  shows "(\<exists>e. r = Inl e \<and> s' = s) \<or>
    (\<exists>xs ys. r = Inr () \<and> f xs = Inr ys \<and> newcount s' = newcount s \<and>
       count_entries (fs_tree s') + total_entries xs = count_entries (fs_tree s) + total_entries ys)"
proof (cases "\<exists>l e xs ys. get_path d True (fs_tree s) path = Inr l \<and> entry_at (fs_tree s) l = Some e \<and>
    e_contents e = Children xs \<and> f xs = Inr ys")
  case True
  then obtain l e xs ys where l: "get_path d True (fs_tree s) path = Inr l" "entry_at (fs_tree s) l = Some e"
    "e_contents e = Children xs" "f xs = Inr ys" by blast
  then have "r = Inr ()" "s' = change_at (set_contents (Children ys)) l s" using assms by (simp_all add: change_dir_def)
  then show ?thesis using l(4) count_change_children [OF l(2,3), of ys] by (auto simp: change_at_def)
qed (use assms in \<open>auto simp: change_dir_def split: sum.splits option.splits contents.splits\<close>)

lemma potential_remove: "potential (snd (fs_remove d path s)) \<le> potential s"
proof (cases "found d False s path")
  case (Inr r)
  show ?thesis
  proof (cases r)
    case (Some lp)
    obtain q s' where q: "change_dir d (py_dirname path) (list_remove (snd lp)) s = (q, s')" by force
    have "fs_remove d path s = (q, s')" using Inr Some q by (cases lp) (simp add: fs_remove_def)
    moreover have "potential s' \<le> potential s"
    proof -
      have "total_entries (remove1 (snd lp) xs) \<le> total_entries xs" for xs
        using sum_list_map_remove1 [of "snd lp" xs count_entries] by (cases "snd lp \<in> set xs") (simp_all add: remove1_idem)
      then show ?thesis using change_dir_total [OF q]
      proof (elim disjE exE conjE)
        fix xs ys assume "list_remove (snd lp) xs = Inr ys" "newcount s' = newcount s"
          "count_entries (fs_tree s') + total_entries xs = count_entries (fs_tree s) + total_entries ys"
        moreover from this have "ys = remove1 (snd lp) xs" by (simp add: list_remove_def split: if_splits)
        ultimately show ?thesis using \<open>\<And>xs. total_entries (remove1 (snd lp) xs) \<le> total_entries xs\<close> [of xs]
          by (simp add: potential_def)
      qed simp
    qed
    ultimately show ?thesis by simp
  qed (use Inr in \<open>simp add: fs_remove_def\<close>)
qed (simp add: fs_remove_def)

lemma potential_rename: "potential (snd (fs_rename d old new s)) \<le> potential s"
proof (cases "\<exists>l e. found d True s old = Inr (Some (l, e)) \<and> found d True s new = Inr None")
  case True
  then obtain l e where e: "found d True s old = Inr (Some (l, e))" "found d True s new = Inr None" by blast
  obtain q s1 where q: "change_dir d (py_dirname old) (list_remove e) s = (q, s1)" by force
  show ?thesis
  proof (cases q)
    case (Inl x)
    then show ?thesis using e q change_dir_total [OF q] by (auto simp: fs_rename_def)
  next
    case (Inr u)
    then obtain xs where "e \<in> set xs" "newcount s1 = newcount s"
        "count_entries (fs_tree s1) + total_entries xs = count_entries (fs_tree s) + total_entries (remove1 e xs)"
      using change_dir_total [OF q] by (auto simp: list_remove_def split: if_splits)
    then have p: "potential s1 + count_entries e = potential s" and n: "newcount s1 = newcount s"
      using sum_list_map_remove1 [of e xs count_entries] by (auto simp: potential_def)
    obtain q2 s2 where q2: "change_dir d (py_dirname new) (\<lambda>xs. Inr (xs @ [set_name (py_basename new) e])) s1 = (q2, s2)" by force
    have "potential s2 \<le> potential s1 + count_entries e" using change_dir_total [OF q2] by (auto simp: potential_def)
    moreover have "fs_rename d old new s = (q2, s2)" using e q Inr q2 by (simp add: fs_rename_def)
    ultimately show ?thesis using p by simp
  qed
qed (auto simp: fs_rename_def split: sum.split option.split)

lemma potential_rmdir: "potential (snd (rmdir d path s)) \<le> potential s"
proof -
  have "potential (snd (remove_child d parent nm s)) \<le> potential s" for parent nm
  proof (cases "\<exists>l e xs. get_path d True (fs_tree s) parent = Inr l \<and> entry_at (fs_tree s) l = Some e \<and> e_contents e = Children xs")
    case True
    then obtain l e xs where l: "get_path d True (fs_tree s) parent = Inr l" "entry_at (fs_tree s) l = Some e"
      "e_contents e = Children xs" by blast
    then show ?thesis using count_change_children [OF l(2,3), of "remove_named nm xs"] total_remove_named [of nm xs]
      by (auto simp: remove_child_def potential_def change_at_def)
  qed (auto simp: remove_child_def split: sum.split option.split contents.split)
  then show ?thesis by (auto simp: rmdir_def Let_def split: sum.split option.split)
qed

lemma potential_open: "potential (snd (fs_open d now hostfile fd path flags mode s)) \<le> potential s"
proof (cases "mkfile d now path 0 0 0 (S_IFREG OR mode) s")
  case (Pair r s1)
  then have p: "potential s1 \<le> potential s" using potential_mkfile [of d now path 0 0 0 "S_IFREG OR mode" s] by simp
  define s2 where "s2 = s1\<lparr>host := (if map_of (host s1) hostfile = None \<or> flags AND 512 \<noteq> 0
    then AList.update hostfile [] (host s1) else host s1)\<rparr>"
  have s2: "potential s2 = potential s1" by (simp add: s2_def)
  have q: "potential s3 = potential s2" if "found d True s2 path = Inr f" "update_realfile f hostfile s2 = (q, s3)" for f q s3
    using potential_realfile [OF that(1), of hostfile] that(2) by simp
  have "fs_open d now hostfile fd path flags mode s =
      (if flags AND 1 = 1 \<or> flags AND 2 = 2 then
         (case r of
            Inl e \<Rightarrow> (Inl e, s1)
          | Inr _ \<Rightarrow>
              (case fd of
                 None \<Rightarrow> (Inl HostError, s1)
               | Some fd \<Rightarrow>
                   (case found d True s2 path of
                      Inl e \<Rightarrow> (Inl e, s2)
                    | Inr f \<Rightarrow>
                        (case update_realfile f hostfile s2 of
                           (Inl e, s3) \<Rightarrow> (Inl e, s3)
                         | (Inr _, s3) \<Rightarrow>
                             (Inr (Some fd), s3\<lparr>tempfiles := AList.update fd hostfile (tempfiles s3),
                                filenames := AList.update fd path (filenames s3)\<rparr>)))))
       else (Inr None, s))"
    unfolding fs_open_def Pair Let_def s2_def by (cases r) simp_all
  then show ?thesis using p s2 q by (auto split: sum.split option.split prod.split)
qed

lemma potential_close: "potential (snd (fs_close d dir fd s)) = potential s"
proof -
  have q: "potential s2 = potential s1" if "found d True s1 nm = Inr f" "update_realfile f h s1 = (q, s2)" for s1 s2 nm f h q
    using potential_realfile [OF that(1), of h] that(2) by simp
  have e: "potential (s\<lparr>host := h\<rparr>) = potential s" for h by simp
  show ?thesis by (auto simp: fs_close_def Let_def e dest!: q split: sum.split option.split prod.split)
qed

lemma potential_op: "potential (apply_op d op s) \<le> potential s"
proof (cases op)
  case (MkDir2 now path)
  then show ?thesis using potential_mkdir [of d now path 0 0 4096 16877 s]
    by (simp add: mkdir2_def split: sum.split option.split)
next
  case (UpdateSize path sz)
  then show ?thesis by (auto simp: update_size_def potential_change_at dest: found_at split: sum.split option.split)
qed (simp_all add: potential_mkfile potential_mkdir potential_rmdir utime_def fs_chmod_def fs_chown_def
    potential_change_found potential_remove potential_rename potential_open potential_close)


section \<open>Trees without links\<close>

text \<open>The entry that the components of a path lead to, and the trees in which a name has one meaning.\<close>

fun lookup :: "entry \<Rightarrow> string list \<Rightarrow> entry option" where
  "lookup e [] = Some e"
| "lookup e (p # ps) =
     (case e_contents e of
        Children xs \<Rightarrow> (case find (\<lambda>x. e_name x = p) xs of None \<Rightarrow> None | Some x \<Rightarrow> lookup x ps)
      | Bytes _ \<Rightarrow> None)"

function plain_tree :: "entry \<Rightarrow> bool" where
  "plain_tree e \<longleftrightarrow> e_type e \<noteq> T_LINK \<and>
     (case e_contents e of
        Children xs \<Rightarrow> distinct (map e_name xs) \<and> (\<forall>x\<in>set xs. plain_tree x)
      | Bytes _ \<Rightarrow> True)"
  by pat_completeness auto
termination by (relation "measure size") (auto simp: size_child)

declare plain_tree.simps [simp del]

definition plain_part :: "string \<Rightarrow> bool" where
  "plain_part p \<longleftrightarrow> p \<noteq> [] \<and> slash \<notin> set p"

lemma plain_children:
  "plain_tree e \<Longrightarrow> e_contents e = Children xs \<Longrightarrow>
    distinct (map e_name xs) \<and> (\<forall>x\<in>set xs. plain_tree x \<and> e_type x \<noteq> T_LINK)"
  using plain_tree.simps [of e] by (auto simp: plain_tree.simps)

lemma entry_at_append: "entry_at t (l @ m) = Option.bind (entry_at t l) (\<lambda>e. entry_at e m)"
  by (induction t l rule: entry_at.induct) (auto split: contents.split)

lemma first_index_None: "first_index P xs = None \<longleftrightarrow> (\<forall>x\<in>set xs. \<not> P x)"
  by (induction xs) auto

lemma find_first_index: "find P xs = map_option ((!) xs) (first_index P xs)"
  by (induction xs) (auto simp: option.map_comp comp_def)

lemma last_join: "ps \<noteq> [] \<Longrightarrow> \<forall>p\<in>set ps. p \<noteq> [] \<Longrightarrow> last (py_join sep ps) = last (last ps) \<and> py_join sep ps \<noteq> []"
  by (induction sep ps rule: py_join.induct) auto

lemma hd_join: "ps \<noteq> [] \<Longrightarrow> hd ps \<noteq> [] \<Longrightarrow> hd (py_join sep ps) = hd (hd ps)"
  by (cases "(sep, ps)" rule: py_join.cases) auto

lemma plain_path:
  assumes "\<forall>p\<in>set ps. plain_part p" "ps \<noteq> []"
  shows "split_on slash (strip_by (\<lambda>c. c = slash) (abs_path ps)) = ps" "split_on slash (abs_path ps) = [] # ps"
    "abs_path ps \<noteq> [slash]" "filter (\<lambda>p. p \<noteq> []) (split_on slash (abs_path ps)) = ps"
proof -
  have ne: "\<forall>p\<in>set ps. p \<noteq> []" and ns: "\<forall>p\<in>set ps. slash \<notin> set p" using assms(1) by (auto simp: plain_part_def)
  have j: "py_join [slash] ps \<noteq> []" "last (py_join [slash] ps) = last (last ps)" "hd (py_join [slash] ps) = hd (hd ps)"
    using last_join [of ps "[slash]"] hd_join [of ps "[slash]"] assms(2) ne by auto
  have "hd (hd ps) \<noteq> slash" "last (last ps) \<noteq> slash"
    using assms(2) ne ns hd_in_set [of "hd ps"] last_in_set [of "last ps"] by fastforce+
  then have "strip_by (\<lambda>c. c = slash) (abs_path ps) = py_join [slash] ps"
    using j by (simp add: abs_path_def strip_by_Cons strip_by_id)
  then show "split_on slash (strip_by (\<lambda>c. c = slash) (abs_path ps)) = ps"
    using assms(2) ns by (simp add: split_on_join)
  show s: "split_on slash (abs_path ps) = [] # ps" using assms(2) ns by (simp add: abs_path_def split_on_join)
  show "abs_path ps \<noteq> [slash]" using j(1) by (simp add: abs_path_def)
  show "filter (\<lambda>p. p \<noteq> []) (split_on slash (abs_path ps)) = ps" using ne by (simp add: s filter_id_conv)
qed

lemma pick_child_plain:
  "\<forall>x\<in>set xs. e_type x \<noteq> T_LINK \<Longrightarrow> distinct (map e_name xs) \<Longrightarrow>
    pick_child follow as_is piece parent i xs p =
      Inr (Some (case first_index (\<lambda>x. e_name x = piece) xs of None \<Rightarrow> p | Some k \<Rightarrow> parent @ [i + k]))"
proof (induction xs arbitrary: i p)
  case (Cons x xs)
  have "e_name x = piece \<Longrightarrow> first_index (\<lambda>x. e_name x = piece) xs = None"
    using Cons.prems(2) by (simp add: first_index_None image_iff) metis
  then show ?case using Cons by (simp split: option.split)
qed simp

lemma walk_dir_plain:
  "entry_at t l = Some e \<Longrightarrow> plain_tree e \<Longrightarrow> \<forall>p\<in>set ps. plain_part p \<Longrightarrow>
    (case walk_dir d follow t ps l of Inl x \<Rightarrow> x = FileNotFound \<and> lookup e ps = None | Inr k \<Rightarrow> entry_at t k = lookup e ps \<and> lookup e ps \<noteq> None)"
proof (induction ps arbitrary: l e)
  case (Cons p ps)
  show ?case
  proof (cases "e_contents e")
    case (Children xs)
    show ?thesis
    proof (cases "first_index (\<lambda>c. e_name c = p) xs")
      case None
      then show ?thesis using Cons.prems Children by (simp add: find_first_index plain_part_def)
    next
      case (Some i)
      have i: "i < length xs" using first_index_Some [OF Some] by simp
      have "entry_at t (l @ [i]) = Some (xs ! i)" using Cons.prems(1) Children i by (simp add: entry_at_append)
      then show ?thesis
        using Cons.IH [of "l @ [i]" "xs ! i"] Cons.prems Children Some plain_children [OF Cons.prems(2) Children] i
        by (simp add: find_first_index plain_part_def split: sum.splits)
    qed
  qed (use Cons.prems in \<open>simp add: plain_part_def\<close>)
qed simp

lemma walk_file_plain:
  "entry_at t l = Some e \<Longrightarrow> plain_tree e \<Longrightarrow>
    (case walk_file follow fl t final ps l of
       Inl x \<Rightarrow> x = TypeError \<and> lookup e ps = None
     | Inr None \<Rightarrow> lookup e ps = None
     | Inr (Some k) \<Rightarrow> entry_at t k = lookup e ps \<and> lookup e ps \<noteq> None)"
proof (induction ps arbitrary: l e)
  case (Cons p ps)
  show ?case
  proof (cases "e_contents e")
    case (Children xs)
    note c = plain_children [OF Cons.prems(2) Children]
    show ?thesis
    proof (cases "first_index (\<lambda>c. e_name c = p) xs")
      case None
      have "p \<notin> set (map e_name xs)" using None by (force simp: first_index_None)
      then show ?thesis using Cons.prems Children None by (simp add: find_first_index)
    next
      case (Some i)
      have i: "i < length xs" "e_name (xs ! i) = p" using first_index_Some [OF Some] by simp_all
      have "p \<in> set (map e_name xs)" using i by auto
      moreover have "entry_at t (l @ [i]) = Some (xs ! i)" using Cons.prems(1) Children i by (simp add: entry_at_append)
      ultimately show ?thesis
        using Cons.IH [of "l @ [i]" "xs ! i"] Cons.prems Children Some c i
        by (auto simp: find_first_index pick_child_plain attempt_def split: sum.splits option.splits)
    qed
  qed (use Cons.prems in simp)
qed simp

lemma find_parts_plain: "plain_tree e \<Longrightarrow> find_parts follow ps e = Inr (lookup e ps)"
proof (induction ps arbitrary: e)
  case (Cons p ps)
  have t: "e_type e \<noteq> T_LINK" using Cons.prems plain_tree.simps [of e] by blast
  show ?case
  proof (cases "e_contents e")
    case (Children xs)
    then show ?thesis using Cons.IH plain_children [OF Cons.prems Children] t first_index_Some [of "\<lambda>c. e_name c = p" xs]
      by (auto simp: attempt_def find_first_index split: option.split)
  qed (use t in \<open>simp add: attempt_def\<close>)
qed (use plain_tree.simps in auto)

text \<open>The three lookups of the emulated shell, by \<open>getfile\<close>, by \<open>get_path\<close> and by the reader of the stock file
  system, find the same entry under every absolute path of a tree without links, and none of them finds one where
  the others do not.\<close>

lemma lookups_agree:
  assumes "plain_tree t" "\<forall>p\<in>set ps. plain_part p" "ps \<noteq> []"
  shows "(case getfile (Suc d) follow t (abs_path ps) of Inr (Some l) \<Rightarrow> entry_at t l | _ \<Rightarrow> None) = lookup t ps \<and>
    (case get_path d follow t (abs_path ps) of Inr l \<Rightarrow> entry_at t l | Inl _ \<Rightarrow> None) = lookup t ps \<and>
    find_entry (Suc k) t (abs_path ps) = Inr (lookup t ps)"
proof -
  note p = plain_path [OF assms(2,3)]
  have "getfile (Suc d) follow t (abs_path ps) = walk_file (getfile d follow t) follow t (last ps) ps []"
    using p by (simp add: Let_def)
  moreover have "get_path d follow t (abs_path ps) = walk_dir d follow t ps []" using p by (simp add: get_path_def)
  ultimately show ?thesis
    using walk_file_plain [where t = t and l = "[]" and e = t and follow = "getfile d follow t" and fl = follow and final = "last ps" and ps = ps]
      walk_dir_plain [where t = t and l = "[]" and e = t and ps = ps and d = d and follow = follow] assms(1,2)
      find_parts_plain [OF assms(1), of "find_entry k t" ps] p(4)
    by (auto split: sum.splits option.splits)
qed

section \<open>Creating a file\<close>

text \<open>The positions that the components of a path lead through.\<close>

fun named :: "entry \<Rightarrow> loc \<Rightarrow> string list \<Rightarrow> bool" where
  "named e [] ps \<longleftrightarrow> ps = []"
| "named e (i # l) ps \<longleftrightarrow>
     (case (e_contents e, ps) of
        (Children xs, p # qs) \<Rightarrow> i < length xs \<and> e_name (xs ! i) = p \<and> named (xs ! i) l qs
      | _ \<Rightarrow> False)"

lemma walk_dir_named:
  "entry_at t l = Some e \<Longrightarrow> plain_tree e \<Longrightarrow> \<forall>p\<in>set ps. plain_part p \<Longrightarrow> walk_dir d follow t ps l = Inr k \<Longrightarrow>
    \<exists>m. k = l @ m \<and> named e m ps"
proof (induction ps arbitrary: l e)
  case (Cons p ps)
  then obtain xs i where x: "e_contents e = Children xs" "first_index (\<lambda>c. e_name c = p) xs = Some i"
    by (auto simp: plain_part_def split: contents.splits option.splits)
  have i: "i < length xs" "e_name (xs ! i) = p" using first_index_Some [OF x(2)] by simp_all
  have c: "plain_tree (xs ! i)" "e_type (xs ! i) \<noteq> T_LINK" using plain_children [OF Cons.prems(2) x(1)] i(1) by simp_all
  have "entry_at t (l @ [i]) = Some (xs ! i)" using Cons.prems(1) x(1) i(1) by (simp add: entry_at_append)
  moreover have "walk_dir d follow t ps (l @ [i]) = Inr k"
    using Cons.prems(1,3,4) x c(2) by (simp add: plain_part_def)
  ultimately obtain m where "k = (l @ [i]) @ m" "named (xs ! i) m ps" using Cons.IH [of "l @ [i]" "xs ! i"] c(1) Cons.prems(3) by auto
  then show ?case using x(1) i by (intro exI [of _ "i # m"]) simp
qed simp

lemma find_nth:
  "distinct (map e_name xs) \<Longrightarrow> i < length xs \<Longrightarrow> find (\<lambda>x. e_name x = e_name (xs ! i)) xs = Some (xs ! i)"
proof (induction xs arbitrary: i)
  case (Cons x xs)
  then show ?case by (cases i) auto
qed simp

lemma find_update_other:
  "i < length xs \<Longrightarrow> e_name y = e_name (xs ! i) \<Longrightarrow> p \<noteq> e_name (xs ! i) \<Longrightarrow>
    find (\<lambda>x. e_name x = p) (xs[i := y]) = find (\<lambda>x. e_name x = p) xs"
proof (induction xs arbitrary: i)
  case (Cons x xs)
  then show ?case by (cases i) auto
qed simp

text \<open>A change below a position is seen by the paths through it, and by no other path.\<close>

lemma update_at_named:
  assumes "plain_tree t" "named t l ps" "entry_at t l = Some e" "plain_tree (f e)" "e_name (f e) = e_name e"
  shows "plain_tree (update_at f t l) \<and> e_name (update_at f t l) = e_name t \<and>
    lookup (update_at f t l) (ps @ qs) = lookup (f e) qs \<and>
    (\<not> prefix rs ps \<longrightarrow> \<not> prefix ps rs \<longrightarrow> lookup (update_at f t l) rs = lookup t rs)"
  using assms
proof (induction l arbitrary: t ps rs)
  case (Cons i l)
  then obtain xs p ps' where x: "e_contents t = Children xs" "ps = p # ps'" "i < length xs" "e_name (xs ! i) = p"
      "named (xs ! i) l ps'"
    by (auto split: contents.splits list.splits)
  note c = plain_children [OF Cons.prems(1) x(1)]
  let ?y = "update_at f (xs ! i) l" and ?ys = "xs[i := update_at f (xs ! i) l]"
  have pl: "plain_tree (xs ! i)" and en: "entry_at (xs ! i) l = Some e" using c x(1,3) Cons.prems(3) by simp_all
  note ih = Cons.IH [OF pl x(5) en Cons.prems(4,5)]
  have u: "update_at f t (i # l) = set_contents (Children ?ys) t" using x(1,3) by simp
  have names: "map e_name ?ys = map e_name xs" using ih x(3) by (simp add: map_update list_update_same_conv)
  have "distinct (map e_name ?ys)" using c names by simp
  moreover have "\<forall>y\<in>set ?ys. plain_tree y" using c ih set_update_subset_insert [of xs i ?y] by blast
  ultimately have "plain_tree (update_at f t (i # l))"
    using Cons.prems(1) unfolding u by (simp add: plain_tree.simps [of "set_contents _ t"] plain_tree.simps [of t])
  moreover have "e_name (update_at f t (i # l)) = e_name t" unfolding u by simp
  moreover have "lookup (update_at f t (i # l)) (ps @ qs) = lookup (f e) qs"
    using find_nth [of ?ys i] names c ih x(2-4) unfolding u by simp
  moreover have "lookup (update_at f t (i # l)) rs = lookup t rs" if "\<not> prefix rs ps" "\<not> prefix ps rs"
  proof (cases rs)
    case (Cons r rs')
    show ?thesis
    proof (cases "r = p")
      case True
      then have "lookup ?y rs' = lookup (xs ! i) rs'" using Cons.IH [OF pl x(5) en Cons.prems(4,5), of rs'] that x(2) Cons
        by auto
      then show ?thesis using find_nth [of ?ys i] find_nth [of xs i] names c ih x(1-4) True Cons unfolding u by simp
    next
      case False
      then show ?thesis using find_update_other [of i xs ?y r] ih x(1,3,4) Cons unfolding u by simp
    qed
  qed (use that in simp)
  ultimately show ?case by blast
qed simp

lemma py_path_split:
  assumes "\<forall>p\<in>set ps. plain_part p" "plain_part nm"
  shows "py_dirname (abs_path (ps @ [nm])) = abs_path ps" "py_basename (abs_path (ps @ [nm])) = nm"
proof -
  have nm: "slash \<notin> set nm" using assms(2) by (simp add: plain_part_def)
  have split: "abs_path (ps @ [nm]) = (if ps = [] then [slash] else abs_path ps @ [slash]) @ nm"
    by (cases "ps = []") (simp_all add: abs_path_def py_join_append)
  have drop: "dropWhile (\<lambda>c. c \<noteq> slash) (rev nm @ slash # r) = slash # r"
    "takeWhile (\<lambda>c. c \<noteq> slash) (rev nm @ slash # r) = rev nm" for r
    using nm cut_at_char [of slash "rev nm" r] by auto
  show "py_basename (abs_path (ps @ [nm])) = nm"
    unfolding split py_basename_def by (cases "ps = []") (simp_all add: drop abs_path_def)
  show "py_dirname (abs_path (ps @ [nm])) = abs_path ps"
  proof (cases "ps = []")
    case False
    have ne: "\<forall>p\<in>set ps. p \<noteq> []" using assms(1) by (auto simp: plain_part_def)
    note j = last_join [OF False ne, of "[slash]"] hd_join [OF False, of "[slash]"]
    have "last ps \<in> set ps" "hd ps \<in> set ps" using False by simp_all
    then have "last (last ps) \<noteq> slash" "hd (hd ps) \<noteq> slash"
      using assms(1) last_in_set [of "last ps"] hd_in_set [of "hd ps"] by (fastforce simp: plain_part_def)+
    then have l: "last (abs_path ps) \<noteq> slash" "\<not> list_all (\<lambda>c. c = slash) (abs_path ps @ [slash])"
      using j ne False hd_in_set [of "py_join [slash] ps"] by (auto simp: abs_path_def list_all_iff)
    have "abs_path ps \<noteq> []" by (simp add: abs_path_def)
    then have "rstrip_by (\<lambda>c. c = slash) (abs_path ps @ [slash]) = abs_path ps" using l by (simp add: rstrip_by_snoc rstrip_by_id)
    then show ?thesis unfolding split py_dirname_def Let_def using False l by (simp add: drop del: list_all_append)
  qed (simp add: split py_dirname_def Let_def drop abs_path_def)
qed

lemma remove_first_set: "set (remove_first P xs) \<subseteq> set xs"
  by (induction xs) auto

lemma remove_first_names:
  "distinct (map e_name xs) \<Longrightarrow> nm \<notin> e_name ` set (remove_first (\<lambda>x. e_name x = nm) xs) \<and>
    distinct (map e_name (remove_first (\<lambda>x. e_name x = nm) xs)) \<and>
    (q \<noteq> nm \<longrightarrow> find (\<lambda>x. e_name x = q) (remove_first (\<lambda>x. e_name x = nm) xs) = find (\<lambda>x. e_name x = q) xs)"
proof (induction xs)
  case (Cons x xs)
  then show ?case using remove_first_set [of "\<lambda>x. e_name x = nm" xs] by auto
qed simp

lemma find_append: "find P (xs @ ys) = (case find P xs of None \<Rightarrow> find P ys | Some x \<Rightarrow> Some x)"
  by (induction xs) auto

lemma put_child:
  assumes "plain_tree e" "e_contents e = Children xs" "plain_tree y" "e_name y = nm"
  defines "e' \<equiv> set_contents (Children (remove_first (\<lambda>x. e_name x = nm) xs @ [y])) e"
  shows "plain_tree e'" "lookup e' (nm # qs) = lookup y qs" "q \<noteq> nm \<Longrightarrow> lookup e' (q # qs) = lookup e (q # qs)"
proof -
  note c = plain_children [OF assms(1,2)]
  note r = remove_first_names [OF conjunct1 [OF c], of nm]
  have none: "find (\<lambda>x. e_name x = nm) (remove_first (\<lambda>x. e_name x = nm) xs) = None"
    using r [of nm] by (auto simp: find_None_iff)
  show "plain_tree e'"
    using r [of nm] c assms(1,3,4) remove_first_set [of "\<lambda>x. e_name x = nm" xs]
    unfolding e'_def plain_tree.simps [of "set_contents _ e"] by (auto simp: plain_tree.simps [of e])
  show "lookup e' (nm # qs) = lookup y qs" using assms(4) none by (simp add: e'_def find_append)
  show "lookup e' (q # qs) = lookup e (q # qs)" if "q \<noteq> nm"
    using that r [of q] assms(2,4) by (simp add: e'_def find_append split: option.split)
qed

lemma mkfile_creates:
  assumes "plain_tree (fs_tree s)" "\<forall>p\<in>set ps. plain_part p" "plain_part nm"
    and "lookup (fs_tree s) ps = Some dir" "e_contents dir = Children xs"
    and "newcount s \<le> 10000" "\<not> list_ex (startswith (abs_path ps)) SPECIAL_PATHS"
  shows "case mkfile d now (abs_path (ps @ [nm])) uid gid sz mode s of (r, s') \<Rightarrow>
    r = Inr True \<and> plain_tree (fs_tree s') \<and>
    lookup (fs_tree s') (ps @ [nm]) = Some (new_entry nm T_FILE uid gid sz mode now) \<and>
    (\<forall>qs. prefix qs (ps @ [nm]) \<or> prefix (ps @ [nm]) qs \<or> lookup (fs_tree s') qs = lookup (fs_tree s) qs)"
proof -
  let ?t = "fs_tree s" and ?new = "new_entry nm T_FILE uid gid sz mode now"
  let ?f = "set_contents (Children (remove_first (\<lambda>x. e_name x = nm) xs @ [?new]))"
  have parts: "walk_dir d True ?t (split_on slash (abs_path ps)) [] = walk_dir d True ?t ps []"
  proof (cases "ps = []")
    case False
    then show ?thesis using plain_path(2) [OF assms(2)] by simp
  qed (simp add: abs_path_def)
  obtain l where l: "walk_dir d True ?t ps [] = Inr l" "entry_at ?t l = Some dir"
    using walk_dir_plain [of ?t "[]" ?t ps d True] assms(1,2,4) by (cases "walk_dir d True ?t ps []") auto
  have nmd: "named ?t l ps" using walk_dir_named [of ?t "[]" ?t ps d True l] assms(1,2) l(1) by simp
  have run: "mkfile d now (abs_path (ps @ [nm])) uid gid sz mode s =
      (Inr True, (change_at ?f l s)\<lparr>newcount := newcount s + 1\<rparr>)"
    using assms(5-7) l by (simp add: mkfile_def py_path_split [OF assms(2,3)] get_path_def parts Let_def)
  have dir: "plain_tree dir"
  proof -
    have "plain_tree t \<Longrightarrow> named t l qs \<Longrightarrow> entry_at t l = Some e \<Longrightarrow> plain_tree e" for t qs e
      by (induction t l qs rule: named.induct) (auto dest: plain_children split: contents.splits list.splits)
    then show ?thesis using assms(1) nmd l(2) .
  qed
  have new: "plain_tree ?new" "e_name ?new = nm" by (simp_all add: new_entry_def plain_tree.simps)
  note put = put_child [OF dir assms(5) new]
  have nmf: "e_name (?f dir) = e_name dir" by simp
  note up = update_at_named [where f = ?f, OF assms(1) nmd l(2) put(1) nmf]
  have "lookup (update_at ?f ?t l) qs = lookup ?t qs" if n: "\<not> prefix qs (ps @ [nm])" "\<not> prefix (ps @ [nm]) qs" for qs
  proof (cases "prefix ps qs")
    case True
    then obtain zs where zs: "qs = ps @ zs" by (auto simp: prefix_def)
    then obtain q zs' where q: "zs = q # zs'" "q \<noteq> nm" using n by (cases zs) auto
    have "lookup ?t (ps @ zs) = lookup dir zs"
    proof -
      have "lookup t (as @ bs) = Option.bind (lookup t as) (\<lambda>e. lookup e bs)" for t as bs
        by (induction t as rule: lookup.induct) (auto split: contents.split option.split)
      then show ?thesis using assms(4) by simp
    qed
    then show ?thesis using up [of zs] put(3) [of q zs'] q zs by simp
  next
    case False
    then show ?thesis using up [of "[]" qs] n by (auto simp: prefix_def)
  qed
  then show ?thesis using up [of "[nm]"] put(2) [of "[]"] unfolding run by (auto simp: change_at_def)
qed

text \<open>An entry that is found can be changed in place, and the other paths do not see it.\<close>

lemma walk_file_named:
  "entry_at t l = Some e \<Longrightarrow> plain_tree e \<Longrightarrow> walk_file follow fl t final ps l = Inr (Some k) \<Longrightarrow>
    \<exists>m. k = l @ m \<and> named e m ps"
proof (induction ps arbitrary: l e)
  case (Cons p ps)
  then obtain xs where x: "e_contents e = Children xs" "p \<in> set (map e_name xs)"
    by (auto split: contents.splits if_splits)
  note c = plain_children [OF Cons.prems(2) x(1)]
  obtain i where i: "first_index (\<lambda>c. e_name c = p) xs = Some i"
    using x(2) first_index_None [of "\<lambda>c. e_name c = p" xs] by force
  have n: "i < length xs" "e_name (xs ! i) = p" using first_index_Some [OF i] by simp_all
  have "entry_at t (l @ [i]) = Some (xs ! i)" using Cons.prems(1) x(1) n(1) by (simp add: entry_at_append)
  moreover have "walk_file follow fl t final ps (l @ [i]) = Inr (Some k)"
    using Cons.prems(1,3) x c i by (simp add: pick_child_plain attempt_def)
  ultimately obtain m where "k = (l @ [i]) @ m" "named (xs ! i) m ps"
    using Cons.IH [of "l @ [i]" "xs ! i"] c n(1) by auto
  then show ?case using x(1) n by (intro exI [of _ "i # m"]) simp
qed simp

lemma found_plain:
  assumes "plain_tree (fs_tree s)" "\<forall>p\<in>set ps. plain_part p" "ps \<noteq> []" "lookup (fs_tree s) ps = Some e"
  shows "\<exists>l. found (Suc d) follow s (abs_path ps) = Inr (Some (l, e)) \<and> entry_at (fs_tree s) l = Some e \<and> named (fs_tree s) l ps"
proof -
  let ?t = "fs_tree s"
  have g: "getfile (Suc d) follow ?t (abs_path ps) = walk_file (getfile d follow ?t) follow ?t (last ps) ps []"
    using plain_path [OF assms(2,3)] by (simp add: Let_def)
  obtain k where k: "walk_file (getfile d follow ?t) follow ?t (last ps) ps [] = Inr (Some k)" "entry_at ?t k = Some e"
    using walk_file_plain [where t = ?t and l = "[]" and e = ?t and follow = "getfile d follow ?t" and fl = follow
        and final = "last ps" and ps = ps] assms(1,4)
    by (auto split: sum.splits option.splits)
  then show ?thesis
    using walk_file_named [where t = ?t and l = "[]" and e = ?t and follow = "getfile d follow ?t" and fl = follow
        and final = "last ps" and ps = ps and k = k] assms(1) g
    by (intro exI [of _ k]) (simp add: found_def)
qed

lemma change_plain:
  assumes "plain_tree (fs_tree s)" "named (fs_tree s) l ps" "entry_at (fs_tree s) l = Some e" "plain_tree (f e)" "e_name (f e) = e_name e"
  shows "plain_tree (fs_tree (change_at f l s))" "lookup (fs_tree (change_at f l s)) ps = Some (f e)"
  using update_at_named [where f = f, OF assms, of "[]" "[]"] by (simp_all add: change_at_def)

text \<open>Creating a file in a directory of a tree without links, outside the pseudo file systems and within the
  quota, succeeds; afterwards the path leads to the new empty file with the owner, size, mode and time given, every
  path that is neither above nor below it leads where it led, and names still have one meaning.\<close>

lemma mkfile_exact:
  assumes "plain_tree (fs_tree s)" "\<forall>p\<in>set ps. plain_part p" "plain_part nm"
    and "lookup (fs_tree s) ps = Some dir" "e_contents dir = Children xs"
    and "newcount s \<le> 10000" "\<not> list_ex (startswith (abs_path ps)) SPECIAL_PATHS"
  shows "case mkfile d now (abs_path (ps @ [nm])) uid gid sz mode s of (r, s') \<Rightarrow>
    r = Inr True \<and> plain_tree (fs_tree s') \<and>
    lookup (fs_tree s') (ps @ [nm]) = Some (new_entry nm T_FILE uid gid sz mode now) \<and>
    (\<forall>qs. prefix qs (ps @ [nm]) \<or> prefix (ps @ [nm]) qs \<or> lookup (fs_tree s') qs = lookup (fs_tree s) qs)"
  using assms by (rule mkfile_creates)

section \<open>Examples\<close>

definition example_file :: "string \<Rightarrow> bytestr \<Rightarrow> entry" where
  "example_file nm b = Entry nm T_FILE 0 0 (int (length b)) 33188 0 (Bytes b) None []"

definition example_dir :: "string \<Rightarrow> entry list \<Rightarrow> entry" where
  "example_dir nm xs = Entry nm T_DIR 0 0 4096 16877 0 (Children xs) None []"

definition example_link :: "string \<Rightarrow> string \<Rightarrow> entry" where
  "example_link nm target = Entry nm T_LINK 0 0 0 41471 0 (Children []) (Some target) []"

definition example_tree :: entry where
  "example_tree = example_dir ''/'' [example_dir ''etc'' [example_file ''passwd'' ''root'', example_dir ''init.d'' []],
     example_dir ''tmp'' []]"

definition example_fs :: honey_fs where
  "example_fs = HoneyPotFilesystem 3 example_tree ''linux-x64-lsb'' ''/root'' [] []"

lemma plain_example: "plain_tree example_tree"
  by (simp add: example_tree_def example_dir_def example_file_def plain_tree.simps)

lemma example_fs_simps: "fs_tree example_fs = example_tree" "newcount example_fs = 0"
  by (simp_all add: example_fs_def HoneyPotFilesystem_def)


section \<open>Where the file system departs from what it imitates\<close>

text \<open>A path below a file with contents makes the lookup raise instead of finding nothing.\<close>

lemma exists_below_file_raises: "fs_exists 3 True example_fs ''/etc/passwd/x'' = Inl TypeError"
  by code_simp

text \<open>A relative link is taken from the root, not from its directory.\<close>

lemma relative_link_from_root:
  "let t = example_dir ''/'' [example_dir ''etc'' [example_link ''rc'' ''init.d'', example_dir ''init.d'' []]] in
   getfile 3 True t ''/etc/init.d'' = Inr (Some [0, 1]) \<and> getfile 3 True t ''/etc/rc'' = Inr None"
  by code_simp

text \<open>Renaming into a directory that does not exist fails, and the file is gone.\<close>

lemma rename_loses_file:
  "case fs_rename 3 ''/etc/passwd'' ''/no/x'' example_fs of (r, s') \<Rightarrow>
     r = Inl FileNotFound \<and> fs_exists 3 True s' ''/etc/passwd'' = Inr False"
  by code_simp

text \<open>A regular file passes the test for a link, because the bits of its type are among those of a link.\<close>

lemma readlink_regular_file: "readlink 3 ''/etc/passwd'' example_fs = Inr None"
  by code_simp

text \<open>The mask that is meant to strip the executable bits is decimal: of 0666 it leaves 0620.\<close>

lemma hostmode_decimal: "hostmode 438 = 400"
  by code_simp

text \<open>A file uploaded over SFTP cannot be read after it was closed: its entry still names the temporary file, which
  closing has moved.\<close>

lemma uploaded_file_unreadable:
  fixes arch_data :: "string \<Rightarrow> bytestr"
  defines "s1 \<equiv> snd (fs_open 3 0 ''t/h'' (Some 5) ''/tmp/x'' 2 420 example_fs)"
  shows "case fs_close 3 ''dl'' 5 s1 of (r, s2) \<Rightarrow> r = Inr () \<and> file_contents 3 arch_data s2 ''/tmp/x'' = Inl HostError"
proof -
  define t where "t = example_dir ''/'' [example_dir ''etc'' [example_file ''passwd'' ''root'', example_dir ''init.d'' []],
     example_dir ''tmp'' [Entry ''x'' T_FILE 0 0 0 33188 0 (Children []) None ''t/h'']]"
  have s1: "fs_tree s1 = t" "tempfiles s1 = [(5, ''t/h'')]" "filenames s1 = [(5, ''/tmp/x'')]" "host s1 = [(''t/h'', [])]"
      "fs_home s1 = ''/root''"
    unfolding s1_def t_def by code_simp+
  have x: "getfile 3 True t ''/tmp/x'' = Inr (Some [1, 0])" "entry_at t [1, 0] = Some (Entry ''x'' T_FILE 0 0 0 33188 0 (Children []) None ''t/h'')"
      "resolve_path ''/root'' ''/tmp/x'' (py_dirname ''/tmp/x'') = Inr ''/tmp/x''"
    unfolding t_def by code_simp+
  show ?thesis using s1 x
    by (simp add: fs_close_def Let_def found_def update_realfile_def file_contents_def attempt_def)
qed

end
