(* ===== verification/Shell_Parser.thy ===== *)
theory Shell_Parser
  imports Py_Prelude
begin

text \<open>
  Redirections of the emulated shell (\<open>src/src/cowrie/shell/parser.py\<close>): the pieces of an operator that the lexer has
  split are glued together, and the redirections are taken out of the arguments of a command, in their order. A
  \<open>ValueError\<close> of \<open>int\<close> is \<^const>\<open>None\<close>.
\<close>

section \<open>Gluing operators\<close>

text \<open>\<open>str.isdigit\<close>, which also holds of the superscript digits.\<close>

definition py_isdigit :: "string \<Rightarrow> bool" where
  "py_isdigit s \<longleftrightarrow> s \<noteq> [] \<and> list_all (\<lambda>c. is_digit c \<or> c \<in> {CHR 0xB2, CHR 0xB3, CHR 0xB9}) s"

definition SEPARATORS :: "string list" where
  "SEPARATORS = [''|'', '';'', ''&&'', ''||'']"

definition nth_token :: "string list \<Rightarrow> nat \<Rightarrow> string option" where
  "nth_token ts i = (if i < length ts then Some (ts ! i) else None)"

definition combine_redir_sequence :: "string list \<Rightarrow> (string \<times> nat) option" where
  "combine_redir_sequence tokens =
     (let tok = hd tokens; nxt = nth_token tokens 1; nxt2 = nth_token tokens 2; nxt3 = nth_token tokens 3 in
      if py_isdigit tok \<and> nxt \<in> {Some ''>'', Some ''>>'', Some ''>&''} then
        let combined = tok @ the nxt in
        if nxt = Some ''>&'' \<and> nxt2 \<notin> insert None (Some ` set SEPARATORS) then Some (combined @ the nxt2, 3)
        else if nxt \<in> {Some ''>'', Some ''>>''} \<and> nxt2 = Some ''&'' then
          if nxt3 \<notin> insert None (Some ` set SEPARATORS) then Some (combined @ ''&'' @ the nxt3, 4)
          else Some (combined @ ''&'', 3)
        else Some (combined, 2)
      else if tok \<in> {''>'', ''>>''} \<and> nxt = Some ''&'' then Some (tok @ ''&'', 2)
      else None)"

lemma combine_consumes: "combine_redir_sequence ts = Some (c, n) \<Longrightarrow> ts \<noteq> [] \<Longrightarrow> 2 \<le> n \<and> n \<le> length ts"
  by (auto simp: combine_redir_sequence_def Let_def nth_token_def split: if_splits)

function merge_redirection_tokens :: "string list \<Rightarrow> string list" where
  "merge_redirection_tokens tokens =
     (if tokens = [] then []
      else case combine_redir_sequence tokens of
          Some (combined, consumed) \<Rightarrow> combined # merge_redirection_tokens (drop consumed tokens)
        | None \<Rightarrow> hd tokens # merge_redirection_tokens (tl tokens))"
  by pat_completeness auto
termination by (relation "measure length") (auto dest: combine_consumes)

declare merge_redirection_tokens.simps [simp del]

section \<open>Taking redirections out\<close>

datatype redir_op = FileOp nat string bool | StdinOp nat string | DupOp nat nat

text \<open>The match of \<open>^(\d*)(>>|>&|>|<)(.*)$\<close>; a final newline is not part of its last group.\<close>

definition redir_op_match :: "string \<Rightarrow> (string \<times> string \<times> string) option" where
  "redir_op_match token =
     (let digits = takeWhile is_digit token; rest = dropWhile is_digit token;
          op = (if startswith rest ''>>'' then ''>>'' else if startswith rest ''>&'' then ''>&''
                else if startswith rest ''>'' then ''>'' else if startswith rest ''<'' then ''<'' else []);
          body = drop (length op) rest; inline = takeWhile (\<lambda>c. c \<noteq> nl) body in
      if op \<noteq> [] \<and> body \<in> {inline, inline @ [nl]} then Some (digits, op, inline) else None)"

text \<open>The operator (empty when there is none), the descriptor and the target in the token.\<close>

definition extract_redir_op :: "string \<Rightarrow> (string \<times> nat option \<times> string) option" where
  "extract_redir_op token =
     (case redir_op_match token of
        None \<Rightarrow> Some ([], None, [])
      | Some (fd_text, op, inline_target) \<Rightarrow>
          if fd_text = [] then Some (op, None, inline_target)
          else map_option (\<lambda>n. (op, Some (nat n), inline_target)) (py_int fd_text))"

definition or_next :: "string \<Rightarrow> string option \<Rightarrow> string option" where
  "or_next inline_target next_token = (if inline_target \<noteq> [] then Some inline_target else next_token)"

text \<open>What is added to the operations, what to the arguments, and how many tokens are used.\<close>

definition apply_redirection ::
  "string \<Rightarrow> nat option \<Rightarrow> string \<Rightarrow> string option \<Rightarrow> string \<Rightarrow> (redir_op list \<times> string list \<times> nat) option"
where
  "apply_redirection op fd inline_target next_token raw_token =
     (let used = (if inline_target \<noteq> [] then 1 else 2) in
      case or_next inline_target next_token of
        None \<Rightarrow> Some (if op \<in> {''>'', ''>>'', ''<'', ''>&''} then ([], [raw_token], 1) else ([], [], 0))
      | Some target \<Rightarrow>
          if op \<in> {''>'', ''>>''} then
            Some ([FileOp (case fd of None \<Rightarrow> 1 | Some n \<Rightarrow> n) target (op = ''>>'')], [], used)
          else if op = ''<'' then Some ([StdinOp (case fd of None \<Rightarrow> 0 | Some n \<Rightarrow> n) target], [], used)
          else if op = ''>&'' then
            if target = ''-'' then Some ([], [], used)
            else if py_isdigit target then
              map_option (\<lambda>n. ([DupOp (case fd of None \<Rightarrow> 1 | Some m \<Rightarrow> m) (nat n)], [], used)) (py_int target)
            else Some ([], [raw_token], 1)
          else Some ([], [], 0))"

lemma apply_redirection_used: "apply_redirection op fd i nxt raw = Some (os, cs, n) \<Longrightarrow> n \<le> 2"
  by (auto simp: apply_redirection_def Let_def split: option.splits if_splits)

function parse_redirections :: "string list \<Rightarrow> (string list \<times> redir_op list) option" where
  "parse_redirections arguments =
     (if arguments = [] then Some ([], [])
      else let tok = hd arguments; keep = map_option (\<lambda>(cleaned, ops). (tok # cleaned, ops)) in
        case extract_redir_op tok of
          None \<Rightarrow> None
        | Some (op0, fd, inline_target) \<Rightarrow>
            (let op = (if op0 = [] \<and> tok \<in> {''>'', ''>>'', ''<'', ''>&''} then tok else op0) in
             if op = [] then keep (parse_redirections (tl arguments))
             else case apply_redirection op fd inline_target (nth_token arguments 1) tok of
                 None \<Rightarrow> None
               | Some (added, kept, used) \<Rightarrow>
                   if used = 0 then keep (parse_redirections (tl arguments))
                   else map_option (\<lambda>(cleaned, ops). (kept @ cleaned, added @ ops)) (parse_redirections (drop used arguments))))"
  by pat_completeness auto
termination by (relation "measure length") auto

declare parse_redirections.simps [simp del]

section \<open>Properties\<close>

text \<open>Gluing operators together loses, adds and reorders nothing: the tokens spell the same line before and after.\<close>

lemma merge_keeps_text: "concat (merge_redirection_tokens tokens) = concat tokens"
proof (induction tokens rule: merge_redirection_tokens.induct)
  case (1 tokens)
  show ?case
  proof (cases "tokens = []")
    case False
    show ?thesis
    proof (cases "combine_redir_sequence tokens")
      case None
      then show ?thesis using "1"(1) [OF False None] False by (cases tokens) (simp_all add: merge_redirection_tokens.simps [of "_ # _"])
    next
      case (Some cn)
      obtain c n where cn: "cn = (c, n)" by (cases cn)
      have "c = concat (take n tokens)"
        using Some False unfolding cn
        by (auto simp: combine_redir_sequence_def Let_def nth_token_def neq_Nil_conv less_Suc_eq_0_disj split: if_splits)
      then have "concat (merge_redirection_tokens tokens) = concat (take n tokens) @ concat (drop n tokens)"
        using "1"(2) [OF False Some cn [symmetric]] Some False cn by (simp add: merge_redirection_tokens.simps [of tokens])
      then show ?thesis by (metis append_take_drop_id concat_append)
    qed
  qed (simp add: merge_redirection_tokens.simps)
qed

text \<open>
  A command line as a user spells it: words, and redirections with their target in the same token or in the next one.
\<close>

datatype arg_item = Word string | Redirect bool redir_op

fun render_redir :: "bool \<Rightarrow> redir_op \<Rightarrow> string list" where
  "render_redir same (FileOp fd target app) =
     (let op = str_of_nat fd @ (if app then ''>>'' else ''>'') in if same then [op @ target] else [op, target])"
| "render_redir same (StdinOp fd target) =
     (let op = str_of_nat fd @ ''<'' in if same then [op @ target] else [op, target])"
| "render_redir same (DupOp fd target) =
     (let op = str_of_nat fd @ ''>&'' in if same then [op @ str_of_nat target] else [op, str_of_nat target])"

fun render_item :: "arg_item \<Rightarrow> string list" where
  "render_item (Word w) = [w]"
| "render_item (Redirect same r) = render_redir same r"

definition short_number :: "nat \<Rightarrow> bool" where
  "short_number n \<longleftrightarrow> length (str_of_nat n) \<le> 4300"

definition inline_target :: "string \<Rightarrow> bool" where
  "inline_target t \<longleftrightarrow> t \<noteq> [] \<and> nl \<notin> set t \<and> hd t \<notin> {CHR ''>'', CHR ''&''}"

fun legal_item :: "arg_item \<Rightarrow> bool" where
  "legal_item (Word w) \<longleftrightarrow> redir_op_match w = None \<and> w \<notin> {''>'', ''>>'', ''<'', ''>&''}"
| "legal_item (Redirect same (FileOp fd target app)) \<longleftrightarrow> short_number fd \<and> (same \<longrightarrow> inline_target target)"
| "legal_item (Redirect same (StdinOp fd target)) \<longleftrightarrow> short_number fd \<and> (same \<longrightarrow> inline_target target)"
| "legal_item (Redirect same (DupOp fd target)) \<longleftrightarrow> short_number fd \<and> short_number target"

definition item_words :: "arg_item list \<Rightarrow> string list" where
  "item_words items = concat (map (\<lambda>i. case i of Word w \<Rightarrow> [w] | _ \<Rightarrow> []) items)"

definition item_ops :: "arg_item list \<Rightarrow> redir_op list" where
  "item_ops items = concat (map (\<lambda>i. case i of Redirect _ r \<Rightarrow> [r] | _ \<Rightarrow> []) items)"

lemma digits_then:
  assumes "rest = [] \<or> \<not> is_digit (hd rest)"
  shows "takeWhile is_digit (str_of_nat n @ rest) = str_of_nat n" "dropWhile is_digit (str_of_nat n @ rest) = rest"
  using assms str_of_nat_digits [of n] by (cases rest; simp add: takeWhile_append dropWhile_append)+

lemma match_number:
  assumes "r = [] \<or> \<not> is_digit (hd r)"
  shows "redir_op_match (str_of_nat n @ r) = map_option (\<lambda>(_, op, i). (str_of_nat n, op, i)) (redir_op_match r)"
proof -
  have "takeWhile is_digit r = []" "dropWhile is_digit r = r" using assms by (cases r; simp)+
  then show ?thesis by (simp add: redir_op_match_def digits_then [OF assms] Let_def)
qed

lemma match_operator:
  assumes "nl \<notin> set t"
  shows "redir_op_match (''>>'' @ t) = Some ([], ''>>'', t)" "redir_op_match (''>&'' @ t) = Some ([], ''>&'', t)"
    "t = [] \<or> hd t \<notin> {CHR ''>'', CHR ''&''} \<Longrightarrow> redir_op_match (''>'' @ t) = Some ([], ''>'', t)"
    "redir_op_match (''<'' @ t) = Some ([], ''<'', t)"
proof -
  have tw: "takeWhile (\<lambda>c. c \<noteq> nl) t = t" using assms by (auto intro: takeWhile_eq_all_conv [THEN iffD2])
  show "redir_op_match (''>>'' @ t) = Some ([], ''>>'', t)" "redir_op_match (''>&'' @ t) = Some ([], ''>&'', t)"
    "redir_op_match (''<'' @ t) = Some ([], ''<'', t)"
    by (simp_all add: redir_op_match_def Let_def tw is_digit_def)
  show "redir_op_match (''>'' @ t) = Some ([], ''>'', t)" if "t = [] \<or> hd t \<notin> {CHR ''>'', CHR ''&''}"
    using that tw by (cases t) (auto simp: redir_op_match_def Let_def is_digit_def split: if_splits)
qed

lemma extract_number:
  assumes "op \<in> {''>'', ''>>'', ''<'', ''>&''}" "nl \<notin> set t" "t \<noteq> [] \<longrightarrow> op = ''>'' \<longrightarrow> hd t \<notin> {CHR ''>'', CHR ''&''}"
    and "short_number n"
  shows "extract_redir_op (str_of_nat n @ op @ t) = Some (op, Some n, t)"
proof -
  have "op @ t = [] \<or> \<not> is_digit (hd (op @ t))" using assms(1) by (auto simp: is_digit_def)
  then have "redir_op_match (str_of_nat n @ op @ t) = map_option (\<lambda>(_, op, i). (str_of_nat n, op, i)) (redir_op_match (op @ t))"
    by (rule match_number)
  moreover have "redir_op_match (op @ t) = Some ([], op, t)"
    using assms(1,3) match_operator [OF assms(2)] by blast
  ultimately show ?thesis using assms(4) by (simp add: extract_redir_op_def py_int_str_of_nat short_number_def)
qed

lemma isdigit_number: "py_isdigit (str_of_nat n)"
  using str_of_nat_digits [of n] by (auto simp: py_isdigit_def list_all_iff)

lemma number_not_dash: "str_of_nat n \<noteq> ''-''"
  using str_of_nat_digits [of n] by (auto simp: is_digit_def)

lemma parse_redirect:
  assumes "legal_item (Redirect same r)"
  shows "parse_redirections (render_redir same r @ rest) =
    map_option (\<lambda>(cleaned, ops). (cleaned, r # ops)) (parse_redirections rest)"
proof (cases r)
  case (FileOp fd target app)
  let ?op = "if app then ''>>'' else ''>''"
  have "extract_redir_op (str_of_nat fd @ ?op @ t) = Some (?op, Some fd, t)" if "t = [] \<or> t = target \<and> same" for t
    using assms FileOp that by (intro extract_number) (auto simp: inline_target_def)
  then show ?thesis using assms FileOp
    by (cases same) (simp_all add: parse_redirections.simps [of "_ # _"] apply_redirection_def or_next_def nth_token_def
        inline_target_def Let_def)
next
  case (StdinOp fd target)
  have "extract_redir_op (str_of_nat fd @ ''<'' @ t) = Some (''<'', Some fd, t)" if "t = [] \<or> t = target \<and> same" for t
    using assms StdinOp that by (intro extract_number) (auto simp: inline_target_def)
  then show ?thesis using assms StdinOp
    by (cases same) (simp_all add: parse_redirections.simps [of "_ # _"] apply_redirection_def or_next_def nth_token_def
        inline_target_def Let_def)
next
  case (DupOp fd target)
  have "nl \<notin> set (str_of_nat target)" using str_of_nat_digits [of target] by (auto simp: is_digit_def)
  then have "extract_redir_op (str_of_nat fd @ ''>&'' @ t) = Some (''>&'', Some fd, t)" if "t = [] \<or> t = str_of_nat target" for t
    using assms DupOp that by (intro extract_number) auto
  then show ?thesis using assms DupOp
    by (cases same) (simp_all add: parse_redirections.simps [of "_ # _"] apply_redirection_def or_next_def nth_token_def
        Let_def isdigit_number number_not_dash py_int_str_of_nat short_number_def)
qed



text \<open>A superscript digit passes the test for a descriptor, and the command line raises.\<close>

lemma superscript_descriptor_raises: "parse_redirections [''echo'', ''>&'', [CHR 0xB2]] = None"
  by code_simp

end
