(* ===== verification/Shell_Pipe.thy ===== *)
theory Shell_Pipe
  imports Shell_Fs_Laws Shell_Parser
begin

text \<open>
  Where the output of an emulated command goes (\<open>src/src/cowrie/shell/pipe.py\<close>): the table of descriptors that the
  redirections of a command build, and the writes through it, to the terminal, the next command, the capture of a
  command substitution or a file of the session's file system, whose contents are kept in a file of the host.
\<close>

section \<open>State\<close>

record file_info =
  fi_virtual :: string
  fi_real :: string
  fi_append :: bool
  fi_start :: int

datatype fd_target = FD_STDIN | FD_TERMINAL | FD_PIPE | FD_CAPTURE | FD_FILE file_info | FD_FILE_INPUT string | FD_DEVNULL

record pipe =
  pp_input :: "bytestr option"
  has_next :: bool
  next_input :: "bytestr option"
  redirected_data :: bytestr
  err_data :: bytestr
  pp_redirect :: bool
  redirections :: "redir_op list"
  targets :: "(nat, fd_target) dict"
  redirection_error :: bool
  redirect_real_files :: "(string \<times> string) list"
  stdout_written :: int
  stderr_written :: int
  pp_fs :: honey_fs
  terminal :: bytestr

text \<open>What the session, the configuration and the clock give: the time stamp and the ids are one prefix of the names
  of new files.\<close>

record shell_env =
  env_depth :: nat
  env_now :: rat
  env_cwd :: string
  env_uid :: int
  env_gid :: int
  env_prefix :: string
  download_path :: string
  contents_path :: string
  arch_data :: "string \<Rightarrow> bytestr"

section \<open>Building the table\<close>

definition write_to_terminal :: "bytestr \<Rightarrow> pipe \<Rightarrow> pipe" where
  "write_to_terminal data p = p\<lparr>terminal := terminal p @ data\<rparr>"

definition emit_redirection_error :: "string \<Rightarrow> pipe \<Rightarrow> pipe" where
  "emit_redirection_error message p = write_to_terminal (utf8 message) (p\<lparr>redirection_error := True\<rparr>)"

definition safe_name :: "string \<Rightarrow> string" where
  "safe_name outfile = map (\<lambda>c. if is_digit c \<or> is_lower c \<or> is_upper c then c else CHR ''_'') outfile"

definition needs_new_backing :: "shell_env \<Rightarrow> entry option \<Rightarrow> bool" where
  "needs_new_backing env f \<longleftrightarrow>
     (case f of
        None \<Rightarrow> True
      | Some e \<Rightarrow> e_realfile e = [] \<or> startswith (e_realfile e) (contents_path env))"

definition touch_host :: "string \<Rightarrow> store \<Rightarrow> store" where
  "touch_host f h = (if map_of h f = None then AList.update f [] h else h)"

definition create_redirect_target :: "shell_env \<Rightarrow> string \<Rightarrow> pipe \<Rightarrow> string option result \<times> pipe" where
  "create_redirect_target env outfile p =
     (let safeoutfile = path_join (download_path env) (env_prefix env @ ''-redir_'' @ safe_name outfile) in
      case mkfile (env_depth env) (env_now env) outfile (env_uid env) (env_gid env) 0 (S_IFREG OR 420) (pp_fs p) of
        (Inl FileNotFound, fs) \<Rightarrow>
          (Inr None, emit_redirection_error (''-bash: '' @ outfile @ '': No such file or directory'' @ [nl]) (p\<lparr>pp_fs := fs\<rparr>))
      | (Inl PermissionDenied, fs) \<Rightarrow>
          (Inr None, emit_redirection_error (''-bash: '' @ outfile @ '': Permission denied'' @ [nl]) (p\<lparr>pp_fs := fs\<rparr>))
      | (Inl e, fs) \<Rightarrow> (Inl e, p\<lparr>pp_fs := fs\<rparr>)
      | (Inr _, fs) \<Rightarrow>
          let fs1 = fs\<lparr>host := touch_host safeoutfile (host fs)\<rparr> in
          (case found (env_depth env) True fs1 outfile of
             Inl e \<Rightarrow> (Inl e, p\<lparr>pp_fs := fs1\<rparr>)
           | Inr f \<Rightarrow>
               (case update_realfile f safeoutfile fs1 of
                  (Inl e, fs2) \<Rightarrow> (Inl e, p\<lparr>pp_fs := fs2\<rparr>)
                | (Inr _, fs2) \<Rightarrow> (Inr (Some safeoutfile), p\<lparr>pp_fs := fs2\<rparr>))))"

definition reuse_existing_backing :: "shell_env \<Rightarrow> string \<Rightarrow> entry \<Rightarrow> bool \<Rightarrow> pipe \<Rightarrow> (string \<times> int) result \<times> pipe" where
  "reuse_existing_backing env outfile e app p =
     (if app then (Inr (e_realfile e, e_size e), p)
      else case update_size (env_depth env) outfile 0 ((pp_fs p)\<lparr>host := AList.update (e_realfile e) [] (host (pp_fs p))\<rparr>) of
          (Inl x, fs) \<Rightarrow> (Inl x, p\<lparr>pp_fs := fs\<rparr>)
        | (Inr _, fs) \<Rightarrow> (Inr (e_realfile e, 0), p\<lparr>pp_fs := fs\<rparr>))"

text \<open>The result is the target, or nothing after an error that was reported.\<close>

definition prepare_output_file :: "shell_env \<Rightarrow> string \<Rightarrow> bool \<Rightarrow> pipe \<Rightarrow> fd_target option result \<times> pipe" where
  "prepare_output_file env target app p =
     (case resolve_path (fs_home (pp_fs p)) target (env_cwd env) of
        Inl e \<Rightarrow> (Inl e, p)
      | Inr outfile \<Rightarrow>
          (case found (env_depth env) True (pp_fs p) outfile of
             Inl e \<Rightarrow> (Inl e, p)
           | Inr f \<Rightarrow>
               let start_size = (case f of Some (_, e) \<Rightarrow> if app then e_size e else 0 | None \<Rightarrow> 0) in
               if outfile = ''/dev/null'' then (Inr (Some FD_DEVNULL), p)
               else if needs_new_backing env (map_option snd f) then
                 (case create_redirect_target env outfile p of
                    (Inl e, p1) \<Rightarrow> (Inl e, p1)
                  | (Inr None, p1) \<Rightarrow> (Inr None, p1)
                  | (Inr (Some safeoutfile), p1) \<Rightarrow>
                      (Inr (Some (FD_FILE \<lparr>fi_virtual = outfile, fi_real = safeoutfile, fi_append = app, fi_start = start_size\<rparr>)),
                       p1\<lparr>redirect_real_files := redirect_real_files p1 @ [(safeoutfile, outfile)]\<rparr>))
               else
                 (case reuse_existing_backing env outfile (snd (the f)) app p of
                    (Inl e, p1) \<Rightarrow> (Inl e, p1)
                  | (Inr (safeoutfile, size0), p1) \<Rightarrow>
                      (Inr (Some (FD_FILE \<lparr>fi_virtual = outfile, fi_real = safeoutfile, fi_append = app, fi_start = size0\<rparr>)),
                       p1\<lparr>redirect_real_files := redirect_real_files p1 @ [(safeoutfile, outfile)]\<rparr>))))"

definition prepare_stdin :: "shell_env \<Rightarrow> string \<Rightarrow> pipe \<Rightarrow> unit result \<times> pipe" where
  "prepare_stdin env target p =
     (case attempt (resolve_path (fs_home (pp_fs p)) target (env_cwd env))
             (\<lambda>path. file_contents (env_depth env) (arch_data env) (pp_fs p) path) of
        Inr data \<Rightarrow> (Inr (), p\<lparr>pp_input := Some data\<rparr>)
      | Inl FileNotFound \<Rightarrow>
          (Inr (), emit_redirection_error (''-bash: '' @ target @ '': No such file or directory'' @ [nl]) p)
      | Inl PermissionDenied \<Rightarrow> (Inr (), emit_redirection_error (''-bash: '' @ target @ '': Permission denied'' @ [nl]) p)
      | Inl e \<Rightarrow> (Inl e, p))"

definition set_target :: "nat \<Rightarrow> fd_target \<Rightarrow> pipe \<Rightarrow> pipe" where
  "set_target fd t p = p\<lparr>targets := AList.update fd t (targets p)\<rparr>"

definition redirect_file :: "nat \<Rightarrow> fd_target option \<Rightarrow> pipe \<Rightarrow> pipe" where
  "redirect_file fd t p =
     (case t of
        None \<Rightarrow> p
      | Some (FD_FILE info) \<Rightarrow>
          (let p1 = set_target fd (FD_FILE info) p in
           if fd = 1 then p1\<lparr>stdout_written := fi_start info\<rparr>
           else if fd = 2 then p1\<lparr>stderr_written := fi_start info\<rparr> else p1)
      | Some t \<Rightarrow> set_target fd t p)"

text \<open>The operations in their order; standard input is read when all of them are done.\<close>

fun apply_redirections :: "shell_env \<Rightarrow> redir_op list \<Rightarrow> string option \<Rightarrow> pipe \<Rightarrow> unit result \<times> pipe" where
  "apply_redirections env [] pending p =
     (case pending of
        None \<Rightarrow> (Inr (), p)
      | Some target \<Rightarrow> if target = [] then (Inr (), p) else prepare_stdin env target p)"
| "apply_redirections env (op # ops) pending p =
     (case op of
        FileOp fd target app \<Rightarrow>
          (case prepare_output_file env target app p of
             (Inl e, p1) \<Rightarrow> (Inl e, p1)
           | (Inr t, p1) \<Rightarrow> apply_redirections env ops pending (redirect_file fd t p1))
      | StdinOp fd target \<Rightarrow> apply_redirections env ops (Some target) (set_target fd (FD_FILE_INPUT target) p)
      | DupOp fd target_fd \<Rightarrow>
          apply_redirections env ops pending
            (case map_of (targets p) target_fd of None \<Rightarrow> p | Some t \<Rightarrow> set_target fd t p))"

definition default_targets :: "bool \<Rightarrow> bool \<Rightarrow> (nat, fd_target) dict" where
  "default_targets nxt redirect =
     [(0, FD_STDIN), (1, if redirect then FD_CAPTURE else if nxt then FD_PIPE else FD_TERMINAL), (2, FD_TERMINAL)]"

definition setup_redirections :: "shell_env \<Rightarrow> pipe \<Rightarrow> unit result \<times> pipe" where
  "setup_redirections env p =
     apply_redirections env (redirections p) None (p\<lparr>targets := default_targets (has_next p) (pp_redirect p)\<rparr>)"

definition PipeProtocol ::
  "shell_env \<Rightarrow> bytestr option \<Rightarrow> bool \<Rightarrow> bytestr option \<Rightarrow> bool \<Rightarrow> redir_op list \<Rightarrow> honey_fs \<Rightarrow> bytestr \<Rightarrow> unit result \<times> pipe"
where
  "PipeProtocol env inp nxt nxt_input redirect ops fs term =
     setup_redirections env
       \<lparr>pp_input = inp, has_next = nxt, next_input = nxt_input, redirected_data = [], err_data = [], pp_redirect = redirect,
        redirections = ops, targets = [], redirection_error = False, redirect_real_files = [],
        stdout_written = 0, stderr_written = 0, pp_fs = fs, terminal = term\<rparr>"

section \<open>Writing\<close>

definition pipe_to_next :: "bytestr \<Rightarrow> pipe \<Rightarrow> pipe" where
  "pipe_to_next data p =
     (if \<not> has_next p then p
      else p\<lparr>next_input := Some (case next_input p of None \<Rightarrow> data | Some old \<Rightarrow> old @ data)\<rparr>)"

definition write_to_file :: "shell_env \<Rightarrow> file_info \<Rightarrow> bytestr \<Rightarrow> bool \<Rightarrow> pipe \<Rightarrow> unit result \<times> pipe" where
  "write_to_file env info data is_stdout p =
     (let old = (case map_of (host (pp_fs p)) (fi_real info) of None \<Rightarrow> [] | Some b \<Rightarrow> b);
          p1 = p\<lparr>pp_fs := (pp_fs p)\<lparr>host := AList.update (fi_real info) (old @ data) (host (pp_fs p))\<rparr>\<rparr>;
          p2 = (if is_stdout then p1\<lparr>stdout_written := stdout_written p1 + int (length data)\<rparr>
                else p1\<lparr>stderr_written := stderr_written p1 + int (length data)\<rparr>);
          written = (if is_stdout then stdout_written p2 else stderr_written p2) in
      case update_size (env_depth env) (fi_virtual info) written (pp_fs p2) of
        (r, fs) \<Rightarrow> (r, p2\<lparr>pp_fs := fs\<rparr>))"

definition write_to_fd :: "shell_env \<Rightarrow> nat \<Rightarrow> bytestr \<Rightarrow> pipe \<Rightarrow> unit result \<times> pipe" where
  "write_to_fd env fd data p =
     (case map_of (targets p) fd of
        Some FD_TERMINAL \<Rightarrow> (Inr (), write_to_terminal data p)
      | Some FD_PIPE \<Rightarrow> (Inr (), pipe_to_next data p)
      | Some FD_CAPTURE \<Rightarrow> (Inr (), p\<lparr>redirected_data := redirected_data p @ data\<rparr>)
      | Some (FD_FILE info) \<Rightarrow> write_to_file env info data (fd = 1) p
      | _ \<Rightarrow> (Inr (), p))"

definition write_stdout :: "shell_env \<Rightarrow> bytestr \<Rightarrow> pipe \<Rightarrow> unit result \<times> pipe" where
  "write_stdout env data p = write_to_fd env 1 data p"

definition write_stderr :: "shell_env \<Rightarrow> bytestr \<Rightarrow> pipe \<Rightarrow> unit result \<times> pipe" where
  "write_stderr env data p = write_to_fd env 2 data (p\<lparr>err_data := err_data p @ data\<rparr>)"

section \<open>Lemmas\<close>

lemma good_plain: "good_part p \<Longrightarrow> plain_part p"
  by (simp add: good_part_def plain_part_def)

lemma resolve_canonical:
  assumes "\<forall>p\<in>set ps. good_part p" "good_part nm"
  shows "resolve_path home (abs_path (ps @ [nm])) (py_dirname (abs_path (ps @ [nm]))) = Inr (abs_path (ps @ [nm]))"
proof -
  have d: "py_dirname (abs_path (ps @ [nm])) = abs_path ps" using assms good_plain by (intro py_path_split) auto
  have n: "normpath (abs_path qs) = abs_path qs" if "\<forall>p\<in>set qs. good_part p" for qs
    using that by (simp add: normpath_abs path_parts_abs)
  have "canonical (abs_path ps)" using n assms(1) by (simp add: canonical_def)
  moreover have "hd (abs_path (ps @ [nm])) = slash" "abs_path (ps @ [nm]) \<noteq> []" "\<not> startswith (abs_path (ps @ [nm])) ''~/''"
    by (simp_all add: abs_path_def)
  ultimately show ?thesis using n [of "ps @ [nm]"] assms resolve_path_eq [of "abs_path ps" "abs_path (ps @ [nm])" home] d by simp
qed

text \<open>A session file behind which a host file stands: its length is the size that the session shows.\<close>

definition backed :: "string list \<Rightarrow> string \<Rightarrow> bytestr \<Rightarrow> honey_fs \<Rightarrow> bool" where
  "backed ps hostf b fs \<longleftrightarrow> plain_tree (fs_tree fs) \<and> map_of (host fs) hostf = Some b \<and> hostf \<noteq> [] \<and>
     (\<exists>e. lookup (fs_tree fs) ps = Some e \<and> e_type e = T_FILE \<and> e_realfile e = hostf \<and> e_size e = int (length b))"

lemma set_simps [simp]:
  "e_type (set_size n e) = e_type e" "e_realfile (set_size n e) = e_realfile e" "e_size (set_size n e) = n"
  "e_name (set_size n e) = e_name e" "e_type (set_realfile r e) = e_type e" "e_realfile (set_realfile r e) = r"
  "e_size (set_realfile r e) = e_size e" "e_name (set_realfile r e) = e_name e"
  by (cases e; simp add: set_size_def set_realfile_def)+

lemma plain_set [simp]: "plain_tree (set_size n e) = plain_tree e" "plain_tree (set_realfile r e) = plain_tree e"
  by (cases e; simp add: plain_tree.simps [of "Entry _ _ _ _ _ _ _ _ _ _"] set_size_def set_realfile_def)+

lemma plain_named: "plain_tree t \<Longrightarrow> named t l qs \<Longrightarrow> entry_at t l = Some e \<Longrightarrow> plain_tree e"
  by (induction t l qs rule: named.induct) (auto dest: plain_children split: contents.splits list.splits)

lemma append_backed:
  assumes "backed ps hostf b fs" "\<forall>p\<in>set ps. plain_part p" "ps \<noteq> []" "n = int (length (b @ data))"
  shows "\<exists>fs'. update_size (Suc d) (abs_path ps) n (fs\<lparr>host := AList.update hostf (b @ data) (host fs)\<rparr>) = (Inr (), fs') \<and>
    backed ps hostf (b @ data) fs' \<and> fs_home fs' = fs_home fs"
proof -
  let ?fs = "fs\<lparr>host := AList.update hostf (b @ data) (host fs)\<rparr>"
  obtain e where e: "plain_tree (fs_tree ?fs)" "lookup (fs_tree ?fs) ps = Some e" "e_type e = T_FILE" "e_realfile e = hostf" "hostf \<noteq> []"
    using assms(1) by (auto simp: backed_def)
  obtain l where l: "found (Suc d) True ?fs (abs_path ps) = Inr (Some (l, e))" "entry_at (fs_tree ?fs) l = Some e"
    "named (fs_tree ?fs) l ps"
    using found_plain [OF e(1) assms(2,3) e(2)] by blast
  have "plain_tree (set_size n e)" using plain_named [OF e(1) l(3,2)] by simp
  note ch = change_plain [of ?fs l ps e "set_size n", OF e(1) l(3,2) this]
  have "update_size (Suc d) (abs_path ps) n ?fs = (Inr (), change_at (set_size n) l ?fs)"
    using l(1) e(3) by (simp add: update_size_def)
  moreover have "backed ps hostf (b @ data) (change_at (set_size n) l ?fs)"
    using ch e assms(4) by (simp add: backed_def) (simp add: change_at_def update_conv')
  ultimately show ?thesis by (simp add: change_at_def)
qed

text \<open>The first redirection to a new file gives it a host file of its own.\<close>

lemma create_backed:
  assumes "plain_tree (fs_tree fs)" "\<forall>p\<in>set ps. plain_part p" "plain_part nm"
    and "lookup (fs_tree fs) ps = Some dir" "e_contents dir = Children xs"
    and "newcount fs \<le> 10000" "\<not> list_ex (startswith (abs_path ps)) SPECIAL_PATHS"
    and "hostf = path_join (download_path env) (env_prefix env @ ''-redir_'' @ safe_name (abs_path (ps @ [nm])))"
    and "map_of (host fs) hostf = None" "pp_fs p = fs" "env_depth env = Suc d"
  shows "\<exists>fs'. create_redirect_target env (abs_path (ps @ [nm])) p = (Inr (Some hostf), p\<lparr>pp_fs := fs'\<rparr>) \<and>
    backed (ps @ [nm]) hostf [] fs' \<and> fs_home fs' = fs_home fs"
proof -
  let ?path = "abs_path (ps @ [nm])"
  let ?new = "new_entry nm T_FILE (env_uid env) (env_gid env) 0 (S_IFREG OR 420) (env_now env)"
  have ne: "hostf \<noteq> []"
  proof -
    have "''-redir_'' \<noteq> []" by simp
    then show ?thesis unfolding assms(8) path_join_def by auto
  qed
  obtain q fs1 where mk: "mkfile (Suc d) (env_now env) ?path (env_uid env) (env_gid env) 0 (S_IFREG OR 420) fs = (q, fs1)" by force
  have m: "q = Inr True" "plain_tree (fs_tree fs1)" "lookup (fs_tree fs1) (ps @ [nm]) = Some ?new"
    using mkfile_creates [where d = "Suc d" and now = "env_now env" and uid = "env_uid env" and gid = "env_gid env" and sz = 0
        and mode = "S_IFREG OR 420", OF assms(1-7)] unfolding mk by auto
  have h: "host fs1 = host fs" "fs_home fs1 = fs_home fs"
    using mk by (auto simp: mkfile_def change_at_def Let_def split: if_splits sum.splits option.splits contents.splits)
  let ?fs2 = "fs1\<lparr>host := touch_host hostf (host fs1)\<rparr>"
  have parts: "\<forall>p\<in>set (ps @ [nm]). plain_part p" "ps @ [nm] \<noteq> []" using assms(2,3) by auto
  have t2: "plain_tree (fs_tree ?fs2)" "lookup (fs_tree ?fs2) (ps @ [nm]) = Some ?new" using m by simp_all
  obtain l where l: "found (Suc d) True ?fs2 ?path = Inr (Some (l, ?new))" "entry_at (fs_tree ?fs2) l = Some ?new"
    "named (fs_tree ?fs2) l (ps @ [nm])"
    using found_plain [OF t2(1) parts t2(2)] by blast
  have up: "update_realfile (Some (l, ?new)) hostf ?fs2 = (Inr (), change_at (set_realfile hostf) l ?fs2)"
    using assms(9) h by (simp add: update_realfile_def new_entry_def touch_host_def update_conv')
  have "plain_tree (set_realfile hostf ?new)" by (simp add: new_entry_def plain_tree.simps [of "Entry _ _ _ _ _ _ _ _ _ _"])
  note ch = change_plain [of ?fs2 l "ps @ [nm]" ?new "set_realfile hostf", OF t2(1) l(3,2) this]
  have "backed (ps @ [nm]) hostf [] (change_at (set_realfile hostf) l ?fs2)"
    using ch assms(9) h ne by (simp add: backed_def new_entry_def) (simp add: change_at_def touch_host_def update_conv')
  moreover have "create_redirect_target env ?path p = (Inr (Some hostf), p\<lparr>pp_fs := change_at (set_realfile hostf) l ?fs2\<rparr>)"
    using mk m(1) l(1) up assms(8,10,11) by (simp add: create_redirect_target_def Let_def)
  ultimately show ?thesis using h by (intro exI [of _ "change_at (set_realfile hostf) l ?fs2"]) (simp add: change_at_def)
qed

text \<open>A pipe whose standard output is the file, after the given bytes.\<close>

definition writes_to :: "string list \<Rightarrow> string \<Rightarrow> bytestr \<Rightarrow> pipe \<Rightarrow> bool" where
  "writes_to ps hostf b p \<longleftrightarrow> backed ps hostf b (pp_fs p) \<and> stdout_written p = int (length b) \<and>
     (\<exists>info. map_of (targets p) 1 = Some (FD_FILE info) \<and> fi_virtual info = abs_path ps \<and> fi_real info = hostf)"

lemma write_step:
  assumes "writes_to ps hostf b p" "\<forall>q\<in>set ps. plain_part q" "ps \<noteq> []" "env_depth env = Suc d"
  shows "fst (write_stdout env data p) = Inr () \<and> writes_to ps hostf (b @ data) (snd (write_stdout env data p)) \<and>
    terminal (snd (write_stdout env data p)) = terminal p \<and> next_input (snd (write_stdout env data p)) = next_input p"
proof -
  obtain info where i: "map_of (targets p) 1 = Some (FD_FILE info)" "fi_virtual info = abs_path ps" "fi_real info = hostf"
    and b: "backed ps hostf b (pp_fs p)" "stdout_written p = int (length b)"
    using assms(1) by (auto simp: writes_to_def)
  have "map_of (host (pp_fs p)) hostf = Some b" using b(1) by (simp add: backed_def)
  moreover obtain fs' where "update_size (Suc d) (abs_path ps) (int (length (b @ data)))
      ((pp_fs p)\<lparr>host := AList.update hostf (b @ data) (host (pp_fs p))\<rparr>) = (Inr (), fs')" "backed ps hostf (b @ data) fs'"
    using append_backed [where data = data and d = d, OF b(1) assms(2,3) refl] by blast
  ultimately show ?thesis using i b(2) assms(4)
    by (simp add: write_stdout_def write_to_fd_def write_to_file_def writes_to_def Let_def)
qed

lemma write_all:
  assumes "writes_to ps hostf b p" "\<forall>q\<in>set ps. plain_part q" "ps \<noteq> []" "env_depth env = Suc d"
  shows "let q = fold (\<lambda>data p. snd (write_stdout env data p)) chunks p in
    writes_to ps hostf (b @ concat chunks) q \<and> terminal q = terminal p \<and> next_input q = next_input p"
  using assms(1)
proof (induction chunks arbitrary: b p)
  case (Cons c cs)
  then show ?case using write_step [OF Cons.prems assms(2-4), of c]
    Cons.IH [of "b @ c" "snd (write_stdout env c p)"] by (simp add: Let_def)
qed (simp add: Let_def)

lemma backed_contents:
  assumes "backed (ps @ [nm]) hostf b fs" "\<forall>p\<in>set ps. good_part p" "good_part nm"
  shows "file_contents (Suc d) arch fs (abs_path (ps @ [nm])) = Inr b"
proof -
  obtain e where e: "plain_tree (fs_tree fs)" "lookup (fs_tree fs) (ps @ [nm]) = Some e" "e_type e = T_FILE"
    "e_realfile e = hostf" "hostf \<noteq> []" "map_of (host fs) hostf = Some b"
    using assms(1) by (auto simp: backed_def)
  have "\<forall>p\<in>set (ps @ [nm]). plain_part p" using assms(2,3) good_plain by auto
  then obtain l where "found (Suc d) True fs (abs_path (ps @ [nm])) = Inr (Some (l, e))"
    using found_plain [OF e(1) _ _ e(2)] by blast
  then show ?thesis using e resolve_canonical [OF assms(2,3)] by (simp add: file_contents_def attempt_def)
qed

section \<open>Properties\<close>

text \<open>C13: Output that is redirected to a new file lands there and nowhere else: whatever pieces the command writes, the
  file then contains them in order and shows their number of bytes as its size, and neither the terminal nor the next
  command sees any of it.\<close>

theorem redirect_captures_output:
  assumes "plain_tree (fs_tree fs)" "\<forall>p\<in>set ps. good_part p" "good_part nm"
    and "lookup (fs_tree fs) ps = Some dir" "e_contents dir = Children xs"
    and "newcount fs \<le> 10000" "\<not> list_ex (startswith (abs_path ps)) SPECIAL_PATHS"
    and "resolve_path (fs_home fs) target (env_cwd env) = Inr (abs_path (ps @ [nm]))" "abs_path (ps @ [nm]) \<noteq> ''/dev/null''"
    and "env_depth env = Suc d" "found (Suc d) True fs (abs_path (ps @ [nm])) = Inr None"
    and "hostf = path_join (download_path env) (env_prefix env @ ''-redir_'' @ safe_name (abs_path (ps @ [nm])))"
    and "map_of (host fs) hostf = None"
  shows "\<exists>p. PipeProtocol env inp nxt nxt_input redirect [FileOp 1 target app] fs term = (Inr (), p) \<and>
    (let q = fold (\<lambda>data p. snd (write_stdout env data p)) chunks p in
     terminal q = term \<and> next_input q = nxt_input \<and>
     file_contents (Suc d) (arch_data env) (pp_fs q) (abs_path (ps @ [nm])) = Inr (concat chunks) \<and>
     map_option e_size (lookup (fs_tree (pp_fs q)) (ps @ [nm])) = Some (int (length (concat chunks))))"
proof -
  let ?path = "abs_path (ps @ [nm])"
  define p0 where "p0 = \<lparr>pp_input = inp, has_next = nxt, next_input = nxt_input, redirected_data = [], err_data = [],
    pp_redirect = redirect, redirections = [FileOp 1 target app], targets = default_targets nxt redirect,
    redirection_error = False, redirect_real_files = [], stdout_written = 0, stderr_written = 0, pp_fs = fs, terminal = term\<rparr>"
  have plain: "\<forall>p\<in>set ps. plain_part p" "plain_part nm" using assms(2,3) good_plain by auto
  then have parts: "\<forall>p\<in>set (ps @ [nm]). plain_part p" "ps @ [nm] \<noteq> []" by auto
  obtain fs' where c: "create_redirect_target env ?path p0 = (Inr (Some hostf), p0\<lparr>pp_fs := fs'\<rparr>)" "backed (ps @ [nm]) hostf [] fs'"
    using create_backed [OF assms(1) plain assms(4-7,12,13) _ assms(10), of p0] by (auto simp: p0_def)
  define info where "info = \<lparr>fi_virtual = ?path, fi_real = hostf, fi_append = app, fi_start = 0\<rparr>"
  define p1 where "p1 = redirect_file 1 (Some (FD_FILE info)) (p0\<lparr>pp_fs := fs', redirect_real_files := [(hostf, ?path)]\<rparr>)"
  have "prepare_output_file env target app p0 =
      (Inr (Some (FD_FILE info)), p0\<lparr>pp_fs := fs', redirect_real_files := [(hostf, ?path)]\<rparr>)"
    using assms(8-11) c(1) by (simp add: prepare_output_file_def p0_def info_def needs_new_backing_def Let_def)
  then have run: "PipeProtocol env inp nxt nxt_input redirect [FileOp 1 target app] fs term = (Inr (), p1)"
    by (simp add: PipeProtocol_def setup_redirections_def p1_def p0_def)
  have w: "writes_to (ps @ [nm]) hostf [] p1" and t: "terminal p1 = term" "next_input p1 = nxt_input"
    using c(2) by (simp_all add: writes_to_def p1_def redirect_file_def set_target_def info_def p0_def Let_def default_targets_def)
  let ?q = "fold (\<lambda>data p. snd (write_stdout env data p)) chunks p1"
  have q: "writes_to (ps @ [nm]) hostf (concat chunks) ?q" "terminal ?q = term" "next_input ?q = nxt_input"
    using write_all [OF w parts assms(10), of chunks] t by (simp_all add: Let_def)
  then have b: "backed (ps @ [nm]) hostf (concat chunks) (pp_fs ?q)" by (simp add: writes_to_def)
  show ?thesis using run q(2,3) backed_contents [OF b assms(2,3)] b by (auto simp: Let_def backed_def)
qed

definition example_env :: shell_env where
  "example_env = \<lparr>env_depth = 3, env_now = 5, env_cwd = ''/tmp'', env_uid = 0, env_gid = 0, env_prefix = ''t-1-2'',
     download_path = ''dl'', contents_path = ''honeyfs'', arch_data = (\<lambda>_. [])\<rparr>"

theorem redirect_captures_output_witness:
  "\<exists>p. PipeProtocol example_env None False None False [FileOp 1 ''x'' False] example_fs [] = (Inr (), p) \<and>
    (let q = fold (\<lambda>data p. snd (write_stdout example_env data p)) [''ab'', ''c''] p in
     terminal q = [] \<and> next_input q = None \<and>
     file_contents (Suc 2) (arch_data example_env) (pp_fs q) (abs_path ([''tmp''] @ [''x''])) = Inr (concat [''ab'', ''c'']) \<and>
     map_option e_size (lookup (fs_tree (pp_fs q)) ([''tmp''] @ [''x''])) = Some (int (length (concat [''ab'', ''c'']))))"
proof (rule redirect_captures_output [where dir = "example_dir ''tmp'' []" and xs = "[]"])
  show "plain_tree (fs_tree example_fs)" by (simp add: plain_example example_fs_simps)
  show "lookup (fs_tree example_fs) [''tmp''] = Some (example_dir ''tmp'' [])"
    by (simp add: example_fs_simps example_tree_def example_dir_def)
  show "resolve_path (fs_home example_fs) ''x'' (env_cwd example_env) = Inr (abs_path ([''tmp''] @ [''x'']))" by code_simp
  show "found (Suc 2) True example_fs (abs_path ([''tmp''] @ [''x''])) = Inr None" by code_simp
  show "map_of (host example_fs) (path_join (download_path example_env) (env_prefix example_env @ ''-redir_'' @
      safe_name (abs_path ([''tmp''] @ [''x''])))) = None" by code_simp
qed (simp_all add: good_part_def example_dir_def example_fs_simps SPECIAL_PATHS_def abs_path_def example_env_def)

text \<open>Appending to a stock file loses its contents: the entry is replaced by a new one that shows the old size and the
  new bytes, with only the new bytes behind it.\<close>

lemma append_loses_stock_contents:
  "case PipeProtocol example_env None False None False [FileOp 1 ''/etc/passwd'' True] example_fs [] of (r, p) \<Rightarrow>
     file_contents 3 (\<lambda>_. []) example_fs ''/etc/passwd'' = Inr ''root'' \<and> r = Inr () \<and>
     (case write_stdout example_env ''x'' p of (_, q) \<Rightarrow>
        file_contents 3 (\<lambda>_. []) (pp_fs q) ''/etc/passwd'' = Inr ''x'' \<and>
        (case found 3 True (pp_fs q) ''/etc/passwd'' of Inr (Some (_, e)) \<Rightarrow> e_size e = 5 | _ \<Rightarrow> False))"
  by code_simp

text \<open>Two descriptors on one file count their bytes apart, so the size that is shown is not that of the file.\<close>

lemma shared_file_wrong_size:
  "case PipeProtocol example_env None False None False [FileOp 1 ''x'' False, DupOp 2 1] example_fs [] of (_, p) \<Rightarrow>
     (case write_stdout example_env ''abc'' p of (_, q) \<Rightarrow>
        (case write_stderr example_env ''de'' q of (_, w) \<Rightarrow>
           file_contents 3 (\<lambda>_. []) (pp_fs w) ''/tmp/x'' = Inr ''abcde'' \<and>
           (case found 3 True (pp_fs w) ''/tmp/x'' of Inr (Some (_, e)) \<Rightarrow> e_size e = 2 | _ \<Rightarrow> False)))"
  by code_simp

text \<open>Reading standard input from a directory raises out of the shell instead of printing an error.\<close>

lemma stdin_from_directory_raises:
  "fst (PipeProtocol example_env None False None False [StdinOp 0 ''/etc''] example_fs []) = Inl IsADirectoryError"
  by code_simp

end
