(* ===== verification/Shell_Texts.thy ===== *)
theory Shell_Texts
  imports Py_Prelude
begin

text \<open>
  The help and version texts of the emulated commands, line by line (\<open>src/src/cowrie/commands/\<close>).
\<close>

definition text_lines :: "string list \<Rightarrow> string" where
  "text_lines ls = concat (map (\<lambda>l. l @ [nl]) ls)"

definition GREP_HELP :: string where
  "GREP_HELP = text_lines [
     ''usage: grep [-abcDEFGHhIiJLlmnOoPqRSsUVvwxZ] [-A num] [-B num] [-C[num]]'',
     [tab] @ ''[-e pattern] [-f file] [--binary-files=value] [--color=when]'',
     [tab] @ ''[--context[=num]] [--directories=action] [--label] [--line-buffered]'',
     [tab] @ ''[--null] [pattern] [file ...]'']"

definition CAT_HELP :: string where
  "CAT_HELP = text_lines [
     ''Usage: cat [OPTION]... [FILE]...'',
     ''Concatenate FILE(s) to standard output.'',
     [],
     ''With no FILE, or when FILE is -, read standard input.'',
     [],
     ''    -A, --show-all           equivalent to -vET'',
     ''    -b, --number-nonblank    number nonempty output lines, overrides -n'',
     ''    -e                       equivalent to -vE'',
     ''    -E, --show-ends          display $ at end of each line'',
     ''    -n, --number             number all output lines'',
     ''    -s, --squeeze-blank      suppress repeated empty output lines'',
     ''    -t                       equivalent to -vT'',
     ''    -T, --show-tabs          display TAB characters as ^I'',
     ''    -u                       (ignored)'',
     ''    -v, --show-nonprinting   use ^ and M- notation, except for LFD and TAB'',
     ''        --help     display this help and exit'',
     ''        --version  output version information and exit'',
     [],
     ''Examples:'',
     ''    cat f - g  Output f'' @ [squote] @ ''s contents, then standard input, then g'' @ [squote] @ ''s contents.'',
     ''    cat        Copy standard input to standard output.'',
     [],
     ''GNU coreutils online help: <http://www.gnu.org/software/coreutils/>'',
     ''Full documentation at: <http://www.gnu.org/software/coreutils/cat>'',
     ''or available locally via: info '' @ [squote] @ ''(coreutils) cat invocation'' @ [squote]]"

definition WC_VERSION :: string where
  "WC_VERSION = text_lines [
     ''wc (GNU coreutils) 8.30'',
     ''Copyright (C) 2018 Free Software Foundation, Inc.'',
     ''License GPLv3+: GNU GPL version 3 or later <https://gnu.org/licenses/gpl.html>.'',
     ''This is free software: you are free to change and redistribute it.'',
     ''There is NO WARRANTY, to the extent permitted by law.'',
     [],
     ''Written by Paul Rubin and David MacKenzie.'']"

definition WC_HELP :: string where
  "WC_HELP = text_lines [
     ''Usage: wc [OPTION]... [FILE]...'',
     ''Print newline, word, and byte counts for each FILE, and a total line if'',
     ''more than one FILE is specified.  A word is a non-zero-length sequence of'',
     ''characters delimited by white space.'',
     [],
     ''With no FILE, or when FILE is -, read standard input.'',
     [],
     ''The options below may be used to select which counts are printed, always in'',
     ''the following order: newline, word, character, byte, maximum line length.'',
     [tab] @ ''-c'' @ [tab] @ ''print the byte counts'',
     [tab] @ ''-m'' @ [tab] @ ''print the character counts'',
     [tab] @ ''-l'' @ [tab] @ ''print the newline counts'',
     [tab] @ ''-w'' @ [tab] @ ''print the word counts'',
     [tab] @ ''-h'' @ [tab] @ ''display this help and exit'',
     [tab] @ ''-v'' @ [tab] @ ''output version information and exit'']"

definition CUT_HELP :: string where
  "CUT_HELP = text_lines [
     ''Usage: cut OPTION... [FILE]...'',
     ''Print selected parts of lines from each FILE to standard output.'',
     [],
     ''With no FILE, or when FILE is -, read standard input.'',
     [],
     ''Mandatory arguments to long options are mandatory for short options too.'',
     ''  -b, --bytes=LIST        select only these bytes'',
     ''  -c, --characters=LIST   select only these characters'',
     ''  -d, --delimiter=DELIM   use DELIM instead of TAB for field delimiter'',
     ''  -f, --fields=LIST       select only these fields;  also print any line'',
     ''                            that contains no delimiter character, unless'',
     ''                            the -s option is specified'',
     ''  -s, --only-delimited    do not print lines not containing delimiters'',
     ''      --help     display this help and exit'',
     ''      --version  output version information and exit'',
     [],
     ''Use one, and only one of -b, -c or -f.  Each LIST is made up of one'',
     ''range, or many ranges separated by commas.'',
     [],
     ''Each range is one of:'',
     ''  N     N'' @ [squote] @ ''th byte, character or field, counted from 1'',
     ''  N-    from N'' @ [squote] @ ''th byte, character or field, to end of line'',
     ''  N-M   from N'' @ [squote] @ ''th to M'' @ [squote] @ ''th (included) byte, character or field'',
     ''  -M    from first to M'' @ [squote] @ ''th (included) byte, character or field'',
     [],
     ''GNU coreutils online help: <http://www.gnu.org/software/coreutils/>'',
     ''Full documentation at: <http://www.gnu.org/software/coreutils/cut>'',
     ''or available locally via: info '' @ [squote] @ ''(coreutils) cut invocation'' @ [squote]]"

definition BASE64_HELP :: string where
  "BASE64_HELP = text_lines [
     ''Usage: base64 [OPTION]... [FILE]'',
     ''Base64 encode or decode FILE, or standard input, to standard output.'',
     [],
     ''Mandatory arguments to long options are mandatory for short options too.'',
     ''  -d, --decode          decode data'',
     ''  -i, --ignore-garbage  when decoding, ignore non-alphabet characters'',
     ''  -w, --wrap=COLS       wrap encoded lines after COLS character (default 76).'',
     ''                        Use 0 to disable line wrapping'',
     [],
     ''      --help     display this help and exit'',
     ''      --version  output version information and exit'',
     [],
     ''With no FILE, or when FILE is -, read standard input.'',
     [],
     ''The data are encoded as described for the base64 alphabet in RFC 3548.'',
     ''When decoding, the input may contain newlines in addition to the bytes of'',
     ''the formal base64 alphabet.  Use --ignore-garbage to attempt to recover'',
     ''from any other non-alphabet bytes in the encoded stream.'',
     [],
     ''Report base64 bugs to bug-coreutils@gnu.org'',
     ''GNU coreutils home page: <http://www.gnu.org/software/coreutils/>'',
     ''General help using GNU software: <http://www.gnu.org/gethelp/>'',
     ''For complete documentation, run: info coreutils '' @ [squote] @ ''base64 invocation'' @ [squote]]"

definition BASE64_VERSION :: string where
  "BASE64_VERSION = text_lines [
     ''base64 (GNU coreutils) 8.21'',
     ''Copyright (C) 2013 Free Software Foundation, Inc.'',
     ''License GPLv3+: GNU GPL version 3 or later <http://gnu.org/licenses/gpl.html>.'',
     ''This is free software: you are free to change and redistribute it.'',
     ''There is NO WARRANTY, to the extent permitted by law.'',
     [],
     ''Written by Simon Josefsson.'']"

definition TEE_HELP :: string where
  "TEE_HELP = text_lines [
     ''Usage: tee [OPTION]... [FILE]...'',
     ''Copy standard input to each FILE, and also to standard output.'',
     [],
     ''  -a, --append              append to the given FILEs, do not overwrite'',
     ''  -i, --ignore-interrupts   ignore interrupt signals'',
     ''  -p                        diagnose errors writing to non pipes'',
     ''      --output-error[=MODE]   set behavior on write error.  See MODE below'',
     ''      --help     display this help and exit'',
     ''      --version  output version information and exit'',
     [],
     ''MODE determines behavior with write errors on the outputs:'',
     ''  '' @ [squote] @ ''warn'' @ [squote] @ ''         diagnose errors writing to any output'',
     ''  '' @ [squote] @ ''warn-nopipe'' @ [squote] @ ''  diagnose errors writing to any output not a pipe'',
     ''  '' @ [squote] @ ''exit'' @ [squote] @ ''         exit on error writing to any output'',
     ''  '' @ [squote] @ ''exit-nopipe'' @ [squote] @ ''  exit on error writing to any output not a pipe'',
     ''The default MODE for the -p option is '' @ [squote] @ ''warn-nopipe'' @ [squote] @ ''.'',
     ''The default operation when --output-error is not specified, is to'',
     ''exit immediately on error writing to a pipe, and diagnose errors'',
     ''writing to non pipe outputs.'',
     [],
     ''GNU coreutils online help: <https://www.gnu.org/software/coreutils/>'',
     ''Full documentation <https://www.gnu.org/software/coreutils/tee>'',
     ''or available locally via: info '' @ [squote] @ ''(coreutils) tee invocation'' @ [squote]]"

definition RM_HELP :: string where
  "RM_HELP = text_lines [
     ''Usage: rm [OPTION]... [FILE]...'',
     ''Remove (unlink) the FILE(s).'',
     [],
     '' -f, --force           ignore nonexistent files and arguments, never prompt'',
     '' -i                    prompt before every removal'',
     '' -I                    prompt once before removing more than three files, or'',
     ''                         when removing recursively; less intrusive than -i,'',
     ''                         while still giving protection against most mistakes'',
     ''      --interactive[=WHEN]  prompt according to WHEN: never, once (-I), or'',
     ''                         always (-i); without WHEN, prompt always'',
     ''      --one-file-system  when removing a hierarchy recursively, skip any'',
     ''                         directory that is on a file system different from'',
     ''                         that of the corresponding command line argument'',
     ''      --no-preserve-root  do not treat '' @ [squote] @ ''/'' @ [squote] @ '' specially'',
     ''      --preserve-root   do not remove '' @ [squote] @ ''/'' @ [squote] @ '' (default)'',
     '' -r, -R, --recursive   remove directories and their contents recursively'',
     '' -d, --dir             remove empty directories'',
     '' -v, --verbose         explain what is being done'',
     ''     --help     display this help and exit'',
     ''     --version  output version information and exit'',
     [],
     ''By default, rm does not remove directories.  Use the --recursive (-r or -R)'',
     ''option to remove each listed directory, too, along with all of its contents.'',
     [],
     ''To remove a file whose name starts with a '' @ [squote] @ ''-'' @ [squote] @ '', for example '' @ [squote] @
       ''-foo'' @ [squote] @ '','',
     ''use one of these commands:'',
     '' rm -- -foo'',
     [],
     '' rm ./-foo'',
     [],
     ''Note that if you use rm to remove a file, it might be possible to recover'',
     ''some of its contents, given sufficient expertise and/or time.  For greater'',
     ''assurance that the contents are truly unrecoverable, consider using shred.'',
     [],
     ''GNU coreutils online help: <http://www.gnu.org/software/coreutils/>'',
     ''Full documentation at: <http://www.gnu.org/software/coreutils/rm>'',
     ''or available locally via: info '' @ [squote] @ ''(coreutils) rm invocation'' @ [squote]]"

definition UNIQ_HELP :: string where
  "UNIQ_HELP = text_lines [
     ''Usage: uniq [OPTION]... [INPUT [OUTPUT]]'',
     ''Filter adjacent matching lines from INPUT (or standard input),'',
     ''writing to OUTPUT (or standard output).'',
     [],
     ''With no options, matching lines are merged to the first occurrence.'',
     [],
     ''Mandatory arguments to long options are mandatory for short options too.'',
     ''  -c, --count           prefix lines by the number of occurrences'',
     ''  -d, --repeated        only print duplicate lines, one for each group'',
     ''  -D                    print all duplicate lines'',
     ''      --all-repeated[=METHOD]  like -D, but allow separating groups'',
     ''                                 with an empty line;'',
     ''                                 METHOD={none(default),prepend,separate}'',
     ''  -f, --skip-fields=N   avoid comparing the first N fields'',
     ''      --group[=METHOD]  show all items, separating groups with an empty line;'',
     ''                          METHOD={separate(default),prepend,append,both}'',
     ''  -i, --ignore-case     ignore differences in case when comparing'',
     ''  -s, --skip-chars=N    avoid comparing the first N characters'',
     ''  -u, --unique          only print unique lines'',
     ''  -z, --zero-terminated     line delimiter is NUL, not newline'',
     ''  -w, --check-chars=N   compare no more than N characters in lines'',
     ''      --help     display this help and exit'',
     ''      --version  output version information and exit'',
     [],
     ''A field is a run of blanks (usually spaces and/or TABs), then non-blank'',
     ''characters.  Fields are skipped before chars.'',
     [],
     ''Note: '' @ [squote] @ ''uniq'' @ [squote] @ '' does not detect repeated lines unless they are adjacent.'',
     ''You may want to sort the input first, or use '' @ [squote] @ ''sort -u'' @ [squote] @ '' without '' @ [squote] @
       ''uniq'' @ [squote] @ ''.'',
     ''Also, comparisons honor the rules specified by '' @ [squote] @ ''LC_COLLATE'' @ [squote] @ ''.'',
     [],
     ''GNU coreutils online help: <https://www.gnu.org/software/coreutils/>'',
     ''Full documentation at: <https://www.gnu.org/software/coreutils/uniq>'',
     ''or available locally via: info '' @ [squote] @ ''(coreutils) uniq invocation'' @ [squote]]"

definition CHMOD_HELP :: string where
  "CHMOD_HELP = text_lines [
     ''Usage: chmod [OPTION]... MODE[,MODE]... FILE...'',
     ''  or:  chmod [OPTION]... OCTAL-MODE FILE...'',
     ''  or:  chmod [OPTION]... --reference=RFILE FILE...'',
     ''Change the mode of each FILE to MODE.'',
     ''With --reference, change the mode of each FILE to that of RFILE.'',
     [],
     ''  -c, --changes          like verbose but report only when a change is made'',
     ''  -f, --silent, --quiet  suppress most error messages'',
     ''  -v, --verbose          output a diagnostic for every file processed'',
     ''      --no-preserve-root  do not treat '' @ [squote] @ ''/'' @ [squote] @ '' specially (the default)'',
     ''      --preserve-root    fail to operate recursively on '' @ [squote] @ ''/'' @ [squote],
     ''      --reference=RFILE  use RFILE'' @ [squote] @ ''s mode instead of MODE values'',
     ''  -R, --recursive        change files and directories recursively'',
     ''      --help     display this help and exit'',
     ''      --version  output version information and exit'',
     [],
     ''Each MODE is of the form '' @ [squote] @ ''[ugoa]*([-+=]([rwxXst]*|[ugo]))+|[-+=][0-7]+'' @ [squote] @ ''.'',
     [],
     ''GNU coreutils online help: <https://www.gnu.org/software/coreutils/>'',
     ''Full documentation at: <https://www.gnu.org/software/coreutils/chmod>'',
     ''or available locally via: info '' @ [squote] @ ''(coreutils) chmod invocation'' @ [squote]]"

definition CHMOD_VERSION :: string where
  "CHMOD_VERSION = text_lines [
     ''chmod (GNU coreutils) 8.25'',
     ''Copyright (C) 2016 Free Software Foundation, Inc.'',
     ''License GPLv3+: GNU GPL version 3 or later <https://gnu.org/licenses/gpl.html>.'',
     ''This is free software: you are free to change and redistribute it.'',
     ''There is NO WARRANTY, to the extent permitted by law.'',
     [],
     ''Written by David MacKenzie and Jim Meyering.'']"

end
