(* ===== verification/Shell_Command.thy ===== *)
theory Shell_Command
  imports Shell_Pipe
begin

text \<open>
  What the emulated commands share: the life of a command (\<open>src/src/cowrie/shell/command.py\<close>), as programs that
  read and write a state and may raise, and the option parser of the Python library (\<open>getopt\<close>). The state is the
  pipe that the shell has set up for the command, which holds its input, the targets of its output and the file
  system, beside the working directory and whether the command is still on the stack.
\<close>

section \<open>Programs\<close>

record cmd_state =
  c_pipe :: pipe
  c_shell :: shell_env
  c_cwd :: string
  c_running :: bool

abbreviation c_fs :: "cmd_state \<Rightarrow> honey_fs" where "c_fs s \<equiv> pp_fs (c_pipe s)"
abbreviation c_input :: "cmd_state \<Rightarrow> bytestr option" where "c_input s \<equiv> pp_input (c_pipe s)"

text \<open>The session: the frames that are left, the clock, the user, the contents of stock executables.\<close>

record cmd_env =
  ce_depth :: nat
  ce_now :: rat
  ce_uid :: int
  ce_gid :: int
  ce_user :: string
  ce_home :: string
  ce_environ :: "(string, string) dict"
  ce_arch_data :: "string \<Rightarrow> bytestr"

type_synonym 'a cmd = "cmd_state \<Rightarrow> 'a result \<times> cmd_state"

definition ret :: "'a \<Rightarrow> 'a cmd" where
  "ret x s = (Inr x, s)"

definition raise :: "exn \<Rightarrow> 'a cmd" where
  "raise e s = (Inl e, s)"

definition bind_cmd :: "'a cmd \<Rightarrow> ('a \<Rightarrow> 'b cmd) \<Rightarrow> 'b cmd" where
  "bind_cmd m f s = (case m s of (Inl e, s') \<Rightarrow> (Inl e, s') | (Inr x, s') \<Rightarrow> f x s')"

definition andthen :: "'a cmd \<Rightarrow> 'b cmd \<Rightarrow> 'b cmd" where
  "andthen m n = bind_cmd m (\<lambda>_. n)"

definition gets :: "(cmd_state \<Rightarrow> 'a) \<Rightarrow> 'a cmd" where
  "gets f s = (Inr (f s), s)"

definition lift_result :: "(cmd_state \<Rightarrow> 'a result) \<Rightarrow> 'a cmd" where
  "lift_result f s = (f s, s)"

text \<open>An operation of the file system, and \<open>try ... except\<close> for the exceptions of a set.\<close>

definition on_fs :: "(honey_fs \<Rightarrow> 'a result \<times> honey_fs) \<Rightarrow> 'a cmd" where
  "on_fs f s = (case f (c_fs s) of (r, fs) \<Rightarrow> (r, s\<lparr>c_pipe := (c_pipe s)\<lparr>pp_fs := fs\<rparr>\<rparr>))"

definition catch_cmd :: "(exn \<Rightarrow> bool) \<Rightarrow> 'a cmd \<Rightarrow> (exn \<Rightarrow> 'a cmd) \<Rightarrow> 'a cmd" where
  "catch_cmd P m h s = (case m s of (Inl e, s') \<Rightarrow> if P e then h e s' else (Inl e, s') | r \<Rightarrow> r)"

definition write_bytes :: "bytestr \<Rightarrow> unit cmd" where
  "write_bytes b s = (case write_stdout (c_shell s) b (c_pipe s) of (r, p) \<Rightarrow> (r, s\<lparr>c_pipe := p\<rparr>))"

definition write_str :: "string \<Rightarrow> unit cmd" where
  "write_str x = write_bytes (utf8 x)"

definition error_bytes :: "bytestr \<Rightarrow> unit cmd" where
  "error_bytes b s = (case write_stderr (c_shell s) b (c_pipe s) of (r, p) \<Rightarrow> (r, s\<lparr>c_pipe := p\<rparr>))"

definition error_write :: "string \<Rightarrow> unit cmd" where
  "error_write x = error_bytes (utf8 x)"

definition unless_cmd :: "bool \<Rightarrow> unit cmd \<Rightarrow> unit cmd" where
  "unless_cmd b m = (if b then ret () else m)"

text \<open>A loop whose body says whether to go on; a loop that always goes on.\<close>

fun loop_while :: "('a \<Rightarrow> bool cmd) \<Rightarrow> 'a list \<Rightarrow> bool cmd" where
  "loop_while f [] = ret True"
| "loop_while f (x # xs) = bind_cmd (f x) (\<lambda>go. if go then loop_while f xs else ret False)"

fun for_each :: "('a \<Rightarrow> unit cmd) \<Rightarrow> 'a list \<Rightarrow> unit cmd" where
  "for_each f [] = ret ()"
| "for_each f (x # xs) = andthen (f x) (for_each f xs)"

text \<open>\<open>exit\<close> takes the command off the stack of the session, and the shell below goes on; a second exit does not
  find it there.\<close>

definition exit_cmd :: "unit cmd" where
  "exit_cmd s = (if c_running s then (Inr (), s\<lparr>c_running := False\<rparr>) else (Inl ValueError, s))"

text \<open>\<open>start\<close> of a command that defines only \<open>call\<close>.\<close>

definition start_call :: "unit cmd \<Rightarrow> unit cmd" where
  "start_call call = andthen call exit_cmd"

lemmas cmd_defs = ret_def raise_def bind_cmd_def andthen_def gets_def lift_result_def on_fs_def catch_cmd_def
  write_bytes_def write_str_def error_bytes_def error_write_def unless_cmd_def exit_cmd_def start_call_def

section \<open>Paths and files\<close>

definition resolve :: "string \<Rightarrow> string cmd" where
  "resolve arg = lift_result (\<lambda>s. resolve_path (fs_home (c_fs s)) arg (c_cwd s))"

definition is_dir_cmd :: "cmd_env \<Rightarrow> string \<Rightarrow> bool cmd" where
  "is_dir_cmd env path = gets (\<lambda>s. isdir (ce_depth env) (c_fs s) path)"

definition exists_cmd :: "cmd_env \<Rightarrow> string \<Rightarrow> bool cmd" where
  "exists_cmd env path = lift_result (\<lambda>s. fs_exists (ce_depth env) True (c_fs s) path)"

definition contents_cmd :: "cmd_env \<Rightarrow> string \<Rightarrow> bytestr cmd" where
  "contents_cmd env path = lift_result (\<lambda>s. file_contents (ce_depth env) (ce_arch_data env) (c_fs s) path)"

definition found_cmd :: "cmd_env \<Rightarrow> string \<Rightarrow> (loc \<times> entry) option cmd" where
  "found_cmd env path = lift_result (\<lambda>s. found (ce_depth env) True (c_fs s) path)"

definition dir_cmd :: "cmd_env \<Rightarrow> string \<Rightarrow> loc cmd" where
  "dir_cmd env path = lift_result (\<lambda>s. get_path (ce_depth env) True (fs_tree (c_fs s)) path)"

text \<open>The files among the arguments, directories being reported.\<close>

fun check_arguments :: "cmd_env \<Rightarrow> string \<Rightarrow> string list \<Rightarrow> string list cmd" where
  "check_arguments env application [] = ret []"
| "check_arguments env application (arg # args) =
     bind_cmd (resolve arg) (\<lambda>path.
     bind_cmd (is_dir_cmd env path) (\<lambda>d.
       if d then
         andthen (error_write (application @ '': error reading '' @ [bquote] @ arg @ [squote] @ '': Is a directory'' @ [nl]))
           (check_arguments env application args)
       else bind_cmd (check_arguments env application args) (\<lambda>files. ret (path # files))))"

section \<open>Options\<close>

text \<open>The error has the option, and whether it is a long one.\<close>

type_synonym opts = "(string \<times> string) list"
type_synonym opt_error = "bool \<times> string"

fun short_has_arg :: "char \<Rightarrow> string \<Rightarrow> bool option" where
  "short_has_arg opt [] = None"
| "short_has_arg opt (c # cs) = (if c = opt \<and> c \<noteq> CHR '':'' then Some (startswith cs '':'') else short_has_arg opt cs)"

function do_shorts :: "opts \<Rightarrow> string \<Rightarrow> string \<Rightarrow> string list \<Rightarrow> opt_error + opts \<times> string list" where
  "do_shorts os [] shortopts args = Inr (os, args)"
| "do_shorts os (c # cs) shortopts args =
     (case short_has_arg c shortopts of
        None \<Rightarrow> Inl (False, [c])
      | Some False \<Rightarrow> do_shorts (os @ [(''-'' @ [c], [])]) cs shortopts args
      | Some True \<Rightarrow>
          if cs \<noteq> [] then Inr (os @ [(''-'' @ [c], cs)], args)
          else (case args of [] \<Rightarrow> Inl (False, [c]) | a # rest \<Rightarrow> Inr (os @ [(''-'' @ [c], a)], rest)))"
  by pat_completeness auto
termination by (relation "measure (\<lambda>(_, cs, _, _). length cs)") auto

definition long_has_args :: "string \<Rightarrow> string list \<Rightarrow> (bool \<times> string) option" where
  "long_has_args opt longopts =
     (let possibilities = filter (\<lambda>l. startswith l opt) longopts in
      if possibilities = [] then None
      else if opt \<in> set possibilities then Some (False, opt)
      else if opt @ ''='' \<in> set possibilities then Some (True, opt)
      else if length possibilities > 1 then None
      else let m = hd possibilities in
        if last m = CHR ''='' then Some (True, butlast m) else Some (False, m))"

definition do_longs :: "opts \<Rightarrow> string \<Rightarrow> string list \<Rightarrow> string list \<Rightarrow> opt_error + opts \<times> string list" where
  "do_longs os arg longopts args =
     (let has_eq = CHR ''='' \<in> set arg; opt = (if has_eq then before_first (CHR ''='') arg else arg);
          optarg = (if has_eq then Some (drop (length opt + 1) arg) else None) in
      case long_has_args opt longopts of
        None \<Rightarrow> Inl (True, opt)
      | Some (True, nm) \<Rightarrow>
          (case (optarg, args) of
             (Some a, _) \<Rightarrow> Inr (os @ [(''--'' @ nm, a)], args)
           | (None, a # rest) \<Rightarrow> Inr (os @ [(''--'' @ nm, a)], rest)
           | (None, []) \<Rightarrow> Inl (True, nm))
      | Some (False, nm) \<Rightarrow> if optarg \<noteq> None then Inl (True, nm) else Inr (os @ [(''--'' @ nm, [])], args))"

lemma do_shorts_args: "do_shorts os cs shortopts args = Inr (os', rest) \<Longrightarrow> length rest \<le> length args"
  by (induction os cs shortopts args rule: do_shorts.induct) (auto split: option.splits bool.splits list.splits if_splits)

lemma do_longs_args: "do_longs os arg longopts args = Inr (os', rest) \<Longrightarrow> length rest \<le> length args"
  by (auto simp: do_longs_def Let_def split: option.splits prod.splits bool.splits list.splits if_splits)

function getopt :: "opts \<Rightarrow> string list \<Rightarrow> string \<Rightarrow> string list \<Rightarrow> opt_error + opts \<times> string list" where
  "getopt os [] shortopts longopts = Inr (os, [])"
| "getopt os (a # args) shortopts longopts =
     (if \<not> startswith a ''-'' \<or> a = ''-'' then Inr (os, a # args)
      else if a = ''--'' then Inr (os, args)
      else case (if startswith a ''--'' then do_longs os (drop 2 a) longopts args else do_shorts os (drop 1 a) shortopts args) of
          Inl e \<Rightarrow> Inl e
        | Inr (os', rest) \<Rightarrow> getopt os' rest shortopts longopts)"
  by pat_completeness auto
termination
  by (relation "measure (\<lambda>(_, args, _, _). length args)") (auto dest!: do_shorts_args do_longs_args split: if_splits)

function gnu_getopt :: "opts \<Rightarrow> string list \<Rightarrow> string list \<Rightarrow> string \<Rightarrow> string list \<Rightarrow> opt_error + opts \<times> string list" where
  "gnu_getopt os prog_args [] shortopts longopts = Inr (os, prog_args)"
| "gnu_getopt os prog_args (a # args) shortopts longopts =
     (if a = ''--'' then Inr (os, prog_args @ args)
      else if startswith a ''-'' \<and> a \<noteq> ''-'' then
        (case (if startswith a ''--'' then do_longs os (drop 2 a) longopts args else do_shorts os (drop 1 a) shortopts args) of
           Inl e \<Rightarrow> Inl e
         | Inr (os', rest) \<Rightarrow> gnu_getopt os' prog_args rest shortopts longopts)
      else gnu_getopt os (prog_args @ [a]) args shortopts longopts)"
  by pat_completeness auto
termination
  by (relation "measure (\<lambda>(_, _, args, _, _). length args)") (auto dest!: do_shorts_args do_longs_args split: if_splits)

text \<open>Arguments that are no options are handed on as they are.\<close>

lemma getopt_plain: "args = [] \<or> \<not> startswith (hd args) ''-'' \<Longrightarrow> getopt os args so lo = Inr (os, args)"
  by (cases args) auto

lemma gnu_getopt_plain: "\<forall>a\<in>set args. \<not> startswith a ''-'' \<Longrightarrow> gnu_getopt os ps args so lo = Inr (os, ps @ args)"
  by (induction args arbitrary: ps) auto

section \<open>Output that cannot fail\<close>

text \<open>What a command writes to the terminal, to the next command or to the capture of a substitution is appended there.\<close>

definition plain_out :: "cmd_state \<Rightarrow> bool" where
  "plain_out s \<longleftrightarrow> map_of (targets (c_pipe s)) 1 \<in> {Some FD_TERMINAL, Some FD_PIPE, Some FD_CAPTURE}"

definition put :: "bytestr \<Rightarrow> cmd_state \<Rightarrow> cmd_state" where
  "put b s = s\<lparr>c_pipe := snd (write_stdout (c_shell s) b (c_pipe s))\<rparr>"

definition put_lines :: "bytestr list \<Rightarrow> cmd_state \<Rightarrow> cmd_state" where
  "put_lines ls s = fold (\<lambda>l. put (l @ [nl])) ls s"

lemma write_bytes_put: "plain_out s \<Longrightarrow> write_bytes b s = (Inr (), put b s)"
  by (auto simp: plain_out_def write_bytes_def put_def write_stdout_def write_to_fd_def)

lemma put_fields [simp]:
  assumes "plain_out s"
  shows "plain_out (put b s)" "c_fs (put b s) = c_fs s" "c_input (put b s) = c_input s" "c_cwd (put b s) = c_cwd s"
    "c_running (put b s) = c_running s" "c_shell (put b s) = c_shell s" "targets (c_pipe (put b s)) = targets (c_pipe s)"
    "has_next (c_pipe (put b s)) = has_next (c_pipe s)"
  using assms
  by (auto simp: plain_out_def put_def write_stdout_def write_to_fd_def write_to_terminal_def pipe_to_next_def split: if_splits)

lemma plain_out_running [simp]: "plain_out (s\<lparr>c_running := r\<rparr>) = plain_out s"
  by (simp add: plain_out_def)

lemma put_put: "plain_out s \<Longrightarrow> put b (put a s) = put (a @ b) s"
  by (auto simp: plain_out_def put_def write_stdout_def write_to_fd_def write_to_terminal_def pipe_to_next_def split: option.split)

lemma put_lines_simps [simp]:
  "put_lines [] s = s" "put_lines (l # ls) s = put_lines ls (put (l @ [nl]) s)"
  "put_lines (ls @ ms) s = put_lines ms (put_lines ls s)"
  by (simp_all add: put_lines_def)

lemma put_lines_fields [simp]:
  assumes "plain_out s"
  shows "plain_out (put_lines ls s)" "c_fs (put_lines ls s) = c_fs s" "c_input (put_lines ls s) = c_input s"
    "c_cwd (put_lines ls s) = c_cwd s" "c_running (put_lines ls s) = c_running s"
  using assms by (induction ls arbitrary: s) simp_all

text \<open>Lines that go to the terminal, to the capture or to the next command are there in one piece.\<close>

lemma put_terminal: "map_of (targets (c_pipe s)) 1 = Some FD_TERMINAL \<Longrightarrow> put b s = s\<lparr>c_pipe := write_to_terminal b (c_pipe s)\<rparr>"
  by (simp add: put_def write_stdout_def write_to_fd_def)

lemma put_pipe: "map_of (targets (c_pipe s)) 1 = Some FD_PIPE \<Longrightarrow> put b s = s\<lparr>c_pipe := pipe_to_next b (c_pipe s)\<rparr>"
  by (simp add: put_def write_stdout_def write_to_fd_def)

lemma put_lines_put: "plain_out s \<Longrightarrow> ls \<noteq> [] \<Longrightarrow> put_lines ls s = put (concat (map (\<lambda>l. l @ [nl]) ls)) s"
proof (induction ls arbitrary: s)
  case (Cons l ls)
  then show ?case by (cases "ls = []") (simp_all add: put_put)
qed simp

end
