(* ===== verification/Shell_Text_Commands.thy ===== *)
theory Shell_Text_Commands
  imports Shell_Command Shell_Texts
begin

text \<open>
  The emulated commands that show and cut text (\<open>src/src/cowrie/commands/\<close>: \<open>fs.py\<close> for \<open>grep\<close>, \<open>tail\<close> and
  \<open>head\<close>, \<open>cat.py\<close>, \<open>wc.py\<close>, \<open>cut.py\<close> and \<open>base64.py\<close>). A command that waits for its input does not exit. The
  compiler of patterns and the decoder of UTF-8 are parameters.
\<close>

type_synonym bytes_compile = "bytestr \<Rightarrow> (bytestr \<Rightarrow> bool) option"

section \<open>grep\<close>

definition is_digits :: "string \<Rightarrow> bool" where
  "is_digits s \<longleftrightarrow> s \<noteq> [] \<and> list_all (\<lambda>c. is_digit c \<or> c \<in> {CHR 0xB2, CHR 0xB3, CHR 0xB9}) s"

text \<open>\<open>int(s)\<close>.\<close>

definition int_cmd :: "string \<Rightarrow> int cmd" where
  "int_cmd s = (case py_int s of None \<Rightarrow> raise ValueError | Some n \<Rightarrow> ret n)"

definition no_input :: "bool cmd" where
  "no_input = gets (\<lambda>s. c_input s = None \<or> c_input s = Some [])"

definition the_input :: "bytestr cmd" where
  "the_input = gets (\<lambda>s. case c_input s of None \<Rightarrow> [] | Some b \<Rightarrow> b)"

definition grep_application :: "bytes_compile \<Rightarrow> bytestr \<Rightarrow> string \<Rightarrow> unit cmd" where
  "grep_application rc contents match =
     (case rc (utf8 (filter (\<lambda>c. c \<noteq> dquote) (py_basename match))) of
        None \<Rightarrow> raise ReError
      | Some matches \<Rightarrow> write_bytes (concat (map (\<lambda>l. l @ [nl]) (filter matches (split_on nl contents)))))"

definition grep_get_contents :: "cmd_env \<Rightarrow> bytes_compile \<Rightarrow> string \<Rightarrow> string \<Rightarrow> unit cmd" where
  "grep_get_contents env rc filename match =
     catch_cmd (\<lambda>_. True) (bind_cmd (contents_cmd env filename) (\<lambda>contents. grep_application rc contents match))
       (\<lambda>_. error_write (''grep: '' @ filename @ '': No such file or directory'' @ [nl]))"

definition GREP_OPTS :: string where "GREP_OPTS = ''abcDEFGHhIiJLlmnOoPqRSsUVvwxZA:B:C:e:f:''"

definition GREP_LONG :: "string list" where
  "GREP_LONG = [''binary-files='', ''color='', ''color'', ''context='', ''directories='', ''label'', ''line-buffered'']"

definition grep :: "cmd_env \<Rightarrow> bytes_compile \<Rightarrow> string list \<Rightarrow> unit cmd" where
  "grep env rc args0 =
     (if args0 = [] then andthen (write_str GREP_HELP) exit_cmd
      else if hd args0 = ''>'' then raise UnboundLocalError
      else case getopt [] args0 GREP_OPTS GREP_LONG of
          Inl (_, opt) \<Rightarrow>
            andthen (error_write (''grep: invalid option -- '' @ opt @ [nl])) (andthen (write_str GREP_HELP) exit_cmd)
        | Inr (optlist, args) \<Rightarrow>
            andthen (for_each (\<lambda>(opt, _). unless_cmd (opt \<noteq> ''-h'') (write_str GREP_HELP)) optlist)
              (bind_cmd no_input (\<lambda>none.
                andthen
                  (if none then
                     bind_cmd (check_arguments env ''grep'' (tl args)) (\<lambda>pnames.
                       for_each (\<lambda>pname. grep_get_contents env rc pname (hd args)) pnames)
                   else if args = [] then raise IndexError
                   else bind_cmd the_input (\<lambda>b. grep_application rc b (hd args)))
                  exit_cmd)))"

section \<open>tail\<close>

text \<open>The lines that are written, and the number of lines from then on. The index -1 is the last line.\<close>

definition tail_application :: "int \<Rightarrow> bytestr \<Rightarrow> bytestr \<times> int" where
  "tail_application n0 contents =
     (let contentsplit = split_on nl contents; lines = int (length contentsplit);
          n = (if lines < n0 then lines - 1 else n0);
          js = map (\<lambda>k. lines - n - 1 + int k) [0..<nat (n + 1)] in
      (concat (map (\<lambda>(i, j). (if j < 0 then last contentsplit else contentsplit ! nat j) @ (if int i < n then [nl] else []))
         (enumerate 0 js)), n))"

definition tail_get_contents :: "cmd_env \<Rightarrow> string \<Rightarrow> int \<Rightarrow> int cmd" where
  "tail_get_contents env filename n =
     catch_cmd (\<lambda>_. True)
       (bind_cmd (contents_cmd env filename) (\<lambda>contents.
          case tail_application n contents of (b, n') \<Rightarrow> andthen (write_bytes b) (ret n')))
       (\<lambda>_. andthen
          (error_write (''tail: cannot open '' @ [bquote] @ filename @ [squote] @ '' for reading: No such file or directory'' @ [nl]))
          (ret n))"

fun tail_files :: "cmd_env \<Rightarrow> string list \<Rightarrow> int \<Rightarrow> int cmd" where
  "tail_files env [] n = ret n"
| "tail_files env (pname # pnames) n = bind_cmd (tail_get_contents env pname n) (tail_files env pnames)"

fun tail_opts :: "opts \<Rightarrow> int \<Rightarrow> int cmd" where
  "tail_opts [] n = ret n"
| "tail_opts ((o', v) # os) n =
     (if o' = ''-n'' then
        (if \<not> is_digits v then andthen (error_write (''tail: illegal offset -- '' @ v @ [nl])) (tail_opts os n)
         else bind_cmd (int_cmd v) (tail_opts os))
      else tail_opts os n)"

definition tail_cmd :: "cmd_env \<Rightarrow> string list \<Rightarrow> unit cmd" where
  "tail_cmd env args0 =
     (if args0 = [] \<or> hd args0 = ''>'' then ret ()
      else case getopt [] args0 ''n:'' [] of
          Inl (_, opt) \<Rightarrow>
            andthen (error_write (''tail: invalid option -- '' @ [squote] @ opt @ [squote] @ [nl])) exit_cmd
        | Inr (optlist, args) \<Rightarrow>
            bind_cmd (tail_opts optlist 10) (\<lambda>n.
            bind_cmd no_input (\<lambda>none.
              andthen
                (if none then
                   bind_cmd (check_arguments env ''tail'' args) (\<lambda>pnames. andthen (tail_files env pnames n) (ret ()))
                 else bind_cmd the_input (\<lambda>b. write_bytes (fst (tail_application n b))))
                exit_cmd)))"

section \<open>head\<close>

definition head_application :: "int \<Rightarrow> int \<Rightarrow> bytestr \<Rightarrow> bytestr" where
  "head_application linecount bytecount contents =
     (if bytecount \<noteq> 0 then take (nat bytecount) contents
      else if linecount \<noteq> 0 then concat (map (\<lambda>l. l @ [nl]) (take (nat linecount) (split_on nl contents)))
      else [])"

definition head_get_file_contents :: "cmd_env \<Rightarrow> int \<Rightarrow> int \<Rightarrow> string \<Rightarrow> unit cmd" where
  "head_get_file_contents env linecount bytecount filename =
     catch_cmd (\<lambda>e. e = FileNotFound)
       (bind_cmd (contents_cmd env filename) (\<lambda>b. write_bytes (head_application linecount bytecount b)))
       (\<lambda>_. error_write (''head: cannot open '' @ [bquote] @ filename @ [squote] @ '' for reading: No such file or directory'' @ [nl]))"

fun head_opts :: "opts \<Rightarrow> int \<Rightarrow> int \<Rightarrow> (int \<times> int) cmd" where
  "head_opts [] linecount bytecount = ret (linecount, bytecount)"
| "head_opts ((o', v) # os) linecount bytecount =
     (if o' = ''-n'' then
        (if \<not> is_digits v then
           andthen (error_write (''head: invalid number of lines: '' @ [bquote] @ v @ [bquote] @ [nl])) (head_opts os linecount bytecount)
         else bind_cmd (int_cmd v) (\<lambda>n. head_opts os n 0))
      else if o' = ''-c'' then
        (if \<not> is_digits v then
           andthen (error_write (''head: invalid number of bytes: '' @ [bquote] @ v @ [bquote] @ [nl])) (head_opts os linecount bytecount)
         else bind_cmd (int_cmd v) (\<lambda>n. head_opts os 0 n))
      else head_opts os linecount bytecount)"

definition head_cmd :: "cmd_env \<Rightarrow> string list \<Rightarrow> unit cmd" where
  "head_cmd env args0 =
     (if args0 = [] \<or> hd args0 = ''>'' then ret ()
      else case getopt [] args0 ''c:n:'' [] of
          Inl (_, opt) \<Rightarrow>
            andthen (error_write (''head: invalid option -- '' @ [squote] @ opt @ [squote] @ [nl])) exit_cmd
        | Inr (optlist, args) \<Rightarrow>
            bind_cmd (head_opts optlist 10 0) (\<lambda>(linecount, bytecount).
            bind_cmd no_input (\<lambda>none.
              andthen
                (if none then
                   bind_cmd (check_arguments env ''head'' args) (\<lambda>pnames.
                     for_each (head_get_file_contents env linecount bytecount) pnames)
                 else bind_cmd the_input (\<lambda>b. write_bytes (head_application linecount bytecount b)))
                exit_cmd)))"

section \<open>cat\<close>

text \<open>The lines of a text, without the empty one after a final line feed.\<close>

definition data_lines :: "bytestr \<Rightarrow> bytestr list" where
  "data_lines b = (let ls = split_on nl b in if last ls = [] then butlast ls else ls)"

fun cat_output :: "bool \<Rightarrow> int \<Rightarrow> bytestr list \<Rightarrow> int cmd" where
  "cat_output number linenumber [] = ret linenumber"
| "cat_output number linenumber (line # ls) =
     andthen (unless_cmd (\<not> number) (write_str (rjust 6 (str_of_int linenumber) @ ''  '')))
       (andthen (write_bytes (line @ [nl])) (cat_output number (if number then linenumber + 1 else linenumber) ls))"

fun cat_files :: "cmd_env \<Rightarrow> bool \<Rightarrow> int \<Rightarrow> string list \<Rightarrow> int cmd" where
  "cat_files env number n [] = ret n"
| "cat_files env number n (arg # args) =
     (if arg = ''-'' then
        bind_cmd (gets c_input) (\<lambda>b.
        bind_cmd (case b of None \<Rightarrow> ret n | Some b \<Rightarrow> cat_output number n (data_lines b)) (\<lambda>n.
          cat_files env number n args))
      else
        bind_cmd (resolve arg) (\<lambda>pname.
        bind_cmd (is_dir_cmd env pname) (\<lambda>d.
          if d then andthen (error_write (''cat: '' @ arg @ '': Is a directory'' @ [nl])) (cat_files env number n args)
          else
            bind_cmd (catch_cmd (\<lambda>e. e = FileNotFound)
                (bind_cmd (contents_cmd env pname) (\<lambda>b. cat_output number n (data_lines b)))
                (\<lambda>_. andthen (error_write (''cat: '' @ arg @ '': No such file or directory'' @ [nl])) (ret n))) (\<lambda>n.
              cat_files env number n args))))"

text \<open>The result has the two attributes of the command. The test for the option is one of substrings.\<close>

fun cat_opts :: "opts \<Rightarrow> bool \<Rightarrow> bool option" where
  "cat_opts [] number = Some number"
| "cat_opts ((opt, _) # os) number =
     (if str_in opt ''--help'' then None else cat_opts os (if opt \<in> {''-n'', ''--number''} then True else number))"

definition cat :: "cmd_env \<Rightarrow> string list \<Rightarrow> (bool \<times> int) cmd" where
  "cat env args0 =
     (case gnu_getopt [] [] args0 ''AbeEnstTuv'' [''help'', ''number'', ''version''] of
        Inl (_, opt) \<Rightarrow>
          andthen (error_write (''cat: invalid option -- '' @ [squote] @ opt @ [squote, nl] @
              ''Try '' @ [squote] @ ''cat --help'' @ [squote] @ '' for more information.'' @ [nl]))
            (andthen exit_cmd (ret (False, 1)))
      | Inr (optlist, args) \<Rightarrow>
          (case cat_opts optlist False of
             None \<Rightarrow> andthen (write_str CAT_HELP) (andthen exit_cmd (ret (False, 1)))
           | Some number \<Rightarrow>
               if args \<noteq> [] then
                 bind_cmd (cat_files env number 1 args) (\<lambda>n. andthen exit_cmd (ret (number, n)))
               else bind_cmd (gets c_input) (\<lambda>b.
                 case b of
                   None \<Rightarrow> ret (number, 1)
                 | Some b \<Rightarrow> bind_cmd (cat_output number 1 (data_lines b)) (\<lambda>n. andthen exit_cmd (ret (number, n))))))"

definition cat_line_received :: "bool \<times> int \<Rightarrow> string \<Rightarrow> (bool \<times> int) cmd" where
  "cat_line_received st line =
     bind_cmd (cat_output (fst st) (snd st) (data_lines (utf8 line))) (\<lambda>n. ret (fst st, n))"

section \<open>wc\<close>

text \<open>White space of bytes, and \<open>re.sub(b" +", b" ", s)\<close>.\<close>

definition bytes_space :: "char \<Rightarrow> bool" where
  "bytes_space c \<longleftrightarrow> c = CHR '' '' \<or> (9 \<le> ord c \<and> ord c \<le> 13)"

fun squeeze_spaces :: "bytestr \<Rightarrow> bytestr" where
  "squeeze_spaces (c # d # s) =
     (if c = CHR '' '' \<and> d = CHR '' '' then squeeze_spaces (d # s) else c # squeeze_spaces (d # s))"
| "squeeze_spaces s = s"

fun wc_application :: "bytestr \<Rightarrow> opts \<Rightarrow> unit cmd" where
  "wc_application contents [] = ret ()"
| "wc_application contents ((opt, _) # optlist) =
     andthen
       (if opt = ''-l'' then write_str (str_of_int (int (length (split_on nl contents)) - 1) @ [nl])
        else if opt = ''-w'' then
          write_str (str_of_nat (length (split_on (CHR '' '')
            (squeeze_spaces (strip_by bytes_space (strip_by (\<lambda>c. c = nl) contents))))) @ [nl])
        else if opt = ''-m'' \<or> opt = ''-c'' then write_str (str_of_nat (length contents) @ [nl])
        else if opt = ''-v'' then write_str WC_VERSION
        else write_str WC_HELP)
       (wc_application contents optlist)"

definition wc_get_contents :: "cmd_env \<Rightarrow> string \<Rightarrow> opts \<Rightarrow> unit cmd" where
  "wc_get_contents env filename optlist =
     catch_cmd (\<lambda>_. True) (bind_cmd (contents_cmd env filename) (\<lambda>contents. wc_application contents optlist))
       (\<lambda>_. error_write (''wc: '' @ filename @ '': No such file or directory'' @ [nl]))"

text \<open>Whether an option shows the version or the help, and ends the command.\<close>

fun wc_shown :: "opts \<Rightarrow> string option" where
  "wc_shown [] = None"
| "wc_shown ((opt, _) # optlist) =
     (if opt = ''-v'' then Some WC_VERSION else if opt = ''-h'' then Some WC_HELP else wc_shown optlist)"

definition wc :: "cmd_env \<Rightarrow> string list \<Rightarrow> unit cmd" where
  "wc env args0 =
     (if args0 = [] then exit_cmd
      else if hd args0 = ''>'' then raise UnboundLocalError
      else case getopt [] args0 ''cmlLwhv'' [] of
          Inl (_, opt) \<Rightarrow>
            andthen (error_write (''wc: invalid option -- '' @ opt @ [nl])) (andthen (write_str WC_HELP) exit_cmd)
        | Inr (optlist, args) \<Rightarrow>
            (case wc_shown optlist of
               Some x \<Rightarrow> andthen (write_str x) exit_cmd
             | None \<Rightarrow>
                 bind_cmd no_input (\<lambda>none.
                   andthen
                     (if none then
                        bind_cmd (check_arguments env ''wc'' (tl args)) (\<lambda>pnames.
                          for_each (\<lambda>pname. wc_get_contents env pname optlist) pnames)
                      else bind_cmd the_input (\<lambda>b. wc_application b optlist))
                     exit_cmd)))"

section \<open>cut\<close>

text \<open>\<open>s.split(sep)\<close> for a separator that is not empty, and the slice \<open>xs[i:j]\<close>.\<close>

fun split_str_aux :: "nat \<Rightarrow> string \<Rightarrow> string \<Rightarrow> string \<Rightarrow> string list" where
  "split_str_aux k sep cur [] = [rev cur]"
| "split_str_aux (Suc k) sep cur (c # cs) = split_str_aux k sep cur cs"
| "split_str_aux 0 sep cur (c # cs) =
     (if prefix sep (c # cs) then rev cur # split_str_aux (length sep - 1) sep [] cs
      else split_str_aux 0 sep (c # cur) cs)"

definition split_str :: "string \<Rightarrow> string \<Rightarrow> string list" where
  "split_str sep s = split_str_aux 0 sep [] s"

definition slice_bound :: "nat \<Rightarrow> int \<Rightarrow> nat" where
  "slice_bound n i = nat (min (int n) (max 0 (if i < 0 then i + int n else i)))"

definition py_slice :: "int \<Rightarrow> int option \<Rightarrow> 'a list \<Rightarrow> 'a list" where
  "py_slice i j xs =
     (let a = slice_bound (length xs) i; b = (case j of None \<Rightarrow> length xs | Some j \<Rightarrow> slice_bound (length xs) j) in
      take (b - a) (drop a xs))"

type_synonym ranges = "(int \<times> int option) list"

definition parse_range :: "string \<Rightarrow> (int \<times> int option) option" where
  "parse_range part =
     (if CHR ''-'' \<in> set part then
        (let start_s = before_first (CHR ''-'') part; end_s = drop (length start_s + 1) part;
             a = (if start_s = [] then Some 0 else map_option (\<lambda>n. n - 1) (py_int start_s));
             b = (if end_s = [] then Some None else map_option Some (py_int end_s)) in
         Option.bind a (\<lambda>a. map_option (Pair a) b))
      else map_option (\<lambda>n. (n - 1, Some n)) (py_int part))"

fun parse_ranges :: "string list \<Rightarrow> ranges option" where
  "parse_ranges [] = Some []"
| "parse_ranges (p # ps) = Option.bind (parse_range p) (\<lambda>r. map_option (Cons r) (parse_ranges ps))"

definition parse_field_spec :: "string \<Rightarrow> ranges cmd" where
  "parse_field_spec spec =
     (case parse_ranges (split_on (CHR '','') spec) of None \<Rightarrow> raise ValueError | Some rs \<Rightarrow> ret rs)"

definition select_fields :: "ranges \<Rightarrow> string list \<Rightarrow> string list" where
  "select_fields field_indices xs = concat (map (\<lambda>(a, b). py_slice a b xs) field_indices)"

text \<open>The attributes of the command: delimiter, ranges, and whether lines without the delimiter are dropped.\<close>

type_synonym cut_state = "string \<times> ranges \<times> bool"

definition cut_line :: "cut_state \<Rightarrow> string \<Rightarrow> unit cmd" where
  "cut_line st line_str =
     (case st of (delimiter, field_indices, suppress) \<Rightarrow>
       if \<not> str_in delimiter line_str then unless_cmd suppress (write_str (line_str @ [nl]))
       else if delimiter = [] then raise ValueError
       else write_str (py_join delimiter (select_fields field_indices (split_str delimiter line_str)) @ [nl]))"

definition cut_process :: "(bytestr \<Rightarrow> string) \<Rightarrow> cut_state \<Rightarrow> bytestr \<Rightarrow> unit cmd" where
  "cut_process decode st b = for_each (\<lambda>line. cut_line st (decode line)) (data_lines b)"

text \<open>The options: the text to show before the end, or delimiter, specification and suppression.\<close>

definition cut_opt :: "string \<times> string \<Rightarrow> string \<times> string option \<times> bool \<Rightarrow> string + string \<times> string option \<times> bool" where
  "cut_opt o' st =
     (case (o', st) of ((opt, val), (delimiter, field_spec, suppress)) \<Rightarrow>
       if opt = ''--help'' then Inl CUT_HELP
       else if opt = ''--version'' then Inl (''cut (GNU coreutils) 8.30'' @ [nl])
       else if opt \<in> {''-d'', ''--delimiter''} then Inr (val, field_spec, suppress)
       else if opt \<in> {''-f'', ''--fields''} then Inr (delimiter, Some val, suppress)
       else if opt = ''-s'' then Inr (delimiter, field_spec, True)
       else if opt \<in> {''-b'', ''-c''} then Inr (delimiter, Some val, suppress)
       else Inr st)"

fun cut_opts :: "opts \<Rightarrow> string \<times> string option \<times> bool \<Rightarrow> string + string \<times> string option \<times> bool" where
  "cut_opts [] st = Inr st"
| "cut_opts (o' # os) st = (case cut_opt o' st of Inl x \<Rightarrow> Inl x | Inr st' \<Rightarrow> cut_opts os st')"

definition cut_hint :: string where
  "cut_hint = ''Try '' @ [squote] @ ''cut --help'' @ [squote] @ '' for more information.'' @ [nl]"

definition cut_file :: "cmd_env \<Rightarrow> (bytestr \<Rightarrow> string) \<Rightarrow> cut_state \<Rightarrow> string \<Rightarrow> unit cmd" where
  "cut_file env decode st arg =
     bind_cmd (resolve arg) (\<lambda>pname.
       catch_cmd (\<lambda>_. True) (bind_cmd (contents_cmd env pname) (cut_process decode st))
         (\<lambda>_. error_write (''cut: '' @ arg @ '': No such file or directory'' @ [nl])))"

definition cut :: "cmd_env \<Rightarrow> (bytestr \<Rightarrow> string) \<Rightarrow> string list \<Rightarrow> cut_state option cmd" where
  "cut env decode args0 =
     (case gnu_getopt [] [] args0 ''d:f:b:c:s'' [''help'', ''version'', ''delimiter='', ''fields=''] of
        Inl (_, opt) \<Rightarrow>
          andthen (error_write (''cut: invalid option -- '' @ [squote] @ opt @ [squote] @ [nl]))
            (andthen (error_write cut_hint) (andthen exit_cmd (ret None)))
      | Inr (optlist, args) \<Rightarrow>
          (case cut_opts optlist ([tab], None, False) of
             Inl x \<Rightarrow> andthen (write_str x) (andthen exit_cmd (ret None))
           | Inr (delimiter, None, suppress) \<Rightarrow>
               andthen (error_write (''cut: you must specify a list of bytes, characters, or fields'' @ [nl]))
                 (andthen (error_write cut_hint) (andthen exit_cmd (ret None)))
           | Inr (delimiter, Some field_spec, suppress) \<Rightarrow>
               bind_cmd (parse_field_spec field_spec) (\<lambda>field_indices.
               bind_cmd no_input (\<lambda>none.
                 let st = (delimiter, field_indices, suppress) in
                 if \<not> none then
                   bind_cmd the_input (\<lambda>b. andthen (cut_process decode st b) (andthen exit_cmd (ret (Some st))))
                 else if args \<noteq> [] then andthen (for_each (cut_file env decode st) args) (andthen exit_cmd (ret (Some st)))
                 else ret (Some st)))))"

section \<open>base64\<close>

text \<open>\<open>base64.b64encode\<close> and \<open>base64.b64decode\<close>; the decoder skips what is outside the alphabet, stops at enough padding,
  and refuses an incomplete group.\<close>

definition b64_alphabet :: string where
  "b64_alphabet = ''ABCDEFGHIJKLMNOPQRSTUVWXYZabcdefghijklmnopqrstuvwxyz0123456789+/''"

definition b64_char :: "nat \<Rightarrow> char" where
  "b64_char k = b64_alphabet ! k"

definition b64_value :: "char \<Rightarrow> nat option" where
  "b64_value c = first_index (\<lambda>x. x = c) b64_alphabet"

fun b64encode :: "bytestr \<Rightarrow> bytestr" where
  "b64encode [] = []"
| "b64encode [a] = [b64_char (ord a div 4), b64_char (ord a mod 4 * 16), CHR ''='', CHR ''='']"
| "b64encode [a, b] =
     [b64_char (ord a div 4), b64_char (ord a mod 4 * 16 + ord b div 16), b64_char (ord b mod 16 * 4), CHR ''='']"
| "b64encode (a # b # c # s) =
     [b64_char (ord a div 4), b64_char (ord a mod 4 * 16 + ord b div 16), b64_char (ord b mod 16 * 4 + ord c div 64),
      b64_char (ord c mod 64)] @ b64encode s"

fun a2b :: "nat \<Rightarrow> nat \<Rightarrow> nat \<Rightarrow> bytestr \<Rightarrow> bytestr option" where
  "a2b quad_pos leftchar pads [] = (if quad_pos \<noteq> 0 then None else Some [])"
| "a2b quad_pos leftchar pads (c # s) =
     (if c = CHR ''='' then
        (if quad_pos \<ge> 2 \<and> quad_pos + pads + 1 \<ge> 4 then Some []
         else a2b quad_pos leftchar (if quad_pos \<ge> 2 then pads + 1 else pads) s)
      else case b64_value c of
          None \<Rightarrow> a2b quad_pos leftchar pads s
        | Some v \<Rightarrow>
            if quad_pos = 0 then a2b 1 v 0 s
            else if quad_pos = 1 then map_option (Cons (char_of (leftchar * 4 + v div 16))) (a2b 2 (v mod 16) 0 s)
            else if quad_pos = 2 then map_option (Cons (char_of (leftchar * 16 + v div 4))) (a2b 3 (v mod 4) 0 s)
            else map_option (Cons (char_of (leftchar * 64 + v))) (a2b 0 0 0 s))"

definition b64decode :: "bytestr \<Rightarrow> bytestr option" where
  "b64decode s = a2b 0 0 0 s"

text \<open>The attributes are whether the mode is decoding, and whether other characters are dropped before.\<close>

type_synonym base64_state = "bool \<times> bool"

definition dojob :: "base64_state \<Rightarrow> bytestr \<Rightarrow> unit cmd" where
  "dojob st s =
     (let s = (if snd st then filter (\<lambda>c. c \<in> set (b64_alphabet @ ''='')) s else s) in
      if \<not> fst st then andthen (write_bytes (b64encode s)) (write_bytes [nl])
      else case b64decode s of
          None \<Rightarrow> error_write (''base64: invalid input'' @ [nl])
        | Some b \<Rightarrow> write_bytes b)"

definition base64_opt :: "string \<Rightarrow> base64_state \<Rightarrow> string + base64_state" where
  "base64_opt opt st =
     (if opt = ''--help'' then Inl BASE64_HELP
      else if opt = ''--version'' then Inl BASE64_VERSION
      else if opt = ''-d'' \<or> opt = ''--decode'' then Inr (True, snd st)
      else if opt = ''-i'' \<or> opt = ''--ignore-garbage'' then Inr (fst st, True)
      else Inr st)"

fun base64_opts :: "opts \<Rightarrow> base64_state \<Rightarrow> string + base64_state" where
  "base64_opts [] st = Inr st"
| "base64_opts (o' # os) st = (case base64_opt (fst o') st of Inl x \<Rightarrow> Inl x | Inr st' \<Rightarrow> base64_opts os st')"

definition base64 :: "cmd_env \<Rightarrow> string list \<Rightarrow> base64_state cmd" where
  "base64 env args0 =
     (case getopt [] args0 ''diw:'' [''version'', ''help'', ''decode'', ''ignore-garbage'', ''wrap=''] of
        Inl _ \<Rightarrow> andthen (error_write (''Unrecognized option'' @ [nl])) (andthen exit_cmd (ret (False, False)))
      | Inr (optlist, args) \<Rightarrow>
          (case base64_opts optlist (False, False) of
             Inl x \<Rightarrow> andthen (write_str x) (andthen exit_cmd (ret (False, False)))
           | Inr st \<Rightarrow>
               (case args of
                  [] \<Rightarrow>
                    bind_cmd no_input (\<lambda>none.
                      if none then ret st else bind_cmd the_input (\<lambda>b. andthen (dojob st b) (andthen exit_cmd (ret st))))
                | [arg] \<Rightarrow>
                    bind_cmd (resolve arg) (\<lambda>pname.
                    bind_cmd (is_dir_cmd env pname) (\<lambda>d.
                      andthen
                        (if \<not> d then
                           catch_cmd (\<lambda>_. True) (bind_cmd (contents_cmd env pname) (dojob st))
                             (\<lambda>_. error_write (''base64: '' @ arg @ '': No such file or directory'' @ [nl]))
                         else error_write (''base64: read error: Is a directory'' @ [nl]))
                        (andthen exit_cmd (ret st))))
                | arg # _ \<Rightarrow>
                    andthen (error_write (''base64: extra operand '' @ [squote] @ arg @ [squote, nl] @
                        ''Try '' @ [squote] @ ''base64 --help'' @ [squote] @ '' for more information.'' @ [nl]))
                      (andthen exit_cmd (ret st)))))"

section \<open>tee\<close>

text \<open>The attributes: the files, the bytes written so far, and whether interrupts are ignored. The decoder of UTF-8 may
  fail, with an error that is a \<open>ValueError\<close>.\<close>

type_synonym tee_state = "string list \<times> int \<times> bool"

definition tee_write :: "cmd_env \<Rightarrow> bytestr \<Rightarrow> tee_state \<Rightarrow> tee_state cmd" where
  "tee_write env data st =
     (case st of (teeFiles, writtenBytes, ii) \<Rightarrow>
       let n = writtenBytes + int (length data) in
       andthen (for_each (\<lambda>outf. on_fs (update_size (ce_depth env) outf n)) teeFiles) (ret (teeFiles, n, ii)))"

fun tee_lines :: "cmd_env \<Rightarrow> string list \<Rightarrow> tee_state \<Rightarrow> tee_state cmd" where
  "tee_lines env [] st = ret st"
| "tee_lines env (line # ls) st =
     andthen (write_str (line @ [nl])) (bind_cmd (tee_write env (utf8 line @ [nl]) st) (tee_lines env ls))"

definition tee_output :: "cmd_env \<Rightarrow> (bytestr \<Rightarrow> string option) \<Rightarrow> tee_state \<Rightarrow> bytestr \<Rightarrow> tee_state cmd" where
  "tee_output env decode st inb =
     (if inb = [] then ret st
      else case decode inb of
          None \<Rightarrow> raise ValueError
        | Some inp \<Rightarrow> tee_lines env (data_lines inp) st)"

fun tee_opts :: "opts \<Rightarrow> bool \<Rightarrow> bool option" where
  "tee_opts [] ii = Some ii"
| "tee_opts (o' # os) ii =
     (if str_in (fst o') ''--help'' then None
      else tee_opts os (if fst o' \<in> {''-a'', ''--append''} then ii else fst o' \<in> {''-a'', ''--ignore-interrupts''} \<or> ii))"

fun tee_open :: "cmd_env \<Rightarrow> string list \<Rightarrow> string list cmd" where
  "tee_open env [] = ret []"
| "tee_open env (arg # args) =
     bind_cmd (resolve arg) (\<lambda>pname.
     bind_cmd (is_dir_cmd env pname) (\<lambda>d.
       if d then andthen (error_write (''tee: '' @ arg @ '': Is a directory'' @ [nl])) (tee_open env args)
       else
         bind_cmd (resolve (py_dirname pname)) (\<lambda>fname.
         bind_cmd (is_dir_cmd env fname) (\<lambda>fd.
           if \<not> fd then andthen (error_write (''tee: '' @ arg @ '': No such file or directory'' @ [nl])) (tee_open env args)
           else
             bind_cmd (catch_cmd (\<lambda>e. e = FileNotFound)
                (andthen (on_fs (mkfile (ce_depth env) (ce_now env) pname (ce_uid env) (ce_gid env) 0 420)) (ret True))
                (\<lambda>_. andthen (error_write (''tee: '' @ arg @ '': No such file or directory'' @ [nl])) (ret False))) (\<lambda>ok.
             bind_cmd (tee_open env args) (\<lambda>fs. ret (if ok then pname # fs else fs)))))))"

definition tee :: "cmd_env \<Rightarrow> (bytestr \<Rightarrow> string option) \<Rightarrow> string list \<Rightarrow> tee_state cmd" where
  "tee env decode args0 =
     (case gnu_getopt [] [] args0 ''aip'' [''help'', ''append'', ''version''] of
        Inl (_, opt) \<Rightarrow>
          andthen (error_write (''tee: invalid option -- '' @ [squote] @ opt @ [squote, nl] @
              ''Try '' @ [squote] @ ''tee --help'' @ [squote] @ '' for more information.'' @ [nl]))
            (andthen exit_cmd (ret ([], 0, False)))
      | Inr (optlist, args) \<Rightarrow>
          (case tee_opts optlist False of
             None \<Rightarrow> andthen (write_str TEE_HELP) (andthen exit_cmd (ret ([], 0, False)))
           | Some ii \<Rightarrow>
               bind_cmd (tee_open env args) (\<lambda>teeFiles.
               bind_cmd no_input (\<lambda>none.
                 if none then ret (teeFiles, 0, ii)
                 else bind_cmd the_input (\<lambda>b.
                   bind_cmd (tee_output env decode (teeFiles, 0, ii) b) (\<lambda>st. andthen exit_cmd (ret st)))))))"

definition tee_ctrl_c :: "tee_state \<Rightarrow> unit cmd" where
  "tee_ctrl_c st = (if \<not> snd (snd st) then andthen (write_str (''^C'' @ [nl])) exit_cmd else ret ())"

section \<open>uniq\<close>

definition grep_input :: "bytestr \<Rightarrow> bytestr option \<Rightarrow> bytestr option cmd" where
  "grep_input line last_line =
     (if Some line \<noteq> last_line then andthen (write_bytes (line @ [nl])) (ret (Some line)) else ret last_line)"

fun uniq_lines :: "bytestr list \<Rightarrow> bytestr option \<Rightarrow> bytestr option cmd" where
  "uniq_lines [] last_line = ret last_line"
| "uniq_lines (line # ls) last_line = bind_cmd (grep_input line last_line) (uniq_lines ls)"

definition uniq :: "string list \<Rightarrow> bytestr option cmd" where
  "uniq args =
     (if ''--help'' \<in> set args then andthen (write_bytes UNIQ_HELP) (andthen exit_cmd (ret None))
      else bind_cmd no_input (\<lambda>none.
        if none then ret None
        else bind_cmd the_input (\<lambda>b. bind_cmd (uniq_lines (data_lines b) None) (\<lambda>l. andthen exit_cmd (ret l)))))"

end
