(* ===== verification/Shell_Text_Laws.thy ===== *)
theory Shell_Text_Laws
  imports Shell_Text_Commands Shell_Fs_Laws
begin

text \<open>
  What the commands on text do: the round trip of \<open>base64\<close>, \<open>cat\<close> and \<open>uniq\<close> against their specifications, the last
  lines that \<open>tail\<close> shows, and inputs on which a command departs from the program it imitates.
\<close>

section \<open>Lines\<close>

definition complete_line :: "bytestr \<Rightarrow> bytestr" where
  "complete_line b = (if b = [] \<or> last b = nl then b else b @ [nl])"

lemma join_lines: "ls \<noteq> [] \<Longrightarrow> text_lines ls = py_join [nl] ls @ [nl]"
  by (induction "[nl]" ls rule: py_join.induct) (auto simp: text_lines_def)

lemma split_on_single: "split_on c s = [[]] \<Longrightarrow> s = []"
  using py_join_split_on [of c s] by simp

lemma last_split_on: "last (split_on c s) = [] \<longleftrightarrow> s = [] \<or> last s = c"
proof (induction s)
  case (Cons x s)
  then show ?case by (cases "split_on c s") (auto dest: split_on_single)
qed simp

lemma py_join_snoc: "xs \<noteq> [] \<Longrightarrow> py_join sep (xs @ [y]) = py_join sep xs @ sep @ y"
  by (induction sep xs rule: py_join.induct) auto

lemma text_data_lines: "text_lines (data_lines b) = complete_line b"
proof (cases "last (split_on nl b) = []")
  case True
  define ls where "ls = butlast (split_on nl b)"
  have split: "split_on nl b = ls @ [[]]" using True unfolding ls_def by (metis append_butlast_last_id split_on_not_Nil)
  then have b: "b = py_join [nl] (ls @ [[]])" by (metis py_join_split_on)
  have "text_lines ls = b"
  proof (cases "ls = []")
    case True
    with b show ?thesis by (simp add: text_lines_def)
  next
    case False
    with b show ?thesis by (simp add: join_lines py_join_snoc)
  qed
  moreover have "b = [] \<or> last b = nl" using True by (simp add: last_split_on)
  ultimately show ?thesis using True split by (auto simp: data_lines_def complete_line_def)
next
  case False
  then have "text_lines (data_lines b) = py_join [nl] (split_on nl b) @ [nl]" by (simp add: data_lines_def join_lines)
  with False show ?thesis by (auto simp: py_join_split_on complete_line_def last_split_on)
qed

section \<open>cat\<close>

lemma cat_output_plain: "plain_out s \<Longrightarrow> cat_output False n ls s = (Inr n, put_lines ls s)"
  by (induction ls arbitrary: s) (simp_all add: unless_cmd_def ret_def andthen_def bind_cmd_def write_bytes_put)

definition readable :: "cmd_env \<Rightarrow> honey_fs \<Rightarrow> string \<Rightarrow> string \<Rightarrow> bytestr \<Rightarrow> bool" where
  "readable env fs cwd arg b \<longleftrightarrow>
     (case resolve_path (fs_home fs) arg cwd of
        Inl _ \<Rightarrow> False
      | Inr p \<Rightarrow> \<not> isdir (ce_depth env) fs p \<and> file_contents (ce_depth env) (ce_arch_data env) fs p = Inr b)"

lemma cat_file_plain:
  assumes "readable env (c_fs s) (c_cwd s) arg b" "arg \<noteq> ''-''" "plain_out s"
  shows "cat_files env False n (arg # args) s = cat_files env False n args (put_lines (data_lines b) s)"
proof -
  obtain p where "resolve_path (fs_home (c_fs s)) arg (c_cwd s) = Inr p" "\<not> isdir (ce_depth env) (c_fs s) p"
      "file_contents (ce_depth env) (ce_arch_data env) (c_fs s) p = Inr b"
    using assms(1) by (auto simp: readable_def split: sum.splits)
  with assms(2,3) show ?thesis
    by (simp add: resolve_def is_dir_cmd_def contents_cmd_def bind_cmd_def lift_result_def gets_def catch_cmd_def
        cat_output_plain)
qed

lemma cat_files_plain:
  assumes "list_all2 (readable env (c_fs s) (c_cwd s)) args bs" "\<forall>a\<in>set args. a \<noteq> ''-''" "plain_out s"
  shows "cat_files env False n args s = (Inr n, put_lines (concat (map data_lines bs)) s)"
  using assms
proof (induction args arbitrary: bs s)
  case (Cons arg args)
  then obtain b bs' where bs: "bs = b # bs'" "readable env (c_fs s) (c_cwd s) arg b"
      "list_all2 (readable env (c_fs s) (c_cwd s)) args bs'"
    by (auto simp: list_all2_Cons1)
  have "arg \<noteq> ''-''" using Cons.prems by simp
  then have "cat_files env False n (arg # args) s = cat_files env False n args (put_lines (data_lines b) s)"
    using Cons.prems(3) by (rule cat_file_plain [OF bs(2)])
  with Cons.IH [of "put_lines (data_lines b) s" bs'] Cons.prems bs show ?case by simp
qed (simp add: ret_def)

text \<open>\<open>cat\<close> of files that can be read writes the lines of all of them, in the order of the arguments, each completed
  by a line feed, reports nothing, and exits.
\<close>

lemma cat_exact:
  assumes "args \<noteq> []" "\<forall>a\<in>set args. \<not> startswith a ''-''" "list_all2 (readable env (c_fs s) (c_cwd s)) args bs"
    and "plain_out s" "c_running s"
  shows "cat env args s = (Inr (False, 1), (put_lines (concat (map data_lines bs)) s)\<lparr>c_running := False\<rparr>)"
proof -
  have "\<forall>a\<in>set args. a \<noteq> ''-''" using assms(2) by fastforce
  then have "cat_files env False 1 args s = (Inr 1, put_lines (concat (map data_lines bs)) s)"
    using assms(4) by (rule cat_files_plain [OF assms(3)])
  with assms(1,2,4,5) show ?thesis by (simp add: cat_def gnu_getopt_plain bind_cmd_def andthen_def exit_cmd_def ret_def)
qed

section \<open>uniq\<close>

lemma uniq_lines_eq:
  "plain_out s \<Longrightarrow> uniq_lines ls l s =
    (Inr (if ls = [] then l else Some (last ls)),
     put_lines (case l of None \<Rightarrow> remdups_adj ls | Some x \<Rightarrow> tl (remdups_adj (x # ls))) s)"
proof (induction ls arbitrary: l s)
  case Nil
  then show ?case by (cases l) (simp_all add: ret_def)
next
  case (Cons y ls)
  obtain r where "remdups_adj (y # ls) = y # r" by (metis list.collapse remdups_adj_Nil_iff hd_remdups_adj list.distinct(1) list.sel(1))
  with Cons show ?case by (cases l) (auto simp: grep_input_def bind_cmd_def andthen_def ret_def write_bytes_put)
qed

text \<open>\<open>uniq\<close> writes the lines of its input without the repetitions of neighbours, as the function of the library that
  removes adjacent duplicates.
\<close>

lemma uniq_remdups_adj:
  assumes "''--help'' \<notin> set args" "c_input s = Some b" "b \<noteq> []" "plain_out s" "c_running s"
  shows "uniq args s = (Inr (Some (last (data_lines b))), (put_lines (remdups_adj (data_lines b)) s)\<lparr>c_running := False\<rparr>)"
proof -
  have "data_lines b \<noteq> []"
    using assms(3) text_data_lines [of b] by (auto simp: complete_line_def text_lines_def split: if_splits)
  with assms show ?thesis
    by (simp add: uniq_def no_input_def the_input_def bind_cmd_def gets_def uniq_lines_eq andthen_def exit_cmd_def ret_def)
qed

section \<open>tail\<close>

lemma split_text_lines: "\<forall>l\<in>set ls. nl \<notin> set l \<Longrightarrow> split_on nl (text_lines ls) = ls @ [[]]"
  by (induction ls) (simp_all add: text_lines_def split_on_append)

lemma tail_last_lines:
  assumes "k \<le> length ls"
  shows "concat (map (\<lambda>i. (ls @ [[]]) ! (length ls - k + i) @ (if i < k then [nl] else [])) [0..<Suc k]) =
    text_lines (drop (length ls - k) ls)"
proof -
  have "map (\<lambda>i. (ls @ [[]]) ! (length ls - k + i) @ (if i < k then [nl] else [])) [0..<k] =
      map (\<lambda>l. l @ [nl]) (drop (length ls - k) ls)"
    using assms by (intro nth_equalityI) (auto simp: nth_append)
  with assms show ?thesis by (simp add: text_lines_def)
qed

lemma enumerate_map: "map f (enumerate 0 (map g [0..<k])) = map (\<lambda>i. f (i, g i)) [0..<k]"
  by (intro nth_equalityI) (simp_all add: nth_enumerate_eq)

lemma tail_application_lines:
  assumes "\<forall>l\<in>set ls. nl \<notin> set l" "0 \<le> n" "n \<noteq> int (length ls) + 1"
  shows "tail_application n (text_lines ls) =
    (text_lines (drop (length ls - nat n) ls), if n \<le> int (length ls) then n else int (length ls))"
proof -
  define k where "k = (if n \<le> int (length ls) then nat n else length ls)"
  have k: "k \<le> length ls" "length ls - k = length ls - nat n" using assms(2) by (auto simp: k_def)
  have n: "(if int (length (ls @ [[]])) < n then int (length (ls @ [[]])) - 1 else n) = int k"
    using assms(2,3) by (auto simp: k_def)
  have body: "(if int (length (ls @ [[]])) - int k - 1 + int i < 0 then last (ls @ [[]])
       else (ls @ [[]]) ! nat (int (length (ls @ [[]])) - int k - 1 + int i)) = (ls @ [[]]) ! (length ls - k + i)" for i
  proof -
    have "int (length (ls @ [[]])) - int k - 1 + int i = int (length ls - k + i)" using k(1) by simp
    then show ?thesis by (simp only: nat_int) simp
  qed
  have "nat (int k + 1) = Suc k" by simp
  then have "tail_application n (text_lines ls) =
      (concat (map (\<lambda>i. (ls @ [[]]) ! (length ls - k + i) @ (if i < k then [nl] else [])) [0..<Suc k]), int k)"
    unfolding tail_application_def Let_def split_text_lines [OF assms(1)] n
    by (simp only: enumerate_map prod.case body of_nat_less_iff)
  with tail_last_lines [OF k(1)] k(2) assms(2) show ?thesis by (auto simp: k_def)
qed

text \<open>On an input whose lines all end in a line feed, \<open>tail -n\<close> writes the last lines, as many as it is asked for, or
  all of them, except where the number is one more than that of the lines.
\<close>

lemma tail_exact:
  assumes "c_input s = Some (text_lines ls)" "ls \<noteq> []" "\<forall>l\<in>set ls. nl \<notin> set l" "is_digits v" "py_int v = Some n" "0 \<le> n"
    and "n \<noteq> int (length ls) + 1" "plain_out s" "c_running s"
  shows "tail_cmd env [''-n'', v] s = (Inr (), (put (text_lines (drop (length ls - nat n) ls)) s)\<lparr>c_running := False\<rparr>)"
proof -
  have opt: "getopt [] [''-n'', v] ''n:'' [] = Inr ([(''-n'', v)], [])" by simp
  have "text_lines ls \<noteq> []" using assms(2) by (cases ls) (simp_all add: text_lines_def)
  then have inp: "no_input s = (Inr False, s)" "the_input s = (Inr (text_lines ls), s)"
    using assms(1) by (simp_all add: no_input_def the_input_def gets_def)
  have opts: "tail_opts [(''-n'', v)] 10 s = (Inr n, s)" using assms(4,5) by (simp add: int_cmd_def cmd_defs)
  show ?thesis
    using assms(8,9) by (simp add: tail_cmd_def opt inp opts bind_cmd_def andthen_def write_bytes_put exit_cmd_def
      tail_application_lines [OF assms(3,6,7)] del: tail_opts.simps)
qed

section \<open>Round trip of base64\<close>

lemma first_index_nth: "distinct xs \<Longrightarrow> k < length xs \<Longrightarrow> first_index (\<lambda>x. x = xs ! k) xs = Some k"
proof (induction xs arbitrary: k)
  case (Cons a xs)
  then show ?case by (cases k) auto
qed simp

lemma distinct_b64_alphabet: "distinct b64_alphabet"
  by code_simp

lemma length_b64_alphabet: "length b64_alphabet = 64"
  by code_simp

lemma b64_value_char: "k < 64 \<Longrightarrow> b64_value (b64_char k) = Some k"
  unfolding b64_value_def b64_char_def
  by (rule first_index_nth) (simp_all add: distinct_b64_alphabet length_b64_alphabet)

lemma pad_not_in_alphabet: "CHR ''='' \<notin> set b64_alphabet"
  by code_simp

lemma b64_char_not_pad: "k < 64 \<Longrightarrow> b64_char k \<noteq> CHR ''=''"
  unfolding b64_char_def using pad_not_in_alphabet length_b64_alphabet nth_mem [of k b64_alphabet] by metis

text \<open>The decoder on one character of the alphabet.\<close>

lemma a2b_char:
  assumes "k < 64"
  shows "a2b 0 l p (b64_char k # s) = a2b 1 k 0 s"
    and "a2b (Suc 0) l p (b64_char k # s) = map_option (Cons (char_of (l * 4 + k div 16))) (a2b 2 (k mod 16) 0 s)"
    and "a2b 2 l p (b64_char k # s) = map_option (Cons (char_of (l * 16 + k div 4))) (a2b 3 (k mod 4) 0 s)"
    and "a2b 3 l p (b64_char k # s) = map_option (Cons (char_of (l * 64 + k))) (a2b 0 0 0 s)"
  using assms by (simp_all add: b64_value_char b64_char_not_pad)

lemma a2b_pad:
  "a2b 2 l 0 [CHR ''='', CHR ''=''] = Some []" "a2b 2 l 0 (CHR ''='' # CHR ''='' # s) = Some []"
  "a2b 3 l 0 (CHR ''='' # s) = Some []"
  by simp_all

lemma digit_split:
  fixes r y n :: nat
  assumes "y < n"
  shows "(r * n + y) div n = r" "(r * n + y) mod n = y"
  using assms by simp_all

lemma quad_values:
  "ord a div 4 < 64" "ord a mod 4 * 16 + ord b div 16 < 64" "ord b mod 16 * 4 + ord c div 64 < 64" "ord c mod 64 < 64"
  "ord a mod 4 * 16 < 64" "ord b mod 16 * 4 < 64"
  using nat_of_char_less_256 [of a] nat_of_char_less_256 [of b] nat_of_char_less_256 [of c] by linarith+

lemma quad_digits: "ord b div 16 < 16" "ord c div 64 < 4"
  using nat_of_char_less_256 [of b] nat_of_char_less_256 [of c] by linarith+

lemma quad_bytes:
  "ord a div 4 * 4 + (ord a mod 4 * 16 + ord b div 16) div 16 = ord a"
  "(ord a mod 4 * 16 + ord b div 16) mod 16 * 16 + (ord b mod 16 * 4 + ord c div 64) div 4 = ord b"
  "(ord b mod 16 * 4 + ord c div 64) mod 4 * 64 + ord c mod 64 = ord c"
  "ord a div 4 * 4 + (ord a mod 4 * 16) div 16 = ord a"
  "(ord a mod 4 * 16 + ord b div 16) mod 16 * 16 + (ord b mod 16 * 4) div 4 = ord b"
  by (simp_all only: digit_split [OF quad_digits(1)] digit_split [OF quad_digits(2)] div_mult_mod_eq
      nonzero_mult_div_cancel_right zero_neq_numeral numeral_neq_zero not_False_eq_True)

lemma quad_small: "ord b div 16 div 16 = 0" "ord b div 16 mod 16 = ord b div 16"
  "ord b div 64 div 4 = 0" "ord b div 64 mod 4 = ord b div 64"
  using quad_digits(1) [of b] quad_digits(2) [of b] by simp_all

lemma a2b_b64encode:
  assumes "set junk \<inter> set b64_alphabet = {}" "CHR ''='' \<notin> set junk"
  shows "a2b 0 0 0 (b64encode s @ junk) = Some s"
proof (induction s rule: b64encode.induct)
  case 1
  have "a2b 0 0 0 ys = Some []" if "set ys \<inter> set b64_alphabet = {}" "CHR ''='' \<notin> set ys" for ys
    using that
  proof (induction ys)
    case (Cons y ys)
    have "first_index (\<lambda>x. x = y) xs = None" if "y \<notin> set xs" for xs
      using that by (induction xs) auto
    with Cons show ?case by (simp add: b64_value_def)
  qed simp
  with assms show ?case by simp
next
  case (2 a)
  then show ?case
    by (simp add: a2b_char a2b_pad quad_values quad_bytes quad_small del: a2b.simps)
next
  case (3 a b)
  then show ?case
    by (simp add: a2b_char a2b_pad quad_values quad_bytes quad_small del: a2b.simps)
next
  case (4 a b c s)
  then show ?case
    by (simp add: a2b_char quad_values quad_bytes quad_small del: a2b.simps)
qed

text \<open>C16: What \<open>base64\<close> hands to the next command of a pipe, read there by \<open>base64 -d\<close>, gives the input back: both programs
  succeed and exit, and the second one writes the very bytes.
\<close>

theorem base64_roundtrip:
  assumes "b \<noteq> []" "c_input s = Some b" "c_running s"
    and "map_of (targets (c_pipe s)) 1 = Some FD_PIPE" "has_next (c_pipe s)" "next_input (c_pipe s) = None"
    and "c_input s' = next_input (c_pipe (snd (base64 env [] s)))" "plain_out s'" "c_running s'"
  shows "base64 env [''-d''] s' = (Inr (True, False), (put b s')\<lparr>c_running := False\<rparr>)"
proof -
  have po: "plain_out s" using assms(4) by (simp add: plain_out_def)
  have opt: "base64 env [] s = (andthen (dojob (False, False) b) (andthen exit_cmd (ret (False, False)))) s"
    using assms(1,2) by (simp add: base64_def no_input_def the_input_def bind_cmd_def gets_def)
  have "dojob (False, False) b s = (Inr (), put (b64encode b @ [nl]) s)"
    using po by (simp add: dojob_def andthen_def bind_cmd_def write_bytes_put put_put)
  then have "base64 env [] s = (Inr (False, False), (put (b64encode b @ [nl]) s)\<lparr>c_running := False\<rparr>)"
    using assms(3) po by (simp add: opt andthen_def bind_cmd_def exit_cmd_def ret_def)
  then have inp: "c_input s' = Some (b64encode b @ [nl])"
    using assms(4,5,6,7) by (simp add: put_pipe pipe_to_next_def)
  have dec: "b64decode (b64encode b @ [nl]) = Some b"
    unfolding b64decode_def by (rule a2b_b64encode) (simp_all add: b64_alphabet_def)
  have "getopt [] [''-d''] ''diw:'' [''version'', ''help'', ''decode'', ''ignore-garbage'', ''wrap=''] = Inr ([(''-d'', [])], [])"
    by simp
  then show ?thesis
    using inp dec assms(8,9)
    by (simp add: base64_def base64_opt_def dojob_def no_input_def the_input_def bind_cmd_def andthen_def gets_def
        write_bytes_put exit_cmd_def ret_def)
qed

section \<open>Examples\<close>

definition example_env :: cmd_env where
  "example_env = \<lparr>ce_depth = 3, ce_now = 7, ce_uid = 0, ce_gid = 0, ce_user = ''root'', ce_home = ''/root'',
     ce_environ = [(''PATH'', ''/bin'')], ce_arch_data = (\<lambda>_. [])\<rparr>"

definition example_shell :: shell_env where
  "example_shell = \<lparr>env_depth = 3, env_now = 7, env_cwd = ''/tmp'', env_uid = 0, env_gid = 0, env_prefix = ''t-1'',
     download_path = ''dl'', contents_path = ''honeyfs'', arch_data = (\<lambda>_. [])\<rparr>"

text \<open>A command with an input, whose output goes to the terminal or to a next command.\<close>

definition example_state :: "bytestr option \<Rightarrow> bool \<Rightarrow> cmd_state" where
  "example_state b nxt =
     \<lparr>c_pipe = snd (PipeProtocol example_shell b nxt None False [] example_fs []),
      c_shell = example_shell, c_cwd = ''/tmp'', c_running = True\<rparr>"

lemma example_pipe:
  "c_pipe (example_state b nxt) =
     \<lparr>pp_input = b, has_next = nxt, next_input = None, redirected_data = [], err_data = [], pp_redirect = False,
      redirections = [], targets = [(0, FD_STDIN), (1, if nxt then FD_PIPE else FD_TERMINAL), (2, FD_TERMINAL)],
      redirection_error = False, redirect_real_files = [], stdout_written = 0, stderr_written = 0, pp_fs = example_fs,
      terminal = []\<rparr>"
  by (simp add: example_state_def PipeProtocol_def setup_redirections_def default_targets_def)

lemma example_fields [simp]:
  "c_cwd (example_state b nxt) = ''/tmp''" "c_running (example_state b nxt)" "c_shell (example_state b nxt) = example_shell"
  "plain_out (example_state b nxt)"
  by (simp_all add: plain_out_def example_pipe) (simp_all add: example_state_def)

theorem base64_roundtrip_witness:
  "base64 example_env [''-d''] (example_state (Some (''aGk='' @ [nl])) False) =
    (Inr (True, False), (put ''hi'' (example_state (Some (''aGk='' @ [nl])) False))\<lparr>c_running := False\<rparr>)"
proof -
  have "next_input (c_pipe (snd (base64 example_env [] (example_state (Some ''hi'') True)))) = Some (''aGk='' @ [nl])"
    by code_simp
  then show ?thesis
    using base64_roundtrip [of "''hi''" "example_state (Some ''hi'') True" "example_state (Some (''aGk='' @ [nl])) False" example_env]
    by (simp add: example_pipe)
qed

lemma example_readable:
  "readable example_env example_fs ''/tmp'' ''/etc/passwd'' ''root''"
  by code_simp


section \<open>Where the commands depart from what they imitate\<close>

text \<open>Asked for one line more than there are, \<open>tail\<close> begins with an empty line.\<close>

lemma tail_leading_blank: "fst (tail_application 3 (text_lines [''a'', ''b''])) = [nl] @ text_lines [''a'', ''b'']"
  by code_simp

text \<open>\<open>head\<close> shows an empty line after the last one.\<close>

lemma head_trailing_blank: "head_application 10 0 (text_lines [''a'']) = text_lines [''a'', []]"
  by code_simp

text \<open>\<open>wc\<close> of one file shows nothing: the first argument that is no option is dropped.\<close>

lemma wc_drops_file:
  "wc example_env [''-l'', ''/etc/passwd''] (example_state None False) =
    (Inr (), (example_state None False)\<lparr>c_running := False\<rparr>)"
  by (simp add: wc_def no_input_def example_pipe cmd_defs)

text \<open>\<open>tee -i\<close> never sets the attribute that makes it ignore interrupts, because the long option is compared after the
  wrong letter.\<close>

lemma tee_ignores_option: "tee_opts [(''-i'', [])] False = Some False"
  by code_simp

text \<open>\<open>tee -a\<close> empties the file it is to append to.\<close>

lemma tee_append_truncates:
  fixes decode :: "bytestr \<Rightarrow> string option"
  shows "file_contents 3 (\<lambda>_. []) (c_fs (snd (tee example_env decode [''-a'', ''/etc/passwd''] (example_state None False)))) ''/etc/passwd'' = Inr []"
  by code_simp

text \<open>\<open>grep\<close> searches only the part of its pattern after the last slash.\<close>

lemma grep_pattern_basename:
  "terminal (c_pipe (snd (grep_application (\<lambda>p. Some (\<lambda>l. str_in p l)) ''xb'' ''a/b'' (example_state None False)))) = ''xb'' @ [nl]"
  by code_simp

text \<open>A specification of fields that is no number ends \<open>cut\<close> with an exception.\<close>

lemma cut_bad_list: "cut_opts [(''-f'', ''x'')] ([tab], None, False) = Inr ([tab], Some ''x'', False)" "parse_range ''x'' = None"
  by code_simp+

text \<open>\<open>tail\<close> and \<open>head\<close> without arguments neither show their input nor exit.\<close>

lemma tail_without_arguments: "tail_cmd env [] s = (Inr (), s)" "head_cmd env [] s = (Inr (), s)"
  by (simp_all add: tail_cmd_def head_cmd_def ret_def)

end
