(* ===== verification/Shell_Fs_Commands.thy ===== *)
theory Shell_Fs_Commands
  imports Shell_Command Shell_Texts Py_Regex
begin

text \<open>
  The emulated commands that change the file system or the working directory (\<open>src/src/cowrie/commands/fs.py\<close> and
  \<open>chmod.py\<close>). A copied entry is a value; a moved one is first renamed where it is, then entered in its new directory,
  then removed from the old one.
\<close>

abbreviation quoted :: "string \<Rightarrow> string" where "quoted f \<equiv> [bquote] @ f @ [squote]"

section \<open>cd and pwd\<close>

definition cd_call :: "cmd_env \<Rightarrow> string list \<Rightarrow> unit cmd" where
  "cd_call env args =
     (let pname = (if args = [] \<or> hd args = ''~'' then ce_home env else hd args) in
      bind_cmd (catch_cmd (\<lambda>_. True)
          (bind_cmd (resolve pname) (\<lambda>newpath. bind_cmd (found_cmd env newpath) (\<lambda>r. ret (map_option (\<lambda>(_, e). (newpath, e)) r))))
          (\<lambda>_. ret None)) (\<lambda>inode.
        if pname = ''-'' then error_write (''bash: cd: OLDPWD not set'' @ [nl])
        else case inode of
            None \<Rightarrow> error_write (''bash: cd: '' @ pname @ '': No such file or directory'' @ [nl])
          | Some (newpath, e) \<Rightarrow>
              if e_type e \<noteq> T_DIR then error_write (''bash: cd: '' @ pname @ '': Not a directory'' @ [nl])
              else (\<lambda>s. (Inr (), s\<lparr>c_cwd := newpath\<rparr>))))"

definition pwd_call :: "unit cmd" where
  "pwd_call = bind_cmd (gets c_cwd) (\<lambda>cwd. write_str (cwd @ [nl]))"

section \<open>rm\<close>

definition param_error :: "unit cmd" where
  "param_error = error_write (''Try '' @ [squote] @ ''rm --help'' @ [squote] @ '' for more information'' @ [nl])"

text \<open>The children of a directory, and a change of them in place.\<close>

definition children_cmd :: "loc \<Rightarrow> entry list cmd" where
  "children_cmd l = lift_result (\<lambda>s.
     case map_option e_contents (entry_at (fs_tree (c_fs s)) l) of
       Some (Children xs) \<Rightarrow> Inr xs
     | Some (Bytes b) \<Rightarrow> if b = [] then Inr [] else Inl TypeError
     | None \<Rightarrow> Inl FileNotFound)"

definition alter_children :: "loc \<Rightarrow> (entry list \<Rightarrow> entry list result) \<Rightarrow> unit cmd" where
  "alter_children l f = on_fs (\<lambda>s.
     case map_option e_contents (entry_at (fs_tree s) l) of
       Some (Children xs) \<Rightarrow> (case f xs of Inl e \<Rightarrow> (Inl e, s) | Inr ys \<Rightarrow> (Inr (), change_at (set_contents (Children ys)) l s))
     | _ \<Rightarrow> (Inl AttributeError, s))"

definition rm_entry :: "loc \<Rightarrow> string \<Rightarrow> bool \<Rightarrow> bool \<Rightarrow> entry \<Rightarrow> unit cmd" where
  "rm_entry l basename recursive verbose i =
     (if e_name i \<noteq> basename then ret ()
      else if e_type i = T_DIR \<and> \<not> recursive then
        error_write (''rm: cannot remove '' @ quoted (e_name i) @ '': Is a directory'' @ [nl])
      else andthen (alter_children l (list_remove i))
        (if \<not> verbose then ret ()
         else if e_type i = T_DIR then write_str (''removed directory '' @ [squote] @ e_name i @ [squote, nl])
         else write_str (''removed '' @ [squote] @ e_name i @ [squote, nl])))"

definition rm_file :: "cmd_env \<Rightarrow> bool \<Rightarrow> bool \<Rightarrow> bool \<Rightarrow> string \<Rightarrow> unit cmd" where
  "rm_file env recursive force verbose f =
     bind_cmd (resolve f) (\<lambda>pname.
     bind_cmd (catch_cmd (\<lambda>e. e \<in> {IndexError, FileNotFound})
         (bind_cmd (dir_cmd env (py_join [slash] (butlast (split_on slash pname)))) (\<lambda>l.
            andthen (dir_cmd env pname) (ret (Some l))))
         (\<lambda>_. andthen (unless_cmd force (error_write (''rm: cannot remove '' @ quoted f @ '': No such file or directory'' @ [nl])))
            (ret None))) (\<lambda>directory.
       case directory of
         None \<Rightarrow> ret ()
       | Some l \<Rightarrow> bind_cmd (children_cmd l) (for_each (rm_entry l (last (split_on slash pname)) recursive verbose))))"

text \<open>The options: recursive, force and verbose, or the help.\<close>

definition rm_opt :: "string \<Rightarrow> bool \<times> bool \<times> bool \<Rightarrow> (bool \<times> bool \<times> bool) option" where
  "rm_opt opt st =
     (case st of (recursive, force, verbose) \<Rightarrow>
       if opt \<in> {''--recursive'', ''-r'', ''-R''} then Some (True, force, verbose)
       else if opt \<in> {''--force'', ''-f''} then Some (recursive, True, verbose)
       else if opt \<in> {''--verbose'', ''-v''} then Some (recursive, force, True)
       else if opt \<in> {''--help'', ''-h''} then None
       else Some st)"

fun rm_opts :: "opts \<Rightarrow> bool \<times> bool \<times> bool \<Rightarrow> (bool \<times> bool \<times> bool) option" where
  "rm_opts [] st = Some st"
| "rm_opts (o' # os) st = Option.bind (rm_opt (fst o') st) (rm_opts os)"

definition rm_call :: "cmd_env \<Rightarrow> string list \<Rightarrow> unit cmd" where
  "rm_call env args0 =
     (if args0 = [] then andthen (error_write (''rm: missing operand'' @ [nl])) param_error
      else case gnu_getopt [] [] args0 ''rTfvh'' [''help'', ''recursive'', ''force'', ''verbose''] of
          Inl (_, opt) \<Rightarrow>
            andthen (error_write (''rm: invalid option -- '' @ [squote] @ opt @ [squote, nl])) (andthen param_error exit_cmd)
        | Inr (optlist, args) \<Rightarrow>
            (case rm_opts optlist (False, False, False) of
               None \<Rightarrow> write_str RM_HELP
             | Some (recursive, force, verbose) \<Rightarrow> for_each (rm_file env recursive force verbose) args))"

section \<open>cp and mv\<close>

text \<open>What both do before the first source: the messages, and whether the destination is a directory.\<close>

definition usage_hint :: "string \<Rightarrow> unit cmd" where
  "usage_hint name = error_write (''Try '' @ [bquote] @ name @ '' --help'' @ [squote] @ '' for more information.'' @ [nl])"

definition target_check ::
  "cmd_env \<Rightarrow> string \<Rightarrow> (nat \<Rightarrow> bool) \<Rightarrow> string list \<Rightarrow> string list \<Rightarrow> (string list \<times> string \<times> bool) option cmd"
where
  "target_check env name slash_refused args0 args =
     (if length args < 2 then
        andthen (error_write (name @ '': missing destination file operand after '' @ quoted (hd args0) @ [nl]))
          (andthen (usage_hint name) (ret None))
      else let sources = butlast args; dest = last args in
        bind_cmd (if length sources > 1 then bind_cmd (resolve dest) (\<lambda>d. bind_cmd (is_dir_cmd env d) (\<lambda>b. ret (\<not> b)))
                  else ret False) (\<lambda>many.
          if many then
            andthen (error_write (name @ '': target '' @ quoted dest @ '' is not a directory'' @ [nl])) (ret None)
          else if dest = [] then raise IndexError
          else
            bind_cmd (if last dest = slash
                      then bind_cmd (resolve dest) (\<lambda>d. bind_cmd (exists_cmd env d) (\<lambda>b. ret (\<not> b \<and> slash_refused (length sources))))
                      else ret False) (\<lambda>refused.
              if refused then
                andthen (error_write (name @ '': cannot create regular file '' @ quoted dest @ '': Is a directory'' @ [nl])) (ret None)
              else
                bind_cmd (resolve dest) (\<lambda>d.
                bind_cmd (is_dir_cmd env d) (\<lambda>b.
                  if b then ret (Some (sources, dest, True))
                  else
                    bind_cmd (exists_cmd env (py_dirname d)) (\<lambda>parent.
                      if \<not> parent then
                        andthen (error_write (name @ '': cannot create regular file '' @ quoted dest @ '': No such file or directory'' @ [nl]))
                          (ret None)
                      else ret (Some (sources, dest, False))))))))"

definition cp_entry :: "loc \<Rightarrow> string \<Rightarrow> entry \<Rightarrow> unit cmd" where
  "cp_entry l outfile e =
     andthen (children_cmd l)
       (alter_children l (\<lambda>xs. Inr (remove_named outfile xs @ [set_name outfile e])))"

definition cp_source :: "cmd_env \<Rightarrow> bool \<Rightarrow> string \<Rightarrow> bool \<Rightarrow> string \<Rightarrow> unit cmd" where
  "cp_source env recursive dest isd src =
     bind_cmd (resolve src) (\<lambda>p.
     bind_cmd (exists_cmd env p) (\<lambda>there.
       if \<not> there then error_write (''cp: cannot stat '' @ quoted src @ '': No such file or directory'' @ [nl])
       else
         bind_cmd (is_dir_cmd env p) (\<lambda>d.
           if \<not> recursive \<and> d then error_write (''cp: omitting directory '' @ quoted src @ [nl])
           else
             bind_cmd (found_cmd env p) (\<lambda>r.
             bind_cmd (resolve dest) (\<lambda>dp.
             bind_cmd (dir_cmd env (if isd then dp else py_dirname dp)) (\<lambda>l.
               case r of
                 None \<Rightarrow> raise TypeError
               | Some (_, e) \<Rightarrow>
                   cp_entry l (if isd then py_basename src else py_basename (rstrip_by (\<lambda>c. c = slash) dest)) e))))))"

definition cp_call :: "cmd_env \<Rightarrow> string list \<Rightarrow> unit cmd" where
  "cp_call env args0 =
     (if args0 = [] then andthen (error_write (''cp: missing file operand'' @ [nl])) (usage_hint ''cp'')
      else case gnu_getopt [] [] args0 ''-abdfiHlLPpRrsStTuvx'' [] of
          Inl _ \<Rightarrow> error_write (''Unrecognized option'' @ [nl])
        | Inr (optlist, args) \<Rightarrow>
            let recursive = list_ex (\<lambda>o'. fst o' \<in> {''-r'', ''-a'', ''-R''}) optlist in
            bind_cmd (target_check env ''cp'' (\<lambda>_. \<not> recursive) args0 args) (\<lambda>t.
              case t of
                None \<Rightarrow> ret ()
              | Some (sources, dest, isd) \<Rightarrow> for_each (cp_source env recursive dest isd) sources))"

text \<open>The moved object is found again by its identity or by equality.\<close>

definition mv_append :: "loc \<Rightarrow> loc \<Rightarrow> string \<Rightarrow> honey_fs \<Rightarrow> (entry \<times> entry) result \<times> honey_fs" where
  "mv_append l dl outfile s =
     (let s1 = change_at (set_name outfile) l s in
      case (entry_at (fs_tree s1) l, map_option e_contents (entry_at (fs_tree s1) dl)) of
        (Some e, Some (Children xs)) \<Rightarrow>
          (let s2 = change_at (set_contents (Children (xs @ [e]))) dl s1 in
           (case entry_at (fs_tree s2) l of None \<Rightarrow> (Inl TypeError, s2) | Some e' \<Rightarrow> (Inr (e, e'), s2)))
      | _ \<Rightarrow> (Inl AttributeError, s1))"

definition mv_source :: "cmd_env \<Rightarrow> string \<Rightarrow> bool \<Rightarrow> string \<Rightarrow> unit cmd" where
  "mv_source env dest isd src =
     bind_cmd (resolve src) (\<lambda>p.
     bind_cmd (exists_cmd env p) (\<lambda>there.
       if \<not> there then error_write (''mv: cannot stat '' @ quoted src @ '': No such file or directory'' @ [nl])
       else
         bind_cmd (found_cmd env p) (\<lambda>r.
         bind_cmd (resolve dest) (\<lambda>dp.
         bind_cmd (dir_cmd env (if isd then dp else py_dirname dp)) (\<lambda>dl.
           case r of
             None \<Rightarrow> raise TypeError
           | Some (l, _) \<Rightarrow>
               bind_cmd (on_fs (mv_append l dl (py_basename (if isd then src else dest)))) (\<lambda>(e, e').
               bind_cmd (dir_cmd env (py_dirname p)) (\<lambda>sdir.
                 alter_children sdir (\<lambda>xs.
                   case first_index (\<lambda>x. x = e \<or> x = e') xs of
                     None \<Rightarrow> Inl ValueError
                   | Some i \<Rightarrow> Inr (take i xs @ drop (Suc i) xs)))))))))"

definition mv_call :: "cmd_env \<Rightarrow> string list \<Rightarrow> unit cmd" where
  "mv_call env args0 =
     (if args0 = [] then andthen (error_write (''mv: missing file operand'' @ [nl])) (usage_hint ''mv'')
      else case gnu_getopt [] [] args0 ''-bfiStTuv'' [] of
          Inl _ \<Rightarrow> error_write (''Unrecognized option'' @ [nl])
        | Inr (_, args) \<Rightarrow>
            bind_cmd (target_check env ''mv'' (\<lambda>n. n \<noteq> 1) args0 args) (\<lambda>t.
              case t of
                None \<Rightarrow> ret ()
              | Some (sources, dest, isd) \<Rightarrow> for_each (mv_source env dest isd) sources))"

section \<open>mkdir, rmdir and touch\<close>

text \<open>Only the first argument of \<open>mkdir\<close> is looked at.\<close>

definition mkdir_call :: "cmd_env \<Rightarrow> string list \<Rightarrow> unit cmd" where
  "mkdir_call env args =
     (case args of
        [] \<Rightarrow> ret ()
      | f # _ \<Rightarrow>
          bind_cmd (resolve f) (\<lambda>pname.
          bind_cmd (exists_cmd env pname) (\<lambda>there.
            if there then error_write (''mkdir: cannot create directory '' @ quoted f @ '': File exists'' @ [nl])
            else catch_cmd (\<lambda>e. e = FileNotFound)
              (on_fs (mkdir (ce_depth env) (ce_now env) pname (ce_uid env) (ce_gid env) 4096 16877))
              (\<lambda>_. error_write (''mkdir: cannot create directory '' @ quoted f @ '': No such file or directory'' @ [nl])))))"

text \<open>Whether the next argument is looked at.\<close>

definition rmdir_found :: "loc \<Rightarrow> string \<Rightarrow> string \<Rightarrow> entry list \<Rightarrow> bool cmd" where
  "rmdir_found l f fname xs =
     (case find (\<lambda>i. e_name i = fname) xs of
        None \<Rightarrow> andthen (error_write (''rmdir: failed to remove '' @ quoted f @ '': No such file or directory'' @ [nl])) (ret True)
      | Some i \<Rightarrow>
          if e_type i \<noteq> T_DIR then
            andthen (error_write (''rmdir: failed to remove '' @ [squote] @ f @ [squote] @ '': Not a directory'' @ [nl])) (ret False)
          else andthen (alter_children l (list_remove i)) (ret True))"

definition rmdir_file :: "cmd_env \<Rightarrow> string \<Rightarrow> bool cmd" where
  "rmdir_file env f =
     bind_cmd (resolve f) (\<lambda>pname.
     bind_cmd (catch_cmd (\<lambda>e. e \<in> {IndexError, FileNotFound})
         (bind_cmd (lift_result (\<lambda>s. dir_length (ce_depth env) pname (c_fs s))) (\<lambda>n.
            if n > 0 then ret (Inl ())
            else bind_cmd (dir_cmd env (py_join [slash] (butlast (split_on slash pname)))) (\<lambda>l. ret (Inr (Some l)))))
         (\<lambda>_. ret (Inr None))) (\<lambda>r.
       case r of
         Inl () \<Rightarrow> andthen (error_write (''rmdir: failed to remove '' @ quoted f @ '': Directory not empty'' @ [nl])) (ret True)
       | Inr None \<Rightarrow> rmdir_found [] f (py_basename f) []
       | Inr (Some l) \<Rightarrow> bind_cmd (children_cmd l) (rmdir_found l f (py_basename f))))"

definition rmdir_call :: "cmd_env \<Rightarrow> string list \<Rightarrow> unit cmd" where
  "rmdir_call env args = andthen (loop_while (rmdir_file env) args) (ret ())"

definition touch_file :: "cmd_env \<Rightarrow> string \<Rightarrow> bool cmd" where
  "touch_file env f =
     bind_cmd (resolve f) (\<lambda>pname.
     bind_cmd (exists_cmd env (py_dirname pname)) (\<lambda>parent.
       if \<not> parent then
         andthen (error_write (''touch: cannot touch '' @ [bquote] @ pname @ [bquote] @ '': No such file or directory'' @ [nl])) (ret False)
       else bind_cmd (exists_cmd env pname) (\<lambda>there.
         if there then ret True
         else if list_ex (\<lambda>p. startswith pname p) SPECIAL_PATHS then
           andthen (error_write (''touch: cannot touch '' @ [bquote] @ pname @ [bquote] @ '': Permission denied'' @ [nl])) (ret False)
         else andthen (on_fs (mkfile (ce_depth env) (ce_now env) pname (ce_uid env) (ce_gid env) 0 33188)) (ret True))))"

definition touch_call :: "cmd_env \<Rightarrow> string list \<Rightarrow> unit cmd" where
  "touch_call env args =
     (if args = [] then andthen (error_write (''touch: missing file operand'' @ [nl])) (usage_hint ''touch'')
      else andthen (loop_while (touch_file env) args) (ret ()))"

section \<open>chmod\<close>

text \<open>The quotes around a mode are two characters that take three bytes each.\<close>

definition curly :: "string \<Rightarrow> bytestr" where
  "curly mode = [CHR 0xE2, CHR 0x80, CHR 0x98] @ utf8 mode @ [CHR 0xE2, CHR 0x80, CHR 0x99]"

definition TRY_CHMOD_HELP_MSG :: string where
  "TRY_CHMOD_HELP_MSG = ''Try '' @ [squote] @ ''chmod --help'' @ [squote] @ '' for more information.'' @ [nl]"

definition one_of :: "string \<Rightarrow> regex" where "one_of cs = RCls (\<lambda>c. c \<in> set cs)"

definition MODE_REGEX :: regex where
  "MODE_REGEX =
     RAlt (rseq [RBos, RStar (one_of ''ugoa''),
             rplus (RGroup 1 (RSeq (one_of ''-+='') (RGroup 2 (RAlt (RStar (one_of ''rwxXst'')) (one_of ''ugo'')))))])
       (rseq [ropt (one_of ''-+=''), rplus (one_of ''01234567''), REos])"

definition mode_ok :: "string \<Rightarrow> bool" where
  "mode_ok mode \<longleftrightarrow> re_fullmatch MODE_REGEX mode \<noteq> None"

text \<open>\<open>int(mode, 8)\<close> on a text without blanks, underscores and prefix.\<close>

definition int_octal :: "string \<Rightarrow> int option" where
  "int_octal s =
     (let ds = (if s \<noteq> [] \<and> hd s \<in> {CHR ''-'', CHR ''+''} then tl s else s) in
      if ds \<noteq> [] \<and> list_all (\<lambda>c. c \<in> set ''01234567'') ds
      then (let n = fold (\<lambda>c n. 8 * n + int (digit_val c)) ds 0 in Some (if hd s = CHR ''-'' then - n else n))
      else None)"

text \<open>The first argument that looks like a mode with a sign is taken out before the options are read. The result has the
  options, the mode and the files.\<close>

fun take_mode :: "string option \<Rightarrow> string list \<Rightarrow> string option \<times> string list" where
  "take_mode mode [] = (mode, [])"
| "take_mode mode (arg # args) =
     (if (mode = None \<or> mode = Some []) \<and> startswith arg ''-'' \<and> mode_ok arg then take_mode (Some arg) args
      else case take_mode mode args of (m, rest) \<Rightarrow> (m, arg # rest))"

definition CHMOD_LONG :: "string list" where
  "CHMOD_LONG = [''changes'', ''silent'', ''quiet'', ''verbose'', ''no-preserve-root'', ''preserve-root'', ''reference='',
     ''recursive'', ''help'', ''version'']"

definition chmod_parse_args :: "string list \<Rightarrow> (opts \<times> string option \<times> string list) option cmd" where
  "chmod_parse_args args0 =
     (case take_mode None args0 of (mode, args_new) \<Rightarrow>
       (case gnu_getopt [] [] args_new ''cfvR'' CHMOD_LONG of
          Inl (long, opt) \<Rightarrow>
            andthen (error_write ((if long then ''chmod: unrecognized option '' @ [squote] @ ''--'' else ''chmod: invalid option -- '' @ [squote])
                @ opt @ [squote, nl] @ TRY_CHMOD_HELP_MSG))
              (ret None)
        | Inr (os, args) \<Rightarrow>
            ret (Some (if mode = None \<and> args \<noteq> [] then (os, Some (hd args), tl args) else (os, mode, args)))))"

fun chmod_shown :: "opts \<Rightarrow> string option" where
  "chmod_shown [] = None"
| "chmod_shown (o' # os) =
     (if fst o' = ''--help'' then Some CHMOD_HELP else if fst o' = ''--version'' then Some CHMOD_VERSION else chmod_shown os)"

definition NO_PERM_BITS_MASK :: int where "NO_PERM_BITS_MASK = 0"

definition chmod_file :: "cmd_env \<Rightarrow> string \<Rightarrow> string \<Rightarrow> unit cmd" where
  "chmod_file env mode f =
     (if f = ''*'' then
        bind_cmd (gets c_cwd) (\<lambda>cwd. bind_cmd (dir_cmd env cwd) (\<lambda>l. bind_cmd (children_cmd l) (\<lambda>xs.
          if xs = [] then error_write (''chmod: cannot access '' @ [squote] @ ''*'' @ [squote] @ '': No such file or directory'' @ [nl])
          else ret ())))
      else
        bind_cmd (resolve f) (\<lambda>path.
        bind_cmd (exists_cmd env path) (\<lambda>there.
          if \<not> there then
            error_write (''chmod: cannot access '' @ [squote] @ f @ [squote] @ '': No such file or directory'' @ [nl])
          else bind_cmd (found_cmd env path) (\<lambda>r.
            case r of
              None \<Rightarrow> raise TypeError
            | Some (l, e) \<Rightarrow>
                (case int_octal mode of
                   None \<Rightarrow> ret ()
                 | Some m \<Rightarrow> on_fs (\<lambda>s. (Inr (), change_at (set_mode ((e_mode e AND NO_PERM_BITS_MASK) OR m)) l s)))))))"

definition chmod_call :: "cmd_env \<Rightarrow> string list \<Rightarrow> unit cmd" where
  "chmod_call env args0 =
     bind_cmd (chmod_parse_args args0) (\<lambda>r.
       case r of
         None \<Rightarrow> ret ()
       | Some (os, mode, files') \<Rightarrow>
           (case chmod_shown os of
              Some x \<Rightarrow> error_write x
            | None \<Rightarrow>
                (case mode of
                   None \<Rightarrow> error_write (''chmod: missing operand'' @ [nl] @ TRY_CHMOD_HELP_MSG)
                 | Some m \<Rightarrow>
                     if (m = [] \<or> startswith m ''-'') \<and> files' = [] then
                       error_write (''chmod: missing operand'' @ [nl] @ TRY_CHMOD_HELP_MSG)
                     else if files' = [] then
                       error_bytes (utf8 ''chmod: missing operand after '' @ curly m @ [nl] @ utf8 TRY_CHMOD_HELP_MSG)
                     else if \<not> mode_ok m then
                       error_bytes (utf8 ''chmod: invalid mode: '' @ curly m @ [nl] @ utf8 TRY_CHMOD_HELP_MSG)
                     else for_each (chmod_file env m) files')))"

end
