(* ===== verification/Shell_Fs_Command_Laws.thy ===== *)
theory Shell_Fs_Command_Laws
  imports Shell_Fs_Commands Shell_Text_Laws
begin

text \<open>
  What the commands on files do to the tree of entries, for trees without links and paths in their canonical form, and
  inputs on which a command departs from the program it imitates.
\<close>

section \<open>Steps on canonical paths\<close>

lemma abs_path_hd [simp]: "abs_path ps \<noteq> []" "hd (abs_path ps) = slash" "\<not> startswith (abs_path ps) ''-''"
    "\<not> startswith (abs_path ps) ''~/''"
  by (simp_all add: abs_path_def)

lemma resolve_abs:
  assumes "canonical (c_cwd s)" "\<forall>p\<in>set ps. good_part p"
  shows "resolve (abs_path ps) s = (Inr (abs_path ps), s)"
proof -
  have "normpath (abs_path ps) = abs_path ps" using assms(2) by (simp add: normpath_abs path_parts_abs)
  then show ?thesis using assms(1) by (simp add: resolve_def lift_result_def resolve_path_eq)
qed

lemma last_abs_path: "ps \<noteq> [] \<Longrightarrow> \<forall>p\<in>set ps. good_part p \<Longrightarrow> last (abs_path ps) \<noteq> slash"
proof -
  assume a: "ps \<noteq> []" "\<forall>p\<in>set ps. good_part p"
  then have "last ps \<in> set ps" "\<forall>p\<in>set ps. p \<noteq> []" by (auto simp: good_part_def)
  moreover from this a have "last (last ps) \<noteq> slash" using last_in_set [of "last ps"] by (fastforce simp: good_part_def)
  ultimately show ?thesis using last_join [of ps "[slash]"] a(1) by (simp add: abs_path_def)
qed

lemma get_path_plain:
  assumes "plain_tree t" "\<forall>p\<in>set ps. plain_part p" "lookup t ps = Some dir"
  shows "\<exists>l. get_path d True t (abs_path ps) = Inr l \<and> entry_at t l = Some dir \<and> named t l ps"
proof -
  have parts: "walk_dir d True t (split_on slash (abs_path ps)) [] = walk_dir d True t ps []"
  proof (cases "ps = []")
    case False
    then show ?thesis using plain_path(2) [OF assms(2)] by simp
  qed (simp add: abs_path_def)
  obtain l where l: "walk_dir d True t ps [] = Inr l" "entry_at t l = Some dir"
    using walk_dir_plain [of t "[]" t ps d True] assms by (cases "walk_dir d True t ps []") auto
  with walk_dir_named [of t "[]" t ps d True l] assms(1,2) parts show ?thesis by (simp add: get_path_def)
qed

lemma found_lookup:
  assumes "plain_tree (fs_tree s)" "\<forall>p\<in>set ps. plain_part p" "lookup (fs_tree s) ps = Some e"
  shows "\<exists>l. found (Suc d) True s (abs_path ps) = Inr (Some (l, e)) \<and> entry_at (fs_tree s) l = Some e \<and> named (fs_tree s) l ps"
proof (cases "ps = []")
  case True
  then show ?thesis using assms(3) by (intro exI [of _ "[]"]) (simp add: found_def abs_path_def)
next
  case False
  with assms show ?thesis using found_plain by blast
qed

lemma found_no_lookup:
  assumes "plain_tree (fs_tree s)" "\<forall>p\<in>set ps. plain_part p" "ps \<noteq> []" "lookup (fs_tree s) ps = None"
  shows "case found (Suc d) True s (abs_path ps) of Inl _ \<Rightarrow> True | Inr r \<Rightarrow> r = None"
proof -
  let ?t = "fs_tree s"
  have "getfile (Suc d) True ?t (abs_path ps) = walk_file (getfile d True ?t) True ?t (last ps) ps []"
    using plain_path [OF assms(2,3)] by (simp add: Let_def)
  then show ?thesis
    using walk_file_plain [where t = ?t and l = "[]" and e = ?t and follow = "getfile d True ?t" and fl = True
        and final = "last ps" and ps = ps] assms(1,4)
    by (auto simp: found_def split: sum.splits option.splits)
qed

lemma is_dir_plain:
  assumes "plain_tree (fs_tree s)" "\<forall>p\<in>set ps. plain_part p" "ps \<noteq> []"
  shows "isdir (Suc d) s (abs_path ps) \<longleftrightarrow> (case lookup (fs_tree s) ps of None \<Rightarrow> False | Some e \<Rightarrow> e_type e = T_DIR)"
proof -
  have "abs_path ps \<noteq> [slash]" using plain_path(3) assms by simp
  then show ?thesis
    using found_lookup [OF assms(1,2), of _ d] found_no_lookup [OF assms, of d]
    by (cases "lookup (fs_tree s) ps") (auto simp: isdir_def has_type_def split: sum.splits option.splits)
qed

lemma exists_lookup:
  assumes "plain_tree (fs_tree s)" "\<forall>p\<in>set ps. plain_part p" "lookup (fs_tree s) ps = Some e"
  shows "fs_exists (Suc d) True s (abs_path ps) = Inr True"
proof -
  obtain l where "found (Suc d) True s (abs_path ps) = Inr (Some (l, e))" using found_lookup [OF assms] by blast
  then show ?thesis
    by (cases "getfile (Suc d) True (fs_tree s) (abs_path ps)") (auto simp: fs_exists_def found_def bind_eq_Some_conv simp del: getfile.simps)
qed

lemma remove_named_first: "remove_named nm xs = remove_first (\<lambda>x. e_name x = nm) xs"
proof (induction xs)
  case (Cons x xs)
  show ?case
  proof (cases "e_name x = nm")
    case False
    have "xs ! i \<noteq> x" if "first_index (\<lambda>x. e_name x = nm) xs = Some i" for i
      using False first_index_Some [OF that] by auto
    then show ?thesis using Cons False by (auto simp: remove_named_def remove_first_def split: option.splits)
  qed (simp add: remove_named_def remove_first_def)
qed (simp add: remove_named_def remove_first_def)

text \<open>An entry that takes its place among the children of a directory.\<close>

lemma lookup_append: "lookup t (ps @ qs) = Option.bind (lookup t ps) (\<lambda>e. lookup e qs)"
  by (induction t ps rule: lookup.induct) (auto split: contents.split option.split)

lemma put_plain:
  assumes "plain_tree t" "lookup t ds = Some dir" "named t l ds" "entry_at t l = Some dir" "e_contents dir = Children xs"
    and "plain_tree y" "e_name y = nm"
  defines "t' \<equiv> update_at (set_contents (Children (remove_first (\<lambda>x. e_name x = nm) xs @ [y]))) t l"
  shows "plain_tree t'" "lookup t' (ds @ nm # qs) = lookup y qs"
    and "\<not> prefix qs (ds @ [nm]) \<Longrightarrow> \<not> prefix (ds @ [nm]) qs \<Longrightarrow> lookup t' qs = lookup t qs"
proof -
  let ?f = "set_contents (Children (remove_first (\<lambda>x. e_name x = nm) xs @ [y]))"
  note put = put_child [OF plain_named [OF assms(1,3,4)] assms(5,6,7)]
  have nmf: "e_name (?f dir) = e_name dir" by simp
  note up = update_at_named [where f = ?f, OF assms(1,3,4) put(1) nmf]
  show "plain_tree t'" "lookup t' (ds @ nm # qs) = lookup y qs"
    using up [of "nm # qs" "[]"] put(2) [of qs] by (simp_all add: t'_def)
  show "lookup t' qs = lookup t qs" if n: "\<not> prefix qs (ds @ [nm])" "\<not> prefix (ds @ [nm]) qs"
  proof (cases "prefix ds qs")
    case True
    then obtain zs where zs: "qs = ds @ zs" by (auto simp: prefix_def)
    then obtain q zs' where q: "zs = q # zs'" "q \<noteq> nm" using n by (cases zs) auto
    show ?thesis using up [of zs "[]"] put(3) [of q zs'] q zs assms(2) by (simp add: t'_def lookup_append)
  next
    case False
    then show ?thesis using up [of "[]" qs] n by (auto simp: t'_def prefix_def)
  qed
qed

section \<open>cp\<close>

lemma base_stripped:
  assumes "\<forall>p\<in>set ds. good_part p" "good_part nm"
  shows "py_basename (rstrip_by (\<lambda>c. c = slash) (abs_path (ds @ [nm]))) = nm"
proof -
  have "last (abs_path (ds @ [nm])) \<noteq> slash" using last_abs_path [of "ds @ [nm]"] assms by auto
  then show ?thesis using py_path_split(2) [of ds nm] assms good_plain by (simp add: rstrip_by_id)
qed

lemma plain_set_name: "plain_tree e \<Longrightarrow> plain_tree (set_name nm e)"
  by (cases e) (simp add: set_name_def plain_tree.simps)

lemma name_set_name: "e_name (set_name nm e) = nm"
  by (cases e) (simp add: set_name_def)

text \<open>Copying a file to a path whose directory exists succeeds without a message: afterwards the path leads to the
  entry of the source under its new name, every path that is neither above nor below it leads where it led, and names
  still have one meaning.
\<close>

lemma cp_exact:
  assumes "ce_depth env = Suc d" "plain_tree (fs_tree (c_fs s))" "canonical (c_cwd s)" "c_running s"
    and "\<forall>p\<in>set (ps @ ds @ [nm]). good_part p" "ps \<noteq> []"
    and "lookup (fs_tree (c_fs s)) ps = Some e" "e_type e \<noteq> T_DIR"
    and "lookup (fs_tree (c_fs s)) ds = Some dir" "e_contents dir = Children xs"
    and "\<not> isdir (Suc d) (c_fs s) (abs_path (ds @ [nm]))"
  shows "case start_call (cp_call env [abs_path ps, abs_path (ds @ [nm])]) s of (r, s') \<Rightarrow>
    r = Inr () \<and> c_pipe s' = (c_pipe s)\<lparr>pp_fs := c_fs s'\<rparr> \<and> \<not> c_running s' \<and> plain_tree (fs_tree (c_fs s')) \<and>
    lookup (fs_tree (c_fs s')) (ds @ [nm]) = Some (set_name nm e) \<and>
    (\<forall>qs. prefix qs (ds @ [nm]) \<or> prefix (ds @ [nm]) qs \<or> lookup (fs_tree (c_fs s')) qs = lookup (fs_tree (c_fs s)) qs)"
proof -
  let ?t = "fs_tree (c_fs s)" and ?dest = "abs_path (ds @ [nm])"
  have good: "\<forall>p\<in>set ps. good_part p" "\<forall>p\<in>set (ds @ [nm]). good_part p" "\<forall>p\<in>set ds. good_part p" "good_part nm"
    using assms(5) by auto
  then have plain: "\<forall>p\<in>set ps. plain_part p" "\<forall>p\<in>set ds. plain_part p" "plain_part nm" using good_plain by blast+
  have dn: "py_dirname ?dest = abs_path ds" using py_path_split(1) [OF plain(2,3)] .
  have lst: "last ?dest \<noteq> slash" using last_abs_path [of "ds @ [nm]"] good(2) by simp
  obtain k where k: "found (Suc d) True (c_fs s) (abs_path ps) = Inr (Some (k, e))"
    using found_lookup [OF assms(2) plain(1) assms(7)] by blast
  obtain l where l: "get_path (Suc d) True ?t (abs_path ds) = Inr l" "entry_at ?t l = Some dir" "named ?t l ds"
    using get_path_plain [OF assms(2) plain(2) assms(9)] by blast
  have plain_e: "plain_tree e"
    using found_lookup [OF assms(2) plain(1) assms(7), of d] plain_named [OF assms(2)] by blast
  note run = resolve_abs [OF assms(3) good(1)] resolve_abs [OF assms(3) good(2)]
  have src_dir: "\<not> isdir (Suc d) (c_fs s) (abs_path ps)"
    using is_dir_plain [OF assms(2) plain(1) assms(6), of d] assms(7,8) by simp
  have steps: "is_dir_cmd env ?dest s = (Inr False, s)" "is_dir_cmd env (abs_path ps) s = (Inr False, s)"
      "exists_cmd env (abs_path ps) s = (Inr True, s)" "exists_cmd env (abs_path ds) s = (Inr True, s)"
      "found_cmd env (abs_path ps) s = (Inr (Some (k, e)), s)" "dir_cmd env (abs_path ds) s = (Inr l, s)"
    using assms(1,11) src_dir k l(1) exists_lookup [OF assms(2) plain(1) assms(7), of d] exists_lookup [OF assms(2) plain(2) assms(9), of d]
    by (simp_all add: is_dir_cmd_def exists_cmd_def found_cmd_def dir_cmd_def gets_def lift_result_def)
  let ?f = "set_contents (Children (remove_first (\<lambda>x. e_name x = nm) xs @ [set_name nm e]))"
  let ?s = "s\<lparr>c_pipe := (c_pipe s)\<lparr>pp_fs := change_at ?f l (c_fs s)\<rparr>\<rparr>"
  have entry: "cp_entry l nm e s = (Inr (), ?s)"
    using l(2) assms(10)
    by (simp add: cp_entry_def children_cmd_def alter_children_def remove_named_first andthen_def bind_cmd_def lift_result_def on_fs_def)
  have check: "target_check env ''cp'' (\<lambda>_. True) [abs_path ps, ?dest] [abs_path ps, ?dest] s =
      (Inr (Some ([abs_path ps], ?dest, False)), s)"
    using lst by (simp add: target_check_def Let_def bind_cmd_def ret_def run steps dn)
  have source: "cp_source env False ?dest False (abs_path ps) s = (Inr (), ?s)"
    by (simp add: cp_source_def bind_cmd_def run steps dn base_stripped [OF good(3,4)] entry)
  have "cp_call env [abs_path ps, ?dest] s = (Inr (), ?s)"
    by (simp add: cp_call_def gnu_getopt_plain bind_cmd_def check source andthen_def ret_def del: gnu_getopt.simps)
  then have "start_call (cp_call env [abs_path ps, ?dest]) s = (Inr (), ?s\<lparr>c_running := False\<rparr>)"
    using assms(4) by (simp add: start_call_def andthen_def bind_cmd_def exit_cmd_def)
  then show ?thesis
    using put_plain [where y = "set_name nm e" and nm = nm, OF assms(2,9) l(3,2) assms(10) plain_set_name [OF plain_e] name_set_name]
    by (auto simp: change_at_def)
qed

section \<open>rm\<close>

lemma for_each_append: "for_each f (xs @ ys) = andthen (for_each f xs) (for_each f ys)"
  by (induction xs) (auto simp: fun_eq_iff cmd_defs split: prod.split sum.split)

lemma rm_skip: "\<forall>i\<in>set ys. e_name i \<noteq> nm \<Longrightarrow> for_each (rm_entry l nm recursive verbose) ys s = (Inr (), s)"
  by (induction ys) (simp_all add: rm_entry_def cmd_defs)

lemma rm_children:
  assumes "map_option e_contents (entry_at (fs_tree (c_fs s)) l) = Some (Children xs)" "distinct (map e_name xs)"
    and "e \<in> set xs" "e_type e \<noteq> T_DIR"
  shows "for_each (rm_entry l (e_name e) False False) xs s =
    (Inr (), s\<lparr>c_pipe := (c_pipe s)\<lparr>pp_fs := change_at (set_contents (Children (remove1 e xs))) l (c_fs s)\<rparr>\<rparr>)"
proof -
  obtain us vs where xs: "xs = us @ e # vs" using assms(3) by (auto dest: split_list)
  have others: "\<forall>i\<in>set us. e_name i \<noteq> e_name e" "\<forall>i\<in>set vs. e_name i \<noteq> e_name e"
    using assms(2) unfolding xs by (auto simp: image_iff)
  have one: "rm_entry l (e_name e) False False e s =
      (Inr (), s\<lparr>c_pipe := (c_pipe s)\<lparr>pp_fs := change_at (set_contents (Children (remove1 e xs))) l (c_fs s)\<rparr>\<rparr>)"
    using assms(1,3,4) by (auto simp: rm_entry_def alter_children_def on_fs_def list_remove_def andthen_def bind_cmd_def ret_def)
  have "for_each (rm_entry l (e_name e) False False) (us @ e # vs) s =
      (Inr (), s\<lparr>c_pipe := (c_pipe s)\<lparr>pp_fs := change_at (set_contents (Children (remove1 e xs))) l (c_fs s)\<rparr>\<rparr>)"
    by (simp add: for_each_append andthen_def bind_cmd_def rm_skip [OF others(1)] rm_skip [OF others(2)] one)
  then show ?thesis by (simp only: xs)
qed

lemma get_path_joined:
  assumes "\<forall>p\<in>set ds. plain_part p"
  shows "get_path d fl t (py_join [slash] ([] # ds)) = get_path d fl t (abs_path ds)"
proof -
  have "\<forall>p\<in>set ([] # ds). slash \<notin> set p" using assms by (auto simp: plain_part_def)
  then have "split_on slash (py_join [slash] ([] # ds)) = [] # ds" by (intro split_on_join) simp_all
  moreover have "split_on slash (abs_path ds) = [] # (if ds = [] then [[]] else ds)"
    using plain_path(2) [OF assms] by (cases "ds = []") (simp_all add: abs_path_def)
  ultimately show ?thesis by (simp add: get_path_def)
qed

lemma remove1_find:
  "distinct (map e_name xs) \<Longrightarrow> find (\<lambda>x. e_name x = q) (remove1 e xs) =
    (if e \<in> set xs \<and> q = e_name e then None else find (\<lambda>x. e_name x = q) xs)"
proof (induction xs)
  case (Cons x xs)
  then show ?case by (auto simp: find_None_iff image_iff)
qed simp

lemma take_out_plain:
  assumes "plain_tree t" "lookup t ds = Some dir" "named t l ds" "entry_at t l = Some dir" "e_contents dir = Children xs" "e \<in> set xs"
  defines "t' \<equiv> update_at (set_contents (Children (remove1 e xs))) t l"
  shows "plain_tree t'" "lookup t' (ds @ [e_name e]) = None"
    and "\<not> prefix qs (ds @ [e_name e]) \<Longrightarrow> \<not> prefix (ds @ [e_name e]) qs \<Longrightarrow> lookup t' qs = lookup t qs"
proof -
  let ?f = "set_contents (Children (remove1 e xs))" and ?nm = "e_name e"
  have pd: "plain_tree dir" using plain_named [OF assms(1,3,4)] .
  note c = plain_children [OF pd assms(5)]
  have "distinct (map e_name (remove1 e xs))" using c by (metis distinct_map distinct_remove1 inj_on_subset set_remove1_subset)
  then have pf: "plain_tree (?f dir)"
    using pd c by (auto simp: plain_tree.simps [of "set_contents _ dir"] plain_tree.simps [of dir] dest: notin_set_remove1)
  have fnd: "find (\<lambda>x. e_name x = q) (remove1 e xs) = (if q = ?nm then None else find (\<lambda>x. e_name x = q) xs)" for q
    using remove1_find [of xs q e] c assms(6) by simp
  have nmf: "e_name (?f dir) = e_name dir" by simp
  note up = update_at_named [where f = ?f, OF assms(1,3,4) pf nmf]
  show "plain_tree t'" "lookup t' (ds @ [?nm]) = None" using up [of "[?nm]" "[]"] fnd [of ?nm] by (simp_all add: t'_def)
  show "lookup t' qs = lookup t qs" if n: "\<not> prefix qs (ds @ [?nm])" "\<not> prefix (ds @ [?nm]) qs"
  proof (cases "prefix ds qs")
    case True
    then obtain zs where zs: "qs = ds @ zs" by (auto simp: prefix_def)
    then obtain q zs' where q: "zs = q # zs'" "q \<noteq> ?nm" using n by (cases zs) auto
    show ?thesis using up [of zs "[]"] fnd [of q] q zs assms(2,5) by (simp add: t'_def lookup_append)
  next
    case False
    then show ?thesis using up [of "[]" qs] n by (auto simp: t'_def prefix_def)
  qed
qed

text \<open>Removing a file that is there succeeds without a message: afterwards its path leads nowhere, every path that is
  neither above nor below it leads where it led, and names still have one meaning.
\<close>

lemma rm_exact:
  assumes "ce_depth env = Suc d" "plain_tree (fs_tree (c_fs s))" "canonical (c_cwd s)" "c_running s"
    and "\<forall>p\<in>set (ds @ [nm]). good_part p"
    and "lookup (fs_tree (c_fs s)) (ds @ [nm]) = Some e" "e_type e \<noteq> T_DIR"
  shows "case start_call (rm_call env [abs_path (ds @ [nm])]) s of (r, s') \<Rightarrow>
    r = Inr () \<and> c_pipe s' = (c_pipe s)\<lparr>pp_fs := c_fs s'\<rparr> \<and> \<not> c_running s' \<and> plain_tree (fs_tree (c_fs s')) \<and>
    lookup (fs_tree (c_fs s')) (ds @ [nm]) = None \<and>
    (\<forall>qs. prefix qs (ds @ [nm]) \<or> prefix (ds @ [nm]) qs \<or> lookup (fs_tree (c_fs s')) qs = lookup (fs_tree (c_fs s)) qs)"
proof -
  let ?t = "fs_tree (c_fs s)" and ?path = "abs_path (ds @ [nm])"
  have good: "\<forall>p\<in>set ds. good_part p" "good_part nm" using assms(5) by auto
  then have plain: "\<forall>p\<in>set ds. plain_part p" "\<forall>p\<in>set (ds @ [nm]). plain_part p" using good_plain by auto
  obtain dir xs where dir: "lookup ?t ds = Some dir" "e_contents dir = Children xs" "find (\<lambda>x. e_name x = nm) xs = Some e"
  proof -
    obtain dir where "lookup ?t ds = Some dir" "lookup dir [nm] = Some e"
      using assms(6) unfolding lookup_append by (auto simp only: bind_eq_Some_conv)
    then show ?thesis using that [of dir] by (cases "e_contents dir") (auto split: option.splits)
  qed
  then have e: "e \<in> set xs" "e_name e = nm" by (auto simp: find_Some_iff)
  obtain l where l: "get_path (Suc d) True ?t (abs_path ds) = Inr l" "entry_at ?t l = Some dir" "named ?t l ds"
    using get_path_plain [OF assms(2) plain(1) dir(1)] by blast
  obtain m where m: "get_path (Suc d) True ?t ?path = Inr m"
    using get_path_plain [OF assms(2) plain(2) assms(6)] by blast
  have parts: "split_on slash ?path = [] # ds @ [nm]" using plain_path(2) [OF plain(2)] by simp
  have names: "distinct (map e_name xs)" using plain_children [OF plain_named [OF assms(2) l(3,2)] dir(2)] by simp
  let ?s = "s\<lparr>c_pipe := (c_pipe s)\<lparr>pp_fs := change_at (set_contents (Children (remove1 e xs))) l (c_fs s)\<rparr>\<rparr>"
  have steps: "resolve ?path s = (Inr ?path, s)" "dir_cmd env (py_join [slash] ([] # ds)) s = (Inr l, s)"
      "dir_cmd env ?path s = (Inr m, s)" "children_cmd l s = (Inr xs, s)"
      "for_each (rm_entry l nm False False) xs s = (Inr (), ?s)"
    using resolve_abs [OF assms(3,5)] l(1,2) m dir(2) assms(1) get_path_joined [OF plain(1)] e
      rm_children [of s l xs e, OF _ names e(1) assms(7)]
    by (simp_all add: dir_cmd_def lift_result_def children_cmd_def)
  have "rm_file env False False False ?path s = (Inr (), ?s)"
    using steps by (simp add: rm_file_def parts bind_cmd_def andthen_def catch_cmd_def ret_def butlast_append)
  then have "rm_call env [?path] s = (Inr (), ?s)"
    by (simp add: rm_call_def gnu_getopt_plain bind_cmd_def andthen_def ret_def del: gnu_getopt.simps)
  then have "start_call (rm_call env [?path]) s = (Inr (), ?s\<lparr>c_running := False\<rparr>)"
    using assms(4) by (simp add: start_call_def andthen_def bind_cmd_def exit_cmd_def)
  then show ?thesis
    using take_out_plain [OF assms(2) dir(1) l(3,2) dir(2) e(1)] e(2) by (auto simp: change_at_def)
qed

section \<open>Examples\<close>

definition cmd_of :: "unit cmd \<Rightarrow> unit result \<times> cmd_state" where
  "cmd_of call = start_call call (example_state None False)"

lemma example_canonical: "canonical ''/tmp''"
  by code_simp


section \<open>Where the commands depart from what they imitate\<close>

text \<open>\<open>rm\<close> with an unknown option exits twice: the second time the command is no longer on the stack, and an exception
  escapes.\<close>

lemma rm_exits_twice: "fst (cmd_of (rm_call example_env [''-z''])) = Inl ValueError"
  by code_simp

text \<open>\<open>mv\<close> onto a file leaves both under the same name.\<close>

lemma mv_keeps_target:
  "map_sum id (filter (\<lambda>n. n = ''passwd''))
     (listdir 3 ''/etc'' (c_fs (snd (start_call (mv_call example_env [''/tmp/x'', ''/etc/passwd'']) (snd (cmd_of (touch_call example_env [''/tmp/x'']))\<lparr>c_running := True\<rparr>))))) =
   Inr [''passwd'', ''passwd'']"
  by code_simp

text \<open>\<open>mkdir\<close> makes only the first of its directories.\<close>

lemma mkdir_first_only:
  "listdir 3 ''/tmp'' (c_fs (snd (cmd_of (mkdir_call example_env [''/tmp/a'', ''/tmp/b''])))) = Inr [''a'']"
  by code_simp

text \<open>\<open>mkdir\<close> below a directory that is missing prints no message: the exception of the file system is not the one that
  is caught.\<close>

lemma mkdir_missing_parent:
  "case cmd_of (mkdir_call example_env [''/no/a'']) of (r, s') \<Rightarrow> r = Inl (OSError ENOENT) \<and> terminal (c_pipe s') = []"
  by code_simp

text \<open>\<open>rmdir\<close> does not find a directory whose name ends in a slash.\<close>

lemma rmdir_trailing_slash:
  "case cmd_of (rmdir_call example_env [''/etc/init.d/'']) of (r, s') \<Rightarrow>
     r = Inr () \<and> terminal (c_pipe s') \<noteq> [] \<and> isdir 3 (c_fs s') ''/etc/init.d''"
  by code_simp

text \<open>\<open>chmod\<close> with a number drops the bits that say what kind of file the entry is.\<close>

lemma chmod_drops_type:
  "map_sum id (map_option (\<lambda>(_, e). e_mode e)) (found 3 True (c_fs (snd (cmd_of (chmod_call example_env [''600'', ''/etc/passwd''])))) ''/etc/passwd'') =
   Inr (Some 384)"
  by code_simp

text \<open>\<open>cp -r\<close> makes entries that the quota of new files does not count.\<close>

lemma cp_not_counted:
  "case cmd_of (cp_call example_env [''-r'', ''/etc'', ''/tmp'']) of (r, s') \<Rightarrow>
     newcount (c_fs s') = newcount example_fs \<and> isdir 3 (c_fs s') ''/tmp/etc/init.d''"
  by code_simp

end
