(* ===== verification/Shell_Lexer.thy ===== *)
theory Shell_Lexer
  imports Py_Shlex
begin

text \<open>
  The lexer of the emulated shell: \<open>shlex.shlex\<close> of the Python library in its POSIX mode with punctuation characters,
  as \<open>HoneyPotShell.lineReceived\<close> (\<open>src/src/cowrie/shell/honeypot.py\<close>) sets it up, with parentheses and back quotes
  among the characters of words. A token is read on demand; \<^const>\<open>None\<close> is the \<open>ValueError\<close> of an open quotation.
\<close>

section \<open>The automaton\<close>

datatype lx_state = LxSpace | LxWord | LxPunct | LxQuote char | LxEscape "char option" | LxEof

definition lexer_word_char :: "char \<Rightarrow> bool" where
  "lexer_word_char c \<longleftrightarrow> is_lower c \<or> is_upper c \<or> is_digit c \<or>
     (192 \<le> ord c \<and> ord c \<noteq> 215 \<and> ord c \<noteq> 247) \<or> c \<in> set ''_~-./*?=@%{}$:+^,()'' \<or> c = bquote"

definition punct_char :: "char \<Rightarrow> bool" where
  "punct_char c \<longleftrightarrow> c \<in> set ''();<>|&''"

text \<open>\<open>instream.readline()\<close>.\<close>

definition after_line :: "string \<Rightarrow> string" where
  "after_line s = drop 1 (dropWhile (\<lambda>c. c \<noteq> nl) s)"

lemma after_line_le: "length (after_line s) \<le> length s"
  using length_dropWhile_le [of "\<lambda>c. c \<noteq> nl" s] by (simp add: after_line_def)

text \<open>The token, whether it was quoted, the state, and the characters that are left.\<close>

function read_token :: "lx_state \<Rightarrow> string \<Rightarrow> bool \<Rightarrow> string \<Rightarrow> (string \<times> bool \<times> lx_state \<times> string) option" where
  "read_token LxEof tok quoted s = Some ([], quoted, LxEof, s)"
| "read_token LxSpace tok quoted [] = Some (tok, quoted, LxEof, [])"
| "read_token LxSpace tok quoted (c # s) =
     (if lex_space c then (if tok \<noteq> [] \<or> quoted then Some (tok, quoted, LxSpace, s) else read_token LxSpace tok quoted s)
      else if c = CHR ''#'' then read_token LxSpace tok quoted (after_line s)
      else if c = bslash then read_token (LxEscape None) tok quoted s
      else if lexer_word_char c then read_token LxWord [c] quoted s
      else if punct_char c then read_token LxPunct [c] quoted s
      else if lex_quote c then read_token (LxQuote c) tok quoted s
      else Some ([c], quoted, LxSpace, s))"
| "read_token (LxQuote q) tok quoted [] = None"
| "read_token (LxQuote q) tok quoted (c # s) =
     (if c = q then read_token LxWord tok True s
      else if c = bslash \<and> q = dquote then read_token (LxEscape (Some q)) tok True s
      else read_token (LxQuote q) (tok @ [c]) True s)"
| "read_token (LxEscape e) tok quoted [] = None"
| "read_token (LxEscape e) tok quoted (c # s) =
     (case e of
        None \<Rightarrow> read_token LxWord (tok @ [c]) quoted s
      | Some q \<Rightarrow> read_token (LxQuote q) (tok @ (if c \<noteq> bslash \<and> c \<noteq> q then [bslash] else []) @ [c]) quoted s)"
| "read_token LxWord tok quoted [] = Some (tok, quoted, LxEof, [])"
| "read_token LxWord tok quoted (c # s) =
     (if lex_space c then (if tok \<noteq> [] \<or> quoted then Some (tok, quoted, LxSpace, s) else read_token LxSpace tok quoted s)
      else if c = CHR ''#'' then
        (if tok \<noteq> [] \<or> quoted then Some (tok, quoted, LxSpace, after_line s) else read_token LxSpace tok quoted (after_line s))
      else if lex_quote c then read_token (LxQuote c) tok quoted s
      else if c = bslash then read_token (LxEscape None) tok quoted s
      else if lexer_word_char c then read_token LxWord (tok @ [c]) quoted s
      else if tok \<noteq> [] \<or> quoted then Some (tok, quoted, LxSpace, c # s)
      else read_token LxSpace tok quoted (c # s))"
| "read_token LxPunct tok quoted [] = Some (tok, quoted, LxEof, [])"
| "read_token LxPunct tok quoted (c # s) =
     (if lex_space c then (if tok \<noteq> [] \<or> quoted then Some (tok, quoted, LxSpace, s) else read_token LxSpace tok quoted s)
      else if c = CHR ''#'' then
        (if tok \<noteq> [] \<or> quoted then Some (tok, quoted, LxSpace, after_line s) else read_token LxSpace tok quoted (after_line s))
      else if punct_char c then read_token LxPunct (tok @ [c]) quoted s
      else Some (tok, quoted, LxSpace, c # s))"
  by pat_completeness auto
termination
  by (relation "measures [\<lambda>(st, tok, quoted, s). length s, \<lambda>(st, tok, quoted, s). if st = LxSpace then 0 else 1]")
    (auto simp: less_Suc_eq_le after_line_le)

text \<open>The lexer is the text that is left: between two tokens it is at a blank, or at the end, where it stays.\<close>

type_synonym lexer = string

definition get_token :: "lexer \<Rightarrow> (string option \<times> lexer) option" where
  "get_token s =
     map_option (\<lambda>(tok, quoted, _, s'). (if tok = [] \<and> \<not> quoted then None else Some tok, s'))
       (read_token LxSpace [] False s)"

section \<open>Reading makes progress\<close>

text \<open>What the characters behind a position are still worth: an open quotation has used a character of its own.\<close>

fun lx_credit :: "lx_state \<Rightarrow> bool \<Rightarrow> nat" where
  "lx_credit (LxQuote q) quoted = 1"
| "lx_credit (LxEscape (Some q)) quoted = 2"
| "lx_credit st quoted = (if quoted then 1 else 0)"

lemma read_token_length:
  "read_token st tok quoted s = Some (tok', quoted', st', s') \<Longrightarrow>
    length tok' + length s' + (if quoted' then 1 else 0) \<le> length tok + length s + lx_credit st quoted"
proof (induction st tok quoted s rule: read_token.induct)
  case (3 tok quoted c s)
  then show ?case using after_line_le [of s] by (auto split: if_splits)
next
  case (9 tok quoted c s)
  then show ?case using after_line_le [of s] by (auto split: if_splits)
next
  case (11 tok quoted c s)
  then show ?case using after_line_le [of s] by (auto split: if_splits)
qed (auto split: if_splits option.splits)

lemma get_token_length:
  assumes "get_token s = Some (Some tok, s')"
  shows "length tok + length s' \<le> length s" "length s' < length s"
proof -
  obtain q st where r: "read_token LxSpace [] False s = Some (tok, q, st, s')" "tok \<noteq> [] \<or> q"
    using assms by (auto simp: get_token_def split: if_splits)
  with read_token_length [OF r(1)] show "length tok + length s' \<le> length s" "length s' < length s"
    by (cases tok; auto)+
qed

lemma get_token_less: "get_token s = Some (Some tok, s') \<Longrightarrow> length tok + 2 * length s' < 2 * length s \<and> length s' < length s"
  using get_token_length [of s tok s'] by simp

lemma get_token_end: "get_token s = Some (None, s') \<Longrightarrow> length s' \<le> length s"
  using read_token_length [of LxSpace "[]" False s] by (auto simp: get_token_def split: if_splits)

lemma read_token_state:
  "read_token st tok quoted s = Some (tok', quoted', st', s') \<Longrightarrow> st' = LxSpace \<or> st' = LxEof \<and> (s' = [] \<or> st = LxEof)"
  by (induction st tok quoted s rule: read_token.induct) (auto split: if_splits option.splits)

text \<open>At the end of the text a lexer that remembers it and one that looks again find the same: no token.\<close>

lemma get_token_stable: "get_token [] = Some (None, [])"
  by (simp add: get_token_def)

section \<open>Plain words\<close>

definition shell_word :: "string \<Rightarrow> bool" where
  "shell_word w \<longleftrightarrow> w \<noteq> [] \<and> list_all (\<lambda>c. is_lower c \<or> is_upper c \<or> is_digit c \<or> c \<in> set ''_-./:+,@%='') w"

lemma plain_char:
  "is_lower c \<or> is_upper c \<or> is_digit c \<or> c \<in> set ''_-./:+,@%='' \<Longrightarrow>
    lexer_word_char c \<and> \<not> lex_space c \<and> c \<noteq> CHR ''#'' \<and> c \<noteq> bslash \<and> \<not> lex_quote c"
  by (auto simp: lexer_word_char_def lex_space_def lex_quote_def is_lower_def is_upper_def is_digit_def)

lemma read_word:
  "list_all (\<lambda>c. is_lower c \<or> is_upper c \<or> is_digit c \<or> c \<in> set ''_-./:+,@%='') w \<Longrightarrow>
    read_token LxWord tok False (w @ s) = read_token LxWord (tok @ w) False s"
proof (induction w arbitrary: tok)
  case (Cons c w)
  then have "lexer_word_char c \<and> \<not> lex_space c \<and> c \<noteq> CHR ''#'' \<and> c \<noteq> bslash \<and> \<not> lex_quote c" by (intro plain_char) simp
  with Cons show ?case by simp
qed simp

lemma get_plain_word:
  assumes "shell_word w"
  shows "get_token w = Some (Some w, [])" "get_token (w @ CHR '' '' # s) = Some (Some w, s)"
proof -
  obtain c v where w: "w = c # v" using assms by (cases w) (auto simp: shell_word_def)
  have v: "list_all (\<lambda>c. is_lower c \<or> is_upper c \<or> is_digit c \<or> c \<in> set ''_-./:+,@%='') v"
    and c: "lexer_word_char c \<and> \<not> lex_space c \<and> c \<noteq> CHR ''#'' \<and> c \<noteq> bslash \<and> \<not> lex_quote c"
    using assms plain_char by (auto simp: shell_word_def w)
  show "get_token w = Some (Some w, [])"
    using c read_word [OF v, of "[c]" "[]"] by (simp add: get_token_def w)
  show "get_token (w @ CHR '' '' # s) = Some (Some w, s)"
    using c read_word [OF v, of "[c]" "CHR '' '' # s"] by (simp add: get_token_def w lex_space_def)
qed

end
