(* ===== verification/Shell_Session.thy ===== *)
theory Shell_Session
  imports Shell_Command Shell_Lexer
begin

text \<open>
  The shell of the emulated host (\<open>src/src/cowrie/shell/honeypot.py\<close> and the stack of commands of
  \<open>src/src/cowrie/shell/protocol.py\<close>): a line is cut into commands, substitutions are carried out while it is read,
  pipelines are set up and run. The calls nest as in the code: a command that exits resumes the shell below it, which
  runs what is pending before the caller goes on with the pipeline. \<open>d\<close> is the number of frames that are left. The
  table of commands is the class attribute that the modules of commands fill.
\<close>

section \<open>State\<close>

record shell =
  sh_interactive :: bool
  sh_redirect :: bool
  sh_pending :: "string list list"
  sh_environ :: "(string, string) dict"

datatype frame = FShell shell | FCommand

text \<open>A command of a pipeline: its program and its end of the pipe.\<close>

record stage =
  sg_prog :: "unit cmd"
  sg_pipe :: pipe
  sg_error :: bool

text \<open>The stack has the bottom first; \<open>ss_pp\<close> is the pipe that the protocol holds, with those behind it.\<close>

record shell_session =
  ss_fs :: honey_fs
  ss_cwd :: string
  ss_term :: bytestr
  ss_stack :: "frame list"
  ss_pp :: "stage list"
  ss_ended :: nat

type_synonym command_class = "string list \<Rightarrow> unit cmd"

record shell_cfg =
  cf_env :: shell_env
  cf_user :: string
  cf_hostname :: string
  cf_home :: string
  cf_prompt :: "string option"
  cf_exec :: bool
  cf_environ :: "(string, string) dict"
  cf_commands :: "string \<Rightarrow> command_class option"
  cf_txtcmds :: "string \<Rightarrow> bytestr option"
  cf_script :: "string \<Rightarrow> command_class"
  cf_decode :: "bytestr \<Rightarrow> string option"

definition ss_env :: "shell_cfg \<Rightarrow> shell_session \<Rightarrow> shell_env" where
  "ss_env cf s = (cf_env cf)\<lparr>env_cwd := ss_cwd s\<rparr>"

definition session_write :: "bytestr \<Rightarrow> shell_session \<Rightarrow> shell_session" where
  "session_write b s = s\<lparr>ss_term := ss_term s @ b\<rparr>"

definition shell_at :: "nat \<Rightarrow> shell_session \<Rightarrow> shell option" where
  "shell_at k s = (if k < length (ss_stack s) then (case ss_stack s ! k of FShell sh \<Rightarrow> Some sh | FCommand \<Rightarrow> None) else None)"

definition set_pending :: "nat \<Rightarrow> string list list \<Rightarrow> shell_session \<Rightarrow> shell_session" where
  "set_pending k pending s =
     (case shell_at k s of
        None \<Rightarrow> s
      | Some sh \<Rightarrow> s\<lparr>ss_stack := (ss_stack s)[k := FShell (sh\<lparr>sh_pending := pending\<rparr>)]\<rparr>)"

section \<open>The prompt\<close>

definition shell_prompt_text :: "shell_cfg \<Rightarrow> string \<Rightarrow> string" where
  "shell_prompt_text cf cwd =
     (case cf_prompt cf of
        Some p \<Rightarrow> p @ '' ''
      | None \<Rightarrow>
          let home = cf_home cf; n = length home;
              shown = (if cwd = home then ''~''
                       else if length cwd > n + 1 \<and> take (n + 1) cwd = home @ [slash] then ''~'' @ drop n cwd
                       else cwd) in
          cf_user cf @ ''@'' @ cf_hostname cf @ '':'' @ shown @ (if env_uid (cf_env cf) = 0 then ''# '' else ''$ ''))"

text \<open>The prompt is encoded as ASCII; another character is an error that is a \<open>ValueError\<close>.\<close>

definition shell_show_prompt :: "shell_cfg \<Rightarrow> nat \<Rightarrow> shell_session \<Rightarrow> unit result \<times> shell_session" where
  "shell_show_prompt cf k s =
     (case shell_at k s of
        None \<Rightarrow> (Inr (), s)
      | Some sh \<Rightarrow>
          if \<not> sh_interactive sh then (Inr (), s)
          else let p = shell_prompt_text cf (ss_cwd s) in
            if list_all (\<lambda>c. ord c < 128) p then (Inr (), session_write p s) else (Inl ValueError, s))"

section \<open>Looking commands up\<close>

definition txtcmd :: "bytestr \<Rightarrow> command_class" where
  "txtcmd b args = start_call (write_bytes b)"

fun first_existing :: "nat \<Rightarrow> honey_fs \<Rightarrow> string list \<Rightarrow> string option result" where
  "first_existing d fs [] = Inr None"
| "first_existing d fs (p # ps) =
     attempt (fs_exists d True fs p) (\<lambda>there. if there then Inr (Some p) else first_existing d fs ps)"

definition command_path :: "shell_cfg \<Rightarrow> shell_session \<Rightarrow> string \<Rightarrow> string list \<Rightarrow> string option result" where
  "command_path cf s cmd paths =
     (let d = env_depth (cf_env cf); home = fs_home (ss_fs s) in
      if hd cmd \<in> {CHR ''.'', slash} then
        attempt (resolve_path home cmd (ss_cwd s)) (\<lambda>path.
          map_sum id (\<lambda>there. if there then Some path else None) (fs_exists d True (ss_fs s) path))
      else attempt (collect (\<lambda>x. map_sum id (\<lambda>r. [r @ [slash] @ cmd]) (resolve_path home x (ss_cwd s))) paths)
        (first_existing d (ss_fs s)))"

definition get_command :: "shell_cfg \<Rightarrow> shell_session \<Rightarrow> string \<Rightarrow> string list \<Rightarrow> command_class option result" where
  "get_command cf s cmd paths =
     (if py_strip cmd = [] then Inr None
      else case cf_commands cf cmd of
          Some c \<Rightarrow> Inr (Some c)
        | None \<Rightarrow>
            map_sum id (\<lambda>path.
              case path of
                None \<Rightarrow> None
              | Some path \<Rightarrow>
                  (case cf_txtcmds cf path of
                     Some b \<Rightarrow> Some (txtcmd b)
                   | None \<Rightarrow>
                       (case cf_commands cf path of
                          Some c \<Rightarrow> Some c
                        | None \<Rightarrow> if isfile (env_depth (cf_env cf)) (ss_fs s) path then Some (cf_script cf path) else None)))
              (command_path cf s cmd paths))"

section \<open>Setting a pipeline up\<close>

fun take_assignments :: "(string, string) dict \<Rightarrow> string list \<Rightarrow> (string, string) dict \<times> string list" where
  "take_assignments environ [] = (environ, [])"
| "take_assignments environ (piece # pieces) =
     (if CHR ''='' \<in> set piece
      then take_assignments (AList.update (before_first (CHR ''='') piece) (after_first (CHR ''='') piece) environ) pieces
      else (environ, piece # pieces))"

fun split_list :: "'a \<Rightarrow> 'a list \<Rightarrow> 'a list list" where
  "split_list sep [] = [[]]"
| "split_list sep (x # xs) =
     (if x = sep then [] # split_list sep xs else (case split_list sep xs of [] \<Rightarrow> [[x]] | g # gs \<Rightarrow> (x # g) # gs))"

fun parse_groups :: "string list list \<Rightarrow> (string list \<times> redir_op list) list option" where
  "parse_groups [] = Some []"
| "parse_groups (g # gs) = Option.bind (parse_redirections g) (\<lambda>p. map_option (Cons p) (parse_groups gs))"

text \<open>A pipe of the session's file system and terminal, and back.\<close>

definition new_pipe :: "shell_cfg \<Rightarrow> bool \<Rightarrow> stage list \<Rightarrow> redir_op list \<Rightarrow> shell_session \<Rightarrow> pipe result \<times> shell_session" where
  "new_pipe cf redirect chain ops s =
     (let nxt_input = (case chain of [] \<Rightarrow> None | n # _ \<Rightarrow> pp_input (sg_pipe n)) in
      case PipeProtocol (ss_env cf s) None (chain \<noteq> []) nxt_input redirect ops (ss_fs s) (ss_term s) of
        (r, p) \<Rightarrow> (map_sum id (\<lambda>_. p) r, s\<lparr>ss_fs := pp_fs p, ss_term := terminal p\<rparr>))"

definition new_stage :: "command_class \<Rightarrow> string list \<Rightarrow> pipe \<Rightarrow> stage list \<Rightarrow> stage" where
  "new_stage c args p chain =
     \<lparr>sg_prog = c args, sg_pipe = p, sg_error = (redirection_error p \<or> (case chain of [] \<Rightarrow> False | n # _ \<Rightarrow> sg_error n))\<rparr>"

text \<open>The message for a command that is not found goes through its redirections.\<close>

definition not_found :: "shell_cfg \<Rightarrow> bool \<Rightarrow> string \<Rightarrow> redir_op list \<Rightarrow> shell_session \<Rightarrow> unit result \<times> shell_session" where
  "not_found cf redirect c ops s =
     (let message = utf8 (''-bash: '' @ c @ '': command not found'' @ [nl]) in
      if ops = [] then (Inr (), session_write message s)
      else case new_pipe cf redirect [] ops s of
          (Inl e, s1) \<Rightarrow> (Inl e, s1)
        | (Inr p, s1) \<Rightarrow>
            (case write_stderr (ss_env cf s1) message p of
               (r, p1) \<Rightarrow> (r, s1\<lparr>ss_fs := pp_fs p1, ss_term := terminal p1\<rparr>)))"

text \<open>The commands are taken from the last one on; the result is the pipeline, or nothing after a command that was not
  found.\<close>

fun build_chain ::
  "shell_cfg \<Rightarrow> bool \<Rightarrow> string list \<Rightarrow> (string list \<times> redir_op list) list \<Rightarrow> stage list \<Rightarrow> shell_session \<Rightarrow> stage list option result \<times> shell_session"
where
  "build_chain cf redirect paths [] chain s = (Inr (Some chain), s)"
| "build_chain cf redirect paths ((args, ops) # front) chain s =
     (case get_command cf s (hd args) paths of
        Inl e \<Rightarrow> (Inl e, s)
      | Inr None \<Rightarrow>
          (case not_found cf redirect (hd args) ops s of
             (Inl e, s1) \<Rightarrow> (Inl e, s1)
           | (Inr _, s1) \<Rightarrow> (Inr None, s1))
      | Inr (Some c) \<Rightarrow>
          (case new_pipe cf redirect chain ops s of
             (Inl e, s1) \<Rightarrow> (Inl e, s1)
           | (Inr p, s1) \<Rightarrow> build_chain cf redirect paths front (new_stage c (tl args) p chain # chain) s1))"

section \<open>Running\<close>

definition run_stage :: "shell_cfg \<Rightarrow> stage \<Rightarrow> stage list \<Rightarrow> shell_session \<Rightarrow> bool result \<times> shell_session" where
  "run_stage cf sg chain s =
     (case sg_prog sg \<lparr>c_pipe = (sg_pipe sg)\<lparr>pp_fs := ss_fs s, terminal := ss_term s\<rparr>, c_shell = ss_env cf s, c_cwd = ss_cwd s,
         c_running = True\<rparr> of
        (r, st) \<Rightarrow>
          let p = c_pipe st;
              chain' = (case chain of [] \<Rightarrow> [] | n # ns \<Rightarrow> n\<lparr>sg_pipe := (sg_pipe n)\<lparr>pp_input := next_input p\<rparr>\<rparr> # ns) in
          (map_sum id (\<lambda>_. \<not> c_running st) r,
           s\<lparr>ss_fs := pp_fs p, ss_term := terminal p, ss_cwd := c_cwd st, ss_pp := sg\<lparr>sg_pipe := p\<rparr> # chain'\<rparr>))"

definition session_ended :: "shell_session \<Rightarrow> shell_session" where
  "session_ended s = s\<lparr>ss_ended := ss_ended s + 1\<rparr>"

text \<open>What \<open>runCommand\<close> of the shell at position \<open>k\<close> does up to the point where it calls on: it runs what is pending
  or shows the prompt, or it calls a pipeline.\<close>

datatype next_step = RunOrPrompt | CallChain "stage list"

definition nothing_pending :: "shell_cfg \<Rightarrow> nat \<Rightarrow> shell \<Rightarrow> shell_session \<Rightarrow> unit result \<times> shell_session" where
  "nothing_pending cf k sh s =
     (if ss_pp s = [] then (Inl AttributeError, s)
      else if tl (ss_pp s) \<noteq> [] then (Inr (), s)
      else if sh_interactive sh then shell_show_prompt cf k s
      else (Inr (), if length (ss_stack s) = 1 then session_ended s else s))"

definition call_groups ::
  "shell_cfg \<Rightarrow> shell \<Rightarrow> string option \<Rightarrow> (string list \<times> redir_op list) list \<Rightarrow> bool \<Rightarrow> shell_session \<Rightarrow> next_step result \<times> shell_session"
where
  "call_groups cf sh path groups no_pending s =
     (case path of
        None \<Rightarrow> (Inl KeyError, s)
      | Some path \<Rightarrow>
          (case build_chain cf (sh_redirect sh) (split_on (CHR '':'') path) (rev groups) [] s of
             (Inl e, s1) \<Rightarrow> (Inl e, s1)
           | (Inr None, s1) \<Rightarrow> (Inr RunOrPrompt, if cf_exec cf \<and> no_pending then session_ended s1 else s1)
           | (Inr (Some chain), s1) \<Rightarrow>
               (Inr (if chain \<noteq> [] \<and> sg_error (hd chain) then RunOrPrompt else CallChain chain), s1)))"

definition plan_command :: "shell_cfg \<Rightarrow> shell \<Rightarrow> string list \<Rightarrow> bool \<Rightarrow> shell_session \<Rightarrow> next_step result \<times> shell_session" where
  "plan_command cf sh tokens no_pending s =
     (case take_assignments (sh_environ sh) tokens of
        (environ, cmd_tokens) \<Rightarrow>
          let groups = split_list ''|'' cmd_tokens in
          if cmd_tokens = [] then (Inr RunOrPrompt, s)
          else
            (case parse_redirections (hd groups) of
               None \<Rightarrow> (Inl ValueError, s)
             | Some ([], ops) \<Rightarrow>
                 if ops = [] then (Inr RunOrPrompt, s)
                 else (case new_pipe cf (sh_redirect sh) [] ops s of (r, s1) \<Rightarrow> (map_sum id (\<lambda>_. RunOrPrompt) r, s1))
             | Some (args, ops) \<Rightarrow>
                 (case parse_groups (tl groups) of
                    None \<Rightarrow> (Inl ValueError, s)
                  | Some others \<Rightarrow>
                      call_groups cf sh (map_of environ ''PATH'') ((args, ops) # filter (\<lambda>g. fst g \<noteq> []) others) no_pending s)))"

text \<open>\<open>runCommand\<close>, its choice between the next command and the prompt, and \<open>call_command\<close> with a pipeline.\<close>

fun run_command :: "nat \<Rightarrow> shell_cfg \<Rightarrow> nat \<Rightarrow> shell_session \<Rightarrow> unit result \<times> shell_session"
  and run_or_prompt :: "nat \<Rightarrow> shell_cfg \<Rightarrow> nat \<Rightarrow> shell_session \<Rightarrow> unit result \<times> shell_session"
  and call_command :: "nat \<Rightarrow> shell_cfg \<Rightarrow> stage list \<Rightarrow> shell_session \<Rightarrow> unit result \<times> shell_session"
where
  "run_command 0 cf k s = (Inl RecursionError, s)"
| "run_command (Suc d) cf k s =
     (case shell_at k s of
        None \<Rightarrow> (Inr (), s)
      | Some sh \<Rightarrow>
          (case sh_pending sh of
             [] \<Rightarrow> nothing_pending cf k sh s
           | tokens # pending \<Rightarrow>
               (case plan_command cf sh tokens (pending = []) (set_pending k pending s) of
                  (Inl e, s1) \<Rightarrow> (Inl e, s1)
                | (Inr RunOrPrompt, s1) \<Rightarrow> run_or_prompt d cf k s1
                | (Inr (CallChain chain), s1) \<Rightarrow> call_command d cf chain s1)))"
| "run_or_prompt 0 cf k s = (Inl RecursionError, s)"
| "run_or_prompt (Suc d) cf k s =
     (case shell_at k s of
        None \<Rightarrow> (Inr (), s)
      | Some sh \<Rightarrow> if sh_pending sh \<noteq> [] then run_command d cf k s else shell_show_prompt cf k s)"
| "call_command 0 cf chain s = (Inl RecursionError, s)"
| "call_command (Suc d) cf chain s =
     (case chain of
        [] \<Rightarrow> (Inr (), s)
      | sg # rest \<Rightarrow>
          (case run_stage cf sg rest (s\<lparr>ss_pp := chain, ss_stack := ss_stack s @ [FCommand]\<rparr>) of
             (Inl e, s1) \<Rightarrow> (Inl e, s1)
           | (Inr exited, s1) \<Rightarrow>
               (let s2 = (if exited then s1\<lparr>ss_stack := butlast (ss_stack s1)\<rparr> else s1) in
                case (if exited \<and> ss_stack s2 \<noteq> [] then run_command d cf (length (ss_stack s2) - 1) s2 else (Inr (), s2)) of
                  (Inl e, s3) \<Rightarrow> (Inl e, s3)
                | (Inr _, s3) \<Rightarrow> if tl (ss_pp s3) \<noteq> [] then call_command d cf (tl (ss_pp s3)) s3 else (Inr (), s3))))"

end
