(* ===== verification/Shell_Line.thy ===== *)
theory Shell_Line
  imports Shell_Session
begin

text \<open>
  Reading a line (\<open>HoneyPotShell.lineReceived\<close> and what it calls): the tokens are collected into commands, variables
  are replaced, and a substitution or a subshell is executed as soon as it is read, by a new shell whose output is
  captured. \<open>run_sub\<close> is the execution of an expression with its delimiters.
\<close>

type_synonym run_sub = "string \<Rightarrow> shell_session \<Rightarrow> string result \<times> shell_session"

section \<open>Finding the end of a substitution\<close>

text \<open>The expression grows by tokens of the lexer; the result is the expression with the position of its end, or nothing
  when the line ends first. A position behind the expression is an \<open>IndexError\<close>.\<close>

function scan_subst :: "nat \<Rightarrow> nat \<Rightarrow> nat \<Rightarrow> string \<Rightarrow> lexer \<Rightarrow> ((string \<times> nat) option \<times> lexer) result" where
  "scan_subst opening closing pos expr lx =
     (if pos \<ge> length expr then Inl IndexError
      else if expr ! pos \<in> {CHR '')'', bquote} then
        (if opening = closing + 1 then Inr (Some (expr, pos), lx) else scan_subst opening (closing + 1) (pos + 1) expr lx)
      else if take 2 (drop pos expr) = ''$('' then scan_subst (opening + 1) closing (pos + 2) expr lx
      else if pos = length expr - 1 then
        (case get_token lx of
           None \<Rightarrow> Inl ValueError
         | Some (None, lx') \<Rightarrow> Inr (None, lx')
         | Some (Some tok, lx') \<Rightarrow> scan_subst opening closing (pos + 1) (expr @ '' '' @ tok) lx')
      else scan_subst opening closing (pos + 1) expr lx)"
  by pat_completeness auto
termination
  by (relation "measure (\<lambda>(opening, closing, pos, expr, lx). 2 * length lx + (length expr - pos))")
    (auto dest: get_token_less)

declare scan_subst.simps [simp del]

function scan_paren :: "nat \<Rightarrow> nat \<Rightarrow> nat \<Rightarrow> string \<Rightarrow> lexer \<Rightarrow> ((string \<times> nat) option \<times> lexer) result" where
  "scan_paren opening closing pos expr lx =
     (if pos \<ge> length expr then Inl IndexError
      else if expr ! pos = CHR '')'' then
        (if opening = closing + 1 then Inr (Some (expr, pos), lx) else scan_paren opening (closing + 1) (pos + 1) expr lx)
      else if expr ! pos = CHR ''('' then scan_paren (opening + 1) closing (pos + 1) expr lx
      else if pos = length expr - 1 then
        (case get_token lx of
           None \<Rightarrow> Inl ValueError
         | Some (None, lx') \<Rightarrow> Inr (None, lx')
         | Some (Some tok, lx') \<Rightarrow> scan_paren opening closing (pos + 1) (expr @ '' '' @ tok) lx')
      else scan_paren opening closing (pos + 1) expr lx)"
  by pat_completeness auto
termination
  by (relation "measure (\<lambda>(opening, closing, pos, expr, lx). 2 * length lx + (length expr - pos))")
    (auto dest: get_token_less)

declare scan_paren.simps [simp del]

function collect_paren :: "nat \<Rightarrow> nat \<Rightarrow> string list \<Rightarrow> lexer \<Rightarrow> (string list \<times> lexer) result" where
  "collect_paren opening closing toks lx =
     (case get_token lx of
        None \<Rightarrow> Inl ValueError
      | Some (None, lx') \<Rightarrow> Inr (toks, lx')
      | Some (Some tok, lx') \<Rightarrow>
          if tok = '')'' then
            (if opening = closing + 1 then Inr (toks, lx') else collect_paren opening (closing + 1) (toks @ [tok]) lx')
          else collect_paren (if tok = ''('' then opening + 1 else opening) closing (toks @ [tok]) lx')"
  by pat_completeness auto
termination
  by (relation "measure (\<lambda>(opening, closing, toks, lx). length lx)") (auto dest: get_token_less)

declare collect_paren.simps [simp del]

section \<open>Substitutions and subshells\<close>

definition has_subst :: "string \<Rightarrow> bool" where
  "has_subst s \<longleftrightarrow> str_in ''$('' s \<or> bquote \<in> set s"

text \<open>What stands before the expression, the expression, and the position its search starts at.\<close>

definition split_subst :: "string \<Rightarrow> (string \<times> string \<times> nat) option" where
  "split_subst tok =
     (if tok \<noteq> [] \<and> hd tok = CHR ''('' then Some ([], tok, 1)
      else case str_find ''$('' tok of
          Some i \<Rightarrow> Some (take i tok, drop i tok, 2)
        | None \<Rightarrow>
            if bquote \<in> set tok then Some (before_first bquote tok, drop (length (before_first bquote tok)) tok, 1) else None)"

primrec do_command_substitution :: "nat \<Rightarrow> run_sub \<Rightarrow> string \<Rightarrow> lexer \<Rightarrow> shell_session \<Rightarrow> (string \<times> lexer) result \<times> shell_session" where
  "do_command_substitution 0 run_sub start_tok lx s = (Inl RecursionError, s)"
| "do_command_substitution (Suc d) run_sub start_tok lx s =
     (case split_subst start_tok of
        None \<Rightarrow> (Inr (start_tok, lx), s)
      | Some (front, expr0, pos0) \<Rightarrow>
          (case scan_subst 1 0 pos0 expr0 lx of
             Inl e \<Rightarrow> (Inl e, s)
           | Inr (None, lx1) \<Rightarrow> (Inr (front, lx1), s)
           | Inr (Some (expr, pos), lx1) \<Rightarrow>
               (case run_sub (take (pos + 1) expr) s of
                  (Inl e, s1) \<Rightarrow> (Inl e, s1)
                | (Inr answer, s1) \<Rightarrow>
                    let s2 = (if hd expr = CHR ''('' then session_write (utf8 answer) s1 else s1);
                        res = (if hd expr = CHR ''('' then front else front @ answer);
                        remainder = drop (pos + 1) expr in
                    if has_subst remainder then do_command_substitution d run_sub (res @ remainder) lx1 s2
                    else (Inr (res @ remainder, lx1), s2))))"

definition do_subshell_execution_from_lexer :: "run_sub \<Rightarrow> lexer \<Rightarrow> shell_session \<Rightarrow> lexer result \<times> shell_session" where
  "do_subshell_execution_from_lexer run_sub lx s =
     (case collect_paren 1 0 [] lx of
        Inl e \<Rightarrow> (Inl e, s)
      | Inr (toks, lx1) \<Rightarrow>
          (case run_sub (''('' @ py_join '' '' toks @ '')'') s of
             (Inl e, s1) \<Rightarrow> (Inl e, s1)
           | (Inr answer, s1) \<Rightarrow> (Inr lx1, session_write (utf8 answer) s1)))"

definition do_subshell_execution :: "run_sub \<Rightarrow> string \<Rightarrow> lexer \<Rightarrow> shell_session \<Rightarrow> lexer result \<times> shell_session" where
  "do_subshell_execution run_sub start_tok lx s =
     (case scan_paren 1 0 1 start_tok lx of
        Inl e \<Rightarrow> (Inl e, s)
      | Inr (None, lx1) \<Rightarrow> (Inr lx1, s)
      | Inr (Some (expr, pos), lx1) \<Rightarrow>
          (case run_sub (take (pos + 1) expr) s of
             (Inl e, s1) \<Rightarrow> (Inl e, s1)
           | (Inr answer, s1) \<Rightarrow> (Inr lx1, session_write (utf8 answer) s1)))"

text \<open>None of them gives characters back to the lexer.\<close>

lemma scan_subst_lexer: "scan_subst m n pos expr lx = Inr (r, lx') \<Longrightarrow> length lx' \<le> length lx"
proof (induction "2 * length lx + (length expr - pos)" arbitrary: m n pos expr lx rule: less_induct)
  case less
  note run = less.prems [unfolded scan_subst.simps [of m n pos expr lx]]
  note ih = less.hyps [rotated]
  show ?case
  proof (cases "get_token lx")
    case None
    show ?thesis using run by (auto simp: None split: if_splits dest!: ih)
  next
    case (Some g)
    show ?thesis
    proof (cases "fst g")
      case None
      then show ?thesis using run Some get_token_end [of lx "snd g"]
        by (cases g) (auto split: if_splits dest!: ih)
    next
      case w: (Some w)
      have "length w + 2 * length (snd g) < 2 * length lx \<and> length (snd g) < length lx"
        using get_token_less [of lx w "snd g"] Some w by (cases g) simp
      then show ?thesis using run Some w by (cases g) (auto split: if_splits dest!: ih)
    qed
  qed
qed

lemma scan_paren_lexer: "scan_paren m n pos expr lx = Inr (r, lx') \<Longrightarrow> length lx' \<le> length lx"
proof (induction "2 * length lx + (length expr - pos)" arbitrary: m n pos expr lx rule: less_induct)
  case less
  note run = less.prems [unfolded scan_paren.simps [of m n pos expr lx]]
  note ih = less.hyps [rotated]
  show ?case
  proof (cases "get_token lx")
    case None
    show ?thesis using run by (auto simp: None split: if_splits dest!: ih)
  next
    case (Some g)
    show ?thesis
    proof (cases "fst g")
      case None
      then show ?thesis using run Some get_token_end [of lx "snd g"]
        by (cases g) (auto split: if_splits dest!: ih)
    next
      case w: (Some w)
      have "length w + 2 * length (snd g) < 2 * length lx \<and> length (snd g) < length lx"
        using get_token_less [of lx w "snd g"] Some w by (cases g) simp
      then show ?thesis using run Some w by (cases g) (auto split: if_splits dest!: ih)
    qed
  qed
qed

lemma collect_paren_lexer: "collect_paren m n toks lx = Inr (r, lx') \<Longrightarrow> length lx' \<le> length lx"
proof (induction "length lx" arbitrary: m n toks lx rule: less_induct)
  case less
  note run = less.prems [unfolded collect_paren.simps [of m n toks lx]]
  note ih = less.hyps [rotated]
  show ?case
  proof (cases "get_token lx")
    case None
    show ?thesis using run by (auto simp: None split: if_splits dest!: ih)
  next
    case (Some g)
    show ?thesis
    proof (cases "fst g")
      case None
      then show ?thesis using run Some get_token_end [of lx "snd g"]
        by (cases g) (auto split: if_splits dest!: ih)
    next
      case w: (Some w)
      have "length w + 2 * length (snd g) < 2 * length lx \<and> length (snd g) < length lx"
        using get_token_less [of lx w "snd g"] Some w by (cases g) simp
      then show ?thesis using run Some w by (cases g) (auto split: if_splits dest!: ih)
    qed
  qed
qed

lemma do_command_substitution_lexer:
  "do_command_substitution d run_sub tok lx s = (Inr (r, lx'), s') \<Longrightarrow> length lx' \<le> length lx"
proof (induction d arbitrary: tok lx s)
  case (Suc d)
  show ?case
    using Suc.prems Suc.IH
    by (fastforce simp: Let_def split: option.splits prod.splits sum.splits if_splits dest: scan_subst_lexer)
qed simp

lemma subshell_lexer:
  "do_subshell_execution_from_lexer run_sub lx s = (Inr lx', s') \<Longrightarrow> length lx' \<le> length lx"
  "do_subshell_execution run_sub tok lx s = (Inr lx', s') \<Longrightarrow> length lx' \<le> length lx"
  by (auto simp: do_subshell_execution_from_lexer_def do_subshell_execution_def
      split: sum.splits prod.splits option.splits dest: collect_paren_lexer scan_paren_lexer)

section \<open>Variables\<close>

definition env_name_char :: "char \<Rightarrow> bool" where
  "env_name_char c \<longleftrightarrow> c = CHR ''_'' \<or> is_lower c \<or> is_upper c \<or> is_digit c"

text \<open>The name in a token that is a reference; a final line feed may follow it.\<close>

definition env_name :: "string \<Rightarrow> string \<Rightarrow> string \<Rightarrow> string option" where
  "env_name front behind tok =
     (let body = (if tok \<noteq> [] \<and> last tok = nl then butlast tok else tok);
          nm = take (length body - length front - length behind) (drop (length front) body) in
      if body = front @ nm @ behind \<and> nm \<noteq> [] \<and> list_all env_name_char nm then Some nm else None)"

text \<open>A reference to a variable that is not set is dropped.\<close>

definition expand_token :: "(string, string) dict \<Rightarrow> string \<Rightarrow> string option" where
  "expand_token environ tok =
     (case (if startswith tok ''${'' then env_name ''${'' ''}'' tok
            else if startswith tok ''$'' then env_name ''$'' [] tok else None) of
        None \<Rightarrow> Some tok
      | Some nm \<Rightarrow> map_of environ nm)"

section \<open>The tokens of a line\<close>

definition unexpected :: "string \<Rightarrow> string \<Rightarrow> bytestr" where
  "unexpected tok eol = utf8 (''-bash: syntax error near unexpected token '' @ [bquote] @ tok @ [squote] @ eol)"

function token_loop ::
  "nat \<Rightarrow> (string, string) dict \<Rightarrow> run_sub \<Rightarrow> lexer \<Rightarrow> string list \<Rightarrow> string list list \<Rightarrow> shell_session \<Rightarrow> string list list result \<times> shell_session"
where
  "token_loop d environ run_sub lx tokens pending s =
     (case get_token lx of
        None \<Rightarrow> (Inl ValueError, s)
      | Some (None, _) \<Rightarrow> (Inr (if tokens = [] then pending else pending @ [tokens]), s)
      | Some (Some tok, lx1) \<Rightarrow>
          if tok = ''&&'' \<or> tok = ''||'' then
            (if tokens \<noteq> [] then token_loop d environ run_sub lx1 [] (pending @ [tokens]) s
             else (Inr pending, session_write (unexpected tok [nl]) s))
          else if tok = '';'' then
            token_loop d environ run_sub lx1 [] (if tokens \<noteq> [] then pending @ [tokens] else pending) s
          else if tok = ''$?'' then token_loop d environ run_sub lx1 (tokens @ [''0'']) pending s
          else if startswith tok ''('' then
            (if tokens \<noteq> [] then (Inr pending, session_write (unexpected tok [bslash, CHR ''n'']) s)
             else case (if tok = ''('' then do_subshell_execution_from_lexer run_sub lx1 s
                        else do_subshell_execution run_sub tok lx1 s) of
                 (Inl e, s1) \<Rightarrow> (Inl e, s1)
               | (Inr lx2, s1) \<Rightarrow> token_loop d environ run_sub lx2 tokens pending s1)
          else if has_subst tok then
            (case do_command_substitution d run_sub tok lx1 s of
               (Inl e, s1) \<Rightarrow> (Inl e, s1)
             | (Inr (tok1, lx2), s1) \<Rightarrow> token_loop d environ run_sub lx2 (tokens @ [tok1]) pending s1)
          else
            (case expand_token environ tok of
               None \<Rightarrow> token_loop d environ run_sub lx1 tokens pending s
             | Some tok1 \<Rightarrow> token_loop d environ run_sub lx1 (tokens @ [tok1]) pending s))"
  by pat_completeness auto
termination
  by (relation "measure (\<lambda>(d, environ, run_sub, lx, tokens, pending, s). length lx)")
    (auto dest!: get_token_less do_command_substitution_lexer subshell_lexer [OF sym] dest: sym split: if_splits)

declare token_loop.simps [simp del]

section \<open>Executing what is between the delimiters\<close>

text \<open>\<open>recv\<close> stands for \<open>lineReceived\<close> of the shell at a position.\<close>

type_synonym receiver = "nat \<Rightarrow> string \<Rightarrow> shell_session \<Rightarrow> unit result \<times> shell_session"

definition execute_single :: "shell_cfg \<Rightarrow> receiver \<Rightarrow> run_sub" where
  "execute_single cf recv cmd s =
     (let k = length (ss_stack s);
          sh = \<lparr>sh_interactive = False, sh_redirect = True, sh_pending = [], sh_environ = cf_environ cf\<rparr> in
      case recv k cmd (s\<lparr>ss_stack := ss_stack s @ [FShell sh]\<rparr>) of
        (Inl e, s1) \<Rightarrow> (Inl e, s1)
      | (Inr _, s1) \<Rightarrow>
          let s2 = s1\<lparr>ss_stack := butlast (ss_stack s1)\<rparr> in
          (case ss_pp s2 of
             [] \<Rightarrow> (Inr [], s2)
           | sg # _ \<Rightarrow>
               (case cf_decode cf (redirected_data (sg_pipe sg)) of
                  None \<Rightarrow> (Inl ValueError, s2)
                | Some b \<Rightarrow> (Inr b, s2))))"

text \<open>The commands of a subshell are read by a lexer, put together again with blanks, and run one by one.\<close>

function subshell_loop :: "run_sub \<Rightarrow> lexer \<Rightarrow> string list \<Rightarrow> string \<Rightarrow> shell_session \<Rightarrow> string result \<times> shell_session" where
  "subshell_loop exec lx cur acc s =
     (let flush = (if cur = [] then (Inr [], s) else exec (py_join '' '' cur) s) in
      case get_token lx of
        None \<Rightarrow> (Inl ValueError, s)
      | Some (None, _) \<Rightarrow> (case flush of (Inl e, s1) \<Rightarrow> (Inl e, s1) | (Inr b, s1) \<Rightarrow> (Inr (acc @ b), s1))
      | Some (Some tok, lx1) \<Rightarrow>
          if tok = '';'' \<or> tok = ''&&'' \<or> tok = ''||'' then
            (case flush of (Inl e, s1) \<Rightarrow> (Inl e, s1) | (Inr b, s1) \<Rightarrow> subshell_loop exec lx1 [] (acc @ b) s1)
          else subshell_loop exec lx1 (cur @ [tok]) acc s)"
  by pat_completeness auto
termination
  by (relation "measure (\<lambda>(exec, lx, cur, acc, s). length lx)") (auto dest: get_token_less)

declare subshell_loop.simps [simp del]

definition run_subshell_command :: "shell_cfg \<Rightarrow> receiver \<Rightarrow> run_sub" where
  "run_subshell_command cf recv expr s =
     (let cmd = butlast (drop (if startswith expr ''$('' then 2 else 1) expr) in
      case subshell_loop (execute_single cf recv) cmd [] [] s of
        (Inl e, s1) \<Rightarrow> (Inl e, s1)
      | (Inr b, s1) \<Rightarrow> (Inr (if startswith expr ''('' then b else rstrip_by (\<lambda>c. c = nl) b), s1))"

section \<open>Receiving a line\<close>

text \<open>Every exception while the line is read is a syntax error; one of a command is not caught.\<close>

primrec shell_line_received :: "nat \<Rightarrow> shell_cfg \<Rightarrow> receiver" where
  "shell_line_received 0 = (\<lambda>cf k line s. (Inl RecursionError, s))"
| "shell_line_received (Suc d) = (\<lambda>cf k line s.
     case shell_at k s of
       None \<Rightarrow> (Inr (), s)
     | Some sh \<Rightarrow>
         (case token_loop d (sh_environ sh) (run_subshell_command cf (shell_line_received d cf)) line [] (sh_pending sh) s of
            (Inl e, s1) \<Rightarrow>
              shell_show_prompt cf k (set_pending k [] (session_write (utf8 (''-bash: syntax error: unexpected end of file'' @ [nl])) s1))
          | (Inr pending, s1) \<Rightarrow>
              if pending \<noteq> [] then run_command d cf k (set_pending k (map merge_redirection_tokens pending) s1)
              else shell_show_prompt cf k s1))"

text \<open>A line of an interactive session goes to the top of the stack; a command that waits there reads it its own way.\<close>

definition protocol_line :: "nat \<Rightarrow> shell_cfg \<Rightarrow> string \<Rightarrow> shell_session \<Rightarrow> unit result \<times> shell_session" where
  "protocol_line d cf line s =
     (if ss_stack s = [] then (Inr (), session_ended s)
      else shell_line_received d cf (length (ss_stack s) - 1) line s)"

definition new_session :: "shell_cfg \<Rightarrow> bool \<Rightarrow> honey_fs \<Rightarrow> shell_session" where
  "new_session cf interactive fs =
     (let cwd = (if fs_exists (env_depth (cf_env cf)) True fs (cf_home cf) = Inr True then cf_home cf else [slash]);
          sh = \<lparr>sh_interactive = interactive, sh_redirect = False, sh_pending = [], sh_environ = cf_environ cf\<rparr> in
      \<lparr>ss_fs = fs, ss_cwd = cwd, ss_term = [], ss_stack = [FShell sh], ss_pp = [], ss_ended = 0\<rparr>)"

definition shell_connection_made :: "nat \<Rightarrow> shell_cfg \<Rightarrow> honey_fs \<Rightarrow> unit result \<times> shell_session" where
  "shell_connection_made d cf fs = shell_show_prompt cf 0 (new_session cf True fs)"

definition shell_exec_connection_made :: "nat \<Rightarrow> shell_cfg \<Rightarrow> string \<Rightarrow> honey_fs \<Rightarrow> unit result \<times> shell_session" where
  "shell_exec_connection_made d cf execcmd fs =
     shell_line_received d cf 0 (py_join ''; '' (split_on nl (py_strip execcmd))) (new_session cf False fs)"

text \<open>The line that a script of the virtual file system is run as: nothing after an error that is reported, an empty list
  when there is nothing to run.\<close>

definition script_line :: "(bytestr \<Rightarrow> string) \<Rightarrow> nat \<Rightarrow> string \<Rightarrow> bytestr result \<Rightarrow> string + string option" where
  "script_line decode depth path contents =
     (if depth \<ge> 5 then Inl (''-bash: '' @ path @ '': too many levels of recursion'' @ [nl])
      else case contents of
          Inl _ \<Rightarrow> Inl (''-bash: '' @ path @ '': No such file or directory'' @ [nl])
        | Inr b \<Rightarrow>
            if CHR 0x00 \<in> set b then Inl (''-bash: '' @ path @ '': cannot execute binary file: Exec format error'' @ [nl])
            else
              let ls = splitlines (decode b);
                  shebang = (ls \<noteq> [] \<and> startswith (hd ls) ''#!'' \<and>
                    (let rest = dropWhile is_space (drop 2 (hd ls)) in
                     startswith rest ''/bin/bash'' \<or> startswith rest ''/bin/ash'' \<or> startswith rest ''/bin/sh''));
                  body = filter (\<lambda>l. py_strip l \<noteq> [] \<and> \<not> startswith (py_strip l) ''#'') (if shebang then tl ls else ls) in
              Inr (if body = [] then None else Some (py_join ''; '' body)))"

end
