(* ===== verification/Shell_Base_Commands.thy ===== *)
theory Shell_Base_Commands
  imports Shell_Text_Commands Shell_Fs_Commands
begin

text \<open>
  The small commands of the emulated host (\<open>src/src/cowrie/commands/base.py\<close>, \<open>env.py\<close>, \<open>which.py\<close> and \<open>nohup.py\<close>), and
  the table that the modules of commands fill, as far as they are modelled.
\<close>

section \<open>echo and printf\<close>

text \<open>The substitution that completes a single hexadecimal digit after \<open>\x\<close>.\<close>

definition is_hex :: "char \<Rightarrow> bool" where
  "is_hex c \<longleftrightarrow> is_digit c \<or> c \<in> set ''abcdefABCDEF''"

fun fix_hex :: "char option \<Rightarrow> string \<Rightarrow> string" where
  "fix_hex prev (x # h # rest) =
     (if prev = Some bslash \<and> x = CHR ''x'' \<and> is_hex h \<and>
         (rest = [] \<or> hd rest \<in> {bslash, dquote, squote} \<or> is_space (hd rest))
      then x # CHR ''0'' # h # fix_hex (Some h) rest
      else x # fix_hex (Some x) (h # rest))"
| "fix_hex prev s = s"

definition unescape_x :: "string \<Rightarrow> string" where
  "unescape_x s = fix_hex None (str_replace [bslash, bslash, CHR ''x''] [bslash, CHR ''x''] s)"

text \<open>\<open>codecs.escape_decode\<close> of the encoded text; \<^const>\<open>None\<close> is its \<open>ValueError\<close>.\<close>

definition hex_digit_value :: "char \<Rightarrow> nat" where
  "hex_digit_value c = (if is_digit c then ord c - 48 else if ord c \<ge> 97 then ord c - 87 else ord c - 55)"

definition octal_digit :: "char \<Rightarrow> bool" where
  "octal_digit c \<longleftrightarrow> 48 \<le> ord c \<and> ord c \<le> 55"

definition simple_escape :: "char \<Rightarrow> char option" where
  "simple_escape c =
     map_of [(bslash, bslash), (squote, squote), (dquote, dquote), (CHR ''b'', CHR 0x08), (CHR ''f'', CHR 0x0C), (CHR ''t'', tab),
       (CHR ''n'', nl), (CHR ''r'', cr), (CHR ''v'', CHR 0x0B), (CHR ''a'', CHR 0x07)] c"

function escape_decode :: "bytestr \<Rightarrow> bytestr option" where
  "escape_decode [] = Some []"
| "escape_decode (c # s) =
     (if c \<noteq> bslash then map_option (Cons c) (escape_decode s)
      else case s of
          [] \<Rightarrow> None
        | e # rest \<Rightarrow>
            if e = nl then escape_decode rest
            else if simple_escape e \<noteq> None then map_option (Cons (the (simple_escape e))) (escape_decode rest)
            else if octal_digit e then
              (let digits = takeWhile octal_digit (take 3 s) in
               map_option (Cons (char_of (fold (\<lambda>c n. 8 * n + (ord c - 48)) digits 0))) (escape_decode (drop (length digits) s)))
            else if e = CHR ''x'' then
              (case rest of
                 a # b # rest2 \<Rightarrow>
                   if is_hex a \<and> is_hex b then map_option (Cons (char_of (16 * hex_digit_value a + hex_digit_value b))) (escape_decode rest2)
                   else None
               | _ \<Rightarrow> None)
            else map_option (Cons bslash) (escape_decode s))"
  by pat_completeness auto
termination by (relation "measure length") auto

fun echo_opts :: "opts \<Rightarrow> bool \<times> bool \<Rightarrow> bool \<times> bool" where
  "echo_opts [] st = st"
| "echo_opts (o' # os) st =
     echo_opts os (if fst o' = ''-e'' then (True, snd st) else if fst o' = ''-E'' then (False, snd st)
       else if fst o' = ''-n'' then (fst st, False) else st)"

definition echo_call :: "string list \<Rightarrow> unit cmd" where
  "echo_call args0 =
     (let (st, args) = (case getopt [] args0 ''eEn'' [] of
            Inl _ \<Rightarrow> ((False, True), args0) | Inr (os, args) \<Rightarrow> (echo_opts os (False, True), args));
          s0 = unescape_x (py_join '' '' args);
          cut_short = endswith s0 [bslash, CHR ''c''];
          s1 = (if cut_short then take (length s0 - 2) s0 else s0) @ (if snd st \<and> \<not> cut_short then [nl] else []) in
      if fst st then (case escape_decode (utf8 s1) of None \<Rightarrow> ret () | Some b \<Rightarrow> write_bytes b)
      else write_str s1)"

definition printf_call :: "string list \<Rightarrow> unit cmd" where
  "printf_call args =
     (if args = [] then write_str (''printf: usage: printf [-v var] format [arguments]'' @ [nl])
      else if ''-v'' \<notin> set args \<and> length args < 2 then
        (let s0 = strip_by (\<lambda>c. c = dquote \<or> c = squote) (unescape_x (hd args));
             s1 = (if endswith s0 [bslash, CHR ''c''] then take (length s0 - 2) s0 else s0) in
         case escape_decode (utf8 s1) of None \<Rightarrow> raise ValueError | Some b \<Rightarrow> write_bytes b)
      else ret ())"

section \<open>Small commands\<close>

definition whoami_call :: "cmd_env \<Rightarrow> unit cmd" where
  "whoami_call env = write_str (ce_user env @ [nl])"

definition id_call :: "cmd_env \<Rightarrow> unit cmd" where
  "id_call env =
     (let u = ce_user env; g = str_of_int (ce_gid env) in
      write_str (''uid='' @ str_of_int (ce_uid env) @ ''('' @ u @ '') gid='' @ g @ ''('' @ u @ '') groups='' @ g @ ''('' @ u @ '')'' @ [nl]))"

definition env_call :: "cmd_env \<Rightarrow> unit cmd" where
  "env_call env = for_each (\<lambda>(k, v). write_str (k @ ''='' @ v @ [nl])) (ce_environ env)"

definition chattr_call :: "cmd_env \<Rightarrow> string list \<Rightarrow> unit cmd" where
  "chattr_call env args =
     (case args of
        [] \<Rightarrow> write_str (''Usage: chattr [-RVf] [-+=AacDdeijsSu] [-v version] files...'' @ [nl])
      | [_] \<Rightarrow> write_str (''Must use '' @ [squote] @ ''-v'' @ [squote] @ '', =, - or +'' @ [squote, nl])
      | _ # f # _ \<Rightarrow>
          bind_cmd (exists_cmd env f) (\<lambda>there.
            unless_cmd there (write_str (''chattr: No such file or directory while trying to stat '' @ f @ [nl]))))"

definition nop_call :: "string list \<Rightarrow> unit cmd" where
  "nop_call args = ret ()"

definition which_call :: "cmd_env \<Rightarrow> string list \<Rightarrow> unit cmd" where
  "which_call env args =
     (case map_of (ce_environ env) ''PATH'' of
        None \<Rightarrow> ret ()
      | Some paths \<Rightarrow>
          for_each (\<lambda>f.
            for_each (\<lambda>path.
              bind_cmd (lift_result (\<lambda>s. resolve_path (fs_home (c_fs s)) f path)) (\<lambda>resolved.
              bind_cmd (exists_cmd env resolved) (\<lambda>there.
                unless_cmd (\<not> there) (write_str (path @ [slash] @ f @ [nl])))))
              (split_on (CHR '':'') paths))
            args)"

definition nohup_call :: "cmd_env \<Rightarrow> string list \<Rightarrow> unit cmd" where
  "nohup_call env args =
     (if args = [] then
        andthen (write_str (''nohup: missing operand'' @ [nl]))
          (write_str (''Try '' @ [bquote] @ ''nohup --help'' @ [squote] @ '' for more information.'' @ [nl]))
      else
        bind_cmd (resolve ''nohup.out'') (\<lambda>path.
        bind_cmd (exists_cmd env path) (\<lambda>there.
          if there then ret ()
          else andthen (on_fs (mkfile (ce_depth env) (ce_now env) path (ce_uid env) (ce_gid env) 0 33188))
            (write_str (''nohup: ignoring input and appending output to '' @ [squote] @ ''nohup.out'' @ [squote, nl])))))"

section \<open>passwd\<close>

text \<open>The dialog: the callbacks that are left and the first answer. A third line finds no callback.\<close>

datatype passwd_state = AskAgain | Finish string | NoCallback

definition passwd_start :: "passwd_state cmd" where
  "passwd_start = andthen (write_str ''Enter new UNIX password: '') (ret AskAgain)"

definition passwd_line :: "passwd_state \<Rightarrow> string \<Rightarrow> passwd_state cmd" where
  "passwd_line st line =
     (case st of
        AskAgain \<Rightarrow> andthen (write_str ''Retype new UNIX password: '') (ret (Finish line))
      | Finish first \<Rightarrow>
          andthen (if line \<noteq> first \<or> first = ''*'' then write_str (''Sorry, passwords do not match'' @ [nl])
                   else write_str (''passwd: password updated successfully'' @ [nl]))
            (andthen exit_cmd (ret NoCallback))
      | NoCallback \<Rightarrow> raise IndexError)"

section \<open>The table\<close>

definition void_cmd :: "'a cmd \<Rightarrow> unit cmd" where
  "void_cmd m = bind_cmd m (\<lambda>_. ret ())"

definition command_table ::
  "cmd_env \<Rightarrow> bytes_compile \<Rightarrow> (bytestr \<Rightarrow> string) \<Rightarrow> (bytestr \<Rightarrow> string option) \<Rightarrow> (string \<times> (string list \<Rightarrow> unit cmd)) list"
where
  "command_table env rc decode decode_strict =
     concat (map (\<lambda>(names, c). map (\<lambda>n. (n, c)) names) [
       ([''/bin/grep'', ''/bin/egrep'', ''/bin/fgrep'', ''grep'', ''egrep'', ''fgrep''], grep env rc),
       ([''/bin/tail'', ''/usr/bin/tail'', ''tail''], tail_cmd env),
       ([''/bin/head'', ''/usr/bin/head'', ''head''], head_cmd env),
       ([''cd''], \<lambda>args. start_call (cd_call env args)),
       ([''/bin/rm'', ''rm''], \<lambda>args. start_call (rm_call env args)),
       ([''/bin/cp'', ''cp''], \<lambda>args. start_call (cp_call env args)),
       ([''/bin/mv'', ''mv''], \<lambda>args. start_call (mv_call env args)),
       ([''/bin/mkdir'', ''mkdir''], \<lambda>args. start_call (mkdir_call env args)),
       ([''/bin/rmdir'', ''rmdir''], \<lambda>args. start_call (rmdir_call env args)),
       ([''/bin/pwd'', ''pwd''], \<lambda>args. start_call pwd_call),
       ([''/bin/touch'', ''touch'', ''>''], \<lambda>args. start_call (touch_call env args)),
       ([''/bin/chmod'', ''chmod''], \<lambda>args. start_call (chmod_call env args)),
       ([''/bin/cat'', ''cat''], \<lambda>args. void_cmd (cat env args)),
       ([''/usr/bin/wc'', ''/bin/wc'', ''wc''], wc env),
       ([''/usr/bin/cut'', ''/bin/cut'', ''cut''], \<lambda>args. void_cmd (cut env decode args)),
       ([''/usr/bin/base64'', ''base64''], \<lambda>args. void_cmd (base64 env args)),
       ([''/bin/tee'', ''tee''], \<lambda>args. void_cmd (tee env decode_strict args)),
       ([''/usr/bin/uniq'', ''uniq''], \<lambda>args. void_cmd (uniq args)),
       ([''/bin/echo'', ''echo''], \<lambda>args. start_call (echo_call args)),
       ([''/usr/bin/printf'', ''printf''], \<lambda>args. start_call (printf_call args)),
       ([''/usr/bin/whoami'', ''whoami'', ''/usr/bin/users'', ''users''], \<lambda>args. start_call (whoami_call env)),
       ([''/usr/bin/id'', ''id''], \<lambda>args. start_call (id_call env)),
       ([''/usr/bin/env'', ''env''], \<lambda>args. start_call (env_call env)),
       ([''/usr/bin/chattr'', ''chattr''], \<lambda>args. start_call (chattr_call env args)),
       ([''which''], \<lambda>args. start_call (which_call env args)),
       ([''/usr/bin/nohup'', ''nohup''], \<lambda>args. start_call (nohup_call env args)),
       ([''/usr/bin/passwd'', ''passwd''], \<lambda>args. void_cmd passwd_start),
       ([''umask'', ''unset'', ''export'', ''alias'', ''jobs'', ''kill'', ''/bin/kill'', ''/bin/pkill'', ''/bin/killall'', ''/bin/killall5'',
         ''/bin/su'', ''su'', ''/bin/chown'', ''chown'', ''/bin/chgrp'', ''chgrp'', '':'', ''do'', ''done''],
         \<lambda>args. start_call (nop_call args))])"

end
