(* ===== verification/Shell_Laws.thy ===== *)
theory Shell_Laws
  imports Shell_Line Shell_Base_Commands Shell_Fs_Command_Laws
begin

text \<open>
  What the shell does with a line: words are read back as they were written, the commands of a line run in their order
  with one prompt at the end, a pipeline hands the output of a command to the next one; and the lines on which it
  departs from the shell it imitates.
\<close>

section \<open>Reading a line\<close>

definition command_line :: "string list list \<Rightarrow> string" where
  "command_line wss = py_join ''; '' (map (py_join '' '') wss)"

lemma plain_word_chars:
  assumes "shell_word w"
  shows "CHR ''$'' \<notin> set w" "CHR ''('' \<notin> set w" "bquote \<notin> set w" "CHR ''&'' \<notin> set w" "CHR ''|'' \<notin> set w"
    "CHR '';'' \<notin> set w" "CHR ''>'' \<notin> set w" "CHR ''<'' \<notin> set w" "CHR '' '' \<notin> set w"
  using assms by (auto simp: shell_word_def list_all_iff is_lower_def is_upper_def is_digit_def dest!: bspec)

lemma get_word_before:
  assumes "shell_word w" "s = [] \<or> hd s = CHR '';''"
  shows "get_token (w @ s) = Some (Some w, s)"
proof -
  obtain c v where w: "w = c # v" using assms by (cases w) (auto simp: shell_word_def)
  have v: "list_all (\<lambda>c. is_lower c \<or> is_upper c \<or> is_digit c \<or> c \<in> set ''_-./:+,@%='') v"
    and c: "lexer_word_char c \<and> \<not> lex_space c \<and> c \<noteq> CHR ''#'' \<and> c \<noteq> bslash \<and> \<not> lex_quote c"
    using assms plain_char by (auto simp: shell_word_def w)
  have n: "\<not> lexer_word_char CHR '';''" "\<not> lex_space CHR '';''" "\<not> lex_quote CHR '';''" by code_simp+
  show ?thesis using c read_word [OF v, of "[c]" s] assms(2) n
    by (cases s) (auto simp: get_token_def w lex_quote_def lex_space_def)
qed

lemma get_semicolon: "get_token (''; '' @ s) = Some (Some '';'', s)"
proof -
  have "\<not> lex_space CHR '';''" "\<not> lexer_word_char CHR '';''" "punct_char CHR '';''" "lex_space CHR '' ''" by code_simp+
  then show ?thesis by (simp add: get_token_def)
qed

lemma str_in_set: "str_in p s \<Longrightarrow> set p \<subseteq> set s"
  by (induction p s rule: str_in.induct) (auto dest!: set_mono_prefix)

text \<open>A plain word is no operator, contains no substitution and no reference, and is kept.\<close>

lemma plain_word_token:
  assumes "shell_word w"
  shows "w \<noteq> ''&&''" "w \<noteq> ''||''" "w \<noteq> '';''" "w \<noteq> ''$?''" "\<not> startswith w ''(''" "\<not> has_subst w" "expand_token environ w = Some w"
proof -
  note d = plain_word_chars [OF assms]
  show "w \<noteq> ''&&''" "w \<noteq> ''||''" "w \<noteq> '';''" "w \<noteq> ''$?''" using d by auto
  show "\<not> startswith w ''(''" using d by (cases w) auto
  have "\<not> startswith w ''$''" "\<not> startswith w ''${''" using d by (cases w; auto)+
  then show "expand_token environ w = Some w" by (simp add: expand_token_def)
  show "\<not> has_subst w" using d str_in_set [of "''$(''" w] by (auto simp: has_subst_def)
qed

text \<open>Between plain words there may be bars.\<close>

definition line_word :: "string \<Rightarrow> bool" where
  "line_word w \<longleftrightarrow> shell_word w \<or> w = ''|''"

lemma line_word_token:
  assumes "line_word w"
  shows "w \<noteq> ''&&''" "w \<noteq> ''||''" "w \<noteq> '';''" "w \<noteq> ''$?''" "\<not> startswith w ''(''" "\<not> has_subst w" "expand_token environ w = Some w"
    "get_token (w @ CHR '' '' # s) = Some (Some w, s)"
proof -
  have bar: "get_token (''|'' @ CHR '' '' # s) = Some (Some ''|'', s)"
  proof -
    have "\<not> lex_space CHR ''|''" "\<not> lexer_word_char CHR ''|''" "punct_char CHR ''|''" "lex_space CHR '' ''" by code_simp+
    then show ?thesis by (simp add: get_token_def)
  qed
  have "\<not> has_subst ''|''" "expand_token environ ''|'' = Some ''|''" by (code_simp, simp add: expand_token_def)
  then show "w \<noteq> ''&&''" "w \<noteq> ''||''" "w \<noteq> '';''" "w \<noteq> ''$?''" "\<not> startswith w ''(''" "\<not> has_subst w"
      "expand_token environ w = Some w" "get_token (w @ CHR '' '' # s) = Some (Some w, s)"
    using assms plain_word_token [of w] get_plain_word [of w] bar by (auto simp: line_word_def)
qed

lemma words_loop:
  assumes "\<forall>w\<in>set ws. line_word w" "ws \<noteq> []" "shell_word (last ws)" "rest = [] \<or> hd rest = CHR '';''"
  shows "token_loop d environ run_sub (py_join '' '' ws @ rest) toks pending s = token_loop d environ run_sub rest (toks @ ws) pending s"
  using assms
proof (induction ws arbitrary: toks)
  case (Cons w ws)
  then have w: "line_word w" by simp
  note tok = line_word_token [OF w]
  show ?case
  proof (cases ws)
    case Nil
    then show ?thesis using get_word_before [of w rest] Cons.prems tok
      by (simp add: token_loop.simps [of d environ run_sub "w @ rest"])
  next
    case (Cons v vs)
    then show ?thesis using Cons.IH [of "toks @ [w]"] Cons.prems tok Cons
      by (simp add: token_loop.simps [of d environ run_sub "w @ CHR '' '' # py_join '' '' (v # vs) @ rest"])
  qed
qed simp

lemma line_loop:
  assumes "\<forall>ws\<in>set wss. ws \<noteq> [] \<and> (\<forall>w\<in>set ws. line_word w) \<and> shell_word (last ws)"
  shows "token_loop d environ run_sub (command_line wss) [] pending s = (Inr (pending @ wss), s)"
  using assms
proof (induction wss arbitrary: pending)
  case Nil
  then show ?case by (simp add: command_line_def token_loop.simps [of _ _ _ "[]"] get_token_stable)
next
  case (Cons ws wss)
  show ?case
  proof (cases wss)
    case Nil
    then show ?thesis using Cons.prems words_loop [of ws "[]"]
      by (simp add: command_line_def token_loop.simps [of _ _ _ "[]"] get_token_stable)
  next
    case (Cons v vs)
    have "command_line (ws # wss) = py_join '' '' ws @ ''; '' @ command_line wss" by (simp add: command_line_def Cons)
    then show ?thesis using Cons.prems Cons.IH [of "pending @ [ws]"] words_loop [of ws "''; '' @ command_line wss"]
        get_semicolon [of "command_line wss"]
      by (simp add: token_loop.simps [of _ _ _ "CHR '';'' # CHR '' '' # command_line wss"])
  qed
qed

section \<open>Running a command\<close>

lemma merge_plain: "\<forall>w\<in>set ws. line_word w \<Longrightarrow> merge_redirection_tokens ws = ws"
proof (induction ws)
  case Nil
  then show ?case by (simp add: merge_redirection_tokens.simps)
next
  case (Cons w ws)
  have g: "v \<notin> {''>'', ''>>'', ''>&''}" if "line_word v" for v
    using that plain_word_chars [of v] by (auto simp: line_word_def)
  have "nth_token (w # ws) 1 \<notin> {Some ''>'', Some ''>>'', Some ''>&''}"
    using Cons.prems g by (cases ws) (auto simp: nth_token_def)
  then have "combine_redir_sequence (w # ws) = None"
    using Cons.prems g [of w] by (auto simp: combine_redir_sequence_def Let_def)
  then show ?case using Cons by (simp add: merge_redirection_tokens.simps [of "w # ws"])
qed

lemma parse_plain_words: "\<forall>w\<in>set ws. shell_word w \<Longrightarrow> parse_redirections ws = Some (ws, [])"
proof (induction ws)
  case Nil
  then show ?case by (simp add: parse_redirections.simps)
next
  case (Cons w ws)
  have n: "CHR ''>'' \<notin> set w" "CHR ''<'' \<notin> set w" using Cons.prems plain_word_chars [of w] by simp_all
  have "\<not> startswith (dropWhile is_digit w) (c # v)" if "c \<in> {CHR ''>'', CHR ''<''}" for c v
  proof -
    have "c \<notin> set (dropWhile is_digit w)" using that n by (auto dest: set_dropWhileD)
    then show ?thesis by (auto simp: prefix_def)
  qed
  then have "redir_op_match w = None" by (simp add: redir_op_match_def Let_def)
  moreover have "w \<notin> {''>'', ''>>'', ''<'', ''>&''}" using n by auto
  ultimately show ?case using Cons by (simp add: parse_redirections.simps [of "w # ws"] extract_redir_op_def)
qed

definition pipe_tokens :: "string list list \<Rightarrow> string list" where
  "pipe_tokens wss = hd wss @ concat (map (Cons ''|'') (tl wss))"

lemma split_prefix: "sep \<notin> set ws \<Longrightarrow> split_list sep (ws @ sep # rest) = ws # split_list sep rest"
  by (induction ws) auto

lemma split_whole: "sep \<notin> set ws \<Longrightarrow> split_list sep ws = [ws]"
  by (induction ws) auto

lemma split_pipe_tokens: "wss \<noteq> [] \<Longrightarrow> \<forall>ws\<in>set wss. ''|'' \<notin> set ws \<Longrightarrow> split_list ''|'' (pipe_tokens wss) = wss"
proof (induction wss)
  case (Cons ws wss)
  then show ?case by (cases wss) (auto simp: pipe_tokens_def split_prefix split_whole)
qed simp

lemma no_bar: "\<forall>w\<in>set ws. shell_word w \<Longrightarrow> ''|'' \<notin> set ws"
  using plain_word_chars(5) by fastforce

lemma parse_plain_groups:
  "\<forall>ws\<in>set wss. \<forall>w\<in>set ws. shell_word w \<Longrightarrow> parse_groups wss = Some (map (\<lambda>ws. (ws, [])) wss)"
  by (induction wss) (simp_all add: parse_plain_words)

text \<open>A command of plain words whose class is in the table.\<close>

definition known :: "shell_cfg \<Rightarrow> string list \<Rightarrow> unit cmd \<Rightarrow> bool" where
  "known cf ws prog \<longleftrightarrow> ws \<noteq> [] \<and> (\<forall>w\<in>set ws. shell_word w) \<and> CHR ''='' \<notin> set (hd ws) \<and>
     (\<exists>c. cf_commands cf (hd ws) = Some c \<and> c (tl ws) = prog)"

lemma known_words: "known cf ws prog \<Longrightarrow> ws \<noteq> [] \<and> (\<forall>w\<in>set ws. shell_word w)"
  by (simp add: known_def)

lemma known_command: "known cf ws prog \<Longrightarrow> \<exists>c. get_command cf s (hd ws) paths = Inr (Some c) \<and> c (tl ws) = prog"
proof -
  assume k: "known cf ws prog"
  then have "shell_word (hd ws)" by (cases ws) (auto simp: known_def)
  then have "hd ws \<noteq> []" "\<not> is_space (hd (hd ws))"
    by (auto simp: shell_word_def neq_Nil_conv is_lower_def is_upper_def is_digit_def is_space_def)
  then have "py_strip (hd ws) \<noteq> []" by (auto simp: strip_by_eq_Nil)
  then show ?thesis using k by (auto simp: known_def get_command_def)
qed

text \<open>The stages that are set up for a pipeline: the output goes to the next one, or where the shell sends it.\<close>

definition plain_stage :: "bool \<Rightarrow> bool \<Rightarrow> unit cmd \<Rightarrow> shell_session \<Rightarrow> stage" where
  "plain_stage redirect nxt prog s =
     \<lparr>sg_prog = prog,
      sg_pipe = \<lparr>pp_input = None, has_next = nxt, next_input = None, redirected_data = [], err_data = [], pp_redirect = redirect,
        redirections = [], targets = default_targets nxt redirect, redirection_error = False, redirect_real_files = [],
        stdout_written = 0, stderr_written = 0, pp_fs = ss_fs s, terminal = ss_term s\<rparr>,
      sg_error = False\<rparr>"

lemma plain_stage_fields [simp]:
  "sg_prog (plain_stage r nxt prog s) = prog" "\<not> sg_error (plain_stage r nxt prog s)"
  "pp_input (sg_pipe (plain_stage r nxt prog s)) = None" "\<not> redirection_error (sg_pipe (plain_stage r nxt prog s))"
  by (simp_all add: plain_stage_def)

fun plain_stages :: "bool \<Rightarrow> unit cmd list \<Rightarrow> shell_session \<Rightarrow> stage list" where
  "plain_stages r [] s = []"
| "plain_stages r (prog # progs) s = plain_stage r (progs \<noteq> []) prog s # plain_stages r progs s"

lemma plain_stages_Nil [simp]: "plain_stages r progs s = [] \<longleftrightarrow> progs = []"
  by (cases progs) simp_all

lemma new_plain_pipe:
  "new_pipe cf r (plain_stages r progs s) [] s = (Inr (sg_pipe (plain_stage r (progs \<noteq> []) prog s)), s)"
  by (cases progs) (simp_all add: new_pipe_def PipeProtocol_def setup_redirections_def plain_stage_def)

lemma new_plain_stage:
  "new_stage c args (sg_pipe (plain_stage r (progs \<noteq> []) (c args) s)) (plain_stages r progs s) = plain_stage r (progs \<noteq> []) (c args) s"
  by (cases progs) (auto simp: new_stage_def plain_stage_def)

lemma build_known:
  assumes "list_all2 (known cf) wss progs"
  shows "build_chain cf r paths (rev (map (\<lambda>ws. (ws, [])) wss) @ rest) (plain_stages r tail_progs s) s =
    build_chain cf r paths rest (plain_stages r (progs @ tail_progs) s) s"
  using assms
proof (induction wss progs arbitrary: rest)
  case (Cons ws wss prog progs)
  obtain c where c: "get_command cf s (hd ws) paths = Inr (Some c)" "c (tl ws) = prog"
    using known_command [OF Cons.hyps(1)] by blast
  show ?case
    using Cons.IH [of "(ws, []) # rest"] c new_plain_stage [of c "tl ws" r "progs @ tail_progs" s]
    by (simp add: new_plain_pipe [where prog = prog])
qed simp

lemma plan_known:
  assumes "list_all2 (known cf) wss progs" "wss \<noteq> []" "map_of (sh_environ sh) ''PATH'' \<noteq> None"
  shows "plan_command cf sh (pipe_tokens wss) np s = (Inr (CallChain (plain_stages (sh_redirect sh) progs s)), s)"
proof -
  obtain ws wss' where wss: "wss = ws # wss'" using assms(2) by (cases wss) auto
  obtain path where path: "map_of (sh_environ sh) ''PATH'' = Some path" using assms(3) by blast
  have known: "\<exists>prog. known cf ws prog" if "ws \<in> set wss" for ws
    using assms(1) that by (auto simp: list_all2_conv_all_nth in_set_conv_nth)
  have words: "\<forall>ws\<in>set wss. ws \<noteq> [] \<and> (\<forall>w\<in>set ws. shell_word w)" using known known_words by blast
  obtain w ws' where w: "ws = w # ws'" "CHR ''='' \<notin> set w" using known [of ws] by (cases ws) (auto simp: known_def wss)
  have take: "take_assignments (sh_environ sh) (pipe_tokens wss) = (sh_environ sh, pipe_tokens wss)"
    using w by (simp add: pipe_tokens_def wss)
  have groups: "split_list ''|'' (pipe_tokens wss) = wss" using words no_bar assms(2) by (intro split_pipe_tokens) auto
  have ne: "pipe_tokens wss \<noteq> []" using w by (simp add: pipe_tokens_def wss)
  have hd_ops: "parse_redirections (hd wss) = Some (w # ws', [])" using parse_plain_words [of ws] words by (simp add: wss w)
  have others: "parse_groups (tl wss) = Some (map (\<lambda>ws. (ws, [])) wss')" using words parse_plain_groups [of wss'] by (simp add: wss)
  have kept: "filter (\<lambda>g. fst g \<noteq> []) (map (\<lambda>ws. (ws, [])) wss') = map (\<lambda>ws. (ws, [])) wss'"
    using words by (intro filter_True) (auto simp: wss)
  have "progs \<noteq> []" using assms(1) by (auto simp: wss)
  have "\<not> sg_error (hd (plain_stages (sh_redirect sh) progs s))" using \<open>progs \<noteq> []\<close> by (cases progs) simp_all
  then show ?thesis
    using build_known [OF assms(1), of "sh_redirect sh" "split_on (CHR '':'') path" "[]" "[]" s] path \<open>progs \<noteq> []\<close>
    by (simp only: plan_command_def take prod.case Let_def groups ne if_False hd_ops others option.case list.case)
      (simp add: wss kept call_groups_def w)
qed

lemma run_emitter:
  "\<exists>sg. run_stage cf (plain_stage False False (start_call (write_bytes b)) s) [] t =
     (Inr True, t\<lparr>ss_term := ss_term t @ b, ss_pp := [sg]\<rparr>)"
  by (simp add: run_stage_def plain_stage_def cmd_defs write_stdout_def write_to_fd_def default_targets_def write_to_terminal_def)
    blast

text \<open>Every command resumes the shell, which runs the next one inside the call: two frames each, and one for the prompt.\<close>

lemma run_pending:
  assumes "\<forall>(ws, b)\<in>set cs. known cf ws (start_call (write_bytes b))" "\<not> sh_redirect sh" "sh_interactive sh"
    and "map_of (sh_environ sh) ''PATH'' \<noteq> None" "list_all (\<lambda>c. ord c < 128) (shell_prompt_text cf (ss_cwd s))"
    and "ss_stack s = [FShell (sh\<lparr>sh_pending := map fst cs\<rparr>)]" "cs = [] \<longrightarrow> (\<exists>sg. ss_pp s = [sg])" "2 * length cs < d"
  shows "\<exists>sg. run_command d cf 0 s =
    (Inr (), s\<lparr>ss_term := ss_term s @ concat (map snd cs) @ shell_prompt_text cf (ss_cwd s),
       ss_stack := [FShell (sh\<lparr>sh_pending := []\<rparr>)], ss_pp := [sg]\<rparr>)"
  using assms
proof (induction cs arbitrary: d s)
  case Nil
  then obtain d' sg where "d = Suc d'" "ss_pp s = [sg]" by (cases d) auto
  with Nil.prems show ?case
    by (intro exI [of _ sg]) (simp add: shell_at_def nothing_pending_def shell_show_prompt_def session_write_def Let_def)
next
  case (Cons x cs)
  obtain ws b where x: "x = (ws, b)" by (cases x)
  have k: "known cf ws (start_call (write_bytes b))" using Cons.prems(1) by (simp add: x)
  from Cons.prems(8) obtain e where e: "d = Suc (Suc e)" "2 * length cs < e" by (cases d; cases "d - 1") auto
  let ?sh = "sh\<lparr>sh_pending := map fst cs\<rparr>"
  let ?s = "set_pending 0 (map fst cs) s"
  have s: "?s = s\<lparr>ss_stack := [FShell ?sh]\<rparr>" using Cons.prems(6) by (simp add: set_pending_def shell_at_def)
  have plan: "plan_command cf (sh\<lparr>sh_pending := ws # map fst cs\<rparr>) ws np ?s =
      (Inr (CallChain [plain_stage False False (start_call (write_bytes b)) ?s]), ?s)" for np
    using plan_known [of cf "[ws]" "[start_call (write_bytes b)]" "sh\<lparr>sh_pending := ws # map fst cs\<rparr>" np ?s] k Cons.prems(2,4)
    by (simp add: pipe_tokens_def)
  obtain sg where run: "run_stage cf (plain_stage False False (start_call (write_bytes b)) ?s) []
      (?s\<lparr>ss_pp := [plain_stage False False (start_call (write_bytes b)) ?s], ss_stack := ss_stack ?s @ [FCommand]\<rparr>) =
      (Inr True, ?s\<lparr>ss_stack := ss_stack ?s @ [FCommand], ss_term := ss_term s @ b, ss_pp := [sg]\<rparr>)"
    using run_emitter [of cf b ?s "?s\<lparr>ss_pp := [plain_stage False False (start_call (write_bytes b)) ?s], ss_stack := ss_stack ?s @ [FCommand]\<rparr>"]
    by (auto simp: s)
  let ?t = "s\<lparr>ss_term := ss_term s @ b, ss_pp := [sg], ss_stack := [FShell ?sh]\<rparr>"
  obtain sg' where ih: "run_command e cf 0 ?t =
      (Inr (), ?t\<lparr>ss_term := ss_term ?t @ concat (map snd cs) @ shell_prompt_text cf (ss_cwd ?t),
         ss_stack := [FShell (sh\<lparr>sh_pending := []\<rparr>)], ss_pp := [sg']\<rparr>)"
    using Cons.IH [of ?t e] Cons.prems e(2) by auto
  have "shell_at 0 s = Some (sh\<lparr>sh_pending := ws # map fst cs\<rparr>)" using Cons.prems(6) by (simp add: shell_at_def x)
  then show ?case using plan run ih by (intro exI [of _ sg']) (simp add: e x s)
qed


section \<open>Pipelines\<close>

text \<open>What a program does with its input: it writes some bytes to wherever its output goes, and exits.\<close>

definition answers :: "unit cmd \<Rightarrow> bytestr option \<Rightarrow> bytestr \<Rightarrow> bool" where
  "answers prog inp b \<longleftrightarrow>
     (\<forall>st. plain_out st \<and> c_running st \<and> c_input st = inp \<longrightarrow> prog st = (Inr (), (put b st)\<lparr>c_running := False\<rparr>))"

fun flows :: "bytestr option \<Rightarrow> (unit cmd \<times> bytestr) list \<Rightarrow> bool" where
  "flows inp [] \<longleftrightarrow> True"
| "flows inp ((prog, b) # ps) \<longleftrightarrow> answers prog inp b \<and> flows (Some b) ps"

definition with_input :: "bytestr option \<Rightarrow> stage \<Rightarrow> stage" where
  "with_input inp sg = sg\<lparr>sg_pipe := (sg_pipe sg)\<lparr>pp_input := inp\<rparr>\<rparr>"

lemma run_inner:
  assumes "answers prog inp b"
  shows "\<exists>sg'. run_stage cf (with_input inp (plain_stage False True prog s)) (n # ns) t =
    (Inr True, t\<lparr>ss_pp := sg' # with_input (Some b) n # ns\<rparr>)"
  using assms
  by (simp add: run_stage_def answers_def with_input_def plain_stage_def plain_out_def put_def default_targets_def
      write_stdout_def write_to_fd_def pipe_to_next_def) blast

lemma run_last:
  assumes "answers prog inp b"
  shows "\<exists>sg'. run_stage cf (with_input inp (plain_stage False False prog s)) [] t =
    (Inr True, t\<lparr>ss_term := ss_term t @ b, ss_pp := [sg']\<rparr>)"
  using assms
  by (simp add: run_stage_def answers_def with_input_def plain_stage_def plain_out_def put_def default_targets_def
      write_stdout_def write_to_fd_def write_to_terminal_def) blast

lemma call_exited:
  assumes "run_stage cf sg rest (s\<lparr>ss_pp := sg # rest, ss_stack := ss_stack s @ [FCommand]\<rparr>) = (Inr True, u)"
    and "ss_stack u = ss_stack s @ [FCommand]" "ss_stack s \<noteq> []"
    and "run_command d cf (length (ss_stack s) - 1) (u\<lparr>ss_stack := ss_stack s\<rparr>) = (Inr (), v)"
  shows "call_command (Suc d) cf (sg # rest) s = (if tl (ss_pp v) \<noteq> [] then call_command d cf (tl (ss_pp v)) v else (Inr (), v))"
  using assms by simp

text \<open>Each command runs inside the call of its predecessor.\<close>

lemma run_chain:
  assumes "flows inp ps" "ps \<noteq> []" "ss_stack t = [FShell sh]" "sh_pending sh = []" "sh_interactive sh"
    and "list_all (\<lambda>c. ord c < 128) (shell_prompt_text cf (ss_cwd t))" "length ps < d"
    and "chain = with_input inp (plain_stage False (tl ps \<noteq> []) (fst (hd ps)) s) # plain_stages False (map fst (tl ps)) s"
  shows "\<exists>sg. call_command d cf chain t = (Inr (), t\<lparr>ss_term := ss_term t @ snd (last ps) @ shell_prompt_text cf (ss_cwd t), ss_pp := [sg]\<rparr>)"
  using assms
proof (induction ps arbitrary: inp d t chain)
  case (Cons p ps)
  obtain prog b where p: "p = (prog, b)" by (cases p)
  have ans: "answers prog inp b" "flows (Some b) ps" using Cons.prems(1) by (simp_all add: p)
  from Cons.prems(7) obtain e where e: "d = Suc (Suc e)" "length ps < Suc e" by (cases d; cases "d - 1") auto
  let ?t = "t\<lparr>ss_pp := chain, ss_stack := ss_stack t @ [FCommand]\<rparr>"
  show ?case
  proof (cases ps)
    case Nil
    obtain sg where "run_stage cf (with_input inp (plain_stage False False prog s)) [] ?t =
        (Inr True, ?t\<lparr>ss_term := ss_term ?t @ b, ss_pp := [sg]\<rparr>)" using run_last [OF ans(1)] by blast
    with Cons.prems show ?thesis
      by (intro exI [of _ sg])
        (simp add: Nil p e with_input_def shell_at_def nothing_pending_def shell_show_prompt_def session_write_def Let_def)
  next
    case (Cons q qs)
    let ?next = "plain_stage False (qs \<noteq> []) (fst q) s"
    let ?rest = "plain_stages False (map fst qs) s"
    have chain: "chain = with_input inp (plain_stage False True prog s) # ?next # ?rest"
      using Cons.prems(8) by (simp add: p Cons)
    obtain sg where run: "run_stage cf (with_input inp (plain_stage False True prog s)) (?next # ?rest) ?t =
        (Inr True, ?t\<lparr>ss_pp := sg # with_input (Some b) ?next # ?rest\<rparr>)" using run_inner [OF ans(1)] by blast
    let ?u = "t\<lparr>ss_pp := sg # with_input (Some b) ?next # ?rest\<rparr>"
    have "\<exists>sg. call_command (Suc e) cf (with_input (Some b) ?next # ?rest) ?u =
        (Inr (), ?u\<lparr>ss_term := ss_term ?u @ snd (last ps) @ shell_prompt_text cf (ss_cwd ?u), ss_pp := [sg]\<rparr>)"
    proof (rule Cons.IH [OF ans(2)])
      show "ss_stack ?u = [FShell sh]" using Cons.prems(3) by simp
      show "list_all (\<lambda>c. ord c < 128) (shell_prompt_text cf (ss_cwd ?u))" using Cons.prems(6) by simp
    qed (use e(2) Cons.prems(4,5) in \<open>simp_all add: Cons\<close>)
    then obtain sg' where ih: "call_command (Suc e) cf (with_input (Some b) ?next # ?rest) ?u =
        (Inr (), ?u\<lparr>ss_term := ss_term ?u @ snd (last ps) @ shell_prompt_text cf (ss_cwd ?u), ss_pp := [sg']\<rparr>)"
      by blast
    have resume: "run_command (Suc e) cf (length (ss_stack t) - 1)
        (?t\<lparr>ss_pp := sg # with_input (Some b) ?next # ?rest, ss_stack := ss_stack t\<rparr>) = (Inr (), ?u)"
      using Cons.prems(3,4) by (simp add: shell_at_def nothing_pending_def)
    have run': "run_stage cf (with_input inp (plain_stage False True prog s)) (?next # ?rest)
        (t\<lparr>ss_pp := with_input inp (plain_stage False True prog s) # ?next # ?rest, ss_stack := ss_stack t @ [FCommand]\<rparr>) =
        (Inr True, ?t\<lparr>ss_pp := sg # with_input (Some b) ?next # ?rest\<rparr>)"
      using run by (simp only: chain)
    have "call_command (Suc (Suc e)) cf chain t =
        (if tl (ss_pp ?u) \<noteq> [] then call_command (Suc e) cf (tl (ss_pp ?u)) ?u else (Inr (), ?u))"
      unfolding chain by (rule call_exited [OF run' _ _ resume]) (simp_all add: Cons.prems(3))
    with ih show ?thesis by (intro exI [of _ sg']) (simp add: Cons e p del: call_command.simps)
  qed
qed simp

lemma pipe_words: "wss \<noteq> [] \<Longrightarrow> \<forall>ws\<in>set wss. ws \<noteq> [] \<and> (\<forall>w\<in>set ws. shell_word w) \<Longrightarrow>
    pipe_tokens wss \<noteq> [] \<and> (\<forall>w\<in>set (pipe_tokens wss). line_word w) \<and> shell_word (last (pipe_tokens wss))"
proof (induction wss)
  case (Cons ws wss)
  show ?case
  proof (cases wss)
    case Nil
    then show ?thesis using Cons.prems by (auto simp: pipe_tokens_def line_word_def)
  next
    case (Cons v vs)
    have "pipe_tokens (ws # wss) = ws @ ''|'' # pipe_tokens wss" by (simp add: pipe_tokens_def Cons)
    then show ?thesis using Cons.IH Cons.prems Cons by (auto simp: line_word_def)
  qed
qed simp

text \<open>C14: Typing a pipeline of known commands to an idle interactive shell gives each command exactly the bytes that the
  one before it wrote, shows what the last one writes and then one prompt, and leaves the shell idle: nothing that an
  earlier command writes reaches the terminal.\<close>

theorem pipeline_composes:
  assumes "list_all2 (\<lambda>ws (prog, b). known cf ws prog) wss ps" "flows None ps" "wss \<noteq> []"
    and "ss_stack s = [FShell sh]" "sh_pending sh = []" "sh_interactive sh" "\<not> sh_redirect sh"
    and "map_of (sh_environ sh) ''PATH'' \<noteq> None" "list_all (\<lambda>c. ord c < 128) (shell_prompt_text cf (ss_cwd s))"
    and "length wss + 2 < d"
  shows "\<exists>sg. protocol_line d cf (py_join '' '' (pipe_tokens wss)) s =
    (Inr (), s\<lparr>ss_term := ss_term s @ snd (last ps) @ shell_prompt_text cf (ss_cwd s), ss_pp := [sg]\<rparr>)"
proof -
  obtain e where e: "d = Suc (Suc e)" "length ps < e"
    using assms(10) list_all2_lengthD [OF assms(1)] by (cases d; cases "d - 1") auto
  have known: "list_all2 (known cf) wss (map fst ps)" using assms(1) by (simp add: list_all2_map2 case_prod_beta')
  then have "\<forall>ws\<in>set wss. \<exists>prog. known cf ws prog" by (fastforce simp: list_all2_conv_all_nth in_set_conv_nth)
  then have words: "\<forall>ws\<in>set wss. ws \<noteq> [] \<and> (\<forall>w\<in>set ws. shell_word w)" using known_words by blast
  note tokens = pipe_words [OF assms(3) words]
  have line: "token_loop d' environ run_sub (py_join '' '' (pipe_tokens wss)) [] [] s = (Inr [pipe_tokens wss], s)" for d' environ run_sub
    using line_loop [of "[pipe_tokens wss]"] tokens by (simp add: command_line_def)
  have "ps \<noteq> []" using assms(1,3) by auto
  then obtain p ps' where p: "ps = p # ps'" by (cases ps) auto
  let ?s = "set_pending 0 [pipe_tokens wss] s"
  have s: "?s = s\<lparr>ss_stack := [FShell (sh\<lparr>sh_pending := [pipe_tokens wss]\<rparr>)]\<rparr>" using assms(4) by (simp add: set_pending_def shell_at_def)
  have idle: "set_pending 0 [] ?s = s" using assms(4,5) by (simp add: s) (simp add: set_pending_def shell_at_def)
  have plan: "plan_command cf (sh\<lparr>sh_pending := [pipe_tokens wss]\<rparr>) (pipe_tokens wss) np s =
      (Inr (CallChain (plain_stages False (map fst ps) s)), s)" for np
    using plan_known [OF known assms(3)] assms(7,8) by simp
  have "with_input None (plain_stage False nxt prog s) = plain_stage False nxt prog s" for nxt prog
    by (simp add: with_input_def plain_stage_def)
  then obtain sg where "call_command e cf (plain_stages False (map fst ps) s) s =
      (Inr (), s\<lparr>ss_term := ss_term s @ snd (last ps) @ shell_prompt_text cf (ss_cwd s), ss_pp := [sg]\<rparr>)"
    using run_chain [OF assms(2) \<open>ps \<noteq> []\<close> assms(4,5,6,9) e(2), of "plain_stages False (map fst ps) s" s] by (auto simp: p)
  then have "run_command (Suc e) cf 0 ?s =
      (Inr (), s\<lparr>ss_term := ss_term s @ snd (last ps) @ shell_prompt_text cf (ss_cwd s), ss_pp := [sg]\<rparr>)"
    using idle plan by (simp add: shell_at_def s del: call_command.simps)
  then show ?thesis
    using tokens merge_plain [of "pipe_tokens wss"] assms(4,5)
    by (intro exI [of _ sg]) (simp add: protocol_line_def e shell_at_def line del: run_command.simps)
qed

section \<open>Concrete sessions\<close>

definition example_cfg :: shell_cfg where
  "example_cfg =
     \<lparr>cf_env = example_shell, cf_user = ''root'', cf_hostname = ''srv'', cf_home = ''/root'', cf_prompt = None, cf_exec = False,
      cf_environ = [(''PATH'', ''/bin'')],
      cf_commands = map_of [(''echo'', \<lambda>args. start_call (echo_call args)),
        (''base64'', \<lambda>args. void_cmd (base64 example_env args)), (''cat'', \<lambda>args. void_cmd (cat example_env args))],
      cf_txtcmds = (\<lambda>_. None), cf_script = (\<lambda>_ _. ret ()), cf_decode = (\<lambda>b. Some b)\<rparr>"

definition idle_session :: shell_session where
  "idle_session = snd (shell_connection_made 30 example_cfg example_fs)"

definition idle_shell :: shell where
  "idle_shell = \<lparr>sh_interactive = True, sh_redirect = False, sh_pending = [], sh_environ = [(''PATH'', ''/bin'')]\<rparr>"

definition typed :: "string list \<Rightarrow> shell_session" where
  "typed ls = fold (\<lambda>l s. snd (protocol_line 30 example_cfg l s)) ls idle_session"

lemma idle_session:
  "idle_session = \<lparr>ss_fs = example_fs, ss_cwd = ''/'', ss_term = ''root@srv:/# '',
     ss_stack = [FShell idle_shell],
     ss_pp = [], ss_ended = 0\<rparr>"
proof -
  have "fs_exists 3 True example_fs ''/root'' = Inr False" by code_simp
  then show ?thesis
    by (simp add: idle_session_def shell_connection_made_def new_session_def example_cfg_def example_shell_def shell_show_prompt_def shell_at_def
        shell_prompt_text_def session_write_def Let_def idle_shell_def)
qed

lemma idle_fields: "sh_pending idle_shell = []" "sh_interactive idle_shell" "\<not> sh_redirect idle_shell"
  "map_of (sh_environ idle_shell) ''PATH'' = Some ''/bin''"
  by (simp_all add: idle_shell_def)

lemma example_known:
  "known example_cfg [''echo'', ''hi''] (start_call (write_bytes (''hi'' @ [nl])))"
  "known example_cfg [''base64''] (void_cmd (base64 example_env []))"
  "known example_cfg [''base64'', ''-d''] (void_cmd (base64 example_env [''-d'']))"
proof -
  have "unescape_x ''hi'' = ''hi''" "utf8 (''hi'' @ [nl]) = ''hi'' @ [nl]" "\<not> endswith ''hi'' [bslash, CHR ''c'']"
    by code_simp+
  then have "echo_call [''hi''] = write_bytes (''hi'' @ [nl])"
    by (simp add: echo_call_def write_str_def fun_eq_iff Let_def)
  then show "known example_cfg [''echo'', ''hi''] (start_call (write_bytes (''hi'' @ [nl])))"
    by (simp add: known_def example_cfg_def shell_word_def is_lower_def)
  show "known example_cfg [''base64''] (void_cmd (base64 example_env []))"
    "known example_cfg [''base64'', ''-d''] (void_cmd (base64 example_env [''-d'']))"
    by (simp_all add: known_def example_cfg_def shell_word_def is_lower_def is_digit_def)
qed

lemma base64_encodes:
  assumes "b \<noteq> []"
  shows "answers (void_cmd (base64 env [])) (Some b) (b64encode b @ [nl])"
  using assms
  by (simp add: answers_def void_cmd_def base64_def no_input_def the_input_def dojob_def bind_cmd_def andthen_def gets_def
      exit_cmd_def ret_def write_bytes_put put_put)

lemma base64_decodes:
  "answers (void_cmd (base64 env [''-d''])) (Some (b64encode b @ [nl])) b"
proof -
  have "b64decode (b64encode b @ [nl]) = Some b"
    unfolding b64decode_def by (rule a2b_b64encode) (simp_all add: b64_alphabet_def)
  moreover have "getopt [] [''-d''] ''diw:'' [''version'', ''help'', ''decode'', ''ignore-garbage'', ''wrap=''] = Inr ([(''-d'', [])], [])"
    by simp
  ultimately show ?thesis
    by (simp add: answers_def void_cmd_def base64_def base64_opt_def no_input_def the_input_def dojob_def bind_cmd_def andthen_def gets_def
        write_bytes_put exit_cmd_def ret_def)
qed

lemma emitter_answers: "answers (start_call (write_bytes b)) inp b"
  by (simp add: answers_def start_call_def andthen_def bind_cmd_def write_bytes_put exit_cmd_def)


theorem pipeline_composes_witness:
  "\<exists>sg. protocol_line 6 example_cfg ''echo hi | base64 | base64 -d'' idle_session =
    (Inr (), idle_session\<lparr>ss_term := ss_term idle_session @ ''hi'' @ [nl] @ ''root@srv:/# '', ss_pp := [sg]\<rparr>)"
proof -
  have p: "shell_prompt_text example_cfg ''/'' = ''root@srv:/# ''" by (simp add: shell_prompt_text_def example_cfg_def example_shell_def)
  have f: "flows None [(start_call (write_bytes (''hi'' @ [nl])), ''hi'' @ [nl]),
      (void_cmd (base64 example_env []), b64encode (''hi'' @ [nl]) @ [nl]), (void_cmd (base64 example_env [''-d'']), ''hi'' @ [nl])]"
    by (simp only: flows.simps emitter_answers base64_encodes base64_decodes list.distinct append_is_Nil_conv simp_thms)
  show ?thesis
    using pipeline_composes [OF _ f, of example_cfg "[[''echo'', ''hi''], [''base64''], [''base64'', ''-d'']]" idle_session idle_shell 6]
    by (simp add: example_known [simplified] pipe_tokens_def idle_session p idle_fields)
qed


section \<open>Where the shell departs from what it imitates\<close>


text \<open>A command behind a pipeline takes the place of the rest of the pipeline: the first command resumes the shell before
  the second one is called.\<close>

lemma pipeline_cut_short: "ss_term (typed [''echo hi | base64; echo b'']) = ''root@srv:/# b'' @ [nl] @ ''root@srv:/# ''"
  by code_simp

text \<open>In a substitution the output of every command is captured, so nothing reaches the second command of a pipeline. It
  waits for input in the place of its shell, and the prompt does not come back.\<close>

lemma substituted_pipeline_hangs:
  "case typed [''echo x$(echo hi | base64)y''] of s \<Rightarrow>
     ss_term s = ''root@srv:/# xy'' @ [nl] \<and> length (ss_stack s) = 2"
  by code_simp

text \<open>A subshell runs while the line is read, before the commands that precede it.\<close>

lemma subshell_runs_first:
  "ss_term (typed [''echo a; (echo b)'']) = ''root@srv:/# b'' @ [nl] @ ''a'' @ [nl] @ ''root@srv:/# ''"
  by code_simp

text \<open>An operator behind a subshell is a syntax error.\<close>

lemma operator_after_subshell:
  "ss_term (typed [''(echo a) && echo b'']) =
     ''root@srv:/# a'' @ [nl] @ ''-bash: syntax error near unexpected token '' @ [bquote] @ ''&&'' @ [squote, nl] @ ''root@srv:/# ''"
  by code_simp

text \<open>A substitution that runs no command repeats what the last one captured.\<close>

lemma stale_substitution:
  "ss_term (typed [''echo $(echo a) $(nosuch)'']) =
     ''root@srv:/# -bash: nosuch: command not found'' @ [nl] @ ''a a'' @ [nl] @ ''root@srv:/# ''"
  by code_simp

end
