(* ===== verification/Pool_Service.thy ===== *)
theory Pool_Service
  imports Py_Float
begin

text \<open>
  The pool of virtual machines behind the proxies (\<open>src/src/backend_pool/pool_service.py\<close>): the list of guests, the
  phases of the producer and the requests of the consumers, with the choice of a free address by the backend
  (\<open>libvirt/backend_service.py\<close>). Port scans, the clock and what libvirt makes of a new guest are arguments. A
  Python \<open>None\<close> in the field of a state is \<open>NoState\<close>.
\<close>

section \<open>Guests and the pool\<close>

datatype guest_state = Created | Available | Using | Used | Unavailable | Destroyed | NoState

record guest =
  g_id :: nat
  client_ips :: "string list"
  connected :: int
  g_state :: guest_state
  prev_state :: guest_state
  start_timestamp :: rat
  freed_timestamp :: rat
  g_domain :: string
  guest_ip :: string
  snapshot :: string

text \<open>The timer of the producer loop: \<open>loop_next_call\<close> is not set, is waiting, or was cancelled.\<close>

datatype timer = NoTimer | Waiting | Cancelled

record pool =
  guests :: "guest list"
  guest_id :: nat
  any_vm_up :: bool
  max_vm :: nat
  vm_unused_timeout :: rat
  share_guests :: bool
  pool_ssh_port :: int
  pool_telnet_port :: int
  backend_ready :: bool
  loop_call :: timer

datatype pool_error = NoAvailableVMs | LibvirtError | AlreadyCancelled | AttributeMissing

definition new_pool :: "int \<Rightarrow> int \<Rightarrow> pool" where
  "new_pool ssh telnet =
     \<lparr>guests = [], guest_id = 0, any_vm_up = False, max_vm = 2, vm_unused_timeout = 600, share_guests = True, pool_ssh_port = ssh,
      pool_telnet_port = telnet, backend_ready = False, loop_call = NoTimer\<rparr>"

definition start_pool :: "pool \<Rightarrow> pool" where
  "start_pool p = p\<lparr>guests := [], guest_id := 0, any_vm_up := False, backend_ready := True\<rparr>"

definition set_configs :: "nat \<Rightarrow> rat \<Rightarrow> bool \<Rightarrow> pool \<Rightarrow> pool" where
  "set_configs n t sharing p = p\<lparr>max_vm := n, vm_unused_timeout := t, share_guests := sharing\<rparr>"

text \<open>The guests stay in the list, and a timer that was cancelled cannot be cancelled again.\<close>

definition stop_pool :: "pool \<Rightarrow> (pool_error + unit) \<times> pool" where
  "stop_pool p =
     (if loop_call p = Cancelled then (Inl AlreadyCancelled, p)
      else (Inr (), p\<lparr>loop_call := (if loop_call p = Waiting then Cancelled else loop_call p), backend_ready := False\<rparr>))"

definition get_guest_states :: "guest_state set \<Rightarrow> pool \<Rightarrow> guest list" where
  "get_guest_states states p = filter (\<lambda>g. g_state g \<in> states) (guests p)"

definition existing_pool_size :: "pool \<Rightarrow> nat" where
  "existing_pool_size p = length (filter (\<lambda>g. g_state g \<noteq> Destroyed) (guests p))"

definition is_ip_free :: "pool \<Rightarrow> string \<Rightarrow> bool" where
  "is_ip_free p ip \<longleftrightarrow> \<not> list_ex (\<lambda>g. guest_ip g = ip) (guests p)"

text \<open>\<open>scan\<close> is \<open>nmap_port\<close>. Without a telnet port the second test succeeds.\<close>

definition has_connectivity :: "(string \<Rightarrow> int \<Rightarrow> bool) \<Rightarrow> pool \<Rightarrow> string \<Rightarrow> bool" where
  "has_connectivity scan p ip =
     (let has_ssh = (if pool_ssh_port p > 0 then scan ip (pool_ssh_port p) else False);
          has_telnet = (if pool_telnet_port p > 0 \<and> \<not> has_ssh then scan ip (pool_telnet_port p) else True) in
      has_ssh \<or> has_telnet)"

section \<open>The producer\<close>

definition update_guests :: "(guest \<Rightarrow> guest) \<Rightarrow> pool \<Rightarrow> pool" where
  "update_guests f p = p\<lparr>guests := map f (guests p)\<rparr>"

definition mark_timed_out :: "rat \<Rightarrow> pool \<Rightarrow> pool" where
  "mark_timed_out now p =
     update_guests (\<lambda>g. if g_state g = Used \<and> fadd (freed_timestamp g) (vm_unused_timeout p) < now then g\<lparr>g_state := Unavailable\<rparr> else g) p"

definition check_health :: "(string \<Rightarrow> int \<Rightarrow> bool) \<Rightarrow> pool \<Rightarrow> pool" where
  "check_health scan p =
     update_guests (\<lambda>g. if g_state g \<in> {Available, Using, Used} \<and> \<not> has_connectivity scan p (guest_ip g)
       then g\<lparr>g_state := Unavailable\<rparr> else g) p"

text \<open>\<open>destroy_guest\<close> of the backend catches its own errors.\<close>

definition destroy_timed_out :: "pool \<Rightarrow> pool" where
  "destroy_timed_out p = update_guests (\<lambda>g. if g_state g = Unavailable then g\<lparr>g_state := Destroyed\<rparr> else g) p"

text \<open>\<open>list.remove\<close> takes the first guest that is equal.\<close>

definition remove_destroyed :: "pool \<Rightarrow> pool" where
  "remove_destroyed p = p\<lparr>guests := fold remove1 (get_guest_states {Destroyed} p) (guests p)\<rparr>"

definition mark_available :: "(string \<Rightarrow> int \<Rightarrow> bool) \<Rightarrow> pool \<Rightarrow> pool" where
  "mark_available scan p =
     (let up = (\<lambda>g. g_state g = Created \<and> has_connectivity scan p (guest_ip g)) in
      (update_guests (\<lambda>g. if up g then g\<lparr>g_state := Available\<rparr> else g) p)
        \<lparr>any_vm_up := any_vm_up p \<or> list_ex up (guests p)\<rparr>)"

text \<open>The backend tries 500 random rows of its table of addresses; a guest that libvirt fails to make is given up.\<close>

fun get_mac_ip :: "(string \<times> string) list \<Rightarrow> (string \<Rightarrow> bool) \<Rightarrow> (string \<times> string) option" where
  "get_mac_ip [] ip_tester = None"
| "get_mac_ip ((mac, ip) # choices) ip_tester = (if ip_tester ip then Some (mac, ip) else get_mac_ip choices ip_tester)"

record spawn =
  sp_choices :: "(string \<times> string) list"
  sp_made :: "string \<Rightarrow> (string \<times> string) option"
  sp_time :: rat

definition create_guest :: "spawn \<Rightarrow> pool \<Rightarrow> pool_error + (string \<times> string \<times> string) option" where
  "create_guest sp p =
     (if \<not> backend_ready p then Inr None
      else case get_mac_ip (take 500 (sp_choices sp)) (is_ip_free p) of
          None \<Rightarrow> Inl LibvirtError
        | Some (mac, ip) \<Rightarrow> Inr (map_option (\<lambda>(domain, snap). (domain, snap, ip)) (sp_made sp mac)))"

definition add_guest :: "rat \<Rightarrow> string \<times> string \<times> string \<Rightarrow> pool \<Rightarrow> pool" where
  "add_guest now made p =
     (case made of (domain, snap, ip) \<Rightarrow>
        p\<lparr>guests := guests p @ [\<lparr>g_id = guest_id p, client_ips = [], connected = 0, g_state = Created, prev_state = NoState,
             start_timestamp = now, freed_timestamp = -1, g_domain = domain, guest_ip = ip, snapshot = snap\<rparr>],
          guest_id := (if guest_id p + 1 = 252 then 0 else guest_id p + 1)\<rparr>)"

text \<open>One round for each missing guest.\<close>

fun create_rounds :: "nat \<Rightarrow> (nat \<Rightarrow> spawn) \<Rightarrow> pool \<Rightarrow> (pool_error + unit) \<times> pool" where
  "create_rounds 0 sps p = (Inr (), p)"
| "create_rounds (Suc n) sps p =
     (case create_guest (sps n) p of
        Inl e \<Rightarrow> (Inl e, p)
      | Inr None \<Rightarrow> create_rounds n sps p
      | Inr (Some made) \<Rightarrow> create_rounds n sps (add_guest (sp_time (sps n)) made p))"

definition create_guests :: "(nat \<Rightarrow> spawn) \<Rightarrow> pool \<Rightarrow> (pool_error + unit) \<times> pool" where
  "create_guests sps p = create_rounds (max_vm p - existing_pool_size p) sps p"

text \<open>An error ends the loop: the timer is not set again.\<close>

definition producer_loop :: "rat \<Rightarrow> (string \<Rightarrow> int \<Rightarrow> bool) \<Rightarrow> (nat \<Rightarrow> spawn) \<Rightarrow> pool \<Rightarrow> (pool_error + unit) \<times> pool" where
  "producer_loop now scan sps p =
     (let p1 = (if existing_pool_size p > 1 then destroy_timed_out (mark_timed_out now p) else p) in
      case create_guests sps (remove_destroyed (check_health scan p1)) of
        (Inl e, p2) \<Rightarrow> (Inl e, p2)
      | (Inr _, p2) \<Rightarrow> (Inr (), (mark_available scan p2)\<lparr>loop_call := Waiting\<rparr>))"

section \<open>The consumers\<close>

text \<open>The position of the first guest that satisfies a test.\<close>

fun first_guest :: "(guest \<Rightarrow> bool) \<Rightarrow> guest list \<Rightarrow> nat option" where
  "first_guest P [] = None"
| "first_guest P (g # gs) = (if P g then Some 0 else map_option Suc (first_guest P gs))"

definition in_use :: "guest \<Rightarrow> bool" where
  "in_use g \<longleftrightarrow> g_state g \<in> {Used, Using}"

definition get_guest_ip :: "string \<Rightarrow> pool \<Rightarrow> nat option" where
  "get_guest_ip src p = first_guest (\<lambda>g. in_use g \<and> src \<in> set (client_ips g)) (guests p)"

definition get_available_guest :: "pool \<Rightarrow> nat option" where
  "get_available_guest p = first_guest (\<lambda>g. g_state g = Available) (guests p)"

text \<open>The first of those with the fewest connections.\<close>

definition get_any_guest :: "pool \<Rightarrow> nat option" where
  "get_any_guest p =
     (let usable = filter in_use (guests p) in
      if usable = [] then None
      else first_guest (\<lambda>g. in_use g \<and> connected g = Min (connected ` set usable)) (guests p))"

definition or_else :: "'a option \<Rightarrow> 'a option \<Rightarrow> 'a option" where
  "or_else x y = (case x of None \<Rightarrow> y | Some v \<Rightarrow> Some v)"

definition choose_guest :: "string \<Rightarrow> pool \<Rightarrow> nat option" where
  "choose_guest src p =
     or_else (get_guest_ip src p) (or_else (get_available_guest p) (if share_guests p then get_any_guest p else None))"

definition hand_out :: "string \<Rightarrow> guest \<Rightarrow> guest" where
  "hand_out src g = g\<lparr>prev_state := g_state g, g_state := Using, connected := connected g + 1, client_ips := client_ips g @ [src]\<rparr>"

definition change_guest :: "nat \<Rightarrow> (guest \<Rightarrow> guest) \<Rightarrow> pool \<Rightarrow> pool" where
  "change_guest i f p = p\<lparr>guests := (guests p)[i := f (guests p ! i)]\<rparr>"

definition request_vm :: "string \<Rightarrow> pool \<Rightarrow> (pool_error + (nat \<times> string \<times> string)) \<times> pool" where
  "request_vm src p =
     (case choose_guest src p of
        None \<Rightarrow>
          if any_vm_up p then
            (case stop_pool p of (Inl e, p1) \<Rightarrow> (Inl e, p1) | (Inr _, p1) \<Rightarrow> (Inl NoAvailableVMs, p1))
          else (Inl NoAvailableVMs, p)
      | Some i \<Rightarrow>
          let g = guests p ! i in (Inr (g_id g, guest_ip g, snapshot g), change_guest i (hand_out src) p))"

definition take_back :: "rat \<Rightarrow> guest \<Rightarrow> guest" where
  "take_back now g =
     (let g1 = g\<lparr>freed_timestamp := now, connected := connected g - 1\<rparr> in
      if connected g1 = 0 then g1\<lparr>g_state := Used\<rparr> else g1)"

definition undo_hand_out :: "guest \<Rightarrow> guest" where
  "undo_hand_out g =
     (let g1 = g\<lparr>connected := connected g - 1\<rparr> in
      if connected g1 = 0 then g1\<lparr>g_state := prev_state g, prev_state := NoState\<rparr> else g1)"

definition with_id :: "nat \<Rightarrow> (guest \<Rightarrow> guest) \<Rightarrow> pool \<Rightarrow> pool" where
  "with_id n f p = (case first_guest (\<lambda>g. g_id g = n) (guests p) of None \<Rightarrow> p | Some i \<Rightarrow> change_guest i f p)"

definition free_vm :: "rat \<Rightarrow> nat \<Rightarrow> pool \<Rightarrow> pool" where
  "free_vm now n p = with_id n (take_back now) p"

definition reuse_vm :: "nat \<Rightarrow> pool \<Rightarrow> pool" where
  "reuse_vm n p = with_id n undo_hand_out p"

end
