(* ===== verification/Pool_Laws.thy ===== *)
theory Pool_Laws
  imports Pool_Service
begin

text \<open>
  The pool as a step relation: the producer loop runs as one step, because from its second round on the timer calls it
  in the thread of the consumers, and in the first one there are no guests. Invariants of every pool that can be reached,
  what a request promises, and runs in which the life of a guest is not the one that the code documents.
\<close>

section \<open>Steps\<close>

datatype step_kind = Produce | Request string | Free nat | Reuse nat | Configure nat bool | StartStop

inductive pool_step :: "step_kind \<Rightarrow> pool \<Rightarrow> pool \<Rightarrow> bool" where
  produce: "pool_step Produce p (snd (producer_loop now scan sps p))"
| request: "pool_step (Request src) p (snd (request_vm src p))"
| free: "pool_step (Free n) p (free_vm now n p)"
| reuse: "pool_step (Reuse n) p (reuse_vm n p)"
| configure: "pool_step (Configure n sharing) p (set_configs n t sharing p)"
| stop: "pool_step StartStop p (snd (stop_pool p))"
| start: "pool_step StartStop p (start_pool p)"

inductive_cases pool_step_cases: "pool_step k p p'"

text \<open>The pools that are reached from one pool by the steps that are allowed.\<close>

inductive pool_reach :: "(step_kind \<Rightarrow> bool) \<Rightarrow> pool \<Rightarrow> pool \<Rightarrow> bool" for allowed p0 where
  init: "pool_reach allowed p0 p0"
| step: "pool_reach allowed p0 p \<Longrightarrow> pool_step k p p' \<Longrightarrow> allowed k \<Longrightarrow> pool_reach allowed p0 p'"

text \<open>A property that every allowed step keeps holds in every pool that is reached.\<close>

lemma pool_invariant:
  assumes "pool_reach allowed p0 p" "I p0" "\<And>k p p'. I p \<Longrightarrow> pool_step k p p' \<Longrightarrow> allowed k \<Longrightarrow> I p'"
  shows "I p"
  using assms by (induction rule: pool_reach.induct) blast+

section \<open>Invariants of each guest\<close>

lemma first_guest_Some: "first_guest P gs = Some i \<Longrightarrow> i < length gs \<and> P (gs ! i) \<and> (\<forall>j<i. \<not> P (gs ! j))"
  by (induction gs arbitrary: i) (auto simp: less_Suc_eq_0_disj split: if_splits)

lemma first_guest_None: "first_guest P gs = None \<longleftrightarrow> (\<forall>g\<in>set gs. \<not> P g)"
  by (induction gs) auto

lemma remove_all: "fold remove1 (filter P xs) xs = filter (\<lambda>x. \<not> P x) xs"
proof (induction xs)
  case (Cons x xs)
  have skip: "fold remove1 zs (y # ys) = y # fold remove1 zs ys" if "y \<notin> set zs" for y :: 'a and ys zs
    using that by (induction zs arbitrary: ys) auto
  show ?case using Cons skip [of x "filter P xs" xs] by auto
qed simp

lemma remove_destroyed_eq: "remove_destroyed p = p\<lparr>guests := filter (\<lambda>g. g_state g \<noteq> Destroyed) (guests p)\<rparr>"
  by (simp add: remove_destroyed_def get_guest_states_def remove_all)

text \<open>What is true of a new guest and kept by every change of a guest is true of all guests of a pool that is reached.
  The changes of the producer only move a guest on.\<close>

definition guest_kept :: "(guest \<Rightarrow> bool) \<Rightarrow> bool" where
  "guest_kept Q \<longleftrightarrow> (\<forall>g s. Q g \<and> (g_state g, s) \<in> {(Used, Unavailable), (Available, Unavailable), (Using, Unavailable), (Unavailable, Destroyed), (Created, Available)}
     \<longrightarrow> Q (g\<lparr>g_state := s\<rparr>))"

definition all_guests :: "(guest \<Rightarrow> bool) \<Rightarrow> pool \<Rightarrow> bool" where
  "all_guests Q p \<longleftrightarrow> (\<forall>g\<in>set (guests p). Q g)"

lemma kept_phases:
  assumes "guest_kept Q" "all_guests Q p"
  shows "all_guests Q (mark_timed_out now p)" "all_guests Q (check_health scan p)" "all_guests Q (destroy_timed_out p)"
    "all_guests Q (mark_available scan p)" "all_guests Q (remove_destroyed p)"
  using assms
  by (auto simp: all_guests_def guest_kept_def mark_timed_out_def check_health_def destroy_timed_out_def mark_available_def update_guests_def
      Let_def remove_destroyed_eq)

definition fresh_guest :: "guest \<Rightarrow> bool" where
  "fresh_guest g \<longleftrightarrow> g_state g = Created \<and> connected g = 0 \<and> client_ips g = [] \<and> prev_state g = NoState"

lemma add_guest_guests:
  "\<exists>g. guests (add_guest now made p) = guests p @ [g] \<and> fresh_guest g \<and> guest_ip g = snd (snd made) \<and> g_id g = guest_id p"
  by (cases made) (simp add: add_guest_def fresh_guest_def)

lemma kept_create:
  assumes "\<And>g. fresh_guest g \<Longrightarrow> Q g" "all_guests Q p"
  shows "all_guests Q (snd (create_rounds n sps p))"
  using assms(2)
proof (induction n arbitrary: p)
  case (Suc n)
  show ?case
  proof (cases "create_guest (sps n) p")
    case (Inl e)
    then show ?thesis using Suc.prems by simp
  next
    case (Inr made)
    have "all_guests Q (add_guest now m p)" for now m
      using add_guest_guests [of now m p] assms(1) Suc.prems by (auto simp: all_guests_def)
    with Inr show ?thesis using Suc.IH Suc.prems by (cases made) simp_all
  qed
qed simp

lemma producer_phases:
  obtains p1 p2 where "p1 = (if existing_pool_size p > 1 then destroy_timed_out (mark_timed_out now p) else p)"
    "p2 = snd (create_guests sps (remove_destroyed (check_health scan p1)))"
    "snd (producer_loop now scan sps p) = p2 \<or> snd (producer_loop now scan sps p) = (mark_available scan p2)\<lparr>loop_call := Waiting\<rparr>"
proof -
  let ?p1 = "if existing_pool_size p > 1 then destroy_timed_out (mark_timed_out now p) else p"
  have "snd (producer_loop now scan sps p) = snd (create_guests sps (remove_destroyed (check_health scan ?p1))) \<or>
      snd (producer_loop now scan sps p) =
        (mark_available scan (snd (create_guests sps (remove_destroyed (check_health scan ?p1)))))\<lparr>loop_call := Waiting\<rparr>"
    unfolding producer_loop_def Let_def
    by (cases "create_guests sps (remove_destroyed (check_health scan ?p1))") (simp split: sum.split)
  then show ?thesis using that by blast
qed

lemma kept_produce:
  assumes "guest_kept Q" "\<And>g. fresh_guest g \<Longrightarrow> Q g" "all_guests Q p"
  shows "all_guests Q (snd (producer_loop now scan sps p))"
proof -
  obtain p1 p2 where p: "p1 = (if existing_pool_size p > 1 then destroy_timed_out (mark_timed_out now p) else p)"
    "p2 = snd (create_guests sps (remove_destroyed (check_health scan p1)))"
    "snd (producer_loop now scan sps p) = p2 \<or> snd (producer_loop now scan sps p) = (mark_available scan p2)\<lparr>loop_call := Waiting\<rparr>"
    by (rule producer_phases)
  have "all_guests Q p1" unfolding p using kept_phases(1,3) [OF assms(1)] assms(3) by simp
  then have "all_guests Q p2"
    unfolding p create_guests_def by (intro kept_create kept_phases assms)
  then show ?thesis using p(3) kept_phases(4) [OF assms(1), of p2 scan] by (auto simp: all_guests_def)
qed

text \<open>The steps that hand out and take back guests change one guest.\<close>

lemma kept_change: "all_guests Q p \<Longrightarrow> i < length (guests p) \<Longrightarrow> Q (f (guests p ! i)) \<Longrightarrow> all_guests Q (change_guest i f p)"
  using set_update_subset_insert [of "guests p" i] by (fastforce simp: all_guests_def change_guest_def)

lemma kept_with_id: "all_guests Q p \<Longrightarrow> (\<And>g. Q g \<Longrightarrow> Q (f g)) \<Longrightarrow> all_guests Q (with_id n f p)"
  using first_guest_Some [of "\<lambda>g. g_id g = n" "guests p"] kept_change [of Q p _ f]
  by (auto simp: with_id_def all_guests_def split: option.split)

lemma stop_pool_guests [simp]: "guests (snd (stop_pool p)) = guests p" "share_guests (snd (stop_pool p)) = share_guests p"
  "max_vm (snd (stop_pool p)) = max_vm p"
  by (simp_all add: stop_pool_def)

lemma request_vm_cases:
  obtains i where "choose_guest src p = Some i" "i < length (guests p)"
      "g_state (guests p ! i) \<in> {Available, Used, Using}" "snd (request_vm src p) = change_guest i (hand_out src) p"
      "fst (request_vm src p) = Inr (g_id (guests p ! i), guest_ip (guests p ! i), snapshot (guests p ! i))"
    | "choose_guest src p = None" "guests (snd (request_vm src p)) = guests p" "share_guests (snd (request_vm src p)) = share_guests p"
      "max_vm (snd (request_vm src p)) = max_vm p" "\<exists>e. fst (request_vm src p) = Inl e"
proof (cases "choose_guest src p")
  case None
  then show ?thesis by (intro that(2)) (simp_all add: request_vm_def stop_pool_def)
next
  case (Some i)
  have "i < length (guests p) \<and> g_state (guests p ! i) \<in> {Available, Used, Using}"
    using Some first_guest_Some [of _ "guests p" i]
    by (auto simp: choose_guest_def or_else_def get_guest_ip_def get_available_guest_def get_any_guest_def in_use_def Let_def
        split: option.splits if_splits)
  then show ?thesis using Some that(1) by (simp add: request_vm_def Let_def)
qed

lemma kept_step:
  assumes "pool_step k p p'" "all_guests Q p" "guest_kept Q" "\<And>g. fresh_guest g \<Longrightarrow> Q g"
    and "\<And>src i. k = Request src \<Longrightarrow> choose_guest src p = Some i \<Longrightarrow> Q (hand_out src (guests p ! i))"
    and "\<And>n now g. k = Free n \<Longrightarrow> Q g \<Longrightarrow> Q (take_back now g)" "\<And>n g. k = Reuse n \<Longrightarrow> Q g \<Longrightarrow> Q (undo_hand_out g)"
  shows "all_guests Q p'"
  using assms(1)
proof cases
  case produce
  then show ?thesis using kept_produce [OF assms(3,4,2)] by simp
next
  case (request src)
  show ?thesis
  proof (cases rule: request_vm_cases [of src p])
    case (1 i)
    then show ?thesis using kept_change [OF assms(2) 1(2)] assms(5) [OF request(1) 1(1)] request(2) by simp
  next
    case 2
    then show ?thesis using assms(2) request(2) by (simp add: all_guests_def)
  qed
next
  case (free n now)
  then show ?thesis using kept_with_id [OF assms(2)] assms(6) [OF free(1)] by (simp add: free_vm_def)
next
  case (reuse n)
  then show ?thesis using kept_with_id [OF assms(2)] assms(7) [OF reuse(1)] by (simp add: reuse_vm_def)
qed (use assms(2) in \<open>simp_all add: set_configs_def start_pool_def all_guests_def\<close>)

section \<open>The properties\<close>

text \<open>A guest that is not shared: a guest that waits for a client has had none.\<close>

definition isolated :: "guest \<Rightarrow> bool" where
  "isolated g \<longleftrightarrow> (g_state g \<in> {Created, Available} \<longrightarrow> client_ips g = []) \<and> (\<forall>x\<in>set (client_ips g). \<forall>y\<in>set (client_ips g). x = y)"

lemma isolated_hand_out:
  assumes "all_guests isolated p" "\<not> share_guests p" "choose_guest src p = Some i"
  shows "isolated (hand_out src (guests p ! i))"
proof -
  have "i < length (guests p) \<and> (src \<in> set (client_ips (guests p ! i)) \<or> g_state (guests p ! i) = Available)"
    using assms(2,3) first_guest_Some [of _ "guests p" i]
    by (auto simp: choose_guest_def or_else_def get_guest_ip_def get_available_guest_def split: option.splits)
  moreover have "isolated (guests p ! i)" using calculation assms(1) by (simp add: all_guests_def)
  ultimately show ?thesis by (auto simp: isolated_def hand_out_def)
qed

lemma create_rounds_config:
  "share_guests (snd (create_rounds n sps q)) = share_guests q \<and> max_vm (snd (create_rounds n sps q)) = max_vm q"
proof (induction n arbitrary: q)
  case (Suc n)
  have "share_guests (add_guest now m q) = share_guests q \<and> max_vm (add_guest now m q) = max_vm q" for now m
    by (cases m) (simp add: add_guest_def)
  then show ?case using Suc by (simp split: sum.split option.split)
qed simp

lemma producer_config:
  "share_guests (snd (producer_loop now scan sps p)) = share_guests p \<and> max_vm (snd (producer_loop now scan sps p)) = max_vm p"
proof -
  obtain p1 p2 where p: "p1 = (if existing_pool_size p > 1 then destroy_timed_out (mark_timed_out now p) else p)"
    "p2 = snd (create_guests sps (remove_destroyed (check_health scan p1)))"
    "snd (producer_loop now scan sps p) = p2 \<or> snd (producer_loop now scan sps p) = (mark_available scan p2)\<lparr>loop_call := Waiting\<rparr>"
    by (rule producer_phases)
  have "share_guests p2 = share_guests p \<and> max_vm p2 = max_vm p"
    by (simp add: p(1,2) create_guests_def create_rounds_config remove_destroyed_def check_health_def destroy_timed_out_def
        mark_timed_out_def update_guests_def)
  with p(3) show ?thesis by (auto simp: mark_available_def update_guests_def Let_def)
qed

lemma step_config:
  assumes "pool_step k p p'"
  shows "(share_guests p' = share_guests p \<and> max_vm p' = max_vm p) \<or> (\<exists>n sharing. k = Configure n sharing \<and> share_guests p' = sharing \<and> max_vm p' = n)"
  using assms
proof cases
  case (request src)
  then show ?thesis by (cases rule: request_vm_cases [of src p]) (simp_all add: change_guest_def)
qed (simp_all add: producer_config free_vm_def reuse_vm_def with_id_def change_guest_def set_configs_def start_pool_def split: option.split)

lemma isolated_step:
  assumes "all_guests isolated p \<and> \<not> share_guests p" "pool_step k p p'" "\<forall>n. k \<noteq> Reuse n" "\<forall>n. k \<noteq> Configure n True"
  shows "all_guests isolated p' \<and> \<not> share_guests p'"
proof
  have "guest_kept isolated" by (auto simp: guest_kept_def isolated_def)
  then show "all_guests isolated p'"
  proof (rule kept_step [OF assms(2) conjunct1 [OF assms(1)]])
    show "isolated (hand_out src (guests p ! i))" if "choose_guest src p = Some i" for src i
      using isolated_hand_out assms(1) that by blast
  qed (use assms(3) in \<open>auto simp: fresh_guest_def isolated_def take_back_def Let_def\<close>)
  show "\<not> share_guests p'" using step_config [OF assms(2)] assms(1,4) by auto
qed

text \<open>C29: When guests are not to be shared and no guest is given back for reuse, no guest ever serves two addresses: in every
  pool that can be reached, all connections that were ever handed to a guest came from one client.\<close>

theorem pool_isolation:
  assumes "pool_reach (\<lambda>k. (\<forall>n. k \<noteq> Reuse n) \<and> (\<forall>n. k \<noteq> Configure n True)) (set_configs m t False (start_pool (new_pool a b))) p"
    and "g \<in> set (guests p)" "x \<in> set (client_ips g)" "y \<in> set (client_ips g)"
  shows "x = y"
proof -
  have "all_guests isolated p \<and> \<not> share_guests p"
    using assms(1)
  proof (rule pool_invariant [where I = "\<lambda>p. all_guests isolated p \<and> \<not> share_guests p"])
    show "all_guests isolated (set_configs m t False (start_pool (new_pool a b))) \<and>
        \<not> share_guests (set_configs m t False (start_pool (new_pool a b)))"
      by (simp add: set_configs_def start_pool_def all_guests_def)
  qed (use isolated_step in blast)
  then show ?thesis using assms(2,3,4) by (auto simp: all_guests_def isolated_def)
qed

text \<open>Between two rounds of the producer.\<close>

definition sound :: "guest \<Rightarrow> bool" where
  "sound g \<longleftrightarrow> g_state g \<noteq> NoState \<and> (connected g \<ge> 1 \<longrightarrow> prev_state g \<notin> {NoState, Destroyed})"

definition present :: "guest \<Rightarrow> bool" where
  "present g \<longleftrightarrow> g_state g \<noteq> Destroyed"

definition pool_ok :: "nat \<Rightarrow> pool \<Rightarrow> bool" where
  "pool_ok m p \<longleftrightarrow> distinct (map guest_ip (guests p)) \<and> length (guests p) \<le> m \<and> max_vm p \<le> m \<and> all_guests sound p \<and> all_guests present p"

lemma get_mac_ip_free: "get_mac_ip choices P = Some (mac, ip) \<Longrightarrow> P ip"
  by (induction choices) (auto split: if_splits)

lemma create_guest_free: "create_guest sp p = Inr (Some made) \<Longrightarrow> snd (snd made) \<notin> guest_ip ` set (guests p)"
  using get_mac_ip_free [of "take 500 (sp_choices sp)" "is_ip_free p"]
  by (fastforce simp: create_guest_def is_ip_free_def list_ex_iff split: if_splits option.splits)

lemma create_rounds_ok:
  assumes "distinct (map guest_ip (guests p))" "all_guests present p"
  shows "distinct (map guest_ip (guests (snd (create_rounds n sps p)))) \<and> all_guests present (snd (create_rounds n sps p)) \<and>
    length (guests (snd (create_rounds n sps p))) \<le> length (guests p) + n"
  using assms
proof (induction n arbitrary: p)
  case (Suc n)
  show ?case
  proof (cases "create_guest (sps n) p")
    case (Inl e)
    then show ?thesis using Suc.prems by simp
  next
    case (Inr made)
    show ?thesis
    proof (cases made)
      case None
      then show ?thesis using Inr Suc.IH [OF Suc.prems] by simp
    next
      case (Some m)
      let ?q = "add_guest (sp_time (sps n)) m p"
      obtain g where g: "guests ?q = guests p @ [g]" "fresh_guest g" "guest_ip g = snd (snd m)" using add_guest_guests by blast
      have "distinct (map guest_ip (guests ?q))" using g create_guest_free [of "sps n" p m] Inr Some Suc.prems(1) by simp
      moreover have "all_guests present ?q" using g Suc.prems(2) by (auto simp: all_guests_def present_def fresh_guest_def)
      ultimately show ?thesis using Inr Some Suc.IH [of ?q] g(1) by simp
    qed
  qed
qed simp

lemma phase_ips:
  "map guest_ip (guests (mark_timed_out now p)) = map guest_ip (guests p)" "map guest_ip (guests (destroy_timed_out p)) = map guest_ip (guests p)"
  "map guest_ip (guests (check_health scan p)) = map guest_ip (guests p)" "map guest_ip (guests (mark_available scan p)) = map guest_ip (guests p)"
  by (simp_all add: mark_timed_out_def destroy_timed_out_def check_health_def mark_available_def update_guests_def Let_def)

lemma size_present: "all_guests present p \<Longrightarrow> existing_pool_size p = length (guests p)"
  by (simp add: existing_pool_size_def all_guests_def present_def)

lemma produce_ok:
  assumes "pool_ok m p"
  shows "pool_ok m (snd (producer_loop now scan sps p))"
proof -
  obtain p1 p2 where p: "p1 = (if existing_pool_size p > 1 then destroy_timed_out (mark_timed_out now p) else p)"
    "p2 = snd (create_guests sps (remove_destroyed (check_health scan p1)))"
    "snd (producer_loop now scan sps p) = p2 \<or> snd (producer_loop now scan sps p) = (mark_available scan p2)\<lparr>loop_call := Waiting\<rparr>"
    by (rule producer_phases)
  let ?q = "remove_destroyed (check_health scan p1)"
  have "map guest_ip (guests (check_health scan p1)) = map guest_ip (guests p)" by (simp add: p(1) phase_ips)
  then have c: "distinct (map guest_ip (guests (check_health scan p1)))" "length (guests (check_health scan p1)) = length (guests p)"
    using assms map_eq_imp_length_eq by (auto simp: pool_ok_def)
  have q: "distinct (map guest_ip (guests ?q))" "length (guests ?q) \<le> length (guests p)"
    using distinct_map_filter [OF c(1)] length_filter_le [of "\<lambda>g. g_state g \<noteq> Destroyed" "guests (check_health scan p1)"] c(2)
    by (simp_all add: remove_destroyed_eq)
  have pres: "all_guests present ?q" by (simp add: remove_destroyed_eq all_guests_def present_def)
  have "max_vm ?q = max_vm p"
    by (simp add: p(1) remove_destroyed_def check_health_def destroy_timed_out_def mark_timed_out_def update_guests_def)
  then have p2: "distinct (map guest_ip (guests p2))" "all_guests present p2" "length (guests p2) \<le> m"
    using create_rounds_ok [OF q(1) pres, of "max_vm ?q - existing_pool_size ?q" sps] q(2) assms
    by (auto simp: p(2) create_guests_def size_present [OF pres] pool_ok_def)
  have "all_guests sound (snd (producer_loop now scan sps p))"
    by (rule kept_produce) (use assms in \<open>auto simp: guest_kept_def sound_def fresh_guest_def pool_ok_def\<close>)
  moreover have "all_guests present (mark_available scan p2)"
    using p2(2) by (auto simp: all_guests_def present_def mark_available_def update_guests_def Let_def)
  moreover have "length (guests (mark_available scan p2)) = length (guests p2)"
    using phase_ips(4) [of scan p2] by (rule map_eq_imp_length_eq)
  ultimately show ?thesis
    using p(3) p2 assms producer_config [of now scan sps p] phase_ips(4) [of scan p2]
    by (auto simp: pool_ok_def all_guests_def [of _ "_\<lparr>loop_call := _\<rparr>"] all_guests_def [of _ "mark_available _ _"])
qed

lemma change_ok:
  assumes "pool_ok m p" "i < length (guests p)" "sound (f (guests p ! i))" "present (f (guests p ! i))" "guest_ip (f (guests p ! i)) = guest_ip (guests p ! i)"
  shows "pool_ok m (change_guest i f p)"
proof -
  have "map guest_ip (guests (change_guest i f p)) = map guest_ip (guests p)"
    using assms(2,5) by (simp add: change_guest_def map_update list_update_same_conv)
  moreover have "length (guests (change_guest i f p)) = length (guests p)" "max_vm (change_guest i f p) = max_vm p"
    by (simp_all add: change_guest_def)
  ultimately show ?thesis using assms kept_change [of _ p i f] by (simp add: pool_ok_def)
qed

lemma with_id_ok:
  assumes "pool_ok m p" "\<And>g. sound g \<and> present g \<Longrightarrow> sound (f g) \<and> present (f g)" "\<And>g. guest_ip (f g) = guest_ip g"
  shows "pool_ok m (with_id n f p)"
proof (cases "first_guest (\<lambda>g. g_id g = n) (guests p)")
  case (Some i)
  then have i: "i < length (guests p)" using first_guest_Some by blast
  then have "sound (guests p ! i) \<and> present (guests p ! i)" using assms(1) by (simp add: pool_ok_def all_guests_def)
  then show ?thesis using Some change_ok [OF assms(1) i] assms(2,3) by (simp add: with_id_def)
qed (use assms(1) in \<open>simp add: with_id_def\<close>)

lemma pool_ok_step:
  assumes "pool_ok m p" "pool_step k p p'" "\<forall>n sharing. k = Configure n sharing \<longrightarrow> n \<le> m"
  shows "pool_ok m p'"
  using assms(2)
proof cases
  case (request src)
  show ?thesis
  proof (cases rule: request_vm_cases [of src p])
    case (1 i)
    then show ?thesis
      using change_ok [OF assms(1) 1(2), of "hand_out src"] request by (auto simp: hand_out_def sound_def present_def)
  next
    case 2
    then show ?thesis using assms(1) request by (simp add: pool_ok_def all_guests_def)
  qed
next
  case (free n now)
  then show ?thesis using with_id_ok [OF assms(1), of "take_back now" n]
    by (auto simp: free_vm_def take_back_def sound_def present_def Let_def)
next
  case (reuse n)
  then show ?thesis using with_id_ok [OF assms(1), of undo_hand_out n]
    by (auto simp: reuse_vm_def undo_hand_out_def sound_def present_def Let_def)
next
  case produce
  then show ?thesis using produce_ok [OF assms(1)] by simp
qed (use assms(1,3) in \<open>simp_all add: pool_ok_def all_guests_def set_configs_def start_pool_def\<close>)

text \<open>C30: However the producer, the clients and the configuration interleave, the pool holds at most as many guests as it
  was ever configured for, no two guests have the same address, no guest that was destroyed is left in the list between two
  rounds of the producer, and every guest is in one of the documented states.\<close>

theorem pool_wellformed:
  assumes "pool_reach (\<lambda>k. \<forall>n sharing. k = Configure n sharing \<longrightarrow> n \<le> m) (start_pool (new_pool a b)) p" "2 \<le> m"
  shows "length (guests p) \<le> m \<and> distinct (map guest_ip (guests p)) \<and>
    (\<forall>g\<in>set (guests p). g_state g \<in> {Created, Available, Using, Used, Unavailable})"
proof -
  have "pool_ok m p"
    using assms(1)
  proof (rule pool_invariant [where I = "pool_ok m"])
    show "pool_ok m (start_pool (new_pool a b))"
      using assms(2) by (simp add: pool_ok_def start_pool_def new_pool_def all_guests_def)
  qed (use pool_ok_step in blast)
  moreover have "g_state g \<in> {Created, Available, Using, Used, Unavailable}" if "sound g" "present g" for g
    using that by (cases "g_state g") (simp_all add: sound_def present_def)
  ultimately show ?thesis by (auto simp: pool_ok_def all_guests_def)
qed

lemma first_guestI: "i < length gs \<Longrightarrow> P (gs ! i) \<Longrightarrow> (\<And>j. j < i \<Longrightarrow> \<not> P (gs ! j)) \<Longrightarrow> first_guest P gs = Some i"
proof (induction gs arbitrary: i)
  case (Cons g gs)
  show ?case
  proof (cases i)
    case 0
    then show ?thesis using Cons.prems by simp
  next
    case (Suc k)
    then have "\<not> P g" using Cons.prems(3) [of 0] by simp
    moreover have "\<not> P (gs ! j)" if "j < k" for j using Cons.prems(3) [of "Suc j"] that Suc by simp
    then have "first_guest P gs = Some k" using Cons.prems(1,2) Suc by (intro Cons.IH) auto
    ultimately show ?thesis by (simp add: Suc)
  qed
qed simp

text \<open>A client that was given a guest is given the same guest when it asks again, whatever guests are free by then and
  however many clients the guest serves.\<close>

lemma request_sticky:
  assumes "request_vm src p = (Inr r, p')"
  shows "fst (request_vm src p') = Inr r"
proof -
  have ok: "fst (request_vm src p) = Inr r" "snd (request_vm src p) = p'" by (simp_all add: assms)
  then obtain i where i: "choose_guest src p = Some i" "i < length (guests p)" "p' = change_guest i (hand_out src) p"
    "r = (g_id (guests p ! i), guest_ip (guests p ! i), snapshot (guests p ! i))"
    by (cases rule: request_vm_cases [of src p]) auto
  let ?P = "\<lambda>g. in_use g \<and> src \<in> set (client_ips g)"
  have earlier: "\<not> ?P (guests p ! j)" if "j < i" for j
  proof (cases "get_guest_ip src p")
    case None
    then show ?thesis using that i(2) nth_mem [of j "guests p"] by (auto simp: get_guest_ip_def first_guest_None)
  next
    case (Some k)
    then have "k = i" using i(1) by (simp add: choose_guest_def or_else_def)
    then show ?thesis using Some that first_guest_Some [of ?P "guests p" k] by (simp add: get_guest_ip_def)
  qed
  have "get_guest_ip src p' = Some i"
    unfolding get_guest_ip_def
    by (rule first_guestI) (use i earlier in \<open>auto simp: change_guest_def hand_out_def in_use_def\<close>)
  then have "choose_guest src p' = Some i" by (simp add: choose_guest_def or_else_def)
  then show ?thesis using i by (simp add: request_vm_def Let_def change_guest_def hand_out_def)
qed

section \<open>Runs\<close>

text \<open>Guests that libvirt makes at once, one after the other, and that answer every scan.\<close>

definition row :: "nat \<Rightarrow> string \<times> string" where
  "row n = (''48:d2:24:bf:00:0'' @ str_of_nat n, ''192.168.150.'' @ str_of_nat n)"

definition example_spawn :: "nat \<Rightarrow> spawn" where
  "example_spawn k = \<lparr>sp_choices = map row [2, 3, 4], sp_made = (\<lambda>mac. Some (mac, ''snap'')), sp_time = 1\<rparr>"

definition healthy :: "string \<Rightarrow> int \<Rightarrow> bool" where
  "healthy ip port = True"

definition example_pool :: "bool \<Rightarrow> nat \<Rightarrow> pool" where
  "example_pool sharing n = snd (producer_loop 1 healthy example_spawn (set_configs n 600 sharing (start_pool (new_pool 22 23))))"

lemma example_reach: "pool_reach (\<lambda>k. (\<forall>n. k \<noteq> Reuse n) \<and> (\<forall>n. k \<noteq> Configure n True)) (set_configs n 600 False (start_pool (new_pool 22 23)))
    (snd (request_vm src (snd (request_vm src (example_pool False n)))))"
  unfolding example_pool_def by (rule pool_reach.intros pool_step.intros | simp)+

theorem pool_isolation_witness:
  "let g = hd (guests (snd (request_vm ''10.0.0.1'' (snd (request_vm ''10.0.0.1'' (example_pool False 1)))))) in
   client_ips g = [''10.0.0.1'', ''10.0.0.1''] \<and> client_ips g ! 0 = client_ips g ! 1"
proof -
  let ?p = "snd (request_vm ''10.0.0.1'' (snd (request_vm ''10.0.0.1'' (example_pool False 1))))"
  have ips: "map client_ips (guests ?p) = [[''10.0.0.1'', ''10.0.0.1'']]" by code_simp
  then have g: "hd (guests ?p) \<in> set (guests ?p)" "client_ips (hd (guests ?p)) = [''10.0.0.1'', ''10.0.0.1'']"
    by (cases "guests ?p"; simp)+
  then have "client_ips (hd (guests ?p)) ! 0 = client_ips (hd (guests ?p)) ! 1"
    by (intro pool_isolation [OF example_reach [of 1 "''10.0.0.1''"]]) auto
  then show ?thesis using g(2) unfolding Let_def by (rule conjI [rotated])
qed

lemma example_run: "pool_reach (\<lambda>k. \<forall>n sharing. k = Configure n sharing \<longrightarrow> n \<le> 2) (start_pool (new_pool 22 23))
    (snd (producer_loop 1 healthy example_spawn (start_pool (new_pool 22 23))))"
  by (rule pool_reach.intros pool_step.intros | simp)+

theorem pool_wellformed_witness:
  "map guest_ip (guests (snd (producer_loop 1 healthy example_spawn (start_pool (new_pool 22 23))))) =
     [''192.168.150.2'', ''192.168.150.3''] \<and>
   distinct (map guest_ip (guests (snd (producer_loop 1 healthy example_spawn (start_pool (new_pool 22 23))))))"
proof -
  have "map guest_ip (guests (snd (producer_loop 1 healthy example_spawn (start_pool (new_pool 22 23))))) =
      [''192.168.150.2'', ''192.168.150.3'']" by code_simp
  then show ?thesis using pool_wellformed [OF example_run] by simp
qed


section \<open>Where the life of a guest is not the documented one\<close>

text \<open>A guest that is given back for reuse waits for a client again, but keeps the address of the one it had: without
  sharing, the next client gets it, and the first one is then sent to the same guest.\<close>

lemma reuse_breaks_isolation:
  "let p1 = reuse_vm 0 (snd (request_vm ''10.0.0.1'' (example_pool False 2)));
       p2 = snd (request_vm ''10.0.0.2'' p1);
       p3 = snd (request_vm ''10.0.0.1'' p2) in
   map client_ips (guests p3) = [[''10.0.0.1'', ''10.0.0.2'', ''10.0.0.1''], []]"
  by code_simp

text \<open>Two connections of one client that are both given back leave the guest in use with nobody connected, so that it never
  times out.\<close>

lemma reused_twice_stays_in_use:
  "let p = reuse_vm 0 (reuse_vm 0 (snd (request_vm ''10.0.0.1'' (snd (request_vm ''10.0.0.1'' (example_pool True 1)))))) in
   map g_state (guests p) = [Using] \<and> map connected (guests p) = [0]"
  by code_simp

text \<open>A guest without connectivity is marked for destruction; the client that leaves it marks it as usable again.\<close>

lemma freed_guest_revived:
  "let p = check_health (\<lambda>ip port. False) (snd (request_vm ''10.0.0.1'' (example_pool True 1))) in
   map g_state (guests p) = [Unavailable] \<and> map g_state (guests (free_vm 5 0 p)) = [Used]"
  by code_simp

text \<open>A pool of one guest is never cleaned, and the guest that has to go counts: it is not replaced.\<close>

lemma lone_guest_not_replaced:
  "let p = check_health (\<lambda>ip port. False) (example_pool True 1) in
   map g_state (guests p) = [Unavailable] \<and> guests (snd (producer_loop 9 healthy example_spawn (p\<lparr>max_vm := 1\<rparr>))) = guests p"
  by code_simp

text \<open>Without a port for telnet every guest passes, whatever the scan of its ssh port finds.\<close>

lemma no_telnet_always_healthy: "pool_telnet_port p \<le> 0 \<Longrightarrow> has_connectivity scan p ip"
  by (simp add: has_connectivity_def Let_def)

text \<open>The numbers of guests start again at zero, also when the first guest is still there.\<close>

lemma guest_ids_collide:
  "map g_id (guests (snd (create_rounds 2 example_spawn ((example_pool True 1)\<lparr>guest_id := 251\<rparr>)))) = [0, 251, 0]"
  by code_simp

text \<open>The request that finds no guest stops the pool instead of starting it again; from then on a request ends in an
  exception that nobody expects.\<close>

lemma no_guest_stops_pool:
  "let p = check_health (\<lambda>ip port. False) (example_pool True 1); (r1, p1) = request_vm ''10.0.0.1'' p; (r2, p2) = request_vm ''10.0.0.1'' p1 in
   r1 = Inl NoAvailableVMs \<and> \<not> backend_ready p1 \<and> loop_call p1 = Cancelled \<and> r2 = Inl AlreadyCancelled"
  by code_simp

end
