(* ===== verification/Pool_Server.thy ===== *)
theory Pool_Server
  imports Pool_Laws Py_Hash "HOL-Library.AList"
begin

text \<open>
  The server of the pool and its wire protocol (\<open>src/src/backend_pool/pool_server.py\<close>), the address translation that it
  uses (\<open>nat.py\<close>) and the client in the honeypot (\<open>src/src/cowrie/pool_interface/client.py\<close>). Ports that the host
  gives to a listener, the clock and the decoder of text are arguments.
\<close>

section \<open>struct\<close>

text \<open>Numbers in network order; one that does not fit is a \<open>struct.error\<close>.\<close>

fun net_bytes :: "nat \<Rightarrow> nat \<Rightarrow> bytestr" where
  "net_bytes 0 n = []"
| "net_bytes (Suc k) n = char_of (n div 256 ^ k) # net_bytes k (n mod 256 ^ k)"

definition be_value :: "bytestr \<Rightarrow> nat" where
  "be_value b = foldl (\<lambda>a c. a * 256 + ord c) 0 b"

definition pack_nat :: "nat \<Rightarrow> nat \<Rightarrow> bytestr option" where
  "pack_nat k n = (if n < 256 ^ k then Some (net_bytes k n) else None)"

text \<open>A format \<open>ns\<close> cuts or pads to \<open>n\<close> bytes.\<close>

definition pack_str :: "nat \<Rightarrow> bytestr \<Rightarrow> bytestr" where
  "pack_str n b = take n (b @ replicate n (CHR 0x00))"

definition unpack_nat :: "nat \<Rightarrow> bytestr \<Rightarrow> nat option" where
  "unpack_nat k b = (if length b = k then Some (be_value b) else None)"

fun pack_all :: "bytestr option list \<Rightarrow> bytestr option" where
  "pack_all [] = Some []"
| "pack_all (None # xs) = None"
| "pack_all (Some b # xs) = map_option (append b) (pack_all xs)"

section \<open>Address translation\<close>

text \<open>A listener has its port as long as it listens.\<close>

record binding =
  b_count :: int
  b_ssh :: "nat option"
  b_telnet :: "nat option"

type_synonym nat_service = "(nat \<times> binding) list"

definition new_binding :: "nat \<Rightarrow> nat \<times> nat \<Rightarrow> nat_service \<Rightarrow> (nat \<times> nat) \<times> nat_service" where
  "new_binding n ports s = (ports, AList.update n \<lparr>b_count = 1, b_ssh = Some (fst ports), b_telnet = Some (snd ports)\<rparr> s)"

definition request_binding :: "nat \<Rightarrow> nat \<times> nat \<Rightarrow> nat_service \<Rightarrow> (nat \<times> nat) \<times> nat_service" where
  "request_binding n ports s =
     (case map_of s n of
        None \<Rightarrow> new_binding n ports s
      | Some b \<Rightarrow>
          (case (b_ssh b, b_telnet b) of
             (Some p1, Some p2) \<Rightarrow> ((p1, p2), AList.update n (b\<lparr>b_count := b_count b + 1\<rparr>) s)
           | _ \<Rightarrow> new_binding n ports (AList.delete n s)))"

text \<open>\<^const>\<open>None\<close> is a \<open>KeyError\<close>.\<close>

definition free_binding :: "nat \<Rightarrow> nat_service \<Rightarrow> nat_service option" where
  "free_binding n s =
     map_option (\<lambda>b. if b_count b - 1 \<le> 0 then AList.delete n s else AList.update n (b\<lparr>b_count := b_count b - 1\<rparr>) s) (map_of s n)"

definition free_all :: "nat_service \<Rightarrow> nat_service" where
  "free_all s = []"

section \<open>The server\<close>

record pool_server =
  ps_pool :: pool
  ps_nat :: nat_service
  ps_initialised :: bool
  ps_local_pool :: bool
  ps_pool_only :: bool
  ps_use_nat :: bool
  ps_public_ip :: string
  ps_ssh_port :: nat
  ps_telnet_port :: nat

datatype server_error = StructError | UnicodeError | MissingIndex | MissingKey | PoolError pool_error

definition uses_nat :: "pool_server \<Rightarrow> bool" where
  "uses_nat s \<longleftrightarrow> \<not> ps_local_pool s \<and> ps_use_nat s \<or> ps_pool_only s"

definition vm_response :: "nat \<Rightarrow> string \<Rightarrow> nat \<Rightarrow> nat \<Rightarrow> string \<Rightarrow> bytestr option" where
  "vm_response n ip ssh telnet snap =
     pack_all [Some ''r'', pack_nat 4 0, pack_nat 4 n, pack_nat 2 (length ip), Some (pack_str (length ip) (utf8 ip)),
       pack_nat 2 ssh, pack_nat 2 telnet, pack_nat 2 (length snap), Some (pack_str (length snap) (utf8 snap))]"

definition or_struct :: "bytestr option \<Rightarrow> server_error + bytestr" where
  "or_struct b = (case b of None \<Rightarrow> Inl StructError | Some x \<Rightarrow> Inr x)"

definition on_init :: "bytestr \<Rightarrow> pool_server \<Rightarrow> (server_error + bytestr) \<times> pool_server" where
  "on_init body s =
     (if length body \<noteq> 9 then (Inl StructError, s)
      else (or_struct (pack_all [Some ''i'', pack_nat 4 0]),
        s\<lparr>ps_pool := set_configs (be_value (take 4 body)) (of_nat (be_value (take 4 (drop 4 body)))) (body ! 8 \<noteq> CHR 0x00) (ps_pool s),
          ps_initialised := True\<rparr>))"

definition on_request ::
  "(bytestr \<Rightarrow> string option) \<Rightarrow> nat \<times> nat \<Rightarrow> bytestr \<Rightarrow> pool_server \<Rightarrow> (server_error + bytestr) \<times> pool_server"
where
  "on_request decode ports body s =
     (if length body < 2 \<or> length (drop 2 body) \<noteq> be_value (take 2 body) then (Inl StructError, s)
      else case decode (drop 2 body) of
          None \<Rightarrow> (Inl UnicodeError, s)
        | Some attacker \<Rightarrow>
            (case request_vm attacker (ps_pool s) of
               (Inl NoAvailableVMs, p) \<Rightarrow> (or_struct (pack_all [Some ''r'', pack_nat 4 1]), s\<lparr>ps_pool := p\<rparr>)
             | (Inl e, p) \<Rightarrow> (Inl (PoolError e), s\<lparr>ps_pool := p\<rparr>)
             | (Inr (n, ip, snap), p) \<Rightarrow>
                 if uses_nat s then
                   (case request_binding n ports (ps_nat s) of
                      ((ssh, telnet), b) \<Rightarrow>
                        (or_struct (vm_response n (ps_public_ip s) ssh telnet snap), s\<lparr>ps_pool := p, ps_nat := b\<rparr>))
                 else (or_struct (vm_response n ip (ps_ssh_port s) (ps_telnet_port s) snap), s\<lparr>ps_pool := p\<rparr>)))"

text \<open>The binding is freed first; when there is none, the guest is not freed.\<close>

definition on_leave :: "(nat \<Rightarrow> pool \<Rightarrow> pool) \<Rightarrow> bytestr \<Rightarrow> pool_server \<Rightarrow> (server_error + bytestr) \<times> pool_server" where
  "on_leave give_back body s =
     (case unpack_nat 4 body of
        None \<Rightarrow> (Inl StructError, s)
      | Some n \<Rightarrow>
          if uses_nat s then
            (case free_binding n (ps_nat s) of
               None \<Rightarrow> (Inl MissingKey, s)
             | Some b \<Rightarrow> (Inr [], s\<lparr>ps_nat := b, ps_pool := give_back n (ps_pool s)\<rparr>))
          else (Inr [], s\<lparr>ps_pool := give_back n (ps_pool s)\<rparr>))"

definition server_data_received ::
  "(bytestr \<Rightarrow> string option) \<Rightarrow> rat \<Rightarrow> nat \<times> nat \<Rightarrow> bytestr \<Rightarrow> pool_server \<Rightarrow> (server_error + bytestr) \<times> pool_server"
where
  "server_data_received decode now ports data s =
     (case data of
        [] \<Rightarrow> (Inl MissingIndex, s)
      | op # body \<Rightarrow>
          if op = CHR ''i'' then on_init body s
          else if op = CHR ''r'' then on_request decode ports body s
          else if op = CHR ''f'' then on_leave (free_vm now) body s
          else if op = CHR ''u'' then on_leave reuse_vm body s
          else (Inr [], s))"

section \<open>The client\<close>

definition send_initialisation :: "nat \<Rightarrow> nat \<Rightarrow> bool \<Rightarrow> bytestr option" where
  "send_initialisation max_vms timeout sharing =
     pack_all [Some ''i'', pack_nat 4 max_vms, pack_nat 4 timeout, Some [if sharing then CHR 0x01 else CHR 0x00]]"

definition send_vm_request :: "string \<Rightarrow> bytestr option" where
  "send_vm_request src = pack_all [Some ''r'', pack_nat 2 (length src), Some (pack_str (length src) (utf8 src))]"

text \<open>Nothing is sent by a client without a guest.\<close>

definition send_vm_free :: "nat option \<Rightarrow> bool \<Rightarrow> bytestr option" where
  "send_vm_free vm_id dirty =
     (case vm_id of None \<Rightarrow> Some [] | Some n \<Rightarrow> pack_all [Some (if dirty then ''f'' else ''u''), pack_nat 4 n])"

datatype client_answer = Ignored | InitialisationResponse nat | LoseConnection | PoolData bytestr bytestr nat nat

definition take_field :: "nat \<Rightarrow> bytestr \<Rightarrow> (bytestr \<Rightarrow> bytestr \<Rightarrow> 'a option) \<Rightarrow> 'a option" where
  "take_field k data rest = (if length data < k then None else rest (take k data) (drop k data))"

text \<open>The answer and the number of the guest; \<^const>\<open>None\<close> is a \<open>struct.error\<close>.\<close>

definition received_vm :: "bytestr \<Rightarrow> (client_answer \<times> nat) option" where
  "received_vm data =
     take_field 4 data (\<lambda>vm rest.
       take_field 2 rest (\<lambda>n rest.
         take_field (be_value n) rest (\<lambda>ip rest.
           take_field 4 rest (\<lambda>ports rest.
             take_field 2 rest (\<lambda>m rest.
               take_field (be_value m) rest (\<lambda>snap rest.
                 Some (PoolData ip snap (be_value (take 2 ports)) (be_value (drop 2 ports)), be_value vm)))))))"

definition client_data_received :: "bool \<Rightarrow> bytestr \<Rightarrow> nat option \<Rightarrow> client_answer option \<times> nat option" where
  "client_data_received parent data vm_id =
     (if \<not> parent then (Some Ignored, vm_id)
      else if length data < 5 then (None, vm_id)
      else let code = be_value (take 4 (tl data)) in
        if hd data = CHR ''i'' then (Some (InitialisationResponse code), vm_id)
        else if hd data = CHR ''r'' then
          (if code \<noteq> 0 then (Some LoseConnection, vm_id)
           else case received_vm (drop 5 data) of
               None \<Rightarrow> (None, vm_id)
             | Some (answer, n) \<Rightarrow> (Some answer, Some n))
        else (Some Ignored, vm_id))"

section \<open>Lemmas\<close>

lemma length_net_bytes [simp]: "length (net_bytes k n) = k"
  by (induction k arbitrary: n) simp_all

lemma foldl_be: "foldl (\<lambda>a c. a * 256 + ord c) x b = x * 256 ^ length b + be_value b"
proof (induction b arbitrary: x)
  case (Cons c b)
  have "be_value (c # b) = foldl (\<lambda>a c. a * 256 + ord c) (ord c) b" by (simp add: be_value_def)
  then show ?case using Cons.IH [of "x * 256 + ord c"] Cons.IH [of "ord c"] by (simp only: foldl_Cons) (simp add: algebra_simps)
qed (simp add: be_value_def)

lemma be_value_Cons: "be_value (c # b) = ord c * 256 ^ length b + be_value b"
  using foldl_be [of "ord c" b] by (simp add: be_value_def)

lemma be_value_net_bytes [simp]: "n < 256 ^ k \<Longrightarrow> be_value (net_bytes k n) = n"
proof (induction k arbitrary: n)
  case (Suc k)
  have "n < 256 * 256 ^ k" using Suc.prems by (simp only: power_Suc)
  then have "n div 256 ^ k < 256" by (rule less_mult_imp_div_less)
  then have "ord (char_of (n div 256 ^ k)) = n div 256 ^ k" by simp
  moreover have "be_value (net_bytes k (n mod 256 ^ k)) = n mod 256 ^ k" by (rule Suc.IH) simp
  ultimately show ?case by (simp only: net_bytes.simps be_value_Cons length_net_bytes div_mult_mod_eq)
qed (simp add: be_value_def)

text \<open>Text in which every character is one byte.\<close>

definition ascii :: "string \<Rightarrow> bool" where
  "ascii s \<longleftrightarrow> (\<forall>c\<in>set s. ord c < 128)"

lemma utf8_ascii: "ascii s \<Longrightarrow> utf8 s = s"
proof -
  assume "ascii s"
  then have "map (\<lambda>c. if ord c < 128 then [c] else [char_of (192 + ord c div 64), char_of (128 + ord c mod 64)]) s = map (\<lambda>c. [c]) s"
    by (intro map_cong) (simp_all add: ascii_def)
  then show ?thesis by (simp only: utf8_def concat_map_singleton list.map_ident)
qed

lemma pack_ascii: "ascii s \<Longrightarrow> pack_str (length s) (utf8 s) = s"
  by (simp add: utf8_ascii pack_str_def)

lemma field_append [simp]: "length x = k \<Longrightarrow> take_field k (x @ rest) f = f x rest"
  by (simp add: take_field_def)

lemma field_whole [simp]: "length x = k \<Longrightarrow> take_field k x f = f x []"
  by (simp add: take_field_def)

lemma vm_response_read:
  assumes "n < 256 ^ 4" "length ip < 256 ^ 2" "ssh < 256 ^ 2" "telnet < 256 ^ 2" "length snap < 256 ^ 2" "ascii ip" "ascii snap"
  shows "\<exists>b. vm_response n ip ssh telnet snap = Some b \<and>
    client_data_received True b vm_id = (Some (PoolData ip snap ssh telnet), Some n)"
proof -
  let ?b = "CHR ''r'' # net_bytes 4 0 @ net_bytes 4 n @ net_bytes 2 (length ip) @ ip @ net_bytes 2 ssh @ net_bytes 2 telnet @
    net_bytes 2 (length snap) @ snap"
  have "vm_response n ip ssh telnet snap = Some ?b" using assms by (simp add: vm_response_def pack_nat_def pack_ascii)
  moreover have "received_vm (net_bytes 4 n @ net_bytes 2 (length ip) @ ip @ (net_bytes 2 ssh @ net_bytes 2 telnet) @
      net_bytes 2 (length snap) @ snap) = Some (PoolData ip snap ssh telnet, n)"
    using assms unfolding received_vm_def by (subst field_append, simp)+ simp
  ultimately show ?thesis by (simp add: client_data_received_def Let_def)
qed

section \<open>Properties\<close>


text \<open>A binding whose listeners are open counts its users.\<close>

definition bound :: "nat \<Rightarrow> nat \<times> nat \<Rightarrow> nat \<Rightarrow> nat_service \<Rightarrow> bool" where
  "bound n ports k s \<longleftrightarrow> map_of s n = Some \<lparr>b_count = int k, b_ssh = Some (fst ports), b_telnet = Some (snd ports)\<rparr>"

fun request_all :: "nat \<Rightarrow> (nat \<times> nat) list \<Rightarrow> nat_service \<Rightarrow> nat_service" where
  "request_all n [] s = s"
| "request_all n (p # ps) s = request_all n ps (snd (request_binding n p s))"

fun free_times :: "nat \<Rightarrow> nat \<Rightarrow> nat_service \<Rightarrow> nat_service option" where
  "free_times n 0 s = Some s"
| "free_times n (Suc j) s = Option.bind (free_binding n s) (free_times n j)"

lemma request_bound: "bound n ports k s \<Longrightarrow> request_binding n p s = (ports, snd (request_binding n p s)) \<and> bound n ports (k + 1) (snd (request_binding n p s))"
  by (simp add: bound_def request_binding_def update_conv')

lemma request_unbound: "map_of s n = None \<Longrightarrow> bound n p 1 (snd (request_binding n p s))"
  by (simp add: bound_def request_binding_def new_binding_def update_conv')

lemma request_all_bound: "bound n ports k s \<Longrightarrow> bound n ports (k + length ps) (request_all n ps s)"
proof (induction ps arbitrary: k s)
  case (Cons p ps)
  then show ?case using Cons.IH [of "k + 1" "snd (request_binding n p s)"] request_bound [of n ports k s p] by simp
qed simp

lemma free_bound: "bound n ports (Suc k) s \<Longrightarrow> \<exists>t. free_binding n s = Some t \<and> (if k = 0 then map_of t n = None else bound n ports k t)"
  by (auto simp: bound_def free_binding_def update_conv' delete_conv')

lemma free_times_bound:
  "bound n ports (k + j) s \<Longrightarrow> 0 < j \<Longrightarrow> \<exists>t. free_times n j s = Some t \<and> (if k = 0 then map_of t n = None else bound n ports k t)"
proof (induction j arbitrary: s)
  case (Suc j)
  note prems = Suc.prems and IH = Suc.IH
  obtain t where t: "free_binding n s = Some t" "if k + j = 0 then map_of t n = None else bound n ports (k + j) t"
    using free_bound [of n ports "k + j" s] prems(1) by auto
  show ?case
  proof (cases "j = 0")
    case True
    with t show ?thesis by (cases "k = 0") simp_all
  next
    case False
    with t IH [of t] show ?thesis by simp
  qed
qed simp


section \<open>Examples\<close>

definition example_server :: pool_server where
  "example_server =
     \<lparr>ps_pool = example_pool True 1, ps_nat = [], ps_initialised = True, ps_local_pool = False, ps_pool_only = False, ps_use_nat = False,
      ps_public_ip = ''192.0.2.1'', ps_ssh_port = 22, ps_telnet_port = 23\<rparr>"



section \<open>Where the protocol fails\<close>

text \<open>Two messages that arrive together are not separated: the server raises, and neither is carried out.\<close>

lemma joined_messages_raise:
  assumes "send_vm_free (Some n) dirty = Some a" "b \<noteq> []"
  shows "server_data_received decode now ports (a @ b) s = (Inl StructError, s)"
  using assms
  by (auto simp: server_data_received_def send_vm_free_def pack_nat_def on_leave_def unpack_nat_def split: if_splits)

text \<open>A binding whose listener was closed is made anew and forgets its other users. The first of them to leave takes it away;
  for the others the server raises before it frees their guest.\<close>

lemma rebinding_forgets_users:
  assumes "map_of s n = Some b" "b_ssh b = None \<or> b_telnet b = None"
  shows "bound n p 1 (snd (request_binding n p s))"
    and "\<exists>t. free_binding n (snd (request_binding n p s)) = Some t \<and> map_of t n = None"
proof -
  show "bound n p 1 (snd (request_binding n p s))"
    using assms by (auto simp: bound_def request_binding_def new_binding_def update_conv' split: option.splits)
  then show "\<exists>t. free_binding n (snd (request_binding n p s)) = Some t \<and> map_of t n = None"
    using free_bound [of n p 0] by simp
qed

lemma unbound_guest_not_freed:
  "uses_nat s \<Longrightarrow> length body = 4 \<Longrightarrow> map_of (ps_nat s) (be_value body) = None \<Longrightarrow> on_leave give_back body s = (Inl MissingKey, s)"
  by (simp add: on_leave_def unpack_nat_def free_binding_def)

end
