(* ===== verification/Py_Difflib.thy ===== *)
theory Py_Difflib
  imports Py_Prelude
begin

text \<open>
  \<open>difflib.SequenceMatcher(None, a, b)\<close> of the standard library, as far as \<open>ratio\<close> needs it: the index of the second
  text without its popular characters, the longest matching block, and the sum of the blocks found on both sides of it.
\<close>

section \<open>The longest block\<close>

text \<open>The positions of a character; in a text of 200 characters or more a popular one has none.\<close>

definition b2j :: "string \<Rightarrow> char \<Rightarrow> nat list" where
  "b2j b c =
     (let idxs = filter (\<lambda>j. b ! j = c) [0..<length b]; n = length b in
      if n \<ge> 200 \<and> length idxs > n div 100 + 1 then [] else idxs)"

type_synonym block = "nat \<times> nat \<times> nat"

abbreviation block_size :: "block \<Rightarrow> nat" where "block_size m \<equiv> snd (snd m)"

definition length_at :: "(nat \<times> nat) list \<Rightarrow> nat \<Rightarrow> nat" where
  "length_at j2len j = (if j = 0 then 0 else case map_of j2len (j - 1) of None \<Rightarrow> 0 | Some k \<Rightarrow> k)"

fun scan_row :: "nat \<Rightarrow> (nat \<times> nat) list \<Rightarrow> nat list \<Rightarrow> (nat \<times> nat) list \<Rightarrow> block \<Rightarrow> (nat \<times> nat) list \<times> block" where
  "scan_row i j2len [] newj best = (newj, best)"
| "scan_row i j2len (j # js) newj best =
     (let k = length_at j2len j + 1 in
      scan_row i j2len js ((j, k) # newj) (if k > block_size best then (i + 1 - k, j + 1 - k, k) else best))"

fun scan_rows :: "string \<Rightarrow> string \<Rightarrow> nat \<Rightarrow> nat \<Rightarrow> nat list \<Rightarrow> (nat \<times> nat) list \<Rightarrow> block \<Rightarrow> block" where
  "scan_rows a b blo bhi [] j2len best = best"
| "scan_rows a b blo bhi (i # is) j2len best =
     (case scan_row i j2len (filter (\<lambda>j. blo \<le> j) (takeWhile (\<lambda>j. j < bhi) (b2j b (a ! i)))) [] best of
        (newj, best') \<Rightarrow> scan_rows a b blo bhi is newj best')"

text \<open>The block is extended on both sides, also over popular characters.\<close>

function extend_left :: "string \<Rightarrow> string \<Rightarrow> nat \<Rightarrow> nat \<Rightarrow> block \<Rightarrow> block" where
  "extend_left a b alo blo (i, j, k) =
     (if i > alo \<and> j > blo \<and> a ! (i - 1) = b ! (j - 1) then extend_left a b alo blo (i - 1, j - 1, k + 1) else (i, j, k))"
  by pat_completeness auto
termination by (relation "measure (\<lambda>(a, b, alo, blo, i, j, k). i)") auto

function extend_right :: "string \<Rightarrow> string \<Rightarrow> nat \<Rightarrow> nat \<Rightarrow> block \<Rightarrow> block" where
  "extend_right a b ahi bhi (i, j, k) =
     (if i + k < ahi \<and> j + k < bhi \<and> a ! (i + k) = b ! (j + k) then extend_right a b ahi bhi (i, j, k + 1) else (i, j, k))"
  by pat_completeness auto
termination by (relation "measure (\<lambda>(a, b, ahi, bhi, i, j, k). ahi - (i + k))") auto

declare extend_left.simps [simp del] extend_right.simps [simp del]

definition find_longest_match :: "string \<Rightarrow> string \<Rightarrow> nat \<Rightarrow> nat \<Rightarrow> nat \<Rightarrow> nat \<Rightarrow> block" where
  "find_longest_match a b alo ahi blo bhi =
     extend_right a b ahi bhi (extend_left a b alo blo (scan_rows a b blo bhi [alo..<ahi] [] (alo, blo, 0)))"

section \<open>Blocks lie in their range and match\<close>

definition good_block :: "string \<Rightarrow> string \<Rightarrow> nat \<Rightarrow> nat \<Rightarrow> nat \<Rightarrow> nat \<Rightarrow> block \<Rightarrow> bool" where
  "good_block a b alo ahi blo bhi m \<longleftrightarrow>
     (case m of (i, j, k) \<Rightarrow> alo \<le> i \<and> i + k \<le> ahi \<and> blo \<le> j \<and> j + k \<le> bhi \<and> (\<forall>l<k. a ! (i + l) = b ! (j + l)))"

text \<open>An entry of the row \<open>i\<close>: a block that ends there.\<close>

definition good_row :: "string \<Rightarrow> string \<Rightarrow> nat \<Rightarrow> nat \<Rightarrow> nat \<Rightarrow> nat \<Rightarrow> (nat \<times> nat) list \<Rightarrow> bool" where
  "good_row a b alo blo bhi e row \<longleftrightarrow>
     (\<forall>(j, k)\<in>set row. 0 < k \<and> k \<le> e \<and> k \<le> j + 1 \<and> j < bhi \<and> good_block a b alo e blo bhi (e - k, j + 1 - k, k))"

lemma good_block_mono: "good_block a b alo ahi blo bhi m \<Longrightarrow> ahi \<le> ahi' \<Longrightarrow> good_block a b alo ahi' blo bhi m"
  by (auto simp: good_block_def)

lemma block_snoc:
  assumes "good_block a b alo i blo bhi (i - k, j - k, k)" "a ! i = b ! j" "k \<le> i" "k \<le> j" "alo \<le> i" "blo \<le> j" "j < bhi"
  shows "good_block a b alo (i + 1) blo bhi (i + 1 - (k + 1), j + 1 - (k + 1), k + 1)"
  using assms by (auto simp: good_block_def less_Suc_eq)

lemma scan_row_good:
  assumes "good_row a b alo blo bhi i j2len" "\<forall>j\<in>set js. blo \<le> j \<and> j < bhi \<and> a ! i = b ! j" "alo \<le> i"
    and "good_row a b alo blo bhi (i + 1) newj" "good_block a b alo (i + 1) blo bhi best"
  shows "good_row a b alo blo bhi (i + 1) (fst (scan_row i j2len js newj best)) \<and>
    good_block a b alo (i + 1) blo bhi (snd (scan_row i j2len js newj best))"
  using assms
proof (induction js arbitrary: newj best)
  case (Cons j js)
  define k where "k = length_at j2len j"
  have j: "blo \<le> j" "j < bhi" "a ! i = b ! j" using Cons.prems(2) by simp_all
  have prev: "good_block a b alo i blo bhi (i - k, j - k, k) \<and> k \<le> i \<and> k \<le> j"
  proof (cases "k = 0")
    case True
    then show ?thesis using Cons.prems(3) j by (simp add: good_block_def)
  next
    case False
    then have "(j - 1, k) \<in> set j2len" "j \<noteq> 0"
      by (auto simp: k_def length_at_def dest: map_of_SomeD split: if_splits option.splits)
    then show ?thesis using Cons.prems(1) by (fastforce simp: good_row_def)
  qed
  have new: "good_block a b alo (i + 1) blo bhi (i + 1 - (k + 1), j + 1 - (k + 1), k + 1)"
    using prev j Cons.prems(3) by (intro block_snoc) auto
  have "good_row a b alo blo bhi (i + 1) ((j, k + 1) # newj)"
    using Cons.prems(4) new prev j(2) by (simp add: good_row_def)
  moreover have "good_block a b alo (i + 1) blo bhi (if k + 1 > block_size best then (i + 1 - (k + 1), j + 1 - (k + 1), k + 1) else best)"
    using new Cons.prems(5) by simp
  ultimately show ?case
    using Cons.IH [of "(j, k + 1) # newj" "if k + 1 > block_size best then (i + 1 - (k + 1), j + 1 - (k + 1), k + 1) else best"] Cons.prems(1,2,3)
    by (simp only: scan_row.simps Let_def k_def [symmetric]) simp
qed simp

lemma b2j_char: "j \<in> set (b2j b c) \<Longrightarrow> b ! j = c \<and> j < length b"
  by (auto simp: b2j_def Let_def split: if_splits)

lemma scan_rows_good:
  assumes "good_row a b alo blo bhi i j2len" "good_block a b alo i blo bhi best" "alo \<le> i" "i \<le> ahi"
  shows "good_block a b alo ahi blo bhi (scan_rows a b blo bhi [i..<ahi] j2len best)"
  using assms
proof (induction "ahi - i" arbitrary: i j2len best)
  case 0
  then show ?case by (simp add: good_block_mono)
next
  case (Suc n)
  let ?js = "filter (\<lambda>j. blo \<le> j) (takeWhile (\<lambda>j. j < bhi) (b2j b (a ! i)))"
  have "\<forall>j\<in>set ?js. blo \<le> j \<and> j < bhi \<and> a ! i = b ! j"
    using b2j_char [of _ b "a ! i"] set_takeWhileD [of _ "\<lambda>j. j < bhi" "b2j b (a ! i)"] by fastforce
  then have "good_row a b alo blo bhi (i + 1) (fst (scan_row i j2len ?js [] best)) \<and>
      good_block a b alo (i + 1) blo bhi (snd (scan_row i j2len ?js [] best))"
    using Suc.prems by (intro scan_row_good) (auto simp: good_row_def intro: good_block_mono)
  moreover obtain newj best' where r: "scan_row i j2len ?js [] best = (newj, best')" by (cases "scan_row i j2len ?js [] best")
  ultimately have "good_block a b alo ahi blo bhi (scan_rows a b blo bhi [i + 1..<ahi] newj best')"
    using Suc.hyps(2) Suc.prems by (intro Suc.hyps(1)) auto
  moreover have "[i..<ahi] = i # [i + 1..<ahi]" using Suc.hyps(2) by (simp add: upt_rec [of i])
  ultimately show ?case by (simp only: scan_rows.simps r prod.case)
qed

lemma extend_left_good: "good_block a b alo ahi blo bhi m \<Longrightarrow> good_block a b alo ahi blo bhi (extend_left a b alo blo m)"
proof (induction a b alo blo m rule: extend_left.induct)
  case (1 a b alo blo i j k)
  show ?case
  proof (cases "i > alo \<and> j > blo \<and> a ! (i - 1) = b ! (j - 1)")
    case True
    have "good_block a b alo ahi blo bhi (i - 1, j - 1, k + 1)"
      using 1(2) True by (auto simp: good_block_def less_Suc_eq_0_disj)
    then show ?thesis using 1(1) [OF True] True by (simp add: extend_left.simps [of a b alo blo i j k])
  next
    case False
    then show ?thesis using 1(2) by (simp only: extend_left.simps [of a b alo blo i j k] if_False)
  qed
qed

lemma extend_right_good: "good_block a b alo ahi blo bhi m \<Longrightarrow> good_block a b alo ahi blo bhi (extend_right a b ahi bhi m)"
proof (induction a b ahi bhi m rule: extend_right.induct)
  case (1 a b ahi bhi i j k)
  show ?case
  proof (cases "i + k < ahi \<and> j + k < bhi \<and> a ! (i + k) = b ! (j + k)")
    case True
    have "good_block a b alo ahi blo bhi (i, j, k + 1)"
      using 1(2) True by (auto simp: good_block_def less_Suc_eq)
    then show ?thesis using 1(1) [OF True] True by (simp add: extend_right.simps [of a b ahi bhi i j k])
  next
    case False
    then show ?thesis using 1(2) by (simp only: extend_right.simps [of a b ahi bhi i j k] if_False)
  qed
qed

lemma longest_good: "alo \<le> ahi \<Longrightarrow> blo \<le> bhi \<Longrightarrow> good_block a b alo ahi blo bhi (find_longest_match a b alo ahi blo bhi)"
  unfolding find_longest_match_def
  by (intro extend_right_good extend_left_good scan_rows_good) (auto simp: good_row_def good_block_def)

lemma longest_range:
  "(i, j, k) = find_longest_match a b alo ahi blo bhi \<Longrightarrow> alo \<le> ahi \<Longrightarrow> blo \<le> bhi \<Longrightarrow>
    alo \<le> i \<and> i + k \<le> ahi \<and> blo \<le> j \<and> j + k \<le> bhi \<and> (\<forall>l<k. a ! (i + l) = b ! (j + l))"
  using longest_good [of alo ahi blo bhi a b] by (auto simp: good_block_def)

section \<open>The sum of all blocks\<close>

text \<open>The blocks are found from a list of ranges that are still to be searched; the order does not change their sum.\<close>

function count_matches :: "string \<Rightarrow> string \<Rightarrow> nat \<Rightarrow> nat \<Rightarrow> nat \<Rightarrow> nat \<Rightarrow> nat" where
  "count_matches a b alo ahi blo bhi =
     (if ahi < alo \<or> bhi < blo then 0
      else case find_longest_match a b alo ahi blo bhi of
          (i, j, k) \<Rightarrow>
            if k = 0 then 0
            else k + count_matches a b alo i blo j + count_matches a b (i + k) ahi (j + k) bhi)"
  by pat_completeness auto
termination
  by (relation "measure (\<lambda>(a, b, alo, ahi, blo, bhi). ahi - alo)") (auto dest!: longest_range)

declare count_matches.simps [simp del]

definition matches :: "string \<Rightarrow> string \<Rightarrow> nat" where
  "matches a b = count_matches a b 0 (length a) 0 (length b)"

lemma count_bound:
  "alo \<le> ahi \<Longrightarrow> blo \<le> bhi \<Longrightarrow> count_matches a b alo ahi blo bhi \<le> ahi - alo \<and> count_matches a b alo ahi blo bhi \<le> bhi - blo"
proof (induction a b alo ahi blo bhi rule: count_matches.induct)
  case (1 a b alo ahi blo bhi)
  obtain i j k where m: "find_longest_match a b alo ahi blo bhi = (i, j, k)" by (metis prod_cases3)
  note r = longest_range [OF m [symmetric] 1(3,4)]
  show ?case
  proof (cases "k = 0")
    case True
    then show ?thesis by (simp add: count_matches.simps [of a b alo ahi blo bhi] m)
  next
    case False
    have guard: "\<not> (ahi < alo \<or> bhi < blo)" using 1(3,4) by simp
    have "count_matches a b alo i blo j \<le> i - alo \<and> count_matches a b alo i blo j \<le> j - blo"
      "count_matches a b (i + k) ahi (j + k) bhi \<le> ahi - (i + k) \<and> count_matches a b (i + k) ahi (j + k) bhi \<le> bhi - (j + k)"
      using 1(1) [OF guard m [symmetric] refl False] 1(2) [OF guard m [symmetric] refl False] r by auto
    moreover have "count_matches a b alo ahi blo bhi = k + count_matches a b alo i blo j + count_matches a b (i + k) ahi (j + k) bhi"
      using False guard by (simp add: count_matches.simps [of a b alo ahi blo bhi] m)
    ultimately show ?thesis using r by linarith
  qed
qed

text \<open>If the blocks cover both ranges, the ranges spell the same text.\<close>

lemma count_full:
  "alo \<le> ahi \<Longrightarrow> blo \<le> bhi \<Longrightarrow> count_matches a b alo ahi blo bhi = ahi - alo \<Longrightarrow> ahi - alo = bhi - blo \<Longrightarrow>
    l < ahi - alo \<Longrightarrow> a ! (alo + l) = b ! (blo + l)"
proof (induction a b alo ahi blo bhi arbitrary: l rule: count_matches.induct)
  case (1 a b alo ahi blo bhi)
  obtain i j k where m: "find_longest_match a b alo ahi blo bhi = (i, j, k)" by (metis prod_cases3)
  note r = longest_range [OF m [symmetric] 1(3,4)]
  have guard: "\<not> (ahi < alo \<or> bhi < blo)" using 1(3,4) by simp
  have k: "k \<noteq> 0" using 1(5,7) guard by (intro notI) (simp add: count_matches.simps [of a b alo ahi blo bhi] m)
  let ?l = "count_matches a b alo i blo j" and ?r = "count_matches a b (i + k) ahi (j + k) bhi"
  have sum: "k + ?l + ?r = ahi - alo" using 1(5) guard k by (simp add: count_matches.simps [of a b alo ahi blo bhi] m)
  have bounds: "?l \<le> i - alo" "?l \<le> j - blo" "?r \<le> ahi - (i + k)" "?r \<le> bhi - (j + k)"
    using count_bound [of alo i blo j a b] count_bound [of "i + k" ahi "j + k" bhi a b] r by auto
  have eq: "?l = i - alo" "i - alo = j - blo" "?r = ahi - (i + k)" "ahi - (i + k) = bhi - (j + k)"
    using sum bounds r 1(6) by linarith+
  consider "l < i - alo" | "i - alo \<le> l" "l < i - alo + k" | "i - alo + k \<le> l" by linarith
  then show ?case
  proof cases
    case 1
    then show ?thesis using 1(1) "1.IH"(1) [OF guard m [symmetric] refl k, of l] eq r by simp
  next
    case 2
    define d where "d = l - (i - alo)"
    have "d < k" "i + d = alo + l" "j + d = blo + l" using 2 r eq(2) unfolding d_def by linarith+
    then show ?thesis using r by metis
  next
    case 3
    define d where "d = l - (i - alo + k)"
    have d: "d < ahi - (i + k)" "i + k + d = alo + l" "j + k + d = blo + l"
      using 3 r eq(2) "1.prems"(5) unfolding d_def by linarith+
    have "a ! (i + k + d) = b ! (j + k + d)"
      using "1.IH"(2) [OF guard m [symmetric] refl k, of d] eq r d(1) by simp
    then show ?thesis using d(2,3) by metis
  qed
qed

lemma matches_bound: "matches a b \<le> length a" "matches a b \<le> length b"
  using count_bound [of 0 "length a" 0 "length b" a b] by (simp_all add: matches_def)

lemma matches_all: "matches a b = length a \<Longrightarrow> length a = length b \<Longrightarrow> a = b"
  using count_full [of 0 "length a" 0 "length b" a b] by (intro nth_equalityI) (simp_all add: matches_def)

section \<open>A text matches itself\<close>

text \<open>How many characters up to a position are not popular.\<close>

fun unpopular_run :: "string \<Rightarrow> nat \<Rightarrow> nat" where
  "unpopular_run a 0 = 0"
| "unpopular_run a (Suc i) = (if b2j a (a ! i) = [] then 0 else unpopular_run a i + 1)"

definition self_row :: "string \<Rightarrow> nat \<Rightarrow> (nat \<times> nat) list \<Rightarrow> bool" where
  "self_row a e row \<longleftrightarrow> (\<forall>(j, k)\<in>set row. k \<le> unpopular_run a e \<and> k \<le> unpopular_run a (j + 1)) \<and>
     length_at row e = unpopular_run a e"

definition self_best :: "string \<Rightarrow> nat \<Rightarrow> block \<Rightarrow> bool" where
  "self_best a e best \<longleftrightarrow> (\<exists>p k. best = (p, p, k) \<and> p + k \<le> e \<and> (\<forall>d\<le>e. unpopular_run a d \<le> k))"

lemma scan_row_small:
  assumes "\<forall>j\<in>set js. length_at j2len j + 1 \<le> block_size best"
  shows "snd (scan_row i j2len js newj best) = best"
  using assms by (induction js arbitrary: newj) (simp_all add: Let_def)

lemma scan_row_new: "fst (scan_row i j2len js newj best) = rev (map (\<lambda>j. (j, length_at j2len j + 1)) js) @ newj"
  by (induction js arbitrary: newj best) (simp_all add: Let_def)

lemma scan_row_append:
  "scan_row i j2len (xs @ ys) newj best = (case scan_row i j2len xs newj best of (n, m) \<Rightarrow> scan_row i j2len ys n m)"
  by (induction xs arbitrary: newj best) (simp_all add: Let_def)

lemma b2j_sorted: "sorted_wrt (<) (b2j b c)"
  by (simp add: b2j_def Let_def sorted_wrt_filter)

lemma run_le: "unpopular_run a e \<le> e"
  by (induction e) auto

lemma self_lengths:
  assumes "self_row a i row" "a ! j = a ! i" "b2j a (a ! i) \<noteq> []"
  shows "length_at row j + 1 \<le> unpopular_run a (Suc i) \<and> length_at row j + 1 \<le> unpopular_run a (Suc j)"
proof (cases "length_at row j")
  case 0
  then show ?thesis using assms by simp
next
  case (Suc k)
  then have "j \<noteq> 0" "(j - 1, Suc k) \<in> set row" by (auto simp: length_at_def dest: map_of_SomeD split: if_splits option.splits)
  moreover have "\<And>x. x \<in> set row \<Longrightarrow> snd x \<le> unpopular_run a i \<and> snd x \<le> unpopular_run a (fst x + 1)"
    using assms(1) by (auto simp: self_row_def)
  ultimately have "Suc k \<le> unpopular_run a i \<and> Suc k \<le> unpopular_run a j" by fastforce
  then show ?thesis using assms Suc by simp
qed

lemma self_row_step:
  assumes "self_row a i row" "js = b2j a (a ! i)" "i < length a" "js \<noteq> []"
  shows "self_row a (Suc i) (rev (map (\<lambda>j. (j, length_at row j + 1)) js))"
proof -
  have chars: "j \<in> set js \<Longrightarrow> a ! j = a ! i" for j using b2j_char assms(2) by blast
  have "i \<in> set js" using assms(2-4) by (auto simp: b2j_def Let_def split: if_splits)
  then have "length_at (rev (map (\<lambda>j. (j, length_at row j + 1)) js)) (Suc i) = length_at row i + 1"
    by (simp add: length_at_def rev_map map_of_map_restrict)
  moreover have "\<forall>j\<in>set js. length_at row j + 1 \<le> unpopular_run a (Suc i) \<and> length_at row j + 1 \<le> unpopular_run a (Suc j)"
    using self_lengths [OF assms(1) chars] assms(2,4) by blast
  moreover have "length_at row i = unpopular_run a i" using assms(1) by (simp add: self_row_def)
  ultimately show ?thesis using assms(2,4) by (simp add: self_row_def)
qed

lemma self_best_step:
  assumes "self_row a i row" "self_best a i best" "js = b2j a (a ! i)" "i < length a" "js \<noteq> []"
  shows "self_best a (Suc i) (snd (scan_row i row js [] best))"
proof -
  have chars: "j \<in> set js \<Longrightarrow> a ! j = a ! i" for j using b2j_char assms(3) by blast
  have "i \<in> set js" using assms(3-5) by (auto simp: b2j_def Let_def split: if_splits)
  then obtain xs ys where js: "js = xs @ i # ys" by (meson split_list)
  have "sorted_wrt (<) js" using b2j_sorted assms(3) by simp
  then have front: "\<forall>j\<in>set xs. j < i" by (simp add: js sorted_wrt_append)
  obtain p k where best: "best = (p, p, k)" "p + k \<le> i" "\<forall>d\<le>i. unpopular_run a d \<le> k"
    using assms(2) by (auto simp: self_best_def)
  have len: "length_at row j + 1 \<le> unpopular_run a (Suc i) \<and> length_at row j + 1 \<le> unpopular_run a (Suc j)" if "j \<in> set js" for j
    using self_lengths [OF assms(1) chars [OF that]] assms(3,5) by blast
  have "\<forall>j\<in>set xs. length_at row j + 1 \<le> k"
  proof
    fix j assume "j \<in> set xs"
    then have "length_at row j + 1 \<le> unpopular_run a (Suc j)" "Suc j \<le> i" using len [of j] front js by auto
    then show "length_at row j + 1 \<le> k" using best(3) le_trans by blast
  qed
  then have first: "snd (scan_row i row xs [] best) = best" by (intro scan_row_small) (simp add: best(1))
  have here: "length_at row i + 1 = unpopular_run a (Suc i)" using assms(1,3,5) by (simp add: self_row_def)
  define next_best where "next_best = (if length_at row i + 1 > k then (i + 1 - (length_at row i + 1), i + 1 - (length_at row i + 1), length_at row i + 1) else best)"
  have sz: "unpopular_run a (Suc i) \<le> block_size next_best" using here by (simp add: next_best_def best(1))
  have "snd (scan_row i row ys newj next_best) = next_best" for newj
    using len sz js by (intro scan_row_small) (metis in_set_conv_decomp le_trans append_Cons append_assoc)
  moreover have "snd (scan_row i row js [] best) = snd (scan_row i row ys ((i, length_at row i + 1) # fst (scan_row i row xs [] best)) next_best)"
    using first by (simp only: js scan_row_append case_prod_beta Let_def next_best_def best(1) scan_row.simps fst_conv snd_conv)
  ultimately have "snd (scan_row i row js [] best) = next_best" by (simp only:)
  moreover have "self_best a (Suc i) next_best"
    using best here run_le [of a "Suc i"] by (auto simp: self_best_def next_best_def le_Suc_eq simp del: unpopular_run.simps)
  ultimately show ?thesis by simp
qed

lemma self_rows:
  assumes "self_row a i row" "self_best a i best" "i \<le> length a"
  shows "self_best a (length a) (scan_rows a a 0 (length a) [i..<length a] row best)"
  using assms
proof (induction "length a - i" arbitrary: i row best)
  case 0
  then show ?case by simp
next
  case (Suc n)
  define js where "js = b2j a (a ! i)"
  have i: "i < length a" using Suc.hyps(2) by simp
  have "takeWhile (\<lambda>j. j < length a) js = js" using b2j_char unfolding js_def by (intro takeWhile_eq_all_conv [THEN iffD2]) blast
  then have all: "filter (\<lambda>j. 0 \<le> j) (takeWhile (\<lambda>j. j < length a) (b2j a (a ! i))) = js" by (simp add: js_def)
  obtain newj best' where r: "scan_row i row js [] best = (newj, best')" by (cases "scan_row i row js [] best")
  have "self_row a (Suc i) newj \<and> self_best a (Suc i) best'"
  proof (cases "js = []")
    case True
    then have "newj = []" "best' = best" using r by simp_all
    then show ?thesis using Suc.prems(2) True by (auto simp: self_row_def self_best_def length_at_def js_def le_Suc_eq)
  next
    case False
    then show ?thesis
      using self_row_step [OF Suc.prems(1) js_def i False] self_best_step [OF Suc.prems(1,2) js_def i False]
        scan_row_new [of i row js "[]" best] r by simp
  qed
  then have "self_best a (length a) (scan_rows a a 0 (length a) [Suc i..<length a] newj best')"
    using Suc.hyps(2) by (intro Suc.hyps(1)) auto
  moreover have "[i..<length a] = i # [Suc i..<length a]" using i by (simp add: upt_rec [of i])
  ultimately show ?case by (simp only: scan_rows.simps all r prod.case)
qed

lemma extend_left_self: "extend_left a a 0 0 (p, p, k) = (0, 0, p + k)"
  by (induction p arbitrary: k) (simp_all add: extend_left.simps [of a a 0 0 0 0] extend_left.simps [of a a 0 0 "Suc _" "Suc _"])

lemma extend_right_self: "k \<le> n \<Longrightarrow> extend_right a a n n (0, 0, k) = (0, 0, n)"
  by (induction "n - k" arbitrary: k) (simp_all add: extend_right.simps [of a a n n 0 0])

lemma longest_self: "find_longest_match a a 0 (length a) 0 (length a) = (0, 0, length a)"
proof -
  have "self_row a 0 []" "self_best a 0 (0, 0, 0)" by (simp_all add: self_row_def self_best_def length_at_def)
  then have "self_best a (length a) (scan_rows a a 0 (length a) [0..<length a] [] (0, 0, 0))" by (intro self_rows) simp_all
  then obtain p k where "scan_rows a a 0 (length a) [0..<length a] [] (0, 0, 0) = (p, p, k)" "p + k \<le> length a"
    by (auto simp: self_best_def)
  then show ?thesis by (simp add: find_longest_match_def extend_left_self extend_right_self)
qed

text \<open>Popular characters or not, all of a text matches itself.\<close>

lemma matches_self: "matches a a = length a"
proof (cases "a = []")
  case True
  then show ?thesis using matches_bound(1) [of a a] by simp
next
  case False
  have "count_matches a a 0 0 0 0 = 0" "count_matches a a (length a) (length a) (length a) (length a) = 0"
    using count_bound [of 0 0 0 0 a a] count_bound [of "length a" "length a" "length a" "length a" a a] by simp_all
  then show ?thesis using False by (simp add: matches_def count_matches.simps [of a a 0 "length a"] longest_self)
qed

end
