(* ===== verification/Tty_Log.thy ===== *)
theory Tty_Log
  imports Artifact Py_Float
begin

text \<open>
  The recording of a session: the format of the terminal log (\<open>src/src/cowrie/core/ttylog.py\<close>) and the wrapper around
  the terminal protocol that writes it, keeps what a client sends to a command, and files both under their digests
  (\<open>src/src/cowrie/insults/insults.py\<close>). The disk is a dictionary from paths to contents; the names of the open
  logs and the clock are arguments.
\<close>

section \<open>The format of a log\<close>

definition OP_OPEN :: nat where "OP_OPEN = 1"
definition OP_CLOSE :: nat where "OP_CLOSE = 2"
definition OP_WRITE :: nat where "OP_WRITE = 3"
definition TYPE_INPUT :: nat where "TYPE_INPUT = 1"
definition TYPE_OUTPUT :: nat where "TYPE_OUTPUT = 2"
definition TYPE_INTERACT :: nat where "TYPE_INTERACT = 3"

text \<open>Numbers of four bytes, least significant first, without and with sign.\<close>

fun le_bytes :: "nat \<Rightarrow> nat \<Rightarrow> bytestr" where
  "le_bytes 0 n = []"
| "le_bytes (Suc k) n = char_of (n mod 256) # le_bytes k (n div 256)"

fun le_value :: "bytestr \<Rightarrow> nat" where
  "le_value [] = 0"
| "le_value (c # b) = ord c + 256 * le_value b"

definition le_signed :: "bytestr \<Rightarrow> int" where
  "le_signed b = (let v = int (le_value b) in if v \<ge> 2 ^ 31 then v - 2 ^ 32 else v)"

text \<open>\<open>struct.pack(TTYSTRUCT, op, 0, length, direction, sec, usec)\<close>; \<^const>\<open>None\<close> is a number that does not fit.\<close>

definition pack_event :: "nat \<Rightarrow> nat \<Rightarrow> nat \<Rightarrow> rat \<Rightarrow> bytestr option" where
  "pack_event op len direction stamp =
     (let sec = int_of stamp; usec = int_of (fmul 1000000 (fsub stamp (fl_nat sec))) in
      if len < 2 ^ 31 \<and> sec < 2 ^ 32 \<and> usec < 2 ^ 32
      then Some (concat (map (le_bytes 4) [op, 0, len, direction, sec, usec])) else None)"

definition ttylog_open :: "rat \<Rightarrow> bytestr option" where
  "ttylog_open stamp = pack_event OP_OPEN 0 0 stamp"

definition ttylog_write :: "nat \<Rightarrow> nat \<Rightarrow> rat \<Rightarrow> bytestr \<Rightarrow> bytestr option" where
  "ttylog_write len direction stamp data = map_option (\<lambda>h. h @ data) (pack_event OP_WRITE len direction stamp)"

definition ttylog_close :: "rat \<Rightarrow> bytestr option" where
  "ttylog_close stamp = pack_event OP_CLOSE 0 0 stamp"

text \<open>\<open>fd.read(n)\<close> reads to the end for a negative \<open>n\<close>.\<close>

definition fd_read :: "int \<Rightarrow> bytestr \<Rightarrow> bytestr \<times> bytestr" where
  "fd_read n b = (if n < 0 then (b, []) else (take (nat n) b, drop (nat n) b))"

function input_bytes :: "bytestr \<Rightarrow> bytestr" where
  "input_bytes b =
     (if length b < 24 then []
      else case fd_read (le_signed (take 4 (drop 8 b))) (drop 24 b) of
          (data, rest) \<Rightarrow>
            (if le_signed (take 4 b) = int OP_WRITE \<and> le_signed (take 4 (drop 12 b)) = int TYPE_OUTPUT then [] else data) @
            input_bytes rest)"
  by pat_completeness auto
termination by (relation "measure length") (auto simp: fd_read_def split: if_splits)

declare input_bytes.simps [simp del]

definition ttylog_inputhash :: "bytestr \<Rightarrow> string" where
  "ttylog_inputhash b = sha256_hex (input_bytes b)"

section \<open>The wrapper of the terminal protocol\<close>

type_synonym disk_files = "(string, bytestr) dict"

record log_session =
  tl_exec :: bool
  tl_tty_enabled :: bool
  tl_limit :: nat
  tl_tty_dir :: string
  tl_download_dir :: string
  tl_tty_file :: string
  tl_stdin_file :: string
  tl_tty_open :: bool
  tl_stdin_open :: bool
  tl_received :: nat
  tl_sent :: nat
  tl_tty_size :: nat
  tl_redirs :: "(string \<times> string) list"
  tl_disk :: disk_files

text \<open>What the wrapper tells the terminal or logs: the digest, the path, whether it was there before, and the name that the client used.\<close>

datatype log_effect = EofReceived | Deliver bytestr | Transmit bytestr | SavedFile string string bool string | ClosedLog string string bool nat

definition append_file :: "string \<Rightarrow> bytestr \<Rightarrow> log_session \<Rightarrow> log_session" where
  "append_file path b s =
     s\<lparr>tl_disk := AList.update path ((case map_of (tl_disk s) path of None \<Rightarrow> [] | Some old \<Rightarrow> old) @ b) (tl_disk s)\<rparr>"

definition append_log :: "bytestr option \<Rightarrow> log_session \<Rightarrow> log_session option" where
  "append_log b s = map_option (\<lambda>b. append_file (tl_tty_file s) b s) b"

text \<open>\<^const>\<open>None\<close> is the \<open>struct.error\<close> of a record that does not fit. The command of an exec session is logged at the start.\<close>

definition log_connection_made :: "rat \<Rightarrow> bytestr \<Rightarrow> log_session \<Rightarrow> log_session option" where
  "log_connection_made stamp cmd s =
     Option.bind
       (if tl_tty_enabled s
        then map_option (\<lambda>s. s\<lparr>tl_tty_open := True, tl_tty_size := 0\<rparr>) (append_log (ttylog_open stamp) s)
        else Some s)
       (\<lambda>s1. if tl_exec s
         then (if tl_tty_enabled s then append_log (ttylog_write (length cmd) TYPE_INTERACT stamp cmd) (s1\<lparr>tl_stdin_open := True\<rparr>)
               else Some (s1\<lparr>tl_stdin_open := True\<rparr>))
         else Some (s1\<lparr>tl_stdin_open := False\<rparr>))"

definition log_output :: "rat \<Rightarrow> bytestr \<Rightarrow> log_session \<Rightarrow> (log_effect list \<times> log_session) option" where
  "log_output stamp data s =
     (let s1 = s\<lparr>tl_sent := tl_sent s + length data\<rparr> in
      map_option (Pair [Transmit data])
        (if tl_tty_enabled s1 \<and> tl_tty_open s1
         then map_option (\<lambda>s. s\<lparr>tl_tty_size := tl_tty_size s + length data\<rparr>) (append_log (ttylog_write (length data) TYPE_OUTPUT stamp data) s1)
         else Some s1))"

definition log_data_received :: "rat \<Rightarrow> bytestr \<Rightarrow> log_session \<Rightarrow> (log_effect list \<times> log_session) option" where
  "log_data_received stamp data s =
     (let s1 = s\<lparr>tl_received := tl_received s + length data\<rparr> in
      if tl_limit s1 \<noteq> 0 \<and> tl_received s1 > tl_limit s1 then Some ([EofReceived], s1)
      else map_option (Pair [Deliver data])
        (if tl_stdin_open s1 then Some (append_file (tl_stdin_file s1) data s1)
         else if tl_tty_enabled s1 \<and> tl_tty_open s1 then append_log (ttylog_write (length data) TYPE_INPUT stamp data) s1
         else Some s1))"

text \<open>A file goes to the path of its digest, unless there is one already; a missing file is an \<open>OSError\<close>.\<close>

definition file_away :: "string \<Rightarrow> string \<Rightarrow> string \<Rightarrow> disk_files \<Rightarrow> bool \<times> disk_files" where
  "file_away path target content d =
     (if map_of d target \<noteq> None then (True, AList.delete path d)
      else (False, AList.update target content (AList.delete path d)))"

definition save_stdin :: "log_session \<Rightarrow> log_effect list \<times> log_session" where
  "save_stdin s =
     (if \<not> tl_stdin_open s then ([], s)
      else case map_of (tl_disk s) (tl_stdin_file s) of
          None \<Rightarrow> ([], s\<lparr>tl_stdin_open := False\<rparr>)
        | Some content \<Rightarrow>
            let sha = sha256_hex content; target = path_join (tl_download_dir s) sha;
                (dup, d) = file_away (tl_stdin_file s) target content (tl_disk s) in
            ([SavedFile sha target dup []], s\<lparr>tl_disk := d, tl_stdin_open := False\<rparr>))"

definition redir_name :: "string \<Rightarrow> string \<Rightarrow> string" where
  "redir_name rf url =
     (if url \<noteq> [] then url else case str_find ''redir_'' rf of None \<Rightarrow> drop 5 rf | Some i \<Rightarrow> drop (i + 6) rf)"

fun save_redirs :: "string \<Rightarrow> (string \<times> string) list \<Rightarrow> disk_files \<Rightarrow> log_effect list \<times> disk_files" where
  "save_redirs dir [] d = ([], d)"
| "save_redirs dir ((rf, url) # rps) d =
     (case map_of d rf of
        None \<Rightarrow> save_redirs dir rps d
      | Some [] \<Rightarrow> save_redirs dir rps (AList.delete rf d)
      | Some content \<Rightarrow>
          let sha = sha256_hex content; target = path_join dir sha; (dup, d1) = file_away rf target content d;
              (effs, d2) = save_redirs dir rps d1 in
          (SavedFile sha target dup (redir_name rf url) # effs, d2))"

definition save_tty :: "rat \<Rightarrow> log_session \<Rightarrow> (log_effect list \<times> log_session) option" where
  "save_tty stamp s =
     (if tl_tty_enabled s \<and> tl_tty_open s then
        map_option (\<lambda>s1.
            let content = (case map_of (tl_disk s1) (tl_tty_file s1) of None \<Rightarrow> [] | Some b \<Rightarrow> b); sha = ttylog_inputhash content;
                target = path_join (tl_tty_dir s1) sha; (dup, d) = file_away (tl_tty_file s1) target content (tl_disk s1) in
            ([ClosedLog sha target dup (tl_tty_size s1)], s1\<lparr>tl_disk := d, tl_tty_open := False\<rparr>))
          (append_log (ttylog_close stamp) s)
      else Some ([], s))"

definition log_connection_lost :: "rat \<Rightarrow> log_session \<Rightarrow> (log_effect list \<times> log_session) option" where
  "log_connection_lost stamp s =
     (let (effs1, s1) = save_stdin s; (effs2, d) = save_redirs (tl_download_dir s1) (tl_redirs s1) (tl_disk s1) in
      map_option (\<lambda>(effs3, s3). (effs1 @ effs2 @ effs3, s3)) (save_tty stamp (s1\<lparr>tl_disk := d, tl_redirs := []\<rparr>)))"

section \<open>Reading back\<close>

lemma length_le_bytes [simp]: "length (le_bytes k n) = k"
  by (induction k arbitrary: n) simp_all

lemma le_value_le_bytes: "le_value (le_bytes k n) = n mod 256 ^ k"
proof (induction k arbitrary: n)
  case (Suc k)
  have "n mod 256 ^ Suc k = n mod 256 + 256 * (n div 256 mod 256 ^ k)" by (simp add: mod_mult2_eq)
  then show ?case using Suc by simp
qed simp

lemma le_signed_le_bytes: "n < 2 ^ 31 \<Longrightarrow> le_signed (le_bytes 4 n) = int n"
  by (simp add: le_signed_def le_value_le_bytes)

text \<open>A record and the data behind it.\<close>

lemma pack_event_shape:
  assumes "pack_event op len direction stamp = Some h"
  shows "\<exists>sec usec. h = le_bytes 4 op @ le_bytes 4 0 @ le_bytes 4 len @ le_bytes 4 direction @ le_bytes 4 sec @ le_bytes 4 usec \<and> len < 2 ^ 31"
  using assms by (auto simp: pack_event_def Let_def split: if_splits)

lemma input_bytes_event:
  assumes "pack_event op len direction stamp = Some h" "length data = len" "op < 2 ^ 31" "direction < 2 ^ 31"
  shows "input_bytes (h @ data @ rest) = (if op = OP_WRITE \<and> direction = TYPE_OUTPUT then [] else data) @ input_bytes rest"
proof -
  obtain sec usec where h: "h = le_bytes 4 op @ le_bytes 4 0 @ le_bytes 4 len @ le_bytes 4 direction @ le_bytes 4 sec @ le_bytes 4 usec"
      "len < 2 ^ 31"
    using pack_event_shape [OF assms(1)] by blast
  let ?b = "h @ data @ rest"
  have "length ?b \<ge> 24" "take 4 ?b = le_bytes 4 op" "take 4 (drop 8 ?b) = le_bytes 4 len"
    "take 4 (drop 12 ?b) = le_bytes 4 direction" "drop 24 ?b = data @ rest"
    by (simp_all add: h(1))
  moreover have "fd_read (int len) (data @ rest) = (data, rest)" using assms(2) by (simp add: fd_read_def)
  ultimately show ?thesis
    using h(2) assms(3,4) unfolding input_bytes.simps [of ?b] by (simp add: le_signed_le_bytes)
qed

lemma input_bytes_Nil [simp]: "input_bytes [] = []"
  by (simp add: input_bytes.simps)

text \<open>A log is a sequence of records; its input is what its parts say, one after the other.\<close>

definition log_part :: "bytestr \<Rightarrow> bytestr \<Rightarrow> bool" where
  "log_part b input \<longleftrightarrow> (\<forall>rest. input_bytes (b @ rest) = input @ input_bytes rest)"

lemma log_part_Nil: "log_part [] []"
  by (simp add: log_part_def)

lemma log_part_append: "log_part a x \<Longrightarrow> log_part b y \<Longrightarrow> log_part (a @ b) (x @ y)"
  by (simp add: log_part_def)

lemma log_part_input: "log_part b x \<Longrightarrow> input_bytes b = x"
  unfolding log_part_def by (metis append_Nil2 input_bytes_Nil)

lemma log_part_open: "ttylog_open stamp = Some b \<Longrightarrow> log_part b []"
  using input_bytes_event [of OP_OPEN 0 0 stamp b "[]"] by (simp add: ttylog_open_def log_part_def OP_OPEN_def OP_WRITE_def)

lemma log_part_close: "ttylog_close stamp = Some b \<Longrightarrow> log_part b []"
  using input_bytes_event [of OP_CLOSE 0 0 stamp b "[]"] by (simp add: ttylog_close_def log_part_def OP_CLOSE_def OP_WRITE_def)

lemma log_part_write:
  "ttylog_write (length data) d stamp data = Some b \<Longrightarrow> d < 4 \<Longrightarrow> log_part b (if d = TYPE_OUTPUT then [] else data)"
  using input_bytes_event [of OP_WRITE "length data" d stamp _ data] by (auto simp: ttylog_write_def log_part_def OP_WRITE_def)

section \<open>Sessions\<close>

datatype log_event = Typed rat bytestr | Shown rat bytestr

fun log_run :: "log_event list \<Rightarrow> log_session \<Rightarrow> log_session option" where
  "log_run [] s = Some s"
| "log_run (Typed t data # evs) s = Option.bind (log_data_received t data s) (\<lambda>(_, s1). log_run evs s1)"
| "log_run (Shown t data # evs) s = Option.bind (log_output t data s) (\<lambda>(_, s1). log_run evs s1)"

fun typed :: "log_event list \<Rightarrow> bytestr" where
  "typed [] = []"
| "typed (Typed t data # evs) = data @ typed evs"
| "typed (Shown t data # evs) = typed evs"

text \<open>An interactive session that is recorded: the only change to the disk \<open>d\<close> is its log, and the log says what was typed.\<close>

definition recording :: "log_session \<Rightarrow> bytestr \<Rightarrow> log_session \<Rightarrow> bool" where
  "recording s0 input s \<longleftrightarrow> tl_tty_enabled s \<and> tl_tty_open s \<and> \<not> tl_stdin_open s \<and> tl_limit s = 0 \<and> tl_redirs s = [] \<and>
     tl_tty_file s = tl_tty_file s0 \<and> tl_tty_dir s = tl_tty_dir s0 \<and>
     (\<exists>b. tl_disk s = AList.update (tl_tty_file s0) b (tl_disk s0) \<and> log_part b input)"

lemma append_recording:
  assumes "recording s0 input s" "log_part b added"
  shows "recording s0 (input @ added) (append_file (tl_tty_file s) b s)"
proof -
  obtain l where l: "tl_disk s = AList.update (tl_tty_file s0) l (tl_disk s0)" "log_part l input"
    using assms(1) by (auto simp: recording_def)
  have "log_part (l @ b) (input @ added)" using l(2) assms(2) by (rule log_part_append)
  then show ?thesis using assms(1) l(1) by (auto simp: recording_def append_file_def update_conv')
qed

lemma recording_start:
  assumes "\<not> tl_exec s" "tl_tty_enabled s" "tl_limit s = 0" "tl_redirs s = []" "map_of (tl_disk s) (tl_tty_file s) = None"
    and "log_connection_made t cmd s = Some s1"
  shows "recording s [] s1"
proof -
  obtain b where b: "ttylog_open t = Some b"
      "s1 = (append_file (tl_tty_file s) b s)\<lparr>tl_tty_open := True, tl_tty_size := 0, tl_stdin_open := False\<rparr>"
    using assms(1,2,6) by (cases "ttylog_open t") (auto simp: log_connection_made_def append_log_def)
  show ?thesis using assms log_part_open [OF b(1)] b(2) by (auto simp: recording_def append_file_def)
qed

lemma recording_run: "recording s0 input s \<Longrightarrow> log_run evs s = Some s1 \<Longrightarrow> recording s0 (input @ typed evs) s1"
proof (induction evs arbitrary: input s)
  case (Cons e evs)
  show ?case
  proof (cases e)
    case (Typed t data)
    have "recording s0 input (s\<lparr>tl_received := tl_received s + length data\<rparr>)" using Cons.prems(1) by (simp add: recording_def)
    moreover obtain b where b: "ttylog_write (length data) TYPE_INPUT t data = Some b"
        "log_run evs (append_file (tl_tty_file s) b (s\<lparr>tl_received := tl_received s + length data\<rparr>)) = Some s1"
      using Cons.prems by (auto simp: Typed recording_def log_data_received_def append_log_def Let_def bind_eq_Some_conv)
    moreover have "log_part b data" using log_part_write [OF b(1)] by (simp add: TYPE_INPUT_def TYPE_OUTPUT_def)
    ultimately have "recording s0 (input @ data) (append_file (tl_tty_file s) b (s\<lparr>tl_received := tl_received s + length data\<rparr>))"
      using append_recording [of s0 input "s\<lparr>tl_received := tl_received s + length data\<rparr>" b data] by simp
    then show ?thesis using Cons.IH [OF _ b(2)] by (fastforce simp: Typed)
  next
    case (Shown t data)
    have "recording s0 input (s\<lparr>tl_sent := tl_sent s + length data\<rparr>)" using Cons.prems(1) by (simp add: recording_def)
    moreover obtain b where b: "ttylog_write (length data) TYPE_OUTPUT t data = Some b"
        "log_run evs ((append_file (tl_tty_file s) b (s\<lparr>tl_sent := tl_sent s + length data\<rparr>))\<lparr>tl_tty_size := tl_tty_size s + length data\<rparr>) = Some s1"
      using Cons.prems by (auto simp: Shown recording_def log_output_def append_log_def append_file_def Let_def bind_eq_Some_conv)
    moreover have "log_part b []" using log_part_write [OF b(1)] by (simp add: TYPE_OUTPUT_def)
    ultimately have "recording s0 input (append_file (tl_tty_file s) b (s\<lparr>tl_sent := tl_sent s + length data\<rparr>))"
      using append_recording [of s0 input "s\<lparr>tl_sent := tl_sent s + length data\<rparr>" b "[]"] by simp
    then have "recording s0 input ((append_file (tl_tty_file s) b (s\<lparr>tl_sent := tl_sent s + length data\<rparr>))\<lparr>tl_tty_size := tl_tty_size s + length data\<rparr>)"
      by (simp add: recording_def)
    then show ?thesis using Cons.IH b(2) by (simp add: Shown)
  qed
qed simp

section \<open>Properties\<close>

text \<open>C33: The log of an interactive session is filed under the digest of exactly what the client typed, in any mixture with
  what it was shown: the file that is stored there reads back as that input, a log with the same input is not stored again,
  and nothing else on the disk changes.\<close>

theorem log_named_by_input:
  assumes "\<not> tl_exec s" "tl_tty_enabled s" "tl_limit s = 0" "tl_redirs s = []" "map_of (tl_disk s) (tl_tty_file s) = None"
    and "log_connection_made t0 cmd s = Some s1" "log_run evs s1 = Some s2" "log_connection_lost t1 s2 = Some (effs, s3)"
    and "target = path_join (tl_tty_dir s) (sha256_hex (typed evs))" "target \<noteq> tl_tty_file s"
  shows "\<exists>log size. input_bytes log = typed evs \<and>
    effs = [ClosedLog (sha256_hex (typed evs)) target (map_of (tl_disk s) target \<noteq> None) size] \<and>
    map_of (tl_disk s3) =
      (if map_of (tl_disk s) target \<noteq> None then map_of (tl_disk s) else (map_of (tl_disk s))(target \<mapsto> log))"
proof -
  have rec: "recording s (typed evs) s2"
    using recording_run [OF recording_start [OF assms(1-6)] assms(7)] by simp
  then have plain: "tl_redirs s2 = []" "\<not> tl_stdin_open s2" "tl_tty_enabled s2" "tl_tty_open s2" by (simp_all add: recording_def)
  have same: "s2\<lparr>tl_redirs := []\<rparr> = s2" using plain(1) by (cases s2) simp
  have "save_stdin s2 = ([], s2)" using plain by (simp add: save_stdin_def)
  then have "save_tty t1 (s2\<lparr>tl_redirs := []\<rparr>) = Some (effs, s3)"
    using assms(8) plain(1) by (simp add: log_connection_lost_def case_prod_beta)
  then have "save_tty t1 s2 = Some (effs, s3)" by (simp only: same)
  then obtain b where b: "ttylog_close t1 = Some b" and
    out: "save_tty t1 s2 = Some (effs, s3)" by (auto simp: save_tty_def plain append_log_def)
  define z where "z = append_file (tl_tty_file s2) b s2"
  have "recording s (typed evs) z" using append_recording [OF rec log_part_close [OF b]] by (simp add: z_def)
  then obtain l where l: "tl_disk z = AList.update (tl_tty_file s) l (tl_disk s)" "log_part l (typed evs)"
      "tl_tty_file z = tl_tty_file s" "tl_tty_dir z = tl_tty_dir s"
    by (auto simp: recording_def)
  have input: "input_bytes l = typed evs" using l(2) by (rule log_part_input)
  have away: "map_of (AList.delete (tl_tty_file s) (AList.update (tl_tty_file s) l (tl_disk s))) = map_of (tl_disk s)"
    using assms(5) by (auto simp: delete_conv' update_conv' fun_eq_iff)
  have content: "(case map_of (tl_disk z) (tl_tty_file z) of None \<Rightarrow> [] | Some b \<Rightarrow> b) = l" by (simp add: l(1,3) update_conv')
  have sha: "ttylog_inputhash l = sha256_hex (typed evs)" by (simp add: ttylog_inputhash_def input)
  have seen: "map_of (tl_disk z) target = map_of (tl_disk s) target" using assms(10) by (simp add: l(1) update_conv')
  have "effs = [ClosedLog (sha256_hex (typed evs)) target (map_of (tl_disk s) target \<noteq> None) (tl_tty_size z)] \<and>
    tl_disk s3 = snd (file_away (tl_tty_file z) target l (tl_disk z))"
    using out seen unfolding save_tty_def
    by (auto simp: plain append_log_def b z_def [symmetric] content sha Let_def l(4) assms(9) [symmetric] case_prod_beta file_away_def)
  then show ?thesis using input seen by (auto simp: file_away_def l(1,3) away update_conv')
qed

text \<open>Whole seconds always fit.\<close>

lemma pack_event_whole: "n < 2 ^ 32 \<Longrightarrow> len < 2 ^ 31 \<Longrightarrow> \<exists>h. pack_event op len direction (of_nat n) = Some h"
  by (simp add: pack_event_def int_of_def fl_small fsub_def fmul_def)

definition example_log :: log_session where
  "example_log =
     \<lparr>tl_exec = False, tl_tty_enabled = True, tl_limit = 0, tl_tty_dir = ''tty'', tl_download_dir = ''dl'', tl_tty_file = ''tty/1-i.log'',
      tl_stdin_file = ''dl/1-stdin.log'', tl_tty_open = False, tl_stdin_open = False, tl_received = 0, tl_sent = 0, tl_tty_size = 0,
      tl_redirs = [], tl_disk = []\<rparr>"

theorem log_named_by_input_witness:
  "\<exists>s1 s2 s3 size. log_connection_made 1 [] example_log = Some s1 \<and> log_run [Shown 2 ''$ '', Typed 3 ''ls''] s1 = Some s2 \<and>
     log_connection_lost 4 s2 = Some ([ClosedLog (sha256_hex ''ls'') (path_join ''tty'' (sha256_hex ''ls'')) False size], s3)"
proof -
  let ?target = "path_join ''tty'' (sha256_hex ''ls'')"
  have whole: "\<exists>h. pack_event op n d 1 = Some h" "\<exists>h. pack_event op n d 2 = Some h" "\<exists>h. pack_event op n d 3 = Some h"
    "\<exists>h. pack_event op n d 4 = Some h" if "n < 2 ^ 31" for op n d
    using pack_event_whole [of 1 n op d] pack_event_whole [of 2 n op d] pack_event_whole [of 3 n op d] pack_event_whole [of 4 n op d] that
    by simp_all
  obtain s1 where s1: "log_connection_made 1 [] example_log = Some s1"
    using whole(1) [of 0 OP_OPEN 0] by (auto simp: log_connection_made_def append_log_def ttylog_open_def example_log_def append_file_def)
  have ex: "\<not> tl_exec example_log" "tl_tty_enabled example_log" "tl_limit example_log = 0" "tl_redirs example_log = []"
    "map_of (tl_disk example_log) (tl_tty_file example_log) = None" "tl_tty_dir example_log = ''tty''" "tl_disk example_log = []"
    by (simp_all add: example_log_def)
  have r1: "recording example_log [] s1" by (rule recording_start [OF ex(1-5) s1])
  obtain s2 where s2: "log_run [Shown 2 ''$ '', Typed 3 ''ls''] s1 = Some s2"
    using r1 whole(2) [of "Suc (Suc 0)" OP_WRITE TYPE_OUTPUT] whole(3) [of "Suc (Suc 0)" OP_WRITE TYPE_INPUT]
    by (auto simp: recording_def log_output_def log_data_received_def append_log_def ttylog_write_def append_file_def Let_def)
  have "recording example_log (typed [Shown 2 ''$ '', Typed 3 ''ls'']) s2"
    using recording_run [OF r1 s2] by simp
  moreover obtain b where "ttylog_close 4 = Some b" using whole(4) [of 0 OP_CLOSE 0] by (auto simp: ttylog_close_def)
  ultimately have "log_connection_lost 4 s2 \<noteq> None"
    by (auto simp: log_connection_lost_def recording_def save_stdin_def save_tty_def append_log_def case_prod_beta)
  then obtain effs s3 where s3: "log_connection_lost 4 s2 = Some (effs, s3)" by auto
  have "?target \<noteq> tl_tty_file example_log"
  proof
    assume "?target = tl_tty_file example_log"
    then have "length ?target = length ''tty/1-i.log''" by (simp add: example_log_def)
    then show False by (simp add: path_join_def)
  qed
  then have "\<exists>log size. input_bytes log = ''ls'' \<and> effs = [ClosedLog (sha256_hex ''ls'') ?target False size] \<and>
      map_of (tl_disk s3) = [?target \<mapsto> log]"
    using log_named_by_input [OF ex(1-5) s1 s2 s3, of ?target] by (simp add: ex(6,7))
  then show ?thesis using s1 s2 s3 by blast
qed

end
