(* ===== verification/Proxy_Term.thy ===== *)
theory Proxy_Term
  imports Tty_Log
begin

text \<open>
  How the SSH proxy follows a terminal (\<open>src/src/cowrie/ssh_proxy/protocols/term.py\<close>) and a command
  (\<open>exec_term.py\<close>) that run on a machine of the pool: the line that the client is editing is rebuilt from the keys, and
  both directions go to a terminal log. The decoder of text and the clock are arguments.
\<close>

section \<open>Python slices\<close>

definition slice_to :: "int \<Rightarrow> 'a list \<Rightarrow> 'a list" where
  "slice_to n xs = take (nat (if n < 0 then int (length xs) + n else n)) xs"

definition slice_from :: "int \<Rightarrow> 'a list \<Rightarrow> 'a list" where
  "slice_from n xs = drop (nat (if n < 0 then int (length xs) + n else n)) xs"

section \<open>The terminal log of a channel\<close>

record chan_log =
  cl_enabled :: bool
  cl_dir :: string
  cl_file :: string
  cl_size :: nat
  cl_disk :: disk_files

definition chan_append :: "bytestr option \<Rightarrow> chan_log \<Rightarrow> chan_log option" where
  "chan_append b c =
     map_option (\<lambda>b. c\<lparr>cl_disk := AList.update (cl_file c)
       ((case map_of (cl_disk c) (cl_file c) of None \<Rightarrow> [] | Some old \<Rightarrow> old) @ b) (cl_disk c)\<rparr>) b"

definition chan_open :: "rat \<Rightarrow> bool \<Rightarrow> string \<Rightarrow> string \<Rightarrow> disk_files \<Rightarrow> chan_log option" where
  "chan_open stamp enabled dir path disk =
     (let c = \<lparr>cl_enabled = enabled, cl_dir = dir, cl_file = path, cl_size = 0, cl_disk = disk\<rparr> in
      if enabled then chan_append (ttylog_open stamp) c else Some c)"

definition chan_write :: "rat \<Rightarrow> nat \<Rightarrow> bytestr \<Rightarrow> chan_log \<Rightarrow> chan_log option" where
  "chan_write stamp direction data c =
     (if cl_enabled c
      then map_option (\<lambda>c. c\<lparr>cl_size := cl_size c + length data\<rparr>) (chan_append (ttylog_write (length data) direction stamp data) c)
      else Some c)"

definition channel_closed :: "rat \<Rightarrow> chan_log \<Rightarrow> (log_effect list \<times> chan_log) option" where
  "channel_closed stamp c =
     (if cl_enabled c then
        map_option (\<lambda>c1.
            let content = (case map_of (cl_disk c1) (cl_file c1) of None \<Rightarrow> [] | Some b \<Rightarrow> b); sha = ttylog_inputhash content;
                target = path_join (cl_dir c1) sha; (dup, d) = file_away (cl_file c1) target content (cl_disk c1) in
            ([ClosedLog sha target dup (cl_size c1)], c1\<lparr>cl_disk := d\<rparr>))
          (chan_append (ttylog_close stamp) c)
      else Some ([], c))"

section \<open>The line that is edited\<close>

datatype command_event = CommandInput string | UnusualCommand bytestr

record term_state =
  tm_command :: bytestr
  tm_pointer :: int
  tab_press :: bool
  up_arrow :: bool
  tm_events :: "command_event list"

definition new_term :: term_state where
  "new_term = \<lparr>tm_command = [], tm_pointer = 0, tab_press = False, up_arrow = False, tm_events = []\<rparr>"

definition log_command :: "(bytestr \<Rightarrow> string option) \<Rightarrow> bytestr \<Rightarrow> command_event list" where
  "log_command decode cmd =
     (if cmd = [] then [] else case decode cmd of Some s \<Rightarrow> [CommandInput s] | None \<Rightarrow> [UnusualCommand cmd])"

definition insert_byte :: "char \<Rightarrow> term_state \<Rightarrow> term_state" where
  "insert_byte ch t =
     t\<lparr>tm_command := slice_to (tm_pointer t) (tm_command t) @ [ch] @ slice_from (tm_pointer t) (tm_command t), tm_pointer := tm_pointer t + 1\<rparr>"

definition rub_out :: "term_state \<Rightarrow> term_state" where
  "rub_out t =
     (if tm_pointer t > 0 then
        t\<lparr>tm_command := slice_to (tm_pointer t - 1) (tm_command t) @ slice_from (tm_pointer t) (tm_command t), tm_pointer := tm_pointer t - 1\<rparr>
      else t)"

definition enter_line :: "(bytestr \<Rightarrow> string option) \<Rightarrow> char \<Rightarrow> term_state \<Rightarrow> term_state" where
  "enter_line decode ch t =
     (let cmd = tm_command t @ (if ch = CHR 0x03 then ''^C'' else []) in
      t\<lparr>tm_command := [], tm_pointer := 0, tm_events := tm_events t @ log_command decode cmd\<rparr>)"

text \<open>What the client sends.\<close>

function server_keys :: "(bytestr \<Rightarrow> string option) \<Rightarrow> bytestr \<Rightarrow> term_state \<Rightarrow> term_state" where
  "server_keys decode data t =
     (case data of [] \<Rightarrow> t
      | ch # rest \<Rightarrow>
          if ch = CHR 0x09 then server_keys decode rest (t\<lparr>tab_press := True\<rparr>)
          else if ch = CHR 0x7F \<or> ch = CHR 0x08 then server_keys decode rest (rub_out t)
          else if ch = CHR 0x0D \<or> ch = CHR 0x03 \<or> ch = CHR 0x0A then server_keys decode rest (enter_line decode ch t)
          else if startswith data (esc # ''OH'') then server_keys decode (drop 3 data) (t\<lparr>tm_pointer := 0\<rparr>)
          else if startswith data (esc # ''OF'') then server_keys decode (drop 3 data) (t\<lparr>tm_pointer := int (length (tm_command t))\<rparr>)
          else if startswith data (esc # ''[C'') then
            server_keys decode (drop 3 data) (if tm_pointer t \<noteq> int (length (tm_command t)) then t\<lparr>tm_pointer := tm_pointer t + 1\<rparr> else t)
          else if startswith data (esc # ''[D'') then
            server_keys decode (drop 3 data) (if tm_pointer t \<noteq> 0 then t\<lparr>tm_pointer := tm_pointer t - 1\<rparr> else t)
          else if startswith data (esc # ''[A'') \<or> startswith data (esc # ''[B'') then
            server_keys decode (drop 3 data) (t\<lparr>up_arrow := True\<rparr>)
          else server_keys decode rest (insert_byte ch t))"
  by pat_completeness auto
termination by (relation "measure (\<lambda>(decode, data, t). length data)") auto

text \<open>What the machine answers: completion after a tab, and the old line after an arrow. The test for \<open>ESC [ n P\<close> looks at
  an empty slice.\<close>

function recalled_line :: "bytestr \<Rightarrow> term_state \<Rightarrow> term_state" where
  "recalled_line data t =
     (case data of [] \<Rightarrow> t
      | ch # rest \<Rightarrow>
          if ch = CHR 0x08 then
            recalled_line rest (t\<lparr>tm_command := slice_to (-1) (tm_command t), tm_pointer := tm_pointer t - 1\<rparr>)
          else if startswith data (esc # ''[K'') then
            recalled_line (drop 3 data) (t\<lparr>tm_command := slice_to (tm_pointer t) (tm_command t)\<rparr>)
          else if ch = CHR 0x0D then recalled_line rest (t\<lparr>tm_pointer := 0\<rparr>)
          else if startswith data (esc # ''[C'') then recalled_line (drop 3 data) (t\<lparr>tm_pointer := tm_pointer t + 1\<rparr>)
          else if startswith data (esc # ''['') \<and> take (3 - 3) (drop 3 data) = ''P'' then recalled_line (drop 4 data) t
          else if ch \<noteq> CHR 0x07 \<and> ch \<noteq> CHR 0x0D then recalled_line rest (insert_byte ch t)
          else recalled_line rest (t\<lparr>tm_pointer := tm_pointer t + 1\<rparr>))"
  by pat_completeness auto
termination by (relation "measure (\<lambda>(data, t). length data)") auto

declare server_keys.simps [simp del] recalled_line.simps [simp del]

definition client_answer_bytes :: "bytestr \<Rightarrow> term_state \<Rightarrow> term_state" where
  "client_answer_bytes data t =
     (let t1 = (if tab_press t then
          (if \<not> startswith data [CHR 0x0D] \<and> data \<noteq> [CHR 0x07] then t\<lparr>tm_command := tm_command t @ data, tab_press := False\<rparr>
           else t\<lparr>tab_press := False\<rparr>)
          else t) in
      if up_arrow t1 then (recalled_line data t1)\<lparr>up_arrow := False\<rparr> else t1)"

datatype side = Server | Client

definition term_parse_packet ::
  "(bytestr \<Rightarrow> string option) \<Rightarrow> rat \<Rightarrow> side \<Rightarrow> bytestr \<Rightarrow> term_state \<times> chan_log \<Rightarrow> (term_state \<times> chan_log) option"
where
  "term_parse_packet decode stamp parent data s =
     (case s of (t, c) \<Rightarrow>
        (case parent of
           Server \<Rightarrow> map_option (Pair (server_keys decode data t)) (chan_write stamp TYPE_OUTPUT data c)
         | Client \<Rightarrow> map_option (Pair (client_answer_bytes data t)) (chan_write stamp TYPE_INPUT data c)))"

text \<open>A command of an exec channel: its events, and what is logged of both directions.\<close>

definition exec_term_open ::
  "(bytestr \<Rightarrow> string option) \<Rightarrow> rat \<Rightarrow> bool \<Rightarrow> string \<Rightarrow> string \<Rightarrow> bytestr \<Rightarrow> disk_files \<Rightarrow> (command_event list \<times> chan_log) option"
where
  "exec_term_open decode stamp enabled dir path command disk =
     map_option (Pair (case decode command of Some s \<Rightarrow> [CommandInput s] | None \<Rightarrow> [UnusualCommand command]))
       (chan_open stamp enabled dir path disk)"

definition exec_parse_packet :: "rat \<Rightarrow> side \<Rightarrow> bytestr \<Rightarrow> chan_log \<Rightarrow> chan_log option" where
  "exec_parse_packet stamp parent data c = chan_write stamp TYPE_OUTPUT data c"

section \<open>A line editor\<close>

text \<open>The keys of a terminal, the bytes they send, and a line as the text on both sides of the cursor.\<close>

datatype key = KChar char | KRub | KLeft | KRight | KHome | KEnd | KEnter | KBreak | KTab | KUp

fun key_bytes :: "key \<Rightarrow> bytestr" where
  "key_bytes (KChar c) = [c]"
| "key_bytes KRub = [CHR 0x7F]"
| "key_bytes KLeft = esc # ''[D''"
| "key_bytes KRight = esc # ''[C''"
| "key_bytes KHome = esc # ''OH''"
| "key_bytes KEnd = esc # ''OF''"
| "key_bytes KEnter = [CHR 0x0D]"
| "key_bytes KBreak = [CHR 0x03]"
| "key_bytes KTab = [CHR 0x09]"
| "key_bytes KUp = esc # ''[A''"

definition plain_key :: "key \<Rightarrow> bool" where
  "plain_key k = (case k of KChar c \<Rightarrow> c \<notin> {CHR 0x03, CHR 0x08, CHR 0x09, CHR 0x0A, CHR 0x0D, esc, CHR 0x7F} | _ \<Rightarrow> True)"

type_synonym editor = "bytestr \<times> bytestr \<times> bytestr list"

fun edit :: "key \<Rightarrow> editor \<Rightarrow> editor" where
  "edit (KChar c) (l, r, done) = (l @ [c], r, done)"
| "edit KRub (l, r, done) = (butlast l, r, done)"
| "edit KLeft (l, r, done) = (if l = [] then (l, r, done) else (butlast l, last l # r, done))"
| "edit KRight (l, r, done) = (if r = [] then (l, r, done) else (l @ [hd r], tl r, done))"
| "edit KHome (l, r, done) = ([], l @ r, done)"
| "edit KEnd (l, r, done) = (l @ r, [], done)"
| "edit KEnter (l, r, done) = ([], [], done @ [l @ r])"
| "edit KBreak (l, r, done) = ([], [], done @ [l @ r @ ''^C''])"
| "edit KTab e = e"
| "edit KUp e = e"

definition shows_line :: "(bytestr \<Rightarrow> string option) \<Rightarrow> editor \<Rightarrow> term_state \<Rightarrow> bool" where
  "shows_line decode e t \<longleftrightarrow>
     (case e of (l, r, lines) \<Rightarrow>
        tm_command t = l @ r \<and> tm_pointer t = int (length l) \<and> tm_events t = concat (map (log_command decode) lines))"

definition key_step :: "(bytestr \<Rightarrow> string option) \<Rightarrow> key \<Rightarrow> term_state \<Rightarrow> term_state" where
  "key_step decode k t =
     (case k of
        KChar c \<Rightarrow> insert_byte c t
      | KRub \<Rightarrow> rub_out t
      | KLeft \<Rightarrow> (if tm_pointer t \<noteq> 0 then t\<lparr>tm_pointer := tm_pointer t - 1\<rparr> else t)
      | KRight \<Rightarrow> (if tm_pointer t \<noteq> int (length (tm_command t)) then t\<lparr>tm_pointer := tm_pointer t + 1\<rparr> else t)
      | KHome \<Rightarrow> t\<lparr>tm_pointer := 0\<rparr>
      | KEnd \<Rightarrow> t\<lparr>tm_pointer := int (length (tm_command t))\<rparr>
      | KEnter \<Rightarrow> enter_line decode (CHR 0x0D) t
      | KBreak \<Rightarrow> enter_line decode (CHR 0x03) t
      | KTab \<Rightarrow> t\<lparr>tab_press := True\<rparr>
      | KUp \<Rightarrow> t\<lparr>up_arrow := True\<rparr>)"

lemma server_keys_key:
  "plain_key k \<Longrightarrow> server_keys decode (key_bytes k @ rest) t = server_keys decode rest (key_step decode k t)"
  by (cases k) (auto simp: server_keys.simps [of decode "_ # _"] key_step_def plain_key_def)

lemma shows_step: "shows_line decode e t \<Longrightarrow> shows_line decode (edit k e) (key_step decode k t)"
proof -
  assume s: "shows_line decode e t"
  obtain l r lines where e: "e = (l, r, lines)" by (cases e)
  then have t: "tm_command t = l @ r" "tm_pointer t = int (length l)" "tm_events t = concat (map (log_command decode) lines)"
    using s by (simp_all add: shows_line_def)
  show ?thesis
  proof (cases k)
    case KRub
    then show ?thesis
      using t by (cases l rule: rev_cases) (simp_all add: e shows_line_def key_step_def rub_out_def slice_to_def slice_from_def nat_add_distrib)
  next
    case KLeft
    then show ?thesis using t by (cases l rule: rev_cases) (simp_all add: e shows_line_def key_step_def)
  next
    case KRight
    then show ?thesis using t by (cases r) (simp_all add: e shows_line_def key_step_def)
  qed (use t in \<open>simp_all add: e shows_line_def key_step_def insert_byte_def enter_line_def slice_to_def slice_from_def Let_def\<close>)
qed

section \<open>Properties\<close>

text \<open>C34: The proxy follows the line editor of a terminal: for every sequence of keys, the line and the cursor that it keeps
  are those of an editor that moves characters across the cursor, and the commands that it logs are exactly the lines that
  were entered, in order.\<close>

theorem term_refines_editor:
  assumes "list_all plain_key ks" "shows_line decode e t"
  shows "shows_line decode (fold edit ks e) (server_keys decode (concat (map key_bytes ks)) t)"
  using assms
proof (induction ks arbitrary: e t)
  case Nil
  then show ?case by (simp add: server_keys.simps [of decode "[]"])
next
  case (Cons k ks)
  then show ?case using shows_step [of decode e t k] by (simp add: server_keys_key)
qed

theorem term_refines_editor_witness:
  "tm_events (server_keys Some (''lz'' @ [CHR 0x7F] @ ''s -a'' @ esc # ''[D'' @ ''l'' @ [CHR 0x0D]) new_term) = [CommandInput ''ls -la'']"
proof -
  let ?ks = "map KChar ''lz'' @ [KRub] @ map KChar ''s -a'' @ [KLeft, KChar (CHR ''l''), KEnter]"
  have "list_all plain_key ?ks" "shows_line Some ([], [], []) new_term" by (simp_all add: plain_key_def shows_line_def new_term_def)
  then have "shows_line Some (fold edit ?ks ([], [], [])) (server_keys Some (concat (map key_bytes ?ks)) new_term)"
    by (rule term_refines_editor)
  then show ?thesis by (simp add: shows_line_def log_command_def)
qed

text \<open>A log of a command channel is all output, so that its input is empty: every such log is filed under the same name, and
  after the first one each is deleted as a duplicate.\<close>

lemma exec_part: "chan_write t TYPE_OUTPUT data c = Some c1 \<Longrightarrow> cl_enabled c \<Longrightarrow>
    \<exists>b. log_part b [] \<and> cl_disk c1 = AList.update (cl_file c)
      ((case map_of (cl_disk c) (cl_file c) of None \<Rightarrow> [] | Some old \<Rightarrow> old) @ b) (cl_disk c) \<and>
    cl_enabled c1 \<and> cl_file c1 = cl_file c \<and> cl_dir c1 = cl_dir c"
  using log_part_write [of data TYPE_OUTPUT t] by (auto simp: chan_write_def chan_append_def TYPE_OUTPUT_def)

lemma exec_logs_lost:
  assumes "cl_enabled c" "map_of (cl_disk c) (cl_file c) = Some l" "log_part l []"
    and "exec_parse_packet t0 parent data c = Some c1" "channel_closed t1 c1 = Some (effs, c2)"
    and "map_of (cl_disk c) (path_join (cl_dir c) (sha256_hex [])) \<noteq> None" "path_join (cl_dir c) (sha256_hex []) \<noteq> cl_file c"
  shows "map_of (cl_disk c2) = (map_of (cl_disk c))(cl_file c := None)"
proof -
  obtain b where b: "log_part b []" "cl_disk c1 = AList.update (cl_file c) (l @ b) (cl_disk c)" "cl_enabled c1"
      "cl_file c1 = cl_file c" "cl_dir c1 = cl_dir c"
    using exec_part [OF assms(4) [unfolded exec_parse_packet_def] assms(1)] assms(2) by auto
  obtain d where d: "ttylog_close t1 = Some d" using assms(5) b(3) by (auto simp: channel_closed_def chan_append_def)
  have "log_part (l @ b @ d) []" using log_part_append [OF log_part_append [OF assms(3) b(1)] log_part_close [OF d]] by simp
  then have "ttylog_inputhash (l @ b @ d) = sha256_hex []" by (simp add: ttylog_inputhash_def log_part_input)
  then show ?thesis
    using assms(5-7) b d
    by (auto simp: channel_closed_def chan_append_def update_conv' file_away_def delete_conv' Let_def split: prod.splits)
qed

text \<open>The proxy marks what the client types as output and what the machine answers as input, so that the name of a log is
  the digest of the answers.\<close>

lemma term_directions_swapped:
  "term_parse_packet decode stamp Client data (t, c) = map_option (Pair (client_answer_bytes data t)) (chan_write stamp TYPE_INPUT data c)"
  by (simp add: term_parse_packet_def)

text \<open>The end of a deletion, \<open>ESC [ n P\<close>, goes into the line as text.\<close>

lemma deletion_becomes_text:
  "tm_command (recalled_line (esc # ''[1P'') (new_term\<lparr>tm_command := ''ls'', tm_pointer := 2\<rparr>)) = ''ls'' @ esc # ''[1P''"
  by (simp add: recalled_line.simps new_term_def insert_byte_def slice_to_def slice_from_def)

end
