(* ===== verification/Proxy_Sftp.thy ===== *)
theory Proxy_Sftp
  imports Proxy_Term
begin

text \<open>
  How the SSH proxy follows a file transfer (\<open>src/src/cowrie/ssh_proxy/protocols/sftp.py\<close> over \<open>base_protocol.py\<close>):
  packets are put together from the data of a channel, and an uploaded file is kept under its digest. An exception ends
  the treatment of the data at hand and is the value \<^const>\<open>False\<close>. The numbers of the packets are those of the protocol
  (\<open>twisted.conch.ssh.filetransfer\<close>, listed in the comments of the module).
\<close>

section \<open>The base protocol\<close>

record packet =
  pk_data :: bytestr
  pk_size :: int

definition empty_packet :: packet where "empty_packet = \<lparr>pk_data = [], pk_size = 0\<rparr>"

definition extract_int :: "nat \<Rightarrow> packet \<Rightarrow> nat \<times> packet" where
  "extract_int n p = (int_of_bytes (take n (pk_data p)), \<lparr>pk_data = drop n (pk_data p), pk_size = pk_size p - int n\<rparr>)"

definition put_int :: "nat \<Rightarrow> bytestr" where
  "put_int n = be_bytes 4 n"

definition extract_string :: "packet \<Rightarrow> bytestr \<times> packet" where
  "extract_string p =
     (case extract_int 4 p of (n, q) \<Rightarrow> (take n (pk_data q), \<lparr>pk_data = drop n (pk_data q), pk_size = pk_size q - int n\<rparr>))"

definition extract_bool :: "packet \<Rightarrow> bool \<times> packet" where
  "extract_bool p = (case extract_int 1 p of (n, q) \<Rightarrow> (n \<noteq> 0, q))"

definition extract_data :: "packet \<Rightarrow> bytestr \<times> packet" where
  "extract_data p =
     (case extract_int 4 p of (n, q) \<Rightarrow> (pk_data q, \<lparr>pk_data = [], pk_size = int n - int (length (pk_data q))\<rparr>))"

text \<open>The formats \<open>08b\<close> and \<open>09b\<close>, and \<open>int(s, 2)\<close>.\<close>

fun binary :: "nat \<Rightarrow> string" where
  "binary n = (if n < 2 then [digit_char n] else binary (n div 2) @ [digit_char (n mod 2)])"

declare binary.simps [simp del]

definition of_binary :: "string \<Rightarrow> nat" where
  "of_binary s = foldl (\<lambda>a c. 2 * a + digit_val c) 0 s"

section \<open>The state of a transfer\<close>

datatype sftp_event =
    Entered string
  | FailedCommand string string
  | FinishedDownload string
  | FinishedUpload string
  | FileUpload string string string bool

record sftp =
  sf_prev_id :: nat
  sf_id :: nat
  sf_handle :: bytestr
  sf_path :: bytestr
  sf_command :: bytestr
  sf_file :: bytestr
  sf_offset :: nat
  sf_client :: packet
  sf_server :: packet
  sf_dir :: string
  sf_disk :: disk_files
  sf_events :: "sftp_event list"

definition new_sftp :: "string \<Rightarrow> disk_files \<Rightarrow> sftp" where
  "new_sftp dir disk =
     \<lparr>sf_prev_id = 0, sf_id = 0, sf_handle = [], sf_path = [], sf_command = [], sf_file = [], sf_offset = 0,
      sf_client = empty_packet, sf_server = empty_packet, sf_dir = dir, sf_disk = disk, sf_events = []\<rparr>"

definition parent_packet :: "side \<Rightarrow> sftp \<Rightarrow> packet" where
  "parent_packet parent s = (case parent of Server \<Rightarrow> sf_server s | Client \<Rightarrow> sf_client s)"

definition set_parent :: "side \<Rightarrow> packet \<Rightarrow> sftp \<Rightarrow> sftp" where
  "set_parent parent p s = (case parent of Server \<Rightarrow> s\<lparr>sf_server := p\<rparr> | Client \<Rightarrow> s\<lparr>sf_client := p\<rparr>)"

definition sftp_emit :: "sftp_event \<Rightarrow> sftp \<Rightarrow> sftp" where
  "sftp_emit e s = s\<lparr>sf_events := sf_events s @ [e]\<rparr>"

type_synonym decoder = "bytestr \<Rightarrow> string option"

text \<open>A log message with the decoded command.\<close>

definition log_entered :: "decoder \<Rightarrow> sftp \<Rightarrow> bool \<times> sftp" where
  "log_entered decode s = (case decode (sf_command s) of None \<Rightarrow> (False, s) | Some c \<Rightarrow> (True, sftp_emit (Entered c) s))"

definition extract_attrs :: "packet \<Rightarrow> bytestr \<times> packet" where
  "extract_attrs p =
     (case extract_int 4 p of (n, q) \<Rightarrow>
        let flags = zfill 8 (binary n) in
        if flags ! 5 = CHR ''1'' then
          (case extract_int 4 q of (m, q1) \<Rightarrow>
             let perms = zfill 9 (binary m) in
             (''chmod '' @ str_of_nat (of_binary (take 3 perms)) @ str_of_nat (of_binary (take 3 (drop 3 perms))) @
                str_of_nat (of_binary (drop 6 perms)), q1))
        else if flags ! 6 = CHR ''1'' then
          (case extract_int 4 q of (user, q1) \<Rightarrow>
             case extract_int 4 q1 of (grp, q2) \<Rightarrow> (''chown '' @ str_of_nat user @ '':'' @ str_of_nat grp, q2))
        else ([], q))"

section \<open>Packets\<close>

definition handle_open :: "decoder \<Rightarrow> packet \<Rightarrow> sftp \<Rightarrow> bool \<times> sftp" where
  "handle_open decode p s =
     (case extract_string p of (path, q) \<Rightarrow>
        let pflags = zfill 8 (binary (fst (extract_int 4 q)));
            s1 = s\<lparr>sf_path := path\<rparr>;
            s2 = (if pflags ! 6 = CHR ''1'' then s1\<lparr>sf_command := ''put '' @ path, sf_file := []\<rparr>
                  else if pflags ! 7 = CHR ''1'' then s1\<lparr>sf_command := ''get '' @ path\<rparr>
                  else s1) in
        log_entered decode s2)"

definition handle_write :: "packet \<Rightarrow> sftp \<Rightarrow> sftp" where
  "handle_write p s =
     (case extract_string p of (h, q) \<Rightarrow>
        if sf_handle s = h then
          (case extract_int 8 q of (off, q1) \<Rightarrow> s\<lparr>sf_offset := off, sf_file := take off (sf_file s) @ fst (extract_data q1)\<rparr>)
        else s)"

definition handle_extended :: "packet \<Rightarrow> sftp \<Rightarrow> sftp" where
  "handle_extended p s =
     (case extract_string p of (cmd, q) \<Rightarrow>
        case extract_string q of (path, q1) \<Rightarrow>
          let s1 = s\<lparr>sf_path := path\<rparr>; second = fst (extract_string q1) in
          if cmd = ''statvfs@openssh.com'' then s1\<lparr>sf_command := ''df '' @ path\<rparr>
          else if cmd = ''hardlink@openssh.com'' then s1\<lparr>sf_command := ''ln '' @ path @ '' '' @ second\<rparr>
          else if cmd = ''posix-rename@openssh.com'' then s1\<lparr>sf_command := ''mv '' @ path @ '' '' @ second\<rparr>
          else s1)"

definition handle_close :: "decoder \<Rightarrow> packet \<Rightarrow> sftp \<Rightarrow> bool \<times> sftp" where
  "handle_close decode p s =
     (if sf_handle s \<noteq> fst (extract_string p) then (True, s)
      else if str_in ''get'' (sf_command s) then
        (case decode (sf_path s) of None \<Rightarrow> (False, s) | Some path \<Rightarrow> (True, sftp_emit (FinishedDownload path) s))
      else if str_in ''put'' (sf_command s) then
        (case decode (sf_path s) of
           None \<Rightarrow> (False, s)
         | Some path \<Rightarrow>
             let s1 = sftp_emit (FinishedUpload path) s; sha = sha256_hex (sf_file s1); outfile = path_join (sf_dir s1) sha in
             (case decode (sf_command s1) of
                None \<Rightarrow> (False, s1)
              | Some c \<Rightarrow>
                  let fname = last (split_on (CHR '' '') c); dup = map_of (sf_disk s1) outfile \<noteq> None;
                      s2 = (if dup then s1 else s1\<lparr>sf_disk := AList.update outfile (sf_file s1) (sf_disk s1)\<rparr>) in
                  (True, sftp_emit (FileUpload fname outfile sha dup) s2)))
      else (True, s))"

definition handle_status :: "decoder \<Rightarrow> packet \<Rightarrow> sftp \<Rightarrow> bool \<times> sftp" where
  "handle_status decode p s =
     (if sf_id s \<noteq> sf_prev_id s then (True, s)
      else case extract_int 4 p of (code, q) \<Rightarrow>
        if code \<in> {0, 1} then
          (if \<not> str_in ''get'' (sf_command s) \<and> \<not> str_in ''put'' (sf_command s) then log_entered decode s else (True, s))
        else (case (decode (sf_command s), decode (fst (extract_string q))) of
            (Some c, Some m) \<Rightarrow> (True, sftp_emit (FailedCommand c m) s)
          | _ \<Rightarrow> (False, s)))"

definition handle_packet :: "decoder \<Rightarrow> side \<Rightarrow> sftp \<Rightarrow> bool \<times> sftp" where
  "handle_packet decode parent s0 =
     (case extract_int 1 (parent_packet parent s0) of (num, p1) \<Rightarrow>
        case extract_int 4 p1 of (n, p) \<Rightarrow>
          let s = s0\<lparr>sf_prev_id := sf_id s0, sf_id := n, sf_path := []\<rparr>; arg = fst (extract_string p) in
          if num = 11 then (True, s\<lparr>sf_path := arg\<rparr>)
          else if num = 16 then log_entered decode (s\<lparr>sf_path := arg, sf_command := ''cd '' @ arg\<rparr>)
          else if num = 3 then handle_open decode p s
          else if num = 5 then (True, s)
          else if num = 6 then (True, handle_write p s)
          else if num = 102 then (True, if sf_id s = sf_prev_id s then s\<lparr>sf_handle := arg\<rparr> else s)
          else if num = 12 then (True, if sf_handle s = arg then s\<lparr>sf_command := ''ls '' @ sf_path s\<rparr> else s)
          else if num = 9 then
            (True, s\<lparr>sf_path := arg, sf_command := fst (extract_attrs (snd (extract_string p))) @ '' '' @ arg\<rparr>)
          else if num = 200 then (True, handle_extended p s)
          else if num = 201 then log_entered decode s
          else if num = 4 then handle_close decode p s
          else if num = 20 then
            (True, s\<lparr>sf_command := ''ln -s '' @ arg @ '' '' @ fst (extract_string (snd (extract_string p)))\<rparr>)
          else if num = 14 then (True, s\<lparr>sf_command := ''mkdir '' @ arg\<rparr>)
          else if num = 13 then (True, s\<lparr>sf_command := ''rm '' @ arg\<rparr>)
          else if num = 15 then (True, s\<lparr>sf_command := ''rmdir '' @ arg\<rparr>)
          else if num = 101 then handle_status decode p s
          else (True, s))"

text \<open>
  Data on a channel. At the start of a packet all of it is taken, whatever the length says; the rest of a packet is taken
  up to its length, and what follows starts the next packet. Empty data at the start is a \<open>ValueError\<close>.
\<close>

definition start_packet :: "decoder \<Rightarrow> side \<Rightarrow> bytestr \<Rightarrow> sftp \<Rightarrow> bool \<times> sftp" where
  "start_packet decode parent data s =
     (if data = [] then (False, s)
      else
        let p = \<lparr>pk_data = drop 4 data, pk_size = int (int_of_bytes (take 4 data)) - int (length (drop 4 data))\<rparr>;
            s1 = set_parent parent p s in
        if pk_size p = 0 then handle_packet decode parent s1 else (True, s1))"

definition sftp_parse_packet :: "decoder \<Rightarrow> side \<Rightarrow> bytestr \<Rightarrow> sftp \<Rightarrow> bool \<times> sftp" where
  "sftp_parse_packet decode parent data s =
     (let p = parent_packet parent s; n = pk_size p in
      if n = 0 then start_packet decode parent data s
      else if int (length data) > n then
        (case handle_packet decode parent (set_parent parent \<lparr>pk_data = pk_data p @ slice_to n data, pk_size = 0\<rparr> s) of
           (False, s1) \<Rightarrow> (False, s1)
         | (True, s1) \<Rightarrow> if slice_from n data \<noteq> [] then start_packet decode parent (slice_from n data) s1 else (True, s1))
      else
        let s1 = set_parent parent \<lparr>pk_data = pk_data p @ data, pk_size = n - int (length data)\<rparr> s in
        if n - int (length data) = 0 then handle_packet decode parent s1 else (True, s1))"

section \<open>Reading fields\<close>

lemma extract_int_be:
  "pk_data p = be_bytes k n @ b \<Longrightarrow> n < 256 ^ k \<Longrightarrow> extract_int k p = (n, \<lparr>pk_data = b, pk_size = pk_size p - int k\<rparr>)"
  by (simp add: extract_int_def int_of_bytes_be)

definition ssh_string :: "bytestr \<Rightarrow> bytestr" where
  "ssh_string b = be_bytes 4 (length b) @ b"

lemma extract_string_be:
  "pk_data p = ssh_string v @ b \<Longrightarrow> length v < 256 ^ 4 \<Longrightarrow>
    extract_string p = (v, \<lparr>pk_data = b, pk_size = pk_size p - 4 - int (length v)\<rparr>)"
  using extract_int_be [of p 4 "length v" "v @ b"] by (simp add: extract_string_def ssh_string_def)

lemma parent_set [simp]: "parent_packet a (set_parent a p s) = p" "set_parent a p (set_parent a q s) = set_parent a p s"
  by (cases a; simp add: parent_packet_def set_parent_def)+

section \<open>Packets in pieces\<close>

fun sftp_run :: "decoder \<Rightarrow> (side \<times> bytestr) list \<Rightarrow> sftp \<Rightarrow> bool \<times> sftp" where
  "sftp_run decode [] s = (True, s)"
| "sftp_run decode ((parent, data) # xs) s =
     (case sftp_parse_packet decode parent data s of (False, s1) \<Rightarrow> (False, s1) | (True, s1) \<Rightarrow> sftp_run decode xs s1)"

text \<open>A packet is cut into pieces of its own, the first with the whole length.\<close>

definition pieces :: "bytestr \<Rightarrow> bytestr list \<Rightarrow> bool" where
  "pieces payload cs \<longleftrightarrow> concat cs = ssh_string payload \<and> cs \<noteq> [] \<and> 4 \<le> length (hd cs) \<and> list_all (\<lambda>c. c \<noteq> []) cs"

lemma rest_of_packet:
  assumes "acc @ concat cs = payload" "concat cs \<noteq> []" "list_all (\<lambda>c. c \<noteq> []) cs"
  shows "sftp_run decode (map (Pair parent) cs @ rest) (set_parent parent \<lparr>pk_data = acc, pk_size = int (length (concat cs))\<rparr> s) =
    (case handle_packet decode parent (set_parent parent \<lparr>pk_data = payload, pk_size = 0\<rparr> s) of
       (False, s1) \<Rightarrow> (False, s1) | (True, s1) \<Rightarrow> sftp_run decode rest s1)"
  using assms
proof (induction cs arbitrary: acc)
  case (Cons c cs)
  define m where "m = length (concat cs)"
  have total: "int (length (concat (c # cs))) = int (length c) + int m" by (simp add: m_def)
  let ?s = "set_parent parent \<lparr>pk_data = acc, pk_size = int (length c) + int m\<rparr> s"
  have c: "c \<noteq> []" "list_all (\<lambda>c. c \<noteq> []) cs" using Cons.prems(3) by simp_all
  show ?case
  proof (cases "concat cs = []")
    case True
    then have "cs = []" using c(2) by (cases cs) simp_all
    then show ?thesis using Cons.prems(1) c(1) unfolding total by (simp add: sftp_parse_packet_def Let_def m_def)
  next
    case False
    have "m \<noteq> 0" using False unfolding m_def length_0_conv .
    then have "sftp_parse_packet decode parent c ?s = (True, set_parent parent \<lparr>pk_data = acc @ c, pk_size = int m\<rparr> s)"
      using c(1) by (simp add: sftp_parse_packet_def Let_def)
    moreover have "(acc @ c) @ concat cs = payload" using Cons.prems(1) by simp
    ultimately show ?thesis
      using Cons.IH [of "acc @ c", folded m_def] False c(2) unfolding total by (simp del: concat_eq_Nil_conv)
  qed
qed simp

lemma packet_in_pieces:
  assumes "pieces payload cs" "payload \<noteq> []" "length payload < 256 ^ 4" "pk_size (parent_packet parent s) = 0"
  shows "sftp_run decode (map (Pair parent) cs @ rest) s =
    (case handle_packet decode parent (set_parent parent \<lparr>pk_data = payload, pk_size = 0\<rparr> s) of
       (False, s1) \<Rightarrow> (False, s1) | (True, s1) \<Rightarrow> sftp_run decode rest s1)"
proof -
  obtain c ds where cs: "cs = c # ds" using assms(1) by (cases cs) (simp_all add: pieces_def)
  have len: "4 \<le> length c" and all: "c @ concat ds = ssh_string payload" "list_all (\<lambda>c. c \<noteq> []) ds"
    using assms(1) cs by (simp_all add: pieces_def)
  have c: "take 4 c = be_bytes 4 (length payload)" "drop 4 c @ concat ds = payload"
    using arg_cong [OF all(1), of "take 4"] arg_cong [OF all(1), of "drop 4"] len by (simp_all add: ssh_string_def)
  have size: "int (int_of_bytes (take 4 c)) - int (length (drop 4 c)) = int (length (concat ds))"
  proof -
    have "length (drop 4 c) + length (concat ds) = length payload" by (metis c(2) length_append)
    then have "int (length payload) - int (length (drop 4 c)) = int (length (concat ds))" by linarith
    then show ?thesis using assms(3) by (simp only: c(1) int_of_bytes_be mod_less)
  qed
  have first: "sftp_parse_packet decode parent c s =
      (let s1 = set_parent parent \<lparr>pk_data = drop 4 c, pk_size = int (length (concat ds))\<rparr> s in
       if concat ds = [] then handle_packet decode parent s1 else (True, s1))"
    using assms(4) len size by (auto simp: sftp_parse_packet_def start_packet_def Let_def)
  show ?thesis
  proof (cases "concat ds = []")
    case True
    then have "ds = []" using all(2) by (cases ds) simp_all
    then show ?thesis using first c(2) by (simp add: cs)
  next
    case False
    then show ?thesis using first rest_of_packet [OF c(2) False all(2)] by (simp add: cs Let_def del: concat_eq_Nil_conv)
  qed
qed

section \<open>Uploads\<close>

definition fx :: "nat \<Rightarrow> nat \<Rightarrow> bytestr \<Rightarrow> bytestr" where
  "fx num n body = char_of num # be_bytes 4 n @ body"

definition fx_open :: "nat \<Rightarrow> bytestr \<Rightarrow> nat \<Rightarrow> bytestr \<Rightarrow> bytestr" where
  "fx_open n path flags attrs = fx 3 n (ssh_string path @ be_bytes 4 flags @ attrs)"

definition fx_handle :: "nat \<Rightarrow> bytestr \<Rightarrow> bytestr" where
  "fx_handle n h = fx 102 n (ssh_string h)"

definition fx_write :: "nat \<Rightarrow> bytestr \<Rightarrow> nat \<Rightarrow> bytestr \<Rightarrow> bytestr" where
  "fx_write n h off d = fx 6 n (ssh_string h @ be_bytes 8 off @ ssh_string d)"

definition fx_status :: "nat \<Rightarrow> bytestr \<Rightarrow> bytestr" where
  "fx_status n message = fx 101 n (be_bytes 4 0 @ message)"

definition fx_close :: "nat \<Rightarrow> bytestr \<Rightarrow> bytestr" where
  "fx_close n h = fx 4 n (ssh_string h)"

text \<open>The body of an upload: data, one piece behind the other, and acknowledgements of the server in between.\<close>

datatype upload_item = Block nat bytestr | Ack nat bytestr

fun body_messages :: "bytestr \<Rightarrow> nat \<Rightarrow> upload_item list \<Rightarrow> (side \<times> bytestr) list" where
  "body_messages h off [] = []"
| "body_messages h off (Block n d # is) = (Client, fx_write n h off d) # body_messages h (off + length d) is"
| "body_messages h off (Ack n m # is) = (Server, fx_status n m) # body_messages h off is"

fun uploaded :: "upload_item list \<Rightarrow> bytestr" where
  "uploaded [] = []"
| "uploaded (Block n d # is) = d @ uploaded is"
| "uploaded (Ack n m # is) = uploaded is"

definition upload :: "nat \<Rightarrow> bytestr \<Rightarrow> nat \<Rightarrow> bytestr \<Rightarrow> bytestr \<Rightarrow> upload_item list \<Rightarrow> nat \<Rightarrow> (side \<times> bytestr) list" where
  "upload n path flags attrs h is m =
     (Client, fx_open n path flags attrs) # (Server, fx_handle n h) # body_messages h 0 is @ [(Client, fx_close m h)]"

text \<open>Each message in pieces.\<close>

definition in_pieces :: "(side \<times> bytestr) list \<Rightarrow> (side \<times> bytestr) list \<Rightarrow> bool" where
  "in_pieces ms stream \<longleftrightarrow>
     (\<exists>css. list_all2 (\<lambda>(par, payload) cs. pieces payload cs \<and> length payload < 256 ^ 4) ms css \<and>
        stream = concat (map2 (\<lambda>(par, payload) cs. map (Pair par) cs) ms css))"

definition at_rest :: "sftp \<Rightarrow> bool" where
  "at_rest s \<longleftrightarrow> pk_size (sf_client s) = 0 \<and> pk_size (sf_server s) = 0"

fun handle_all :: "decoder \<Rightarrow> (side \<times> bytestr) list \<Rightarrow> sftp \<Rightarrow> bool \<times> sftp" where
  "handle_all decode [] s = (True, s)"
| "handle_all decode ((parent, payload) # ms) s =
     (case handle_packet decode parent (set_parent parent \<lparr>pk_data = payload, pk_size = 0\<rparr> s) of
        (False, s1) \<Rightarrow> (False, s1) | (True, s1) \<Rightarrow> handle_all decode ms s1)"

lemma log_keeps [simp]: "sf_client (snd (log_entered decode s)) = sf_client s" "sf_server (snd (log_entered decode s)) = sf_server s"
  by (simp_all add: log_entered_def sftp_emit_def split: option.split)

lemma open_keeps [simp]: "sf_client (snd (handle_open decode p s)) = sf_client s" "sf_server (snd (handle_open decode p s)) = sf_server s"
  by (simp_all add: handle_open_def Let_def case_prod_beta)

lemma write_keeps [simp]: "sf_client (handle_write p s) = sf_client s" "sf_server (handle_write p s) = sf_server s"
  by (simp_all add: handle_write_def case_prod_beta)

lemma extended_keeps [simp]: "sf_client (handle_extended p s) = sf_client s" "sf_server (handle_extended p s) = sf_server s"
  by (simp_all add: handle_extended_def Let_def case_prod_beta)

lemma close_keeps [simp]: "sf_client (snd (handle_close decode p s)) = sf_client s" "sf_server (snd (handle_close decode p s)) = sf_server s"
  by (simp_all add: handle_close_def sftp_emit_def Let_def split: option.split)

lemma status_keeps [simp]: "sf_client (snd (handle_status decode p s)) = sf_client s" "sf_server (snd (handle_status decode p s)) = sf_server s"
  by (simp_all add: handle_status_def sftp_emit_def case_prod_beta split: option.split)

lemma handle_at_rest: "at_rest s \<Longrightarrow> at_rest (snd (handle_packet decode parent s))"
  by (simp add: handle_packet_def at_rest_def Let_def case_prod_beta if_distrib [of snd] if_distrib [of sf_client]
      if_distrib [of sf_server] cong: if_cong)

lemma run_in_pieces:
  assumes "in_pieces ms stream" "list_all (\<lambda>m. snd m \<noteq> []) ms" "at_rest s"
  shows "sftp_run decode stream s = handle_all decode ms s"
proof -
  obtain css where css: "list_all2 (\<lambda>(par, payload) cs. pieces payload cs \<and> length payload < 256 ^ 4) ms css"
      "stream = concat (map2 (\<lambda>(par, payload) cs. map (Pair par) cs) ms css)"
    using assms(1) by (auto simp: in_pieces_def)
  have "sftp_run decode (concat (map2 (\<lambda>(par, payload) cs. map (Pair par) cs) ms css)) s = handle_all decode ms s"
    using css(1) assms(2,3)
  proof (induction arbitrary: s)
    case (Cons m ms cs css)
    obtain parent payload where m: "m = (parent, payload)" by (cases m)
    have p: "pieces payload cs" "length payload < 256 ^ 4" "payload \<noteq> []" using Cons.hyps(1) Cons.prems(1) by (simp_all add: m)
    have z: "pk_size (parent_packet parent s) = 0" using Cons.prems(2) by (cases parent) (simp_all add: at_rest_def parent_packet_def)
    have rest: "at_rest (set_parent parent \<lparr>pk_data = payload, pk_size = 0\<rparr> s)"
      using Cons.prems(2) by (cases parent) (simp_all add: at_rest_def set_parent_def)
    obtain ok s1 where h: "handle_packet decode parent (set_parent parent \<lparr>pk_data = payload, pk_size = 0\<rparr> s) = (ok, s1)"
      by (cases "handle_packet decode parent (set_parent parent \<lparr>pk_data = payload, pk_size = 0\<rparr> s)")
    have "at_rest s1" using handle_at_rest [OF rest, of decode parent] h by simp
    then have "sftp_run decode (concat (map2 (\<lambda>(par, payload) cs. map (Pair par) cs) ms css)) s1 = handle_all decode ms s1"
      using Cons.IH Cons.prems(1) by simp
    then show ?case
      using packet_in_pieces [OF p(1,3,2) z] by (simp add: m h split: bool.split)
  qed simp
  then show ?thesis using css(2) by simp
qed

lemma set_parent_keeps [simp]:
  "sf_prev_id (set_parent par p s) = sf_prev_id s" "sf_id (set_parent par p s) = sf_id s" "sf_handle (set_parent par p s) = sf_handle s"
  "sf_command (set_parent par p s) = sf_command s" "sf_file (set_parent par p s) = sf_file s" "sf_dir (set_parent par p s) = sf_dir s"
  "sf_disk (set_parent par p s) = sf_disk s" "sf_events (set_parent par p s) = sf_events s"
  by (cases par; simp add: set_parent_def)+

lemma fx_number:
  "num < 256 \<Longrightarrow> extract_int (Suc 0) \<lparr>pk_data = fx num n body, pk_size = 0\<rparr> = (num, \<lparr>pk_data = be_bytes 4 n @ body, pk_size = -1\<rparr>)"
  by (simp add: extract_int_def fx_def int_of_bytes_def)

lemma fx_id:
  "n < 256 ^ 4 \<Longrightarrow> extract_int 4 \<lparr>pk_data = be_bytes 4 n @ body, pk_size = -1\<rparr> = (n, \<lparr>pk_data = body, pk_size = -5\<rparr>)"
  using extract_int_be [of "\<lparr>pk_data = be_bytes 4 n @ body, pk_size = -1\<rparr>" 4 n body] by simp

lemmas fx_head = fx_number fx_id

text \<open>An upload under way: what the proxy has of it.\<close>

definition uploading :: "bytestr \<Rightarrow> bytestr \<Rightarrow> bytestr \<Rightarrow> sftp \<Rightarrow> sftp \<Rightarrow> bool" where
  "uploading h path content s0 s \<longleftrightarrow>
     sf_handle s = h \<and> sf_command s = ''put '' @ path \<and> sf_file s = content \<and> sf_dir s = sf_dir s0 \<and> sf_disk s = sf_disk s0"

lemma flag_digits: "char_of (50 :: nat) = CHR ''2''" "char_of (52 :: nat) = CHR ''4''" "char_of (48 :: nat) = CHR ''0''" "char_of (49 :: nat) = CHR ''1''" "replicate 3 c = [c, c, c]" "replicate 5 c = [c, c, c, c, c]"
  by (code_simp, code_simp, code_simp, code_simp, simp_all add: numeral_eq_Suc)

lemma put_in: "str_in ''put'' (''put '' @ path)"
  by simp

lemma upload_write_step:
  assumes "uploading h path content s0 s" "n < 256 ^ 4" "length h < 256 ^ 4" "length content < 256 ^ 8" "length d < 256 ^ 4"
  shows "\<exists>s1. handle_packet decode Client (set_parent Client \<lparr>pk_data = fx_write n h (length content) d, pk_size = 0\<rparr> s) = (True, s1) \<and>
    uploading h path (content @ d) s0 s1"
proof -
  let ?b = "ssh_string h @ be_bytes 8 (length content) @ ssh_string d"
  have "extract_string \<lparr>pk_data = ?b, pk_size = -5\<rparr> = (h, \<lparr>pk_data = be_bytes 8 (length content) @ ssh_string d, pk_size = -9 - int (length h)\<rparr>)"
    using extract_string_be [of "\<lparr>pk_data = ?b, pk_size = -5\<rparr>" h] assms(3) by simp
  moreover have "extract_int 8 \<lparr>pk_data = be_bytes 8 (length content) @ ssh_string d, pk_size = k\<rparr> =
      (length content, \<lparr>pk_data = ssh_string d, pk_size = k - 8\<rparr>)" for k
    using extract_int_be [of "\<lparr>pk_data = be_bytes 8 (length content) @ ssh_string d, pk_size = k\<rparr>" 8] assms(4) by simp
  moreover have "fst (extract_data \<lparr>pk_data = ssh_string d, pk_size = k\<rparr>) = d" for k
    using extract_int_be [of "\<lparr>pk_data = ssh_string d, pk_size = k\<rparr>" 4 "length d" d] assms(5)
    by (simp add: extract_data_def ssh_string_def)
  ultimately show ?thesis
    using assms(1,2) by (simp add: handle_packet_def fx_write_def fx_head handle_write_def uploading_def Let_def)
qed

lemma ack_step:
  assumes "uploading h path content s0 s" "n < 256 ^ 4"
  shows "\<exists>s1. handle_packet decode Server (set_parent Server \<lparr>pk_data = fx_status n m, pk_size = 0\<rparr> s) = (True, s1) \<and>
    uploading h path content s0 s1"
proof -
  have "extract_int 4 \<lparr>pk_data = be_bytes 4 0 @ m, pk_size = -5\<rparr> = (0, \<lparr>pk_data = m, pk_size = -9\<rparr>)"
    using extract_int_be [of "\<lparr>pk_data = be_bytes 4 0 @ m, pk_size = -5\<rparr>" 4 0 m] by simp
  then show ?thesis
    using assms put_in [of path] by (auto simp: handle_packet_def fx_status_def fx_head handle_status_def uploading_def Let_def)
qed

definition item_ok :: "upload_item \<Rightarrow> bool" where
  "item_ok i = (case i of Block n d \<Rightarrow> n < 256 ^ 4 \<and> length d < 256 ^ 4 | Ack n m \<Rightarrow> n < 256 ^ 4)"

lemma body_steps:
  assumes "uploading h path content s0 s" "list_all item_ok is" "length h < 256 ^ 4" "length content + length (uploaded is) < 256 ^ 8"
  shows "\<exists>s1. handle_all decode (body_messages h (length content) is @ ms) s = handle_all decode ms s1 \<and>
    uploading h path (content @ uploaded is) s0 s1"
  using assms
proof (induction "is" arbitrary: content s)
  case (Cons i "is")
  show ?case
  proof (cases i)
    case (Block n d)
    have "n < 256 ^ 4" "length d < 256 ^ 4" using Cons.prems(2) by (simp_all add: item_ok_def Block)
    then obtain s1 where s1: "handle_packet decode Client (set_parent Client \<lparr>pk_data = fx_write n h (length content) d, pk_size = 0\<rparr> s) = (True, s1)"
        "uploading h path (content @ d) s0 s1"
      using upload_write_step [OF Cons.prems(1), of n d decode] Cons.prems(3,4) by auto
    then show ?thesis using Cons.IH [OF s1(2)] Cons.prems(2-4) by (simp add: Block)
  next
    case (Ack n m)
    then obtain s1 where s1: "handle_packet decode Server (set_parent Server \<lparr>pk_data = fx_status n m, pk_size = 0\<rparr> s) = (True, s1)"
        "uploading h path content s0 s1"
      using ack_step [OF Cons.prems(1), of n decode m] Cons.prems(2) by (auto simp: item_ok_def)
    then show ?thesis using Cons.IH [OF s1(2)] Cons.prems(2-4) by (simp add: Ack)
  qed
qed auto

lemma open_step:
  assumes "zfill 8 (binary flags) ! 6 = CHR ''1''" "n < 256 ^ 4" "flags < 256 ^ 4" "length path < 256 ^ 4" "decode (''put '' @ path) = Some c"
  shows "\<exists>s1. handle_packet decode Client (set_parent Client \<lparr>pk_data = fx_open n path flags attrs, pk_size = 0\<rparr> s) = (True, s1) \<and>
    sf_id s1 = n \<and> uploading (sf_handle s) path [] s s1"
proof -
  let ?b = "ssh_string path @ be_bytes 4 flags @ attrs"
  have "extract_string \<lparr>pk_data = ?b, pk_size = -5\<rparr> = (path, \<lparr>pk_data = be_bytes 4 flags @ attrs, pk_size = -9 - int (length path)\<rparr>)"
    using extract_string_be [of "\<lparr>pk_data = ?b, pk_size = -5\<rparr>" path] assms(4) by simp
  moreover have "fst (extract_int 4 \<lparr>pk_data = be_bytes 4 flags @ attrs, pk_size = k\<rparr>) = flags" for k
    using extract_int_be [of "\<lparr>pk_data = be_bytes 4 flags @ attrs, pk_size = k\<rparr>" 4 flags attrs] assms(3) by simp
  ultimately show ?thesis
    using assms(1,2,5)
    by (simp add: handle_packet_def fx_open_def fx_head handle_open_def log_entered_def sftp_emit_def uploading_def Let_def)
qed

lemma handle_step:
  assumes "uploading h0 path [] s0 s" "sf_id s = n" "n < 256 ^ 4" "length h < 256 ^ 4"
  shows "\<exists>s1. handle_packet decode Server (set_parent Server \<lparr>pk_data = fx_handle n h, pk_size = 0\<rparr> s) = (True, s1) \<and>
    uploading h path [] s0 s1"
proof -
  have "extract_string \<lparr>pk_data = ssh_string h, pk_size = -5\<rparr> = (h, \<lparr>pk_data = [], pk_size = -9 - int (length h)\<rparr>)"
    using extract_string_be [of "\<lparr>pk_data = ssh_string h, pk_size = -5\<rparr>" h "[]"] assms(4) by simp
  then show ?thesis
    using assms(1-3) by (simp add: handle_packet_def fx_handle_def fx_head uploading_def Let_def)
qed

lemma close_step:
  assumes "uploading h path content s0 s" "n < 256 ^ 4" "length h < 256 ^ 4" "\<not> str_in ''get'' (''put '' @ path)"
    and "decode (''put '' @ path) = Some c" "decode [] = Some e" "target = path_join (sf_dir s0) (sha256_hex content)"
  shows "\<exists>s1. handle_packet decode Client (set_parent Client \<lparr>pk_data = fx_close n h, pk_size = 0\<rparr> s) = (True, s1) \<and>
    sf_disk s1 = (if map_of (sf_disk s0) target \<noteq> None then sf_disk s0 else AList.update target content (sf_disk s0)) \<and>
    last (sf_events s1) = FileUpload (last (split_on (CHR '' '') c)) target (sha256_hex content) (map_of (sf_disk s0) target \<noteq> None)"
proof -
  have "extract_string \<lparr>pk_data = ssh_string h, pk_size = -5\<rparr> = (h, \<lparr>pk_data = [], pk_size = -9 - int (length h)\<rparr>)"
    using extract_string_be [of "\<lparr>pk_data = ssh_string h, pk_size = -5\<rparr>" h "[]"] assms(3) by simp
  then show ?thesis
    using assms put_in [of path]
    by (simp add: handle_packet_def fx_close_def fx_head uploading_def handle_close_def sftp_emit_def Let_def)
qed

section \<open>Properties\<close>



text \<open>An upload whose path contains the letters \<open>get\<close>, such as \<open>/tmp/wget\<close>, counts as a download and is not kept.\<close>

lemma upload_of_wget_lost:
  "handle_close Some \<lparr>pk_data = ssh_string ''h'', pk_size = 0\<rparr>
     ((new_sftp ''dl'' [])\<lparr>sf_handle := ''h'', sf_command := ''put /tmp/wget'', sf_file := ''x''\<rparr>) =
   (True, sftp_emit (FinishedDownload []) ((new_sftp ''dl'' [])\<lparr>sf_handle := ''h'', sf_command := ''put /tmp/wget'', sf_file := ''x''\<rparr>))"
  using extract_string_be [of "\<lparr>pk_data = ssh_string ''h'', pk_size = 0\<rparr>" "''h''" "[]"]
  by (simp add: handle_close_def new_sftp_def)

text \<open>Two packets that arrive together at the start of a packet are taken for one that is too long: neither is handled.\<close>

lemma joined_packets_lost:
  assumes "a \<noteq> []" "b \<noteq> []" "length a < 256 ^ 4" "at_rest s"
  shows "sftp_parse_packet decode Client (ssh_string a @ ssh_string b) s =
    (True, set_parent Client \<lparr>pk_data = a @ ssh_string b, pk_size = - 4 - int (length b)\<rparr> s)"
  using assms
  by (simp add: sftp_parse_packet_def start_packet_def ssh_string_def parent_packet_def at_rest_def Let_def int_of_bytes_be)

text \<open>The mode of a file with its type bits is read from the wrong end.\<close>

lemma setstat_reads_type_bits:
  "fst (extract_attrs \<lparr>pk_data = be_bytes 4 4 @ be_bytes 4 33188, pk_size = 0\<rparr>) = ''chmod 40420''"
proof -
  have "zfill 8 (binary 4) = ''00000100''" "zfill 9 (binary 33188) = ''1000000110100100''"
    by (simp_all add: binary.simps zfill_def digit_char_def flag_digits)
  moreover have "str_of_nat (of_binary ''100'') = ''4''" "str_of_nat (of_binary ''000'') = ''0''" "str_of_nat (of_binary ''0110100100'') = ''420''"
    by (simp_all add: of_binary_def digit_val_def str_of_nat.simps digit_char_def flag_digits)
  ultimately show ?thesis
    using extract_int_be [of "\<lparr>pk_data = be_bytes 4 4 @ be_bytes 4 33188, pk_size = 0\<rparr>" 4 4 "be_bytes 4 33188"]
      extract_int_be [of "\<lparr>pk_data = be_bytes 4 33188, pk_size = -4\<rparr>" 4 33188 "[]"]
    by (simp add: extract_attrs_def Let_def)
qed

end
