(* ===== verification/Proxy_Telnet.thy ===== *)
theory Proxy_Telnet
  imports Proxy_Term
begin

text \<open>
  The Telnet side of the proxy (\<open>src/src/cowrie/telnet_proxy/handler.py\<close>): it relays between a client and a machine of the pool,
  takes the name and the password out of what the client types, asks the password checker, and gives the machine the
  credentials of the configuration instead. The patterns of the configuration, the password checker, the
  decoder \<open>unicode-escape\<close> and the clock are arguments. A step returns \<^const>\<open>False\<close> with the state so far when it raises.
\<close>

section \<open>Typed text\<close>

definition process_backspaces :: "bytestr \<Rightarrow> bytestr" where
  "process_backspaces s = foldl (\<lambda>n c. if c = CHR 0x7F then butlast n else n @ utf8 [c]) [] s"

definition remove_all :: "bytestr \<Rightarrow> bytestr list \<Rightarrow> bytestr" where
  "remove_all s subs = foldl (\<lambda>n sub. str_replace sub [] n) s subs"

section \<open>State\<close>

text \<open>What a pattern finds in data: the prompts are there or not, a name in the negotiation comes with the data in which
  it has been replaced.\<close>

record 's telnet_cfg =
  tc_spoof :: bool
  tc_login :: bytestr
  tc_password :: bytestr
  tc_negotiation :: "bytestr \<Rightarrow> (bytestr \<times> bytestr) option"
  tc_username_prompt :: "bytestr \<Rightarrow> bool"
  tc_password_prompt :: "bytestr \<Rightarrow> bool"
  tc_raw_log :: bool
  tc_escape :: "bytestr \<Rightarrow> string option"
  tc_check :: "bytestr \<Rightarrow> bytestr \<Rightarrow> 's \<Rightarrow> bool \<times> 's"

datatype telnet_effect =
    ToBackend bytestr
  | ToFrontend bytestr
  | RawLog bool string
  | LoginTyped string
  | PasswordTyped string
  | CommandTyped bytestr
  | ClientVar string
  | ExploitAttempt string
  | IdleTimeout
  | TtyClosed "log_effect list"

record 's telnet =
  tn_current :: bytestr
  tn_send :: bool
  tn_connected :: bool
  tn_command :: bytestr
  tn_auth_started :: bool
  tn_auth_done :: bool
  tn_user :: bytestr
  tn_in_login :: bool
  tn_pass :: bytestr
  tn_in_password :: bool
  tn_await_echo :: bool
  tn_pre_password :: bool
  tn_buffer :: "bytestr list"
  tn_log :: chan_log
  tn_checker :: 's
  tn_out :: "telnet_effect list"

text \<open>A new handler with an open log.\<close>

definition new_telnet :: "chan_log \<Rightarrow> 's \<Rightarrow> 's telnet" where
  "new_telnet c checker =
     \<lparr>tn_current = [], tn_send = True, tn_connected = False, tn_command = [], tn_auth_started = False, tn_auth_done = False, tn_user = [],
      tn_in_login = False, tn_pass = [], tn_in_password = False, tn_await_echo = False, tn_pre_password = False, tn_buffer = [],
      tn_log = c, tn_checker = checker, tn_out = []\<rparr>"

definition set_client :: "'s telnet \<Rightarrow> 's telnet" where
  "set_client h = h\<lparr>tn_connected := True\<rparr>"

definition tn_emit :: "telnet_effect \<Rightarrow> 's telnet \<Rightarrow> 's telnet" where
  "tn_emit e h = h\<lparr>tn_out := tn_out h @ [e]\<rparr>"

definition and_then :: "bool \<times> 's telnet \<Rightarrow> ('s telnet \<Rightarrow> bool \<times> 's telnet) \<Rightarrow> bool \<times> 's telnet" where
  "and_then r f = (case r of (ok, h) \<Rightarrow> if ok then f h else (False, h))"

definition tn_append :: "bytestr option \<Rightarrow> 's telnet \<Rightarrow> bool \<times> 's telnet" where
  "tn_append b h = (case chan_append b (tn_log h) of None \<Rightarrow> (False, h) | Some c \<Rightarrow> (True, h\<lparr>tn_log := c\<rparr>))"

definition tn_close :: "rat \<Rightarrow> 's telnet \<Rightarrow> bool \<times> 's telnet" where
  "tn_close stamp h =
     (if cl_enabled (tn_log h) then
        (case channel_closed stamp (tn_log h) of
           None \<Rightarrow> (False, h)
         | Some (effs, c) \<Rightarrow> (True, tn_emit (TtyClosed effs) (h\<lparr>tn_log := c\<lparr>cl_enabled := False\<rparr>\<rparr>)))
      else (True, h))"

section \<open>Sending\<close>

definition raw_log :: "'s telnet_cfg \<Rightarrow> bool \<Rightarrow> bytestr \<Rightarrow> 's telnet \<Rightarrow> bool \<times> 's telnet" where
  "raw_log cfg to_backend data h =
     (if tc_raw_log cfg then (case tc_escape cfg data of None \<Rightarrow> (False, h) | Some s \<Rightarrow> (True, tn_emit (RawLog to_backend s) h))
      else (True, h))"

text \<open>One packet of the buffer goes out; what is logged is the newest data.\<close>

definition send_packet :: "'s telnet_cfg \<Rightarrow> rat \<Rightarrow> bytestr \<Rightarrow> bytestr \<Rightarrow> 's telnet \<Rightarrow> bool \<times> 's telnet" where
  "send_packet cfg stamp data p h =
     and_then (raw_log cfg True data (tn_emit (ToBackend p) h)) (\<lambda>h1.
     and_then
       (if cl_enabled (tn_log h1) \<and> tn_auth_started h1 then
          let clean = map (\<lambda>c. if c = CHR 0x00 then nl else c) data in
          and_then (tn_append (ttylog_write (length clean) TYPE_INPUT stamp clean) h1)
            (\<lambda>h2. (True, h2\<lparr>tn_log := (tn_log h2)\<lparr>cl_size := cl_size (tn_log h2) + length clean\<rparr>\<rparr>))
        else (True, h1))
       (\<lambda>h2. (True, h2\<lparr>tn_buffer := tl (tn_buffer h2)\<rparr>)))"

fun send_packets :: "'s telnet_cfg \<Rightarrow> rat \<Rightarrow> bytestr \<Rightarrow> bytestr list \<Rightarrow> 's telnet \<Rightarrow> bool \<times> 's telnet" where
  "send_packets cfg stamp data [] h = (True, h)"
| "send_packets cfg stamp data (p # ps) h = and_then (send_packet cfg stamp data p h) (send_packets cfg stamp data ps)"

definition send_backend :: "'s telnet_cfg \<Rightarrow> rat \<Rightarrow> bytestr \<Rightarrow> 's telnet \<Rightarrow> bool \<times> 's telnet" where
  "send_backend cfg stamp data h =
     (let h1 = h\<lparr>tn_buffer := tn_buffer h @ [data]\<rparr> in
      if tn_connected h1 then send_packets cfg stamp data (tn_buffer h1) h1 else (True, h1))"

definition send_frontend :: "'s telnet_cfg \<Rightarrow> rat \<Rightarrow> bytestr \<Rightarrow> 's telnet \<Rightarrow> bool \<times> 's telnet" where
  "send_frontend cfg stamp data h =
     and_then (raw_log cfg False data (tn_emit (ToFrontend data) h)) (\<lambda>h1.
       if cl_enabled (tn_log h1) \<and> tn_auth_started h1 then tn_append (ttylog_write (length data) TYPE_OUTPUT stamp data) h1 else (True, h1))"

section \<open>Login\<close>

text \<open>The character behind the first carriage return, encoded; there may be none (\<open>IndexError\<close>).\<close>

definition terminating_char :: "bytestr \<Rightarrow> bytestr option" where
  "terminating_char data = (case after_first cr data of [] \<Rightarrow> None | c # r \<Rightarrow> Some (utf8 [c]))"

definition echoed_input :: "bytestr \<Rightarrow> bytestr" where
  "echoed_input data = str_replace [CHR 0x00] [nl] (str_replace [CHR 0x7F] [CHR 0x08, CHR '' '', CHR 0x08] data)"

definition process_username_input :: "'s telnet_cfg \<Rightarrow> rat \<Rightarrow> 's telnet \<Rightarrow> bool \<times> 's telnet" where
  "process_username_input cfg stamp h =
     (let h1 = h\<lparr>tn_send := False, tn_user := tn_user h @ remove_all (tn_current h) [[cr], [CHR 0x00], [nl]]\<rparr> in
      and_then (send_frontend cfg stamp (echoed_input (tn_current h1)) h1) (\<lambda>h2.
        if cr \<notin> set (tn_current h2) then (True, h2)
        else case terminating_char (tn_current h2) of
            None \<Rightarrow> (False, h2)
          | Some c \<Rightarrow>
              let h3 = h2\<lparr>tn_user := process_backspaces (tn_user h2)\<rparr> in
              (case tc_escape cfg (tn_user h3) of
                 None \<Rightarrow> (False, h3)
               | Some s \<Rightarrow>
                   (True, (tn_emit (LoginTyped s) h3)
                     \<lparr>tn_in_login := False, tn_current := tc_login cfg @ [cr] @ c, tn_send := True, tn_await_echo := True\<rparr>))))"

definition password_controls :: "bytestr list" where
  "password_controls = [[CHR 0xFF], [CHR 0xFD], [CHR 0x01], [cr], [CHR 0x00], [nl]]"

definition enter_password :: "'s telnet_cfg \<Rightarrow> bytestr \<Rightarrow> 's telnet \<Rightarrow> bool \<times> 's telnet" where
  "enter_password cfg c h =
     (let h1 = h\<lparr>tn_pass := process_backspaces (tn_pass h)\<rparr> in
      case tc_escape cfg (tn_pass h1) of
        None \<Rightarrow> (False, h1)
      | Some s \<Rightarrow>
          (case tc_check cfg (tn_user h1) (tn_pass h1) (tn_checker h1) of
             (valid, checker) \<Rightarrow>
               let h2 = (tn_emit (PasswordTyped s) h1)\<lparr>tn_in_password := False, tn_checker := checker\<rparr>;
                   h3 = (if valid then tn_emit IdleTimeout (h2\<lparr>tn_auth_done := True\<rparr>) else h2) in
               (True, h3\<lparr>tn_current := tc_password cfg @ (if valid then [] else ''fake'') @ [cr] @ c, tn_send := True\<rparr>)))"

definition process_password_input :: "'s telnet_cfg \<Rightarrow> rat \<Rightarrow> 's telnet \<Rightarrow> bool \<times> 's telnet" where
  "process_password_input cfg stamp h =
     (let h1 = h\<lparr>tn_send := False\<rparr> in
      and_then
        (if tn_pre_password h1
         then and_then (send_backend cfg stamp (take 3 (tn_current h1)) h1) (\<lambda>h2. (True, h2\<lparr>tn_pre_password := False\<rparr>))
         else (True, h1))
        (\<lambda>h2.
          let h3 = h2\<lparr>tn_pass := tn_pass h2 @ remove_all (tn_current h2) password_controls\<rparr> in
          if cr \<notin> set (tn_current h3) then (True, h3)
          else case terminating_char (tn_current h3) of None \<Rightarrow> (False, h3) | Some c \<Rightarrow> enter_password cfg c h3))"

definition set_processing_state_backend :: "'s telnet_cfg \<Rightarrow> 's telnet \<Rightarrow> 's telnet" where
  "set_processing_state_backend cfg h =
     (let h1 = (if tc_password_prompt cfg (tn_current h) then h\<lparr>tn_auth_started := True, tn_in_password := True, tn_pass := []\<rparr> else h);
          h2 = (if tc_username_prompt cfg (tn_current h1) then h1\<lparr>tn_auth_started := True, tn_in_login := True, tn_user := []\<rparr> else h1) in
      h2\<lparr>tn_pre_password := str_in [CHR 0xFF, CHR 0xFB, CHR 0x01] (tn_current h2)\<rparr>)"

definition set_processing_state_frontend :: "'s telnet_cfg \<Rightarrow> 's telnet \<Rightarrow> bool \<times> 's telnet" where
  "set_processing_state_frontend cfg h =
     (case tc_negotiation cfg (tn_current h) of
        None \<Rightarrow> (True, h)
      | Some (user, replaced) \<Rightarrow>
          let h1 = h\<lparr>tn_user := user\<rparr> in
          (case tc_escape cfg user of
             None \<Rightarrow> (False, h1)
           | Some s \<Rightarrow>
               let h2 = tn_emit (ClientVar s) h1; h3 = (if startswith s ''-f'' then tn_emit (ExploitAttempt s) h2 else h2) in
               (True, h3\<lparr>tn_current := replaced\<rparr>)))"

section \<open>Packets\<close>

datatype telnet_side = Frontend | Backend

definition spoof_login :: "'s telnet_cfg \<Rightarrow> rat \<Rightarrow> telnet_side \<Rightarrow> 's telnet \<Rightarrow> bool \<times> 's telnet" where
  "spoof_login cfg stamp parent h =
     (case parent of
        Backend \<Rightarrow>
          (let h1 = set_processing_state_backend cfg h in
           (True, if tn_await_echo h1
                  then h1\<lparr>tn_current := str_replace (tc_login cfg @ [cr, nl]) [] (tn_current h1), tn_await_echo := False\<rparr> else h1))
      | Frontend \<Rightarrow>
          and_then (set_processing_state_frontend cfg h) (\<lambda>h1.
          and_then (if tn_in_password h1 then process_password_input cfg stamp h1 else (True, h1)) (\<lambda>h2.
            if tn_in_login h2 then process_username_input cfg stamp h2 else (True, h2))))"

definition log_typed :: "bytestr \<Rightarrow> 's telnet \<Rightarrow> 's telnet" where
  "log_typed data h =
     (let cmd = tn_command h @ str_replace [cr, nl] [] (str_replace [cr, CHR 0x00] [] data) in
      if cr \<in> set data then (if cmd \<noteq> [] then tn_emit (CommandTyped cmd) h else h)\<lparr>tn_command := []\<rparr>
      else h\<lparr>tn_command := cmd\<rparr>)"

definition add_packet :: "'s telnet_cfg \<Rightarrow> rat \<Rightarrow> telnet_side \<Rightarrow> bytestr \<Rightarrow> 's telnet \<Rightarrow> bool \<times> 's telnet" where
  "add_packet cfg stamp parent data h =
     (let h0 = h\<lparr>tn_current := data, tn_send := True\<rparr> in
      and_then (if tc_spoof cfg \<and> \<not> tn_auth_done h0 then spoof_login cfg stamp parent h0 else (True, h0)) (\<lambda>h1.
        let h2 = (if parent = Frontend \<and> tn_auth_done h1 then log_typed data h1 else h1) in
        if tn_send h2 \<and> tn_current h2 \<noteq> [] then
          (case parent of Frontend \<Rightarrow> send_backend cfg stamp (tn_current h2) h2 | Backend \<Rightarrow> send_frontend cfg stamp (tn_current h2) h2)
        else (True, h2)))"

section \<open>Runs\<close>

text \<open>Packets of both sides with the clock, until one raises.\<close>

fun telnet_run :: "'s telnet_cfg \<Rightarrow> (rat \<times> telnet_side \<times> bytestr) list \<Rightarrow> 's telnet \<Rightarrow> bool \<times> 's telnet" where
  "telnet_run cfg [] h = (True, h)"
| "telnet_run cfg ((stamp, parent, data) # xs) h = and_then (add_packet cfg stamp parent data h) (telnet_run cfg xs)"

text \<open>What went to the machine.\<close>

fun backend_data :: "telnet_effect \<Rightarrow> bytestr list" where
  "backend_data (ToBackend d) = [d]"
| "backend_data _ = []"

definition relayed :: "'s telnet \<Rightarrow> bytestr list" where
  "relayed h = concat (map backend_data (tn_out h))"

lemma remove_chars: "remove_all s (map (\<lambda>c. [c]) cs) = filter (\<lambda>c. c \<notin> set cs) s"
proof (induction cs arbitrary: s)
  case (Cons c cs)
  have "str_replace [c] [] s = filter (\<lambda>x. x \<noteq> c) s" by (induction s) (auto simp: str_replace_char)
  then show ?case using Cons by (simp add: remove_all_def)
qed (simp add: remove_all_def)

definition control :: "char \<Rightarrow> bool" where
  "control c \<longleftrightarrow> c \<in> {CHR 0xFF, CHR 0xFD, CHR 0x01, cr, CHR 0x00, nl}"

lemma remove_controls: "remove_all s password_controls = filter (\<lambda>c. \<not> control c) s"
  using remove_chars [of s "[CHR 0xFF, CHR 0xFD, CHR 0x01, cr, CHR 0x00, nl]"] by (simp add: password_controls_def control_def)

text \<open>The machine waits for a password that the client has begun to type.\<close>

definition asks_password :: "'s telnet_cfg \<Rightarrow> 's telnet \<Rightarrow> bool" where
  "asks_password cfg h \<longleftrightarrow>
     tc_spoof cfg \<and> \<not> tn_auth_done h \<and> tn_in_password h \<and> \<not> tn_in_login h \<and> \<not> tn_pre_password h \<and> tn_connected h \<and> tn_buffer h = []"

lemma password_withheld:
  assumes "asks_password cfg h" "cr \<notin> set data" "tc_negotiation cfg data = None"
  shows "add_packet cfg stamp Frontend data h =
    (True, h\<lparr>tn_current := data, tn_send := False, tn_pass := tn_pass h @ filter (\<lambda>c. \<not> control c) data\<rparr>)"
  using assms
  by (simp add: add_packet_def asks_password_def spoof_login_def and_then_def set_processing_state_frontend_def process_password_input_def
      remove_controls Let_def)

lemma send_packet_relays:
  "relayed (snd (send_packet cfg stamp data p h)) = relayed h @ [p] \<and> tn_auth_done (snd (send_packet cfg stamp data p h)) = tn_auth_done h \<and>
    tn_checker (snd (send_packet cfg stamp data p h)) = tn_checker h \<and> tn_in_password (snd (send_packet cfg stamp data p h)) = tn_in_password h"
  by (auto simp: send_packet_def and_then_def raw_log_def tn_append_def tn_emit_def relayed_def Let_def split: option.splits prod.splits if_splits)

lemma and_then_fst: "snd (and_then r (\<lambda>h. (True, h))) = snd r"
  by (cases r) (simp add: and_then_def)

lemma telnet_run_single: "snd (telnet_run cfg [(stamp, parent, data)] h) = snd (add_packet cfg stamp parent data h)"
  by (cases "add_packet cfg stamp parent data h") (simp add: and_then_def)

lemma send_backend_relays:
  assumes "tn_connected h" "tn_buffer h = []"
  shows "relayed (snd (send_backend cfg stamp data h)) = relayed h @ [data]" "tn_auth_done (snd (send_backend cfg stamp data h)) = tn_auth_done h"
    "tn_checker (snd (send_backend cfg stamp data h)) = tn_checker h" "tn_in_password (snd (send_backend cfg stamp data h)) = tn_in_password h"
proof -
  have "snd (send_backend cfg stamp data h) = snd (send_packet cfg stamp data data (h\<lparr>tn_buffer := [data]\<rparr>))"
    using assms by (cases "send_packet cfg stamp data data (h\<lparr>tn_buffer := [data]\<rparr>)") (simp add: send_backend_def and_then_def)
  then show "relayed (snd (send_backend cfg stamp data h)) = relayed h @ [data]" "tn_auth_done (snd (send_backend cfg stamp data h)) = tn_auth_done h"
    "tn_checker (snd (send_backend cfg stamp data h)) = tn_checker h" "tn_in_password (snd (send_backend cfg stamp data h)) = tn_in_password h"
    using send_packet_relays [of cfg stamp data data "h\<lparr>tn_buffer := [data]\<rparr>"] by (simp_all add: relayed_def)
qed

lemma password_entered:
  fixes h :: "'s telnet"
  assumes a: "asks_password cfg h" and d: "data = u @ cr # c # r" "cr \<notin> set u" "tc_negotiation cfg data = None"
    and p: "password = process_backspaces (tn_pass h @ filter (\<lambda>c. \<not> control c) data)" "tc_escape cfg password \<noteq> None"
    and v: "tc_check cfg (tn_user h) password (tn_checker h) = (valid, checker)"
  shows "relayed (snd (add_packet cfg stamp Frontend data h)) =
      relayed h @ [tc_password cfg @ (if valid then [] else ''fake'') @ [cr] @ utf8 [c]]"
    "tn_auth_done (snd (add_packet cfg stamp Frontend data h)) = valid"
    "tn_checker (snd (add_packet cfg stamp Frontend data h)) = checker" "\<not> tn_in_password (snd (add_packet cfg stamp Frontend data h))"
proof -
  define h0 where "h0 = h\<lparr>tn_current := data, tn_send := True\<rparr>"
  have "dropWhile (\<lambda>x. x \<noteq> cr) data = cr # c # r" using d(2) by (subst d(1), subst dropWhile_append2) auto
  then have "terminating_char data = Some (utf8 [c])" by (simp add: terminating_char_def after_first_def)
  moreover obtain s where "tc_escape cfg password = Some s" using p(2) by auto
  moreover have "cr \<in> set data" using d(1) by simp
  ultimately have f: "fst (spoof_login cfg stamp Frontend h0) \<and> (let h1 = snd (spoof_login cfg stamp Frontend h0) in
      tn_current h1 = tc_password cfg @ (if valid then [] else ''fake'') @ [cr] @ utf8 [c] \<and> tn_send h1 \<and> tn_auth_done h1 = valid \<and>
      tn_checker h1 = checker \<and> \<not> tn_in_password h1 \<and> relayed h1 = relayed h \<and> tn_connected h1 \<and> tn_buffer h1 = [])"
    using a d(3) p(1) v
    by (cases valid; simp add: h0_def asks_password_def spoof_login_def and_then_def set_processing_state_frontend_def process_password_input_def
        enter_password_def remove_controls Let_def tn_emit_def relayed_def)
  obtain h1 where h1: "spoof_login cfg stamp Frontend h0 = (True, h1)"
      "tn_current h1 = tc_password cfg @ (if valid then [] else ''fake'') @ [cr] @ utf8 [c]" "tn_send h1" "tn_auth_done h1 = valid"
      "tn_checker h1 = checker" "\<not> tn_in_password h1" "relayed h1 = relayed h" "tn_connected h1" "tn_buffer h1 = []"
    using f by (cases "spoof_login cfg stamp Frontend h0") (simp add: Let_def)
  have e: "snd (add_packet cfg stamp Frontend data h) = snd (send_backend cfg stamp (tn_current h1) (if tn_auth_done h1 then log_typed data h1 else h1))"
    using a h1 log_typed_def [of data h1]
    by (simp add: add_packet_def h0_def [symmetric] asks_password_def and_then_def) (simp add: h0_def log_typed_def tn_emit_def Let_def)
  have l: "relayed (log_typed data h1) = relayed h1" "tn_connected (log_typed data h1) = tn_connected h1"
    "tn_buffer (log_typed data h1) = tn_buffer h1" "tn_auth_done (log_typed data h1) = tn_auth_done h1"
    "tn_checker (log_typed data h1) = tn_checker h1" "tn_in_password (log_typed data h1) = tn_in_password h1"
    by (simp_all add: log_typed_def tn_emit_def relayed_def Let_def)
  show "relayed (snd (add_packet cfg stamp Frontend data h)) =
      relayed h @ [tc_password cfg @ (if valid then [] else ''fake'') @ [cr] @ utf8 [c]]"
    "tn_auth_done (snd (add_packet cfg stamp Frontend data h)) = valid"
    "tn_checker (snd (add_packet cfg stamp Frontend data h)) = checker" "\<not> tn_in_password (snd (add_packet cfg stamp Frontend data h))"
    unfolding e using h1 l send_backend_relays [of "if tn_auth_done h1 then log_typed data h1 else h1" cfg stamp "tn_current h1"]
    by (simp_all split: if_splits)
qed

lemma telnet_run_append: "telnet_run cfg (xs @ ys) h = and_then (telnet_run cfg xs h) (telnet_run cfg ys)"
proof (induction xs arbitrary: h)
  case (Cons x xs)
  obtain stamp parent data where x: "x = (stamp, parent, data)" by (cases x)
  obtain ok h1 where r: "add_packet cfg stamp parent data h = (ok, h1)" by fastforce
  show ?case using Cons [of h1] by (simp add: x r and_then_def)
qed (simp add: and_then_def)

text \<open>Keystrokes of a password, cut anywhere, only grow the password.\<close>

lemma passwords_withheld:
  assumes "asks_password cfg h" "list_all (\<lambda>(stamp, d). cr \<notin> set d \<and> tc_negotiation cfg d = None) ds"
  shows "\<exists>h1. telnet_run cfg (map (\<lambda>(stamp, d). (stamp, Frontend, d)) ds) h = (True, h1) \<and> asks_password cfg h1 \<and> relayed h1 = relayed h \<and>
    tn_user h1 = tn_user h \<and> tn_checker h1 = tn_checker h \<and> tn_pass h1 = tn_pass h @ filter (\<lambda>c. \<not> control c) (concat (map snd ds))"
  using assms
proof (induction ds arbitrary: h)
  case (Cons x ds)
  obtain stamp d where x: "x = (stamp, d)" by (cases x)
  let ?h = "h\<lparr>tn_current := d, tn_send := False, tn_pass := tn_pass h @ filter (\<lambda>c. \<not> control c) d\<rparr>"
  have "add_packet cfg stamp Frontend d h = (True, ?h)" using Cons.prems by (intro password_withheld) (simp_all add: x)
  moreover have "asks_password cfg ?h" "relayed ?h = relayed h" using Cons.prems(1) by (simp_all add: asks_password_def relayed_def)
  ultimately show ?case using Cons.IH [of ?h] Cons.prems(2) by (auto simp: x and_then_def)
qed simp

section \<open>Properties\<close>


definition telnet_example_cfg :: "nat telnet_cfg" where
  "telnet_example_cfg = \<lparr>tc_spoof = True, tc_login = ''root'', tc_password = ''s3cret'', tc_negotiation = (\<lambda>d. None),
     tc_username_prompt = (\<lambda>d. endswith d ''login: ''), tc_password_prompt = (\<lambda>d. endswith d ''Password: ''), tc_raw_log = False, tc_escape = Some,
     tc_check = (\<lambda>user password n. (password = ''1234'', Suc n))\<rparr>"

definition example_telnet :: "nat telnet" where
  "example_telnet = (new_telnet \<lparr>cl_enabled = False, cl_dir = [], cl_file = [], cl_size = 0, cl_disk = []\<rparr> 0)
     \<lparr>tn_connected := True, tn_auth_started := True, tn_in_password := True\<rparr>"


section \<open>Defects\<close>

text \<open>When the password is accepted, the line that held it is logged once more, as the first command of the session.\<close>

lemma password_logged_as_command:
  "CommandTyped ''1234'' \<in> set (tn_out (snd (add_packet telnet_example_cfg 0 Frontend (''1234'' @ [cr, nl]) example_telnet)))"
  by (simp add: add_packet_def telnet_example_cfg_def example_telnet_def new_telnet_def spoof_login_def and_then_def set_processing_state_frontend_def
      process_password_input_def remove_controls control_def terminating_char_def after_first_def enter_password_def process_backspaces_def
      utf8_def log_typed_def tn_emit_def send_backend_def send_packet_def raw_log_def str_replace.simps Let_def)

text \<open>A line that ends in a lone carriage return raises.\<close>

lemma lone_return_raises: "\<not> fst (add_packet telnet_example_cfg 0 Frontend (''1234'' @ [cr]) example_telnet)"
  by (simp add: add_packet_def telnet_example_cfg_def example_telnet_def new_telnet_def spoof_login_def and_then_def set_processing_state_frontend_def
      process_password_input_def remove_controls control_def terminating_char_def after_first_def Let_def)

text \<open>What goes into the terminal log does not depend on the packet that is sent: for data that has waited in the buffer, the newest
  data is logged instead.\<close>

lemma buffered_data_not_logged: "tn_log (snd (send_packet cfg stamp data p h)) = tn_log (snd (send_packet cfg stamp data q h))"
  by (auto simp: send_packet_def and_then_def raw_log_def tn_append_def tn_emit_def Let_def split: option.splits prod.splits)

text \<open>Data that waits for the machine is not sent when it connects, but with the next data of the client.\<close>

lemma connect_sends_nothing: "relayed (set_client h) = relayed h" "tn_buffer (set_client h) = tn_buffer h"
  by (simp_all add: set_client_def relayed_def)

text \<open>A byte above 127 is encoded once more, and a backspace takes back half of it.\<close>

lemma backspace_takes_half: "process_backspaces [CHR 0xE9, CHR 0x7F] = [CHR 0xC3]"
  by code_simp

end
