(* ===== verification/Fingerprint.thy ===== *)
theory Fingerprint
  imports Py_Hash "HOL-Library.Char_ord" "HOL-Library.List_Lexorder" "HOL-Library.Multiset"
begin

text \<open>
  The fingerprints of forwarded traffic (\<open>src/src/cowrie/core/fingerprint.py\<close> with the tables of
  \<open>src/src/cowrie/vendor/ja4/common.py\<close>): the parsers of a TLS Client Hello and of an HTTP request, the JA4 and JA4H
  strings, and where they are made: in forwarded channels of the SSH proxy and of the SSH server
  (\<open>ssh_proxy/protocols/port_forward.py\<close>, \<open>ssh/forwarding.py\<close>). An exception inside a parser gives \<^const>\<open>None\<close>, as in
  the code.
\<close>

section \<open>TLS\<close>

definition GREASE_VALUES :: "nat list" where
  "GREASE_VALUES = [0x0a0a, 0x1a1a, 0x2a2a, 0x3a3a, 0x4a4a, 0x5a5a, 0x6a6a, 0x7a7a, 0x8a8a, 0x9a9a, 0xaaaa, 0xbaba, 0xcaca, 0xdada,
     0xeaea, 0xfafa]"

definition TLS_VERSION_MAP :: "(nat, string) dict" where
  "TLS_VERSION_MAP = [(0x0002, ''s2''), (0x0300, ''s3''), (0x0301, ''10''), (0x0302, ''11''), (0x0303, ''12''), (0x0304, ''13'')]"

definition u16_at :: "bytestr \<Rightarrow> nat \<Rightarrow> nat" where
  "u16_at data off = int_of_bytes (take 2 (drop off data))"

record tls_info =
  tls_version :: nat
  tls_ciphers :: "nat list"
  tls_extensions :: "nat list"
  has_sni :: bool
  tls_alpn :: "string option"
  signature_algorithms :: "nat list option"

text \<open>\<open>decode('ascii', errors='ignore')\<close>.\<close>

definition ascii_ignore :: "bytestr \<Rightarrow> string" where
  "ascii_ignore b = filter (\<lambda>c. ord c < 128) b"

text \<open>The first protocol of an ALPN extension whose body starts at \<open>off\<close>.\<close>

definition first_alpn :: "bytestr \<Rightarrow> nat \<Rightarrow> string option" where
  "first_alpn data off =
     (let n = u16_at data off in
      if n > 0 \<and> off + 2 + n \<le> length data then
        (let alpn_data = take n (drop (off + 2) data); k = ord (hd alpn_data) in
         if length alpn_data > 1 \<and> k > 0 \<and> length alpn_data \<ge> 1 + k then Some (ascii_ignore (take k (tl alpn_data))) else None)
      else None)"

definition every_second :: "nat \<Rightarrow> nat list" where
  "every_second n = filter even [0..<n]"

definition sig_algs :: "bytestr \<Rightarrow> nat \<Rightarrow> nat list option" where
  "sig_algs data off =
     (let n = u16_at data off in
      if n > 0 \<and> off + 2 + n \<le> length data then
        Some (map (\<lambda>i. u16_at data (off + 2 + i)) (filter (\<lambda>i. off + 2 + i + 2 \<le> length data) (every_second n)))
      else None)"

definition or_keep :: "'a option \<Rightarrow> 'a option \<Rightarrow> 'a option" where
  "or_keep new old = (case new of None \<Rightarrow> old | Some x \<Rightarrow> Some x)"

definition read_extension :: "bytestr \<Rightarrow> nat \<Rightarrow> nat \<Rightarrow> nat \<Rightarrow> tls_info \<Rightarrow> tls_info" where
  "read_extension data off t n i =
     (let j = i\<lparr>tls_extensions := tls_extensions i @ [t]\<rparr> in
      if t = 0 then j\<lparr>has_sni := True\<rparr>
      else if t = 0x10 \<and> n > 2 then j\<lparr>tls_alpn := or_keep (first_alpn data off) (tls_alpn j)\<rparr>
      else if t = 0x0d \<and> n > 2 then j\<lparr>signature_algorithms := or_keep (sig_algs data off) (signature_algorithms j)\<rparr>
      else j)"

function read_extensions :: "bytestr \<Rightarrow> nat \<Rightarrow> nat \<Rightarrow> tls_info \<Rightarrow> tls_info" where
  "read_extensions data off ext_end i =
     (if off < ext_end \<and> off + 4 \<le> length data then
        (let t = u16_at data off; n = u16_at data (off + 2) in
         if off + 4 + n > length data then i
         else read_extensions data (off + 4 + n) ext_end (read_extension data (off + 4) t n i))
      else i)"
  by pat_completeness auto
termination by (relation "measure (\<lambda>(data, off, ext_end, i). length data - off)") auto

declare read_extensions.simps [simp del]

text \<open>A cipher that is cut off raises.\<close>

definition read_ciphers :: "bytestr \<Rightarrow> nat \<Rightarrow> nat \<Rightarrow> nat list option" where
  "read_ciphers data off n =
     (if list_all (\<lambda>i. off + i + 2 \<le> length data) (every_second n) then Some (map (\<lambda>i. u16_at data (off + i)) (every_second n)) else None)"

definition parse_tls_client_hello :: "bytestr \<Rightarrow> tls_info option" where
  "parse_tls_client_hello data =
     (if length data < 43 \<or> data ! 0 \<noteq> CHR 0x16 \<or> data ! 5 \<noteq> CHR 0x01 \<or> length data < 44 then None
      else let version = u16_at data 9; off = 44 + ord (data ! 43) in
        if length data < off + 2 then None
        else let n = u16_at data off; off = off + 2 in
          if length data < off + n then None
          else case read_ciphers data off n of None \<Rightarrow> None
          | Some cs \<Rightarrow>
              let off = off + n in
              if length data < off + 1 then None
              else let off = off + 1 + ord (data ! off) in
                if length data < off + 2 then None
                else Some (read_extensions data (off + 2) (off + 2 + u16_at data off)
                  \<lparr>tls_version = version, tls_ciphers = cs, tls_extensions = [], has_sni = False, tls_alpn = None,
                   signature_algorithms = None\<rparr>))"

section \<open>JA4\<close>

text \<open>The formats \<open>04x\<close> and \<open>02d\<close>.\<close>

fun hex_text :: "nat \<Rightarrow> string" where
  "hex_text n = (if n < 16 then [hex_char n] else hex_text (n div 16) @ [hex_char (n mod 16)])"

declare hex_text.simps [simp del]

definition hex_04 :: "nat \<Rightarrow> string" where
  "hex_04 n = zfill 4 (hex_text n)"

definition sha_encode :: "string \<Rightarrow> string" where
  "sha_encode s = take 12 (sha256_hex (utf8 s))"

definition no_grease :: "nat list \<Rightarrow> nat list" where
  "no_grease xs = filter (\<lambda>x. x \<notin> set GREASE_VALUES) xs"

definition alpn_value :: "string option \<Rightarrow> string" where
  "alpn_value alpn =
     (case alpn of None \<Rightarrow> ''00'' | Some a \<Rightarrow> if a = [] then ''00'' else if length a > 2 then [hd a, last a] else a)"

definition generate_ja4 ::
  "nat \<Rightarrow> nat list \<Rightarrow> nat list \<Rightarrow> bool \<Rightarrow> string option \<Rightarrow> nat list option \<Rightarrow> bool \<Rightarrow> string"
where
  "generate_ja4 version ciphers extensions sni alpn sig quic =
     (let cs = no_grease ciphers; es = no_grease extensions;
          sorted_ciphers = sort (map hex_04 cs); sorted_extensions = sort (map hex_04 es);
          ext_string = py_join '','' sorted_extensions @
            (if sig \<noteq> None \<and> sig \<noteq> Some [] then ''_'' @ py_join '','' (map hex_04 (the sig)) else []) in
      (if quic then ''q'' else ''t'') @ (case map_of TLS_VERSION_MAP version of None \<Rightarrow> ''00'' | Some v \<Rightarrow> v) @
      (if sni then ''d'' else ''i'') @ zfill 2 (str_of_nat (min (length cs) 99)) @ zfill 2 (str_of_nat (min (length es) 99)) @
      alpn_value alpn @ ''_'' @ (if sorted_ciphers \<noteq> [] then sha_encode (py_join '','' sorted_ciphers) else ''000000000000'') @ ''_'' @
      (if sorted_extensions \<noteq> [] then sha_encode ext_string else ''000000000000''))"

section \<open>HTTP\<close>

record http_info =
  http_method :: string
  http_version :: string
  http_headers :: "string list"
  http_cookies :: "string list option"
  http_referer :: "string option"
  accept_language :: "string option"

text \<open>\<open>s.split(sep)\<close> for a separator of two characters.\<close>

fun split_crlf :: "string \<Rightarrow> string list" where
  "split_crlf [] = [[]]"
| "split_crlf [c] = [[c]]"
| "split_crlf (c # d # s) =
     (if c = cr \<and> d = nl then [] # split_crlf s
      else case split_crlf (d # s) of [] \<Rightarrow> [[c]] | w # ws \<Rightarrow> (c # w) # ws)"

definition cookie_names :: "string \<Rightarrow> string list" where
  "cookie_names v = filter (\<lambda>n. n \<noteq> []) (map (\<lambda>c. py_strip (before_first (CHR ''='') c)) (split_on (CHR '';'') v))"

definition read_header :: "string \<Rightarrow> http_info \<Rightarrow> http_info" where
  "read_header line i =
     (if CHR '':'' \<notin> set line then i
      else
        let name = py_strip (before_first (CHR '':'') line); v = py_strip (after_first (CHR '':'') line);
            j = i\<lparr>http_headers := http_headers i @ [name]\<rparr> in
        if py_lower name = ''cookie'' then j\<lparr>http_cookies := (if cookie_names v = [] then None else Some (cookie_names v))\<rparr>
        else if py_lower name = ''referer'' then j\<lparr>http_referer := Some v\<rparr>
        else if py_lower name = ''accept-language'' then j\<lparr>accept_language := Some v\<rparr>
        else j)"

definition parse_http_request :: "bytestr \<Rightarrow> http_info option" where
  "parse_http_request data =
     (let ls = split_crlf (ascii_ignore data); request_line = split_ws (hd ls) in
      if length request_line < 3 then None
      else let v = request_line ! 2 in
        Some (fold read_header (tl ls)
          \<lparr>http_method = hd request_line, http_version = (if startswith v ''HTTP/'' then drop 5 v else ''1.1''), http_headers = [],
           http_cookies = None, http_referer = None, accept_language = None\<rparr>))"

definition language :: "string option \<Rightarrow> string" where
  "language l =
     (case l of None \<Rightarrow> ''0000''
      | Some a \<Rightarrow>
          if a = [] then ''0000''
          else let t = take 4 (before_first (CHR '','') (py_lower (map (\<lambda>c. if c = CHR '';'' then CHR '','' else c) (filter (\<lambda>c. c \<noteq> CHR ''-'') a)))) in
            t @ replicate (4 - length t) (CHR ''0''))"

definition counted_headers :: "string list \<Rightarrow> string list" where
  "counted_headers hs = filter (\<lambda>h. py_lower h \<notin> {''cookie'', ''referer''} \<and> h \<noteq> []) hs"

definition generate_ja4h ::
  "string \<Rightarrow> string \<Rightarrow> string list \<Rightarrow> string list option \<Rightarrow> string option \<Rightarrow> string option \<Rightarrow> string"
where
  "generate_ja4h method version headers cookies referer lang =
     (let hs = counted_headers headers; sorted_headers = sort (map py_lower hs); has_cookies = (cookies \<noteq> None \<and> cookies \<noteq> Some []) in
      take 2 (py_lower method) @ (if version = ''2.0'' then ''20'' else if version = ''1.1'' then ''11'' else if version = ''1.0'' then ''10'' else ''11'') @
      (if has_cookies then ''c'' else ''n'') @ (if referer \<noteq> None \<and> referer \<noteq> Some [] then ''r'' else ''n'') @
      zfill 2 (str_of_nat (min (length hs) 99)) @ language lang @ ''_'' @
      (if sorted_headers \<noteq> [] then sha_encode (py_join '','' sorted_headers) else ''000000000000'') @ ''_'' @
      (if has_cookies then sha_encode (py_join '','' (sort (map py_lower (the cookies)))) else ''000000000000'') @ ''_000000000000'')"

section \<open>Forwarded traffic\<close>

datatype traffic = Ja4 string | Ja4h string

definition fingerprint_traffic :: "bytestr \<Rightarrow> traffic option" where
  "fingerprint_traffic data =
     (if length data \<ge> 6 \<and> data ! 0 = CHR 0x16 \<and> data ! 5 = CHR 0x01 then
        map_option (\<lambda>i. Ja4 (generate_ja4 (tls_version i) (tls_ciphers i) (tls_extensions i) (has_sni i) (tls_alpn i)
          (signature_algorithms i) False)) (parse_tls_client_hello data)
      else if startswith data ''GET '' \<or> startswith data ''POST '' \<or> startswith data ''HEAD '' then
        map_option (\<lambda>i. Ja4h (generate_ja4h (http_method i) (http_version i) (http_headers i) (http_cookies i) (http_referer i)
          (accept_language i))) (parse_http_request data)
      else None)"

section \<open>A well-formed Client Hello\<close>

text \<open>What a client writes: the extensions with a list of protocols or of signature algorithms, and any other extension.\<close>

datatype hello_ext = OtherExt nat bytestr | AlpnExt "bytestr list" | SigExt "nat list"

definition counted :: "bytestr \<Rightarrow> bytestr" where
  "counted b = be_bytes 2 (length b) @ b"

definition ext_code :: "hello_ext \<Rightarrow> nat" where
  "ext_code e = (case e of OtherExt t b \<Rightarrow> t | AlpnExt ps \<Rightarrow> 0x10 | SigExt ss \<Rightarrow> 0x0d)"

definition numbers :: "nat list \<Rightarrow> bytestr" where
  "numbers ns = concat (map (be_bytes 2) ns)"

definition protocols :: "bytestr list \<Rightarrow> bytestr" where
  "protocols ps = concat (map (\<lambda>p. char_of (length p) # p) ps)"

definition ext_body :: "hello_ext \<Rightarrow> bytestr" where
  "ext_body e = (case e of OtherExt t b \<Rightarrow> b | AlpnExt ps \<Rightarrow> counted (protocols ps) | SigExt ss \<Rightarrow> counted (numbers ss))"

definition ext_bytes :: "hello_ext \<Rightarrow> bytestr" where
  "ext_bytes e = be_bytes 2 (ext_code e) @ counted (ext_body e)"

definition good_ext :: "hello_ext \<Rightarrow> bool" where
  "good_ext e \<longleftrightarrow> ext_code e < 65536 \<and> length (ext_body e) < 65536 \<and>
     (case e of OtherExt t b \<Rightarrow> t \<noteq> 0x10 \<and> t \<noteq> 0x0d
      | AlpnExt ps \<Rightarrow> ps \<noteq> [] \<and> list_all (\<lambda>p. p \<noteq> [] \<and> length p < 256) ps
      | SigExt ss \<Rightarrow> ss \<noteq> [] \<and> list_all (\<lambda>s. s < 65536) ss)"

definition hello_body :: "nat \<Rightarrow> bytestr \<Rightarrow> bytestr \<Rightarrow> nat list \<Rightarrow> bytestr \<Rightarrow> hello_ext list \<Rightarrow> bytestr" where
  "hello_body version random sid ciphers meths exts =
     be_bytes 2 version @ random @ char_of (length sid) # sid @ counted (numbers ciphers) @ char_of (length meths) # meths @
     counted (concat (map ext_bytes exts))"

definition client_hello :: "nat \<Rightarrow> bytestr \<Rightarrow> bytestr \<Rightarrow> nat list \<Rightarrow> bytestr \<Rightarrow> hello_ext list \<Rightarrow> bytestr" where
  "client_hello version random sid ciphers meths exts =
     (let b = hello_body version random sid ciphers meths exts in
      CHR 0x16 # be_bytes 2 0x0301 @ be_bytes 2 (length b + 4) @ CHR 0x01 # be_bytes 3 (length b) @ b)"

text \<open>What an extension tells.\<close>

definition tell :: "hello_ext \<Rightarrow> tls_info \<Rightarrow> tls_info" where
  "tell e i =
     (let j = i\<lparr>tls_extensions := tls_extensions i @ [ext_code e]\<rparr> in
      case e of OtherExt t b \<Rightarrow> if t = 0 then j\<lparr>has_sni := True\<rparr> else j
      | AlpnExt ps \<Rightarrow> j\<lparr>tls_alpn := Some (ascii_ignore (hd ps))\<rparr>
      | SigExt ss \<Rightarrow> j\<lparr>signature_algorithms := Some ss\<rparr>)"

lemma u16_at_be: "length pre = off \<Longrightarrow> n < 65536 \<Longrightarrow> u16_at (pre @ be_bytes 2 n @ post) off = n"
  using int_of_bytes_be [of 2 n] by (simp add: u16_at_def)

lemma length_counted [simp]: "length (counted b) = length b + 2"
  by (simp add: counted_def)

lemma length_numbers [simp]: "length (numbers ns) = 2 * length ns"
  by (induction ns) (simp_all add: numbers_def)

lemma every_second_double: "every_second (2 * n) = map ((*) 2) [0..<n]"
  by (induction n) (simp_all add: every_second_def)

lemma numbers_nth: "list_all (\<lambda>n. n < 65536) ns \<Longrightarrow> k < length ns \<Longrightarrow> length pre = off \<Longrightarrow> u16_at (pre @ numbers ns @ post) (off + 2 * k) = ns ! k"
proof -
  assume a: "list_all (\<lambda>n. n < 65536) ns" "k < length ns" "length pre = off"
  have "numbers ns = numbers (take k ns) @ be_bytes 2 (ns ! k) @ numbers (drop (Suc k) ns)"
    using a(2) by (subst id_take_nth_drop [of k ns]) (simp_all add: numbers_def)
  then show ?thesis
    using u16_at_be [of "pre @ numbers (take k ns)" "off + 2 * k" "ns ! k"] a by (simp add: list_all_length)
qed

lemma numbers_read:
  assumes "list_all (\<lambda>n. n < 65536) ns" "length pre = off"
  shows "map (\<lambda>i. u16_at (pre @ numbers ns @ post) (off + i)) (every_second (2 * length ns)) = ns"
  using assms by (intro nth_equalityI) (simp_all add: every_second_double numbers_nth)

lemma first_alpn_told:
  assumes "ps \<noteq> []" "list_all (\<lambda>p. p \<noteq> [] \<and> length p < 256) ps" "length (protocols ps) < 65536" "length pre = off"
  shows "first_alpn (pre @ counted (protocols ps) @ post) off = Some (ascii_ignore (hd ps))"
proof -
  obtain p qs where ps: "ps = p # qs" using assms(1) by (cases ps) auto
  then have p: "protocols ps = char_of (length p) # p @ protocols qs" "p \<noteq> []" "length p < 256" using assms(2) by (simp_all add: protocols_def)
  have "u16_at (pre @ counted (protocols ps) @ post) off = length (protocols ps)"
    using u16_at_be [of pre off "length (protocols ps)" "protocols ps @ post"] assms(3,4) by (simp add: counted_def)
  moreover have "take (length (protocols ps)) (drop (off + 2) (pre @ counted (protocols ps) @ post)) = protocols ps"
    using assms(4) by (simp add: counted_def)
  ultimately show ?thesis using p assms(4) by (simp add: first_alpn_def Let_def ps)
qed

lemma sig_algs_told:
  assumes "ss \<noteq> []" "list_all (\<lambda>s. s < 65536) ss" "2 * length ss < 65536" "length pre = off"
  shows "sig_algs (pre @ counted (numbers ss) @ post) off = Some ss"
proof -
  have n: "u16_at (pre @ counted (numbers ss) @ post) off = 2 * length ss"
    using u16_at_be [of pre off "2 * length ss" "numbers ss @ post"] assms(3,4) by (simp add: counted_def)
  have "map (\<lambda>i. u16_at (pre @ counted (numbers ss) @ post) (off + 2 + i)) (every_second (2 * length ss)) = ss"
    using numbers_read [of ss "pre @ be_bytes 2 (2 * length ss)" "off + 2" post] assms(2,4) by (simp add: counted_def)
  moreover have "filter (\<lambda>i. off + 2 + i + 2 \<le> length (pre @ counted (numbers ss) @ post)) (every_second (2 * length ss)) =
      every_second (2 * length ss)"
    using assms(4) by (auto simp: every_second_double)
  ultimately show ?thesis using n assms(1,4) by (simp add: sig_algs_def Let_def)
qed

lemma read_tell:
  assumes "good_ext e" "length pre = off"
  shows "read_extension (pre @ ext_body e @ post) off (ext_code e) (length (ext_body e)) i = tell e i"
proof (cases e)
  case (OtherExt t b)
  then show ?thesis using assms(1) by (simp add: read_extension_def tell_def ext_code_def good_ext_def Let_def)
next
  case (AlpnExt ps)
  then have g: "ps \<noteq> []" "list_all (\<lambda>p. p \<noteq> [] \<and> length p < 256) ps" "length (protocols ps) < 65536"
    using assms(1) by (simp_all add: good_ext_def ext_body_def)
  then have "length (protocols ps) > 0" by (cases ps) (simp_all add: protocols_def)
  then show ?thesis using first_alpn_told [OF g assms(2), of post]
    by (simp add: AlpnExt read_extension_def tell_def ext_code_def ext_body_def or_keep_def)
next
  case (SigExt ss)
  then have g: "ss \<noteq> []" "list_all (\<lambda>s. s < 65536) ss" "2 * length ss < 65536" using assms(1) by (simp_all add: good_ext_def ext_body_def)
  then show ?thesis using sig_algs_told [OF g assms(2), of post]
    by (simp add: SigExt read_extension_def tell_def ext_code_def ext_body_def or_keep_def)
qed

lemma read_tells:
  "list_all good_ext es \<Longrightarrow> length pre = off \<Longrightarrow>
    read_extensions (pre @ concat (map ext_bytes es) @ post) off (off + length (concat (map ext_bytes es))) i = fold tell es i"
proof (induction es arbitrary: pre off i)
  case Nil
  then show ?case by (simp add: read_extensions.simps)
next
  case (Cons e es)
  let ?rest = "concat (map ext_bytes es)" and ?c = "be_bytes 2 (ext_code e)" and ?n = "be_bytes 2 (length (ext_body e))"
  let ?d = "pre @ concat (map ext_bytes (e # es)) @ post"
  have g: "ext_code e < 65536" "length (ext_body e) < 65536" "good_ext e" using Cons.prems(1) by (simp_all add: good_ext_def)
  have d: "?d = pre @ ?c @ ?n @ ext_body e @ ?rest @ post" by (simp add: ext_bytes_def counted_def)
  have "u16_at ?d off = ext_code e" unfolding d by (rule u16_at_be [OF Cons.prems(2) g(1)])
  moreover have "u16_at ?d (off + 2) = length (ext_body e)"
    unfolding d using u16_at_be [of "pre @ ?c" "off + 2" "length (ext_body e)"] g(2) Cons.prems(2) by simp
  moreover have "read_extension ?d (off + 4) (ext_code e) (length (ext_body e)) i = tell e i"
    using read_tell [OF g(3), of "pre @ ?c @ ?n" "off + 4"] Cons.prems(2) unfolding d by simp
  moreover have "read_extensions ?d (off + 4 + length (ext_body e)) (off + 4 + length (ext_body e) + length ?rest) (tell e i) =
      fold tell es (tell e i)"
    using Cons.IH [of "pre @ ?c @ ?n @ ext_body e" "off + 4 + length (ext_body e)"] Cons.prems unfolding d by simp
  moreover have "off + length (concat (map ext_bytes (e # es))) = off + 4 + length (ext_body e) + length ?rest"
    by (simp add: ext_bytes_def)
  moreover have "off + 4 + length (ext_body e) \<le> length ?d" using Cons.prems(2) unfolding d by simp
  ultimately show ?case by (subst read_extensions.simps) (simp only: Let_def, simp)
qed

lemma nth_9: "length h = 9 \<Longrightarrow> (h @ x) ! 0 = h ! 0 \<and> (h @ x) ! 5 = h ! 5"
  by (simp add: nth_append)

text \<open>The parser on a body behind any nine bytes that announce a Client Hello.\<close>

lemma parse_hello_body:
  assumes h: "length h = 9" "h ! 0 = CHR 0x16" "h ! 5 = CHR 0x01"
    and v: "version < 65536" and r: "length random = 32" and s: "length sid < 256"
    and c: "list_all (\<lambda>c. c < 65536) ciphers" "2 * length ciphers < 65536" and m: "length meths < 256"
    and e: "list_all good_ext exts" "length (concat (map ext_bytes exts)) < 65536"
  shows "parse_tls_client_hello (h @ hello_body version random sid ciphers meths exts @ post) =
    Some (fold tell exts \<lparr>tls_version = version, tls_ciphers = ciphers, tls_extensions = [], has_sni = False, tls_alpn = None,
      signature_algorithms = None\<rparr>)"
proof -
  let ?x = "concat (map ext_bytes exts)" and ?cs = "numbers ciphers"
  let ?d = "h @ hello_body version random sid ciphers meths exts @ post"
  let ?p = "h @ be_bytes 2 version @ random"
  let ?q = "?p @ char_of (length sid) # sid"
  let ?r = "?q @ be_bytes 2 (2 * length ciphers) @ ?cs"
  let ?s = "?r @ char_of (length meths) # meths"
  define a where "a = 44 + length sid"
  define b where "b = a + 2 + 2 * length ciphers"
  define e where "e = b + 1 + length meths"
  have len: "length ?p = 43" "length ?q = a" "length ?r = b" "length ?s = e" "length ?d \<ge> e + 2"
    using h(1) r by (simp_all add: a_def b_def e_def hello_body_def)
  have 0: "?d = ?p @ char_of (length sid) # sid @ counted ?cs @ char_of (length meths) # meths @ counted ?x @ post"
    by (simp add: hello_body_def)
  have 1: "?d = ?q @ be_bytes 2 (2 * length ciphers) @ ?cs @ char_of (length meths) # meths @ counted ?x @ post"
    by (simp add: hello_body_def counted_def)
  have 2: "?d = (?q @ be_bytes 2 (2 * length ciphers)) @ ?cs @ char_of (length meths) # meths @ counted ?x @ post"
    by (simp add: hello_body_def counted_def)
  have 3: "?d = ?r @ char_of (length meths) # meths @ counted ?x @ post" by (simp add: hello_body_def counted_def)
  have 4: "?d = ?s @ be_bytes 2 (length ?x) @ ?x @ post" by (simp add: hello_body_def counted_def)
  have 5: "?d = (?s @ be_bytes 2 (length ?x)) @ ?x @ post" by (simp add: hello_body_def counted_def)
  have d0: "?d ! 0 = CHR 0x16" "?d ! 5 = CHR 0x01" using nth_9 [OF h(1)] h(2,3) by simp_all
  have ver: "u16_at ?d 9 = version"
    using u16_at_be [OF h(1) v] by (simp add: hello_body_def)
  have sid: "ord (?d ! 43) = length sid" unfolding 0 using len(1) s nth_append_length [of ?p] by simp
  have cn: "u16_at ?d a = 2 * length ciphers" unfolding 1 by (rule u16_at_be [OF len(2) c(2)])
  have "map (\<lambda>i. u16_at ?d (a + 2 + i)) (every_second (2 * length ciphers)) = ciphers"
    unfolding 2 using len(2) by (intro numbers_read c(1)) simp
  then have cs: "read_ciphers ?d (a + 2) (2 * length ciphers) = Some ciphers"
    using len(5) by (simp add: read_ciphers_def every_second_double b_def e_def list_all_iff)
  have ms: "ord (?d ! b) = length meths" unfolding 3 using len(3) m nth_append_length [of ?r] by simp
  have xn: "u16_at ?d e = length ?x" unfolding 4 by (rule u16_at_be [OF len(4) assms(11)])
  have xs: "read_extensions ?d (e + 2) (e + 2 + length ?x) i = fold tell exts i" for i
    unfolding 5 using len(4) by (intro read_tells assms(10)) simp
  have "length ?d \<ge> 44" using len(5) by (simp add: a_def b_def e_def)
  then show ?thesis using len(5) d0 ver sid cn cs ms xn xs
    unfolding parse_tls_client_hello_def Let_def by (simp add: a_def b_def e_def)
qed

definition good_hello :: "nat \<Rightarrow> bytestr \<Rightarrow> bytestr \<Rightarrow> nat list \<Rightarrow> bytestr \<Rightarrow> hello_ext list \<Rightarrow> bool" where
  "good_hello version random sid ciphers meths exts \<longleftrightarrow>
     version < 65536 \<and> length random = 32 \<and> length sid < 256 \<and> list_all (\<lambda>c. c < 65536) ciphers \<and> 2 * length ciphers < 65536 \<and>
     length meths < 256 \<and> list_all good_ext exts \<and> length (concat (map ext_bytes exts)) < 65536"

definition hello_info :: "nat \<Rightarrow> nat list \<Rightarrow> hello_ext list \<Rightarrow> tls_info" where
  "hello_info version ciphers exts =
     fold tell exts \<lparr>tls_version = version, tls_ciphers = ciphers, tls_extensions = [], has_sni = False, tls_alpn = None,
       signature_algorithms = None\<rparr>"

lemma hello_parsed:
  "good_hello version random sid ciphers meths exts \<Longrightarrow>
    parse_tls_client_hello (client_hello version random sid ciphers meths exts @ post) = Some (hello_info version ciphers exts)"
  using parse_hello_body [of "CHR 0x16 # be_bytes 2 0x0301 @ be_bytes 2 (length (hello_body version random sid ciphers meths exts) + 4) @
      CHR 0x01 # be_bytes 3 (length (hello_body version random sid ciphers meths exts))" version random sid ciphers meths exts post]
  by (simp add: good_hello_def hello_info_def client_hello_def Let_def nth_append)

text \<open>The information of a hello, field by field.\<close>

lemma tell_fields:
  "tls_version (tell e i) = tls_version i" "tls_ciphers (tell e i) = tls_ciphers i"
  "tls_extensions (tell e i) = tls_extensions i @ [ext_code e]" "has_sni (tell e i) = (has_sni i \<or> ext_code e = 0)"
  "tls_alpn (tell e i) = (case e of AlpnExt ps \<Rightarrow> Some (ascii_ignore (hd ps)) | _ \<Rightarrow> tls_alpn i)"
  "signature_algorithms (tell e i) = (case e of SigExt ss \<Rightarrow> Some ss | _ \<Rightarrow> signature_algorithms i)"
  by (simp_all add: tell_def ext_code_def Let_def split: hello_ext.splits)

definition tell_alpn :: "hello_ext \<Rightarrow> string option \<Rightarrow> string option" where
  "tell_alpn e a = (case e of AlpnExt ps \<Rightarrow> Some (ascii_ignore (hd ps)) | _ \<Rightarrow> a)"

definition tell_sigs :: "hello_ext \<Rightarrow> nat list option \<Rightarrow> nat list option" where
  "tell_sigs e a = (case e of SigExt ss \<Rightarrow> Some ss | _ \<Rightarrow> a)"

lemma fold_tell_fields:
  "tls_version (fold tell es i) = tls_version i" "tls_ciphers (fold tell es i) = tls_ciphers i"
  "tls_extensions (fold tell es i) = tls_extensions i @ map ext_code es" "has_sni (fold tell es i) = (has_sni i \<or> 0 \<in> set (map ext_code es))"
  "tls_alpn (fold tell es i) = fold tell_alpn es (tls_alpn i)"
  "signature_algorithms (fold tell es i) = fold tell_sigs es (signature_algorithms i)"
  by (induction es arbitrary: i) (auto simp: tell_fields tell_alpn_def tell_sigs_def)

definition greasy :: "hello_ext \<Rightarrow> bool" where
  "greasy e \<longleftrightarrow> ext_code e \<in> set GREASE_VALUES"

lemma greasy_silent: "greasy e \<Longrightarrow> tell_alpn e = id \<and> tell_sigs e = id \<and> ext_code e \<noteq> 0"
  by (cases e) (auto simp: greasy_def ext_code_def tell_alpn_def tell_sigs_def GREASE_VALUES_def fun_eq_iff)

lemma fold_real: "(\<And>e. greasy e \<Longrightarrow> f e = id) \<Longrightarrow> fold f es = fold f (filter (\<lambda>e. \<not> greasy e) es)"
  by (induction es) auto

lemma distinct_codes: "distinct (map ext_code es) \<Longrightarrow> x \<in> set es \<Longrightarrow> y \<in> set es \<Longrightarrow> ext_code x = ext_code y \<Longrightarrow> x = y"
  by (auto simp: distinct_map inj_on_def)

lemma tell_commutes:
  "ext_code x \<noteq> ext_code y \<or> x = y \<Longrightarrow> tell_alpn x \<circ> tell_alpn y = tell_alpn y \<circ> tell_alpn x \<and> tell_sigs x \<circ> tell_sigs y = tell_sigs y \<circ> tell_sigs x"
  by (cases x; cases y) (auto simp: tell_alpn_def tell_sigs_def ext_code_def fun_eq_iff)

lemma told_shuffled:
  assumes "mset (filter (\<lambda>e. \<not> greasy e) es) = mset (filter (\<lambda>e. \<not> greasy e) es')" "distinct (map ext_code (filter (\<lambda>e. \<not> greasy e) es))"
  shows "fold tell_alpn es = fold tell_alpn es'" "fold tell_sigs es = fold tell_sigs es'"
proof -
  let ?r = "filter (\<lambda>e. \<not> greasy e)"
  have c: "ext_code x \<noteq> ext_code y \<or> x = y" if "x \<in> set (?r es)" "y \<in> set (?r es)" for x y
    using distinct_codes [OF assms(2) that] by blast
  have "fold tell_alpn (?r es) = fold tell_alpn (?r es')"
    by (rule fold_multiset_equiv [OF conjunct1 [OF tell_commutes [OF c]] assms(1)])
  then show "fold tell_alpn es = fold tell_alpn es'" 
    using fold_real [of tell_alpn es] fold_real [of tell_alpn es'] greasy_silent by metis
  have "fold tell_sigs (?r es) = fold tell_sigs (?r es')"
    by (rule fold_multiset_equiv [OF conjunct2 [OF tell_commutes [OF c]] assms(1)])
  then show "fold tell_sigs es = fold tell_sigs es'" 
    using fold_real [of tell_sigs es] fold_real [of tell_sigs es'] greasy_silent by metis
qed

lemma codes_shuffled:
  assumes "mset (filter (\<lambda>e. \<not> greasy e) es) = mset (filter (\<lambda>e. \<not> greasy e) es')"
  shows "mset (no_grease (map ext_code es)) = mset (no_grease (map ext_code es'))" "0 \<in> set (map ext_code es) \<longleftrightarrow> 0 \<in> set (map ext_code es')"
proof -
  have n: "no_grease (map ext_code xs) = map ext_code (filter (\<lambda>e. \<not> greasy e) xs)" for xs
    by (induction xs) (simp_all add: no_grease_def greasy_def)
  then show m: "mset (no_grease (map ext_code es)) = mset (no_grease (map ext_code es'))" using assms by simp
  have "0 \<in> set (map ext_code xs) \<longleftrightarrow> 0 \<in> set (no_grease (map ext_code xs))" for xs by (auto simp: no_grease_def GREASE_VALUES_def)
  then show "0 \<in> set (map ext_code es) \<longleftrightarrow> 0 \<in> set (map ext_code es')" using mset_eq_setD [OF m] by simp
qed

lemma ja4_shuffled:
  assumes "mset (no_grease cs) = mset (no_grease cs')" "mset (no_grease es) = mset (no_grease es')"
  shows "generate_ja4 version cs es sni alpn sig quic = generate_ja4 version cs' es' sni alpn sig quic"
proof -
  have "sort (map hex_04 xs) = sort (map hex_04 ys) \<and> length xs = length ys" if "mset xs = mset ys" for xs ys
    using that properties_for_sort [of "sort (map hex_04 ys)" "map hex_04 xs"] mset_eq_length [OF that] by simp
  from this [OF assms(1)] this [OF assms(2)] have "sort (map hex_04 (no_grease cs)) = sort (map hex_04 (no_grease cs'))"
    "sort (map hex_04 (no_grease es)) = sort (map hex_04 (no_grease es'))" "length (no_grease cs) = length (no_grease cs')"
    "length (no_grease es) = length (no_grease es')"
    by blast+
  then show ?thesis unfolding generate_ja4_def Let_def by (simp only:)
qed

lemma hello_fingerprint:
  "good_hello version random sid ciphers meths exts \<Longrightarrow>
    fingerprint_traffic (client_hello version random sid ciphers meths exts @ post) =
    Some (Ja4 (generate_ja4 version ciphers (map ext_code exts) (0 \<in> set (map ext_code exts)) (fold tell_alpn exts None)
      (fold tell_sigs exts None) False))"
  by (simp add: fingerprint_traffic_def hello_parsed hello_info_def fold_tell_fields)
    (simp add: client_hello_def hello_body_def nth_append Let_def)

section \<open>Properties\<close>

text \<open>The hello of the examples: version 3.3, a GREASE value, two ciphers, and extensions in any order.\<close>

lemma good_example:
  "good_hello 0x0303 (replicate 32 c) [] [0x0a0a, 0x1301, 0x1302] [CHR 0x00]
     [OtherExt 0 ''host'', AlpnExt [''h2'', ''http/1.1''], SigExt [0x0403]]"
  "good_hello 0x0303 (replicate 32 c) ''x'' [0x1302, 0x1301] [CHR 0x00]
     [SigExt [0x0403], OtherExt 0x1a1a [], AlpnExt [''h2'', ''http/1.1''], OtherExt 0 ''host'']"
  by (simp_all add: good_hello_def good_ext_def ext_code_def ext_body_def ext_bytes_def counted_def protocols_def numbers_def)

text \<open>C36: A Client Hello is read back as it was written: for every well-formed hello, whatever its random bytes, its session id and
  what follows it, the parser returns its version, its ciphers and its extensions in their order, whether it names a server,
  the first protocol and the signature algorithms of the last extensions that carry them.\<close>

theorem client_hello_read:
  assumes "good_hello version random sid ciphers meths exts"
  shows "parse_tls_client_hello (client_hello version random sid ciphers meths exts @ post) =
    Some \<lparr>tls_version = version, tls_ciphers = ciphers, tls_extensions = map ext_code exts,
      has_sni = (0 \<in> set (map ext_code exts)), tls_alpn = fold tell_alpn exts None, signature_algorithms = fold tell_sigs exts None\<rparr>"
  using hello_parsed [OF assms] by (simp add: hello_info_def fold_tell_fields tls_info.equality)

theorem client_hello_read_witness:
  "map_option tls_alpn (parse_tls_client_hello (client_hello 0x0303 (replicate 32 CHR ''r'') [] [0x0a0a, 0x1301, 0x1302] [CHR 0x00]
     [OtherExt 0 ''host'', AlpnExt [''h2'', ''http/1.1''], SigExt [0x0403]] @ ''more'')) = Some (Some ''h2'')"
  by (simp only: client_hello_read [OF good_example(1)])
    (simp add: tell_alpn_def ascii_ignore_def)

text \<open>C37: A client that shuffles its ciphers and extensions and sprinkles GREASE values does not escape: two hellos of the same
  version whose ciphers and extensions are the same up to order and GREASE (no extension twice) have the same JA4
  fingerprint, whatever their random bytes, session ids and compression methods.\<close>

theorem shuffled_hello_same_ja4:
  assumes "good_hello version random sid ciphers meths exts" "good_hello version random' sid' ciphers' meths' exts'"
    and "mset (no_grease ciphers) = mset (no_grease ciphers')"
    and "mset (filter (\<lambda>e. \<not> greasy e) exts) = mset (filter (\<lambda>e. \<not> greasy e) exts')"
    and "distinct (map ext_code (filter (\<lambda>e. \<not> greasy e) exts))"
  shows "fingerprint_traffic (client_hello version random sid ciphers meths exts @ post) =
    fingerprint_traffic (client_hello version random' sid' ciphers' meths' exts' @ post')"
  using ja4_shuffled [OF assms(3) codes_shuffled(1) [OF assms(4)]] codes_shuffled(2) [OF assms(4)] told_shuffled [OF assms(4,5)]
  by (simp only: hello_fingerprint [OF assms(1)] hello_fingerprint [OF assms(2)])

theorem shuffled_hello_same_ja4_witness:
  "fingerprint_traffic (client_hello 0x0303 (replicate 32 CHR ''r'') [] [0x0a0a, 0x1301, 0x1302] [CHR 0x00]
     [OtherExt 0 ''host'', AlpnExt [''h2'', ''http/1.1''], SigExt [0x0403]] @ ''more'') =
   fingerprint_traffic (client_hello 0x0303 (replicate 32 CHR ''s'') ''x'' [0x1302, 0x1301] [CHR 0x00]
     [SigExt [0x0403], OtherExt 0x1a1a [], AlpnExt [''h2'', ''http/1.1''], OtherExt 0 ''host''] @ [])"
  by (rule shuffled_hello_same_ja4 [OF good_example(1) good_example(2)])
    (simp_all add: no_grease_def greasy_def GREASE_VALUES_def ext_code_def)

text \<open>The list of an extension is read by its own count, not by the length of the extension: a short extension of protocols takes
  its protocol from the extension behind it.\<close>

lemma alpn_overruns:
  "tls_alpn (read_extensions (be_bytes 2 0x10 @ be_bytes 2 3 @ be_bytes 2 7 @ [CHR 0x04] @ be_bytes 2 0x17 @ be_bytes 2 2 @ ''zz'') 0 13
     \<lparr>tls_version = 0, tls_ciphers = [], tls_extensions = [], has_sni = False, tls_alpn = None, signature_algorithms = None\<rparr>) =
   Some (be_bytes 2 0x17 @ be_bytes 2 2)"
  by (simp add: read_extensions.simps u16_at_def be_bytes_def int_of_bytes_def read_extension_def first_alpn_def ascii_ignore_def
      or_keep_def upt_rec)

end
