(* ===== verification/Forwarding.thy ===== *)
theory Forwarding
  imports Fingerprint
begin

text \<open>
  Forwarded connections of the SSH server (\<open>src/src/cowrie/ssh/forwarding.py\<close>): a request is redirected, tunnelled through
  an HTTP proxy, or answered by a channel that only logs. What the channels of Twisted do is the list of effects. \<^const>\<open>None\<close> is
  an exception that the code does not catch.
\<close>

section \<open>The choice of a channel\<close>

type_synonym forward_target = "string \<times> int"

datatype forwarding = Redirected forward_target | Tunnelled forward_target forward_target | Discarding forward_target

text \<open>The entries of the configuration with a prefix, as a table from ports to targets; a later entry overrides.\<close>

definition forward_entry :: "string \<Rightarrow> string \<Rightarrow> (int \<times> forward_target) option" where
  "forward_entry key v =
     (let hp = split_on (CHR '':'') v in
      case py_int (last (split_on (CHR ''_'') key)) of None \<Rightarrow> None
      | Some dest \<Rightarrow>
          if length hp < 2 then None
          else map_option (\<lambda>port. (dest, (hd hp, port))) (py_int (hp ! 1)))"

fun forward_table :: "string \<Rightarrow> (string \<times> string) list \<Rightarrow> (int, forward_target) dict \<Rightarrow> (int, forward_target) dict option" where
  "forward_table start [] t = Some t"
| "forward_table start ((key, v) # items) t =
     (if startswith key start then
        (case forward_entry key v of None \<Rightarrow> None | Some (dest, target) \<Rightarrow> forward_table start items (AList.update dest target t))
      else forward_table start items t)"

record forward_cfg =
  forward_redirect :: bool
  forward_tunnel :: bool
  ssh_items :: "(string \<times> string) list"

definition look_up_forward :: "bool \<Rightarrow> string \<Rightarrow> forward_cfg \<Rightarrow> int \<Rightarrow> forward_target option option" where
  "look_up_forward enabled start cfg port =
     (if enabled then map_option (\<lambda>t. map_of t port) (forward_table start (ssh_items cfg) []) else Some None)"

definition open_forwarding :: "forward_cfg \<Rightarrow> forward_target \<Rightarrow> forwarding option" where
  "open_forwarding cfg remote =
     (case look_up_forward (forward_redirect cfg) ''forward_redirect_'' cfg (snd remote) of
        None \<Rightarrow> None
      | Some (Some target) \<Rightarrow> Some (Redirected target)
      | Some None \<Rightarrow>
          (case look_up_forward (forward_tunnel cfg) ''forward_tunnel_'' cfg (snd remote) of
             None \<Rightarrow> None
           | Some (Some target) \<Rightarrow> Some (Tunnelled target remote)
           | Some None \<Rightarrow> Some (Discarding remote)))"

section \<open>The channels\<close>

datatype forward_effect =
    OpenTarget
  | SendTarget bytestr
  | SendChannel bytestr
  | CloseChannel
  | LoseChannel
  | TrafficSeen traffic
  | DataDiscarded bytestr
  | DataTunnelled bytestr
  | BadResponse
  | UnexpectedCode int

definition traffic_seen :: "bytestr \<Rightarrow> forward_effect list" where
  "traffic_seen data = (case fingerprint_traffic data of None \<Rightarrow> [] | Some t \<Rightarrow> [TrafficSeen t])"

definition redirect_eof :: "forward_effect list" where
  "redirect_eof = [LoseChannel]"

definition fake_channel_open :: "forward_effect list" where
  "fake_channel_open = []"

definition fake_data_received :: "bytestr \<Rightarrow> forward_effect list" where
  "fake_data_received data = traffic_seen data @ [DataDiscarded data, CloseChannel]"

definition connect_header :: "string \<Rightarrow> int \<Rightarrow> bytestr option" where
  "connect_header host port =
     (if list_all (\<lambda>c. ord c < 128) host
      then Some (''CONNECT '' @ host @ '':'' @ str_of_int port @ '' HTTP/1.1'' @ [cr, nl, cr, nl]) else None)"

definition tunnel_channel_open :: "forward_target \<Rightarrow> bool \<times> forward_effect list" where
  "tunnel_channel_open dst =
     (case connect_header (fst dst) (snd dst) of None \<Rightarrow> (False, [OpenTarget]) | Some h \<Rightarrow> (True, [OpenTarget, SendTarget h]))"

definition tunnel_data_received :: "bytestr \<Rightarrow> forward_effect list" where
  "tunnel_data_received data = traffic_seen data @ [DataTunnelled data, SendTarget data]"

text \<open>Data from the proxy of the tunnel; the state is whether the tunnel is established.\<close>

definition strip_response :: "bytestr \<Rightarrow> bytestr" where
  "strip_response data = (case str_find [cr, nl, cr, nl] data of None \<Rightarrow> data | Some i \<Rightarrow> drop (i + 4) data)"

definition tunnel_write :: "bytestr \<Rightarrow> bool \<Rightarrow> (forward_effect list \<times> bool) option" where
  "tunnel_write data established =
     (if \<not> established \<and> py_lower (take 4 data) = ''http'' then
        (let ws = split_on (CHR '' '') data in
         if length ws < 2 then None
         else case py_int (ws ! 1) of
             None \<Rightarrow> Some ([BadResponse, CloseChannel], established)
           | Some code \<Rightarrow>
               Some ((if code = 200 then [] else [UnexpectedCode code, CloseChannel]) @ [SendChannel (strip_response data)], True))
      else Some ([SendChannel data], established))"

definition tunnel_eof :: "forward_effect list" where
  "tunnel_eof = [LoseChannel]"

fun tunnel_run :: "bytestr list \<Rightarrow> bool \<Rightarrow> (forward_effect list \<times> bool) option" where
  "tunnel_run [] established = Some ([], established)"
| "tunnel_run (d # ds) established =
     (case tunnel_write d established of None \<Rightarrow> None
      | Some (es, e) \<Rightarrow> map_option (\<lambda>(es2, e2). (es @ es2, e2)) (tunnel_run ds e))"

section \<open>The tunnel is transparent\<close>

lemma tunnel_established: "tunnel_run ds True = Some (map SendChannel ds, True)"
  by (induction ds) (simp_all add: tunnel_write_def)

lemma split_on_word: "c \<notin> set w \<Longrightarrow> split_on c (w @ c # r) = w # split_on c r"
  by (induction w) auto

text \<open>A positive response in one packet is stripped, and nothing else: what the client gets is what the target sent.\<close>

lemma tunnel_transparent:
  assumes r: "response = ''HTTP/1.1 200 '' @ reason @ [cr, nl, cr, nl]" and f: "str_find [cr, nl, cr, nl] (response @ body) = Some (length response - 4)"
  shows "tunnel_run ((response @ body) # ds) False = Some (map SendChannel (body # ds), True)"
proof -
  have "split_on (CHR '' '') (response @ body) = ''HTTP/1.1'' # ''200'' # split_on (CHR '' '') (reason @ [cr, nl, cr, nl] @ body)"
    using split_on_word [of "CHR '' ''" "''HTTP/1.1''" "''200 '' @ reason @ [cr, nl, cr, nl] @ body"]
      split_on_word [of "CHR '' ''" "''200''" "reason @ [cr, nl, cr, nl] @ body"] by (simp add: r)
  moreover have "py_int ''200'' = Some 200" by code_simp
  moreover have "py_lower (take 4 (response @ body)) = ''http''" by (simp add: r) code_simp
  moreover have "length response - 4 + 4 = length response" by (simp add: r)
  then have "drop (length response - 4 + 4) (response @ body) = body" by (simp only:) simp
  ultimately have "tunnel_write (response @ body) False = Some ([SendChannel body], True)"
    using f by (simp add: tunnel_write_def strip_response_def)
  then show ?thesis by (simp add: tunnel_established)
qed

text \<open>A response without a space raises; a refusal closes the channel, but the data is sent all the same; the rest of a response
  that comes in two packets is handed to the client.\<close>

lemma spaceless_response_raises: "tunnel_write ''HTTP'' False = None"
  by code_simp

lemma refusal_still_sent:
  "tunnel_write (''HTTP/1.1 403 No'' @ [cr, nl, cr, nl] @ ''x'') False = Some ([UnexpectedCode 403, CloseChannel, SendChannel ''x''], True)"
  by code_simp

lemma split_response_leaks:
  "tunnel_run [''HTTP/1.1 200 OK'', [cr, nl, cr, nl]] False = Some ([SendChannel ''HTTP/1.1 200 OK'', SendChannel [cr, nl, cr, nl]], True)"
  by code_simp

end
