(* ===== verification/Proxy_Ssh.thy ===== *)
theory Proxy_Ssh
  imports Proxy_Sftp Fingerprint
begin

text \<open>
  The SSH side of the proxy: the messages of both connections (\<open>src/src/cowrie/ssh_proxy/protocols/ssh.py\<close>), which are
  followed, answered or passed on, and the two transports that hold messages back until both sides have logged in
  (\<open>server_transport.py\<close>, \<open>client_transport.py\<close>, \<open>userauth.py\<close>). Key exchange, encryption and the authentication of the client
  are Twisted's: the events here are messages after them and the outcome of the login. The names of logs, the clock
  and the decoder of text are arguments. A step returns \<^const>\<open>False\<close> with the state so far when it raises.
\<close>

section \<open>Channels\<close>

datatype chan_session =
    NoSession
  | TermSession term_state chan_log
  | ExecSession "command_event list" chan_log
  | SftpSession sftp
  | PortSession

record channel =
  ch_server :: "nat option"
  ch_client :: "nat option"
  ch_kind :: bytestr
  ch_name :: string
  ch_session :: chan_session
  ch_server_closed :: bool
  ch_client_closed :: bool

text \<open>What happens while a message is handled: \<open>ToClient\<close> and \<open>ToMachine\<close> are messages that the proxy
  itself sends on the two connections, \<open>PassToClient\<close> and \<open>PassToMachine\<close> are those that it passes on.\<close>

datatype ssh_effect =
    ToClient nat bytestr
  | ToMachine nat bytestr
  | PassToClient nat bytestr
  | PassToMachine nat bytestr
  | InteractiveTimeout
  | ExtInfo bytestr bytestr
  | TcpipRequest bytestr nat bytestr nat
  | TcpipDiscarded bytestr nat
  | CommandSeen command_event
  | Fingerprinted traffic
  | SessionClosed "log_effect list"

record ssh_cfg =
  sc_forwarding :: bool
  sc_sftp :: bool
  sc_ttylog :: bool
  sc_tty_dir :: string
  sc_download_dir :: string
  sc_decode :: decoder
  sc_user :: bytestr
  sc_password :: bytestr

text \<open>The clock and the name that a log opened now would have.\<close>

record ssh_moment =
  mo_stamp :: rat
  mo_log :: string

record ssh =
  sx_channels :: "channel list"
  sx_username :: bytestr
  sx_password :: bytestr
  sx_auth_type :: bytestr
  sx_expect :: nat
  sx_disk :: disk_files
  sx_out :: "ssh_effect list"

definition new_ssh :: "disk_files \<Rightarrow> ssh" where
  "new_ssh disk =
     \<lparr>sx_channels = [], sx_username = [], sx_password = [], sx_auth_type = [], sx_expect = 0, sx_disk = disk, sx_out = []\<rparr>"

definition ssh_emit :: "ssh_effect list \<Rightarrow> ssh \<Rightarrow> ssh" where
  "ssh_emit es s = s\<lparr>sx_out := sx_out s @ es\<rparr>"

definition create_channel :: "side \<Rightarrow> nat \<Rightarrow> bytestr \<Rightarrow> ssh \<Rightarrow> ssh" where
  "create_channel parent n kind s =
     (let c = \<lparr>ch_server = None, ch_client = None, ch_kind = kind, ch_name = [], ch_session = NoSession, ch_server_closed = False,
        ch_client_closed = False\<rparr> in
      s\<lparr>sx_channels := sx_channels s @ [case parent of Server \<Rightarrow> c\<lparr>ch_server := Some n\<rparr> | Client \<Rightarrow> c\<lparr>ch_client := Some n\<rparr>]\<rparr>)"

text \<open>The number that the peer of \<open>parent\<close> gave to a channel. The search raises (\<^const>\<open>None\<close>) at the first channel that has no such
  number, and when it finds none.\<close>

definition peer_number :: "side \<Rightarrow> channel \<Rightarrow> nat option" where
  "peer_number parent c = (case parent of Client \<Rightarrow> ch_server c | Server \<Rightarrow> ch_client c)"

fun get_channel :: "nat \<Rightarrow> side \<Rightarrow> channel list \<Rightarrow> nat option" where
  "get_channel n parent [] = None"
| "get_channel n parent (c # cs) =
     (case peer_number parent c of None \<Rightarrow> None
      | Some m \<Rightarrow> if m = n then Some 0 else map_option Suc (get_channel n parent cs))"

definition set_channel :: "nat \<Rightarrow> channel \<Rightarrow> ssh \<Rightarrow> ssh" where
  "set_channel k c s = s\<lparr>sx_channels := (sx_channels s)[k := c]\<rparr>"

definition remove_channel :: "nat \<Rightarrow> ssh \<Rightarrow> ssh" where
  "remove_channel k s = s\<lparr>sx_channels := take k (sx_channels s) @ drop (Suc k) (sx_channels s)\<rparr>"

definition send_back :: "side \<Rightarrow> nat \<Rightarrow> bytestr \<Rightarrow> ssh \<Rightarrow> ssh" where
  "send_back parent num payload s = ssh_emit [case parent of Server \<Rightarrow> ToClient num payload | Client \<Rightarrow> ToMachine num payload] s"

section \<open>Login messages\<close>

text \<open>The pairs of an \<open>EXT_INFO\<close>, each of which is logged.\<close>

fun ext_infos :: "nat \<Rightarrow> packet \<Rightarrow> ssh_effect list" where
  "ext_infos 0 p = []"
| "ext_infos (Suc n) p =
     (case extract_string p of (a, q) \<Rightarrow> case extract_string q of (b, r) \<Rightarrow> ExtInfo a b # ext_infos n r)"

text \<open>The prompt that asks for a password, and the response to it.\<close>

fun scan_prompts :: "nat \<Rightarrow> nat \<Rightarrow> packet \<Rightarrow> nat \<Rightarrow> nat" where
  "scan_prompts 0 i p expect = expect"
| "scan_prompts (Suc n) i p expect =
     (case extract_string p of (request, q) \<Rightarrow>
        scan_prompts n (Suc i) (snd (extract_bool q)) (if str_in ''password'' (py_lower request) then i else expect))"

fun scan_responses :: "nat \<Rightarrow> nat \<Rightarrow> packet \<Rightarrow> nat \<Rightarrow> bytestr \<Rightarrow> bytestr" where
  "scan_responses 0 i p expect password = password"
| "scan_responses (Suc n) i p expect password =
     (case extract_string p of (response, q) \<Rightarrow>
        scan_responses n (Suc i) q expect (if i = expect then response else password))"

definition userauth_request :: "packet \<Rightarrow> ssh \<Rightarrow> ssh" where
  "userauth_request p s =
     (case extract_string p of (user, p1) \<Rightarrow>
        case extract_string (snd (extract_string p1)) of (auth, p2) \<Rightarrow>
          let s1 = s\<lparr>sx_username := user, sx_auth_type := auth\<rparr> in
          if auth = ''password'' then s1\<lparr>sx_password := fst (extract_string (snd (extract_bool p2)))\<rparr>
          else if auth = ''publickey'' then ssh_emit [ToClient 51 (ssh_string ''password'' @ [CHR 0x00])] s1
          else s1)"

definition info_request :: "packet \<Rightarrow> ssh \<Rightarrow> ssh" where
  "info_request p s =
     (case extract_int 4 (snd (extract_string (snd (extract_string (snd (extract_string p)))))) of (n, q) \<Rightarrow>
        s\<lparr>sx_auth_type := ''keyboard-interactive'', sx_expect := scan_prompts n 0 q (sx_expect s)\<rparr>)"

definition info_response :: "packet \<Rightarrow> ssh \<Rightarrow> ssh" where
  "info_response p s =
     (case extract_int 4 p of (n, q) \<Rightarrow> s\<lparr>sx_password := scan_responses n 0 q (sx_expect s) (sx_password s)\<rparr>)"

section \<open>Channel messages\<close>

text \<open>Each handler returns whether it ended, whether the message is passed on, and the state.\<close>

definition open_forward :: "ssh_cfg \<Rightarrow> side \<Rightarrow> nat \<Rightarrow> bytestr \<Rightarrow> packet \<Rightarrow> ssh \<Rightarrow> bool \<times> bool \<times> ssh" where
  "open_forward cfg parent n kind p s =
     (case extract_string (snd (extract_int 4 (snd (extract_int 4 p)))) of (dst_ip, p1) \<Rightarrow>
      case extract_int 4 p1 of (dst_port, p2) \<Rightarrow>
      case extract_string p2 of (src_ip, p3) \<Rightarrow>
      let src_port = fst (extract_int 4 p3) in
      if sc_forwarding cfg then
        let s1 = create_channel parent n kind (ssh_emit [TcpipRequest dst_ip dst_port src_ip src_port] s);
            other = (case parent of Server \<Rightarrow> Client | Client \<Rightarrow> Server) in
        (case get_channel n other (sx_channels s1) of
           None \<Rightarrow> (False, True, s1)
         | Some k \<Rightarrow>
             let name = (case parent of Server \<Rightarrow> ''[LPRTF'' | Client \<Rightarrow> ''[RPRTF'') @ str_of_nat n @ '']'' in
             (True, True, set_channel k ((sx_channels s1 ! k)\<lparr>ch_name := name, ch_session := PortSession\<rparr>) s1))
      else
        (True, False, send_back parent 92 (put_int n @ put_int 1 @ ssh_string ''open failed'' @ put_int 0)
           (ssh_emit [TcpipDiscarded dst_ip dst_port] s)))"

definition channel_open :: "ssh_cfg \<Rightarrow> side \<Rightarrow> packet \<Rightarrow> ssh \<Rightarrow> bool \<times> bool \<times> ssh" where
  "channel_open cfg parent p s =
     (case extract_string p of (kind, p1) \<Rightarrow>
      case extract_int 4 p1 of (n, p2) \<Rightarrow>
        if kind = ''session'' then (True, True, create_channel parent n kind (ssh_emit [InteractiveTimeout] s))
        else if kind = ''direct-tcpip'' \<or> kind = ''forwarded-tcpip'' then open_forward cfg parent n kind p2 s
        else (True, True, s))"

definition channel_confirmed :: "side \<Rightarrow> packet \<Rightarrow> ssh \<Rightarrow> bool \<times> bool \<times> ssh" where
  "channel_confirmed parent p s =
     (case extract_int 4 p of (n, p1) \<Rightarrow>
        (case get_channel n parent (sx_channels s) of
          None \<Rightarrow> (False, True, s)
        | Some k \<Rightarrow>
            let m = fst (extract_int 4 p1); c = sx_channels s ! k in
            (True, True, set_channel k (case parent of Server \<Rightarrow> c\<lparr>ch_server := Some m\<rparr> | Client \<Rightarrow> c\<lparr>ch_client := Some m\<rparr>) s)))"

definition channel_failed :: "side \<Rightarrow> packet \<Rightarrow> ssh \<Rightarrow> bool \<times> bool \<times> ssh" where
  "channel_failed parent p s =
     (case get_channel (fst (extract_int 4 p)) parent (sx_channels s) of
        None \<Rightarrow> (False, True, s)
      | Some k \<Rightarrow> (True, True, remove_channel k s))"

definition open_shell :: "ssh_cfg \<Rightarrow> ssh_moment \<Rightarrow> nat \<Rightarrow> ssh \<Rightarrow> bool \<times> bool \<times> ssh" where
  "open_shell cfg mo k s =
     (let c = sx_channels s ! k in
      case ch_server c of None \<Rightarrow> (False, True, s)
      | Some n \<Rightarrow>
          let c1 = c\<lparr>ch_name := ''[TERM'' @ str_of_nat n @ '']''\<rparr>; s1 = set_channel k c1 s in
          (if ch_client c = None then (False, True, s1)
           else case chan_open (mo_stamp mo) (sc_ttylog cfg) (sc_tty_dir cfg) (mo_log mo) (sx_disk s) of
               None \<Rightarrow> (False, True, s1)
             | Some l \<Rightarrow> (True, True, (set_channel k (c1\<lparr>ch_session := TermSession new_term l\<rparr>) s)\<lparr>sx_disk := cl_disk l\<rparr>)))"

definition open_exec :: "ssh_cfg \<Rightarrow> ssh_moment \<Rightarrow> nat \<Rightarrow> packet \<Rightarrow> ssh \<Rightarrow> bool \<times> bool \<times> ssh" where
  "open_exec cfg mo k p s =
     (let c = sx_channels s ! k in
      case ch_server c of None \<Rightarrow> (False, True, s)
      | Some n \<Rightarrow>
          let c1 = c\<lparr>ch_name := ''[EXEC'' @ str_of_nat n @ '']''\<rparr>; command = fst (extract_string (snd (extract_bool p))) in
          (case exec_term_open (sc_decode cfg) (mo_stamp mo) (sc_ttylog cfg) (sc_tty_dir cfg) (mo_log mo) command (sx_disk s) of
             None \<Rightarrow> (False, True, set_channel k c1 s)
           | Some (es, l) \<Rightarrow>
               (True, True, ssh_emit (map CommandSeen es) ((set_channel k (c1\<lparr>ch_session := ExecSession es l\<rparr>) s)\<lparr>sx_disk := cl_disk l\<rparr>))))"

definition open_subsystem :: "ssh_cfg \<Rightarrow> side \<Rightarrow> nat \<Rightarrow> packet \<Rightarrow> ssh \<Rightarrow> bool \<times> bool \<times> ssh" where
  "open_subsystem cfg parent k p s =
     (let c = sx_channels s ! k; subsystem = fst (extract_string (snd (extract_bool p))) in
      if subsystem = ''sftp'' then
        (case ch_server c of None \<Rightarrow> (False, sc_sftp cfg, s)
         | Some n \<Rightarrow>
             if sc_sftp cfg then
               (True, True, set_channel k (c\<lparr>ch_name := ''[SFTP'' @ str_of_nat n @ '']'',
                  ch_session := SftpSession (new_sftp (sc_download_dir cfg) (sx_disk s))\<rparr>) s)
             else (True, False, send_back parent 100 (put_int n) s))
      else (sc_decode cfg subsystem \<noteq> None, True, s))"

definition QUIET_REQUESTS :: "bytestr list" where
  "QUIET_REQUESTS = [''window-change'', ''pty-req'', ''exit-status'', ''exit-signal'']"

definition channel_request :: "ssh_cfg \<Rightarrow> ssh_moment \<Rightarrow> side \<Rightarrow> packet \<Rightarrow> ssh \<Rightarrow> bool \<times> bool \<times> ssh" where
  "channel_request cfg mo parent p s =
     (case extract_int 4 p of (n, p1) \<Rightarrow>
        (case get_channel n parent (sx_channels s) of None \<Rightarrow> (False, True, s)
        | Some k \<Rightarrow>
            (case extract_string p1 of (kind, p2) \<Rightarrow>
               if kind = ''shell'' then open_shell cfg mo k s
               else if kind = ''exec'' then open_exec cfg mo k p2 s
               else if kind = ''subsystem'' then open_subsystem cfg parent k p2 s
               else if kind = ''env'' then
                 (case extract_string (snd (extract_bool p2)) of (var, p3) \<Rightarrow>
                    (sc_decode cfg var \<noteq> None \<and> sc_decode cfg (fst (extract_string p3)) \<noteq> None, True, s))
               else (kind \<in> set QUIET_REQUESTS \<or> sc_decode cfg kind \<noteq> None, True, s))))"

text \<open>The end of a session: terminals and commands file their logs.\<close>

definition session_closed :: "ssh_moment \<Rightarrow> chan_session \<Rightarrow> disk_files \<Rightarrow> (log_effect list \<times> disk_files) option" where
  "session_closed mo x disk =
     (case x of
        TermSession t l \<Rightarrow> map_option (\<lambda>(es, l). (es, cl_disk l)) (channel_closed (mo_stamp mo) (l\<lparr>cl_disk := disk\<rparr>))
      | ExecSession e l \<Rightarrow> map_option (\<lambda>(es, l). (es, cl_disk l)) (channel_closed (mo_stamp mo) (l\<lparr>cl_disk := disk\<rparr>))
      | _ \<Rightarrow> Some ([], disk))"

definition channel_close :: "ssh_moment \<Rightarrow> side \<Rightarrow> packet \<Rightarrow> ssh \<Rightarrow> bool \<times> bool \<times> ssh" where
  "channel_close mo parent p s =
     (case get_channel (fst (extract_int 4 p)) parent (sx_channels s) of None \<Rightarrow> (False, True, s)
      | Some k \<Rightarrow>
          let c = sx_channels s ! k;
              c1 = (case parent of Server \<Rightarrow> c\<lparr>ch_server_closed := True\<rparr> | Client \<Rightarrow> c\<lparr>ch_client_closed := True\<rparr>);
              s1 = set_channel k c1 s in
          if ch_server_closed c1 \<and> ch_client_closed c1 then
            (case session_closed mo (ch_session c1) (sx_disk s) of
               None \<Rightarrow> (False, True, s1)
             | Some (es, d) \<Rightarrow>
                 (True, True, (remove_channel k (if ch_session c1 = NoSession then s1 else ssh_emit [SessionClosed es] s1))\<lparr>sx_disk := d\<rparr>))
          else (True, True, s1))"

text \<open>Data for a session. All sessions work on one disk. A channel without a session raises.\<close>

definition session_data :: "ssh_cfg \<Rightarrow> ssh_moment \<Rightarrow> side \<Rightarrow> bytestr \<Rightarrow> chan_session \<Rightarrow> disk_files \<Rightarrow> (bool \<times> chan_session \<times> disk_files \<times> ssh_effect list)" where
  "session_data cfg mo parent data x disk =
     (case x of
        NoSession \<Rightarrow> (False, x, disk, [])
      | TermSession t l \<Rightarrow>
          (case term_parse_packet (sc_decode cfg) (mo_stamp mo) parent data (t, l\<lparr>cl_disk := disk\<rparr>) of
             None \<Rightarrow> (False, x, disk, [])
           | Some (t1, l1) \<Rightarrow> (True, TermSession t1 l1, cl_disk l1, map CommandSeen (drop (length (tm_events t)) (tm_events t1))))
      | ExecSession e l \<Rightarrow>
          (case exec_parse_packet (mo_stamp mo) parent data (l\<lparr>cl_disk := disk\<rparr>) of
             None \<Rightarrow> (False, x, disk, [])
           | Some l1 \<Rightarrow> (True, ExecSession e l1, cl_disk l1, []))
      | SftpSession f \<Rightarrow>
          (case sftp_parse_packet (sc_decode cfg) parent data (f\<lparr>sf_disk := disk\<rparr>) of
             (ok, f1) \<Rightarrow> (ok, SftpSession f1, sf_disk f1, []))
      | PortSession \<Rightarrow> (True, x, disk, case fingerprint_traffic data of None \<Rightarrow> [] | Some t \<Rightarrow> [Fingerprinted t]))"

definition channel_data :: "ssh_cfg \<Rightarrow> ssh_moment \<Rightarrow> side \<Rightarrow> bool \<Rightarrow> packet \<Rightarrow> ssh \<Rightarrow> bool \<times> bool \<times> ssh" where
  "channel_data cfg mo parent extended p s =
     (case extract_int 4 p of (n, p1) \<Rightarrow>
        (case get_channel n parent (sx_channels s) of None \<Rightarrow> (False, True, s)
        | Some k \<Rightarrow>
            let c = sx_channels s ! k; p2 = (if extended then snd (extract_int 4 p1) else p1) in
            (case session_data cfg mo parent (fst (extract_string p2)) (ch_session c) (sx_disk s) of
               (ok, x, d, es) \<Rightarrow> (ok, True, ssh_emit es ((set_channel k (c\<lparr>ch_session := x\<rparr>) s)\<lparr>sx_disk := d\<rparr>)))))"

definition global_request :: "ssh_cfg \<Rightarrow> side \<Rightarrow> packet \<Rightarrow> ssh \<Rightarrow> bool \<times> bool \<times> ssh" where
  "global_request cfg parent p s =
     (if fst (extract_string p) = ''tcpip-forward'' \<and> \<not> sc_forwarding cfg then (True, False, send_back parent 82 [] s) else (True, True, s))"

section \<open>Messages\<close>

text \<open>The numbers of the messages are those of the protocol (comments of the module).\<close>

definition handle_message :: "ssh_cfg \<Rightarrow> ssh_moment \<Rightarrow> side \<Rightarrow> nat \<Rightarrow> packet \<Rightarrow> ssh \<Rightarrow> bool \<times> bool \<times> ssh" where
  "handle_message cfg mo parent num p s =
     (if num = 5 then (True, fst (extract_string p) \<noteq> ''ssh-userauth'', s)
      else if num = 53 then (True, False, s)
      else if num = 7 then (case extract_int 4 p of (n, q) \<Rightarrow> (True, False, ssh_emit (ext_infos n q) s))
      else if num = 50 then (True, False, userauth_request p s)
      else if num = 51 then (True, False, s)
      else if num = 52 then (True, False, s)
      else if num = 60 then (True, False, info_request p s)
      else if num = 61 then (True, False, info_response p s)
      else if num = 90 then channel_open cfg parent p s
      else if num = 91 then channel_confirmed parent p s
      else if num = 92 then channel_failed parent p s
      else if num = 98 then channel_request cfg mo parent p s
      else if num = 97 then channel_close mo parent p s
      else if num = 94 then channel_data cfg mo parent False p s
      else if num = 95 then channel_data cfg mo parent True p s
      else if num = 80 then global_request cfg parent p s
      else (True, True, s))"

definition parse_num_packet :: "ssh_cfg \<Rightarrow> ssh_moment \<Rightarrow> side \<Rightarrow> nat \<Rightarrow> bytestr \<Rightarrow> ssh \<Rightarrow> bool \<times> ssh" where
  "parse_num_packet cfg mo parent num payload s =
     (case handle_message cfg mo parent num \<lparr>pk_data = payload, pk_size = int (length payload)\<rparr> s of
        (False, send, s1) \<Rightarrow> (False, s1)
      | (True, send, s1) \<Rightarrow>
          (True, if send then ssh_emit [case parent of Server \<Rightarrow> PassToMachine num payload | Client \<Rightarrow> PassToClient num payload] s1 else s1))"

section \<open>The two transports\<close>

type_synonym message = "nat \<times> bytestr"

record proxy =
  px_ssh :: ssh
  px_has_client :: bool
  px_backend_connected :: bool
  px_frontend_authenticated :: bool
  px_delayed_front :: "message list"
  px_delayed_back :: "message list"
  px_can_auth :: bool
  px_auth_done :: bool

definition new_proxy :: "disk_files \<Rightarrow> proxy" where
  "new_proxy disk =
     \<lparr>px_ssh = new_ssh disk, px_has_client = False, px_backend_connected = False, px_frontend_authenticated = False,
      px_delayed_front = [], px_delayed_back = [], px_can_auth = False, px_auth_done = False\<rparr>"

fun parse_all :: "ssh_cfg \<Rightarrow> ssh_moment \<Rightarrow> side \<Rightarrow> message list \<Rightarrow> ssh \<Rightarrow> bool \<times> ssh" where
  "parse_all cfg mo parent [] s = (True, s)"
| "parse_all cfg mo parent ((num, payload) # ms) s =
     (case parse_num_packet cfg mo parent num payload s of (ok, s1) \<Rightarrow> if ok then parse_all cfg mo parent ms s1 else (False, s1))"

definition authenticate_backend :: "ssh_cfg \<Rightarrow> ssh_moment \<Rightarrow> proxy \<Rightarrow> bool \<times> proxy" where
  "authenticate_backend cfg mo x =
     (if \<not> px_frontend_authenticated x \<or> \<not> px_can_auth x then (True, x)
      else
        let s = ssh_emit [ToMachine 5 (ssh_string ''ssh-userauth''),
              ToMachine 50 (ssh_string (sc_user cfg) @ ssh_string ''ssh-connection'' @ ssh_string ''password'' @ [CHR 0x00] @
                ssh_string (sc_password cfg))] (px_ssh x);
            (ok, s1) = parse_all cfg mo Server (px_delayed_front x) s; x1 = x\<lparr>px_ssh := s1, px_backend_connected := True\<rparr> in
        if ok then (True, x1\<lparr>px_delayed_front := [], px_auth_done := True\<rparr>) else (False, x1))"

definition front_buffer :: "ssh_cfg \<Rightarrow> ssh_moment \<Rightarrow> nat \<Rightarrow> bytestr \<Rightarrow> proxy \<Rightarrow> bool \<times> proxy" where
  "front_buffer cfg mo num payload x =
     (if \<not> px_backend_connected x \<or> px_delayed_front x \<noteq> [] then (True, x\<lparr>px_delayed_front := px_delayed_front x @ [(num, payload)]\<rparr>)
      else case parse_num_packet cfg mo Server num payload (px_ssh x) of (ok, s) \<Rightarrow> (ok, x\<lparr>px_ssh := s\<rparr>))"

text \<open>Messages of the login go to Twisted, and take back that the client is logged in.\<close>

definition front_dispatch :: "ssh_cfg \<Rightarrow> ssh_moment \<Rightarrow> nat \<Rightarrow> bytestr \<Rightarrow> proxy \<Rightarrow> bool \<times> proxy" where
  "front_dispatch cfg mo num payload x =
     (if num = 5 then (True, x)
      else if 50 \<le> num \<and> num \<le> 79 then (True, x\<lparr>px_frontend_authenticated := False\<rparr>)
      else front_buffer cfg mo num payload x)"

definition back_buffer :: "ssh_cfg \<Rightarrow> ssh_moment \<Rightarrow> nat \<Rightarrow> bytestr \<Rightarrow> proxy \<Rightarrow> bool \<times> proxy" where
  "back_buffer cfg mo num payload x =
     (if \<not> px_frontend_authenticated x then (True, x\<lparr>px_delayed_back := px_delayed_back x @ [(num, payload)]\<rparr>)
      else if px_delayed_back x \<noteq> [] then
        let ms = px_delayed_back x @ [(num, payload)]; (ok, s) = parse_all cfg mo Client ms (px_ssh x) in
        (ok, x\<lparr>px_ssh := s, px_delayed_back := if ok then [] else ms\<rparr>)
      else case parse_num_packet cfg mo Client num payload (px_ssh x) of (ok, s) \<Rightarrow> (ok, x\<lparr>px_ssh := s\<rparr>))"

definition back_dispatch :: "ssh_cfg \<Rightarrow> ssh_moment \<Rightarrow> nat \<Rightarrow> bytestr \<Rightarrow> proxy \<Rightarrow> bool \<times> proxy" where
  "back_dispatch cfg mo num payload x = (if num = 6 \<or> num = 52 then (True, x) else back_buffer cfg mo num payload x)"

definition finished_auth :: "ssh_cfg \<Rightarrow> ssh_moment \<Rightarrow> proxy \<Rightarrow> bool \<times> proxy" where
  "finished_auth cfg mo x =
     (let x1 = x\<lparr>px_ssh := ssh_emit [ToClient 52 []] (px_ssh x), px_frontend_authenticated := True\<rparr> in
      if px_has_client x1 then authenticate_backend cfg mo x1 else (True, x1))"

definition connection_secure :: "ssh_cfg \<Rightarrow> ssh_moment \<Rightarrow> proxy \<Rightarrow> bool \<times> proxy" where
  "connection_secure cfg mo x = authenticate_backend cfg mo (x\<lparr>px_can_auth := True\<rparr>)"

datatype ssh_event = FromClient nat bytestr | FromMachine nat bytestr | LoggedIn | MachineConnected | MachineSecure

definition ssh_step :: "ssh_cfg \<Rightarrow> ssh_moment \<Rightarrow> ssh_event \<Rightarrow> proxy \<Rightarrow> bool \<times> proxy" where
  "ssh_step cfg mo e x =
     (case e of
        FromClient num payload \<Rightarrow> front_dispatch cfg mo num payload x
      | FromMachine num payload \<Rightarrow> back_dispatch cfg mo num payload x
      | LoggedIn \<Rightarrow> finished_auth cfg mo x
      | MachineConnected \<Rightarrow> (True, x\<lparr>px_has_client := True\<rparr>)
      | MachineSecure \<Rightarrow> connection_secure cfg mo x)"

text \<open>Events with their moments, until one raises.\<close>

fun ssh_run :: "ssh_cfg \<Rightarrow> (ssh_moment \<times> ssh_event) list \<Rightarrow> proxy \<Rightarrow> bool \<times> proxy" where
  "ssh_run cfg [] x = (True, x)"
| "ssh_run cfg ((mo, e) # es) x = (case ssh_step cfg mo e x of (ok, x1) \<Rightarrow> if ok then ssh_run cfg es x1 else (False, x1))"

section \<open>What is passed on\<close>

text \<open>Whether a message is passed on depends on the message and the configuration only.\<close>

definition passes :: "ssh_cfg \<Rightarrow> message \<Rightarrow> bool" where
  "passes cfg m =
     (case m of (num, payload) \<Rightarrow>
        let p = \<lparr>pk_data = payload, pk_size = int (length payload)\<rparr>; p1 = snd (extract_int 4 p); kind = fst (extract_string p) in
        if num = 5 then kind \<noteq> ''ssh-userauth''
        else if num \<in> {7, 50, 51, 52, 53, 60, 61} then False
        else if num = 90 then sc_forwarding cfg \<or> kind \<notin> {''direct-tcpip'', ''forwarded-tcpip''}
        else if num = 98 then
          sc_sftp cfg \<or> fst (extract_string p1) \<noteq> ''subsystem'' \<or> fst (extract_string (snd (extract_bool (snd (extract_string p1))))) \<noteq> ''sftp''
        else if num = 80 then sc_forwarding cfg \<or> kind \<noteq> ''tcpip-forward''
        else True)"

text \<open>The messages passed on to one side, and the own messages of the proxy.\<close>

fun passed_on :: "side \<Rightarrow> ssh_effect \<Rightarrow> message list" where
  "passed_on Server (PassToMachine num payload) = [(num, payload)]"
| "passed_on Client (PassToClient num payload) = [(num, payload)]"
| "passed_on _ _ = []"

definition passed :: "side \<Rightarrow> ssh \<Rightarrow> message list" where
  "passed parent s = concat (map (passed_on parent) (sx_out s))"

lemma passed_emit: "passed parent (ssh_emit es s) = passed parent s @ concat (map (passed_on parent) es)"
  by (simp add: passed_def ssh_emit_def)

lemma passed_frame [simp]:
  "passed parent (s\<lparr>sx_channels := cs\<rparr>) = passed parent s" "passed parent (s\<lparr>sx_disk := d\<rparr>) = passed parent s"
  "passed parent (s\<lparr>sx_username := u, sx_auth_type := t\<rparr>) = passed parent s" "passed parent (s\<lparr>sx_password := u\<rparr>) = passed parent s"
  "passed parent (s\<lparr>sx_auth_type := t, sx_expect := n\<rparr>) = passed parent s"
  "passed parent (set_channel k c s) = passed parent s" "passed parent (remove_channel k s) = passed parent s"
  "passed parent (create_channel a n kind s) = passed parent s"
  by (simp_all add: passed_def set_channel_def remove_channel_def create_channel_def Let_def)

lemma passed_quiet: "(\<And>e. e \<in> set es \<Longrightarrow> passed_on parent e = []) \<Longrightarrow> passed parent (ssh_emit es s) = passed parent s"
  by (simp add: passed_emit)

lemma passed_send_back [simp]: "passed parent (send_back a num payload s) = passed parent s"
  by (cases a; cases parent; simp add: send_back_def passed_emit)

lemma ext_infos_quiet: "e \<in> set (ext_infos n p) \<Longrightarrow> passed_on parent e = []"
  by (induction n p rule: ext_infos.induct) (auto split: prod.splits)

text \<open>The handlers pass nothing on by themselves, and say whether to pass the message on.\<close>

lemma passed_userauth: "passed parent (userauth_request p s) = passed parent s"
  by (cases parent) (auto simp: userauth_request_def passed_emit Let_def split: prod.splits)

lemma open_forward_passes:
  "open_forward cfg parent n kind p s = (ok, send, s1) \<Longrightarrow> passed a s1 = passed a s \<and> (ok \<longrightarrow> send = sc_forwarding cfg)"
  by (cases a) (auto simp: open_forward_def passed_emit Let_def split: prod.splits if_splits option.splits)

lemma channel_open_passes:
  "channel_open cfg parent p s = (ok, send, s1) \<Longrightarrow> passed a s1 = passed a s \<and>
    (ok \<longrightarrow> send = (sc_forwarding cfg \<or> fst (extract_string p) \<notin> {''direct-tcpip'', ''forwarded-tcpip''}))"
  using open_forward_passes [of cfg parent "fst (extract_int 4 (snd (extract_string p)))" "fst (extract_string p)"
      "snd (extract_int 4 (snd (extract_string p)))" s ok send s1 a]
  by (cases a) (auto simp: channel_open_def passed_emit split: prod.splits if_splits)

lemma session_data_quiet: "session_data cfg mo parent data x disk = (ok, y, d, es) \<Longrightarrow> e \<in> set es \<Longrightarrow> passed_on a e = []"
  by (cases a; auto simp: session_data_def split: chan_session.splits option.splits prod.splits)

lemma channel_data_passes:
  "channel_data cfg mo parent ext p s = (ok, send, s1) \<Longrightarrow> passed a s1 = passed a s \<and> send"
  by (auto simp: channel_data_def Let_def passed_quiet [OF session_data_quiet] split: prod.splits option.splits)

lemma channel_close_passes: "channel_close mo parent p s = (ok, send, s1) \<Longrightarrow> passed a s1 = passed a s \<and> send"
  by (cases a) (auto simp: channel_close_def passed_emit Let_def split: prod.splits option.splits if_splits)

lemma open_shell_passes: "open_shell cfg mo k s = (ok, send, s1) \<Longrightarrow> passed a s1 = passed a s \<and> send"
  by (auto simp: open_shell_def Let_def split: option.splits if_splits)

lemma commands_quiet: "passed a (ssh_emit (map CommandSeen es) s) = passed a s"
  by (rule passed_quiet) (cases a; auto)

lemma open_exec_passes: "open_exec cfg mo k p s = (ok, send, s1) \<Longrightarrow> passed a s1 = passed a s \<and> send"
  by (auto simp: open_exec_def Let_def commands_quiet split: option.splits prod.splits)

lemma open_subsystem_passes:
  "open_subsystem cfg parent k p s = (ok, send, s1) \<Longrightarrow> passed a s1 = passed a s \<and>
    (ok \<longrightarrow> send = (sc_sftp cfg \<or> fst (extract_string (snd (extract_bool p))) \<noteq> ''sftp''))"
  by (auto simp: open_subsystem_def Let_def split: option.splits if_splits)

lemma channel_request_passes:
  assumes "channel_request cfg mo parent p s = (ok, send, s1)"
  shows "passed a s1 = passed a s \<and> (ok \<longrightarrow> send = (sc_sftp cfg \<or> fst (extract_string (snd (extract_int 4 p))) \<noteq> ''subsystem'' \<or>
    fst (extract_string (snd (extract_bool (snd (extract_string (snd (extract_int 4 p))))))) \<noteq> ''sftp''))"
proof -
  obtain n p1 where 1: "extract_int 4 p = (n, p1)" by fastforce
  obtain kind p2 where 2: "extract_string p1 = (kind, p2)" by fastforce
  show ?thesis
  proof (cases "get_channel n parent (sx_channels s)")
    case None
    then show ?thesis using assms by (simp add: channel_request_def 1)
  next
    case (Some k)
    then show ?thesis
      using assms open_shell_passes [of cfg mo k s ok send s1 a] open_exec_passes [of cfg mo k p2 s ok send s1 a]
        open_subsystem_passes [of cfg parent k p2 s ok send s1 a]
      by (auto simp: channel_request_def 1 2 split: if_splits prod.splits)
  qed
qed

lemma handle_message_passes:
  assumes "handle_message cfg mo parent num \<lparr>pk_data = payload, pk_size = int (length payload)\<rparr> s = (ok, send, s1)"
  shows "passed a s1 = passed a s \<and> (ok \<longrightarrow> send = passes cfg (num, payload))"
proof -
  let ?p = "\<lparr>pk_data = payload, pk_size = int (length payload)\<rparr>"
  consider "num \<in> {90, 98, 97, 94, 95}" | "num \<notin> {90, 98, 97, 94, 95}" by blast
  then show ?thesis
  proof cases
    case 1
    then show ?thesis
      using assms channel_open_passes [of cfg parent ?p s ok send s1 a] channel_request_passes [of cfg mo parent ?p s ok send s1 a]
        channel_close_passes [of mo parent ?p s ok send s1 a] channel_data_passes [of cfg mo parent False ?p s ok send s1 a]
        channel_data_passes [of cfg mo parent True ?p s ok send s1 a]
      by (auto simp: handle_message_def passes_def Let_def)
  next
    case 2
    then show ?thesis
      using assms passed_userauth [of a ?p s] passed_quiet [OF ext_infos_quiet]
      by (auto simp: handle_message_def passes_def Let_def info_request_def info_response_def channel_confirmed_def channel_failed_def
          global_request_def split: prod.splits option.splits if_splits)
  qed
qed

lemma parse_passes:
  assumes "parse_num_packet cfg mo parent num payload s = (ok, s1)"
  shows "passed a s1 = passed a s @ (if ok \<and> a = parent \<and> passes cfg (num, payload) then [(num, payload)] else [])"
proof -
  obtain ok' send s' where r: "handle_message cfg mo parent num \<lparr>pk_data = payload, pk_size = int (length payload)\<rparr> s = (ok', send, s')"
    by (metis prod_cases3)
  show ?thesis
    using assms r handle_message_passes [OF r, of a]
    by (cases ok'; cases a; cases parent; auto simp: parse_num_packet_def passed_emit split: if_splits)
qed

lemma parse_all_passes:
  "parse_all cfg mo parent ms s = (True, s1) \<Longrightarrow> passed a s1 = passed a s @ (if a = parent then filter (passes cfg) ms else [])"
proof (induction ms arbitrary: s)
  case (Cons m ms)
  obtain num payload where m: "m = (num, payload)" by (cases m)
  obtain s2 where s2: "parse_num_packet cfg mo parent num payload s = (True, s2)" "parse_all cfg mo parent ms s2 = (True, s1)"
    using Cons.prems by (auto simp: m split: prod.splits if_splits)
  show ?case using Cons.IH [OF s2(2)] parse_passes [OF s2(1), of a] by (simp add: m)
qed simp

section \<open>Order\<close>

text \<open>The messages of both sides that this layer gets: login messages stay with Twisted, and two answers of the machine are dropped.\<close>

fun client_message :: "ssh_event \<Rightarrow> message list" where
  "client_message (FromClient num payload) = (if num = 5 \<or> 50 \<le> num \<and> num \<le> 79 then [] else [(num, payload)])"
| "client_message _ = []"

fun machine_message :: "ssh_event \<Rightarrow> message list" where
  "machine_message (FromMachine num payload) = (if num = 6 \<or> num = 52 then [] else [(num, payload)])"
| "machine_message _ = []"

definition client_messages :: "(ssh_moment \<times> ssh_event) list \<Rightarrow> message list" where
  "client_messages es = concat (map (client_message \<circ> snd) es)"

definition machine_messages :: "(ssh_moment \<times> ssh_event) list \<Rightarrow> message list" where
  "machine_messages es = concat (map (machine_message \<circ> snd) es)"

text \<open>Passed on and held back together are what came, in order; nothing goes to the machine before it is ready, and then
  nothing is held back.\<close>

definition in_order :: "ssh_cfg \<Rightarrow> message list \<Rightarrow> message list \<Rightarrow> proxy \<Rightarrow> bool" where
  "in_order cfg cs ms x \<longleftrightarrow>
     passed Server (px_ssh x) @ filter (passes cfg) (px_delayed_front x) = filter (passes cfg) cs \<and>
     passed Client (px_ssh x) @ filter (passes cfg) (px_delayed_back x) = filter (passes cfg) ms \<and>
     (if px_backend_connected x then px_delayed_front x = [] else passed Server (px_ssh x) = [])"

lemma in_orderI:
  "passed Server (px_ssh x) @ filter (passes cfg) (px_delayed_front x) = filter (passes cfg) cs \<Longrightarrow>
   passed Client (px_ssh x) @ filter (passes cfg) (px_delayed_back x) = filter (passes cfg) ms \<Longrightarrow>
   (px_backend_connected x \<Longrightarrow> px_delayed_front x = []) \<Longrightarrow> (\<not> px_backend_connected x \<Longrightarrow> passed Server (px_ssh x) = []) \<Longrightarrow>
   in_order cfg cs ms x"
  by (simp add: in_order_def)

lemma authenticate_in_order:
  assumes "in_order cfg cs ms x" "authenticate_backend cfg mo x = (True, x1)"
  shows "in_order cfg cs ms x1"
proof (cases "px_frontend_authenticated x \<and> px_can_auth x")
  case True
  let ?login = "[ToMachine 5 (ssh_string ''ssh-userauth''), ToMachine 50 (ssh_string (sc_user cfg) @ ssh_string ''ssh-connection'' @
      ssh_string ''password'' @ [CHR 0x00] @ ssh_string (sc_password cfg))]"
  obtain s1 where s1: "parse_all cfg mo Server (px_delayed_front x) (ssh_emit ?login (px_ssh x)) = (True, s1)"
      "x1 = x\<lparr>px_ssh := s1, px_backend_connected := True, px_delayed_front := [], px_auth_done := True\<rparr>"
    using assms(2) True by (auto simp: authenticate_backend_def Let_def split: prod.splits if_splits)
  have "passed a (ssh_emit ?login (px_ssh x)) = passed a (px_ssh x)" for a by (cases a) (simp_all add: passed_emit)
  then show ?thesis
    using parse_all_passes [OF s1(1), of Server] parse_all_passes [OF s1(1), of Client] assms(1)
    by (simp add: in_order_def s1(2) split: if_splits)
qed (use assms in \<open>auto simp: authenticate_backend_def\<close>)

lemma front_in_order:
  assumes "in_order cfg cs ms x" "front_dispatch cfg mo num payload x = (True, x1)"
  shows "in_order cfg (cs @ client_message (FromClient num payload)) ms x1"
proof (cases "num = 5 \<or> 50 \<le> num \<and> num \<le> 79")
  case True
  then show ?thesis using assms by (auto simp: front_dispatch_def in_order_def split: if_splits)
next
  case False
  then have f: "front_buffer cfg mo num payload x = (True, x1)" using assms(2) by (auto simp: front_dispatch_def split: if_splits)
  show ?thesis
  proof (cases "px_backend_connected x \<and> px_delayed_front x = []")
    case True
    then obtain s where "parse_num_packet cfg mo Server num payload (px_ssh x) = (True, s)" "x1 = x\<lparr>px_ssh := s\<rparr>"
      using f by (auto simp: front_buffer_def split: prod.splits)
    then show ?thesis
      using assms(1) False True parse_passes [of cfg mo Server num payload "px_ssh x" True s Server]
        parse_passes [of cfg mo Server num payload "px_ssh x" True s Client]
      by (auto simp: in_order_def)
  next
    case n: False
    then have "x1 = x\<lparr>px_delayed_front := px_delayed_front x @ [(num, payload)]\<rparr>" using f by (auto simp: front_buffer_def)
    then show ?thesis using assms(1) False n by (auto simp: in_order_def split: if_splits)
  qed
qed

lemma back_in_order:
  assumes "in_order cfg cs ms x" "back_dispatch cfg mo num payload x = (True, x1)"
  shows "in_order cfg cs (ms @ machine_message (FromMachine num payload)) x1"
proof (cases "num = 6 \<or> num = 52")
  case True
  then show ?thesis using assms by (auto simp: back_dispatch_def in_order_def)
next
  case False
  then have f: "back_buffer cfg mo num payload x = (True, x1)" using assms(2) by (auto simp: back_dispatch_def)
  consider (hold) "\<not> px_frontend_authenticated x" | (flush) "px_frontend_authenticated x" "px_delayed_back x \<noteq> []"
    | (live) "px_frontend_authenticated x" "px_delayed_back x = []" by blast
  then show ?thesis
  proof cases
    case hold
    then have "x1 = x\<lparr>px_delayed_back := px_delayed_back x @ [(num, payload)]\<rparr>" using f by (simp add: back_buffer_def)
    then show ?thesis using assms(1) False by (simp add: in_order_def flip: append_assoc)
  next
    case flush
    then obtain s where s: "parse_all cfg mo Client (px_delayed_back x @ [(num, payload)]) (px_ssh x) = (True, s)"
        "x1 = x\<lparr>px_ssh := s, px_delayed_back := []\<rparr>"
      using f by (auto simp: back_buffer_def Let_def split: prod.splits if_splits)
    show ?thesis
      using assms(1) False parse_all_passes [OF s(1), of Server] parse_all_passes [OF s(1), of Client]
      by (simp add: in_order_def s(2) flip: append_assoc)
  next
    case live
    then obtain s where s: "parse_num_packet cfg mo Client num payload (px_ssh x) = (True, s)" "x1 = x\<lparr>px_ssh := s\<rparr>"
      using f by (auto simp: back_buffer_def split: prod.splits)
    show ?thesis
      using assms(1) False live parse_passes [OF s(1), of Server] parse_passes [OF s(1), of Client] by (simp add: in_order_def s(2))
  qed
qed

lemma step_in_order:
  assumes "in_order cfg cs ms x" "ssh_step cfg mo e x = (True, x1)"
  shows "in_order cfg (cs @ client_message e) (ms @ machine_message e) x1"
proof (cases e)
  case (FromClient num payload)
  then show ?thesis using front_in_order [of cfg cs ms x mo num payload x1] assms by (simp add: ssh_step_def)
next
  case (FromMachine num payload)
  then show ?thesis using back_in_order [of cfg cs ms x mo num payload x1] assms by (simp add: ssh_step_def)
next
  case LoggedIn
  let ?x = "x\<lparr>px_ssh := ssh_emit [ToClient 52 []] (px_ssh x), px_frontend_authenticated := True\<rparr>"
  have "passed a (ssh_emit [ToClient 52 []] (px_ssh x)) = passed a (px_ssh x)" for a by (cases a) (simp_all add: passed_emit)
  then have "in_order cfg cs ms ?x" using assms(1) by (simp add: in_order_def)
  then show ?thesis
    using assms(2) authenticate_in_order [of cfg cs ms ?x mo x1] by (auto simp: LoggedIn ssh_step_def finished_auth_def Let_def split: if_splits)
next
  case MachineConnected
  then show ?thesis using assms by (auto simp: ssh_step_def in_order_def)
next
  case MachineSecure
  have "in_order cfg cs ms (x\<lparr>px_can_auth := True\<rparr>)" using assms(1) by (simp add: in_order_def)
  then show ?thesis
    using assms(2) authenticate_in_order [of cfg cs ms "x\<lparr>px_can_auth := True\<rparr>" mo x1] by (simp add: MachineSecure ssh_step_def connection_secure_def)
qed

lemma run_in_order:
  "ssh_run cfg es x = (True, x1) \<Longrightarrow> in_order cfg cs ms x \<Longrightarrow> in_order cfg (cs @ client_messages es) (ms @ machine_messages es) x1"
proof (induction es arbitrary: x cs ms)
  case (Cons m es)
  obtain mo e where m: "m = (mo, e)" by (cases m)
  obtain x2 where x2: "ssh_step cfg mo e x = (True, x2)" "ssh_run cfg es x2 = (True, x1)"
    using Cons.prems(1) by (auto simp: m split: prod.splits if_splits)
  show ?case using Cons.IH [OF x2(2) step_in_order [OF Cons.prems(2) x2(1)]] by (simp add: m client_messages_def machine_messages_def)
qed (simp add: client_messages_def machine_messages_def)

section \<open>The guard\<close>

text \<open>In every state, raised or not: what has been passed on may be passed on, and before a login there is nothing.\<close>

definition guarded :: "ssh_cfg \<Rightarrow> ssh \<Rightarrow> bool" where
  "guarded cfg s \<longleftrightarrow> list_all (passes cfg) (passed Server s) \<and> list_all (passes cfg) (passed Client s)"

lemma parse_guarded: "parse_num_packet cfg mo parent num payload s = (ok, s1) \<Longrightarrow> guarded cfg s \<Longrightarrow> guarded cfg s1"
  using parse_passes [of cfg mo parent num payload s ok s1 Server] parse_passes [of cfg mo parent num payload s ok s1 Client]
  by (auto simp: guarded_def split: if_splits)

lemma parse_all_guarded: "parse_all cfg mo parent ms s = (ok, s1) \<Longrightarrow> guarded cfg s \<Longrightarrow> guarded cfg s1"
proof (induction ms arbitrary: s)
  case (Cons m ms)
  obtain num payload where m: "m = (num, payload)" by (cases m)
  obtain k s2 where s2: "parse_num_packet cfg mo parent num payload s = (k, s2)" by fastforce
  show ?case using Cons.IH [of s2] Cons.prems parse_guarded [OF s2] by (auto simp: m s2 split: if_splits)
qed simp

lemma own_guarded: "guarded cfg s \<Longrightarrow> (\<And>a e. e \<in> set es \<Longrightarrow> passed_on a e = []) \<Longrightarrow> guarded cfg (ssh_emit es s)"
  by (simp add: guarded_def passed_quiet)

lemma authenticate_guarded: "guarded cfg (px_ssh x) \<Longrightarrow> authenticate_backend cfg mo x = (ok, x1) \<Longrightarrow> guarded cfg (px_ssh x1)"
proof -
  assume g: "guarded cfg (px_ssh x)" and a: "authenticate_backend cfg mo x = (ok, x1)"
  let ?s = "ssh_emit [ToMachine 5 (ssh_string ''ssh-userauth''), ToMachine 50 (ssh_string (sc_user cfg) @ ssh_string ''ssh-connection'' @
      ssh_string ''password'' @ [CHR 0x00] @ ssh_string (sc_password cfg))] (px_ssh x)"
  have "guarded cfg ?s" by (rule own_guarded [OF g]) (rename_tac a e, case_tac a; auto)
  moreover obtain k s1 where "parse_all cfg mo Server (px_delayed_front x) ?s = (k, s1)" by fastforce
  ultimately show "guarded cfg (px_ssh x1)"
    using a g parse_all_guarded [of cfg mo Server "px_delayed_front x" ?s k s1] by (auto simp: authenticate_backend_def Let_def split: if_splits)
qed

lemma step_guarded: "guarded cfg (px_ssh x) \<Longrightarrow> ssh_step cfg mo e x = (ok, x1) \<Longrightarrow> guarded cfg (px_ssh x1)"
proof (cases e)
  case LoggedIn
  assume g: "guarded cfg (px_ssh x)" and a: "ssh_step cfg mo e x = (ok, x1)"
  have "guarded cfg (ssh_emit [ToClient 52 []] (px_ssh x))" by (rule own_guarded [OF g]) (rename_tac a e, case_tac a; auto)
  then show ?thesis
    using a authenticate_guarded [of cfg "x\<lparr>px_ssh := ssh_emit [ToClient 52 []] (px_ssh x), px_frontend_authenticated := True\<rparr>" mo ok x1]
    by (auto simp: LoggedIn ssh_step_def finished_auth_def Let_def split: if_splits)
qed (auto simp: ssh_step_def front_dispatch_def front_buffer_def back_dispatch_def back_buffer_def connection_secure_def Let_def
    intro: parse_guarded parse_all_guarded authenticate_guarded [rotated] split: if_splits prod.splits)

lemma run_guarded: "guarded cfg (px_ssh x) \<Longrightarrow> guarded cfg (px_ssh (snd (ssh_run cfg es x)))"
proof (induction es arbitrary: x)
  case (Cons m es)
  obtain mo e where m: "m = (mo, e)" by (cases m)
  obtain ok x1 where x1: "ssh_step cfg mo e x = (ok, x1)" by fastforce
  show ?case using Cons.IH [of x1] step_guarded [OF Cons.prems x1] by (simp add: m x1)
qed simp

definition untouched :: "disk_files \<Rightarrow> proxy \<Rightarrow> bool" where
  "untouched disk x \<longleftrightarrow> px_ssh x = new_ssh disk \<and> \<not> px_frontend_authenticated x \<and> \<not> px_backend_connected x"

lemma step_untouched: "untouched disk x \<Longrightarrow> e \<noteq> LoggedIn \<Longrightarrow> \<exists>x1. ssh_step cfg mo e x = (True, x1) \<and> untouched disk x1"
  by (cases e) (auto simp: untouched_def ssh_step_def front_dispatch_def front_buffer_def back_dispatch_def back_buffer_def
      connection_secure_def authenticate_backend_def)

lemma run_untouched: "untouched disk x \<Longrightarrow> LoggedIn \<notin> set (map snd es) \<Longrightarrow> untouched disk (snd (ssh_run cfg es x))"
proof (induction es arbitrary: x)
  case (Cons m es)
  obtain mo e where m: "m = (mo, e)" by (cases m)
  obtain x1 where "ssh_step cfg mo e x = (True, x1)" "untouched disk x1" using step_untouched [OF Cons.prems(1), of e cfg mo] Cons.prems(2) by (auto simp: m)
  then show ?case using Cons.IH [of x1] Cons.prems(2) by (simp add: m)
qed simp

section \<open>Properties\<close>


definition example_ssh :: ssh_cfg where
  "example_ssh = \<lparr>sc_forwarding = False, sc_sftp = True, sc_ttylog = False, sc_tty_dir = [], sc_download_dir = [], sc_decode = Some,
     sc_user = ''root'', sc_password = ''s3cret''\<rparr>"

definition ssh_example_session :: "(ssh_moment \<times> ssh_event) list" where
  "ssh_example_session = map (Pair \<lparr>mo_stamp = 0, mo_log = []\<rparr>)
     [FromClient 50 [], FromClient 93 ''a'', LoggedIn, FromClient 80 (ssh_string ''tcpip-forward'' @ ''x''), MachineConnected, MachineSecure,
      FromClient 93 ''b'', FromMachine 93 ''c'']"

lemma example_session_run:
  "ssh_run example_ssh ssh_example_session (new_proxy []) = (True, snd (ssh_run example_ssh ssh_example_session (new_proxy [])))"
  "px_backend_connected (snd (ssh_run example_ssh ssh_example_session (new_proxy [])))"
  "passed Server (px_ssh (snd (ssh_run example_ssh ssh_example_session (new_proxy [])))) = [(93, ''a''), (93, ''b'')]"
  by (simp_all add: ssh_example_session_def example_ssh_def new_proxy_def new_ssh_def ssh_step_def front_dispatch_def front_buffer_def
      finished_auth_def connection_secure_def authenticate_backend_def back_dispatch_def back_buffer_def parse_num_packet_def handle_message_def
      global_request_def send_back_def ssh_emit_def extract_string_be passed_def Let_def)

lemma example_passes:
  "passes example_ssh (93, d)" "\<not> passes example_ssh (80, ssh_string ''tcpip-forward'' @ ''x'')"
  by (simp_all add: passes_def example_ssh_def Let_def extract_string_be)


text \<open>C38: Whatever comes, in any order and even if something raises: no message is passed on, in either direction, unless the client has
  logged in; messages of the login never are, so that no side sees the credentials of the other; and with forwarding disabled
  no open of a TCP channel and no request for one is.\<close>

theorem proxy_guard:
  assumes "(num, payload) \<in> set (passed parent (px_ssh (snd (ssh_run cfg es (new_proxy disk)))))"
    and "kind = fst (extract_string \<lparr>pk_data = payload, pk_size = int (length payload)\<rparr>)"
  shows "LoggedIn \<in> set (map snd es) \<and> num \<notin> {50, 51, 52, 53, 60, 61} \<and>
    (sc_forwarding cfg \<or> (num, kind) \<notin> {(90, ''direct-tcpip''), (90, ''forwarded-tcpip''), (80, ''tcpip-forward'')})"
proof -
  let ?x = "snd (ssh_run cfg es (new_proxy disk))"
  have "LoggedIn \<in> set (map snd es)"
  proof (rule ccontr)
    assume n: "LoggedIn \<notin> set (map snd es)"
    have "untouched disk (new_proxy disk)" by (simp add: untouched_def new_proxy_def)
    then have "px_ssh ?x = new_ssh disk" using run_untouched [OF _ n, of disk "new_proxy disk" cfg] by (simp add: untouched_def)
    then show False using assms(1) by (simp add: passed_def new_ssh_def)
  qed
  moreover have "guarded cfg (px_ssh ?x)"
    by (rule run_guarded) (simp add: new_proxy_def new_ssh_def guarded_def passed_def)
  then have "passes cfg (num, payload)" using assms(1) by (cases parent) (auto simp: guarded_def list_all_iff)
  ultimately show ?thesis using assms(2) by (auto simp: passes_def Let_def split: if_splits)
qed

theorem proxy_guard_witness:
  "LoggedIn \<in> set (map snd ssh_example_session) \<and>
   (93, ''a'') \<in> set (passed Server (px_ssh (snd (ssh_run example_ssh ssh_example_session (new_proxy [])))))"
proof -
  have p: "(93, ''a'') \<in> set (passed Server (px_ssh (snd (ssh_run example_ssh ssh_example_session (new_proxy [])))))"
    by (simp add: example_session_run(3))
  from proxy_guard [OF p refl] p show ?thesis by simp
qed

section \<open>Defects\<close>

text \<open>While a channel is being opened, a message on a channel behind it in the list raises.\<close>

lemma pending_channel_breaks_others:
  assumes "sx_channels s = c # cs" "ch_client c = None"
  shows "\<not> fst (parse_num_packet cfg mo Server 94 (put_int n @ ssh_string data) s)"
  using assms
  by (auto simp: parse_num_packet_def handle_message_def channel_data_def peer_number_def split: prod.splits)

text \<open>When a message that was held back raises, the rest is held back for ever, with all messages that come later.\<close>

lemma held_back_for_ever:
  assumes "px_delayed_front x \<noteq> []" "num \<noteq> 5" "\<not> (50 \<le> num \<and> num \<le> 79)"
  shows "front_dispatch cfg mo num payload x = (True, x\<lparr>px_delayed_front := px_delayed_front x @ [(num, payload)]\<rparr>)"
  using assms by (auto simp: front_dispatch_def front_buffer_def)

text \<open>Forwarding to a Unix socket is not a channel of the list, so it is passed on with forwarding disabled.\<close>

lemma streamlocal_passes: "passes cfg (90, ssh_string ''direct-streamlocal@openssh.com'' @ rest)"
  by (simp add: passes_def Let_def extract_string_be)

text \<open>A count of four bytes makes as many log entries.\<close>

lemma ext_infos_counted: "length (ext_infos n p) = n"
  by (induction n p rule: ext_infos.induct) (auto split: prod.splits)

end
